(* ===== verification/Prelude.thy ===== *)
theory Prelude
  imports Main "HOL-Library.Word" "HOL-Library.List_Lexorder" "HOL-Library.Char_ord"
    "HOL-Library.Product_Lexorder" "HOL-Library.Option_ord"
begin

text \<open>
  Shared vocabulary of the development: the machine types of the Rust sources, the results of
  fallible calls, the parts of the Rust standard library the sources use (\<^verbatim>\<open>BTreeMap\<close>,
  \<^verbatim>\<open>BTreeSet\<close>, \<^verbatim>\<open>to_be_bytes\<close>, \<^verbatim>\<open>as i64\<close>, \<^verbatim>\<open>str::as_bytes\<close>, \<^verbatim>\<open>String::from_utf8\<close>), and the
  meaning of the SQL statements the storage modules send to SQLite.  The lemmas on them are
  declared to the simplifier or to the collections below, and carry the component proofs.

  A Rust \<^verbatim>\<open>String\<close> or \<^verbatim>\<open>str\<close> is a \<^typ>\<open>string\<close>: the list of its UTF-8 bytes, one
  \<^typ>\<open>char\<close> each, so that the order on strings is the byte order of Rust and of SQLite's
  BINARY collation.
\<close>

section \<open>Machine types, results\<close>

type_synonym u8 = "8 word"
type_synonym u64 = "64 word"
type_synonym bytes = "8 word list"

named_theorems sql_simps \<open>what the SQL statements do to a table\<close>
named_theorems bt_simps \<open>lookups after the operations of an ordered map\<close>

text \<open>\<^verbatim>\<open>Result<T, E>\<close> is \<^typ>\<open>'e + 'a\<close>; \<open>and_then\<close> is the \<^verbatim>\<open>?\<close> operator.\<close>

fun and_then :: "'e + 'a \<Rightarrow> ('a \<Rightarrow> 'e + 'b) \<Rightarrow> 'e + 'b" where
  "and_then (Inl e) f = Inl e"
| "and_then (Inr x) f = f x"

fun ok_or :: "'a option \<Rightarrow> 'e \<Rightarrow> 'e + 'a" where
  "ok_or None e = Inl e"
| "ok_or (Some x) e = Inr x"

text \<open>\<^verbatim>\<open>collect::<Result<Vec<_>, _>>()\<close>: the first error, or all the values.\<close>

fun collect_results :: "('e + 'a) list \<Rightarrow> 'e + 'a list" where
  "collect_results [] = Inr []"
| "collect_results (Inl e # rs) = Inl e"
| "collect_results (Inr x # rs) =
     (case collect_results rs of Inl e \<Rightarrow> Inl e | Inr xs \<Rightarrow> Inr (x # xs))"

text \<open>The casts \<^verbatim>\<open>u64 as i64\<close> and \<^verbatim>\<open>i64 as u64\<close>.  An SQLite INTEGER column is an \<^typ>\<open>int\<close>.\<close>

definition as_i64 :: "u64 \<Rightarrow> int" where
  "as_i64 w = sint w"

definition as_u64 :: "int \<Rightarrow> u64" where
  "as_u64 i = word_of_int i"

text \<open>\<^verbatim>\<open>u64::to_be_bytes\<close>: eight bytes, the most significant first.\<close>

definition to_be_bytes :: "u64 \<Rightarrow> bytes" where
  "to_be_bytes n = map (\<lambda>i. ucast (drop_bit (56 - 8 * i) n)) [0..<8]"

section \<open>Strings and bytes\<close>

definition byte_of_char :: "char \<Rightarrow> u8" where
  "byte_of_char c = of_char c"

definition char_of_byte :: "u8 \<Rightarrow> char" where
  "char_of_byte b = char_of (unat b)"

definition as_bytes :: "string \<Rightarrow> bytes" where
  "as_bytes s = map byte_of_char s"

text \<open>
  The well-formed UTF-8 byte sequences (Unicode, table 3-7), which is what
  \<^verbatim>\<open>String::from_utf8\<close> accepts.
\<close>

definition cont_byte :: "u8 \<Rightarrow> bool" where
  "cont_byte b \<longleftrightarrow> 128 \<le> b \<and> b \<le> 191"

fun utf8_valid :: "bytes \<Rightarrow> bool" where
  "utf8_valid [] = True"
| "utf8_valid (a # bs) =
     (if a \<le> 127 then utf8_valid bs
      else if 194 \<le> a \<and> a \<le> 223 then
        (case bs of b # cs \<Rightarrow> cont_byte b \<and> utf8_valid cs | _ \<Rightarrow> False)
      else if 224 \<le> a \<and> a \<le> 239 then
        (case bs of b # c # cs \<Rightarrow>
           cont_byte b \<and> (a = 224 \<longrightarrow> 160 \<le> b) \<and> (a = 237 \<longrightarrow> b \<le> 159) \<and> cont_byte c
             \<and> utf8_valid cs
         | _ \<Rightarrow> False)
      else if 240 \<le> a \<and> a \<le> 244 then
        (case bs of b # c # d # cs \<Rightarrow>
           cont_byte b \<and> (a = 240 \<longrightarrow> 144 \<le> b) \<and> (a = 244 \<longrightarrow> b \<le> 143) \<and> cont_byte c
             \<and> cont_byte d \<and> utf8_valid cs
         | _ \<Rightarrow> False)
      else False)"

definition from_utf8 :: "bytes \<Rightarrow> string option" where
  "from_utf8 bs = (if utf8_valid bs then Some (map char_of_byte bs) else None)"

text \<open>Every Rust \<^verbatim>\<open>str\<close> is valid UTF-8.\<close>

definition is_str :: "string \<Rightarrow> bool" where
  "is_str s \<longleftrightarrow> utf8_valid (as_bytes s)"

text \<open>
  ASCII case mapping of single bytes: \<^verbatim>\<open>char::to_ascii_uppercase\<close>, and the folding of
  \<^verbatim>\<open>eq_ignore_ascii_case\<close> and of SQLite's NOCASE collation.
\<close>

definition to_ascii_lowercase :: "char \<Rightarrow> char" where
  "to_ascii_lowercase c =
     (let n = of_char c :: nat in if 65 \<le> n \<and> n \<le> 90 then char_of (n + 32) else c)"

definition to_ascii_uppercase :: "char \<Rightarrow> char" where
  "to_ascii_uppercase c =
     (let n = of_char c :: nat in if 97 \<le> n \<and> n \<le> 122 then char_of (n - 32) else c)"

definition nocase :: "string \<Rightarrow> string" where
  "nocase s = map to_ascii_lowercase s"

definition eq_ignore_ascii_case :: "string \<Rightarrow> string \<Rightarrow> bool" where
  "eq_ignore_ascii_case s t \<longleftrightarrow> nocase s = nocase t"

section \<open>Ordered maps and sets\<close>

text \<open>
  \<^verbatim>\<open>BTreeMap<K, V>\<close> is the list of its entries in key order (its iteration order);
  \<^verbatim>\<open>BTreeSet<T>\<close> is the list of its elements in order.
\<close>

type_synonym ('k, 'v) btree = "('k \<times> 'v) list"

definition bt_wf :: "('k::linorder, 'v) btree \<Rightarrow> bool" where
  "bt_wf m \<longleftrightarrow> sorted (map fst m) \<and> distinct (map fst m)"

definition bt_get :: "('k, 'v) btree \<Rightarrow> 'k \<Rightarrow> 'v option" where
  "bt_get m k = map_of m k"

definition bt_remove :: "'k \<Rightarrow> ('k, 'v) btree \<Rightarrow> ('k, 'v) btree" where
  "bt_remove k m = filter (\<lambda>p. fst p \<noteq> k) m"

definition bt_insert :: "'k::linorder \<Rightarrow> 'v \<Rightarrow> ('k, 'v) btree \<Rightarrow> ('k, 'v) btree" where
  "bt_insert k v m = insort_key fst (k, v) (bt_remove k m)"

text \<open>\<^verbatim>\<open>entry(k).or_insert(v)\<close>, and a write through \<^verbatim>\<open>get_mut(k)\<close>.\<close>

definition bt_or_insert :: "'k::linorder \<Rightarrow> 'v \<Rightarrow> ('k, 'v) btree \<Rightarrow> ('k, 'v) btree" where
  "bt_or_insert k v m = (case bt_get m k of None \<Rightarrow> bt_insert k v m | Some _ \<Rightarrow> m)"

definition bt_modify :: "'k \<Rightarrow> ('v \<Rightarrow> 'v) \<Rightarrow> ('k, 'v) btree \<Rightarrow> ('k, 'v) btree" where
  "bt_modify k f m = map (\<lambda>(a, b). (a, if a = k then f b else b)) m"

text \<open>\<^verbatim>\<open>iter.collect::<BTreeMap<_, _>>()\<close> inserts the items one after the other.\<close>

definition bt_collect :: "('k::linorder \<times> 'v) list \<Rightarrow> ('k, 'v) btree" where
  "bt_collect ps = fold (\<lambda>(k, v). bt_insert k v) ps []"

definition bset_wf :: "'a::linorder list \<Rightarrow> bool" where
  "bset_wf s \<longleftrightarrow> sorted s \<and> distinct s"

definition bset_insert :: "'a::linorder \<Rightarrow> 'a list \<Rightarrow> 'a list" where
  "bset_insert x s = insort_insert x s"

definition bset_collect :: "'a::linorder list \<Rightarrow> 'a list" where
  "bset_collect xs = fold bset_insert xs []"

section \<open>SQL statements\<close>

text \<open>
  A table is the list of its rows in rowid order; \<open>key\<close> gives a row's primary key.  A
  statement returns the new table and, where the code reads it, the number of changed rows.
\<close>

definition has_key :: "('r \<Rightarrow> 'k) \<Rightarrow> 'k \<Rightarrow> 'r list \<Rightarrow> bool" where
  "has_key key k t \<longleftrightarrow> (\<exists>r \<in> set t. key r = k)"

text \<open>\<^verbatim>\<open>INSERT OR IGNORE\<close>\<close>

definition insert_or_ignore :: "('r \<Rightarrow> 'k) \<Rightarrow> 'r \<Rightarrow> 'r list \<Rightarrow> 'r list \<times> nat" where
  "insert_or_ignore key r t = (if has_key key (key r) t then (t, 0) else (t @ [r], 1))"

text \<open>
  \<^verbatim>\<open>INSERT ... ON CONFLICT(key) DO UPDATE SET\<close>: \<open>mrg old excluded\<close> is the updated row.
\<close>

definition upsert :: "('r \<Rightarrow> 'k) \<Rightarrow> ('r \<Rightarrow> 'r \<Rightarrow> 'r) \<Rightarrow> 'r \<Rightarrow> 'r list \<Rightarrow> 'r list" where
  "upsert key mrg r t =
     (if has_key key (key r) t then map (\<lambda>old. if key old = key r then mrg old r else old) t
      else t @ [r])"

text \<open>\<^verbatim>\<open>UPDATE ... WHERE\<close>, \<^verbatim>\<open>DELETE ... WHERE\<close>, \<^verbatim>\<open>SELECT COUNT(*) ... WHERE\<close>\<close>

definition update_where :: "('r \<Rightarrow> bool) \<Rightarrow> ('r \<Rightarrow> 'r) \<Rightarrow> 'r list \<Rightarrow> 'r list" where
  "update_where p f t = map (\<lambda>r. if p r then f r else r) t"

definition delete_where :: "('r \<Rightarrow> bool) \<Rightarrow> 'r list \<Rightarrow> 'r list" where
  "delete_where p t = filter (\<lambda>r. \<not> p r) t"

definition count_where :: "('r \<Rightarrow> bool) \<Rightarrow> 'r list \<Rightarrow> nat" where
  "count_where p t = length (filter p t)"

text \<open>
  \<^verbatim>\<open>query_row(...).optional()\<close> reads the first row that matches, \<^verbatim>\<open>SELECT ... WHERE ... ORDER BY\<close>
  all of them in the order of a key.
\<close>

definition select_one :: "('r \<Rightarrow> bool) \<Rightarrow> 'r list \<Rightarrow> 'r option" where
  "select_one p t = find p t"

definition select_order_by :: "('r \<Rightarrow> 'o::linorder) \<Rightarrow> ('r \<Rightarrow> bool) \<Rightarrow> 'r list \<Rightarrow> 'r list" where
  "select_order_by ord p t = sort_key ord (filter p t)"

text \<open>\<^verbatim>\<open>LIMIT l OFFSET o\<close>: a negative limit is no limit, a negative offset is none.\<close>

definition limit_offset :: "int \<Rightarrow> int \<Rightarrow> 'r list \<Rightarrow> 'r list" where
  "limit_offset l o1 t = (let s = drop (nat o1) t in if l < 0 then s else take (nat l) s)"

text \<open>The matches of a row in a \<^verbatim>\<open>LEFT JOIN\<close>: one row of NULLs when there is none.\<close>

definition left_join :: "('r \<Rightarrow> bool) \<Rightarrow> 'r list \<Rightarrow> 'r option list" where
  "left_join p t = (case filter p t of [] \<Rightarrow> [None] | rs \<Rightarrow> map Some rs)"

text \<open>The primary-key constraint of a table.\<close>

definition pk_ok :: "('r \<Rightarrow> 'k) \<Rightarrow> 'r list \<Rightarrow> bool" where
  "pk_ok key t \<longleftrightarrow> distinct (map key t)"

section \<open>Lemmas: results and casts\<close>

lemma and_then_Inr_iff: "and_then r f = Inr y \<longleftrightarrow> (\<exists>x. r = Inr x \<and> f x = Inr y)"
  by (cases r) auto

lemma and_then_Inl_iff:
  "and_then r f = Inl e \<longleftrightarrow> r = Inl e \<or> (\<exists>x. r = Inr x \<and> f x = Inl e)"
  by (cases r) auto

lemma ok_or_Inr_iff [simp]: "ok_or o1 e = Inr x \<longleftrightarrow> o1 = Some x"
  by (cases o1) auto

lemma ok_or_Inl_iff [simp]: "ok_or o1 e = Inl e' \<longleftrightarrow> o1 = None \<and> e' = e"
  by (cases o1) auto

lemma collect_results_Inr [simp]: "collect_results (map Inr xs) = Inr xs"
  by (induction xs) auto

lemma collect_results_InrD: "collect_results rs = Inr xs \<Longrightarrow> rs = map Inr xs"
proof (induction rs arbitrary: xs)
  case (Cons r rs)
  then show ?case by (cases r) (auto split: sum.splits)
qed simp

lemma as_u64_as_i64 [simp]: "as_u64 (as_i64 w) = w"
  by (simp add: as_u64_def as_i64_def)

lemma as_i64_inject [simp]: "as_i64 v = as_i64 w \<longleftrightarrow> v = w"
  by (metis as_u64_as_i64)

lemma map_option_casts [simp]: "map_option as_u64 (map_option as_i64 x) = x"
  by (cases x) auto

lemma as_i64_small:
  assumes "unat w < 2 ^ 63"
  shows "as_i64 w = int (unat w)"
proof -
  have "int (unat w) < int (2 ^ 63)" using assms by (rule of_nat_less_iff [THEN iffD2])
  then have "uint w < 2 ^ 63" by simp
  moreover have "- (2 ^ 63) \<le> uint w" by (rule order_trans [OF _ uint_ge_0]) simp
  ultimately have "signed_take_bit 63 (uint w) = uint w" by (rule signed_take_bit_int_eq_self [rotated])
  then show ?thesis by (simp add: as_i64_def sint_uint)
qed

lemma uint_as_u64: "0 \<le> x \<Longrightarrow> x < 2 ^ 63 \<Longrightarrow> uint (as_u64 x) = x"
  by (simp add: as_u64_def unsigned_of_int take_bit_int_eq_self)

lemma as_i64_neg:
  assumes "2 ^ 63 \<le> unat w"
  shows "as_i64 w < 0"
proof -
  have "int (2 ^ 63) \<le> int (unat w)" using assms by (rule of_nat_le_iff [THEN iffD2])
  then have lo: "2 ^ 63 \<le> uint w" by simp
  have hi: "uint w < 2 ^ 64" using uint_lt2p [of w] by simp
  have "uint w div 2 ^ 63 = 1"
    by (rule int_div_pos_eq [where r = "uint w - 2 ^ 63"]) (use lo hi in simp_all)
  then have "bit (uint w) 63" by (simp only: bit_iff_odd) simp
  then have "signed_take_bit 63 (uint w) < 0" by (simp only: signed_take_bit_negative_iff)
  then show ?thesis by (simp add: as_i64_def sint_uint)
qed

lemma length_to_be_bytes [simp]: "length (to_be_bytes n) = 8"
  by (simp add: to_be_bytes_def)

lemma bit_to_be_bytes:
  assumes "j < 64"
  shows "bit n j = bit (to_be_bytes n ! (7 - j div 8)) (j mod 8)"
proof -
  have "56 - 8 * (7 - j div 8) + j mod 8 = j" using assms by presburger
  moreover have "to_be_bytes n ! (7 - j div 8) = ucast (drop_bit (56 - 8 * (7 - j div 8)) n)"
    unfolding to_be_bytes_def by (subst nth_map) (simp_all only: nth_upt length_upt, simp_all)
  moreover have "j mod 8 < LENGTH(8)" by simp
  ultimately show ?thesis
    by (simp only: bit_ucast_iff bit_drop_bit_eq comp_apply) simp
qed

lemma to_be_bytes_inject [simp]: "to_be_bytes m = to_be_bytes n \<longleftrightarrow> m = n"
proof
  assume eq: "to_be_bytes m = to_be_bytes n"
  show "m = n"
  proof (rule bit_word_eqI)
    fix j :: nat
    assume "j < LENGTH(64)"
    then have "j < 64" by simp
    then show "bit m j = bit n j" using bit_to_be_bytes [of j m] bit_to_be_bytes [of j n] eq by simp
  qed
qed simp

section \<open>Lemmas: strings\<close>

lemma char_of_byte_of_char [simp]: "char_of_byte (byte_of_char c) = c"
proof -
  have "unat (of_nat (of_char c) :: u8) = of_char c"
    using nat_of_char_less_256 [of c] by (simp add: unat_of_nat del: of_nat_of_char)
  then have "unat (of_char c :: u8) = of_char c" by (simp only: of_nat_of_char)
  then show ?thesis by (simp add: char_of_byte_def byte_of_char_def)
qed

lemma byte_of_char_inject [simp]: "byte_of_char c = byte_of_char d \<longleftrightarrow> c = d"
  by (metis char_of_byte_of_char)

lemma length_as_bytes [simp]: "length (as_bytes s) = length s"
  by (simp add: as_bytes_def)

lemma as_bytes_inject [simp]: "as_bytes s = as_bytes t \<longleftrightarrow> s = t"
  by (auto simp: as_bytes_def inj_on_def dest!: map_injective)

lemma as_bytes_Nil [simp]: "as_bytes [] = []"
  by (simp add: as_bytes_def)

lemma as_bytes_append [simp]: "as_bytes (s @ t) = as_bytes s @ as_bytes t"
  by (simp add: as_bytes_def)

lemma from_utf8_as_bytes [simp]: "is_str s \<Longrightarrow> from_utf8 (as_bytes s) = Some s"
  by (simp add: from_utf8_def is_str_def as_bytes_def comp_def)

section \<open>Lemmas: ordered maps and sets\<close>

lemma map_of_filter_neq: "map_of (filter (\<lambda>p. fst p \<noteq> k) m) = (map_of m)(k := None)"
  by (induction m) (auto simp: fun_eq_iff)

lemma map_of_insort_fresh:
  "k \<notin> fst ` set m \<Longrightarrow> map_of (insort_key fst (k, v) m) = (map_of m)(k \<mapsto> v)"
  by (induction m) (auto simp: fun_eq_iff)

lemma bt_get_Nil [simp, bt_simps]: "bt_get [] k = None"
  by (simp add: bt_get_def)

lemma bt_get_remove [simp, bt_simps]: "bt_get (bt_remove k m) = (bt_get m)(k := None)"
  by (simp add: bt_get_def bt_remove_def map_of_filter_neq fun_eq_iff)

lemma bt_get_insert [simp, bt_simps]: "bt_get (bt_insert k v m) = (bt_get m)(k \<mapsto> v)"
proof -
  have "k \<notin> fst ` set (bt_remove k m)" by (auto simp: bt_remove_def)
  then have "map_of (bt_insert k v m) = (map_of (bt_remove k m))(k \<mapsto> v)"
    unfolding bt_insert_def by (rule map_of_insort_fresh)
  then show ?thesis
    by (simp add: bt_get_def bt_remove_def map_of_filter_neq fun_eq_iff)
qed

lemma bt_get_or_insert [bt_simps]:
  "bt_get (bt_or_insert k v m) = (case bt_get m k of None \<Rightarrow> (bt_get m)(k \<mapsto> v) | Some _ \<Rightarrow> bt_get m)"
  by (simp add: bt_or_insert_def split: option.splits)

lemma bt_get_modify [bt_simps]:
  "bt_get (bt_modify k f m) = (bt_get m)(k := map_option f (bt_get m k))"
  by (induction m) (auto simp: bt_get_def bt_modify_def fun_eq_iff)

lemma bt_wf_Nil [simp, intro!]: "bt_wf []"
  by (simp add: bt_wf_def)

lemma bt_wf_remove [simp, intro]: "bt_wf m \<Longrightarrow> bt_wf (bt_remove k m)"
  by (auto simp: bt_wf_def bt_remove_def sorted_filter distinct_map_filter)

lemma bt_wf_insert [simp, intro]:
  assumes "bt_wf m"
  shows "bt_wf (bt_insert k v m)"
proof -
  have "bt_wf (bt_remove k m)" using assms by simp
  moreover have "k \<notin> fst ` set (bt_remove k m)" by (auto simp: bt_remove_def)
  ultimately show ?thesis
    by (force simp: bt_wf_def bt_insert_def sorted_insort_key distinct_map distinct_insort
        set_insort_key inj_on_def)
qed

lemma bt_wf_or_insert [simp, intro]: "bt_wf m \<Longrightarrow> bt_wf (bt_or_insert k v m)"
  by (simp add: bt_or_insert_def split: option.splits)

lemma keys_bt_modify [simp]: "map fst (bt_modify k f m) = map fst m"
  by (simp add: bt_modify_def case_prod_unfold comp_def)

lemma bt_wf_modify [simp, intro]: "bt_wf m \<Longrightarrow> bt_wf (bt_modify k f m)"
  by (simp add: bt_wf_def)

lemma bt_get_iff: "bt_wf m \<Longrightarrow> bt_get m k = Some v \<longleftrightarrow> (k, v) \<in> set m"
  by (simp add: bt_get_def bt_wf_def)

lemma bt_eqI:
  assumes "bt_wf m" "bt_wf n" "bt_get m = bt_get n"
  shows "m = n"
proof -
  have "set m = set n"
    using assms by (auto simp: bt_get_iff [symmetric])
  moreover have "inj_on fst (set m \<union> set n)"
    using assms \<open>set m = set n\<close> by (simp add: bt_wf_def distinct_map)
  ultimately show ?thesis
    using assms by (auto simp: bt_wf_def intro: map_sorted_distinct_set_unique)
qed

lemma bt_insert_get: "bt_wf m \<Longrightarrow> bt_get m k = Some v \<Longrightarrow> bt_insert k v m = m"
  by (rule bt_eqI) (auto simp: fun_eq_iff)

lemma length_bt_remove:
  assumes "bt_wf m" "bt_get m k = Some v"
  shows "Suc (length (bt_remove k m)) = length m"
  using assms
proof (induction m)
  case (Cons p m)
  show ?case
  proof (cases "fst p = k")
    case True
    then have "k \<notin> fst ` set m" using Cons.prems(1) by (auto simp: bt_wf_def)
    then have "filter (\<lambda>p. fst p \<noteq> k) m = m" by (auto simp: filter_id_conv)
    with True show ?thesis by (simp add: bt_remove_def)
  next
    case False
    with Cons show ?thesis by (cases p) (auto simp: bt_wf_def bt_get_def bt_remove_def)
  qed
qed simp

lemma length_bt_insert_fresh: "bt_get m k = None \<Longrightarrow> length (bt_insert k v m) = Suc (length m)"
proof -
  assume "bt_get m k = None"
  then have "bt_remove k m = m"
    by (auto simp: bt_remove_def bt_get_def map_of_eq_None_iff filter_id_conv)
  then show ?thesis by (simp add: bt_insert_def)
qed

lemma bset_insert_props [simp]:
  "set (bset_insert x s) = insert x (set s)"
  "bset_wf s \<Longrightarrow> bset_wf (bset_insert x s)"
  by (simp_all add: bset_insert_def bset_wf_def set_insort_insert sorted_insort_insert
      distinct_insort_insert)

lemma bset_wf_Nil [simp]: "bset_wf []"
  by (simp add: bset_wf_def)

lemma bset_eqI: "bset_wf s \<Longrightarrow> bset_wf t \<Longrightarrow> set s = set t \<Longrightarrow> s = t"
  by (simp add: bset_wf_def sorted_distinct_set_unique)

lemma bset_collect_fold:
  "set (fold bset_insert xs s) = set xs \<union> set s \<and> (bset_wf s \<longrightarrow> bset_wf (fold bset_insert xs s))"
  by (induction xs arbitrary: s) auto

lemma set_bset_collect [simp]: "set (bset_collect xs) = set xs"
  by (simp add: bset_collect_def bset_collect_fold)

lemma bset_wf_collect [simp]: "bset_wf (bset_collect xs)"
  by (simp add: bset_collect_def bset_collect_fold)

lemma bset_collect_id: "bset_wf s \<Longrightarrow> bset_collect s = s"
  by (rule bset_eqI) auto

lemma bt_collect_fold:
  "bt_wf m \<Longrightarrow> bt_wf (fold (\<lambda>(k, v). bt_insert k v) ps m)"
  "bt_get (fold (\<lambda>(k, v). bt_insert k v) ps m) = bt_get m ++ map_of (rev ps)"
  by (induction ps arbitrary: m) (auto simp: fun_eq_iff map_add_def split: option.splits)

lemma bt_wf_collect [simp]: "bt_wf (bt_collect ps)"
  by (simp add: bt_collect_def bt_collect_fold)

lemma bt_collect_id:
  assumes "bt_wf m"
  shows "bt_collect m = m"
proof (rule bt_eqI)
  have "distinct (map fst m)" using assms by (simp add: bt_wf_def)
  then have "map_of (rev m) = map_of m" by (metis map_of_inject_set distinct_rev rev_map set_rev)
  moreover have "bt_get (bt_collect m) = bt_get [] ++ map_of (rev m)"
    unfolding bt_collect_def by (rule bt_collect_fold)
  ultimately show "bt_get (bt_collect m) = bt_get m"
    by (simp add: bt_get_def [abs_def] map_add_def fun_eq_iff split: option.splits)
qed (simp_all add: assms)

section \<open>Lemmas: SQL statements\<close>

lemma has_key_Nil [simp]: "\<not> has_key key k []"
  by (simp add: has_key_def)

lemma has_key_image: "has_key key k t \<longleftrightarrow> k \<in> key ` set t"
  by (auto simp: has_key_def)

lemma set_insert_or_ignore [sql_simps]:
  "set (fst (insert_or_ignore key r t)) = (if has_key key (key r) t then set t else insert r (set t))"
  by (simp add: insert_or_ignore_def)

lemma has_key_insert_or_ignore [simp, sql_simps]:
  "has_key key k (fst (insert_or_ignore key r t)) \<longleftrightarrow> k = key r \<or> has_key key k t"
  by (auto simp: insert_or_ignore_def has_key_def)

lemma pk_ok_Nil [simp, intro!]: "pk_ok key []"
  by (simp add: pk_ok_def)

lemma pk_ok_insert_or_ignore [simp, intro]: "pk_ok key t \<Longrightarrow> pk_ok key (fst (insert_or_ignore key r t))"
  by (auto simp: insert_or_ignore_def pk_ok_def has_key_def)

lemma map_key_upsert:
  assumes "\<And>old. key old = key r \<Longrightarrow> key (mrg old r) = key r"
  shows "map key (upsert key mrg r t) = (if has_key key (key r) t then map key t else map key t @ [key r])"
  using assms by (auto simp: upsert_def)

lemma pk_ok_upsert [intro]:
  assumes "\<And>old. key old = key r \<Longrightarrow> key (mrg old r) = key r" and "pk_ok key t"
  shows "pk_ok key (upsert key mrg r t)"
  using assms by (auto simp: pk_ok_def map_key_upsert has_key_def)

lemma pk_ok_update_where [intro]:
  assumes "\<And>r. key (f r) = key r" and "pk_ok key t"
  shows "pk_ok key (update_where p f t)"
proof -
  have "map key (update_where p f t) = map key t" using assms(1) by (simp add: update_where_def)
  then show ?thesis using assms(2) by (simp add: pk_ok_def)
qed

lemma pk_ok_delete_where [simp, intro]: "pk_ok key t \<Longrightarrow> pk_ok key (delete_where p t)"
  by (simp add: pk_ok_def delete_where_def distinct_map_filter)

lemma set_delete_where [simp, sql_simps]: "set (delete_where p t) = {r \<in> set t. \<not> p r}"
  by (auto simp: delete_where_def)

lemma set_update_where [sql_simps]: "set (update_where p f t) = (\<lambda>r. if p r then f r else r) ` set t"
  by (simp add: update_where_def)

lemma set_select_order_by [simp, sql_simps]: "set (select_order_by ord p t) = {r \<in> set t. p r}"
  by (simp add: select_order_by_def)

lemma select_one_Some_iff:
  assumes "pk_ok key t"
  shows "select_one (\<lambda>r. key r = k) t = Some r \<longleftrightarrow> r \<in> set t \<and> key r = k"
  using assms by (induction t) (auto simp: select_one_def pk_ok_def)

lemma select_one_None_iff: "select_one p t = None \<longleftrightarrow> (\<forall>r \<in> set t. \<not> p r)"
  by (auto simp: select_one_def find_None_iff)

lemma find_map_key:
  assumes "\<And>x. key (g x) = key x"
  shows "find (\<lambda>x. key x = k) (map g t) = map_option g (find (\<lambda>x. key x = k) t)"
  by (induction t) (auto simp: assms)

lemma find_append: "find p (xs @ ys) = (case find p xs of None \<Rightarrow> find p ys | Some x \<Rightarrow> Some x)"
  by (induction xs) auto

lemma select_one_upsert:
  assumes "\<And>old. key old = key r \<Longrightarrow> key (mrg old r) = key r"
  shows "select_one (\<lambda>x. key x = k) (upsert key mrg r t) =
    (if k = key r then
       Some (case select_one (\<lambda>x. key x = k) t of None \<Rightarrow> r | Some old \<Rightarrow> mrg old r)
     else select_one (\<lambda>x. key x = k) t)"
proof (cases "has_key key (key r) t")
  case True
  define g where "g = (\<lambda>x. if key x = key r then mrg x r else x)"
  have "key (g x) = key x" for x using assms by (simp add: g_def)
  then have step: "find (\<lambda>x. key x = k) (map g t) = map_option g (find (\<lambda>x. key x = k) t)"
    by (rule find_map_key)
  have up: "upsert key mrg r t = map g t" using True by (simp add: upsert_def g_def)
  show ?thesis
  proof (cases "find (\<lambda>x. key x = k) t")
    case None
    with True have "k \<noteq> key r" by (auto simp: has_key_def find_None_iff)
    with None show ?thesis by (simp add: select_one_def up step)
  next
    case (Some y)
    then have "key y = k" by (auto simp: find_Some_iff)
    moreover from Some step have "find (\<lambda>x. key x = k) (map g t) = Some (g y)" by simp
    ultimately show ?thesis using Some by (auto simp add: select_one_def up) (simp_all add: g_def)
  qed
next
  case False
  then have "find (\<lambda>x. key x = key r) t = None" by (auto simp: has_key_def find_None_iff)
  with False show ?thesis by (auto simp: upsert_def select_one_def find_append split: option.splits)
qed

lemma count_where_has_key: "0 < count_where (\<lambda>r. key r = k) t \<longleftrightarrow> has_key key k t"
  by (auto simp: count_where_def has_key_def filter_empty_conv)

end
