(* ===== verification/StorageTypes.thy ===== *)
theory StorageTypes
  imports Prelude
begin

text \<open>
  The data of \<^verbatim>\<open>src/src/storage.rs\<close>: its enums with their TEXT encodings and its public
  structs.  A \<^verbatim>\<open>u64\<close> is a 64-bit word, an \<^verbatim>\<open>Option\<close> an \<^typ>\<open>'a option\<close>.
\<close>

section \<open>Enums and their TEXT encodings\<close>

datatype message_direction = DirSent | DirReceived

fun message_direction_as_str :: "message_direction \<Rightarrow> string" where
  "message_direction_as_str DirSent = ''sent''"
| "message_direction_as_str DirReceived = ''received''"

definition message_direction_from_str :: "string \<Rightarrow> message_direction" where
  "message_direction_from_str value = (if value = ''received'' then DirReceived else DirSent)"

datatype message_status = StatusStored | StatusSent | StatusReceived

fun message_status_as_str :: "message_status \<Rightarrow> string" where
  "message_status_as_str StatusStored = ''stored''"
| "message_status_as_str StatusSent = ''sent''"
| "message_status_as_str StatusReceived = ''received''"

definition message_status_from_str :: "string \<Rightarrow> message_status" where
  "message_status_from_str value =
     (if value = ''sent'' then StatusSent
      else if value = ''received'' then StatusReceived else StatusStored)"

datatype outbox_status = OutboxPending | OutboxDelivered

fun outbox_status_as_str :: "outbox_status \<Rightarrow> string" where
  "outbox_status_as_str OutboxPending = ''pending''"
| "outbox_status_as_str OutboxDelivered = ''delivered''"

definition outbox_status_from_str :: "string \<Rightarrow> outbox_status" where
  "outbox_status_from_str value = (if value = ''delivered'' then OutboxDelivered else OutboxPending)"

section \<open>Structs\<close>

record message_record =
  mr_message_id :: string
  mr_conversation_id :: string
  mr_sender_id :: string
  mr_recipient_id :: string
  mr_direction :: message_direction
  mr_status :: message_status
  mr_protocol_counter :: "u64 option"
  mr_ciphertext :: bytes
  mr_plaintext :: "string option"
  mr_created_at :: u64

record outbox_item =
  ob_message_id :: string
  ob_recipient_id :: string
  ob_payload :: bytes
  ob_status :: outbox_status
  ob_retry_count :: u64
  ob_created_at :: u64
  ob_last_attempt :: "u64 option"

type_synonym version_vector_map = "(string, u64) btree"

record event_record =
  ev_device_id :: string
  ev_counter :: u64
  ev_conversation_id :: string
  ev_event_type :: string
  ev_message_id :: "string option"
  ev_payload :: bytes
  ev_created_at :: u64

record contact_record =
  ct_contact_id :: string
  ct_display_name :: string
  ct_identity_public_key :: bytes
  ct_discovery_hint :: string
  ct_saved_at :: u64

record invite_record =
  iv_code_hash :: string
  iv_rendezvous_payload :: string
  iv_expires_at :: u64
  iv_consumed_at :: "u64 option"
  iv_created_at :: u64

record chat_summary =
  cs_contact :: contact_record
  cs_last_message :: "message_record option"
  cs_pending_count :: nat
  cs_last_seen_at :: "u64 option"

record known_peer_record =
  kp_peer_id :: string
  kp_identity_public_key :: bytes
  kp_display_name :: string
  kp_conversation_id :: string
  kp_last_seen_at :: u64

record pending_peer_message =
  pm_message_id :: string
  pm_peer_id :: string
  pm_conversation_id :: string
  pm_plaintext :: string
  pm_created_at :: u64
  pm_retry_count :: u64
  pm_last_attempt :: "u64 option"

section \<open>The encodings are faithful\<close>

lemma message_direction_round_trip [simp]:
  "message_direction_from_str (message_direction_as_str d) = d"
  by (cases d) (auto simp: message_direction_from_str_def)

lemma message_status_round_trip [simp]:
  "message_status_from_str (message_status_as_str s) = s"
  by (cases s) (auto simp: message_status_from_str_def)

lemma outbox_status_round_trip [simp]:
  "outbox_status_from_str (outbox_status_as_str s) = s"
  by (cases s) (auto simp: outbox_status_from_str_def)

text \<open>The position of an event, its primary key in \<^verbatim>\<open>event_history\<close>.\<close>

definition ev_position :: "event_record \<Rightarrow> string \<times> u64" where
  "ev_position e = (ev_device_id e, ev_counter e)"

end
