(* ===== verification/Crdt.thy ===== *)
theory Crdt
  imports StorageTypes
begin

text \<open>
  The conversation CRDT of \<^verbatim>\<open>src/src/crdt.rs\<close>: the events, the state they materialise to, and
  \<^verbatim>\<open>materialize_conversation\<close>, a fold over the event records followed by a pass that attaches
  the live reactions.  \<^verbatim>\<open>bincode\<close> is a parameter: \<open>enc\<close> and \<open>dec\<close> of an event payload.

  The lemmas give the abstract meaning of the result as a function of the \<^emph>\<open>set\<close> of records
  processed (\<open>acc_inv\<close>), from which convergence under reordering and duplication follows.
\<close>

section \<open>Events and state\<close>

datatype reaction_add_id = ReactionAddId (ra_device_id: string) (ra_counter: u64)

datatype conversation_event =
    MessageCreated (mc_message_id: string) (mc_author_id: string) (mc_payload: bytes)
  | MessageDeleted (md_message_id: string)
  | ReactionAdded (rx_message_id: string) (rx_reaction: string) (rx_actor_id: string)
  | ReactionRemoved (rr_reaction_add: reaction_add_id)
  | ReadAdvanced (rd_actor_id: string) (rd_read_device_id: string) (rd_read_counter: u64)

fun event_type :: "conversation_event \<Rightarrow> string" where
  "event_type (MessageCreated _ _ _) = ''MessageCreated''"
| "event_type (MessageDeleted _) = ''MessageDeleted''"
| "event_type (ReactionAdded _ _ _) = ''ReactionAdded''"
| "event_type (ReactionRemoved _) = ''ReactionRemoved''"
| "event_type (ReadAdvanced _ _ _) = ''ReadAdvanced''"

datatype visible_reaction =
  VisibleReaction (vr_reaction: string) (vr_actor_id: string) (vr_add: reaction_add_id)

text \<open>The derived orders: lexicographic in the order of the fields.\<close>

instantiation reaction_add_id :: linorder
begin

definition less_eq_reaction_add_id :: "reaction_add_id \<Rightarrow> reaction_add_id \<Rightarrow> bool" where
  "less_eq_reaction_add_id a b \<longleftrightarrow> (ra_device_id a, ra_counter a) \<le> (ra_device_id b, ra_counter b)"

definition less_reaction_add_id :: "reaction_add_id \<Rightarrow> reaction_add_id \<Rightarrow> bool" where
  "less_reaction_add_id a b \<longleftrightarrow> (ra_device_id a, ra_counter a) < (ra_device_id b, ra_counter b)"

instance
proof
  fix x y z :: reaction_add_id
  show "x \<le> y \<Longrightarrow> y \<le> z \<Longrightarrow> x \<le> z"
    unfolding less_eq_reaction_add_id_def by (rule order_trans)
  show "x \<le> y \<Longrightarrow> y \<le> x \<Longrightarrow> x = y"
    unfolding less_eq_reaction_add_id_def by (metis order_antisym prod.inject reaction_add_id.expand)
  show "x < y \<longleftrightarrow> x \<le> y \<and> \<not> y \<le> x"
    unfolding less_eq_reaction_add_id_def less_reaction_add_id_def by (rule less_le_not_le)
  show "x \<le> y \<or> y \<le> x"
    unfolding less_eq_reaction_add_id_def by (rule linear)
qed (simp add: less_eq_reaction_add_id_def)

end

instantiation visible_reaction :: linorder
begin

definition less_eq_visible_reaction :: "visible_reaction \<Rightarrow> visible_reaction \<Rightarrow> bool" where
  "less_eq_visible_reaction a b \<longleftrightarrow>
     (vr_reaction a, vr_actor_id a, vr_add a) \<le> (vr_reaction b, vr_actor_id b, vr_add b)"

definition less_visible_reaction :: "visible_reaction \<Rightarrow> visible_reaction \<Rightarrow> bool" where
  "less_visible_reaction a b \<longleftrightarrow>
     (vr_reaction a, vr_actor_id a, vr_add a) < (vr_reaction b, vr_actor_id b, vr_add b)"

instance
proof
  fix x y z :: visible_reaction
  show "x \<le> y \<Longrightarrow> y \<le> z \<Longrightarrow> x \<le> z"
    unfolding less_eq_visible_reaction_def by (rule order_trans)
  show "x \<le> y \<Longrightarrow> y \<le> x \<Longrightarrow> x = y"
    unfolding less_eq_visible_reaction_def by (metis order_antisym prod.inject visible_reaction.expand)
  show "x < y \<longleftrightarrow> x \<le> y \<and> \<not> y \<le> x"
    unfolding less_eq_visible_reaction_def less_visible_reaction_def by (rule less_le_not_le)
  show "x \<le> y \<or> y \<le> x"
    unfolding less_eq_visible_reaction_def by (rule linear)
qed (simp add: less_eq_visible_reaction_def)

end

record message_state =
  ms_message_id :: string
  ms_author_id :: string
  ms_payload :: bytes
  ms_deleted :: bool
  ms_reactions :: "visible_reaction list"

record conversation_state =
  st_messages :: "(string, message_state) btree"
  st_tombstones :: "string list"
  st_read_frontiers :: "(string, (string, u64) btree) btree"

record reaction_add =
  rac_message_id :: string
  rac_reaction :: string
  rac_actor_id :: string

section \<open>Recording an event\<close>

fun event_message_id :: "conversation_event \<Rightarrow> string option" where
  "event_message_id (MessageCreated mid _ _) = Some mid"
| "event_message_id (MessageDeleted mid) = Some mid"
| "event_message_id (ReactionAdded mid _ _) = Some mid"
| "event_message_id (ReactionRemoved _) = None"
| "event_message_id (ReadAdvanced _ _ _) = None"

definition mk_event_record ::
    "(conversation_event \<Rightarrow> 'e + bytes) \<Rightarrow> string \<Rightarrow> string \<Rightarrow> u64 \<Rightarrow> conversation_event \<Rightarrow> 'e + event_record"
where
  "mk_event_record enc conversation_id device_id counter event =
     and_then (enc event) (\<lambda>payload. Inr
       \<lparr>ev_device_id = device_id, ev_counter = counter, ev_conversation_id = conversation_id,
        ev_event_type = event_type event, ev_message_id = event_message_id event,
        ev_payload = payload, ev_created_at = 0\<rparr>)"

section \<open>Materialising a conversation\<close>

text \<open>The five local variables of \<^verbatim>\<open>materialize_conversation\<close>.\<close>

record crdt_acc =
  acc_messages :: "(string, message_state) btree"
  acc_tombstones :: "string list"
  acc_reaction_adds :: "(reaction_add_id, reaction_add) btree"
  acc_removed_reactions :: "reaction_add_id list"
  acc_read_frontiers :: "(string, (string, u64) btree) btree"

definition acc_init :: crdt_acc where
  "acc_init = \<lparr>acc_messages = [], acc_tombstones = [], acc_reaction_adds = [],
     acc_removed_reactions = [], acc_read_frontiers = []\<rparr>"

text \<open>The body of the loop: the match on a decoded event.\<close>

fun apply_event :: "event_record \<Rightarrow> conversation_event \<Rightarrow> crdt_acc \<Rightarrow> crdt_acc" where
  "apply_event rec (MessageCreated mid author payload) a =
     a\<lparr>acc_messages := bt_or_insert mid
         \<lparr>ms_message_id = mid, ms_author_id = author, ms_payload = payload,
          ms_deleted = (mid \<in> set (acc_tombstones a)), ms_reactions = []\<rparr> (acc_messages a)\<rparr>"
| "apply_event rec (MessageDeleted mid) a =
     a\<lparr>acc_tombstones := bset_insert mid (acc_tombstones a),
       acc_messages := bt_modify mid (\<lambda>m. m\<lparr>ms_deleted := True\<rparr>) (acc_messages a)\<rparr>"
| "apply_event rec (ReactionAdded mid reaction actor) a =
     a\<lparr>acc_reaction_adds := bt_insert (ReactionAddId (ev_device_id rec) (ev_counter rec))
         \<lparr>rac_message_id = mid, rac_reaction = reaction, rac_actor_id = actor\<rparr>
         (acc_reaction_adds a)\<rparr>"
| "apply_event rec (ReactionRemoved add) a =
     a\<lparr>acc_removed_reactions := bset_insert add (acc_removed_reactions a)\<rparr>"
| "apply_event rec (ReadAdvanced actor device counter) a =
     (let frontier = case bt_get (acc_read_frontiers a) actor of None \<Rightarrow> [] | Some f \<Rightarrow> f;
          current = case bt_get frontier device of None \<Rightarrow> 0 | Some c \<Rightarrow> c
      in a\<lparr>acc_read_frontiers :=
            bt_insert actor (bt_insert device (max current counter) frontier)
              (acc_read_frontiers a)\<rparr>)"

definition process_record ::
    "(bytes \<Rightarrow> conversation_event option) \<Rightarrow> event_record \<Rightarrow> crdt_acc \<Rightarrow> crdt_acc" where
  "process_record dec rec a =
     (case dec (ev_payload rec) of None \<Rightarrow> a | Some event \<Rightarrow> apply_event rec event a)"

text \<open>The second loop, over the reactions in the order of their ids.\<close>

definition attach_reaction ::
    "reaction_add_id list \<Rightarrow> reaction_add_id \<times> reaction_add
      \<Rightarrow> (string, message_state) btree \<Rightarrow> (string, message_state) btree" where
  "attach_reaction removed p messages =
     (let add = fst p; r = snd p
      in if add \<in> set removed then messages
         else bt_modify (rac_message_id r)
           (\<lambda>m. m\<lparr>ms_reactions :=
              bset_insert (VisibleReaction (rac_reaction r) (rac_actor_id r) add) (ms_reactions m)\<rparr>)
           messages)"

definition finish :: "crdt_acc \<Rightarrow> conversation_state" where
  "finish a =
     \<lparr>st_messages = fold (attach_reaction (acc_removed_reactions a)) (acc_reaction_adds a) (acc_messages a),
      st_tombstones = acc_tombstones a,
      st_read_frontiers = acc_read_frontiers a\<rparr>"

definition materialize_conversation ::
    "(bytes \<Rightarrow> conversation_event option) \<Rightarrow> event_record list \<Rightarrow> conversation_state" where
  "materialize_conversation dec events = finish (fold (process_record dec) events acc_init)"

section \<open>What the set of records says\<close>

text \<open>
  The abstract specification of the CRDT: which messages, tombstones, reactions and reads a
  set of records stands for, whatever the order in which they arrived.
\<close>

definition created_in :: "(bytes \<Rightarrow> conversation_event option) \<Rightarrow> event_record set \<Rightarrow> string \<Rightarrow> string \<Rightarrow> bytes \<Rightarrow> bool" where
  "created_in dec S mid au pl \<longleftrightarrow> (\<exists>r \<in> S. dec (ev_payload r) = Some (MessageCreated mid au pl))"

definition deleted_in :: "(bytes \<Rightarrow> conversation_event option) \<Rightarrow> event_record set \<Rightarrow> string \<Rightarrow> bool" where
  "deleted_in dec S mid \<longleftrightarrow> (\<exists>r \<in> S. dec (ev_payload r) = Some (MessageDeleted mid))"

definition added_in :: "(bytes \<Rightarrow> conversation_event option) \<Rightarrow> event_record set \<Rightarrow> reaction_add_id \<Rightarrow> reaction_add \<Rightarrow> bool" where
  "added_in dec S add x \<longleftrightarrow>
     (\<exists>r \<in> S. dec (ev_payload r) = Some (ReactionAdded (rac_message_id x) (rac_reaction x) (rac_actor_id x))
        \<and> add = ReactionAddId (ev_device_id r) (ev_counter r))"

definition removed_in :: "(bytes \<Rightarrow> conversation_event option) \<Rightarrow> event_record set \<Rightarrow> reaction_add_id \<Rightarrow> bool" where
  "removed_in dec S add \<longleftrightarrow> (\<exists>r \<in> S. dec (ev_payload r) = Some (ReactionRemoved add))"

definition read_in :: "(bytes \<Rightarrow> conversation_event option) \<Rightarrow> event_record set \<Rightarrow> string \<Rightarrow> string \<Rightarrow> u64 \<Rightarrow> bool" where
  "read_in dec S actor dev c \<longleftrightarrow> (\<exists>r \<in> S. dec (ev_payload r) = Some (ReadAdvanced actor dev c))"

lemmas in_defs = created_in_def deleted_in_def added_in_def removed_in_def read_in_def

text \<open>
  The accumulator after the first loop has processed exactly the records of \<open>S\<close>, one
  predicate per group of local variables.
\<close>

definition tomb_inv :: "(bytes \<Rightarrow> conversation_event option) \<Rightarrow> event_record set \<Rightarrow> crdt_acc \<Rightarrow> bool" where
  "tomb_inv dec S a \<longleftrightarrow>
     bset_wf (acc_tombstones a) \<and> set (acc_tombstones a) = {mid. deleted_in dec S mid}"

definition msg_inv :: "(bytes \<Rightarrow> conversation_event option) \<Rightarrow> event_record set \<Rightarrow> crdt_acc \<Rightarrow> bool" where
  "msg_inv dec S a \<longleftrightarrow> bt_wf (acc_messages a) \<and>
     (\<forall>mid au pl. created_in dec S mid au pl \<longrightarrow> bt_get (acc_messages a) mid \<noteq> None) \<and>
     (\<forall>mid m. bt_get (acc_messages a) mid = Some m \<longrightarrow>
        ms_message_id m = mid \<and> created_in dec S mid (ms_author_id m) (ms_payload m)
          \<and> ms_deleted m = deleted_in dec S mid \<and> ms_reactions m = [])"

definition adds_inv :: "(bytes \<Rightarrow> conversation_event option) \<Rightarrow> event_record set \<Rightarrow> crdt_acc \<Rightarrow> bool" where
  "adds_inv dec S a \<longleftrightarrow> bt_wf (acc_reaction_adds a) \<and>
     (\<forall>add x. added_in dec S add x \<longrightarrow> bt_get (acc_reaction_adds a) add \<noteq> None) \<and>
     (\<forall>add x. bt_get (acc_reaction_adds a) add = Some x \<longrightarrow> added_in dec S add x)"

definition rem_inv :: "(bytes \<Rightarrow> conversation_event option) \<Rightarrow> event_record set \<Rightarrow> crdt_acc \<Rightarrow> bool" where
  "rem_inv dec S a \<longleftrightarrow> bset_wf (acc_removed_reactions a)
     \<and> set (acc_removed_reactions a) = {add. removed_in dec S add}"

definition frontier_inv :: "(string \<Rightarrow> u64 \<Rightarrow> bool) \<Rightarrow> (string, u64) btree \<Rightarrow> bool" where
  "frontier_inv R f \<longleftrightarrow> bt_wf f \<and>
     (\<forall>d c. R d c \<longrightarrow> bt_get f d \<noteq> None) \<and>
     (\<forall>d c. bt_get f d = Some c \<longrightarrow> R d c \<and> (\<forall>c'. R d c' \<longrightarrow> c' \<le> c))"

definition reads_inv :: "(bytes \<Rightarrow> conversation_event option) \<Rightarrow> event_record set \<Rightarrow> crdt_acc \<Rightarrow> bool" where
  "reads_inv dec S a \<longleftrightarrow> bt_wf (acc_read_frontiers a) \<and>
     (\<forall>actor d c. read_in dec S actor d c \<longrightarrow> bt_get (acc_read_frontiers a) actor \<noteq> None) \<and>
     (\<forall>actor f. bt_get (acc_read_frontiers a) actor = Some f \<longrightarrow>
        (\<exists>d c. read_in dec S actor d c) \<and> frontier_inv (read_in dec S actor) f)"

definition acc_inv :: "(bytes \<Rightarrow> conversation_event option) \<Rightarrow> event_record set \<Rightarrow> crdt_acc \<Rightarrow> bool" where
  "acc_inv dec S a \<longleftrightarrow> tomb_inv dec S a \<and> msg_inv dec S a \<and> adds_inv dec S a \<and> rem_inv dec S a
     \<and> reads_inv dec S a"

section \<open>The loop keeps the accumulator in step with the records\<close>

lemma in_empty [simp]:
  "\<not> created_in dec {} mid au pl" "\<not> deleted_in dec {} mid" "\<not> added_in dec {} add x"
  "\<not> removed_in dec {} add" "\<not> read_in dec {} actor d c"
  by (simp_all add: in_defs)

lemma in_insert:
  "created_in dec (insert r S) mid au pl \<longleftrightarrow>
     dec (ev_payload r) = Some (MessageCreated mid au pl) \<or> created_in dec S mid au pl"
  "deleted_in dec (insert r S) mid \<longleftrightarrow>
     dec (ev_payload r) = Some (MessageDeleted mid) \<or> deleted_in dec S mid"
  "added_in dec (insert r S) add x \<longleftrightarrow>
     dec (ev_payload r) = Some (ReactionAdded (rac_message_id x) (rac_reaction x) (rac_actor_id x))
       \<and> add = ReactionAddId (ev_device_id r) (ev_counter r) \<or> added_in dec S add x"
  "removed_in dec (insert r S) add \<longleftrightarrow>
     dec (ev_payload r) = Some (ReactionRemoved add) \<or> removed_in dec S add"
  "read_in dec (insert r S) actor d c \<longleftrightarrow>
     dec (ev_payload r) = Some (ReadAdvanced actor d c) \<or> read_in dec S actor d c"
  by (auto simp: in_defs)

lemma acc_inv_init: "acc_inv dec {} acc_init"
  by (simp add: acc_inv_def acc_init_def tomb_inv_def msg_inv_def adds_inv_def rem_inv_def reads_inv_def)

lemma tomb_inv_step: "tomb_inv dec S a \<Longrightarrow> tomb_inv dec (insert r S) (process_record dec r a)"
  by (cases "dec (ev_payload r)"; cases "the (dec (ev_payload r))")
    (auto simp: tomb_inv_def process_record_def in_insert Let_def)

lemma rem_inv_step: "rem_inv dec S a \<Longrightarrow> rem_inv dec (insert r S) (process_record dec r a)"
  by (cases "dec (ev_payload r)"; cases "the (dec (ev_payload r))")
    (auto simp: rem_inv_def process_record_def in_insert Let_def)

lemma msg_inv_step:
  assumes t: "tomb_inv dec S a" and m: "msg_inv dec S a"
  shows "msg_inv dec (insert r S) (process_record dec r a)"
proof (cases "dec (ev_payload r)")
  case None
  with m show ?thesis by (simp add: msg_inv_def process_record_def in_insert)
next
  case (Some e)
  show ?thesis
  proof (cases e)
    case (MessageCreated mid au pl)
    have known: "created_in dec S k x y \<Longrightarrow> bt_get (acc_messages a) k \<noteq> None" for k x y
      using m by (simp add: msg_inv_def) blast
    show ?thesis
      using t m Some MessageCreated
      by (cases "bt_get (acc_messages a) mid")
        (auto simp: msg_inv_def tomb_inv_def process_record_def in_insert bt_simps dest: known)
  qed (use m Some in \<open>auto simp: msg_inv_def process_record_def in_insert Let_def bt_simps\<close>)
qed

lemma adds_inv_step: "adds_inv dec S a \<Longrightarrow> adds_inv dec (insert r S) (process_record dec r a)"
  by (cases "dec (ev_payload r)"; cases "the (dec (ev_payload r))")
    (auto simp: adds_inv_def process_record_def in_insert Let_def split: option.splits)

lemma frontier_inv_insert:
  assumes "frontier_inv R f" and "\<And>d' c'. R' d' c' \<longleftrightarrow> d' = d \<and> c' = c \<or> R d' c'"
  shows "frontier_inv R'
    (bt_insert d (max (case bt_get f d of None \<Rightarrow> 0 | Some c0 \<Rightarrow> c0) c) f)"
  using assms by (auto simp: frontier_inv_def max_def split: option.splits) (force)+

lemma frontier_inv_Nil: "(\<And>d c. \<not> R d c) \<Longrightarrow> frontier_inv R []"
  by (simp add: frontier_inv_def)

lemma reads_inv_step:
  assumes "reads_inv dec S a"
  shows "reads_inv dec (insert r S) (process_record dec r a)"
proof (cases "\<exists>actor d c. dec (ev_payload r) = Some (ReadAdvanced actor d c)")
  case True
  then obtain actor d c where e: "dec (ev_payload r) = Some (ReadAdvanced actor d c)" by blast
  define f where "f = (case bt_get (acc_read_frontiers a) actor of None \<Rightarrow> [] | Some f \<Rightarrow> f)"
  have "frontier_inv (read_in dec S actor) f"
  proof (cases "bt_get (acc_read_frontiers a) actor")
    case None
    then have "\<not> read_in dec S actor d c" for d c using assms unfolding reads_inv_def by blast
    with None show ?thesis by (simp add: f_def frontier_inv_Nil)
  qed (use assms in \<open>simp add: reads_inv_def f_def\<close>)
  then have "frontier_inv (read_in dec (insert r S) actor)
      (bt_insert d (max (case bt_get f d of None \<Rightarrow> 0 | Some c0 \<Rightarrow> c0) c) f)"
    by (rule frontier_inv_insert) (auto simp: in_insert e)
  moreover have "process_record dec r a = a\<lparr>acc_read_frontiers := bt_insert actor
      (bt_insert d (max (case bt_get f d of None \<Rightarrow> 0 | Some c0 \<Rightarrow> c0) c) f) (acc_read_frontiers a)\<rparr>"
    by (simp add: process_record_def e f_def Let_def)
  moreover have "read_in dec (insert r S) x = read_in dec S x" if "x \<noteq> actor" for x
    using that by (auto simp: in_insert e fun_eq_iff)
  moreover have "read_in dec (insert r S) actor d c" by (simp add: in_insert e)
  ultimately show ?thesis
    using assms unfolding reads_inv_def by simp metis
next
  case False
  then have "acc_read_frontiers (process_record dec r a) = acc_read_frontiers a"
    by (cases "dec (ev_payload r)"; cases "the (dec (ev_payload r))") (auto simp: process_record_def)
  moreover have "read_in dec (insert r S) = read_in dec S"
    using False by (auto simp: in_insert fun_eq_iff)
  ultimately show ?thesis using assms by (simp add: reads_inv_def)
qed

lemma acc_inv_step: "acc_inv dec S a \<Longrightarrow> acc_inv dec (insert r S) (process_record dec r a)"
  by (simp add: acc_inv_def tomb_inv_step msg_inv_step adds_inv_step rem_inv_step reads_inv_step)

lemma acc_inv_fold: "acc_inv dec S a \<Longrightarrow> acc_inv dec (S \<union> set events) (fold (process_record dec) events a)"
proof (induction events arbitrary: S a)
  case (Cons r events)
  from acc_inv_step [OF Cons.prems, of r] have "acc_inv dec (insert r S \<union> set events)
      (fold (process_record dec) events (process_record dec r a))" by (rule Cons.IH)
  then show ?case by simp
qed simp

lemma acc_inv_materialize: "acc_inv dec (set events) (fold (process_record dec) events acc_init)"
  using acc_inv_fold [OF acc_inv_init, of dec events] by simp

section \<open>The reactions attached by the second loop\<close>

lemma attach_reaction_props:
  "bt_wf ms \<Longrightarrow> bt_wf (attach_reaction rem p ms)"
  "bt_get (attach_reaction rem p ms) mid = map_option (\<lambda>m.
     if fst p \<notin> set rem \<and> rac_message_id (snd p) = mid then
       m\<lparr>ms_reactions := bset_insert
          (VisibleReaction (rac_reaction (snd p)) (rac_actor_id (snd p)) (fst p)) (ms_reactions m)\<rparr>
     else m) (bt_get ms mid)"
  by (auto simp: attach_reaction_def Let_def bt_simps option.map_ident)

lemma bt_wf_attach_all: "bt_wf ms \<Longrightarrow> bt_wf (fold (attach_reaction rem) ps ms)"
  by (induction ps arbitrary: ms) (auto simp: attach_reaction_props)

text \<open>The reactions of message \<open>mid\<close> among the entries \<open>ps\<close> that were not removed.\<close>

definition live_reactions ::
    "reaction_add_id list \<Rightarrow> (reaction_add_id, reaction_add) btree \<Rightarrow> string \<Rightarrow> visible_reaction list" where
  "live_reactions rem ps mid =
     map (\<lambda>p. VisibleReaction (rac_reaction (snd p)) (rac_actor_id (snd p)) (fst p))
       (filter (\<lambda>p. fst p \<notin> set rem \<and> rac_message_id (snd p) = mid) ps)"

lemma bt_get_attach_all:
  "bt_get (fold (attach_reaction rem) ps ms) mid =
     map_option (\<lambda>m. m\<lparr>ms_reactions := fold bset_insert (live_reactions rem ps mid) (ms_reactions m)\<rparr>)
       (bt_get ms mid)"
proof (induction ps arbitrary: ms)
  case Nil
  then show ?case by (simp add: live_reactions_def option.map_ident)
next
  case (Cons p ps)
  show ?case
    by (cases "bt_get ms mid") (simp_all add: Cons.IH attach_reaction_props live_reactions_def)
qed

text \<open>Every lookup in the materialised messages, in terms of the accumulator of the loop.\<close>

lemma bt_get_finish:
  assumes "acc_inv dec S a"
  shows "bt_get (st_messages (finish a)) mid = map_option (\<lambda>m. m\<lparr>ms_reactions :=
      bset_collect (live_reactions (acc_removed_reactions a) (acc_reaction_adds a) mid)\<rparr>)
    (bt_get (acc_messages a) mid)"
proof (cases "bt_get (acc_messages a) mid")
  case (Some m)
  then have "ms_reactions m = []" using assms by (simp add: acc_inv_def msg_inv_def)
  with Some show ?thesis by (simp add: finish_def bt_get_attach_all bset_collect_def)
qed (simp add: finish_def bt_get_attach_all)

section \<open>Consistent records determine the state\<close>

text \<open>
  Two records with the same position are the same record (the primary key of
  \<^verbatim>\<open>event_history\<close>), and no message id was created twice with different contents.
\<close>

definition positions_unique :: "event_record set \<Rightarrow> bool" where
  "positions_unique S \<longleftrightarrow> (\<forall>r \<in> S. \<forall>r' \<in> S. ev_position r = ev_position r' \<longrightarrow> r = r')"

definition creations_agree :: "(bytes \<Rightarrow> conversation_event option) \<Rightarrow> event_record set \<Rightarrow> bool" where
  "creations_agree dec S \<longleftrightarrow> (\<forall>r \<in> S. \<forall>r' \<in> S. \<forall>mid au pl au' pl'.
     dec (ev_payload r) = Some (MessageCreated mid au pl) \<longrightarrow>
     dec (ev_payload r') = Some (MessageCreated mid au' pl') \<longrightarrow> au = au' \<and> pl = pl')"

lemma added_in_unique:
  "positions_unique S \<Longrightarrow> added_in dec S add x \<Longrightarrow> added_in dec S add y \<Longrightarrow> x = y"
  unfolding positions_unique_def added_in_def ev_position_def by fastforce

lemma created_in_unique:
  "creations_agree dec S \<Longrightarrow> created_in dec S mid au pl \<Longrightarrow> created_in dec S mid au' pl' \<Longrightarrow>
     au = au' \<and> pl = pl'"
  unfolding creations_agree_def created_in_def by blast

lemma map_eqI_Some:
  assumes "\<And>k v. f k = Some v \<Longrightarrow> g k = Some v" and "\<And>k v. g k = Some v \<Longrightarrow> f k \<noteq> None"
  shows "f = g"
proof
  fix k
  show "f k = g k" using assms [of k] by (cases "f k"; cases "g k") auto
qed

lemma frontier_inv_unique:
  assumes "frontier_inv R f" "frontier_inv R g"
  shows "f = g"
proof (rule bt_eqI)
  show "bt_get f = bt_get g"
  proof (rule map_eqI_Some)
    fix d c
    assume f: "bt_get f d = Some c"
    then have "R d c" using assms(1) by (simp add: frontier_inv_def)
    then obtain c' where g: "bt_get g d = Some c'" using assms(2) by (auto simp: frontier_inv_def)
    with f assms have "c \<le> c'" "c' \<le> c" by (auto simp: frontier_inv_def)
    with g show "bt_get g d = Some c" by simp
  next
    fix d c
    assume "bt_get g d = Some c"
    then have "R d c" using assms(2) by (simp add: frontier_inv_def)
    then show "bt_get f d \<noteq> None" using assms(1) unfolding frontier_inv_def by blast
  qed
qed (use assms in \<open>simp_all add: frontier_inv_def\<close>)

lemma reads_inv_unique:
  assumes a: "reads_inv dec S a" and b: "reads_inv dec S b"
  shows "acc_read_frontiers a = acc_read_frontiers b"
proof (rule bt_eqI)
  show "bt_get (acc_read_frontiers a) = bt_get (acc_read_frontiers b)"
  proof (rule map_eqI_Some)
    fix actor f
    assume f: "bt_get (acc_read_frontiers a) actor = Some f"
    then obtain d c where "read_in dec S actor d c" and fi: "frontier_inv (read_in dec S actor) f"
      using a unfolding reads_inv_def by blast
    then obtain g where g: "bt_get (acc_read_frontiers b) actor = Some g"
      using b unfolding reads_inv_def by blast
    then have "frontier_inv (read_in dec S actor) g" using b unfolding reads_inv_def by blast
    with fi g show "bt_get (acc_read_frontiers b) actor = Some f" by (simp add: frontier_inv_unique)
  next
    fix actor g
    assume "bt_get (acc_read_frontiers b) actor = Some g"
    then show "bt_get (acc_read_frontiers a) actor \<noteq> None" using a b unfolding reads_inv_def by blast
  qed
qed (use a b in \<open>simp_all add: reads_inv_def\<close>)

lemma adds_inv_unique:
  assumes a: "adds_inv dec S a" and b: "adds_inv dec S b" and u: "positions_unique S"
  shows "acc_reaction_adds a = acc_reaction_adds b"
proof (rule bt_eqI)
  show "bt_get (acc_reaction_adds a) = bt_get (acc_reaction_adds b)"
  proof (rule map_eqI_Some)
    fix add x
    assume "bt_get (acc_reaction_adds a) add = Some x"
    then have x: "added_in dec S add x" using a by (simp add: adds_inv_def)
    then obtain y where y: "bt_get (acc_reaction_adds b) add = Some y"
      using b unfolding adds_inv_def by blast
    then have "added_in dec S add y" using b by (simp add: adds_inv_def)
    with u x have "x = y" by (rule added_in_unique)
    with y show "bt_get (acc_reaction_adds b) add = Some x" by simp
  next
    fix add y
    assume "bt_get (acc_reaction_adds b) add = Some y"
    then show "bt_get (acc_reaction_adds a) add \<noteq> None" using a b unfolding adds_inv_def by blast
  qed
qed (use a b in \<open>simp_all add: adds_inv_def\<close>)

lemma msg_inv_unique:
  assumes a: "msg_inv dec S a" and b: "msg_inv dec S b" and u: "creations_agree dec S"
  shows "acc_messages a = acc_messages b"
proof (rule bt_eqI)
  show "bt_get (acc_messages a) = bt_get (acc_messages b)"
  proof (rule map_eqI_Some)
    fix mid m
    assume "bt_get (acc_messages a) mid = Some m"
    then have m: "ms_message_id m = mid" "created_in dec S mid (ms_author_id m) (ms_payload m)"
      "ms_deleted m = deleted_in dec S mid" "ms_reactions m = []" using a by (simp_all add: msg_inv_def)
    then obtain n where n: "bt_get (acc_messages b) mid = Some n"
      using b unfolding msg_inv_def by blast
    then have n': "ms_message_id n = mid" "created_in dec S mid (ms_author_id n) (ms_payload n)"
      "ms_deleted n = deleted_in dec S mid" "ms_reactions n = []" using b by (simp_all add: msg_inv_def)
    with m created_in_unique [OF u m(2) n'(2)] have "m = n" by simp
    with n show "bt_get (acc_messages b) mid = Some m" by simp
  next
    fix mid n
    assume "bt_get (acc_messages b) mid = Some n"
    then show "bt_get (acc_messages a) mid \<noteq> None" using a b unfolding msg_inv_def by blast
  qed
qed (use a b in \<open>simp_all add: msg_inv_def\<close>)

lemma acc_inv_unique:
  assumes "acc_inv dec S a" "acc_inv dec S b" "positions_unique S" "creations_agree dec S"
  shows "a = b"
proof -
  have "acc_tombstones a = acc_tombstones b" "acc_removed_reactions a = acc_removed_reactions b"
    using assms by (auto simp: acc_inv_def tomb_inv_def rem_inv_def intro: bset_eqI)
  moreover have "acc_messages a = acc_messages b" "acc_reaction_adds a = acc_reaction_adds b"
    "acc_read_frontiers a = acc_read_frontiers b"
    using assms by (auto simp: acc_inv_def intro: msg_inv_unique adds_inv_unique reads_inv_unique)
  ultimately show ?thesis by simp
qed

lemma set_live_reactions:
  assumes "acc_inv dec S a" "positions_unique S"
  shows "set (live_reactions (acc_removed_reactions a) (acc_reaction_adds a) mid) =
    {VisibleReaction rx actor add | rx actor add. \<not> removed_in dec S add \<and>
       added_in dec S add \<lparr>rac_message_id = mid, rac_reaction = rx, rac_actor_id = actor\<rparr>}"
proof -
  have wf: "bt_wf (acc_reaction_adds a)" using assms(1) by (simp add: acc_inv_def adds_inv_def)
  have mem: "(add, x) \<in> set (acc_reaction_adds a) \<longleftrightarrow> added_in dec S add x" for add x
  proof
    assume "(add, x) \<in> set (acc_reaction_adds a)"
    then have "bt_get (acc_reaction_adds a) add = Some x" using wf by (simp add: bt_get_iff)
    then show "added_in dec S add x" using assms(1) by (simp add: acc_inv_def adds_inv_def)
  next
    assume x: "added_in dec S add x"
    then obtain y where y: "bt_get (acc_reaction_adds a) add = Some y"
      using assms(1) unfolding acc_inv_def adds_inv_def by blast
    then have "added_in dec S add y" using assms(1) by (simp add: acc_inv_def adds_inv_def)
    with x assms(2) have "x = y" by (blast intro: added_in_unique)
    with y wf show "(add, x) \<in> set (acc_reaction_adds a)" by (simp add: bt_get_iff)
  qed
  have rem: "set (acc_removed_reactions a) = {add. removed_in dec S add}"
    using assms(1) by (simp add: acc_inv_def rem_inv_def)
  show ?thesis
  proof (intro equalityI subsetI)
    fix v
    assume "v \<in> set (live_reactions (acc_removed_reactions a) (acc_reaction_adds a) mid)"
    then obtain add x where "(add, x) \<in> set (acc_reaction_adds a)" "\<not> removed_in dec S add"
      "rac_message_id x = mid" "v = VisibleReaction (rac_reaction x) (rac_actor_id x) add"
      by (auto simp: live_reactions_def rem)
    then show "v \<in> {VisibleReaction rx actor add | rx actor add. \<not> removed_in dec S add \<and>
       added_in dec S add \<lparr>rac_message_id = mid, rac_reaction = rx, rac_actor_id = actor\<rparr>}"
      by (cases x) (auto simp: mem)
  qed (force simp: live_reactions_def rem mem [symmetric])
qed

section \<open>Properties\<close>

text \<open>
  C3: Convergence of the CRDT.  Two replicas that have processed the same set of event records,
  in any order and with any repetition, materialise the same conversation state (messages,
  deletions, reactions, tombstones and read frontiers), provided positions identify records
  and no message id was created with two different contents.
\<close>

theorem materialize_converges:
  assumes "set events = set events'"
    and "positions_unique (set events)"
    and "creations_agree dec (set events)"
  shows "materialize_conversation dec events = materialize_conversation dec events'"
proof -
  have "fold (process_record dec) events acc_init = fold (process_record dec) events' acc_init"
    using acc_inv_materialize [of dec events] acc_inv_materialize [of dec events'] assms
    by (metis acc_inv_unique)
  then show ?thesis by (simp add: materialize_conversation_def)
qed

text \<open>
  C15: What a materialised message is.  A message is present exactly when some record created it;
  it carries the author and payload of such a record, it is marked deleted exactly when some
  record deletes it (wherever that record stands in the log), and its reactions are exactly
  the reactions added to it whose add id was not removed.
\<close>

theorem materialize_message:
  assumes "positions_unique (set events)"
  shows "case bt_get (st_messages (materialize_conversation dec events)) mid of
      None \<Rightarrow> (\<forall>au pl. \<not> created_in dec (set events) mid au pl)
    | Some m \<Rightarrow> ms_message_id m = mid
        \<and> created_in dec (set events) mid (ms_author_id m) (ms_payload m)
        \<and> ms_deleted m = deleted_in dec (set events) mid
        \<and> set (ms_reactions m) =
            {VisibleReaction rx actor add | rx actor add. \<not> removed_in dec (set events) add \<and>
               added_in dec (set events) add \<lparr>rac_message_id = mid, rac_reaction = rx, rac_actor_id = actor\<rparr>}"
proof -
  define a where "a = fold (process_record dec) events acc_init"
  have inv: "acc_inv dec (set events) a" unfolding a_def by (rule acc_inv_materialize)
  have get: "bt_get (st_messages (materialize_conversation dec events)) mid =
      map_option (\<lambda>m. m\<lparr>ms_reactions :=
        bset_collect (live_reactions (acc_removed_reactions a) (acc_reaction_adds a) mid)\<rparr>)
      (bt_get (acc_messages a) mid)"
    using bt_get_finish [OF inv] by (simp add: materialize_conversation_def a_def)
  show ?thesis
  proof (cases "bt_get (acc_messages a) mid")
    case None
    then have "\<not> created_in dec (set events) mid au pl" for au pl
      using inv unfolding acc_inv_def msg_inv_def by blast
    with None get show ?thesis by simp
  next
    case (Some m)
    then have "ms_message_id m = mid \<and> created_in dec (set events) mid (ms_author_id m) (ms_payload m)
        \<and> ms_deleted m = deleted_in dec (set events) mid"
      using inv by (simp add: acc_inv_def msg_inv_def)
    with Some get show ?thesis by (simp add: set_live_reactions [OF inv assms])
  qed
qed

text \<open>
  Read frontiers are maxima.  For every actor and device the materialised read frontier is
  the greatest counter any record reports for them, and there is none when no record does.
\<close>

theorem materialize_read_frontier:
  "(case bt_get (st_read_frontiers (materialize_conversation dec events)) actor of
      None \<Rightarrow> None | Some f \<Rightarrow> bt_get f device) =
   (if \<exists>c. read_in dec (set events) actor device c
    then Some (Max {c. read_in dec (set events) actor device c}) else None)"
proof -
  define a where "a = fold (process_record dec) events acc_init"
  have inv: "reads_inv dec (set events) a"
    using acc_inv_materialize [of dec events] by (simp add: a_def acc_inv_def)
  have eq: "st_read_frontiers (materialize_conversation dec events) = acc_read_frontiers a"
    by (simp add: materialize_conversation_def a_def finish_def)
  have Max_eq: "Max {c. read_in dec (set events) actor device c} = c"
    if "read_in dec (set events) actor device c"
      and "\<And>c'. read_in dec (set events) actor device c' \<Longrightarrow> c' \<le> c" for c
    by (rule Max_eqI) (use that in auto)
  show ?thesis
  proof (cases "bt_get (acc_read_frontiers a) actor")
    case None
    then have "\<not> read_in dec (set events) actor device c" for c
      using inv unfolding reads_inv_def by blast
    with None eq show ?thesis by simp
  next
    case (Some f)
    then have fi: "frontier_inv (read_in dec (set events) actor) f"
      using inv unfolding reads_inv_def by blast
    show ?thesis
    proof (cases "bt_get f device")
      case None
      then have "\<not> read_in dec (set events) actor device c" for c
        using fi unfolding frontier_inv_def by blast
      with None Some eq show ?thesis by simp
    next
      case (Some c)
      then have "read_in dec (set events) actor device c"
        "\<And>c'. read_in dec (set events) actor device c' \<Longrightarrow> c' \<le> c"
        using fi unfolding frontier_inv_def by blast+
      with Max_eq Some \<open>bt_get (acc_read_frontiers a) actor = Some f\<close> eq show ?thesis by auto
    qed
  qed
qed

section \<open>Witnesses\<close>

text \<open>A small payload codec and a log with a creation, a reaction, its removal and a deletion.\<close>

definition demo_dec :: "bytes \<Rightarrow> conversation_event option" where
  "demo_dec p =
     (if p = [1] then Some (MessageCreated ''m'' ''alice'' [104, 105])
      else if p = [2] then Some (ReactionAdded ''m'' ''+1'' ''bob'')
      else if p = [3] then Some (MessageDeleted ''m'')
      else if p = [4] then Some (ReactionRemoved (ReactionAddId ''B'' 1))
      else None)"

definition demo_event :: "string \<Rightarrow> u64 \<Rightarrow> u8 \<Rightarrow> event_record" where
  "demo_event d n p = \<lparr>ev_device_id = d, ev_counter = n, ev_conversation_id = ''c'',
     ev_event_type = [], ev_message_id = None, ev_payload = [p], ev_created_at = 0\<rparr>"

lemma demo_events_ok:
  "positions_unique {demo_event ''A'' 1 1, demo_event ''B'' 1 2, demo_event ''A'' 2 3}"
  "creations_agree demo_dec {demo_event ''A'' 1 1, demo_event ''B'' 1 2, demo_event ''A'' 2 3}"
  by (auto simp: positions_unique_def creations_agree_def demo_event_def demo_dec_def ev_position_def)

theorem materialize_converges_witness:
  "materialize_conversation demo_dec
     [demo_event ''A'' 1 1, demo_event ''B'' 1 2, demo_event ''A'' 2 3] =
   materialize_conversation demo_dec
     [demo_event ''A'' 2 3, demo_event ''B'' 1 2, demo_event ''A'' 1 1, demo_event ''B'' 1 2]
   \<and> st_tombstones (materialize_conversation demo_dec
     [demo_event ''A'' 1 1, demo_event ''B'' 1 2, demo_event ''A'' 2 3]) = [''m'']"
proof
  show "materialize_conversation demo_dec
     [demo_event ''A'' 1 1, demo_event ''B'' 1 2, demo_event ''A'' 2 3] =
   materialize_conversation demo_dec
     [demo_event ''A'' 2 3, demo_event ''B'' 1 2, demo_event ''A'' 1 1, demo_event ''B'' 1 2]"
    by (rule materialize_converges) (use demo_events_ok in auto)
  show "st_tombstones (materialize_conversation demo_dec
     [demo_event ''A'' 1 1, demo_event ''B'' 1 2, demo_event ''A'' 2 3]) = [''m'']"
    by (simp add: materialize_conversation_def finish_def process_record_def demo_event_def
        demo_dec_def acc_init_def bset_insert_def insort_insert_key_def)
qed

theorem materialize_message_witness:
  "\<exists>m. bt_get (st_messages (materialize_conversation demo_dec
       [demo_event ''A'' 1 1, demo_event ''B'' 1 2, demo_event ''A'' 2 3])) ''m'' = Some m
     \<and> ms_author_id m = ''alice'' \<and> ms_deleted m
     \<and> set (ms_reactions m) = {VisibleReaction ''+1'' ''bob'' (ReactionAddId ''B'' 1)}"
proof -
  let ?S = "{demo_event ''A'' 1 1, demo_event ''B'' 1 2, demo_event ''A'' 2 3}"
  have "positions_unique (set [demo_event ''A'' 1 1, demo_event ''B'' 1 2, demo_event ''A'' 2 3])"
    using demo_events_ok by simp
  note mm = materialize_message [OF this, of demo_dec "''m''"]
  have c: "created_in demo_dec ?S mid au pl \<longleftrightarrow> mid = ''m'' \<and> au = ''alice'' \<and> pl = [104, 105]" for mid au pl
    by (auto simp: created_in_def demo_event_def demo_dec_def)
  have d: "deleted_in demo_dec ?S ''m''" by (simp add: deleted_in_def demo_event_def demo_dec_def)
  have r: "\<not> removed_in demo_dec ?S add" for add by (simp add: removed_in_def demo_event_def demo_dec_def)
  have a: "added_in demo_dec ?S add \<lparr>rac_message_id = ''m'', rac_reaction = rx, rac_actor_id = act\<rparr>
      \<longleftrightarrow> add = ReactionAddId ''B'' 1 \<and> rx = ''+1'' \<and> act = ''bob''" for add rx act
    by (auto simp: added_in_def demo_event_def demo_dec_def)
  show ?thesis
    using mm by (simp add: c d r a split: option.splits)
qed

end
