(* ===== verification/Storage.thy ===== *)
theory Storage
  imports StorageTypes
begin

text \<open>
  The client database of \<^verbatim>\<open>src/src/storage.rs\<close>: one list of rows per table of
  \<^verbatim>\<open>Storage::init\<close>, one definition per method, each SQL statement by the operations of
  \<open>Prelude\<close>.  INTEGER columns are \<^typ>\<open>int\<close> and the \<^verbatim>\<open>as i64\<close>/\<^verbatim>\<open>as u64\<close> casts are written out;
  \<open>now\<close> is the value of \<^verbatim>\<open>now_unix_secs()\<close>.

  A single statement is atomic in SQLite, so a method of one statement is modelled by its
  effect when it succeeds.  Methods of several statements take \<open>fails\<close>, which says which of
  their statements (counted from 0, the commit last) returns an I/O error: in a transaction
  the database is then rolled back, outside of one the earlier statements stay.
\<close>

section \<open>Rows\<close>

record local_identity_row =
  li_id :: string
  li_role :: string
  li_state :: bytes
  li_updated_at :: int

record local_setting_row =
  ls_key :: string
  ls_value :: string
  ls_updated_at :: int

record session_row =
  se_conversation_id :: string
  se_peer_id :: string
  se_role :: string
  se_state :: bytes
  se_updated_at :: int

record device_pair_session_row =
  dp_local_device_id :: string
  dp_remote_device_id :: string
  dp_state :: bytes
  dp_updated_at :: int

record message_row =
  mw_message_id :: string
  mw_conversation_id :: string
  mw_sender_id :: string
  mw_recipient_id :: string
  mw_direction :: string
  mw_status :: string
  mw_protocol_counter :: "int option"
  mw_ciphertext :: bytes
  mw_plaintext :: "string option"
  mw_created_at :: int

record outbox_row =
  ow_message_id :: string
  ow_recipient_id :: string
  ow_payload :: bytes
  ow_status :: string
  ow_retry_count :: int
  ow_created_at :: int
  ow_last_attempt :: "int option"

record accepted_message_row =
  am_message_id :: string
  am_accepted_at :: int

record new_message_row =
  nm_message_id :: string
  nm_conversation_id :: string
  nm_marked_at :: int

record device_counter_row =
  dc_device_id :: string
  dc_next_counter :: int

record event_row =
  ew_device_id :: string
  ew_counter :: int
  ew_conversation_id :: string
  ew_event_type :: string
  ew_message_id :: "string option"
  ew_payload :: bytes
  ew_created_at :: int

record version_vector_row =
  vv_conversation_id :: string
  vv_device_id :: string
  vv_contiguous_counter :: int

record account_identity_row =
  ai_account_id :: string
  ai_public_key :: bytes
  ai_secret_key :: "bytes option"
  ai_updated_at :: int

record device_identity_row =
  di_device_id :: string
  di_account_id :: string
  di_ed25519_public_key :: bytes
  di_ed25519_secret_key :: bytes
  di_x25519_public_key :: bytes
  di_x25519_private_key :: bytes
  di_updated_at :: int

record device_certificate_row =
  dcf_account_id :: string
  dcf_device_id :: string
  dcf_certificate :: bytes
  dcf_updated_at :: int

record device_revocation_row =
  drv_account_id :: string
  drv_device_id :: string
  drv_revocation_counter :: int
  drv_revocation :: bytes
  drv_updated_at :: int

record contact_row =
  cw_contact_id :: string
  cw_display_name :: string
  cw_identity_public_key :: bytes
  cw_discovery_hint :: string
  cw_saved_at :: int

record known_peer_row =
  kw_peer_id :: string
  kw_identity_public_key :: bytes
  kw_display_name :: string
  kw_conversation_id :: string
  kw_last_seen_at :: int

record pending_row =
  pw_message_id :: string
  pw_peer_id :: string
  pw_conversation_id :: string
  pw_plaintext :: string
  pw_created_at :: int
  pw_retry_count :: int
  pw_last_attempt :: "int option"

record invite_row =
  iw_code_hash :: string
  iw_rendezvous_payload :: string
  iw_expires_at :: int
  iw_consumed_at :: "int option"
  iw_created_at :: int

section \<open>The database\<close>

record db =
  local_identity :: "local_identity_row list"
  local_settings :: "local_setting_row list"
  sessions :: "session_row list"
  device_pair_sessions :: "device_pair_session_row list"
  messages :: "message_row list"
  outbox :: "outbox_row list"
  accepted_messages :: "accepted_message_row list"
  new_messages :: "new_message_row list"
  device_counters :: "device_counter_row list"
  event_history :: "event_row list"
  version_vectors :: "version_vector_row list"
  account_identities :: "account_identity_row list"
  device_identities :: "device_identity_row list"
  device_certificates :: "device_certificate_row list"
  device_revocations :: "device_revocation_row list"
  contacts_tbl :: "contact_row list"
  known_peers :: "known_peer_row list"
  pending_peer_messages :: "pending_row list"
  invite_records :: "invite_row list"

text \<open>\<^verbatim>\<open>Storage::init\<close> on a fresh file; on an existing one \<^verbatim>\<open>IF NOT EXISTS\<close> changes nothing.\<close>

definition init_db :: db where
  "init_db = \<lparr>local_identity = [], local_settings = [], sessions = [], device_pair_sessions = [],
     messages = [], outbox = [], accepted_messages = [], new_messages = [], device_counters = [],
     event_history = [], version_vectors = [], account_identities = [], device_identities = [],
     device_certificates = [], device_revocations = [], contacts_tbl = [], known_peers = [],
     pending_peer_messages = [], invite_records = []\<rparr>"

datatype storage_error = ConstraintViolation | IoFailure

text \<open>
  \<^verbatim>\<open>conn.transaction()\<close> ... \<^verbatim>\<open>tx.commit()\<close>: dropping the transaction on an error rolls it back.
\<close>

fun run_statements :: "(nat \<Rightarrow> bool) \<Rightarrow> nat \<Rightarrow> (db \<Rightarrow> db) list \<Rightarrow> db \<Rightarrow> db option" where
  "run_statements fails n [] s = Some s"
| "run_statements fails n (st # sts) s =
     (if fails n then None else run_statements fails (Suc n) sts (st s))"

definition transaction :: "(nat \<Rightarrow> bool) \<Rightarrow> (db \<Rightarrow> db) list \<Rightarrow> db \<Rightarrow> db \<times> (storage_error + unit)" where
  "transaction fails sts s =
     (case run_statements fails 0 sts s of
        None \<Rightarrow> (s, Inl IoFailure)
      | Some s' \<Rightarrow> if fails (length sts) then (s, Inl IoFailure) else (s', Inr ()))"

text \<open>The same statements each in its own implicit transaction.\<close>

fun autocommit :: "(nat \<Rightarrow> bool) \<Rightarrow> nat \<Rightarrow> (db \<Rightarrow> db) list \<Rightarrow> db \<Rightarrow> db \<times> (storage_error + unit)" where
  "autocommit fails n [] s = (s, Inr ())"
| "autocommit fails n (st # sts) s =
     (if fails n then (s, Inl IoFailure) else autocommit fails (Suc n) sts (st s))"

section \<open>Reading rows\<close>

definition message_from_row :: "message_row \<Rightarrow> message_record" where
  "message_from_row r =
     \<lparr>mr_message_id = mw_message_id r, mr_conversation_id = mw_conversation_id r,
      mr_sender_id = mw_sender_id r, mr_recipient_id = mw_recipient_id r,
      mr_direction = message_direction_from_str (mw_direction r),
      mr_status = message_status_from_str (mw_status r),
      mr_protocol_counter = map_option as_u64 (mw_protocol_counter r),
      mr_ciphertext = mw_ciphertext r, mr_plaintext = mw_plaintext r,
      mr_created_at = as_u64 (mw_created_at r)\<rparr>"

definition message_to_row :: "message_record \<Rightarrow> message_row" where
  "message_to_row m =
     \<lparr>mw_message_id = mr_message_id m, mw_conversation_id = mr_conversation_id m,
      mw_sender_id = mr_sender_id m, mw_recipient_id = mr_recipient_id m,
      mw_direction = message_direction_as_str (mr_direction m),
      mw_status = message_status_as_str (mr_status m),
      mw_protocol_counter = map_option as_i64 (mr_protocol_counter m),
      mw_ciphertext = mr_ciphertext m, mw_plaintext = mr_plaintext m,
      mw_created_at = as_i64 (mr_created_at m)\<rparr>"

definition outbox_item_from_row :: "outbox_row \<Rightarrow> outbox_item" where
  "outbox_item_from_row r =
     \<lparr>ob_message_id = ow_message_id r, ob_recipient_id = ow_recipient_id r,
      ob_payload = ow_payload r, ob_status = outbox_status_from_str (ow_status r),
      ob_retry_count = as_u64 (ow_retry_count r), ob_created_at = as_u64 (ow_created_at r),
      ob_last_attempt = map_option as_u64 (ow_last_attempt r)\<rparr>"

definition outbox_item_to_row :: "outbox_item \<Rightarrow> outbox_row" where
  "outbox_item_to_row i =
     \<lparr>ow_message_id = ob_message_id i, ow_recipient_id = ob_recipient_id i,
      ow_payload = ob_payload i, ow_status = outbox_status_as_str (ob_status i),
      ow_retry_count = as_i64 (ob_retry_count i), ow_created_at = as_i64 (ob_created_at i),
      ow_last_attempt = map_option as_i64 (ob_last_attempt i)\<rparr>"

definition contact_from_row :: "contact_row \<Rightarrow> contact_record" where
  "contact_from_row r =
     \<lparr>ct_contact_id = cw_contact_id r, ct_display_name = cw_display_name r,
      ct_identity_public_key = cw_identity_public_key r,
      ct_discovery_hint = cw_discovery_hint r, ct_saved_at = as_u64 (cw_saved_at r)\<rparr>"

definition known_peer_from_row :: "known_peer_row \<Rightarrow> known_peer_record" where
  "known_peer_from_row r =
     \<lparr>kp_peer_id = kw_peer_id r, kp_identity_public_key = kw_identity_public_key r,
      kp_display_name = kw_display_name r, kp_conversation_id = kw_conversation_id r,
      kp_last_seen_at = as_u64 (kw_last_seen_at r)\<rparr>"

definition pending_peer_message_from_row :: "pending_row \<Rightarrow> pending_peer_message" where
  "pending_peer_message_from_row r =
     \<lparr>pm_message_id = pw_message_id r, pm_peer_id = pw_peer_id r,
      pm_conversation_id = pw_conversation_id r, pm_plaintext = pw_plaintext r,
      pm_created_at = as_u64 (pw_created_at r), pm_retry_count = as_u64 (pw_retry_count r),
      pm_last_attempt = map_option as_u64 (pw_last_attempt r)\<rparr>"

definition invite_from_row :: "invite_row \<Rightarrow> invite_record" where
  "invite_from_row r =
     \<lparr>iv_code_hash = iw_code_hash r, iv_rendezvous_payload = iw_rendezvous_payload r,
      iv_expires_at = as_u64 (iw_expires_at r),
      iv_consumed_at = map_option as_u64 (iw_consumed_at r),
      iv_created_at = as_u64 (iw_created_at r)\<rparr>"

definition event_from_row :: "event_row \<Rightarrow> event_record" where
  "event_from_row r =
     \<lparr>ev_device_id = ew_device_id r, ev_counter = as_u64 (ew_counter r),
      ev_conversation_id = ew_conversation_id r, ev_event_type = ew_event_type r,
      ev_message_id = ew_message_id r, ev_payload = ew_payload r,
      ev_created_at = as_u64 (ew_created_at r)\<rparr>"

section \<open>Local identity, settings, sessions\<close>

definition stmt_upsert_local_identity :: "string \<Rightarrow> string \<Rightarrow> bytes \<Rightarrow> int \<Rightarrow> db \<Rightarrow> db" where
  "stmt_upsert_local_identity lid role state now s =
     s\<lparr>local_identity := upsert li_id (\<lambda>old new. new)
        \<lparr>li_id = lid, li_role = role, li_state = state, li_updated_at = now\<rparr> (local_identity s)\<rparr>"

definition save_local_identity :: "string \<Rightarrow> string \<Rightarrow> bytes \<Rightarrow> u64 \<Rightarrow> db \<Rightarrow> db" where
  "save_local_identity lid role state now s = stmt_upsert_local_identity lid role state (as_i64 now) s"

definition load_local_identity :: "string \<Rightarrow> db \<Rightarrow> bytes option" where
  "load_local_identity lid s = map_option li_state (select_one (\<lambda>r. li_id r = lid) (local_identity s))"

definition save_display_name :: "string \<Rightarrow> u64 \<Rightarrow> db \<Rightarrow> db" where
  "save_display_name display_name now s =
     s\<lparr>local_settings := upsert ls_key (\<lambda>old new. new)
        \<lparr>ls_key = ''display_name'', ls_value = display_name, ls_updated_at = as_i64 now\<rparr>
        (local_settings s)\<rparr>"

definition load_display_name :: "db \<Rightarrow> string option" where
  "load_display_name s =
     map_option ls_value (select_one (\<lambda>r. ls_key r = ''display_name'') (local_settings s))"

definition stmt_upsert_session :: "string \<Rightarrow> string \<Rightarrow> string \<Rightarrow> bytes \<Rightarrow> int \<Rightarrow> db \<Rightarrow> db" where
  "stmt_upsert_session conversation_id peer_id role state now s =
     s\<lparr>sessions := upsert se_conversation_id (\<lambda>old new. new)
        \<lparr>se_conversation_id = conversation_id, se_peer_id = peer_id, se_role = role,
         se_state = state, se_updated_at = now\<rparr> (sessions s)\<rparr>"

definition save_session :: "string \<Rightarrow> string \<Rightarrow> string \<Rightarrow> bytes \<Rightarrow> u64 \<Rightarrow> db \<Rightarrow> db" where
  "save_session conversation_id peer_id role state now s =
     stmt_upsert_session conversation_id peer_id role state (as_i64 now) s"

definition load_session :: "string \<Rightarrow> db \<Rightarrow> bytes option" where
  "load_session conversation_id s =
     map_option se_state (select_one (\<lambda>r. se_conversation_id r = conversation_id) (sessions s))"

definition dp_key :: "device_pair_session_row \<Rightarrow> string \<times> string" where
  "dp_key r = (dp_local_device_id r, dp_remote_device_id r)"

definition stmt_upsert_device_pair_session :: "string \<Rightarrow> string \<Rightarrow> bytes \<Rightarrow> int \<Rightarrow> db \<Rightarrow> db" where
  "stmt_upsert_device_pair_session local_id remote_id state now s =
     s\<lparr>device_pair_sessions := upsert dp_key (\<lambda>old new. new)
        \<lparr>dp_local_device_id = local_id, dp_remote_device_id = remote_id, dp_state = state,
         dp_updated_at = now\<rparr> (device_pair_sessions s)\<rparr>"

definition save_device_pair_session :: "string \<Rightarrow> string \<Rightarrow> bytes \<Rightarrow> u64 \<Rightarrow> db \<Rightarrow> db" where
  "save_device_pair_session local_id remote_id state now s =
     stmt_upsert_device_pair_session local_id remote_id state (as_i64 now) s"

definition load_device_pair_session :: "string \<Rightarrow> string \<Rightarrow> db \<Rightarrow> bytes option" where
  "load_device_pair_session local_id remote_id s =
     map_option dp_state (select_one
       (\<lambda>r. dp_local_device_id r = local_id \<and> dp_remote_device_id r = remote_id)
       (device_pair_sessions s))"

section \<open>Contacts and known peers\<close>

definition save_contact :: "contact_record \<Rightarrow> db \<Rightarrow> db" where
  "save_contact contact s =
     s\<lparr>contacts_tbl := upsert cw_contact_id (\<lambda>old new. new)
        \<lparr>cw_contact_id = ct_contact_id contact, cw_display_name = ct_display_name contact,
         cw_identity_public_key = ct_identity_public_key contact,
         cw_discovery_hint = ct_discovery_hint contact,
         cw_saved_at = as_i64 (ct_saved_at contact)\<rparr> (contacts_tbl s)\<rparr>"

definition load_contact :: "string \<Rightarrow> db \<Rightarrow> contact_record option" where
  "load_contact contact_id s =
     map_option contact_from_row (select_one (\<lambda>r. cw_contact_id r = contact_id) (contacts_tbl s))"

definition contacts :: "db \<Rightarrow> contact_record list" where
  "contacts s = map contact_from_row
     (select_order_by (\<lambda>r. (- cw_saved_at r, nocase (cw_display_name r))) (\<lambda>r. True) (contacts_tbl s))"

text \<open>
  The upsert resolves a conflict on \<^verbatim>\<open>peer_id\<close> only: a row of another peer with the same
  \<^verbatim>\<open>conversation_id\<close> violates the UNIQUE constraint and the statement fails.
\<close>

definition save_known_peer :: "known_peer_record \<Rightarrow> db \<Rightarrow> storage_error + db" where
  "save_known_peer peer s =
     (if \<exists>r \<in> set (known_peers s). kw_peer_id r \<noteq> kp_peer_id peer
          \<and> kw_conversation_id r = kp_conversation_id peer
      then Inl ConstraintViolation
      else Inr (s\<lparr>known_peers := upsert kw_peer_id (\<lambda>old new. new)
        \<lparr>kw_peer_id = kp_peer_id peer, kw_identity_public_key = kp_identity_public_key peer,
         kw_display_name = kp_display_name peer, kw_conversation_id = kp_conversation_id peer,
         kw_last_seen_at = as_i64 (kp_last_seen_at peer)\<rparr> (known_peers s)\<rparr>))"

definition known_peer_for_conversation :: "string \<Rightarrow> db \<Rightarrow> known_peer_record option" where
  "known_peer_for_conversation conversation_id s =
     map_option known_peer_from_row
       (select_one (\<lambda>r. kw_conversation_id r = conversation_id) (known_peers s))"

section \<open>Queued peer messages\<close>

definition pending_peer_message_count :: "string \<Rightarrow> db \<Rightarrow> nat" where
  "pending_peer_message_count conversation_id s =
     count_where (\<lambda>r. pw_conversation_id r = conversation_id) (pending_peer_messages s)"

definition pending_to_row :: "pending_peer_message \<Rightarrow> pending_row" where
  "pending_to_row m =
     \<lparr>pw_message_id = pm_message_id m, pw_peer_id = pm_peer_id m,
      pw_conversation_id = pm_conversation_id m, pw_plaintext = pm_plaintext m,
      pw_created_at = as_i64 (pm_created_at m), pw_retry_count = as_i64 (pm_retry_count m),
      pw_last_attempt = map_option as_i64 (pm_last_attempt m)\<rparr>"

definition queue_pending_peer_message :: "pending_peer_message \<Rightarrow> db \<Rightarrow> db" where
  "queue_pending_peer_message m s =
     s\<lparr>pending_peer_messages :=
        fst (insert_or_ignore pw_message_id (pending_to_row m) (pending_peer_messages s))\<rparr>"

definition pending_peer_messages_for_peer :: "string \<Rightarrow> db \<Rightarrow> pending_peer_message list" where
  "pending_peer_messages_for_peer peer_id s = map pending_peer_message_from_row
     (select_order_by (\<lambda>r. (pw_created_at r, pw_message_id r)) (\<lambda>r. pw_peer_id r = peer_id)
        (pending_peer_messages s))"

definition record_pending_peer_message_attempt :: "string \<Rightarrow> u64 \<Rightarrow> db \<Rightarrow> db" where
  "record_pending_peer_message_attempt message_id now s =
     s\<lparr>pending_peer_messages := update_where (\<lambda>r. pw_message_id r = message_id)
        (\<lambda>r. r\<lparr>pw_retry_count := pw_retry_count r + 1, pw_last_attempt := Some (as_i64 now)\<rparr>)
        (pending_peer_messages s)\<rparr>"

definition remove_pending_peer_message :: "string \<Rightarrow> db \<Rightarrow> db" where
  "remove_pending_peer_message message_id s =
     s\<lparr>pending_peer_messages :=
        delete_where (\<lambda>r. pw_message_id r = message_id) (pending_peer_messages s)\<rparr>"

section \<open>Invites\<close>

definition save_invite_record :: "invite_record \<Rightarrow> db \<Rightarrow> db" where
  "save_invite_record invite s =
     s\<lparr>invite_records := upsert iw_code_hash (\<lambda>old new. new)
        \<lparr>iw_code_hash = iv_code_hash invite, iw_rendezvous_payload = iv_rendezvous_payload invite,
         iw_expires_at = as_i64 (iv_expires_at invite),
         iw_consumed_at = map_option as_i64 (iv_consumed_at invite),
         iw_created_at = as_i64 (iv_created_at invite)\<rparr> (invite_records s)\<rparr>"

definition invite_consumable :: "string \<Rightarrow> int \<Rightarrow> invite_row \<Rightarrow> bool" where
  "invite_consumable code_hash now r \<longleftrightarrow>
     iw_code_hash r = code_hash \<and> iw_consumed_at r = None \<and> now < iw_expires_at r"

definition consume_invite_record :: "string \<Rightarrow> u64 \<Rightarrow> db \<Rightarrow> db \<times> invite_record option" where
  "consume_invite_record code_hash now s =
     (let p = invite_consumable code_hash (as_i64 now);
          changed = count_where p (invite_records s);
          s' = s\<lparr>invite_records := update_where p
                 (\<lambda>r. r\<lparr>iw_consumed_at := Some (as_i64 now)\<rparr>) (invite_records s)\<rparr>
      in if changed = 0 then (s', None)
         else (s', map_option invite_from_row
                 (select_one (\<lambda>r. iw_code_hash r = code_hash) (invite_records s'))))"

section \<open>Messages\<close>

definition insert_message :: "message_record \<Rightarrow> db \<Rightarrow> db" where
  "insert_message m s =
     s\<lparr>messages := fst (insert_or_ignore mw_message_id (message_to_row m) (messages s))\<rparr>"

definition update_message_status :: "string \<Rightarrow> message_status \<Rightarrow> db \<Rightarrow> db" where
  "update_message_status message_id status s =
     s\<lparr>messages := update_where (\<lambda>r. mw_message_id r = message_id)
        (\<lambda>r. r\<lparr>mw_status := message_status_as_str status\<rparr>) (messages s)\<rparr>"

definition message_exists :: "string \<Rightarrow> db \<Rightarrow> bool" where
  "message_exists message_id s \<longleftrightarrow> 0 < count_where (\<lambda>r. mw_message_id r = message_id) (messages s)"

text \<open>The sort key of the history queries.\<close>

definition mw_order :: "message_row \<Rightarrow> int \<times> int option \<times> string" where
  "mw_order r = (mw_created_at r, mw_protocol_counter r, mw_message_id r)"

definition messages_for_conversation :: "string \<Rightarrow> db \<Rightarrow> message_record list" where
  "messages_for_conversation conversation_id s = map message_from_row
     (select_order_by mw_order (\<lambda>r. mw_conversation_id r = conversation_id) (messages s))"

text \<open>\<^verbatim>\<open>ORDER BY\<close> the same columns, all \<^verbatim>\<open>DESC\<close>, \<^verbatim>\<open>LIMIT 1\<close>.\<close>

definition last_message_row :: "string \<Rightarrow> db \<Rightarrow> message_row option" where
  "last_message_row conversation_id s =
     (case rev (select_order_by mw_order (\<lambda>r. mw_conversation_id r = conversation_id) (messages s)) of
        [] \<Rightarrow> None | r # _ \<Rightarrow> Some r)"

definition last_message_for_conversation :: "string \<Rightarrow> db \<Rightarrow> message_record option" where
  "last_message_for_conversation conversation_id s =
     map_option message_from_row (last_message_row conversation_id s)"

section \<open>Writing session, message and outbox together\<close>

definition stmt_insert_message :: "message_record \<Rightarrow> db \<Rightarrow> db" where
  "stmt_insert_message m s =
     s\<lparr>messages := fst (insert_or_ignore mw_message_id (message_to_row m) (messages s))\<rparr>"

definition stmt_upsert_outbox :: "outbox_item \<Rightarrow> db \<Rightarrow> db" where
  "stmt_upsert_outbox i s =
     s\<lparr>outbox := upsert ow_message_id
        (\<lambda>old new. old\<lparr>ow_recipient_id := ow_recipient_id new, ow_payload := ow_payload new,
           ow_status := ow_status new\<rparr>)
        (outbox_item_to_row i) (outbox s)\<rparr>"

definition save_state_session_and_insert_message ::
    "(nat \<Rightarrow> bool) \<Rightarrow> string \<Rightarrow> string \<Rightarrow> bytes \<Rightarrow> string \<Rightarrow> string \<Rightarrow> string \<Rightarrow> bytes
      \<Rightarrow> message_record \<Rightarrow> u64 \<Rightarrow> db \<Rightarrow> db \<times> (storage_error + unit)" where
  "save_state_session_and_insert_message fails lid lrole lstate conversation_id peer_id
       session_role session_state message now =
     transaction fails
       [stmt_upsert_local_identity lid lrole lstate (as_i64 now),
        stmt_upsert_session conversation_id peer_id session_role session_state (as_i64 now),
        stmt_insert_message message]"

definition save_state_session_message_and_outbox ::
    "(nat \<Rightarrow> bool) \<Rightarrow> string \<Rightarrow> string \<Rightarrow> bytes \<Rightarrow> string \<Rightarrow> string \<Rightarrow> string \<Rightarrow> bytes
      \<Rightarrow> message_record \<Rightarrow> outbox_item \<Rightarrow> u64 \<Rightarrow> db \<Rightarrow> db \<times> (storage_error + unit)" where
  "save_state_session_message_and_outbox fails lid lrole lstate conversation_id peer_id
       session_role session_state message item now =
     transaction fails
       [stmt_upsert_local_identity lid lrole lstate (as_i64 now),
        stmt_upsert_session conversation_id peer_id session_role session_state (as_i64 now),
        stmt_insert_message message,
        stmt_upsert_outbox item]"

definition save_device_pair_session_and_outbox ::
    "(nat \<Rightarrow> bool) \<Rightarrow> string \<Rightarrow> string \<Rightarrow> bytes \<Rightarrow> outbox_item \<Rightarrow> u64 \<Rightarrow> db
      \<Rightarrow> db \<times> (storage_error + unit)" where
  "save_device_pair_session_and_outbox fails local_id remote_id session_state item now =
     transaction fails
       [stmt_upsert_device_pair_session local_id remote_id session_state (as_i64 now),
        stmt_upsert_outbox item]"

section \<open>Outbox, deduplication, unread markers\<close>

definition outbox_items_with_status :: "outbox_status \<Rightarrow> db \<Rightarrow> outbox_item list" where
  "outbox_items_with_status status s = map outbox_item_from_row
     (select_order_by (\<lambda>r. (ow_created_at r, ow_message_id r))
        (\<lambda>r. ow_status r = outbox_status_as_str status) (outbox s))"

definition pending_outbox_items :: "db \<Rightarrow> outbox_item list" where
  "pending_outbox_items s = outbox_items_with_status OutboxPending s"

definition get_outbox_item :: "string \<Rightarrow> db \<Rightarrow> outbox_item option" where
  "get_outbox_item message_id s =
     map_option outbox_item_from_row (select_one (\<lambda>r. ow_message_id r = message_id) (outbox s))"

definition record_outbox_attempt :: "string \<Rightarrow> u64 \<Rightarrow> db \<Rightarrow> db" where
  "record_outbox_attempt message_id now s =
     s\<lparr>outbox := update_where (\<lambda>r. ow_message_id r = message_id)
        (\<lambda>r. r\<lparr>ow_retry_count := ow_retry_count r + 1, ow_last_attempt := Some (as_i64 now)\<rparr>)
        (outbox s)\<rparr>"

definition mark_outbox_delivered :: "string \<Rightarrow> u64 \<Rightarrow> db \<Rightarrow> db" where
  "mark_outbox_delivered message_id now s =
     s\<lparr>outbox := update_where (\<lambda>r. ow_message_id r = message_id)
        (\<lambda>r. r\<lparr>ow_status := ''delivered'', ow_last_attempt := Some (as_i64 now)\<rparr>)
        (outbox s)\<rparr>"

definition accept_message_once :: "string \<Rightarrow> u64 \<Rightarrow> db \<Rightarrow> db \<times> bool" where
  "accept_message_once message_id now s =
     (let (t, inserted) = insert_or_ignore am_message_id
            \<lparr>am_message_id = message_id, am_accepted_at = as_i64 now\<rparr> (accepted_messages s)
      in (s\<lparr>accepted_messages := t\<rparr>, inserted = 1))"

definition mark_message_new :: "string \<Rightarrow> string \<Rightarrow> u64 \<Rightarrow> db \<Rightarrow> db" where
  "mark_message_new conversation_id message_id now s =
     s\<lparr>new_messages := fst (insert_or_ignore nm_message_id
        \<lparr>nm_message_id = message_id, nm_conversation_id = conversation_id,
         nm_marked_at = as_i64 now\<rparr> (new_messages s))\<rparr>"

definition new_messages_for_conversation :: "string \<Rightarrow> db \<Rightarrow> message_record list" where
  "new_messages_for_conversation conversation_id s = map message_from_row
     (select_order_by mw_order (\<lambda>m. mw_direction m = ''received'')
       (concat (map (\<lambda>nm. filter (\<lambda>m. mw_message_id m = nm_message_id nm) (messages s))
          (filter (\<lambda>nm. nm_conversation_id nm = conversation_id) (new_messages s)))))"

definition mark_new_messages_read :: "string \<Rightarrow> db \<Rightarrow> db \<times> nat" where
  "mark_new_messages_read conversation_id s =
     (s\<lparr>new_messages := delete_where (\<lambda>r. nm_conversation_id r = conversation_id) (new_messages s)\<rparr>,
      count_where (\<lambda>r. nm_conversation_id r = conversation_id) (new_messages s))"

section \<open>Accounts, devices, certificates, revocations\<close>

definition save_account_identity :: "string \<Rightarrow> bytes \<Rightarrow> bytes option \<Rightarrow> u64 \<Rightarrow> db \<Rightarrow> db" where
  "save_account_identity account_id public_key secret_key now s =
     s\<lparr>account_identities := upsert ai_account_id (\<lambda>old new. new)
        \<lparr>ai_account_id = account_id, ai_public_key = public_key, ai_secret_key = secret_key,
         ai_updated_at = as_i64 now\<rparr> (account_identities s)\<rparr>"

definition load_account_secret_key :: "string \<Rightarrow> db \<Rightarrow> bytes option" where
  "load_account_secret_key account_id s =
     Option.bind (select_one (\<lambda>r. ai_account_id r = account_id) (account_identities s)) ai_secret_key"

definition save_device_identity ::
    "string \<Rightarrow> string \<Rightarrow> bytes \<Rightarrow> bytes \<Rightarrow> bytes \<Rightarrow> bytes \<Rightarrow> u64 \<Rightarrow> db \<Rightarrow> db" where
  "save_device_identity device_id account_id ed_pub ed_sec x_pub x_priv now s =
     s\<lparr>device_identities := upsert di_device_id (\<lambda>old new. new)
        \<lparr>di_device_id = device_id, di_account_id = account_id, di_ed25519_public_key = ed_pub,
         di_ed25519_secret_key = ed_sec, di_x25519_public_key = x_pub,
         di_x25519_private_key = x_priv, di_updated_at = as_i64 now\<rparr> (device_identities s)\<rparr>"

text \<open>\<open>ser\<close> is \<^verbatim>\<open>bincode::serialize\<close> on the tuple the code builds.\<close>

definition load_device_identity ::
    "(string \<times> string \<times> bytes \<times> bytes \<Rightarrow> bytes) \<Rightarrow> string \<Rightarrow> db \<Rightarrow> bytes option" where
  "load_device_identity ser device_id s =
     map_option (\<lambda>r. ser (di_account_id r, device_id, di_ed25519_secret_key r, di_x25519_private_key r))
       (select_one (\<lambda>r. di_device_id r = device_id) (device_identities s))"

definition dcf_key :: "device_certificate_row \<Rightarrow> string \<times> string" where
  "dcf_key r = (dcf_account_id r, dcf_device_id r)"

definition save_device_certificate :: "string \<Rightarrow> string \<Rightarrow> bytes \<Rightarrow> u64 \<Rightarrow> db \<Rightarrow> db" where
  "save_device_certificate account_id device_id certificate now s =
     s\<lparr>device_certificates := upsert dcf_key (\<lambda>old new. new)
        \<lparr>dcf_account_id = account_id, dcf_device_id = device_id, dcf_certificate = certificate,
         dcf_updated_at = as_i64 now\<rparr> (device_certificates s)\<rparr>"

definition device_certificates_for_account :: "string \<Rightarrow> db \<Rightarrow> bytes list" where
  "device_certificates_for_account account_id s = map dcf_certificate
     (select_order_by dcf_device_id (\<lambda>r. dcf_account_id r = account_id) (device_certificates s))"

definition drv_key :: "device_revocation_row \<Rightarrow> string \<times> string" where
  "drv_key r = (drv_account_id r, drv_device_id r)"

text \<open>\<^verbatim>\<open>DO UPDATE SET revocation_counter = MAX(...), revocation = CASE WHEN ...\<close>\<close>

definition merge_revocation ::
    "device_revocation_row \<Rightarrow> device_revocation_row \<Rightarrow> device_revocation_row" where
  "merge_revocation old new = old\<lparr>
     drv_revocation_counter := max (drv_revocation_counter old) (drv_revocation_counter new),
     drv_revocation := (if drv_revocation_counter old \<le> drv_revocation_counter new
                        then drv_revocation new else drv_revocation old),
     drv_updated_at := drv_updated_at new\<rparr>"

definition save_device_revocation :: "string \<Rightarrow> string \<Rightarrow> u64 \<Rightarrow> bytes \<Rightarrow> u64 \<Rightarrow> db \<Rightarrow> db" where
  "save_device_revocation account_id device_id revocation_counter revocation now s =
     s\<lparr>device_revocations := upsert drv_key merge_revocation
        \<lparr>drv_account_id = account_id, drv_device_id = device_id,
         drv_revocation_counter = as_i64 revocation_counter, drv_revocation = revocation,
         drv_updated_at = as_i64 now\<rparr> (device_revocations s)\<rparr>"

definition device_revocations_for_account :: "string \<Rightarrow> db \<Rightarrow> bytes list" where
  "device_revocations_for_account account_id s = map drv_revocation
     (select_order_by drv_device_id (\<lambda>r. drv_account_id r = account_id) (device_revocations s))"

section \<open>Event counters, the event log, version vectors\<close>

definition stmt_upsert_device_counter :: "string \<Rightarrow> int \<Rightarrow> db \<Rightarrow> db" where
  "stmt_upsert_device_counter device_id next_counter s =
     s\<lparr>device_counters := upsert dc_device_id (\<lambda>old new. new)
        \<lparr>dc_device_id = device_id, dc_next_counter = next_counter\<rparr> (device_counters s)\<rparr>"

definition next_local_event_counter ::
    "(nat \<Rightarrow> bool) \<Rightarrow> string \<Rightarrow> db \<Rightarrow> db \<times> (storage_error + u64)" where
  "next_local_event_counter fails device_id s =
     (let current = (case select_one (\<lambda>r. dc_device_id r = device_id) (device_counters s) of
                       None \<Rightarrow> 1 | Some r \<Rightarrow> dc_next_counter r);
          next_counter = as_i64 (as_u64 (current + 1));
          (s', res) = transaction fails [stmt_upsert_device_counter device_id next_counter] s
      in (s', and_then res (\<lambda>_. Inr (as_u64 current))))"

definition event_to_row :: "event_record \<Rightarrow> event_row" where
  "event_to_row e =
     \<lparr>ew_device_id = ev_device_id e, ew_counter = as_i64 (ev_counter e),
      ew_conversation_id = ev_conversation_id e, ew_event_type = ev_event_type e,
      ew_message_id = ev_message_id e, ew_payload = ev_payload e,
      ew_created_at = as_i64 (ev_created_at e)\<rparr>"

definition ew_key :: "event_row \<Rightarrow> string \<times> int" where
  "ew_key r = (ew_device_id r, ew_counter r)"

definition vv_key :: "version_vector_row \<Rightarrow> string \<times> string" where
  "vv_key r = (vv_conversation_id r, vv_device_id r)"

text \<open>The loop of \<^verbatim>\<open>refresh_vector_for_device\<close>: it breaks at the first gap.\<close>

fun contiguous_from :: "u64 \<Rightarrow> int list \<Rightarrow> u64" where
  "contiguous_from contiguous [] = contiguous"
| "contiguous_from contiguous (x # xs) =
     (let counter = as_u64 x
      in if counter = contiguous + 1 then contiguous_from counter xs
         else if counter > contiguous + 1 then contiguous
         else contiguous_from contiguous xs)"

definition refresh_vector_for_device :: "string \<Rightarrow> string \<Rightarrow> db \<Rightarrow> db" where
  "refresh_vector_for_device conversation_id device_id s =
     (let counters = map ew_counter (select_order_by ew_counter
            (\<lambda>r. ew_conversation_id r = conversation_id \<and> ew_device_id r = device_id)
            (event_history s));
          contiguous = contiguous_from 0 counters
      in s\<lparr>version_vectors := upsert vv_key (\<lambda>old new. new)
            \<lparr>vv_conversation_id = conversation_id, vv_device_id = device_id,
             vv_contiguous_counter = as_i64 contiguous\<rparr> (version_vectors s)\<rparr>)"

definition stmt_insert_event :: "event_record \<Rightarrow> db \<Rightarrow> db" where
  "stmt_insert_event e s =
     s\<lparr>event_history := fst (insert_or_ignore ew_key (event_to_row e) (event_history s))\<rparr>"

definition append_event :: "(nat \<Rightarrow> bool) \<Rightarrow> event_record \<Rightarrow> db \<Rightarrow> db \<times> (storage_error + bool)" where
  "append_event fails e s =
     (let inserted = snd (insert_or_ignore ew_key (event_to_row e) (event_history s));
          (s', res) = autocommit fails 0
            [stmt_insert_event e,
             refresh_vector_for_device (ev_conversation_id e) (ev_device_id e)] s
      in (s', and_then res (\<lambda>_. Inr (inserted = 1))))"

text \<open>
  \<^verbatim>\<open>append_events\<close>; \<open>fails i\<close> are the failures of the \<open>i\<close>-th append.  An error leaves the events
  appended before it in place.
\<close>

fun append_events_from ::
    "(nat \<Rightarrow> nat \<Rightarrow> bool) \<Rightarrow> nat \<Rightarrow> nat \<Rightarrow> event_record list \<Rightarrow> db \<Rightarrow> db \<times> (storage_error + nat)" where
  "append_events_from fails i inserted [] s = (s, Inr inserted)"
| "append_events_from fails i inserted (e # es) s =
     (case append_event (fails i) e s of
        (s', Inl err) \<Rightarrow> (s', Inl err)
      | (s', Inr new) \<Rightarrow>
          append_events_from fails (Suc i) (if new then inserted + 1 else inserted) es s')"

definition append_events ::
    "(nat \<Rightarrow> nat \<Rightarrow> bool) \<Rightarrow> event_record list \<Rightarrow> db \<Rightarrow> db \<times> (storage_error + nat)" where
  "append_events fails es s = append_events_from fails 0 0 es s"

definition version_vector :: "string \<Rightarrow> db \<Rightarrow> version_vector_map" where
  "version_vector conversation_id s = bt_collect
     (map (\<lambda>r. (vv_device_id r, as_u64 (vv_contiguous_counter r)))
       (select_order_by vv_device_id (\<lambda>r. vv_conversation_id r = conversation_id) (version_vectors s)))"

definition missing_events_for :: "string \<Rightarrow> version_vector_map \<Rightarrow> db \<Rightarrow> event_record list" where
  "missing_events_for conversation_id peer_vector s =
     filter (\<lambda>e. ev_counter e > (case bt_get peer_vector (ev_device_id e) of None \<Rightarrow> 0 | Some c \<Rightarrow> c))
       (map event_from_row
         (select_order_by ew_key (\<lambda>r. ew_conversation_id r = conversation_id) (event_history s)))"

section \<open>Chat summaries\<close>

definition chat_summary_of :: "db \<Rightarrow> contact_record \<Rightarrow> chat_summary" where
  "chat_summary_of s contact =
     \<lparr>cs_contact = contact,
      cs_last_message = last_message_for_conversation (ct_contact_id contact) s,
      cs_pending_count = pending_peer_message_count (ct_contact_id contact) s,
      cs_last_seen_at =
        map_option kp_last_seen_at (known_peer_for_conversation (ct_contact_id contact) s)\<rparr>"

definition chat_summaries :: "db \<Rightarrow> chat_summary list" where
  "chat_summaries s = map (chat_summary_of s) (contacts s)"

definition chat_summary_count :: "db \<Rightarrow> nat" where
  "chat_summary_count s = count_where (\<lambda>r. True) (contacts_tbl s)"

text \<open>A row of the join in \<^verbatim>\<open>chat_summaries_page\<close>: contact, known peer, last message, pending count.\<close>

type_synonym summary_row = "contact_row \<times> known_peer_row option \<times> message_row option \<times> nat"

definition summary_join :: "db \<Rightarrow> summary_row list" where
  "summary_join s = concat (map (\<lambda>c. concat (map (\<lambda>kp.
      map (\<lambda>m. (c, kp, m, count_where (\<lambda>r. pw_conversation_id r = cw_contact_id c)
             (pending_peer_messages s)))
        (left_join (\<lambda>m. Some (mw_message_id m) =
             map_option mw_message_id (last_message_row (cw_contact_id c) s)) (messages s)))
      (left_join (\<lambda>kp. kw_conversation_id kp = cw_contact_id c) (known_peers s))))
    (contacts_tbl s))"

definition summary_order :: "summary_row \<Rightarrow> int \<times> string \<times> string" where
  "summary_order x =
     (let (c, kp, m, n) = x
      in (- (case m of None \<Rightarrow> cw_saved_at c | Some r \<Rightarrow> mw_created_at r),
          nocase (cw_display_name c), cw_contact_id c))"

definition chat_summary_from_row :: "summary_row \<Rightarrow> chat_summary" where
  "chat_summary_from_row x =
     (let (c, kp, m, n) = x
      in \<lparr>cs_contact = contact_from_row c, cs_last_message = map_option message_from_row m,
          cs_pending_count = n,
          cs_last_seen_at = map_option (\<lambda>k. as_u64 (kw_last_seen_at k)) kp\<rparr>)"

definition chat_summaries_page :: "u64 \<Rightarrow> u64 \<Rightarrow> db \<Rightarrow> chat_summary list" where
  "chat_summaries_page limit offset s = map chat_summary_from_row
     (limit_offset (as_i64 limit) (as_i64 offset)
       (select_order_by summary_order (\<lambda>x. True) (summary_join s)))"

definition recent_chat_summaries :: "u64 \<Rightarrow> db \<Rightarrow> chat_summary list" where
  "recent_chat_summaries limit s = chat_summaries_page limit 0 s"

section \<open>Merging, clearing and deleting conversations\<close>

definition merge_statements :: "string \<Rightarrow> string \<Rightarrow> (db \<Rightarrow> db) list" where
  "merge_statements old new =
     [\<lambda>s. s\<lparr>messages := update_where (\<lambda>r. mw_conversation_id r = old)
        (\<lambda>r. r\<lparr>mw_conversation_id := new\<rparr>) (messages s)\<rparr>,
      \<lambda>s. s\<lparr>pending_peer_messages := update_where (\<lambda>r. pw_conversation_id r = old)
        (\<lambda>r. r\<lparr>pw_conversation_id := new\<rparr>) (pending_peer_messages s)\<rparr>,
      \<lambda>s. s\<lparr>event_history := update_where (\<lambda>r. ew_conversation_id r = old)
        (\<lambda>r. r\<lparr>ew_conversation_id := new\<rparr>) (event_history s)\<rparr>,
      \<lambda>s. if 0 < count_where (\<lambda>r. se_conversation_id r = new) (sessions s)
          then s\<lparr>sessions := delete_where (\<lambda>r. se_conversation_id r = old) (sessions s)\<rparr>
          else s\<lparr>sessions := update_where (\<lambda>r. se_conversation_id r = old)
                 (\<lambda>r. r\<lparr>se_conversation_id := new\<rparr>) (sessions s)\<rparr>,
      \<lambda>s. s\<lparr>version_vectors := fold (\<lambda>r t. fst (insert_or_ignore vv_key (r\<lparr>vv_conversation_id := new\<rparr>) t))
        (filter (\<lambda>r. vv_conversation_id r = old) (version_vectors s)) (version_vectors s)\<rparr>,
      \<lambda>s. s\<lparr>version_vectors := delete_where (\<lambda>r. vv_conversation_id r = old) (version_vectors s)\<rparr>,
      \<lambda>s. s\<lparr>known_peers := delete_where (\<lambda>r. kw_conversation_id r = old) (known_peers s)\<rparr>,
      \<lambda>s. s\<lparr>contacts_tbl := delete_where (\<lambda>r. cw_contact_id r = old) (contacts_tbl s)\<rparr>]"

definition merge_contact_into ::
    "(nat \<Rightarrow> bool) \<Rightarrow> string \<Rightarrow> string \<Rightarrow> db \<Rightarrow> db \<times> (storage_error + unit)" where
  "merge_contact_into fails old new s =
     (if old = new then (s, Inr ()) else autocommit fails 0 (merge_statements old new) s)"

definition clear_statements :: "string \<Rightarrow> (db \<Rightarrow> db) list" where
  "clear_statements c =
     [\<lambda>s. s\<lparr>messages := delete_where (\<lambda>r. mw_conversation_id r = c) (messages s)\<rparr>,
      \<lambda>s. s\<lparr>new_messages := delete_where (\<lambda>r. nm_conversation_id r = c) (new_messages s)\<rparr>]"

definition clear_conversation_history ::
    "(nat \<Rightarrow> bool) \<Rightarrow> string \<Rightarrow> db \<Rightarrow> db \<times> (storage_error + nat)" where
  "clear_conversation_history fails c s =
     (let removed = count_where (\<lambda>r. mw_conversation_id r = c) (messages s);
          (s', res) = autocommit fails 0 (clear_statements c) s
      in (s', and_then res (\<lambda>_. Inr removed)))"

definition delete_statements :: "string \<Rightarrow> (db \<Rightarrow> db) list" where
  "delete_statements c = clear_statements c @
     [\<lambda>s. s\<lparr>pending_peer_messages := delete_where (\<lambda>r. pw_conversation_id r = c) (pending_peer_messages s)\<rparr>,
      \<lambda>s. s\<lparr>event_history := delete_where (\<lambda>r. ew_conversation_id r = c) (event_history s)\<rparr>,
      \<lambda>s. s\<lparr>version_vectors := delete_where (\<lambda>r. vv_conversation_id r = c) (version_vectors s)\<rparr>,
      \<lambda>s. s\<lparr>sessions := delete_where (\<lambda>r. se_conversation_id r = c) (sessions s)\<rparr>,
      \<lambda>s. s\<lparr>known_peers := delete_where (\<lambda>r. kw_conversation_id r = c) (known_peers s)\<rparr>,
      \<lambda>s. s\<lparr>contacts_tbl := delete_where (\<lambda>r. cw_contact_id r = c) (contacts_tbl s)\<rparr>]"

definition rows_of_conversation :: "string \<Rightarrow> db \<Rightarrow> nat" where
  "rows_of_conversation c s =
     count_where (\<lambda>r. mw_conversation_id r = c) (messages s)
     + count_where (\<lambda>r. nm_conversation_id r = c) (new_messages s)
     + count_where (\<lambda>r. pw_conversation_id r = c) (pending_peer_messages s)
     + count_where (\<lambda>r. ew_conversation_id r = c) (event_history s)
     + count_where (\<lambda>r. vv_conversation_id r = c) (version_vectors s)
     + count_where (\<lambda>r. se_conversation_id r = c) (sessions s)
     + count_where (\<lambda>r. kw_conversation_id r = c) (known_peers s)
     + count_where (\<lambda>r. cw_contact_id r = c) (contacts_tbl s)"

definition delete_conversation ::
    "(nat \<Rightarrow> bool) \<Rightarrow> string \<Rightarrow> db \<Rightarrow> db \<times> (storage_error + nat)" where
  "delete_conversation fails c s =
     (let removed = rows_of_conversation c s;
          (s', res) = autocommit fails 0 (delete_statements c) s
      in (s', and_then res (\<lambda>_. Inr removed)))"

end
