(* ===== verification/StorageInv.thy ===== *)
theory StorageInv
  imports Storage
begin

text \<open>
  The invariants of the client database: the declared primary keys and the UNIQUE constraint,
  the encodings of the stored events, and the soundness of the version vectors.  \<open>storage_step\<close>
  has one rule per mutating method of \<^verbatim>\<open>Storage\<close>; every state reachable from \<open>init_db\<close>
  satisfies the key and encoding invariants whatever statements fail on the way, and the
  soundness of the vectors as long as merging and deleting a conversation are not cut short.
\<close>

section \<open>Invariants\<close>

definition keys_ok :: "db \<Rightarrow> bool" where
  "keys_ok s \<longleftrightarrow>
     pk_ok li_id (local_identity s) \<and> pk_ok ls_key (local_settings s)
     \<and> pk_ok se_conversation_id (sessions s) \<and> pk_ok dp_key (device_pair_sessions s)
     \<and> pk_ok mw_message_id (messages s) \<and> pk_ok ow_message_id (outbox s)
     \<and> pk_ok am_message_id (accepted_messages s) \<and> pk_ok nm_message_id (new_messages s)
     \<and> pk_ok dc_device_id (device_counters s) \<and> pk_ok ew_key (event_history s)
     \<and> pk_ok vv_key (version_vectors s) \<and> pk_ok ai_account_id (account_identities s)
     \<and> pk_ok di_device_id (device_identities s) \<and> pk_ok dcf_key (device_certificates s)
     \<and> pk_ok drv_key (device_revocations s) \<and> pk_ok cw_contact_id (contacts_tbl s)
     \<and> pk_ok kw_peer_id (known_peers s) \<and> pk_ok kw_conversation_id (known_peers s)
     \<and> pk_ok pw_message_id (pending_peer_messages s) \<and> pk_ok iw_code_hash (invite_records s)"

text \<open>Every stored event row is the encoding of an event.\<close>

definition events_encoded :: "db \<Rightarrow> bool" where
  "events_encoded s \<longleftrightarrow> (\<forall>r \<in> set (event_history s). event_to_row (event_from_row r) = r)"

text \<open>
  A stored contiguous counter \<open>c\<close> promises that the events \<open>1, ..., c\<close> of that device are in
  the conversation's history.
\<close>

definition has_event :: "db \<Rightarrow> string \<Rightarrow> string \<Rightarrow> u64 \<Rightarrow> bool" where
  "has_event s c d k \<longleftrightarrow> (\<exists>r \<in> set (event_history s).
     ew_conversation_id r = c \<and> ew_device_id r = d \<and> ew_counter r = as_i64 k)"

definition vectors_sound :: "db \<Rightarrow> bool" where
  "vectors_sound s \<longleftrightarrow> (\<forall>v \<in> set (version_vectors s). \<forall>k.
     1 \<le> k \<longrightarrow> k \<le> as_u64 (vv_contiguous_counter v) \<longrightarrow>
       has_event s (vv_conversation_id v) (vv_device_id v) k)"

definition db_ok :: "db \<Rightarrow> bool" where
  "db_ok s \<longleftrightarrow> keys_ok s \<and> events_encoded s \<and> vectors_sound s"

section \<open>The mutating methods as steps\<close>

inductive storage_step :: "bool \<Rightarrow> db \<Rightarrow> db \<Rightarrow> bool" where
  step_save_local_identity: "storage_step strict s (save_local_identity lid role st now s)"
| step_save_display_name: "storage_step strict s (save_display_name nm now s)"
| step_save_session: "storage_step strict s (save_session c p role st now s)"
| step_save_device_pair_session: "storage_step strict s (save_device_pair_session l r st now s)"
| step_save_contact: "storage_step strict s (save_contact ct s)"
| step_save_known_peer: "save_known_peer kp s = Inr s' \<Longrightarrow> storage_step strict s s'"
| step_queue_pending: "storage_step strict s (queue_pending_peer_message m s)"
| step_pending_attempt: "storage_step strict s (record_pending_peer_message_attempt mid now s)"
| step_remove_pending: "storage_step strict s (remove_pending_peer_message mid s)"
| step_save_invite: "storage_step strict s (save_invite_record iv s)"
| step_consume_invite: "storage_step strict s (fst (consume_invite_record h now s))"
| step_insert_message: "storage_step strict s (insert_message m s)"
| step_update_message_status: "storage_step strict s (update_message_status mid status s)"
| step_save_state_session_and_insert_message:
    "storage_step strict s (fst (save_state_session_and_insert_message fl lid lr ls c p sr ss m now s))"
| step_save_state_session_message_and_outbox:
    "storage_step strict s (fst (save_state_session_message_and_outbox fl lid lr ls c p sr ss m i now s))"
| step_save_device_pair_session_and_outbox:
    "storage_step strict s (fst (save_device_pair_session_and_outbox fl l r ss i now s))"
| step_record_outbox_attempt: "storage_step strict s (record_outbox_attempt mid now s)"
| step_mark_outbox_delivered: "storage_step strict s (mark_outbox_delivered mid now s)"
| step_accept_message_once: "storage_step strict s (fst (accept_message_once mid now s))"
| step_mark_message_new: "storage_step strict s (mark_message_new c mid now s)"
| step_mark_new_messages_read: "storage_step strict s (fst (mark_new_messages_read c s))"
| step_save_account_identity: "storage_step strict s (save_account_identity a pub sec now s)"
| step_save_device_identity: "storage_step strict s (save_device_identity d a ep es xp xs now s)"
| step_save_device_certificate: "storage_step strict s (save_device_certificate a d cert now s)"
| step_save_device_revocation: "storage_step strict s (save_device_revocation a d n rv now s)"
| step_next_local_event_counter: "storage_step strict s (fst (next_local_event_counter fl d s))"
| step_append_event: "storage_step strict s (fst (append_event fl e s))"
| step_append_events: "storage_step strict s (fst (append_events fls es s))"
| step_merge_contact_into:
    "merge_contact_into fl old new s = (s', res) \<Longrightarrow> (strict \<Longrightarrow> res = Inr ()) \<Longrightarrow> storage_step strict s s'"
| step_clear_conversation_history: "storage_step strict s (fst (clear_conversation_history fl c s))"
| step_delete_conversation:
    "delete_conversation fl c s = (s', res) \<Longrightarrow> (strict \<Longrightarrow> res \<noteq> Inl IoFailure) \<Longrightarrow> storage_step strict s s'"

text \<open>
  With \<open>strict\<close>, the two methods that move or delete events with several separate statements are
  taken not to be cut short by an I/O error.
\<close>

inductive storage_reachable :: "bool \<Rightarrow> db \<Rightarrow> bool" where
  reach_init: "storage_reachable strict init_db"
| reach_step: "storage_reachable strict s \<Longrightarrow> storage_step strict s t \<Longrightarrow> storage_reachable strict t"

section \<open>Transactions and sequences of statements\<close>

lemma run_statements_inv:
  assumes "\<And>st u. st \<in> set sts \<Longrightarrow> P u \<Longrightarrow> P (st u)" and "P s" and "run_statements fails n sts s = Some s'"
  shows "P s'"
  using assms
proof (induction sts arbitrary: n s)
  case (Cons st sts)
  from Cons.prems(3) have "run_statements fails (Suc n) sts (st s) = Some s'" by (simp split: if_splits)
  moreover have "P (st s)" using Cons.prems by simp
  moreover have "\<And>st u. st \<in> set sts \<Longrightarrow> P u \<Longrightarrow> P (st u)" using Cons.prems(1) by simp
  ultimately show ?case using Cons.IH by blast
qed simp

lemma transaction_inv:
  assumes "\<And>st u. st \<in> set sts \<Longrightarrow> P u \<Longrightarrow> P (st u)" and "P s"
  shows "P (fst (transaction fails sts s))"
  using assms run_statements_inv [of sts P s fails 0]
  by (auto simp: transaction_def split: option.splits)

lemma autocommit_inv:
  assumes "\<And>st u. st \<in> set sts \<Longrightarrow> P u \<Longrightarrow> P (st u)" and "P s"
  shows "P (fst (autocommit fails n sts s))"
  using assms
proof (induction sts arbitrary: n s)
  case (Cons st sts)
  show ?case
  proof (cases "fails n")
    case False
    have "P (st s)" using Cons.prems by simp
    moreover have "\<And>st u. st \<in> set sts \<Longrightarrow> P u \<Longrightarrow> P (st u)" using Cons.prems(1) by simp
    ultimately show ?thesis using False Cons.IH by simp
  qed (use Cons.prems in simp)
qed simp

text \<open>All the statements ran, or the database is what it was.\<close>

lemma run_statements_Some: "run_statements fails n sts s = Some s' \<Longrightarrow> s' = fold (\<lambda>st u. st u) sts s"
  by (induction sts arbitrary: n s) (auto split: if_splits)

lemma run_statements_ok: "(\<And>i. \<not> fails i) \<Longrightarrow> run_statements fails n sts s = Some (fold (\<lambda>st u. st u) sts s)"
  by (induction sts arbitrary: n s) auto

lemma transaction_cases:
  "transaction fails sts s = (s, Inl IoFailure)
   \<or> transaction fails sts s = (fold (\<lambda>st u. st u) sts s, Inr ())"
  by (auto simp: transaction_def split: option.splits dest: run_statements_Some)

lemma autocommit_ok: "(\<And>i. \<not> fails i) \<Longrightarrow> autocommit fails n sts s = (fold (\<lambda>st u. st u) sts s, Inr ())"
  by (induction sts arbitrary: n s) auto

section \<open>Every step keeps the keys\<close>

lemmas storage_defs = save_local_identity_def save_display_name_def save_session_def
  save_device_pair_session_def save_contact_def queue_pending_peer_message_def
  record_pending_peer_message_attempt_def remove_pending_peer_message_def save_invite_record_def
  insert_message_def update_message_status_def record_outbox_attempt_def mark_outbox_delivered_def
  mark_message_new_def mark_new_messages_read_def save_account_identity_def save_device_identity_def
  save_device_certificate_def save_device_revocation_def stmt_upsert_local_identity_def
  stmt_upsert_session_def stmt_upsert_device_pair_session_def stmt_insert_message_def
  stmt_upsert_outbox_def stmt_upsert_device_counter_def stmt_insert_event_def
  refresh_vector_for_device_def

lemma fold_insert_or_ignore_pk:
  "pk_ok key t \<Longrightarrow> pk_ok key (fold (\<lambda>r t. fst (insert_or_ignore key (f r) t)) rs t)"
  by (induction rs arbitrary: t) auto

lemma keys_ok_stmts:
  assumes "keys_ok s"
  shows "keys_ok (stmt_upsert_local_identity lid role st i s)"
    "keys_ok (stmt_upsert_session c p role st i s)"
    "keys_ok (stmt_upsert_device_pair_session l r st i s)"
    "keys_ok (stmt_insert_message m s)"
    "keys_ok (stmt_upsert_outbox it s)"
    "keys_ok (stmt_upsert_device_counter d i s)"
    "keys_ok (stmt_insert_event e s)"
    "keys_ok (refresh_vector_for_device c d s)"
  using assms by (simp_all add: keys_ok_def storage_defs Let_def pk_ok_upsert)

lemma pk_ok_rename:
  assumes "pk_ok key t" and "\<not> has_key key new t" and "\<And>r. key (f r) = new"
  shows "pk_ok key (update_where (\<lambda>r. key r = old) f t)"
proof -
  have "map key (update_where (\<lambda>r. key r = old) f t) = map (\<lambda>k. if k = old then new else k) (map key t)"
    by (simp add: update_where_def assms(3))
  moreover have "inj_on (\<lambda>k. if k = old then new else k) (set (map key t))"
    using assms(2) by (auto simp: inj_on_def has_key_def split: if_splits)
  ultimately show ?thesis using assms(1) unfolding pk_ok_def by (metis distinct_map)
qed

lemma merge_statements_cases:
  assumes "st \<in> set (merge_statements old new)"
  obtains (msgs) "st = (\<lambda>s. s\<lparr>messages := update_where (\<lambda>r. mw_conversation_id r = old)
        (\<lambda>r. r\<lparr>mw_conversation_id := new\<rparr>) (messages s)\<rparr>)"
  | (pend) "st = (\<lambda>s. s\<lparr>pending_peer_messages := update_where (\<lambda>r. pw_conversation_id r = old)
        (\<lambda>r. r\<lparr>pw_conversation_id := new\<rparr>) (pending_peer_messages s)\<rparr>)"
  | (evs) "st = (\<lambda>s. s\<lparr>event_history := update_where (\<lambda>r. ew_conversation_id r = old)
        (\<lambda>r. r\<lparr>ew_conversation_id := new\<rparr>) (event_history s)\<rparr>)"
  | (sess) "st = (\<lambda>s. if 0 < count_where (\<lambda>r. se_conversation_id r = new) (sessions s)
          then s\<lparr>sessions := delete_where (\<lambda>r. se_conversation_id r = old) (sessions s)\<rparr>
          else s\<lparr>sessions := update_where (\<lambda>r. se_conversation_id r = old)
                 (\<lambda>r. r\<lparr>se_conversation_id := new\<rparr>) (sessions s)\<rparr>)"
  | (copy) "st = (\<lambda>s. s\<lparr>version_vectors := fold (\<lambda>r t. fst (insert_or_ignore vv_key (r\<lparr>vv_conversation_id := new\<rparr>) t))
        (filter (\<lambda>r. vv_conversation_id r = old) (version_vectors s)) (version_vectors s)\<rparr>)"
  | (drop) "st = (\<lambda>s. s\<lparr>version_vectors := delete_where (\<lambda>r. vv_conversation_id r = old) (version_vectors s)\<rparr>)"
  | (peers) "st = (\<lambda>s. s\<lparr>known_peers := delete_where (\<lambda>r. kw_conversation_id r = old) (known_peers s)\<rparr>)"
  | (cont) "st = (\<lambda>s. s\<lparr>contacts_tbl := delete_where (\<lambda>r. cw_contact_id r = old) (contacts_tbl s)\<rparr>)"
  using assms unfolding merge_statements_def list.set insert_iff empty_iff by (elim disjE) (simp_all add: that)

lemma keys_ok_merge_stmt:
  assumes "st \<in> set (merge_statements old new)" and "keys_ok s"
  shows "keys_ok (st s)"
  using assms(1)
proof (cases rule: merge_statements_cases)
  case sess
  then show ?thesis using assms(2) pk_ok_rename [of se_conversation_id "sessions s" new _ old]
    by (simp add: keys_ok_def count_where_has_key)
next
  case evs
  then show ?thesis using assms(2) by (simp add: keys_ok_def pk_ok_update_where ew_key_def)
qed (use assms(2) in \<open>simp_all add: keys_ok_def pk_ok_update_where fold_insert_or_ignore_pk\<close>)

lemma keys_ok_delete_stmt: "st \<in> set (delete_statements c) \<Longrightarrow> keys_ok s \<Longrightarrow> keys_ok (st s)"
  by (auto simp: delete_statements_def clear_statements_def keys_ok_def)

lemma fst_append_event: "fst (append_event fl e s) = fst (autocommit fl 0
    [stmt_insert_event e, refresh_vector_for_device (ev_conversation_id e) (ev_device_id e)] s)"
  by (simp only: append_event_def Let_def case_prod_unfold fst_conv)

lemma keys_ok_append_event: "keys_ok s \<Longrightarrow> keys_ok (fst (append_event fl e s))"
  unfolding fst_append_event by (rule autocommit_inv [where P = keys_ok]) (auto intro: keys_ok_stmts)

lemma append_events_inv:
  assumes "\<And>fl e u. P u \<Longrightarrow> P (fst (append_event fl e u))" and "P s"
  shows "P (fst (append_events_from fls i n es s))"
  using assms(2)
proof (induction es arbitrary: i n s)
  case (Cons e es)
  then show ?case using assms(1) [of s "fls i" e]
    by (auto split: prod.splits sum.splits)
qed simp

text \<open>An upsert on one key keeps another UNIQUE column, if no other row has the new value.\<close>

lemma pk_ok_upsert_other:
  assumes "pk_ok key t" "pk_ok key2 t" "\<And>r. r \<in> set t \<Longrightarrow> key r \<noteq> key row \<Longrightarrow> key2 r \<noteq> key2 row"
  shows "pk_ok key2 (upsert key (\<lambda>old new. new) row t)"
proof (cases "has_key key (key row) t")
  case True
  have "distinct (map key2 (map (\<lambda>old. if key old = key row then row else old) t))"
    using assms
  proof (induction t)
    case (Cons x t)
    then show ?case
      by (cases "key x = key row") (force simp: pk_ok_def image_iff)+
  qed simp
  with True show ?thesis by (simp add: pk_ok_def upsert_def)
next
  case False
  then show ?thesis using assms by (force simp: pk_ok_def upsert_def has_key_def)
qed

lemma keys_ok_known_peer:
  assumes "keys_ok s" "save_known_peer kp s = Inr s'"
  shows "keys_ok s'"
proof -
  define row where "row = \<lparr>kw_peer_id = kp_peer_id kp, kw_identity_public_key = kp_identity_public_key kp,
     kw_display_name = kp_display_name kp, kw_conversation_id = kp_conversation_id kp,
     kw_last_seen_at = as_i64 (kp_last_seen_at kp)\<rparr>"
  let ?t = "known_peers s"
  have s': "s' = s\<lparr>known_peers := upsert kw_peer_id (\<lambda>old new. new) row ?t\<rparr>"
    and free: "\<And>r. r \<in> set ?t \<Longrightarrow> kw_peer_id r \<noteq> kw_peer_id row \<Longrightarrow> kw_conversation_id r \<noteq> kw_conversation_id row"
    using assms(2) by (auto simp: save_known_peer_def row_def split: if_splits)
  have "pk_ok kw_peer_id (upsert kw_peer_id (\<lambda>old new. new) row ?t)"
    using assms(1) by (auto simp: keys_ok_def)
  moreover have "pk_ok kw_conversation_id (upsert kw_peer_id (\<lambda>old new. new) row ?t)"
    using assms(1) by (intro pk_ok_upsert_other free) (simp_all add: keys_ok_def)
  ultimately show ?thesis using assms(1) by (simp add: keys_ok_def s')
qed

lemma keys_ok_consume_invite: "keys_ok s \<Longrightarrow> keys_ok (fst (consume_invite_record h now s))"
  by (simp add: consume_invite_record_def Let_def keys_ok_def pk_ok_update_where)

lemma drv_key_merge_revocation [simp]: "drv_key (merge_revocation old new) = drv_key old"
  by (simp add: drv_key_def merge_revocation_def)

lemma keys_ok_simple:
  assumes "keys_ok s"
  shows "keys_ok (save_local_identity lid role st now s)" "keys_ok (save_display_name nm now s)"
    "keys_ok (save_session c p role st now s)" "keys_ok (save_device_pair_session l r st now s)"
    "keys_ok (save_contact ct s)" "keys_ok (queue_pending_peer_message m s)"
    "keys_ok (record_pending_peer_message_attempt mid now s)" "keys_ok (remove_pending_peer_message mid s)"
    "keys_ok (save_invite_record iv s)" "keys_ok (insert_message mm s)"
    "keys_ok (update_message_status mid status s)" "keys_ok (record_outbox_attempt mid now s)"
    "keys_ok (mark_outbox_delivered mid now s)" "keys_ok (mark_message_new c mid now s)"
    "keys_ok (fst (mark_new_messages_read c s))" "keys_ok (fst (accept_message_once mid now s))"
    "keys_ok (save_account_identity a pub sec now s)"
    "keys_ok (save_device_identity d a ep es xp xs now s)"
    "keys_ok (save_device_certificate a d cert now s)"
    "keys_ok (save_device_revocation a d n rv now s)"
  using assms
  by (simp_all add: keys_ok_def storage_defs accept_message_once_def case_prod_unfold Let_def
      pk_ok_upsert pk_ok_update_where)

lemma keys_ok_next_counter: "keys_ok s \<Longrightarrow> keys_ok (fst (next_local_event_counter fl d s))"
  unfolding next_local_event_counter_def Let_def case_prod_unfold fst_conv
  by (rule transaction_inv [where P = keys_ok]) (auto intro: keys_ok_stmts)

lemma keys_ok_transactions:
  assumes "keys_ok s"
  shows "keys_ok (fst (save_state_session_and_insert_message fl lid lr ls c p sr ss m now s))"
    "keys_ok (fst (save_state_session_message_and_outbox fl lid lr ls c p sr ss m i now s))"
    "keys_ok (fst (save_device_pair_session_and_outbox fl l r ss i now s))"
  unfolding save_state_session_and_insert_message_def save_state_session_message_and_outbox_def
    save_device_pair_session_and_outbox_def
  by (rule transaction_inv [where P = keys_ok]; use assms in \<open>auto intro: keys_ok_stmts\<close>)+

lemma fst_merge_contact_into: "fst (merge_contact_into fl old new s) =
    (if old = new then s else fst (autocommit fl 0 (merge_statements old new) s))"
  by (simp add: merge_contact_into_def)

lemma fst_clear_conversation_history:
  "fst (clear_conversation_history fl c s) = fst (autocommit fl 0 (clear_statements c) s)"
  by (simp only: clear_conversation_history_def Let_def case_prod_unfold fst_conv)

lemma fst_delete_conversation:
  "fst (delete_conversation fl c s) = fst (autocommit fl 0 (delete_statements c) s)"
  by (simp only: delete_conversation_def Let_def case_prod_unfold fst_conv)

lemma keys_ok_merge: "keys_ok s \<Longrightarrow> keys_ok (fst (merge_contact_into fl old new s))"
  unfolding fst_merge_contact_into
  by (simp, intro impI, rule autocommit_inv [where P = keys_ok]) (auto intro: keys_ok_merge_stmt)

lemma keys_ok_clear: "keys_ok s \<Longrightarrow> keys_ok (fst (clear_conversation_history fl c s))"
  unfolding fst_clear_conversation_history
  by (rule autocommit_inv [where P = keys_ok]) (auto intro: keys_ok_delete_stmt simp: delete_statements_def)

lemma keys_ok_delete: "keys_ok s \<Longrightarrow> keys_ok (fst (delete_conversation fl c s))"
  unfolding fst_delete_conversation
  by (rule autocommit_inv [where P = keys_ok]) (auto intro: keys_ok_delete_stmt)

lemmas keys_ok_steps = keys_ok_simple keys_ok_consume_invite keys_ok_transactions
  keys_ok_next_counter keys_ok_append_event keys_ok_clear

lemma keys_ok_step: "storage_step strict s t \<Longrightarrow> keys_ok s \<Longrightarrow> keys_ok t"
proof (induction rule: storage_step.induct)
  case (step_merge_contact_into fl old new s s' res)
  then show ?case using keys_ok_merge [of s fl old new] by simp
next
  case (step_delete_conversation fl c s s' res)
  then show ?case using keys_ok_delete [of s fl c] by simp
next
  case (step_append_events strict s fls es)
  then show ?case unfolding append_events_def
    using append_events_inv [of keys_ok, OF keys_ok_append_event] by simp
next
  case (step_save_known_peer kp s s' strict)
  then show ?case using keys_ok_known_peer by blast
qed (simp_all add: keys_ok_steps)

section \<open>Steps that touch the event log\<close>

lemma autocommit_Inr: "autocommit fails n sts s = (s', Inr ()) \<Longrightarrow> s' = fold (\<lambda>st u. st u) sts s"
  by (induction sts arbitrary: n s) (auto split: if_splits)

lemma snd_autocommit: "snd (autocommit fails n sts s) = Inl IoFailure \<or> snd (autocommit fails n sts s) = Inr ()"
  by (induction sts arbitrary: n s) auto

text \<open>Every other method leaves the event log and the version vectors as they are.\<close>

definition same_events :: "db \<Rightarrow> db \<Rightarrow> bool" where
  "same_events s t \<longleftrightarrow> event_history t = event_history s \<and> version_vectors t = version_vectors s"

lemma same_events_stmts [simp]:
  "same_events s s"
  "same_events s (stmt_upsert_local_identity lid role st i u) = same_events s u"
  "same_events s (stmt_upsert_session c p role st i u) = same_events s u"
  "same_events s (stmt_upsert_device_pair_session l r st i u) = same_events s u"
  "same_events s (stmt_insert_message m u) = same_events s u"
  "same_events s (stmt_upsert_outbox it u) = same_events s u"
  "same_events s (stmt_upsert_device_counter d i u) = same_events s u"
  "stm \<in> set (clear_statements c) \<Longrightarrow> same_events s u \<Longrightarrow> same_events s (stm u)"
  by (auto simp: same_events_def storage_defs clear_statements_def)

lemma same_events_simple:
  "same_events s (save_local_identity lid role st now s)" "same_events s (save_display_name nm now s)"
  "same_events s (save_session c p role st now s)" "same_events s (save_device_pair_session l r st now s)"
  "same_events s (save_contact ct s)" "same_events s (queue_pending_peer_message m s)"
  "same_events s (record_pending_peer_message_attempt mid now s)"
  "same_events s (remove_pending_peer_message mid s)"
  "same_events s (save_invite_record iv s)" "same_events s (insert_message mm s)"
  "same_events s (update_message_status mid status s)" "same_events s (record_outbox_attempt mid now s)"
  "same_events s (mark_outbox_delivered mid now s)" "same_events s (mark_message_new c mid now s)"
  "same_events s (fst (mark_new_messages_read c s))" "same_events s (fst (accept_message_once mid now s))"
  "same_events s (save_account_identity a pub sec now s)"
  "same_events s (save_device_identity d a ep es xp xs now s)"
  "same_events s (save_device_certificate a d cert now s)"
  "same_events s (save_device_revocation a d n rv now s)"
  "same_events s (fst (consume_invite_record h now s))"
  by (simp_all add: same_events_def storage_defs accept_message_once_def case_prod_unfold
      consume_invite_record_def Let_def)

lemma same_events_known_peer: "save_known_peer kp s = Inr s' \<Longrightarrow> same_events s s'"
  by (auto simp: same_events_def save_known_peer_def split: if_splits)

lemma same_events_transactions:
  "same_events s (fst (save_state_session_and_insert_message fl lid lr ls c p sr ss m now s))"
  "same_events s (fst (save_state_session_message_and_outbox fl lid lr ls c p sr ss m i now s))"
  "same_events s (fst (save_device_pair_session_and_outbox fl l r ss i now s))"
  unfolding save_state_session_and_insert_message_def save_state_session_message_and_outbox_def
    save_device_pair_session_and_outbox_def
  by (rule transaction_inv [where P = "same_events s"]; auto)+

lemma same_events_next_counter: "same_events s (fst (next_local_event_counter fl d s))"
  unfolding next_local_event_counter_def Let_def case_prod_unfold fst_conv
  by (rule transaction_inv [where P = "same_events s"]) auto

lemma same_events_clear: "same_events s (fst (clear_conversation_history fl c s))"
  unfolding fst_clear_conversation_history
  by (rule autocommit_inv [where P = "same_events s"]) auto

lemmas same_events_steps = same_events_simple same_events_transactions same_events_next_counter
  same_events_clear

lemma storage_step_events_cases:
  assumes "storage_step strict s t"
  obtains (same) "same_events s t"
  | (append) fl e where "t = fst (append_event fl e s)"
  | (appends) fls es where "t = fst (append_events fls es s)"
  | (merge) fl old new res where "merge_contact_into fl old new s = (t, res)" "strict \<Longrightarrow> res = Inr ()"
  | (delete) fl c res where "delete_conversation fl c s = (t, res)" "strict \<Longrightarrow> res \<noteq> Inl IoFailure"
  using assms
proof (cases rule: storage_step.cases)
  case (step_save_known_peer kp)
  then show ?thesis using same same_events_known_peer by simp
next
  case (step_merge_contact_into fl old new res)
  then show ?thesis using merge by blast
next
  case (step_delete_conversation fl c res)
  then show ?thesis using delete by blast
qed (use same append appends in \<open>simp_all add: same_events_steps\<close>)

section \<open>Every step keeps the encoding of the events\<close>

lemma event_row_round_trip [simp]: "event_from_row (event_to_row e) = e"
  by (simp add: event_from_row_def event_to_row_def)

lemma events_encoded_insert [simp]: "events_encoded s \<Longrightarrow> events_encoded (stmt_insert_event e s)"
  by (auto simp: events_encoded_def stmt_insert_event_def sql_simps)

lemma events_encoded_refresh [simp]: "events_encoded (refresh_vector_for_device c d s) = events_encoded s"
  by (simp add: events_encoded_def refresh_vector_for_device_def Let_def)

lemma event_to_row_rename:
  "event_to_row (event_from_row r) = r \<Longrightarrow>
   event_to_row (event_from_row (r\<lparr>ew_conversation_id := c\<rparr>)) = r\<lparr>ew_conversation_id := c\<rparr>"
  by (cases r) (simp add: event_to_row_def event_from_row_def)

lemma events_encoded_merge_stmt:
  assumes "st \<in> set (merge_statements old new)" and "events_encoded s"
  shows "events_encoded (st s)"
  using assms(1)
  by (cases rule: merge_statements_cases)
     (use assms(2) in \<open>auto simp: events_encoded_def sql_simps event_to_row_rename\<close>)

lemma events_encoded_delete_stmt:
  "st \<in> set (delete_statements c) \<Longrightarrow> events_encoded s \<Longrightarrow> events_encoded (st s)"
  by (auto simp: delete_statements_def clear_statements_def events_encoded_def)

lemma events_encoded_append_event: "events_encoded s \<Longrightarrow> events_encoded (fst (append_event fl e s))"
  unfolding fst_append_event by (rule autocommit_inv [where P = events_encoded]) auto

lemma events_encoded_step:
  assumes "storage_step strict s t" and "events_encoded s"
  shows "events_encoded t"
  using assms(1)
proof (cases rule: storage_step_events_cases)
  case same
  then show ?thesis using assms(2) by (simp add: same_events_def events_encoded_def)
next
  case (append fl e)
  then show ?thesis using assms(2) by (simp add: events_encoded_append_event)
next
  case (appends fls es)
  then show ?thesis unfolding append_events_def
    using append_events_inv [of events_encoded, OF events_encoded_append_event assms(2)] by simp
next
  case (merge fl old new res)
  have "events_encoded (fst (autocommit fl 0 (merge_statements old new) s))"
    by (rule autocommit_inv [where P = events_encoded]) (simp_all add: assms(2) events_encoded_merge_stmt)
  moreover have "t = fst (merge_contact_into fl old new s)" using merge(1) by simp
  ultimately show ?thesis using assms(2) by (simp add: fst_merge_contact_into)
next
  case (delete fl c res)
  then have "t = fst (delete_conversation fl c s)" by simp
  moreover have "events_encoded (fst (autocommit fl 0 (delete_statements c) s))"
    by (rule autocommit_inv [where P = events_encoded]) (simp_all add: assms(2) events_encoded_delete_stmt)
  ultimately show ?thesis by (simp add: fst_delete_conversation)
qed

section \<open>Every uninterrupted step keeps the version vectors sound\<close>

lemma word_le_plus_one: "k \<le> c + 1 \<Longrightarrow> k \<le> c \<or> k = c + (1 :: u64)"
proof (cases "1 + c = 0")
  case False
  then have "unat (1 + c) = Suc (unat c)" by (rule unatSuc)
  moreover assume "k \<le> c + 1"
  ultimately show ?thesis by (auto simp: word_le_nat_alt add.commute word_unat_eq_iff)
qed (auto simp: add.commute)

lemma contiguous_from_sound:
  assumes "k \<le> contiguous_from c xs" and "\<forall>x \<in> set xs. as_i64 (as_u64 x) = x"
  shows "k \<le> c \<or> as_i64 k \<in> set xs"
  using assms
proof (induction c xs rule: contiguous_from.induct)
  case (2 c x xs)
  show ?case
  proof (cases "as_u64 x = c + 1")
    case True
    then have "k \<le> c + 1 \<or> as_i64 k \<in> set xs" using 2 by (simp add: Let_def)
    then show ?thesis using True 2(4) word_le_plus_one [of k c] by auto
  next
    case False
    then show ?thesis using 2 by (cases "as_u64 x > c + 1") (auto simp: Let_def)
  qed
qed simp

lemma has_event_insert: "has_event s c d k \<Longrightarrow> has_event (stmt_insert_event e s) c d k"
  by (auto simp: has_event_def stmt_insert_event_def sql_simps)

lemma vectors_sound_insert: "vectors_sound s \<Longrightarrow> vectors_sound (stmt_insert_event e s)"
proof -
  have "version_vectors (stmt_insert_event e s) = version_vectors s" by (simp add: stmt_insert_event_def)
  then show "vectors_sound s \<Longrightarrow> ?thesis" by (auto simp: vectors_sound_def intro: has_event_insert)
qed

lemma set_upsert_new: "set (upsert key (\<lambda>old new. new) r t) \<subseteq> insert r (set t)"
  by (auto simp: upsert_def)

lemma refresh_counter_sound:
  assumes "events_encoded s" "1 \<le> k" and
    "k \<le> contiguous_from 0 (map ew_counter (select_order_by ew_counter
       (\<lambda>r. ew_conversation_id r = c \<and> ew_device_id r = d) (event_history s)))"
  shows "has_event s c d k"
proof -
  have enc: "\<forall>r \<in> set (event_history s). as_i64 (as_u64 (ew_counter r)) = ew_counter r"
  proof
    fix r
    assume "r \<in> set (event_history s)"
    then have "event_to_row (event_from_row r) = r" using assms(1) by (simp add: events_encoded_def)
    then have "ew_counter (event_to_row (event_from_row r)) = ew_counter r" by simp
    then show "as_i64 (as_u64 (ew_counter r)) = ew_counter r"
      by (simp add: event_to_row_def event_from_row_def)
  qed
  have "k \<le> 0 \<or> as_i64 k \<in> ew_counter ` {r \<in> set (event_history s). ew_conversation_id r = c \<and> ew_device_id r = d}"
    using contiguous_from_sound [OF assms(3)] enc by auto
  moreover have "\<not> k \<le> 0" using assms(2) by (auto simp: word_le_nat_alt)
  ultimately show ?thesis by (auto simp: has_event_def)
qed

lemma vectors_sound_refresh:
  assumes "events_encoded s" "vectors_sound s"
  shows "vectors_sound (refresh_vector_for_device c d s)"
  unfolding vectors_sound_def
proof (intro ballI allI impI)
  fix v k
  assume v: "v \<in> set (version_vectors (refresh_vector_for_device c d s))"
    and k: "1 \<le> k" "k \<le> as_u64 (vv_contiguous_counter v)"
  let ?n = "contiguous_from 0 (map ew_counter (select_order_by ew_counter
       (\<lambda>r. ew_conversation_id r = c \<and> ew_device_id r = d) (event_history s)))"
  have ev: "has_event (refresh_vector_for_device c d s) c' d' k = has_event s c' d' k" for c' d'
    by (simp add: has_event_def refresh_vector_for_device_def Let_def)
  have "v = \<lparr>vv_conversation_id = c, vv_device_id = d, vv_contiguous_counter = as_i64 ?n\<rparr>
      \<or> v \<in> set (version_vectors s)"
    using v set_upsert_new by (fastforce simp: refresh_vector_for_device_def Let_def)
  then show "has_event (refresh_vector_for_device c d s) (vv_conversation_id v) (vv_device_id v) k"
    using k assms refresh_counter_sound [OF assms(1) k(1), of c d] unfolding ev
    by (auto simp: vectors_sound_def)
qed

lemma vectors_sound_append_event:
  "events_encoded s \<and> vectors_sound s \<Longrightarrow>
   events_encoded (fst (append_event fl e s)) \<and> vectors_sound (fst (append_event fl e s))"
  unfolding fst_append_event
  by (rule autocommit_inv [where P = "\<lambda>s. events_encoded s \<and> vectors_sound s"])
     (auto intro: vectors_sound_insert vectors_sound_refresh)

lemma set_fold_insert_or_ignore:
  "set (fold (\<lambda>r t. fst (insert_or_ignore key (f r) t)) rs t) \<subseteq> f ` set rs \<union> set t"
  by (induction rs arbitrary: t) (force simp: sql_simps split: if_splits)+

lemma vectors_sound_merge:
  assumes "vectors_sound s" "merge_contact_into fl old new s = (t, Inr ())"
  shows "vectors_sound t"
proof (cases "old = new")
  case False
  then have t: "t = fold (\<lambda>st u. st u) (merge_statements old new) s"
    using assms(2) autocommit_Inr by (simp add: merge_contact_into_def)
  have ev: "event_history t = update_where (\<lambda>r. ew_conversation_id r = old)
        (\<lambda>r. r\<lparr>ew_conversation_id := new\<rparr>) (event_history s)"
    unfolding t by (simp add: merge_statements_def)
  have vv: "version_vectors t = delete_where (\<lambda>r. vv_conversation_id r = old)
      (fold (\<lambda>r t. fst (insert_or_ignore vv_key (r\<lparr>vv_conversation_id := new\<rparr>) t))
        (filter (\<lambda>r. vv_conversation_id r = old) (version_vectors s)) (version_vectors s))"
    unfolding t by (simp add: merge_statements_def)
  have keep: "has_event s c d k \<Longrightarrow> has_event t (if c = old then new else c) d k" for c d k
  proof -
    assume "has_event s c d k"
    then obtain r where r: "r \<in> set (event_history s)" "ew_conversation_id r = c" "ew_device_id r = d"
      "ew_counter r = as_i64 k" by (auto simp: has_event_def)
    let ?r = "if ew_conversation_id r = old then r\<lparr>ew_conversation_id := new\<rparr> else r"
    have "?r \<in> set (event_history t)" unfolding ev set_update_where using r(1) by (rule imageI)
    with r show "has_event t (if c = old then new else c) d k"
      unfolding has_event_def by (intro bexI [of _ ?r]) auto
  qed
  show ?thesis unfolding vectors_sound_def
  proof (intro ballI allI impI)
    fix v k
    assume v: "v \<in> set (version_vectors t)" and k: "1 \<le> k" "k \<le> as_u64 (vv_contiguous_counter v)"
    from v have "vv_conversation_id v \<noteq> old" and
      "v \<in> (\<lambda>r. r\<lparr>vv_conversation_id := new\<rparr>) ` {r \<in> set (version_vectors s). vv_conversation_id r = old}
        \<union> set (version_vectors s)"
      using set_fold_insert_or_ignore [of vv_key "\<lambda>r. r\<lparr>vv_conversation_id := new\<rparr>"
          "filter (\<lambda>r. vv_conversation_id r = old) (version_vectors s)" "version_vectors s"]
      by (auto simp: vv)
    then obtain r where r: "r \<in> set (version_vectors s)"
      "vv_conversation_id v = (if vv_conversation_id r = old then new else vv_conversation_id r)"
      "vv_device_id v = vv_device_id r" "vv_contiguous_counter v = vv_contiguous_counter r"
      by auto
    then have "has_event s (vv_conversation_id r) (vv_device_id r) k"
      using assms(1) k by (simp add: vectors_sound_def)
    then show "has_event t (vv_conversation_id v) (vv_device_id v) k"
      using keep r(2,3) by metis
  qed
qed (use assms in \<open>simp add: merge_contact_into_def\<close>)

lemma vectors_sound_delete:
  assumes "vectors_sound s" "delete_conversation fl c s = (t, res)" "res \<noteq> Inl IoFailure"
  shows "vectors_sound t"
proof -
  let ?r = "autocommit fl 0 (delete_statements c) s"
  have tr: "t = fst ?r" "res = and_then (snd ?r) (\<lambda>_. Inr (rows_of_conversation c s))"
    using assms(2) by (simp_all add: delete_conversation_def Let_def case_prod_unfold)
  then have "snd ?r = Inr ()" using assms(3) snd_autocommit [of fl 0 "delete_statements c" s] by auto
  then have t: "t = fold (\<lambda>st u. st u) (delete_statements c) s"
    using autocommit_Inr [of fl 0 "delete_statements c" s t] tr(1) by (simp add: prod_eq_iff)
  have "event_history t = delete_where (\<lambda>r. ew_conversation_id r = c) (event_history s)"
    "version_vectors t = delete_where (\<lambda>r. vv_conversation_id r = c) (version_vectors s)"
    unfolding t by (simp_all add: delete_statements_def clear_statements_def)
  then show ?thesis using assms(1) by (fastforce simp: vectors_sound_def has_event_def)
qed

lemma vectors_sound_step:
  assumes "storage_step True s t" and "events_encoded s" "vectors_sound s"
  shows "vectors_sound t"
  using assms(1)
proof (cases rule: storage_step_events_cases)
  case same
  then show ?thesis using assms(3) by (simp add: same_events_def vectors_sound_def has_event_def)
next
  case (append fl e)
  then show ?thesis using assms vectors_sound_append_event by simp
next
  case (appends fls es)
  then show ?thesis unfolding append_events_def
    using append_events_inv [of "\<lambda>s. events_encoded s \<and> vectors_sound s", OF vectors_sound_append_event]
      assms by simp
next
  case (merge fl old new res)
  then show ?thesis using vectors_sound_merge assms by blast
next
  case (delete fl c res)
  then show ?thesis using vectors_sound_delete assms by blast
qed

lemma init_db_ok: "db_ok init_db"
  by (simp add: db_ok_def init_db_def keys_ok_def events_encoded_def vectors_sound_def)

text \<open>
  Every database reachable by the storage methods, with any of their statements failing,
  keeps the primary keys and the UNIQUE column unique and its event rows decodable.
\<close>

theorem reachable_keys_ok: "storage_reachable strict s \<Longrightarrow> keys_ok s \<and> events_encoded s"
proof (induction rule: storage_reachable.induct)
  case (reach_init strict)
  then show ?case using init_db_ok by (simp add: db_ok_def)
next
  case (reach_step strict s t)
  then show ?case using keys_ok_step events_encoded_step by blast
qed

definition demo_row :: event_record where
  "demo_row = \<lparr>ev_device_id = ''d1'', ev_counter = 1, ev_conversation_id = ''c'',
     ev_event_type = ''message_created'', ev_message_id = Some ''m1'', ev_payload = [1, 2],
     ev_created_at = 5\<rparr>"

definition demo_db :: db where
  "demo_db = fst (append_event (\<lambda>_. False) demo_row init_db)"

lemma demo_db_reachable: "storage_reachable strict demo_db"
  unfolding demo_db_def by (rule reach_step [OF reach_init]) (rule step_append_event)

theorem reachable_keys_ok_witness: "keys_ok demo_db \<and> events_encoded demo_db"
  by (rule reachable_keys_ok [OF demo_db_reachable])

text \<open>
  C6: when no merge or deletion of a conversation is cut short, every counter of a version
  vector is backed by the events it promises.
\<close>

theorem reachable_vectors_sound: "storage_reachable True s \<Longrightarrow> db_ok s"
proof (induction "True" s rule: storage_reachable.induct)
  case reach_init
  then show ?case by (rule init_db_ok)
next
  case (reach_step s t)
  then show ?case using keys_ok_step events_encoded_step vectors_sound_step unfolding db_ok_def by blast
qed

theorem reachable_vectors_sound_witness: "db_ok demo_db \<and> version_vector ''c'' demo_db = [(''d1'', 1)]"
proof
  show "db_ok demo_db" by (rule reachable_vectors_sound [OF demo_db_reachable])
  show "version_vector ''c'' demo_db = [(''d1'', 1)]" by code_simp
qed

end
