(* ===== verification/StorageProps.thy ===== *)
theory StorageProps
  imports StorageInv
begin

text \<open>
  What the tables of the client database promise their users: exactly-once storage of
  deliveries (the locale \<open>once_store\<close>, interpreted on messages, queued messages and accepted
  ids), single-use invites, all-or-nothing writes of session, message and outbox, local event
  counters without repetition, and revocations that only move forward.
\<close>

section \<open>Exactly-once stores\<close>

text \<open>
  \<open>firsts key K rs\<close> keeps the first entry of every key that is not in \<open>K\<close>.
\<close>

fun firsts :: "('r \<Rightarrow> 'k) \<Rightarrow> 'k set \<Rightarrow> 'r list \<Rightarrow> 'r list" where
  "firsts key K [] = []"
| "firsts key K (r # rs) =
     (if key r \<in> K then firsts key K rs else r # firsts key (insert (key r) K) rs)"

lemma firsts_subset: "set (firsts key K rs) \<subseteq> set rs"
  by (induction key K rs rule: firsts.induct) auto

lemma keys_firsts: "key ` set (firsts key K rs) = key ` set rs - K"
  by (induction key K rs rule: firsts.induct) auto

lemma distinct_firsts: "distinct (map key (firsts key K rs))"
proof (induction key K rs rule: firsts.induct)
  case (2 key K r rs)
  then show ?case using keys_firsts [of key "insert (key r) K" rs] by force
qed simp

locale once_store =
  fixes put :: "'r \<Rightarrow> 's \<Rightarrow> 's" and entries :: "'s \<Rightarrow> 'r list" and key :: "'r \<Rightarrow> 'k"
  assumes entries_put:
    "entries (put r s) = (if key r \<in> key ` set (entries s) then entries s else entries s @ [r])"
begin

lemma entries_deliver: "entries (fold put rs s) = entries s @ firsts key (key ` set (entries s)) rs"
  by (induction rs arbitrary: s) (auto simp: entries_put insert_absorb)

lemma deliver_keys: "key ` set (entries (fold put rs s)) = key ` set (entries s) \<union> key ` set rs"
  by (auto simp: entries_deliver image_Un keys_firsts)

lemma deliver_distinct:
  assumes "distinct (map key (entries s))"
  shows "distinct (map key (entries (fold put rs s)))"
proof -
  have "set (map key (entries s)) \<inter> set (map key (firsts key (key ` set (entries s)) rs)) = {}"
    using keys_firsts [of key "key ` set (entries s)" rs] by auto
  then show ?thesis using assms by (simp add: entries_deliver distinct_firsts)
qed

text \<open>Delivering again, in any order and multiplicity, changes nothing.\<close>

lemma redeliver:
  assumes "key ` set qs \<subseteq> key ` set (entries s)"
  shows "entries (fold put qs s) = entries s"
  using keys_firsts [of key "key ` set (entries s)" qs] assms
  by (simp add: entries_deliver) (metis Diff_eq_empty_iff image_is_empty set_empty)

end

definition stored_messages :: "db \<Rightarrow> message_record list" where
  "stored_messages s = map message_from_row (messages s)"

definition stored_pending :: "db \<Rightarrow> pending_peer_message list" where
  "stored_pending s = map pending_peer_message_from_row (pending_peer_messages s)"

definition accepted_ids :: "db \<Rightarrow> string list" where
  "accepted_ids s = map am_message_id (accepted_messages s)"

lemma message_row_round_trip [simp]: "message_from_row (message_to_row m) = m"
  by (simp add: message_from_row_def message_to_row_def)

lemma pending_row_round_trip [simp]: "pending_peer_message_from_row (pending_to_row m) = m"
  by (simp add: pending_peer_message_from_row_def pending_to_row_def)

lemma row_ids [simp]:
  "mr_message_id (message_from_row r) = mw_message_id r"
  "mw_message_id (message_to_row m) = mr_message_id m"
  "pm_message_id (pending_peer_message_from_row q) = pw_message_id q"
  "pw_message_id (pending_to_row p) = pm_message_id p"
  by (simp_all add: message_from_row_def message_to_row_def pending_peer_message_from_row_def pending_to_row_def)

interpretation message_store: once_store insert_message stored_messages mr_message_id
  by unfold_locales
     (auto simp: stored_messages_def insert_message_def insert_or_ignore_def has_key_image image_image)

interpretation pending_store: once_store queue_pending_peer_message stored_pending pm_message_id
  by unfold_locales
     (auto simp: stored_pending_def queue_pending_peer_message_def insert_or_ignore_def has_key_image image_image)

interpretation accepted_store: once_store "\<lambda>mid s. fst (accept_message_once mid now s)" accepted_ids "\<lambda>x. x" for now
  by unfold_locales
     (auto simp: accepted_ids_def accept_message_once_def insert_or_ignore_def has_key_image case_prod_unfold)

text \<open>
  Whatever the order and repetition in which messages are delivered to the history, every
  message id is stored exactly once, with the content of its first delivery, and repeating any
  part of the delivery changes nothing.
\<close>

theorem insert_message_exactly_once:
  assumes "keys_ok s" and "set again \<subseteq> set ms"
  shows "distinct (map mr_message_id (stored_messages (fold insert_message ms s)))
    \<and> stored_messages (fold insert_message ms s) = stored_messages s
        @ firsts mr_message_id (mr_message_id ` set (stored_messages s)) ms
    \<and> stored_messages (fold insert_message again (fold insert_message ms s))
        = stored_messages (fold insert_message ms s)"
proof (intro conjI)
  have "distinct (map mr_message_id (stored_messages s))"
    using assms(1) by (simp add: keys_ok_def pk_ok_def stored_messages_def comp_def)
  then show "distinct (map mr_message_id (stored_messages (fold insert_message ms s)))"
    by (rule message_store.deliver_distinct)
  show "stored_messages (fold insert_message ms s) = stored_messages s
        @ firsts mr_message_id (mr_message_id ` set (stored_messages s)) ms"
    by (rule message_store.entries_deliver)
  have "mr_message_id ` set again \<subseteq> mr_message_id ` set (stored_messages (fold insert_message ms s))"
    using assms(2) by (auto simp: message_store.deliver_keys)
  then show "stored_messages (fold insert_message again (fold insert_message ms s))
        = stored_messages (fold insert_message ms s)" by (rule message_store.redeliver)
qed

definition demo_message :: "string \<Rightarrow> string \<Rightarrow> message_record" where
  "demo_message mid text = \<lparr>mr_message_id = mid, mr_conversation_id = ''c'', mr_sender_id = ''a'',
     mr_recipient_id = ''b'', mr_direction = DirReceived, mr_status = StatusReceived,
     mr_protocol_counter = None, mr_ciphertext = [], mr_plaintext = Some text, mr_created_at = 7\<rparr>"

theorem insert_message_exactly_once_witness:
  "map mr_plaintext (stored_messages (fold insert_message
     [demo_message ''m1'' ''hi'', demo_message ''m2'' ''yo'', demo_message ''m1'' ''hi again''] init_db))
   = [Some ''hi'', Some ''yo'']"
proof -
  let ?ms = "[demo_message ''m1'' ''hi'', demo_message ''m2'' ''yo'', demo_message ''m1'' ''hi again'']"
  have "keys_ok init_db" using init_db_ok by (simp add: db_ok_def)
  from insert_message_exactly_once [OF this, of "[]" ?ms]
  have "stored_messages (fold insert_message ?ms init_db) = stored_messages init_db
        @ firsts mr_message_id (mr_message_id ` set (stored_messages init_db)) ?ms" by simp
  then show ?thesis by (simp add: stored_messages_def init_db_def demo_message_def)
qed

section \<open>Accepted ids are never forgotten\<close>

lemma accepted_stmts [simp]:
  "accepted_ids (stmt_upsert_local_identity lid role st i u) = accepted_ids u"
  "accepted_ids (stmt_upsert_session c p role st i u) = accepted_ids u"
  "accepted_ids (stmt_upsert_device_pair_session l r st i u) = accepted_ids u"
  "accepted_ids (stmt_insert_message m u) = accepted_ids u"
  "accepted_ids (stmt_upsert_outbox it u) = accepted_ids u"
  "accepted_ids (stmt_upsert_device_counter d i u) = accepted_ids u"
  "accepted_ids (stmt_insert_event e u) = accepted_ids u"
  "accepted_ids (refresh_vector_for_device c d u) = accepted_ids u"
  by (simp_all add: accepted_ids_def storage_defs Let_def)

lemma accepted_statements:
  "stm \<in> set (merge_statements old new) \<Longrightarrow> accepted_ids (stm u) = accepted_ids u"
  "stm \<in> set (delete_statements c) \<Longrightarrow> accepted_ids (stm u) = accepted_ids u"
  by (auto simp: merge_statements_def delete_statements_def clear_statements_def accepted_ids_def)

lemma accepted_append_event [simp]: "accepted_ids (fst (append_event fl e s)) = accepted_ids s"
  unfolding fst_append_event by (rule autocommit_inv [where P = "\<lambda>u. accepted_ids u = accepted_ids s"]) auto

lemma accepted_next_counter [simp]: "accepted_ids (fst (next_local_event_counter fl d s)) = accepted_ids s"
  unfolding next_local_event_counter_def Let_def case_prod_unfold fst_conv
  by (rule transaction_inv [where P = "\<lambda>u. accepted_ids u = accepted_ids s"]) auto

lemma accepted_appends [simp]: "accepted_ids (fst (append_events fls es s)) = accepted_ids s"
  unfolding append_events_def by (rule append_events_inv [where P = "\<lambda>u. accepted_ids u = accepted_ids s"]) auto

lemma accepted_clear [simp]: "accepted_ids (fst (clear_conversation_history fl c s)) = accepted_ids s"
  unfolding fst_clear_conversation_history
  by (rule autocommit_inv [where P = "\<lambda>u. accepted_ids u = accepted_ids s"])
     (auto simp: clear_statements_def accepted_ids_def)

lemma accepted_delete [simp]: "accepted_ids (fst (delete_conversation fl c s)) = accepted_ids s"
  unfolding fst_delete_conversation
  by (rule autocommit_inv [where P = "\<lambda>u. accepted_ids u = accepted_ids s"]) (auto simp: accepted_statements(2))

lemma accepted_merge [simp]: "accepted_ids (fst (merge_contact_into fl old new s)) = accepted_ids s"
proof -
  have "accepted_ids (fst (autocommit fl 0 (merge_statements old new) s)) = accepted_ids s"
    by (rule autocommit_inv [where P = "\<lambda>u. accepted_ids u = accepted_ids s"]) (auto simp: accepted_statements(1))
  then show ?thesis by (simp add: fst_merge_contact_into)
qed

lemma accepted_transactions [simp]:
  "accepted_ids (fst (save_state_session_and_insert_message fl lid lr ls c p sr ss m now s)) = accepted_ids s"
  "accepted_ids (fst (save_state_session_message_and_outbox fl lid lr ls c p sr ss m i now s)) = accepted_ids s"
  "accepted_ids (fst (save_device_pair_session_and_outbox fl l r ss i now s)) = accepted_ids s"
  unfolding save_state_session_and_insert_message_def save_state_session_message_and_outbox_def
    save_device_pair_session_and_outbox_def
  by (rule transaction_inv [where P = "\<lambda>u. accepted_ids u = accepted_ids s"]; auto)+

lemma accepted_step: "storage_step strict s t \<Longrightarrow> set (accepted_ids s) \<subseteq> set (accepted_ids t)"
proof (induction rule: storage_step.induct)
  case (step_accept_message_once strict s mid now)
  then show ?case by (auto simp: accepted_store.entries_put)
next
  case (step_merge_contact_into fl old new s s' res strict)
  then show ?case using accepted_merge [of fl old new s] by simp
next
  case (step_delete_conversation fl c s s' res strict)
  then show ?case using accepted_delete [of fl c s] by simp
next
  case (step_save_known_peer kp s s' strict)
  then show ?case by (auto simp: save_known_peer_def accepted_ids_def split: if_splits)
next
  case (step_consume_invite strict s h now)
  then show ?case by (simp add: consume_invite_record_def Let_def accepted_ids_def)
qed (simp_all, simp_all add: accepted_ids_def storage_defs)

lemma accepted_steps: "(storage_step strict)\<^sup>*\<^sup>* s t \<Longrightarrow> set (accepted_ids s) \<subseteq> set (accepted_ids t)"
  by (induction rule: rtranclp_induct) (auto dest: accepted_step)

lemma accept_result: "snd (accept_message_once mid now s) \<longleftrightarrow> mid \<notin> set (accepted_ids s)"
  by (auto simp: accept_message_once_def insert_or_ignore_def has_key_def accepted_ids_def case_prod_unfold)

text \<open>
  Once an id has been offered to \<^verbatim>\<open>accept_message_once\<close>, it is never accepted again, whatever
  storage methods run, and fail, in between; and an id that was not offered before is accepted.
\<close>

theorem accept_message_once_exactly_once:
  assumes "(storage_step strict)\<^sup>*\<^sup>* (fst (accept_message_once mid now s)) t"
  shows "\<not> snd (accept_message_once mid later t)
    \<and> (snd (accept_message_once mid now s) \<longleftrightarrow> mid \<notin> set (accepted_ids s))"
proof -
  have "mid \<in> set (accepted_ids (fst (accept_message_once mid now s)))" by (simp add: accepted_store.entries_put)
  then show ?thesis using accepted_steps [OF assms] by (auto simp: accept_result)
qed

theorem accept_message_once_exactly_once_witness:
  "snd (accept_message_once ''m'' 5 init_db)
   \<and> \<not> snd (accept_message_once ''m'' 9 (fst (delete_conversation (\<lambda>_. False) ''c''
         (fst (accept_message_once ''m'' 5 init_db)))))"
proof
  let ?s = "fst (accept_message_once ''m'' 5 init_db)"
  have "storage_step False ?s (fst (delete_conversation (\<lambda>_. False) ''c'' ?s))"
    by (rule step_delete_conversation [of _ _ _ _ "snd (delete_conversation (\<lambda>_. False) ''c'' ?s)"]) simp_all
  then have "(storage_step False)\<^sup>*\<^sup>* ?s (fst (delete_conversation (\<lambda>_. False) ''c'' ?s))" by (rule r_into_rtranclp)
  note acc = accept_message_once_exactly_once [OF this]
  show "\<not> snd (accept_message_once ''m'' 9 (fst (delete_conversation (\<lambda>_. False) ''c'' ?s)))" using acc by simp
  show "snd (accept_message_once ''m'' 5 init_db)" using acc by (simp add: accepted_ids_def init_db_def)
qed

section \<open>Invites are single-use\<close>

definition stored_invite :: "string \<Rightarrow> db \<Rightarrow> invite_record option" where
  "stored_invite h s = map_option invite_from_row (select_one (\<lambda>r. iw_code_hash r = h) (invite_records s))"

lemma invite_records_consume:
  "invite_records (fst (consume_invite_record h now s)) = update_where (invite_consumable h (as_i64 now))
     (\<lambda>r. r\<lparr>iw_consumed_at := Some (as_i64 now)\<rparr>) (invite_records s)"
  by (simp add: consume_invite_record_def Let_def)

lemma consume_row:
  assumes "keys_ok s" "r \<in> set (invite_records s)" "iw_code_hash r = h"
  shows "snd (consume_invite_record h now s) =
    (if invite_consumable h (as_i64 now) r then Some (invite_from_row (r\<lparr>iw_consumed_at := Some (as_i64 now)\<rparr>)) else None)"
proof -
  define p where "p = invite_consumable h (as_i64 now)"
  define f where "f = (\<lambda>r. if p r then r\<lparr>iw_consumed_at := Some (as_i64 now)\<rparr> else r)"
  have pk: "pk_ok iw_code_hash (invite_records s)" using assms(1) by (simp add: keys_ok_def)
  have only: "q = r" if "q \<in> set (invite_records s)" "iw_code_hash q = h" for q
    using pk assms(2,3) that by (auto simp: pk_ok_def distinct_map inj_on_def)
  have "p q \<Longrightarrow> iw_code_hash q = h" for q by (simp add: p_def invite_consumable_def)
  then have cnt: "count_where p (invite_records s) = 0 \<longleftrightarrow> \<not> p r"
    unfolding count_where_def length_0_conv filter_empty_conv using only assms(2) by blast
  have "select_one (\<lambda>x. iw_code_hash x = h) (invite_records s) = Some r"
    using pk assms(2,3) by (simp add: select_one_Some_iff)
  moreover have "iw_code_hash (f x) = iw_code_hash x" for x by (simp add: f_def)
  ultimately have "find (\<lambda>x. iw_code_hash x = h) (map f (invite_records s)) = Some (f r)"
    using find_map_key [of iw_code_hash f h "invite_records s"] by (simp add: select_one_def)
  moreover have "snd (consume_invite_record h now s) = (if count_where p (invite_records s) = 0 then None
      else map_option invite_from_row (find (\<lambda>x. iw_code_hash x = h) (map f (invite_records s))))"
    by (simp add: consume_invite_record_def Let_def update_where_def select_one_def p_def f_def)
  ultimately have "snd (consume_invite_record h now s) = (if p r then Some (invite_from_row (f r)) else None)"
    using cnt by simp
  then show ?thesis by (simp add: f_def p_def)
qed

lemma consume_absent:
  assumes "\<not> has_key iw_code_hash h (invite_records s)"
  shows "snd (consume_invite_record h now s) = None"
  using assms
  by (auto simp: consume_invite_record_def Let_def count_where_def filter_empty_conv invite_consumable_def has_key_def)

text \<open>
  \<^verbatim>\<open>consume_invite_record\<close> hands out an invite exactly when it is stored, unconsumed and not
  expired, and once it has handed it out, no later call does, at any time, as long as no other
  method writes the invite table.
\<close>

theorem consume_invite_single_use:
  assumes "keys_ok s"
  shows "(snd (consume_invite_record h now s) \<noteq> None \<longleftrightarrow>
      (\<exists>r \<in> set (invite_records s). iw_code_hash r = h \<and> iw_consumed_at r = None \<and> as_i64 now < iw_expires_at r))
    \<and> (snd (consume_invite_record h now s) \<noteq> None \<longrightarrow>
        invite_records t = invite_records (fst (consume_invite_record h now s)) \<longrightarrow>
        snd (consume_invite_record h later t) = None)"
proof (cases "has_key iw_code_hash h (invite_records s)")
  case True
  then obtain r where r: "r \<in> set (invite_records s)" "iw_code_hash r = h" by (auto simp: has_key_def)
  have pk: "pk_ok iw_code_hash (invite_records s)" using assms by (simp add: keys_ok_def)
  then have only: "q = r" if "q \<in> set (invite_records s)" "iw_code_hash q = h" for q
    using r that by (auto simp: pk_ok_def distinct_map inj_on_def)
  have res: "snd (consume_invite_record h now s) \<noteq> None \<longleftrightarrow> invite_consumable h (as_i64 now) r"
    using consume_row [OF assms r] by simp
  have "snd (consume_invite_record h later t) = None"
    if c: "invite_consumable h (as_i64 now) r" and eq: "invite_records t = invite_records (fst (consume_invite_record h now s))"
  proof -
    have "\<not> invite_consumable h (as_i64 later) q" if "q \<in> set (invite_records t)" for q
      using that only c unfolding eq invite_records_consume by (auto simp: sql_simps invite_consumable_def)
    then show ?thesis by (simp add: consume_invite_record_def Let_def count_where_def filter_empty_conv)
  qed
  moreover have "invite_consumable h (as_i64 now) r \<longleftrightarrow> (\<exists>r \<in> set (invite_records s). iw_code_hash r = h
      \<and> iw_consumed_at r = None \<and> as_i64 now < iw_expires_at r)"
    using r only unfolding invite_consumable_def by metis
  ultimately show ?thesis using res by metis
next
  case False
  then show ?thesis using consume_absent [OF False, of now] unfolding has_key_def by metis
qed

definition demo_invite :: invite_record where
  "demo_invite = \<lparr>iv_code_hash = ''h'', iv_rendezvous_payload = ''p'', iv_expires_at = 100,
     iv_consumed_at = None, iv_created_at = 1\<rparr>"

theorem consume_invite_single_use_witness:
  "snd (consume_invite_record ''h'' 50 (save_invite_record demo_invite init_db)) \<noteq> None
   \<and> snd (consume_invite_record ''h'' 51 (fst (consume_invite_record ''h'' 50 (save_invite_record demo_invite init_db)))) = None"
proof -
  let ?s = "save_invite_record demo_invite init_db"
  have ok: "keys_ok ?s" using init_db_ok by (simp add: keys_ok_simple db_ok_def)
  have "snd (consume_invite_record ''h'' 50 ?s) \<noteq> None" by code_simp
  then show ?thesis using consume_invite_single_use [OF ok, of "''h''" 50 "fst (consume_invite_record ''h'' 50 ?s)" 51]
    by blast
qed

section \<open>All-or-nothing writes\<close>

text \<open>
  \<^verbatim>\<open>save_state_session_message_and_outbox\<close> either reports an error and leaves the database
  untouched, or the new identity state, the new session state, the message and the outbox
  payload are all readable afterwards.
\<close>

theorem save_state_session_message_and_outbox_atomic:
  "save_state_session_message_and_outbox fails lid lrole lstate c p srole sstate m i now s = (s, Inl IoFailure)
   \<or> (\<exists>t. save_state_session_message_and_outbox fails lid lrole lstate c p srole sstate m i now s = (t, Inr ())
      \<and> load_local_identity lid t = Some lstate \<and> load_session c t = Some sstate
      \<and> message_exists (mr_message_id m) t
      \<and> (\<exists>it. get_outbox_item (ob_message_id i) t = Some it \<and> ob_payload it = ob_payload i
            \<and> ob_status it = ob_status i \<and> ob_recipient_id it = ob_recipient_id i))"
proof -
  let ?sts = "[stmt_upsert_local_identity lid lrole lstate (as_i64 now), stmt_upsert_session c p srole sstate (as_i64 now),
        stmt_insert_message m, stmt_upsert_outbox i]"
  let ?t = "fold (\<lambda>st u. st u) ?sts s"
  have "load_local_identity lid ?t = Some lstate"
    by (simp add: load_local_identity_def storage_defs select_one_upsert split: option.splits)
  moreover have "load_session c ?t = Some sstate"
    by (simp add: load_session_def storage_defs select_one_upsert split: option.splits)
  moreover have "message_exists (mr_message_id m) ?t"
    by (simp add: message_exists_def storage_defs count_where_has_key)
  moreover have "\<exists>it. get_outbox_item (ob_message_id i) ?t = Some it \<and> ob_payload it = ob_payload i
            \<and> ob_status it = ob_status i \<and> ob_recipient_id it = ob_recipient_id i"
    by (simp add: get_outbox_item_def storage_defs select_one_upsert outbox_item_to_row_def
        outbox_item_from_row_def split: option.splits)
  ultimately show ?thesis
    using transaction_cases [of fails ?sts s] unfolding save_state_session_message_and_outbox_def by blast
qed

section \<open>Local event counters\<close>

text \<open>The counter the next call will return.\<close>

definition current_counter :: "string \<Rightarrow> db \<Rightarrow> int" where
  "current_counter d s = (case select_one (\<lambda>r. dc_device_id r = d) (device_counters s) of
     None \<Rightarrow> 1 | Some r \<Rightarrow> dc_next_counter r)"

fun counter_run :: "string \<Rightarrow> (nat \<Rightarrow> bool) list \<Rightarrow> db \<Rightarrow> db \<times> u64 list" where
  "counter_run d [] s = (s, [])"
| "counter_run d (f # fs) s =
     (case next_local_event_counter f d s of
        (s', Inl e) \<Rightarrow> counter_run d fs s'
      | (s', Inr k) \<Rightarrow> (let (t, ks) = counter_run d fs s' in (t, k # ks)))"

lemma next_local_event_counter_cases:
  assumes "0 \<le> current_counter d s" "current_counter d s + 1 < 2 ^ 63"
  shows "next_local_event_counter f d s = (s, Inl IoFailure)
    \<or> (\<exists>t. next_local_event_counter f d s = (t, Inr (as_u64 (current_counter d s)))
          \<and> current_counter d t = current_counter d s + 1)"
proof -
  let ?n = "as_i64 (as_u64 (current_counter d s + 1))"
  have "uint (as_u64 (current_counter d s + 1)) = current_counter d s + 1"
    using assms by (intro uint_as_u64) simp_all
  moreover from this have "unat (as_u64 (current_counter d s + 1)) < 2 ^ 63"
    using assms by (simp add: unat_eq_nat_uint nat_less_iff)
  ultimately have n: "?n = current_counter d s + 1" by (simp add: as_i64_small)
  have "current_counter d (stmt_upsert_device_counter d ?n s) = ?n"
    unfolding current_counter_def stmt_upsert_device_counter_def by (simp add: select_one_upsert split: option.splits)
  then show ?thesis
    using transaction_cases [of f "[stmt_upsert_device_counter d ?n]" s] n
    by (auto simp: next_local_event_counter_def current_counter_def [symmetric] Let_def)
qed

lemma counter_run_consecutive:
  assumes "0 \<le> current_counter d s" "current_counter d s + int (length fs) < 2 ^ 63"
  shows "snd (counter_run d fs s) = map as_u64 [current_counter d s .. current_counter d s + int (length (snd (counter_run d fs s))) - 1]"
  using assms
proof (induction fs arbitrary: s)
  case (Cons f fs)
  have "current_counter d s + 1 < 2 ^ 63" using Cons.prems by simp
  from next_local_event_counter_cases [OF Cons.prems(1) this, of f] show ?case
  proof (elim disjE exE conjE)
    assume "next_local_event_counter f d s = (s, Inl IoFailure)"
    then show ?thesis using Cons by simp
  next
    fix t
    assume t: "next_local_event_counter f d s = (t, Inr (as_u64 (current_counter d s)))"
      "current_counter d t = current_counter d s + 1"
    let ?m = "int (length (snd (counter_run d fs t)))"
    have "snd (counter_run d fs t) = map as_u64 [current_counter d s + 1 .. current_counter d s + ?m]"
      using Cons.IH [of t] Cons.prems t(2) by simp
    moreover have "[current_counter d s .. current_counter d s + ?m] =
        current_counter d s # [current_counter d s + 1 .. current_counter d s + ?m]"
      by (subst upto.simps) simp
    ultimately show ?thesis using t by (simp add: case_prod_unfold Let_def)
  qed
qed simp

text \<open>
  A device's counters come out consecutive and so without repetition, whatever calls fail in
  between, as long as they stay below \<open>2 ^ 63\<close>.
\<close>

theorem local_counters_consecutive:
  assumes "0 \<le> current_counter d s" "current_counter d s + int (length fs) < 2 ^ 63"
  shows "snd (counter_run d fs s) =
      map as_u64 [current_counter d s .. current_counter d s + int (length (snd (counter_run d fs s))) - 1]
    \<and> distinct (snd (counter_run d fs s))"
proof -
  note run = counter_run_consecutive [OF assms]
  have len: "length (snd (counter_run d fs s)) \<le> length fs" for s
  proof (induction fs arbitrary: s)
    case (Cons f fs)
    have "length (snd (counter_run d fs (fst (next_local_event_counter f d s)))) \<le> length fs" by (rule Cons.IH)
    then show ?case by (auto simp: case_prod_unfold Let_def split: sum.splits)
  qed simp
  have "inj_on as_u64 {0 ..< 2 ^ 63}"
    by (rule inj_on_inverseI [of _ uint]) (simp add: uint_as_u64)
  then have "inj_on as_u64 {current_counter d s .. current_counter d s + int (length (snd (counter_run d fs s))) - 1}"
    by (rule inj_on_subset) (use assms len [of s] in auto)
  then have "distinct (map as_u64 [current_counter d s .. current_counter d s + int (length (snd (counter_run d fs s))) - 1])"
    by (simp add: distinct_map)
  with run show ?thesis by metis
qed

theorem local_counters_consecutive_witness:
  "snd (counter_run ''d'' [\<lambda>_. False, \<lambda>i. i = 1, \<lambda>_. False] init_db) = [1, 2]"
proof -
  have c: "current_counter ''d'' init_db = 1" by code_simp
  let ?fs = "[\<lambda>_. False, \<lambda>i. i = 1, \<lambda>_. False] :: (nat \<Rightarrow> bool) list"
  have n: "length (snd (counter_run ''d'' ?fs init_db)) = 2" by code_simp
  have "snd (counter_run ''d'' ?fs init_db) = map as_u64 [1 .. 1 + int 2 - 1]"
    using local_counters_consecutive [of "''d''" init_db ?fs] unfolding c n by simp
  then show ?thesis by (simp add: as_u64_def upto.simps)
qed

section \<open>Revocations only move forward\<close>

definition stored_revocation :: "string \<Rightarrow> string \<Rightarrow> db \<Rightarrow> (int \<times> bytes) option" where
  "stored_revocation a d s = map_option (\<lambda>r. (drv_revocation_counter r, drv_revocation r))
     (select_one (\<lambda>r. drv_key r = (a, d)) (device_revocations s))"

lemma stored_revocation_save:
  "stored_revocation a d (save_device_revocation a' d' n rv now s) =
    (if a = a' \<and> d = d' then
       (case stored_revocation a d s of None \<Rightarrow> Some (as_i64 n, rv)
        | Some (m, old) \<Rightarrow> Some (max m (as_i64 n), if m \<le> as_i64 n then rv else old))
     else stored_revocation a d s)"
proof -
  let ?new = "\<lparr>drv_account_id = a', drv_device_id = d', drv_revocation_counter = as_i64 n,
     drv_revocation = rv, drv_updated_at = as_i64 now\<rparr>"
  have key: "drv_key ?new = (a', d')" by (simp add: drv_key_def)
  have "select_one (\<lambda>x. drv_key x = (a, d)) (upsert drv_key merge_revocation ?new (device_revocations s)) =
    (if (a, d) = drv_key ?new then
       Some (case select_one (\<lambda>x. drv_key x = (a, d)) (device_revocations s) of
               None \<Rightarrow> ?new | Some old \<Rightarrow> merge_revocation old ?new)
     else select_one (\<lambda>x. drv_key x = (a, d)) (device_revocations s))"
    by (rule select_one_upsert) simp
  then show ?thesis unfolding key
    by (simp add: stored_revocation_def save_device_revocation_def merge_revocation_def split: option.splits)
qed

lemma Max_insert_snoc: "A \<noteq> {} \<Longrightarrow> finite A \<Longrightarrow> Max (insert x A) = max (Max A) (x :: int)"
  by (simp add: max.commute)

text \<open>
  Whatever revocations of a device are saved, in any order and any number of times, the
  stored one is one of them with the largest counter, so a replayed older revocation never
  replaces a newer one.
\<close>

theorem revocations_monotone:
  assumes "saves \<noteq> []" and "stored_revocation a d s = None"
  shows "\<exists>n rv now. (n, rv, now) \<in> set saves \<and> as_i64 n = Max ((\<lambda>(n, _). as_i64 n) ` set saves)
    \<and> stored_revocation a d (fold (\<lambda>(n, rv, now). save_device_revocation a d n rv now) saves s)
       = Some (as_i64 n, rv)"
  using assms(1)
proof (induction saves rule: rev_induct)
  case (snoc x xs)
  obtain n rv now where x: "x = (n, rv, now)" by (cases x)
  show ?case
  proof (cases "xs = []")
    case True
    then show ?thesis using assms(2) by (auto simp: x stored_revocation_save)
  next
    case False
    let ?M = "Max ((\<lambda>(n, _). as_i64 n) ` set xs)"
    from snoc.IH [OF False] obtain m old w where m: "(m, old, w) \<in> set xs" "as_i64 m = ?M"
      "stored_revocation a d (fold (\<lambda>(n, rv, now). save_device_revocation a d n rv now) xs s) = Some (as_i64 m, old)"
      by blast
    have mx: "Max ((\<lambda>(n, _). as_i64 n) ` set (xs @ [x])) = max (as_i64 m) (as_i64 n)"
      using Max_insert_snoc [of "(\<lambda>(n, _). as_i64 n) ` set xs" "as_i64 n"] False m(2) by (simp add: x)
    have st: "stored_revocation a d (fold (\<lambda>(n, rv, now). save_device_revocation a d n rv now) (xs @ [x]) s)
        = Some (max (as_i64 m) (as_i64 n), if as_i64 m \<le> as_i64 n then rv else old)"
      using m(3) by (simp add: x stored_revocation_save)
    have mem: "(n, rv, now) \<in> set (xs @ [x])" "(m, old, w) \<in> set (xs @ [x])" using m(1) by (simp_all add: x)
    show ?thesis
    proof (cases "as_i64 m \<le> as_i64 n")
      case True
      show ?thesis by (intro exI [of _ n] exI [of _ rv] exI [of _ now] conjI)
          (use True mx st mem in \<open>simp_all only: max_def if_True\<close>)
    next
      case False
      show ?thesis by (intro exI [of _ m] exI [of _ old] exI [of _ w] conjI)
          (use False mx st mem in \<open>simp_all only: max_def if_False\<close>)
    qed
  qed
qed simp

theorem revocations_monotone_witness:
  "stored_revocation ''a'' ''d'' (fold (\<lambda>(n, rv, now). save_device_revocation ''a'' ''d'' n rv now)
     [(1, [10], 5), (3, [30], 6), (2, [20], 7)] init_db) = Some (3, [30])"
proof -
  have "stored_revocation ''a'' ''d'' init_db = None" by (simp add: stored_revocation_def init_db_def select_one_def)
  from revocations_monotone [OF _ this, of "[(1, [10], 5), (3, [30], 6), (2, [20], 7)]"]
  obtain n rv now where *: "(n, rv, now) \<in> set [(1, [10], 5 :: u64), (3, [30], 6), (2, [20], 7)]"
    "as_i64 n = Max ((\<lambda>(n, _). as_i64 n) ` set [(1, [10 :: u8], 5 :: u64), (3, [30], 6), (2, [20], 7)])"
    "stored_revocation ''a'' ''d'' (fold (\<lambda>(n, rv, now). save_device_revocation ''a'' ''d'' n rv now)
     [(1, [10], 5), (3, [30], 6), (2, [20], 7)] init_db) = Some (as_i64 n, rv)" by blast
  have i: "as_i64 1 = 1" "as_i64 2 = 2" "as_i64 3 = 3" by (simp_all add: as_i64_def)
  then have "as_i64 n = 3" using *(2) by simp
  moreover from this have "n = 3" using i(3) by (metis as_i64_inject)
  ultimately show ?thesis using * by auto
qed

end
