(* ===== verification/StorageChats.thy ===== *)
theory StorageChats
  imports StorageInv "HOL-Library.Multiset"
begin

text \<open>
  Conversations in the client database: merging a legacy contact into another
  (\<^verbatim>\<open>merge_contact_into\<close>), deleting a conversation, and the paged contact list against the
  simple one (\<^verbatim>\<open>chat_summaries_page\<close> and \<^verbatim>\<open>chat_summaries\<close>).
\<close>

section \<open>Merging a contact\<close>

text \<open>What \<^verbatim>\<open>merge_contact_into\<close> does when all its statements run.\<close>

lemma update_where_id: "(\<And>r. r \<in> set t \<Longrightarrow> \<not> p r) \<Longrightarrow> update_where p f t = t"
  by (simp add: update_where_def map_idI)

lemma update_where_twice: "(\<And>r. \<not> p (f r)) \<Longrightarrow> update_where p f (update_where p f t) = update_where p f t"
  by (rule update_where_id) (auto simp: sql_simps)

lemma delete_where_id: "(\<And>r. r \<in> set t \<Longrightarrow> \<not> p r) \<Longrightarrow> delete_where p t = t"
  by (simp add: delete_where_def)

lemma delete_where_twice [simp]: "delete_where p (delete_where p t) = delete_where p t"
  by (rule delete_where_id) simp

definition merge_sessions :: "string \<Rightarrow> string \<Rightarrow> session_row list \<Rightarrow> session_row list" where
  "merge_sessions old new t = (if 0 < count_where (\<lambda>r. se_conversation_id r = new) t
     then delete_where (\<lambda>r. se_conversation_id r = old) t
     else update_where (\<lambda>r. se_conversation_id r = old) (\<lambda>r. r\<lparr>se_conversation_id := new\<rparr>) t)"

definition copy_vectors :: "string \<Rightarrow> string \<Rightarrow> version_vector_row list \<Rightarrow> version_vector_row list" where
  "copy_vectors old new t = fold (\<lambda>r t. fst (insert_or_ignore vv_key (r\<lparr>vv_conversation_id := new\<rparr>) t))
     (filter (\<lambda>r. vv_conversation_id r = old) t) t"

definition drop_vectors :: "string \<Rightarrow> version_vector_row list \<Rightarrow> version_vector_row list" where
  "drop_vectors old t = delete_where (\<lambda>r. vv_conversation_id r = old) t"

lemma merge_statements_alt: "merge_statements old new =
   [messages_update (update_where (\<lambda>r. mw_conversation_id r = old) (\<lambda>r. r\<lparr>mw_conversation_id := new\<rparr>)),
    pending_peer_messages_update (update_where (\<lambda>r. pw_conversation_id r = old) (\<lambda>r. r\<lparr>pw_conversation_id := new\<rparr>)),
    event_history_update (update_where (\<lambda>r. ew_conversation_id r = old) (\<lambda>r. r\<lparr>ew_conversation_id := new\<rparr>)),
    sessions_update (merge_sessions old new),
    version_vectors_update (copy_vectors old new),
    version_vectors_update (drop_vectors old),
    known_peers_update (delete_where (\<lambda>r. kw_conversation_id r = old)),
    contacts_tbl_update (delete_where (\<lambda>r. cw_contact_id r = old))]"
  by (simp add: merge_statements_def merge_sessions_def copy_vectors_def drop_vectors_def fun_eq_iff)

lemma merge_sessions_twice:
  assumes "old \<noteq> new"
  shows "merge_sessions old new (merge_sessions old new t) = merge_sessions old new t"
proof (cases "has_key se_conversation_id new t")
  case True
  then have "has_key se_conversation_id new (delete_where (\<lambda>r. se_conversation_id r = old) t)"
    using assms by (auto simp: has_key_def)
  with True show ?thesis by (simp add: merge_sessions_def count_where_has_key)
next
  case False
  let ?u = "update_where (\<lambda>r. se_conversation_id r = old) (\<lambda>r. r\<lparr>se_conversation_id := new\<rparr>) t"
  have none: "r \<in> set ?u \<Longrightarrow> se_conversation_id r \<noteq> old" for r using assms by (auto simp: sql_simps)
  have "delete_where (\<lambda>r. se_conversation_id r = old) ?u = ?u" by (rule delete_where_id) (rule none)
  moreover have "update_where (\<lambda>r. se_conversation_id r = old) (\<lambda>r. r\<lparr>se_conversation_id := new\<rparr>) ?u = ?u"
    by (rule update_where_id) (rule none)
  ultimately show ?thesis using False by (simp add: merge_sessions_def count_where_has_key)
qed

lemma fold_insert_or_ignore_present:
  "(\<And>r. r \<in> set rs \<Longrightarrow> has_key key (key (f r)) t) \<Longrightarrow>
   fold (\<lambda>r t. fst (insert_or_ignore key (f r) t)) rs t = t"
  by (induction rs) (simp_all add: insert_or_ignore_def)

lemma has_key_fold_insert:
  "has_key key k (fold (\<lambda>r t. fst (insert_or_ignore key (f r) t)) rs t)
    \<longleftrightarrow> k \<in> (\<lambda>r. key (f r)) ` set rs \<or> has_key key k t"
  by (induction rs arbitrary: t) auto

lemma fold_insert_filter:
  "(\<And>r. \<not> p (f r)) \<Longrightarrow> filter p (fold (\<lambda>r t. fst (insert_or_ignore key (f r) t)) rs t) = filter p t"
  by (induction rs arbitrary: t) (simp_all add: insert_or_ignore_def)

lemma copy_vectors_twice:
  assumes "old \<noteq> new"
  shows "copy_vectors old new (copy_vectors old new t) = copy_vectors old new t"
proof -
  let ?rs = "filter (\<lambda>r. vv_conversation_id r = old) t"
  have f: "filter (\<lambda>r. vv_conversation_id r = old) (copy_vectors old new t) = ?rs"
    unfolding copy_vectors_def by (rule fold_insert_filter) (use assms in simp)
  have "fold (\<lambda>r t. fst (insert_or_ignore vv_key (r\<lparr>vv_conversation_id := new\<rparr>) t)) ?rs (copy_vectors old new t)
      = copy_vectors old new t"
    by (rule fold_insert_or_ignore_present) (auto simp: copy_vectors_def has_key_fold_insert)
  then show ?thesis by (simp add: copy_vectors_def [of old new "copy_vectors old new t"] f)
qed

lemma copy_after_drop: "copy_vectors old new (drop_vectors old t) = drop_vectors old t"
proof -
  have "filter (\<lambda>r. vv_conversation_id r = old) (drop_vectors old t) = []"
    by (simp add: drop_vectors_def delete_where_def filter_empty_conv)
  then show ?thesis by (simp add: copy_vectors_def)
qed

lemma drop_vectors_twice [simp]: "drop_vectors old (drop_vectors old t) = drop_vectors old t"
  by (simp add: drop_vectors_def)

lemmas merge_idem = update_where_twice merge_sessions_twice copy_vectors_twice copy_after_drop

lemma merge_prefix_absorbed:
  assumes "old \<noteq> new" "k \<le> 8"
  shows "fold (\<lambda>st u. st u) (merge_statements old new) (fold (\<lambda>st u. st u) (take k (merge_statements old new)) s)
    = fold (\<lambda>st u. st u) (merge_statements old new) s"
proof -
  from assms(2) consider "k = 0" | "k = 1" | "k = 2" | "k = 3" | "k = 4" | "k = 5" | "k = 6" | "k = 7" | "k = 8"
    by linarith
  then show ?thesis
    by cases (simp_all add: merge_statements_alt merge_idem comp_def assms(1) assms(1) [symmetric])
qed

lemma autocommit_prefix:
  "\<exists>k \<le> length sts. fst (autocommit fails n sts s) = fold (\<lambda>st u. st u) (take k sts) s"
proof (induction sts arbitrary: n s)
  case (Cons st sts)
  show ?case
  proof (cases "fails n")
    case True
    then show ?thesis by (intro exI [of _ 0]) simp
  next
    case False
    obtain k where "k \<le> length sts" "fst (autocommit fails (Suc n) sts (st s)) = fold (\<lambda>st u. st u) (take k sts) (st s)"
      using Cons.IH by blast
    with False show ?thesis by (intro exI [of _ "Suc k"]) simp
  qed
qed simp

text \<open>
  C16: a merge that was cut short by an error can be run again: once a run succeeds, the database
  is the one an undisturbed merge would have produced.
\<close>

theorem merge_contact_into_resumable:
  assumes "merge_contact_into fails old new s = (interrupted, res)"
    and "merge_contact_into fails' old new interrupted = (t, Inr ())"
  shows "merge_contact_into (\<lambda>_. False) old new s = (t, Inr ())"
proof (cases "old = new")
  case True
  then show ?thesis using assms by (simp add: merge_contact_into_def)
next
  case False
  obtain k where k: "k \<le> length (merge_statements old new)"
    "interrupted = fold (\<lambda>st u. st u) (take k (merge_statements old new)) s"
    using autocommit_prefix [of "merge_statements old new" fails 0 s] assms(1) False
    by (auto simp: merge_contact_into_def)
  have "t = fold (\<lambda>st u. st u) (merge_statements old new) interrupted"
    using assms(2) False autocommit_Inr by (simp add: merge_contact_into_def)
  also have "\<dots> = fold (\<lambda>st u. st u) (merge_statements old new) s"
    unfolding k(2) by (rule merge_prefix_absorbed) (use False k(1) in \<open>simp_all add: merge_statements_def\<close>)
  finally show ?thesis using False by (simp add: merge_contact_into_def autocommit_ok)
qed

definition demo_chat :: db where
  "demo_chat = save_session ''old'' ''p'' ''alice'' [1] 3 (mark_message_new ''old'' ''m'' 4
     (insert_message \<lparr>mr_message_id = ''m'', mr_conversation_id = ''old'', mr_sender_id = ''a'',
        mr_recipient_id = ''b'', mr_direction = DirReceived, mr_status = StatusReceived,
        mr_protocol_counter = None, mr_ciphertext = [], mr_plaintext = Some ''hi'', mr_created_at = 7\<rparr>
     (save_contact \<lparr>ct_contact_id = ''old'', ct_display_name = ''Al'', ct_identity_public_key = [],
        ct_discovery_hint = '''', ct_saved_at = 2\<rparr> init_db)))"

theorem merge_contact_into_resumable_witness:
  "merge_contact_into (\<lambda>_. False) ''old'' ''new'' demo_chat =
     (fst (merge_contact_into (\<lambda>_. False) ''old'' ''new'' (fst (merge_contact_into (\<lambda>i. i = 2) ''old'' ''new'' demo_chat))), Inr ())
   \<and> snd (merge_contact_into (\<lambda>i. i = 2) ''old'' ''new'' demo_chat) = Inl IoFailure"
proof
  let ?i = "merge_contact_into (\<lambda>i. i = 2) ''old'' ''new'' demo_chat"
  have r: "merge_contact_into (\<lambda>_. False) ''old'' ''new'' (fst ?i)
     = (fst (merge_contact_into (\<lambda>_. False) ''old'' ''new'' (fst ?i)), Inr ())"
    by (simp add: merge_contact_into_def autocommit_ok)
  show "merge_contact_into (\<lambda>_. False) ''old'' ''new'' demo_chat
     = (fst (merge_contact_into (\<lambda>_. False) ''old'' ''new'' (fst ?i)), Inr ())"
    by (rule merge_contact_into_resumable [OF _ r, of _ _ "snd ?i"]) simp
  show "snd ?i = Inl IoFailure" by code_simp
qed

lemma merge_result:
  assumes "old \<noteq> new" "merge_contact_into fails old new s = (t, Inr ())"
  shows "t = fold (\<lambda>st u. st u) (merge_statements old new) s"
  using assms autocommit_Inr by (simp add: merge_contact_into_def)

lemma count_update_where_new:
  assumes "old \<noteq> new" "\<And>r. conv (f r) = new"
  shows "count_where (\<lambda>r. conv r = new) (update_where (\<lambda>r. conv r = old) f t) =
      count_where (\<lambda>r. conv r = old) t + count_where (\<lambda>r. conv r = new) t"
    and "count_where (\<lambda>r. conv r = old) (update_where (\<lambda>r. conv r = old) f t) = 0"
proof -
  show "count_where (\<lambda>r. conv r = new) (update_where (\<lambda>r. conv r = old) f t) =
      count_where (\<lambda>r. conv r = old) t + count_where (\<lambda>r. conv r = new) t"
    using assms by (induction t) (auto simp: count_where_def update_where_def)
  show "count_where (\<lambda>r. conv r = old) (update_where (\<lambda>r. conv r = old) f t) = 0"
    using assms by (auto simp: count_where_def update_where_def filter_empty_conv)
qed

lemma count_where_zero: "(\<And>r. r \<in> set t \<Longrightarrow> \<not> p r) \<Longrightarrow> count_where p t = 0"
  by (simp add: count_where_def filter_empty_conv)

lemma count_where_delete_where [simp]: "count_where p (delete_where p t) = 0"
  by (rule count_where_zero) simp

lemma merge_sessions_lookup:
  assumes "old \<noteq> new"
  shows "find (\<lambda>r. se_conversation_id r = old) (merge_sessions old new t) = None"
    and "map_option se_state (find (\<lambda>r. se_conversation_id r = new) (merge_sessions old new t)) =
      (case map_option se_state (find (\<lambda>r. se_conversation_id r = new) t) of
         Some st \<Rightarrow> Some st
       | None \<Rightarrow> map_option se_state (find (\<lambda>r. se_conversation_id r = old) t))"
proof -
  have d: "find (\<lambda>r. se_conversation_id r = new) (delete_where (\<lambda>r. se_conversation_id r = old) t) =
      find (\<lambda>r. se_conversation_id r = new) t"
    using assms by (induction t) (auto simp: delete_where_def)
  have u: "(\<And>r. r \<in> set t \<Longrightarrow> se_conversation_id r \<noteq> new) \<Longrightarrow>
      map_option se_state (find (\<lambda>r. se_conversation_id r = new)
        (update_where (\<lambda>r. se_conversation_id r = old) (\<lambda>r. r\<lparr>se_conversation_id := new\<rparr>) t))
      = map_option se_state (find (\<lambda>r. se_conversation_id r = old) t)"
    by (induction t) (auto simp: update_where_def)
  show "find (\<lambda>r. se_conversation_id r = old) (merge_sessions old new t) = None"
    using assms by (auto simp: merge_sessions_def find_None_iff sql_simps)
  show "map_option se_state (find (\<lambda>r. se_conversation_id r = new) (merge_sessions old new t)) =
      (case map_option se_state (find (\<lambda>r. se_conversation_id r = new) t) of
         Some st \<Rightarrow> Some st
       | None \<Rightarrow> map_option se_state (find (\<lambda>r. se_conversation_id r = old) t))"
  proof (cases "has_key se_conversation_id new t")
    case True
    then obtain r where "find (\<lambda>r. se_conversation_id r = new) t = Some r"
      by (cases "find (\<lambda>r. se_conversation_id r = new) t") (auto simp: has_key_def find_None_iff)
    with True show ?thesis by (simp add: merge_sessions_def count_where_has_key d)
  next
    case False
    then have "find (\<lambda>r. se_conversation_id r = new) t = None" by (auto simp: has_key_def find_None_iff)
    then show ?thesis using False u by (auto simp: merge_sessions_def count_where_has_key has_key_def)
  qed
qed

lemma set_merged_messages:
  assumes "old \<noteq> new"
    and t: "messages t = update_where (\<lambda>r. mw_conversation_id r = old) (\<lambda>r. r\<lparr>mw_conversation_id := new\<rparr>) (messages s)"
  shows "set (messages_for_conversation new t) =
    (\<lambda>m. m\<lparr>mr_conversation_id := new\<rparr>) ` (set (messages_for_conversation old s) \<union> set (messages_for_conversation new s))"
proof -
  let ?move = "\<lambda>r. r\<lparr>mw_conversation_id := new\<rparr>"
  have c: "(message_from_row r)\<lparr>mr_conversation_id := new\<rparr> = message_from_row (?move r)" for r
    by (simp add: message_from_row_def)
  have k: "mw_conversation_id r = new \<Longrightarrow> ?move r = r" for r by simp
  have "{r \<in> set (messages t). mw_conversation_id r = new} =
      ?move ` {r \<in> set (messages s). mw_conversation_id r = old \<or> mw_conversation_id r = new}"
  proof (intro set_eqI iffI)
    fix x
    assume "x \<in> {r \<in> set (messages t). mw_conversation_id r = new}"
    then obtain r where r: "r \<in> set (messages s)" "x = (if mw_conversation_id r = old then ?move r else r)"
      "mw_conversation_id x = new" unfolding t set_update_where by auto
    have mem: "mw_conversation_id r = old \<or> mw_conversation_id r = new"
      using r(2,3) by (cases "mw_conversation_id r = old") simp_all
    then have "x = ?move r" using r(2) k [of r] by auto
    with r(1) mem show "x \<in> ?move ` {r \<in> set (messages s). mw_conversation_id r = old \<or> mw_conversation_id r = new}"
      by (intro image_eqI [of _ _ r]) simp_all
  next
    fix x
    assume "x \<in> ?move ` {r \<in> set (messages s). mw_conversation_id r = old \<or> mw_conversation_id r = new}"
    then obtain r where r: "r \<in> set (messages s)" "mw_conversation_id r = old \<or> mw_conversation_id r = new"
      "x = ?move r" by blast
    then have "x = (if mw_conversation_id r = old then ?move r else r)" using k [of r] by auto
    with r show "x \<in> {r \<in> set (messages t). mw_conversation_id r = new}" unfolding t set_update_where by auto
  qed
  then have "set (messages_for_conversation new t) = message_from_row ` ?move `
      {r \<in> set (messages s). mw_conversation_id r = old \<or> mw_conversation_id r = new}"
    by (simp add: messages_for_conversation_def)
  also have "\<dots> = (\<lambda>m. m\<lparr>mr_conversation_id := new\<rparr>) ` message_from_row `
      {r \<in> set (messages s). mw_conversation_id r = old \<or> mw_conversation_id r = new}"
    by (simp add: image_image c)
  finally show ?thesis by (simp add: messages_for_conversation_def image_Un [symmetric] Collect_disj_eq [symmetric] conj_disj_distribL)
qed

text \<open>
  A successful merge moves the history, the queued messages, the events and (unless the
  target has one) the session of the old conversation to the new one and removes its contact and
  known peer.  Of the rows that belong to the old conversation only the unread markers stay.
\<close>

theorem merge_contact_into_moves:
  assumes "old \<noteq> new" "merge_contact_into fails old new s = (t, Inr ())"
  shows "set (messages_for_conversation new t) = (\<lambda>m. m\<lparr>mr_conversation_id := new\<rparr>) `
        (set (messages_for_conversation old s) \<union> set (messages_for_conversation new s))
    \<and> pending_peer_message_count new t = pending_peer_message_count old s + pending_peer_message_count new s
    \<and> load_session new t = (case load_session new s of Some st \<Rightarrow> Some st | None \<Rightarrow> load_session old s)
    \<and> rows_of_conversation old t = count_where (\<lambda>r. nm_conversation_id r = old) (new_messages s)"
proof -
  note t = merge_result [OF assms, unfolded merge_statements_alt]
  note sel = count_update_where_new [OF assms(1)] merge_sessions_lookup [OF assms(1)]
  have "messages t = update_where (\<lambda>r. mw_conversation_id r = old) (\<lambda>r. r\<lparr>mw_conversation_id := new\<rparr>) (messages s)"
    by (simp add: t)
  from set_merged_messages [OF assms(1) this] have m: "set (messages_for_conversation new t) = (\<lambda>m. m\<lparr>mr_conversation_id := new\<rparr>) `
        (set (messages_for_conversation old s) \<union> set (messages_for_conversation new s))" .
  have p: "pending_peer_message_count new t = pending_peer_message_count old s + pending_peer_message_count new s"
    by (simp add: t pending_peer_message_count_def sel)
  have l: "load_session new t = (case load_session new s of Some st \<Rightarrow> Some st | None \<Rightarrow> load_session old s)"
    by (simp add: t load_session_def select_one_def sel split: option.splits)
  have "count_where (\<lambda>r. se_conversation_id r = old) (merge_sessions old new (sessions s)) = 0"
    by (rule count_where_zero) (use sel(3) in \<open>auto simp: find_None_iff\<close>)
  then have r: "rows_of_conversation old t = count_where (\<lambda>r. nm_conversation_id r = old) (new_messages s)"
    by (simp add: t rows_of_conversation_def sel drop_vectors_def count_where_zero)
  show ?thesis using m p l r by blast
qed

theorem merge_contact_into_moves_witness:
  "load_session ''new'' (fst (merge_contact_into (\<lambda>_. False) ''old'' ''new'' demo_chat)) = Some [1]
   \<and> rows_of_conversation ''old'' (fst (merge_contact_into (\<lambda>_. False) ''old'' ''new'' demo_chat)) = 1"
proof -
  have ok: "merge_contact_into (\<lambda>_. False) ''old'' ''new'' demo_chat =
      (fst (merge_contact_into (\<lambda>_. False) ''old'' ''new'' demo_chat), Inr ())"
    by (simp add: merge_contact_into_def autocommit_ok)
  have "load_session ''new'' demo_chat = None" "load_session ''old'' demo_chat = Some [1]"
    "count_where (\<lambda>r. nm_conversation_id r = ''old'') (new_messages demo_chat) = 1" by code_simp+
  then show ?thesis using merge_contact_into_moves [OF _ ok] by simp
qed

text \<open>
  The unread markers are not moved by a merge: opening the merged conversation clears none
  of the markers of the old one, and its unread messages are not listed there.
\<close>

theorem merge_strands_unread_markers:
  assumes "old \<noteq> new" "merge_contact_into fails old new s = (t, Inr ())"
    and "\<forall>r \<in> set (new_messages s). nm_conversation_id r = old"
  shows "new_messages_for_conversation new t = [] \<and> mark_new_messages_read new t = (t, 0)
    \<and> snd (mark_new_messages_read old t) = length (new_messages s)"
proof -
  have n: "new_messages t = new_messages s"
    using merge_result [OF assms(1,2), unfolded merge_statements_alt] by simp
  have none: "filter (\<lambda>nm. nm_conversation_id nm = new) (new_messages s) = []"
    "filter (\<lambda>nm. nm_conversation_id nm = old) (new_messages s) = new_messages s"
    using assms(1,3) by (auto simp: filter_empty_conv filter_id_conv)
  have "delete_where (\<lambda>r. nm_conversation_id r = new) (new_messages s) = new_messages s"
    by (rule delete_where_id) (use assms(1,3) in auto)
  then show ?thesis
    by (simp add: new_messages_for_conversation_def select_order_by_def mark_new_messages_read_def
        count_where_def none n)
qed

theorem merge_strands_unread_markers_witness:
  "new_messages_for_conversation ''new'' (fst (merge_contact_into (\<lambda>_. False) ''old'' ''new'' demo_chat)) = []
   \<and> length (new_messages_for_conversation ''old'' demo_chat) = 1"
proof -
  have ok: "merge_contact_into (\<lambda>_. False) ''old'' ''new'' demo_chat =
      (fst (merge_contact_into (\<lambda>_. False) ''old'' ''new'' demo_chat), Inr ())"
    by (simp add: merge_contact_into_def autocommit_ok)
  have "\<forall>r \<in> set (new_messages demo_chat). nm_conversation_id r = ''old''"
    "length (new_messages_for_conversation ''old'' demo_chat) = 1" by code_simp+
  then show ?thesis using merge_strands_unread_markers [OF _ ok] by simp
qed

section \<open>Deleting a conversation\<close>

lemma delete_result:
  assumes "delete_conversation fails c s = (t, Inr n)"
  shows "t = fold (\<lambda>st u. st u) (delete_statements c) s" and "n = rows_of_conversation c s"
proof -
  let ?r = "autocommit fails 0 (delete_statements c) s"
  have r: "t = fst ?r" "and_then (snd ?r) (\<lambda>_. Inr (rows_of_conversation c s)) = Inr n"
    using assms by (simp_all add: delete_conversation_def Let_def case_prod_unfold)
  then have "snd ?r = Inr ()" by (cases "snd ?r") auto
  then show "t = fold (\<lambda>st u. st u) (delete_statements c) s"
    using autocommit_Inr [of fails 0 "delete_statements c" s t] r(1) by (simp add: prod_eq_iff)
  show "n = rows_of_conversation c s" using r(2) \<open>snd ?r = Inr ()\<close> by simp
qed

lemma delete_statements_alt: "delete_statements c =
   [messages_update (delete_where (\<lambda>r. mw_conversation_id r = c)),
    new_messages_update (delete_where (\<lambda>r. nm_conversation_id r = c)),
    pending_peer_messages_update (delete_where (\<lambda>r. pw_conversation_id r = c)),
    event_history_update (delete_where (\<lambda>r. ew_conversation_id r = c)),
    version_vectors_update (delete_where (\<lambda>r. vv_conversation_id r = c)),
    sessions_update (delete_where (\<lambda>r. se_conversation_id r = c)),
    known_peers_update (delete_where (\<lambda>r. kw_conversation_id r = c)),
    contacts_tbl_update (delete_where (\<lambda>r. cw_contact_id r = c))]"
  by (simp add: delete_statements_def clear_statements_def fun_eq_iff)

lemma length_delete_where: "length (delete_where p t) + count_where p t = length t"
  by (simp add: delete_where_def count_where_def sum_length_filter_compl [of p t, symmetric] add.commute)

lemma delete_where_other: "(\<And>r. q r \<Longrightarrow> \<not> p r) \<Longrightarrow> filter q (delete_where p t) = filter q t"
  by (auto simp: delete_where_def intro!: filter_cong)

text \<open>The rows of the tables that hold conversation data.\<close>

definition conversation_rows :: "db \<Rightarrow> nat" where
  "conversation_rows s = length (messages s) + length (new_messages s) + length (pending_peer_messages s)
     + length (event_history s) + length (version_vectors s) + length (sessions s)
     + length (known_peers s) + length (contacts_tbl s)"

text \<open>
  Deleting a conversation leaves no row of it in any table, reports the number of rows that
  went, and keeps history, queue, log, session and contact of every other conversation.
\<close>

theorem delete_conversation_exact:
  assumes "delete_conversation fails c s = (t, Inr n)"
  shows "rows_of_conversation c t = 0 \<and> conversation_rows t + n = conversation_rows s
    \<and> (\<forall>c'. c' \<noteq> c \<longrightarrow> messages_for_conversation c' t = messages_for_conversation c' s
        \<and> pending_peer_message_count c' t = pending_peer_message_count c' s
        \<and> version_vector c' t = version_vector c' s
        \<and> missing_events_for c' [] t = missing_events_for c' [] s
        \<and> rows_of_conversation c' t = rows_of_conversation c' s)"
proof -
  note t = delete_result(1) [OF assms, unfolded delete_statements_alt] and n = delete_result(2) [OF assms]
  have gone: "rows_of_conversation c t = 0" by (simp add: t rows_of_conversation_def)
  have num: "conversation_rows t + n = conversation_rows s"
    unfolding conversation_rows_def n rows_of_conversation_def t
    using length_delete_where [of "\<lambda>r. mw_conversation_id r = c" "messages s"]
      length_delete_where [of "\<lambda>r. nm_conversation_id r = c" "new_messages s"]
      length_delete_where [of "\<lambda>r. pw_conversation_id r = c" "pending_peer_messages s"]
      length_delete_where [of "\<lambda>r. ew_conversation_id r = c" "event_history s"]
      length_delete_where [of "\<lambda>r. vv_conversation_id r = c" "version_vectors s"]
      length_delete_where [of "\<lambda>r. se_conversation_id r = c" "sessions s"]
      length_delete_where [of "\<lambda>r. kw_conversation_id r = c" "known_peers s"]
      length_delete_where [of "\<lambda>r. cw_contact_id r = c" "contacts_tbl s"]
    by simp
  have other: "filter (\<lambda>r. conv r = c') (delete_where (\<lambda>r. conv r = c) rows) = filter (\<lambda>r. conv r = c') rows"
    if "c' \<noteq> c" for conv c' and rows :: "'r list"
    using that by (intro delete_where_other) auto
  show ?thesis using gone num
    by (simp add: t messages_for_conversation_def pending_peer_message_count_def version_vector_def
        missing_events_for_def rows_of_conversation_def select_order_by_def count_where_def delete_where_other)
qed

theorem delete_conversation_exact_witness:
  "\<exists>t. delete_conversation (\<lambda>_. False) ''old'' demo_chat = (t, Inr 4) \<and> rows_of_conversation ''old'' t = 0"
proof -
  have "delete_conversation (\<lambda>_. False) ''old'' demo_chat =
      (fst (delete_conversation (\<lambda>_. False) ''old'' demo_chat), Inr 4)" by code_simp
  with delete_conversation_exact [OF this] show ?thesis by blast
qed

section \<open>The paged contact list\<close>

lemma filter_unique:
  assumes "pk_ok key t"
  shows "filter (\<lambda>r. key r = k) t = (case select_one (\<lambda>r. key r = k) t of None \<Rightarrow> [] | Some r \<Rightarrow> [r])"
  using assms
proof (induction t)
  case (Cons x t)
  then have IH: "filter (\<lambda>r. key r = k) t = (case select_one (\<lambda>r. key r = k) t of None \<Rightarrow> [] | Some r \<Rightarrow> [r])"
    by (simp add: pk_ok_def)
  show ?case
  proof (cases "key x = k")
    case True
    then have "k \<notin> key ` set t" using Cons.prems by (simp add: pk_ok_def)
    then have "filter (\<lambda>r. key r = k) t = []" by (simp add: filter_empty_conv) (metis image_eqI)
    with True show ?thesis by (simp add: select_one_def)
  next
    case False
    with IH show ?thesis by (simp add: select_one_def)
  qed
qed (simp add: select_one_def)

lemma left_join_unique:
  assumes "pk_ok key t"
  shows "left_join (\<lambda>r. key r = k) t = [select_one (\<lambda>r. key r = k) t]"
  using filter_unique [OF assms, of k] by (simp add: left_join_def split: option.splits)

lemma last_message_row_mem: "last_message_row c s = Some r \<Longrightarrow> r \<in> set (messages s)"
proof -
  let ?l = "select_order_by mw_order (\<lambda>r. mw_conversation_id r = c) (messages s)"
  assume "last_message_row c s = Some r"
  then have "r \<in> set (rev ?l)" unfolding last_message_row_def by (cases "rev ?l") auto
  then show ?thesis by simp
qed

lemma left_join_last_message:
  assumes "pk_ok mw_message_id (messages s)"
  shows "left_join (\<lambda>m. Some (mw_message_id m) = map_option mw_message_id (last_message_row c s)) (messages s)
    = [last_message_row c s]"
proof (cases "last_message_row c s")
  case None
  then show ?thesis by (simp add: left_join_def)
next
  case (Some r)
  then have "select_one (\<lambda>m. mw_message_id m = mw_message_id r) (messages s) = Some r"
    using select_one_Some_iff [OF assms] last_message_row_mem by blast
  with Some show ?thesis using left_join_unique [OF assms, of "mw_message_id r"] by simp
qed

lemma concat_map_single: "(\<And>x. f x = [g x]) \<Longrightarrow> concat (map f xs) = map g xs"
  by (induction xs) simp_all

definition summary_row_of :: "db \<Rightarrow> contact_row \<Rightarrow> summary_row" where
  "summary_row_of s c = (c, select_one (\<lambda>kp. kw_conversation_id kp = cw_contact_id c) (known_peers s),
     last_message_row (cw_contact_id c) s,
     count_where (\<lambda>r. pw_conversation_id r = cw_contact_id c) (pending_peer_messages s))"

lemma summary_join_rows:
  assumes "keys_ok s"
  shows "summary_join s = map (summary_row_of s) (contacts_tbl s)"
proof -
  have pk: "pk_ok mw_message_id (messages s)" "pk_ok kw_conversation_id (known_peers s)"
    using assms by (simp_all add: keys_ok_def)
  have "concat (map (\<lambda>kp. map (\<lambda>m. (c, kp, m, n))
        (left_join (\<lambda>m. Some (mw_message_id m) = map_option mw_message_id (last_message_row (cw_contact_id c) s)) (messages s)))
      (left_join (\<lambda>kp. kw_conversation_id kp = cw_contact_id c) (known_peers s)))
    = [(c, select_one (\<lambda>kp. kw_conversation_id kp = cw_contact_id c) (known_peers s), last_message_row (cw_contact_id c) s, n)]"
    for c n by (simp only: left_join_last_message [OF pk(1)] left_join_unique [OF pk(2)]) simp
  then show ?thesis unfolding summary_join_def summary_row_of_def by (rule concat_map_single)
qed

lemma chat_summary_from_summary_row:
  "chat_summary_from_row (summary_row_of s c) = chat_summary_of s (contact_from_row c)"
  by (simp add: chat_summary_from_row_def summary_row_of_def chat_summary_of_def contact_from_row_def
      last_message_for_conversation_def pending_peer_message_count_def known_peer_for_conversation_def
      option.map_comp comp_def known_peer_from_row_def)

text \<open>The rows of the paged query, before they are cut into pages.\<close>

definition summary_rows :: "db \<Rightarrow> summary_row list" where
  "summary_rows s = sort_key summary_order (summary_join s)"

lemma summary_rows_mset:
  assumes "keys_ok s"
  shows "mset (map chat_summary_from_row (summary_rows s)) = mset (chat_summaries s)"
  unfolding summary_rows_def
  by (simp add: summary_join_rows [OF assms] chat_summary_from_summary_row chat_summaries_def contacts_def select_order_by_def
      multiset.map_comp comp_def)

lemma chat_summaries_page_rows:
  assumes "unat limit < 2 ^ 63" "unat offset < 2 ^ 63"
  shows "chat_summaries_page limit offset s = take (unat limit) (drop (unat offset) (map chat_summary_from_row (summary_rows s)))"
  using as_i64_small [OF assms(1)] as_i64_small [OF assms(2)]
  by (simp add: summary_rows_def chat_summaries_page_def limit_offset_def select_order_by_def take_map drop_map
      flip: unat_eq_nat_uint)

lemma summary_count_rows:
  assumes "keys_ok s"
  shows "chat_summary_count s = length (summary_rows s)"
proof -
  have "length (summary_rows s) = length (chat_summaries s)"
    using arg_cong [OF summary_rows_mset [OF assms], of size] by simp
  then show ?thesis by (simp add: chat_summary_count_def chat_summaries_def contacts_def select_order_by_def count_where_def)
qed

text \<open>
  The paged query of the contact list returns slices of one list, sorted by latest activity,
  that holds exactly the summaries the simple listing computes contact by contact: no chat is
  missing from the pages or shown twice.
\<close>

theorem chat_summaries_page_complete:
  assumes "keys_ok s"
  shows "\<exists>rows. sorted (map summary_order rows)
    \<and> mset (map chat_summary_from_row rows) = mset (chat_summaries s)
    \<and> (\<forall>limit offset. unat limit < 2 ^ 63 \<longrightarrow> unat offset < 2 ^ 63 \<longrightarrow>
         chat_summaries_page limit offset s = take (unat limit) (drop (unat offset) (map chat_summary_from_row rows)))"
proof (intro exI conjI allI impI)
  show "sorted (map summary_order (summary_rows s))" by (simp add: summary_rows_def)
qed (use summary_rows_mset [OF assms] chat_summaries_page_rows in simp_all)

theorem chat_summaries_page_complete_witness:
  "\<exists>rows. mset (map chat_summary_from_row rows) = mset (chat_summaries demo_chat)
     \<and> chat_summaries_page 1 0 demo_chat = take 1 (map chat_summary_from_row rows)
     \<and> length (chat_summaries demo_chat) = 1"
proof -
  have "keys_ok demo_chat" using init_db_ok unfolding demo_chat_def by (simp add: keys_ok_simple db_ok_def)
  from chat_summaries_page_complete [OF this] obtain rows where
    r: "mset (map chat_summary_from_row rows) = mset (chat_summaries demo_chat)"
    "\<forall>limit offset. unat limit < 2 ^ 63 \<longrightarrow> unat offset < 2 ^ 63 \<longrightarrow>
       chat_summaries_page limit offset demo_chat = take (unat limit) (drop (unat offset) (map chat_summary_from_row rows))"
    by blast
  have "chat_summaries_page 1 0 demo_chat = take (unat (1 :: u64)) (drop (unat (0 :: u64)) (map chat_summary_from_row rows))"
    using r(2) [THEN spec [of _ 1], THEN spec [of _ 0]] by simp
  moreover have "length (chat_summaries demo_chat) = 1" by code_simp
  ultimately show ?thesis using r(1) by auto
qed

end
