(* ===== verification/EventSync.thy ===== *)
theory EventSync
  imports StorageInv Crdt
begin

text \<open>
  Synchronising the event logs of two replicas (\<^verbatim>\<open>Storage::version_vector\<close>,
  \<^verbatim>\<open>missing_events_for\<close> and \<^verbatim>\<open>append_events\<close>, as \<^verbatim>\<open>sync_authorized_sibling_devices\<close> of
  \<^verbatim>\<open>src/src/main.rs\<close> composes them).  The locale \<open>event_replica\<close> states what the
  synchronisation relies on; it is interpreted on the client database, for every conversation.
\<close>

section \<open>The contract of a replica\<close>

text \<open>
  \<open>entries\<close> are the events of a replica, \<open>relevant\<close> those a synchronisation carries and \<open>pos\<close>
  their global positions.  Two sets of events are compatible when a position names one event.
\<close>

definition compatible :: "('e \<Rightarrow> 'p) \<Rightarrow> 'e set \<Rightarrow> bool" where
  "compatible pos E \<longleftrightarrow> inj_on pos E"

locale event_replica =
  fixes entries :: "'s \<Rightarrow> 'e set" and pos :: "'e \<Rightarrow> 'p" and relevant :: "'e \<Rightarrow> bool"
    and good :: "'s \<Rightarrow> bool" and vector :: "'s \<Rightarrow> 'v"
    and missing :: "'v \<Rightarrow> 's \<Rightarrow> 'e list" and append :: "'e list \<Rightarrow> 's \<Rightarrow> 's"
  assumes good_append: "good s \<Longrightarrow> good (append es s)"
    and entries_append: "good s \<Longrightarrow> compatible pos (entries s \<union> set es) \<Longrightarrow> entries (append es s) = entries s \<union> set es"
    and missing_sound: "e \<in> set (missing v s) \<Longrightarrow> e \<in> entries s \<and> relevant e"
    and missing_complete: "good t \<Longrightarrow> compatible pos (entries s \<union> entries t) \<Longrightarrow> e \<in> entries s \<Longrightarrow> relevant e
      \<Longrightarrow> e \<notin> set (missing (vector t) s) \<Longrightarrow> e \<in> entries t"
begin

definition pull :: "'s \<Rightarrow> 's \<Rightarrow> 's" where
  "pull t s = append (missing (vector t) s) t"

lemma compatible_subset: "compatible pos E \<Longrightarrow> F \<subseteq> E \<Longrightarrow> compatible pos F"
  unfolding compatible_def by (rule inj_on_subset)

lemma entries_pull_between:
  assumes "good t" "compatible pos (entries s \<union> entries t)"
  shows "entries t \<subseteq> entries (pull t s)" "entries (pull t s) \<subseteq> entries s \<union> entries t" "good (pull t s)"
proof -
  have sub: "set (missing (vector t) s) \<subseteq> entries s" using missing_sound by blast
  then have "compatible pos (entries t \<union> set (missing (vector t) s))"
    using assms(2) by (auto intro: compatible_subset)
  then have "entries (pull t s) = entries t \<union> set (missing (vector t) s)"
    unfolding pull_def by (rule entries_append [OF assms(1)])
  then show "entries t \<subseteq> entries (pull t s)" "entries (pull t s) \<subseteq> entries s \<union> entries t"
    using sub by auto
  show "good (pull t s)" using assms(1) good_append by (simp add: pull_def)
qed

lemma relevant_pull:
  assumes "good t" "compatible pos (entries s \<union> entries t)"
  shows "{e \<in> entries (pull t s). relevant e} = {e \<in> entries s \<union> entries t. relevant e}"
proof -
  have "e \<in> entries (pull t s)" if "e \<in> entries s" "relevant e" for e
  proof (cases "e \<in> set (missing (vector t) s)")
    case True
    have "compatible pos (entries t \<union> set (missing (vector t) s))"
      using assms(2) missing_sound by (auto intro: compatible_subset)
    then show ?thesis using entries_append [OF assms(1)] True by (simp add: pull_def)
  next
    case False
    then have "e \<in> entries t" using missing_complete assms that by blast
    then show ?thesis using entries_pull_between assms by blast
  qed
  then show ?thesis using entries_pull_between [OF assms] by blast
qed

text \<open>After a pull in each direction both replicas hold the union.\<close>

lemma exchange_converges:
  assumes "good s" "good t" "compatible pos (entries s \<union> entries t)"
  defines "t' \<equiv> pull t s"
  defines "s' \<equiv> pull s t'"
  shows "{e \<in> entries s'. relevant e} = {e \<in> entries s \<union> entries t. relevant e}"
    and "{e \<in> entries t'. relevant e} = {e \<in> entries s \<union> entries t. relevant e}"
proof -
  show t': "{e \<in> entries t'. relevant e} = {e \<in> entries s \<union> entries t. relevant e}"
    unfolding t'_def by (rule relevant_pull [OF assms(2,3)])
  have "compatible pos (entries t' \<union> entries s)"
    using assms(3) entries_pull_between [OF assms(2,3)] unfolding t'_def by (auto intro: compatible_subset)
  from relevant_pull [OF assms(1) this] t'
  show "{e \<in> entries s'. relevant e} = {e \<in> entries s \<union> entries t. relevant e}"
    unfolding s'_def by blast
qed

end

section \<open>The client database is a replica\<close>

definition all_events :: "db \<Rightarrow> event_record set" where
  "all_events s = event_from_row ` set (event_history s)"

definition syncable :: "string \<Rightarrow> event_record \<Rightarrow> bool" where
  "syncable c e \<longleftrightarrow> ev_conversation_id e = c \<and> ev_counter e \<noteq> 0"

abbreviation no_failures :: "nat \<Rightarrow> nat \<Rightarrow> bool" where
  "no_failures \<equiv> \<lambda>_ _. False"

definition receive_events :: "event_record list \<Rightarrow> db \<Rightarrow> db" where
  "receive_events es s = fst (append_events no_failures es s)"

lemma append_event_ok:
  "append_event (\<lambda>_. False) e s =
     (refresh_vector_for_device (ev_conversation_id e) (ev_device_id e) (stmt_insert_event e s),
      Inr (\<not> has_key ew_key (ew_key (event_to_row e)) (event_history s)))"
  by (simp add: append_event_def insert_or_ignore_def)

lemma append_events_from_ok:
  "fst (append_events_from no_failures i n es s) = fold (\<lambda>e u. fst (append_event (\<lambda>_. False) e u)) es s"
  by (induction es arbitrary: i n s) (simp_all add: append_event_ok)

lemma receive_events_fold: "receive_events es s = fold (\<lambda>e u. fst (append_event (\<lambda>_. False) e u)) es s"
  by (simp add: receive_events_def append_events_def append_events_from_ok)

lemma event_history_refresh [simp]: "event_history (refresh_vector_for_device c d s) = event_history s"
  by (simp add: refresh_vector_for_device_def Let_def)

lemma ew_key_event_to_row: "ew_key (event_to_row e) = (ev_device_id e, as_i64 (ev_counter e))"
  by (simp add: ew_key_def event_to_row_def)

lemma has_position_iff:
  assumes "events_encoded s"
  shows "has_key ew_key (ew_key (event_to_row e)) (event_history s) \<longleftrightarrow> ev_position e \<in> ev_position ` all_events s"
proof -
  have "ew_key r = ew_key (event_to_row e) \<longleftrightarrow> ev_position e = ev_position (event_from_row r)"
    if "r \<in> set (event_history s)" for r
  proof -
    have "r = event_to_row (event_from_row r)" using assms that by (simp add: events_encoded_def)
    then have "ew_key r = (ev_device_id (event_from_row r), as_i64 (ev_counter (event_from_row r)))"
      using ew_key_event_to_row by metis
    then show ?thesis by (auto simp: ew_key_event_to_row ev_position_def)
  qed
  then show ?thesis by (auto simp: has_key_def all_events_def)
qed

lemma all_events_append_event:
  assumes "events_encoded s"
  shows "all_events (fst (append_event (\<lambda>_. False) e s)) =
    (if ev_position e \<in> ev_position ` all_events s then all_events s else insert e (all_events s))"
  using has_position_iff [OF assms, of e]
  by (simp add: append_event_ok all_events_def stmt_insert_event_def sql_simps)

lemma all_events_receive:
  assumes "events_encoded s" "compatible ev_position (all_events s \<union> set es)"
  shows "all_events (receive_events es s) = all_events s \<union> set es"
  using assms unfolding receive_events_fold
proof (induction es arbitrary: s)
  case (Cons e es)
  let ?s = "fst (append_event (\<lambda>_. False) e s)"
  have "all_events ?s = insert e (all_events s)"
    using Cons.prems all_events_append_event [of s e] by (auto simp: compatible_def inj_on_def)
  then show ?case
    using Cons.IH [of ?s] Cons.prems events_encoded_append_event by (simp add: Un_commute)
qed simp

lemma bt_get_version_vector:
  assumes "bt_get (version_vector c s) d = Some k"
  shows "\<exists>v \<in> set (version_vectors s). vv_conversation_id v = c \<and> vv_device_id v = d
    \<and> k = as_u64 (vv_contiguous_counter v)"
proof -
  define ps where "ps = map (\<lambda>r. (vv_device_id r, as_u64 (vv_contiguous_counter r)))
       (select_order_by vv_device_id (\<lambda>r. vv_conversation_id r = c) (version_vectors s))"
  have "bt_get (version_vector c s) d = (bt_get [] ++ map_of (rev ps)) d"
    unfolding version_vector_def bt_collect_def ps_def by (rule fun_cong [OF bt_collect_fold(2)])
  then have "map_of (rev ps) d = Some k" using assms by (auto simp: map_add_def split: option.splits)
  then have "(d, k) \<in> set ps" by (metis map_of_SomeD set_rev)
  then show ?thesis by (auto simp: ps_def)
qed

lemma set_missing_events_for:
  "set (missing_events_for c v s) = {e \<in> all_events s. ev_conversation_id e = c
     \<and> ev_counter e > (case bt_get v (ev_device_id e) of None \<Rightarrow> 0 | Some k \<Rightarrow> k)}"
  by (auto simp: missing_events_for_def all_events_def event_from_row_def)

lemma has_event_all_events:
  assumes "has_event s c d k"
  shows "\<exists>e \<in> all_events s. ev_conversation_id e = c \<and> ev_position e = (d, k)"
  using assms by (force simp: has_event_def all_events_def ev_position_def event_from_row_def)

lemma db_ok_receive: "db_ok s \<Longrightarrow> db_ok (fst (append_events fls es s))"
  unfolding append_events_def
  by (rule append_events_inv [where P = db_ok])
     (use keys_ok_append_event vectors_sound_append_event in \<open>auto simp: db_ok_def\<close>)

lemma one_le_iff: "1 \<le> k \<longleftrightarrow> k \<noteq> (0 :: u64)"
  using unat_gt_0 [of k] by (simp add: word_le_nat_alt Suc_le_eq)

lemma missing_events_for_complete:
  assumes ok: "db_ok t" and cp: "compatible ev_position (all_events s \<union> all_events t)"
    and e: "e \<in> all_events s" and sy: "syncable c e"
    and ms: "e \<notin> set (missing_events_for c (version_vector c t) s)"
  shows "e \<in> all_events t"
proof -
  let ?k = "ev_counter e" and ?d = "ev_device_id e"
  have c: "ev_conversation_id e = c" and pos: "1 \<le> ?k" using sy by (auto simp: syncable_def one_le_iff)
  have nle: "\<not> (case bt_get (version_vector c t) ?d of None \<Rightarrow> 0 | Some k \<Rightarrow> k) < ?k"
    using ms e c by (simp add: set_missing_events_for)
  moreover have "\<not> ?k \<le> 0" using pos by (auto simp: one_le_iff)
  ultimately obtain k where k: "bt_get (version_vector c t) ?d = Some k" "?k \<le> k"
    by (cases "bt_get (version_vector c t) ?d") (simp_all add: not_less)
  obtain v where v: "v \<in> set (version_vectors t)" "vv_conversation_id v = c" "vv_device_id v = ?d"
    "k = as_u64 (vv_contiguous_counter v)" using bt_get_version_vector [OF k(1)] by blast
  have "has_event t c ?d ?k"
    using ok pos k(2) v unfolding db_ok_def vectors_sound_def by metis
  then obtain e' where e': "e' \<in> all_events t" "ev_position e' = (?d, ?k)"
    using has_event_all_events by blast
  then have "ev_position e' = ev_position e" by (simp add: ev_position_def)
  with e'(1) show ?thesis using cp e unfolding compatible_def by (metis UnCI inj_onD)
qed

interpretation storage_replica: event_replica all_events ev_position "syncable c" db_ok
  "version_vector c" "missing_events_for c" receive_events for c
proof
  show "db_ok (receive_events es s)" if "db_ok s" for s es
    using db_ok_receive that by (simp add: receive_events_def)
  show "all_events (receive_events es s) = all_events s \<union> set es"
    if "db_ok s" "compatible ev_position (all_events s \<union> set es)" for s es
    using all_events_receive that by (simp add: db_ok_def)
  show "e \<in> all_events s \<and> syncable c e" if "e \<in> set (missing_events_for c v s)" for e v s
    using that by (auto simp: set_missing_events_for syncable_def split: option.splits)
qed (rule missing_events_for_complete)

section \<open>The exchange between sibling devices\<close>

record sync_event =
  sy_device_id :: string
  sy_counter :: u64
  sy_conversation_id :: string
  sy_event_type :: string
  sy_message_id :: "string option"
  sy_payload :: bytes
  sy_created_at :: u64

definition sync_event_from :: "event_record \<Rightarrow> sync_event" where
  "sync_event_from e =
     \<lparr>sy_device_id = ev_device_id e, sy_counter = ev_counter e, sy_conversation_id = ev_conversation_id e,
      sy_event_type = ev_event_type e, sy_message_id = ev_message_id e, sy_payload = ev_payload e,
      sy_created_at = ev_created_at e\<rparr>"

definition event_record_from :: "sync_event \<Rightarrow> event_record" where
  "event_record_from e =
     \<lparr>ev_device_id = sy_device_id e, ev_counter = sy_counter e, ev_conversation_id = sy_conversation_id e,
      ev_event_type = sy_event_type e, ev_message_id = sy_message_id e, ev_payload = sy_payload e,
      ev_created_at = sy_created_at e\<rparr>"

datatype sync_error = SyncStorage storage_error | SyncDecode

text \<open>\<open>ser\<close> and \<open>de\<close> are \<^verbatim>\<open>bincode::serialize\<close> and \<^verbatim>\<open>deserialize\<close> on a \<^verbatim>\<open>SyncResponse\<close>.\<close>

definition send_missing ::
    "(sync_event list \<Rightarrow> 'w) \<Rightarrow> ('w \<Rightarrow> sync_event list option) \<Rightarrow> (nat \<Rightarrow> nat \<Rightarrow> bool) \<Rightarrow> string
      \<Rightarrow> db \<Rightarrow> db \<Rightarrow> db \<times> (sync_error + event_record list)" where
  "send_missing ser de fails c sender receiver =
     (let request = version_vector c receiver;
          response = map sync_event_from (missing_events_for c request sender)
      in case de (ser response) of
           None \<Rightarrow> (receiver, Inl SyncDecode)
         | Some decoded \<Rightarrow>
             let es = map event_record_from decoded
             in (case append_events fails es receiver of
                   (receiver', Inl e) \<Rightarrow> (receiver', Inl (SyncStorage e))
                 | (receiver', Inr n) \<Rightarrow> (receiver', Inr es)))"

definition exchange_events ::
    "(sync_event list \<Rightarrow> 'w) \<Rightarrow> ('w \<Rightarrow> sync_event list option) \<Rightarrow> (nat \<Rightarrow> nat \<Rightarrow> bool)
      \<Rightarrow> (nat \<Rightarrow> nat \<Rightarrow> bool) \<Rightarrow> string \<Rightarrow> db \<Rightarrow> db
      \<Rightarrow> db \<times> db \<times> (sync_error + event_record list \<times> event_record list)" where
  "exchange_events ser de fails_right fails_left c left right =
     (case send_missing ser de fails_right c left right of
        (right', Inl e) \<Rightarrow> (left, right', Inl e)
      | (right', Inr left_to_right) \<Rightarrow>
          (case send_missing ser de fails_left c right' left of
             (left', Inl e) \<Rightarrow> (left', right', Inl e)
           | (left', Inr right_to_left) \<Rightarrow> (left', right', Inr (left_to_right, right_to_left))))"

lemma sync_event_round_trip [simp]: "event_record_from (sync_event_from e) = e"
  by (simp add: event_record_from_def sync_event_from_def)

lemma append_events_from_no_failures: "\<exists>n. append_events_from no_failures i m es s = (receive_events es s, Inr n)"
  unfolding receive_events_fold by (induction es arbitrary: i m s) (simp_all add: append_event_ok)

lemma send_missing_ok:
  assumes "\<And>x. de (ser x) = Some x"
  shows "send_missing ser de no_failures c s t =
    (storage_replica.pull c t s, Inr (missing_events_for c (version_vector c t) s))"
proof -
  let ?es = "missing_events_for c (version_vector c t) s"
  obtain n where "append_events no_failures ?es t = (receive_events ?es t, Inr n)"
    using append_events_from_no_failures unfolding append_events_def by blast
  then show ?thesis
    by (simp add: send_missing_def Let_def assms storage_replica.pull_def comp_def)
qed

text \<open>The log that is materialised is determined by the set of its events.\<close>

lemma missing_events_all:
  assumes "events_encoded s"
  shows "missing_events_for c [] s = map event_from_row
      (filter (\<lambda>r. as_u64 (ew_counter r) \<noteq> 0) (select_order_by ew_key (\<lambda>r. ew_conversation_id r = c) (event_history s)))"
    and "set (filter (\<lambda>r. as_u64 (ew_counter r) \<noteq> 0) (select_order_by ew_key (\<lambda>r. ew_conversation_id r = c) (event_history s)))
      = event_to_row ` {e \<in> all_events s. syncable c e}"
proof -
  show "missing_events_for c [] s = map event_from_row
      (filter (\<lambda>r. as_u64 (ew_counter r) \<noteq> 0) (select_order_by ew_key (\<lambda>r. ew_conversation_id r = c) (event_history s)))"
    by (simp add: missing_events_for_def filter_map comp_def word_gt_0 event_from_row_def)
  have "r \<in> event_to_row ` {e \<in> all_events s. syncable c e}"
    if "r \<in> set (event_history s)" "ew_conversation_id r = c" "as_u64 (ew_counter r) \<noteq> 0" for r
  proof (rule image_eqI [of _ _ "event_from_row r"])
    show "r = event_to_row (event_from_row r)" using assms that(1) by (simp add: events_encoded_def)
    show "event_from_row r \<in> {e \<in> all_events s. syncable c e}"
      using that by (simp add: all_events_def syncable_def) (simp add: event_from_row_def)
  qed
  moreover have "r \<in> set (event_history s) \<and> ew_conversation_id r = c \<and> as_u64 (ew_counter r) \<noteq> 0"
    if r: "r \<in> event_to_row ` {e \<in> all_events s. syncable c e}" for r
  proof -
    from r obtain q where q: "q \<in> set (event_history s)" "r = event_to_row (event_from_row q)"
      "syncable c (event_from_row q)" by (auto simp: all_events_def)
    then have "r = q" using assms by (simp add: events_encoded_def)
    with q show ?thesis by (simp add: syncable_def) (simp add: event_from_row_def)
  qed
  ultimately show "set (filter (\<lambda>r. as_u64 (ew_counter r) \<noteq> 0) (select_order_by ew_key (\<lambda>r. ew_conversation_id r = c) (event_history s)))
      = event_to_row ` {e \<in> all_events s. syncable c e}" by auto
qed

lemma log_determined:
  assumes "db_ok s" "db_ok t" "{e \<in> all_events s. syncable c e} = {e \<in> all_events t. syncable c e}"
  shows "missing_events_for c [] s = missing_events_for c [] t"
proof -
  let ?rows = "\<lambda>s. filter (\<lambda>r. as_u64 (ew_counter r) \<noteq> 0)
    (select_order_by ew_key (\<lambda>r. ew_conversation_id r = c) (event_history s))"
  have srt: "sorted (map ew_key (?rows s)) \<and> distinct (map ew_key (?rows s))" if "db_ok s" for s
  proof -
    have "distinct (map ew_key (sort_key ew_key (filter (\<lambda>r. ew_conversation_id r = c) (event_history s))))"
      using that by (simp add: db_ok_def keys_ok_def pk_ok_def distinct_map inj_on_def)
    then show ?thesis by (simp add: select_order_by_def sorted_filter distinct_map_filter)
  qed
  have eq: "set (?rows s) = set (?rows t)"
    using missing_events_all(2) [of s c] missing_events_all(2) [of t c] assms by (simp only: db_ok_def)
  have "inj_on ew_key (set (?rows s) \<union> set (?rows t))"
    using srt [OF assms(1)] eq by (simp add: distinct_map)
  then have "?rows s = ?rows t"
    using srt [OF assms(1)] srt [OF assms(2)] eq by (intro map_sorted_distinct_set_unique) auto
  then show ?thesis using missing_events_all(1) [of s c] missing_events_all(1) [of t c] assms
    by (simp only: db_ok_def)
qed

lemma exchange_outcome:
  fixes c :: string
  assumes "db_ok left" "db_ok right" "inj_on ev_position (all_events left \<union> all_events right)"
    and "\<And>x. de (ser x) = Some x"
  defines "right' \<equiv> storage_replica.pull c right left"
  defines "left' \<equiv> storage_replica.pull c left right'"
  shows "exchange_events ser de no_failures no_failures c left right = (left', right',
      Inr (missing_events_for c (version_vector c right) left, missing_events_for c (version_vector c left) right'))"
    and "set (missing_events_for c [] left') = set (missing_events_for c [] left) \<union> set (missing_events_for c [] right)"
    and "missing_events_for c [] left' = missing_events_for c [] right'" "db_ok left'" "db_ok right'"
proof -
  have cp: "compatible ev_position (all_events left \<union> all_events right)" using assms(3) by (simp add: compatible_def)
  show "exchange_events ser de no_failures no_failures c left right = (left', right',
      Inr (missing_events_for c (version_vector c right) left, missing_events_for c (version_vector c left) right'))"
    by (simp add: exchange_events_def send_missing_ok assms(4) left'_def right'_def)
  show ok: "db_ok left'" "db_ok right'"
    using db_ok_receive assms(1,2) by (simp_all add: left'_def right'_def storage_replica.pull_def receive_events_def)
  have same: "{e \<in> all_events left'. syncable c e} = {e \<in> all_events left \<union> all_events right. syncable c e}"
    "{e \<in> all_events right'. syncable c e} = {e \<in> all_events left \<union> all_events right. syncable c e}"
    unfolding left'_def right'_def
    by (rule storage_replica.exchange_converges [OF assms(1,2) cp])+
  then show "missing_events_for c [] left' = missing_events_for c [] right'"
    by (intro log_determined ok) simp
  have sets: "set (missing_events_for c [] s) = {e \<in> all_events s. syncable c e}" for s
    by (auto simp: set_missing_events_for syncable_def word_gt_0)
  show "set (missing_events_for c [] left') = set (missing_events_for c [] left) \<union> set (missing_events_for c [] right)"
    unfolding sets same by blast
qed

text \<open>
  C5: the exchange between two replicas whose databases are sound and whose events agree on
  their positions succeeds, after it both hold the union of their conversation logs, list them
  identically, and so materialise the same conversation.
\<close>

theorem exchange_events_converges:
  assumes "db_ok left" "db_ok right" "inj_on ev_position (all_events left \<union> all_events right)"
    and "\<And>x. de (ser x) = Some x"
  shows "\<exists>left' right' trip. exchange_events ser de no_failures no_failures c left right = (left', right', Inr trip)
    \<and> set (missing_events_for c [] left') = set (missing_events_for c [] left) \<union> set (missing_events_for c [] right)
    \<and> missing_events_for c [] left' = missing_events_for c [] right'
    \<and> materialize_conversation dec (missing_events_for c [] left') =
       materialize_conversation dec (missing_events_for c [] right')
    \<and> db_ok left' \<and> db_ok right'"
  using exchange_outcome [OF assms(1-3), of de ser, OF assms(4), of c] by auto

definition demo_log :: "string \<Rightarrow> u64 list \<Rightarrow> db" where
  "demo_log d ks = receive_events (map (\<lambda>k. \<lparr>ev_device_id = d, ev_counter = k, ev_conversation_id = ''c'',
     ev_event_type = ''message_created'', ev_message_id = None, ev_payload = [], ev_created_at = 5\<rparr>) ks) init_db"

lemma demo_log_ok: "db_ok (demo_log d ks)"
  unfolding demo_log_def receive_events_def by (rule db_ok_receive [OF init_db_ok])

theorem exchange_events_converges_witness:
  "\<exists>left' right' trip.
     exchange_events (\<lambda>x. x) Some no_failures no_failures ''c'' (demo_log ''A'' [1, 2]) (demo_log ''B'' [1])
       = (left', right', Inr trip)
     \<and> map ev_position (missing_events_for ''c'' [] right') = [(''A'', 1), (''A'', 2), (''B'', 1)]"
proof -
  have "inj_on ev_position (all_events (demo_log ''A'' [1, 2]) \<union> all_events (demo_log ''B'' [1]))"
    by code_simp
  from exchange_events_converges [OF demo_log_ok demo_log_ok this, of Some "\<lambda>x. x" "''c''"]
  obtain left' right' trip where run: "exchange_events (\<lambda>x. x) Some no_failures no_failures ''c''
      (demo_log ''A'' [1, 2]) (demo_log ''B'' [1]) = (left', right', Inr trip)" by blast
  then have "right' = fst (snd (exchange_events (\<lambda>x. x) Some no_failures no_failures ''c''
      (demo_log ''A'' [1, 2]) (demo_log ''B'' [1])))" by simp
  moreover have "map ev_position (missing_events_for ''c'' [] (fst (snd (exchange_events (\<lambda>x. x) Some
      no_failures no_failures ''c'' (demo_log ''A'' [1, 2]) (demo_log ''B'' [1]))))) =
      [(''A'', 1), (''A'', 2), (''B'', 1)]" by code_simp
  ultimately have "map ev_position (missing_events_for ''c'' [] right') = [(''A'', 1), (''A'', 2), (''B'', 1)]"
    by simp
  with run show ?thesis by (intro exI conjI)
qed

section \<open>How far the vectors reach\<close>

lemma uint_succ:
  assumes "uint c < 2 ^ 63"
  shows "uint (c + (1 :: u64)) = uint c + 1"
proof -
  have "uint (c + 1) = (uint c + 1) mod 2 ^ 64" by (simp add: uint_word_ariths)
  moreover have "(uint c + 1) mod 2 ^ 64 = uint c + 1"
    by (rule mod_pos_pos_trivial) (use assms in \<open>simp_all add: add_nonneg_nonneg\<close>)
  ultimately show ?thesis by simp
qed

lemma contiguous_from_maximal:
  assumes "sorted xs" "\<forall>x \<in> set xs. 0 \<le> x \<and> x < 2 ^ 63" "uint c < 2 ^ 63"
  shows "uint c \<le> uint (contiguous_from c xs) \<and> uint (contiguous_from c xs) < 2 ^ 63
    \<and> uint (contiguous_from c xs) + 1 \<notin> set xs"
  using assms
proof (induction xs arbitrary: c)
  case (Cons x xs)
  have x: "0 \<le> x" "x < 2 ^ 63" and xs: "sorted xs" "\<forall>x \<in> set xs. 0 \<le> x \<and> x < 2 ^ 63"
    and min: "\<forall>y \<in> set xs. x \<le> y" using Cons.prems(1,2) by simp_all
  note ux = uint_as_u64 [OF x] and uc = uint_succ [OF Cons.prems(3)]
  consider (eq) "as_u64 x = c + 1" "x = uint c + 1"
    | (gt) "as_u64 x \<noteq> c + 1" "as_u64 x > c + 1" "x > uint c + 1"
    | (le) "as_u64 x \<noteq> c + 1" "\<not> as_u64 x > c + 1" "x \<le> uint c"
  proof (cases "x = uint c + 1")
    case True
    then have "as_u64 x = c + 1" using ux uc by (simp only: word_uint_eq_iff)
    with True show ?thesis using eq by blast
  next
    case False
    then have "as_u64 x \<noteq> c + 1" using ux uc by auto
    moreover have "as_u64 x > c + 1 \<longleftrightarrow> x > uint c + 1" using ux uc by (simp only: word_less_def)
    moreover have "x > uint c + 1 \<or> x \<le> uint c" using False by linarith
    ultimately show ?thesis using gt le by linarith
  qed
  then show ?case
  proof cases
    case eq
    then have "uint (c + 1) < 2 ^ 63" using uc x by simp
    from Cons.IH [OF xs this] show ?thesis using eq uc by auto
  next
    case gt
    then have "contiguous_from c (x # xs) = c" by (simp add: Let_def)
    then show ?thesis using gt(3) min Cons.prems(3) by auto
  next
    case le
    then have "contiguous_from c (x # xs) = contiguous_from c xs" by (simp add: Let_def)
    then show ?thesis using le(3) Cons.IH [OF xs Cons.prems(3)] by auto
  qed
qed simp

lemma version_vector_lookup:
  assumes "keys_ok s" "v \<in> set (version_vectors s)"
  shows "bt_get (version_vector (vv_conversation_id v) s) (vv_device_id v) = Some (as_u64 (vv_contiguous_counter v))"
proof -
  define ps where "ps = map (\<lambda>r. (vv_device_id r, as_u64 (vv_contiguous_counter r)))
    (select_order_by vv_device_id (\<lambda>r. vv_conversation_id r = vv_conversation_id v) (version_vectors s))"
  have "(vv_device_id v, as_u64 (vv_contiguous_counter v)) \<in> set (rev ps)"
    using assms(2) by (auto simp: ps_def)
  then obtain k where "map_of (rev ps) (vv_device_id v) = Some k" by (meson weak_map_of_SomeI)
  moreover have "bt_get (version_vector (vv_conversation_id v) s) (vv_device_id v) =
      (bt_get [] ++ map_of (rev ps)) (vv_device_id v)"
    unfolding version_vector_def bt_collect_def ps_def by (rule fun_cong [OF bt_collect_fold(2)])
  ultimately have k: "bt_get (version_vector (vv_conversation_id v) s) (vv_device_id v) = Some k"
    by (simp add: map_add_Some_iff)
  then obtain w where w: "w \<in> set (version_vectors s)" "vv_key w = vv_key v" "k = as_u64 (vv_contiguous_counter w)"
    using bt_get_version_vector [OF k] by (auto simp: vv_key_def)
  then have "w = v" using assms by (auto simp: keys_ok_def pk_ok_def distinct_map inj_on_def)
  with k w(3) show ?thesis by simp
qed

lemma refreshed_lookup:
  assumes "keys_ok s"
  shows "bt_get (version_vector c (refresh_vector_for_device c d s)) d =
    Some (contiguous_from 0 (map ew_counter (select_order_by ew_counter
       (\<lambda>r. ew_conversation_id r = c \<and> ew_device_id r = d) (event_history s))))"
proof -
  let ?v = "\<lparr>vv_conversation_id = c, vv_device_id = d, vv_contiguous_counter = as_i64 (contiguous_from 0
     (map ew_counter (select_order_by ew_counter
       (\<lambda>r. ew_conversation_id r = c \<and> ew_device_id r = d) (event_history s))))\<rparr>"
  have "?v \<in> set (version_vectors (refresh_vector_for_device c d s))"
    by (auto simp: refresh_vector_for_device_def Let_def upsert_def has_key_def image_iff)
  from version_vector_lookup [OF keys_ok_stmts(8) [OF assms] this] show ?thesis by simp
qed

lemma as_i64_nonneg:
  assumes "0 \<le> as_i64 k"
  shows "as_i64 k = uint k"
proof -
  have "unat k < 2 ^ 63" using as_i64_neg [of k] assms by force
  then show ?thesis using as_i64_small [of k] by simp
qed

lemma encoded_counter:
  assumes "events_encoded s" "r \<in> set (event_history s)"
  shows "ew_counter r = as_i64 (ev_counter (event_from_row r))"
proof -
  have "r = event_to_row (event_from_row r)" using assms by (simp add: events_encoded_def)
  then have "ew_counter r = ew_counter (event_to_row (event_from_row r))" by simp
  then show ?thesis by (simp add: event_to_row_def)
qed

lemma encoded_counter_small:
  assumes "events_encoded s" "\<forall>x \<in> all_events s. unat (ev_counter x) < 2 ^ 63" "r \<in> set (event_history s)"
  shows "0 \<le> ew_counter r \<and> ew_counter r < 2 ^ 63"
proof -
  have "unat (ev_counter (event_from_row r)) < 2 ^ 63" using assms(2,3) by (simp add: all_events_def)
  then have "int (unat (ev_counter (event_from_row r))) < 2 ^ 63"
    by (metis of_nat_less_iff of_nat_numeral of_nat_power)
  moreover have "ew_counter r = int (unat (ev_counter (event_from_row r)))"
    using encoded_counter [OF assms(1,3)] as_i64_small \<open>unat _ < _\<close> by simp
  ultimately show ?thesis by simp
qed

lemma refresh_next_absent:
  assumes "events_encoded s" "\<forall>x \<in> all_events s. unat (ev_counter x) < 2 ^ 63"
  shows "\<not> has_event s c d (contiguous_from 0 (map ew_counter (select_order_by ew_counter
       (\<lambda>r. ew_conversation_id r = c \<and> ew_device_id r = d) (event_history s))) + 1)"
proof
  define xs where "xs = map ew_counter (select_order_by ew_counter
       (\<lambda>r. ew_conversation_id r = c \<and> ew_device_id r = d) (event_history s))"
  define n where "n = contiguous_from 0 xs"
  assume "has_event s c d (contiguous_from 0 (map ew_counter (select_order_by ew_counter
       (\<lambda>r. ew_conversation_id r = c \<and> ew_device_id r = d) (event_history s))) + 1)"
  then have "has_event s c d (n + 1)" by (simp only: n_def xs_def)
  then obtain r where r: "r \<in> set (event_history s)" "ew_counter r = as_i64 (n + 1)"
    "ew_conversation_id r = c" "ew_device_id r = d" by (auto simp: has_event_def)
  have "sorted xs" "\<forall>x \<in> set xs. 0 \<le> x \<and> x < 2 ^ 63"
    using encoded_counter_small [OF assms] by (auto simp: xs_def select_order_by_def)
  from contiguous_from_maximal [OF this, of 0]
  have n: "uint n < 2 ^ 63" "uint n + 1 \<notin> set xs" by (simp_all add: n_def)
  have "as_i64 (n + 1) = uint (n + 1)"
    by (rule as_i64_nonneg) (use encoded_counter_small [OF assms r(1)] r(2) in simp)
  then have "ew_counter r = uint n + 1" using uint_succ [OF n(1)] r(2) by simp
  moreover have "ew_counter r \<in> set xs" unfolding xs_def set_map by (rule imageI) (use r in simp)
  ultimately show False using n(2) by simp
qed

text \<open>
  With counters below \<open>2 ^ 63\<close>, after appending an event the device's entry of the version
  vector is exactly the length of its gap-free prefix: every event up to it is stored and the
  next one is not.
\<close>

theorem append_event_vector_exact:
  assumes "db_ok s" "\<forall>x \<in> insert e (all_events s). unat (ev_counter x) < 2 ^ 63"
    and "append_event (\<lambda>_. False) e s = (t, res)"
  shows "\<exists>n. bt_get (version_vector (ev_conversation_id e) t) (ev_device_id e) = Some n
    \<and> (\<forall>k. 1 \<le> k \<and> k \<le> n \<longrightarrow> has_event t (ev_conversation_id e) (ev_device_id e) k)
    \<and> \<not> has_event t (ev_conversation_id e) (ev_device_id e) (n + 1)"
proof -
  let ?c = "ev_conversation_id e" and ?d = "ev_device_id e" and ?u = "stmt_insert_event e s"
  define n where "n = contiguous_from 0 (map ew_counter (select_order_by ew_counter
       (\<lambda>r. ew_conversation_id r = ?c \<and> ew_device_id r = ?d) (event_history ?u)))"
  have t: "t = refresh_vector_for_device ?c ?d ?u" using assms(3) by (simp add: append_event_ok)
  have ok: "keys_ok ?u" "events_encoded ?u" using assms(1) by (simp_all add: db_ok_def keys_ok_stmts)
  have he: "has_event t c d k = has_event ?u c d k" for c d k by (simp add: t has_event_def)
  have "all_events ?u \<subseteq> insert e (all_events s)"
    by (auto simp: all_events_def stmt_insert_event_def sql_simps split: if_splits)
  then have "\<forall>x \<in> all_events ?u. unat (ev_counter x) < 2 ^ 63" using assms(2) by blast
  from refresh_next_absent [OF ok(2) this, of ?c ?d] have "\<not> has_event t ?c ?d (n + 1)"
    by (simp only: he n_def not_False_eq_True)
  moreover have "bt_get (version_vector ?c t) ?d = Some n"
    unfolding t n_def by (rule refreshed_lookup [OF ok(1)])
  moreover have "has_event t ?c ?d k" if "1 \<le> k" "k \<le> n" for k
    unfolding he by (rule refresh_counter_sound [OF ok(2) that(1)]) (use that(2) in \<open>simp only: n_def\<close>)
  ultimately show ?thesis by blast
qed

theorem append_event_vector_exact_witness:
  "\<exists>n. bt_get (version_vector ''c'' (demo_log ''A'' [1, 2, 5])) ''A'' = Some n \<and> n = 2
    \<and> \<not> has_event (demo_log ''A'' [1, 2, 5]) ''c'' ''A'' (n + 1)"
proof -
  let ?e = "\<lparr>ev_device_id = ''A'', ev_counter = 5, ev_conversation_id = ''c'',
     ev_event_type = ''message_created'', ev_message_id = None, ev_payload = [], ev_created_at = 5\<rparr>"
  have run: "append_event (\<lambda>_. False) ?e (demo_log ''A'' [1, 2]) = (demo_log ''A'' [1, 2, 5], Inr True)"
    by code_simp
  have "ev_counter ` all_events (demo_log ''A'' [1, 2]) = {1, 2}" by code_simp
  then have "ev_counter x \<in> {1, 2}" if "x \<in> all_events (demo_log ''A'' [1, 2])" for x using that by blast
  then have small: "\<forall>x \<in> insert ?e (all_events (demo_log ''A'' [1, 2])). unat (ev_counter x) < 2 ^ 63" by fastforce
  have two: "bt_get (version_vector ''c'' (demo_log ''A'' [1, 2, 5])) ''A'' = Some 2" by code_simp
  from append_event_vector_exact [OF demo_log_ok small run] two show ?thesis by auto
qed

text \<open>
  One event with a counter of \<open>2 ^ 63\<close> or more (a negative INTEGER, first in the order of
  the query) stops the scan at once: the device's entry is reset to 0 although the events before
  it are stored.
\<close>

theorem large_counter_resets_vector:
  assumes "db_ok s" "2 ^ 63 \<le> unat (ev_counter e)" "append_event (\<lambda>_. False) e s = (t, Inr True)"
  shows "bt_get (version_vector (ev_conversation_id e) t) (ev_device_id e) = Some 0"
proof -
  let ?c = "ev_conversation_id e" and ?d = "ev_device_id e" and ?u = "stmt_insert_event e s"
  define xs where "xs = map ew_counter (select_order_by ew_counter
       (\<lambda>r. ew_conversation_id r = ?c \<and> ew_device_id r = ?d) (event_history ?u))"
  have fresh: "\<not> has_key ew_key (ew_key (event_to_row e)) (event_history s)"
    and t: "t = refresh_vector_for_device ?c ?d ?u" using assms(3) by (simp_all add: append_event_ok)
  have ok: "keys_ok ?u" "events_encoded ?u" using assms(1) by (simp_all add: db_ok_def keys_ok_stmts)
  have "event_to_row e \<in> set (event_history ?u)" using fresh by (simp add: stmt_insert_event_def sql_simps)
  then have "ew_counter (event_to_row e) \<in> set xs" unfolding xs_def set_map
    by (intro imageI) (simp add: event_to_row_def)
  then have mem: "as_i64 (ev_counter e) \<in> set xs" by (simp add: event_to_row_def)
  moreover have "sorted xs" by (simp add: xs_def select_order_by_def)
  ultimately obtain y ys where xs: "xs = y # ys" "y \<le> as_i64 (ev_counter e)" by (cases xs) auto
  then have neg: "y < 0" using as_i64_neg [OF assms(2)] by simp
  have "y \<in> set xs" using xs by simp
  then have "as_i64 (as_u64 y) = y"
    using encoded_counter [OF ok(2)] by (auto simp: xs_def)
  then have "\<not> unat (as_u64 y) < 2 ^ 63" using as_i64_small [of "as_u64 y"] neg by linarith
  then have "as_u64 y \<noteq> 1" "as_u64 y > 1" by (auto simp: word_less_nat_alt)
  then have "contiguous_from 0 xs = 0" using xs by (simp add: Let_def)
  then show ?thesis using refreshed_lookup [OF ok(1), of ?c ?d] by (simp add: t xs_def)
qed

theorem large_counter_resets_vector_witness:
  "bt_get (version_vector ''c'' (demo_log ''A'' [1, 2, 9223372036854775808])) ''A'' = Some 0
   \<and> bt_get (version_vector ''c'' (demo_log ''A'' [1, 2])) ''A'' = Some 2"
proof
  let ?e = "\<lparr>ev_device_id = ''A'', ev_counter = 9223372036854775808, ev_conversation_id = ''c'',
     ev_event_type = ''message_created'', ev_message_id = None, ev_payload = [], ev_created_at = 5\<rparr>"
  have "append_event (\<lambda>_. False) ?e (demo_log ''A'' [1, 2]) =
     (demo_log ''A'' [1, 2, 9223372036854775808], Inr True)" by code_simp
  from large_counter_resets_vector [OF demo_log_ok _ this]
  show "bt_get (version_vector ''c'' (demo_log ''A'' [1, 2, 9223372036854775808])) ''A'' = Some 0" by simp
  show "bt_get (version_vector ''c'' (demo_log ''A'' [1, 2])) ''A'' = Some 2" by code_simp
qed

end
