(* ===== verification/Ratchet.thy ===== *)
theory Ratchet
  imports Prelude
begin

text \<open>
  The ratchet session of \<^verbatim>\<open>src/src/lib.rs\<close>: key pairs, key derivation, \<^verbatim>\<open>RatchetSession\<close> with its
  encryption, decryption, skipped message keys, Diffie-Hellman ratchet steps and exported state.

  The cryptographic primitives are third-party crates; they are the fields of a record \<open>crypto\<close>
  that every definition takes, and what the code relies on is stated by the predicates
  \<open>dh_agrees\<close>, \<open>hkdf_total\<close> and \<open>aead_correct\<close>.  Random bytes are arguments.  An operation on
  \<^verbatim>\<open>&mut self\<close> returns the session it leaves behind together with its result, also when it fails.
\<close>

section \<open>Primitives\<close>

record crypto =
  cr_x25519_public :: "bytes \<Rightarrow> bytes"
  cr_x25519_dh :: "bytes \<Rightarrow> bytes \<Rightarrow> bytes"
  cr_hkdf :: "bytes option \<Rightarrow> bytes \<Rightarrow> bytes \<Rightarrow> nat \<Rightarrow> bytes option"
  cr_aead_encrypt :: "bytes \<Rightarrow> bytes \<Rightarrow> bytes \<Rightarrow> bytes \<Rightarrow> bytes option"
  cr_aead_decrypt :: "bytes \<Rightarrow> bytes \<Rightarrow> bytes \<Rightarrow> bytes \<Rightarrow> bytes option"
  cr_ed25519_public :: "bytes \<Rightarrow> bytes"
  cr_ed25519_sign :: "bytes \<Rightarrow> bytes \<Rightarrow> bytes"
  cr_ed25519_verify :: "bytes \<Rightarrow> bytes \<Rightarrow> bytes \<Rightarrow> bool"
  cr_sha256 :: "bytes \<Rightarrow> bytes"

text \<open>
  The documented behaviour of the primitives: both sides of a Diffie-Hellman exchange agree,
  HKDF-SHA256 yields any output of at most \<open>255 * 32\<close> bytes, and what the AEAD encrypts it
  decrypts under the same key, nonce and associated data.
\<close>

definition dh_agrees :: "crypto \<Rightarrow> bool" where
  "dh_agrees K \<longleftrightarrow> (\<forall>a b. cr_x25519_dh K a (cr_x25519_public K b) = cr_x25519_dh K b (cr_x25519_public K a))"

definition hkdf_total :: "crypto \<Rightarrow> bool" where
  "hkdf_total K \<longleftrightarrow> (\<forall>salt ikm info n. n \<le> 8160 \<longrightarrow>
     (\<exists>out. cr_hkdf K salt ikm info n = Some out \<and> length out = n))"

definition aead_correct :: "crypto \<Rightarrow> bool" where
  "aead_correct K \<longleftrightarrow> (\<forall>k n a m. \<exists>c. cr_aead_encrypt K k n a m = Some c \<and> cr_aead_decrypt K k n a c = Some m)"

definition crypto_ok :: "crypto \<Rightarrow> bool" where
  "crypto_ok K \<longleftrightarrow> dh_agrees K \<and> hkdf_total K \<and> aead_correct K"

datatype crypto_error =
    Encrypt | Decrypt | KeyDerivation | MissingSessionKey | PreKeyUnavailable | Replay
  | SignatureVerification | TooManySkippedMessages | Utf8

section \<open>Constants\<close>

definition LOCAL_AAD :: bytes where
  "LOCAL_AAD = as_bytes ''ciphermesh.local.alice-to-bob.v1''"

definition HKDF_INFO :: bytes where
  "HKDF_INFO = as_bytes ''ciphermesh.phase-2a.x25519.chacha20poly1305''"

definition INITIAL_CHAIN_INFO :: bytes where
  "INITIAL_CHAIN_INFO = as_bytes ''ciphermesh.phase-2d.initial-chains''"

definition CHAIN_STEP_INFO :: bytes where
  "CHAIN_STEP_INFO = as_bytes ''ciphermesh.phase-2d.chain-step''"

definition DH_RATCHET_INFO :: bytes where
  "DH_RATCHET_INFO = as_bytes ''ciphermesh.phase-2d.dh-ratchet''"

definition MAX_SKIPPED_MESSAGE_KEYS :: nat where
  "MAX_SKIPPED_MESSAGE_KEYS = 8"

section \<open>Key pairs and key derivation\<close>

record x25519_key_pair =
  xk_private :: bytes
  xk_public :: bytes

definition from_private_bytes :: "crypto \<Rightarrow> bytes \<Rightarrow> x25519_key_pair" where
  "from_private_bytes K private = \<lparr>xk_private = private, xk_public = cr_x25519_public K private\<rparr>"

definition dh_bytes :: "crypto \<Rightarrow> x25519_key_pair \<Rightarrow> bytes \<Rightarrow> bytes" where
  "dh_bytes K keys peer_public_key = cr_x25519_dh K (xk_private keys) peer_public_key"

definition derive_aead_key :: "crypto \<Rightarrow> x25519_key_pair \<Rightarrow> bytes \<Rightarrow> crypto_error + bytes" where
  "derive_aead_key K keys peer_public_key =
     ok_or (cr_hkdf K None (cr_x25519_dh K (xk_private keys) peer_public_key) HKDF_INFO 32) KeyDerivation"

definition derive_directional_chains :: "crypto \<Rightarrow> bytes \<Rightarrow> crypto_error + bytes \<times> bytes" where
  "derive_directional_chains K root_key =
     and_then (ok_or (cr_hkdf K None root_key INITIAL_CHAIN_INFO 64) KeyDerivation)
       (\<lambda>output. Inr (take 32 output, drop 32 output))"

definition advance_chain :: "crypto \<Rightarrow> bytes \<Rightarrow> crypto_error + bytes \<times> bytes" where
  "advance_chain K chain_key =
     and_then (ok_or (cr_hkdf K None chain_key CHAIN_STEP_INFO 64) KeyDerivation)
       (\<lambda>output. Inr (take 32 output, drop 32 output))"

definition derive_dh_ratchet_state ::
    "crypto \<Rightarrow> bytes \<Rightarrow> bytes \<Rightarrow> crypto_error + bytes \<times> bytes \<times> bytes" where
  "derive_dh_ratchet_state K root_key dh_output =
     and_then (ok_or (cr_hkdf K (Some root_key) dh_output DH_RATCHET_INFO 96) KeyDerivation)
       (\<lambda>output. Inr (take 32 output, take 32 (drop 32 output), drop 64 output))"

definition nonce_for :: "u64 \<Rightarrow> bytes" where
  "nonce_for number = replicate 4 0 @ to_be_bytes number"

definition ratchet_aad :: "u64 \<Rightarrow> bytes \<Rightarrow> bytes" where
  "ratchet_aad number ratchet_public_key = LOCAL_AAD @ to_be_bytes number @ ratchet_public_key"

section \<open>Sessions\<close>

datatype ratchet_role = RoleAlice | RoleBob

fun role_chains :: "ratchet_role \<Rightarrow> bytes \<Rightarrow> bytes \<Rightarrow> bytes \<times> bytes" where
  "role_chains RoleAlice first second = (first, second)"
| "role_chains RoleBob first second = (second, first)"

record ratchet_message =
  rm_number :: u64
  rm_ratchet_public_key :: bytes
  rm_ciphertext :: bytes

record ratchet_session =
  rs_role :: ratchet_role
  rs_root_key :: bytes
  rs_send_chain_key :: bytes
  rs_recv_chain_key :: bytes
  rs_send_count :: u64
  rs_recv_count :: u64
  rs_skipped :: "(u64, bytes) btree"
  rs_consumed :: "u64 list"
  rs_dh_keys :: x25519_key_pair
  rs_peer_public :: bytes

definition ratchet_new ::
    "crypto \<Rightarrow> bytes \<Rightarrow> ratchet_role \<Rightarrow> x25519_key_pair \<Rightarrow> bytes \<Rightarrow> crypto_error + ratchet_session" where
  "ratchet_new K root_key role dh_keys peer_ratchet_public_key =
     and_then (derive_directional_chains K root_key) (\<lambda>(alice_to_bob, bob_to_alice).
       let (send_chain_key, recv_chain_key) = role_chains role alice_to_bob bob_to_alice
       in Inr \<lparr>rs_role = role, rs_root_key = root_key, rs_send_chain_key = send_chain_key,
               rs_recv_chain_key = recv_chain_key, rs_send_count = 0, rs_recv_count = 0,
               rs_skipped = [], rs_consumed = [], rs_dh_keys = dh_keys,
               rs_peer_public = peer_ratchet_public_key\<rparr>)"

definition next_send_message_key ::
    "crypto \<Rightarrow> ratchet_session \<Rightarrow> ratchet_session \<times> (crypto_error + bytes)" where
  "next_send_message_key K s =
     (case advance_chain K (rs_send_chain_key s) of
        Inl e \<Rightarrow> (s, Inl e)
      | Inr (next_chain_key, message_key) \<Rightarrow>
          (s\<lparr>rs_send_chain_key := next_chain_key, rs_send_count := rs_send_count s + 1\<rparr>, Inr message_key))"

definition next_recv_message_key ::
    "crypto \<Rightarrow> ratchet_session \<Rightarrow> ratchet_session \<times> (crypto_error + bytes)" where
  "next_recv_message_key K s =
     (case advance_chain K (rs_recv_chain_key s) of
        Inl e \<Rightarrow> (s, Inl e)
      | Inr (next_chain_key, message_key) \<Rightarrow>
          (s\<lparr>rs_recv_chain_key := next_chain_key, rs_recv_count := rs_recv_count s + 1\<rparr>, Inr message_key))"

definition ratchet_encrypt ::
    "crypto \<Rightarrow> string \<Rightarrow> ratchet_session \<Rightarrow> ratchet_session \<times> (crypto_error + ratchet_message)" where
  "ratchet_encrypt K message s =
     (let number = rs_send_count s in
      case next_send_message_key K s of
        (s', Inl e) \<Rightarrow> (s', Inl e)
      | (s', Inr message_key) \<Rightarrow>
          (let ratchet_public_key = xk_public (rs_dh_keys s') in
           case cr_aead_encrypt K message_key (nonce_for number)
                  (ratchet_aad number ratchet_public_key) (as_bytes message) of
             None \<Rightarrow> (s', Inl Encrypt)
           | Some ciphertext \<Rightarrow>
               (s', Inr \<lparr>rm_number = number, rm_ratchet_public_key = ratchet_public_key,
                         rm_ciphertext = ciphertext\<rparr>)))"

definition apply_dh_ratchet ::
    "crypto \<Rightarrow> bytes \<Rightarrow> ratchet_session \<Rightarrow> ratchet_session \<times> (crypto_error + unit)" where
  "apply_dh_ratchet K dh_output s =
     (case derive_dh_ratchet_state K (rs_root_key s) dh_output of
        Inl e \<Rightarrow> (s, Inl e)
      | Inr (root_key, alice_to_bob, bob_to_alice) \<Rightarrow>
          (let (send_chain_key, recv_chain_key) = role_chains (rs_role s) alice_to_bob bob_to_alice
           in (s\<lparr>rs_root_key := root_key, rs_send_chain_key := send_chain_key,
                 rs_recv_chain_key := recv_chain_key, rs_send_count := 0, rs_recv_count := 0,
                 rs_skipped := [], rs_consumed := []\<rparr>, Inr ())))"

definition receive_dh_ratchet ::
    "crypto \<Rightarrow> bytes \<Rightarrow> ratchet_session \<Rightarrow> ratchet_session \<times> (crypto_error + unit)" where
  "receive_dh_ratchet K peer_ratchet_public_key s =
     (let dh_output = dh_bytes K (rs_dh_keys s) peer_ratchet_public_key
      in apply_dh_ratchet K dh_output (s\<lparr>rs_peer_public := peer_ratchet_public_key\<rparr>))"

text \<open>\<open>private\<close> are the random bytes of \<^verbatim>\<open>X25519KeyPair::generate\<close>.\<close>

definition rotate_sending_ratchet ::
    "crypto \<Rightarrow> bytes \<Rightarrow> ratchet_session \<Rightarrow> ratchet_session \<times> (crypto_error + unit)" where
  "rotate_sending_ratchet K private s =
     (let s' = s\<lparr>rs_dh_keys := from_private_bytes K private\<rparr>
      in apply_dh_ratchet K (dh_bytes K (rs_dh_keys s') (rs_peer_public s')) s')"

text \<open>The \<^verbatim>\<open>while\<close> loop of \<^verbatim>\<open>decrypt\<close> that stores the keys of skipped messages.\<close>

lemma recv_count_next:
  "next_recv_message_key K s = (s', Inr key) \<Longrightarrow> rs_recv_count s' = rs_recv_count s + 1"
  by (auto simp: next_recv_message_key_def split: sum.splits prod.splits)

lemma unat_succ_less: "a < (b :: u64) \<Longrightarrow> unat (a + 1) = Suc (unat a)"
proof -
  assume "a < b"
  moreover have "unat b < 2 ^ LENGTH(64)" by (rule unsigned_less)
  ultimately have "unat a + 1 < 2 ^ 64" by (simp add: word_less_nat_alt)
  moreover have "unat (a + 1) = (unat a + 1) mod 2 ^ 64" by (simp add: unat_word_ariths)
  ultimately show ?thesis by (simp only: mod_less Suc_eq_plus1)
qed

lemma skip_decreases:
  assumes "rs_recv_count s < n" "next_recv_message_key K s = (s', Inr key)"
  shows "unat n - unat (rs_recv_count s') < unat n - unat (rs_recv_count s)"
  using recv_count_next [OF assms(2)] unat_succ_less [OF assms(1)] assms(1)
  by (simp add: word_less_nat_alt)

function skip_message_keys ::
    "crypto \<Rightarrow> u64 \<Rightarrow> ratchet_session \<Rightarrow> ratchet_session \<times> (crypto_error + unit)" where
  "skip_message_keys K number s =
     (if rs_recv_count s < number then
        (if MAX_SKIPPED_MESSAGE_KEYS \<le> length (rs_skipped s) then (s, Inl TooManySkippedMessages)
         else (case next_recv_message_key K s of
                 (s', Inl e) \<Rightarrow> (s', Inl e)
               | (s', Inr skipped_key) \<Rightarrow>
                   skip_message_keys K number
                     (s'\<lparr>rs_skipped := bt_insert (rs_recv_count s' - 1) skipped_key (rs_skipped s')\<rparr>)))
      else (s, Inr ()))"
  by pat_completeness auto
termination
  by (relation "measure (\<lambda>(K, n, s). unat n - unat (rs_recv_count s))")
     (auto dest!: sym [of _ "next_recv_message_key _ _"] intro: skip_decreases)

declare skip_message_keys.simps [simp del]

definition ratchet_decrypt ::
    "crypto \<Rightarrow> ratchet_message \<Rightarrow> ratchet_session \<Rightarrow> ratchet_session \<times> (crypto_error + string)" where
  "ratchet_decrypt K message s0 =
     (let number = rm_number message;
          (s, ratcheted) =
            (if rm_ratchet_public_key message \<noteq> rs_peer_public s0
             then receive_dh_ratchet K (rm_ratchet_public_key message) s0 else (s0, Inr ()))
      in case ratcheted of Inl e \<Rightarrow> (s, Inl e) | Inr _ \<Rightarrow>
        if number \<in> set (rs_consumed s) then (s, Inl Replay)
        else
          (let (s1, key) =
             (case bt_get (rs_skipped s) number of
                Some message_key \<Rightarrow>
                  (s\<lparr>rs_skipped := bt_remove number (rs_skipped s)\<rparr>, Inr message_key)
              | None \<Rightarrow>
                  if number < rs_recv_count s then (s, Inl Replay)
                  else (case skip_message_keys K number s of
                          (s', Inl e) \<Rightarrow> (s', Inl e)
                        | (s', Inr _) \<Rightarrow> next_recv_message_key K s'))
           in case key of Inl e \<Rightarrow> (s1, Inl e) | Inr message_key \<Rightarrow>
             (case cr_aead_decrypt K message_key (nonce_for number)
                     (ratchet_aad number (rm_ratchet_public_key message)) (rm_ciphertext message) of
                None \<Rightarrow> (s1, Inl Decrypt)
              | Some plaintext \<Rightarrow>
                  (s1\<lparr>rs_consumed := bset_insert number (rs_consumed s1)\<rparr>,
                   ok_or (from_utf8 plaintext) Utf8))))"

section \<open>Exported state\<close>

datatype ratchet_role_state = RoleStateAlice | RoleStateBob

fun role_state :: "ratchet_role \<Rightarrow> ratchet_role_state" where
  "role_state RoleAlice = RoleStateAlice"
| "role_state RoleBob = RoleStateBob"

fun role_from_state :: "ratchet_role_state \<Rightarrow> ratchet_role" where
  "role_from_state RoleStateAlice = RoleAlice"
| "role_from_state RoleStateBob = RoleBob"

record ratchet_session_state =
  rss_role :: ratchet_role_state
  rss_root_key :: bytes
  rss_send_chain_key :: bytes
  rss_recv_chain_key :: bytes
  rss_send_count :: u64
  rss_recv_count :: u64
  rss_skipped :: "(u64 \<times> bytes) list"
  rss_consumed :: "u64 list"
  rss_dh_private_key :: bytes
  rss_peer_public :: bytes

definition ratchet_state :: "ratchet_session \<Rightarrow> ratchet_session_state" where
  "ratchet_state s =
     \<lparr>rss_role = role_state (rs_role s), rss_root_key = rs_root_key s,
      rss_send_chain_key = rs_send_chain_key s, rss_recv_chain_key = rs_recv_chain_key s,
      rss_send_count = rs_send_count s, rss_recv_count = rs_recv_count s,
      rss_skipped = rs_skipped s, rss_consumed = rs_consumed s,
      rss_dh_private_key = xk_private (rs_dh_keys s), rss_peer_public = rs_peer_public s\<rparr>"

definition ratchet_from_state :: "crypto \<Rightarrow> ratchet_session_state \<Rightarrow> ratchet_session" where
  "ratchet_from_state K st =
     \<lparr>rs_role = role_from_state (rss_role st), rs_root_key = rss_root_key st,
      rs_send_chain_key = rss_send_chain_key st, rs_recv_chain_key = rss_recv_chain_key st,
      rs_send_count = rss_send_count st, rs_recv_count = rss_recv_count st,
      rs_skipped = bt_collect (rss_skipped st), rs_consumed = bset_collect (rss_consumed st),
      rs_dh_keys = from_private_bytes K (rss_dh_private_key st), rs_peer_public = rss_peer_public st\<rparr>"

end
