(* ===== verification/RatchetProps.thy ===== *)
theory RatchetProps
  imports Ratchet
begin

text \<open>
  What the ratchet session guarantees: every message arrives under any reordering within the
  window of skipped keys, a message is accepted once, the store of skipped keys is bounded
  whatever arrives, a Diffie-Hellman step keeps both sides in agreement, and the exported state
  restores the session.
\<close>

section \<open>The message keys of a chain\<close>

definition chain_step :: "crypto \<Rightarrow> bytes \<Rightarrow> bytes \<times> bytes" where
  "chain_step K ck = (case advance_chain K ck of Inr p \<Rightarrow> p | Inl _ \<Rightarrow> ([], []))"

definition chain_at :: "crypto \<Rightarrow> bytes \<Rightarrow> nat \<Rightarrow> bytes" where
  "chain_at K ck n = ((\<lambda>c. fst (chain_step K c)) ^^ n) ck"

definition key_at :: "crypto \<Rightarrow> bytes \<Rightarrow> nat \<Rightarrow> bytes" where
  "key_at K ck n = snd (chain_step K (chain_at K ck n))"

lemma hkdf_totalE:
  assumes "hkdf_total K" "n \<le> 8160"
  obtains out where "cr_hkdf K salt ikm info n = Some out" "length out = n"
  using assms unfolding hkdf_total_def by blast

lemma advance_chain_total: "hkdf_total K \<Longrightarrow> advance_chain K ck = Inr (chain_step K ck)"
proof -
  assume "hkdf_total K"
  then obtain out where "cr_hkdf K None ck CHAIN_STEP_INFO 64 = Some out"
    by (rule hkdf_totalE [where n = 64]) auto
  then show ?thesis by (simp add: advance_chain_def chain_step_def)
qed

lemma advance_chain_at:
  "hkdf_total K \<Longrightarrow> advance_chain K (chain_at K ck n) = Inr (chain_at K ck (Suc n), key_at K ck n)"
  by (simp add: advance_chain_total chain_at_def key_at_def prod_eq_iff)

lemma chain_at_0 [simp]: "chain_at K ck 0 = ck"
  by (simp add: chain_at_def)

section \<open>Invariant of the receiving side\<close>

text \<open>
  \<open>receiving K ck r S s\<close>: with respect to the chain that started at \<open>ck\<close>, session \<open>s\<close> has
  derived the keys below \<open>r\<close> and holds those of the numbers in \<open>S\<close>, which are not consumed.
\<close>

definition receiving :: "crypto \<Rightarrow> bytes \<Rightarrow> nat \<Rightarrow> nat set \<Rightarrow> ratchet_session \<Rightarrow> bool" where
  "receiving K ck r S s \<longleftrightarrow>
     rs_recv_chain_key s = chain_at K ck r \<and> unat (rs_recv_count s) = r
     \<and> bt_wf (rs_skipped s) \<and> length (rs_skipped s) = card S \<and> S \<subseteq> {..<r}
     \<and> (\<forall>n. bt_get (rs_skipped s) n = (if unat n \<in> S then Some (key_at K ck (unat n)) else None))
     \<and> (\<forall>n \<in> set (rs_consumed s). unat n < r \<and> unat n \<notin> S)"

definition same_epoch :: "ratchet_session \<Rightarrow> ratchet_session \<Rightarrow> bool" where
  "same_epoch s t \<longleftrightarrow> rs_peer_public t = rs_peer_public s \<and> rs_role t = rs_role s
     \<and> rs_root_key t = rs_root_key s \<and> rs_dh_keys t = rs_dh_keys s
     \<and> rs_send_chain_key t = rs_send_chain_key s \<and> rs_send_count t = rs_send_count s"

lemma unat_of_nat_small: "n < 2 ^ 64 \<Longrightarrow> unat (of_nat n :: u64) = n"
  by (simp add: unat_of_nat)

lemma unat_Suc_small: "Suc (unat w) < 2 ^ 64 \<Longrightarrow> unat (w + 1 :: u64) = Suc (unat w)"
  by (simp add: unat_word_ariths)

lemma receiving_next:
  assumes "hkdf_total K" "receiving K ck r S s" "Suc r < 2 ^ 64"
  obtains s' where "next_recv_message_key K s = (s', Inr (key_at K ck r))"
    "receiving K ck (Suc r) S s'" "same_epoch s s'" "rs_consumed s' = rs_consumed s"
    "rs_skipped s' = rs_skipped s" "rs_recv_count s' = rs_recv_count s + 1"
proof -
  let ?s = "s\<lparr>rs_recv_chain_key := chain_at K ck (Suc r), rs_recv_count := rs_recv_count s + 1\<rparr>"
  have "next_recv_message_key K s = (?s, Inr (key_at K ck r))"
    using assms(1,2) by (simp add: next_recv_message_key_def receiving_def advance_chain_at)
  moreover have "receiving K ck (Suc r) S ?s"
    using assms(2,3) unat_Suc_small [of "rs_recv_count s"] by (auto simp: receiving_def)
  ultimately show ?thesis using that by (simp add: same_epoch_def)
qed

lemma card_insert_fresh: "S \<subseteq> {..<r} \<Longrightarrow> card (insert (r :: nat) S) = Suc (card S)"
  using finite_subset [of S "{..<r}"] by (subst card_insert_disjoint) auto

text \<open>One round of the loop that stores the keys of skipped messages.\<close>

lemma receiving_skip_step:
  assumes "hkdf_total K" "receiving K ck r S s" "r < j" "j < 2 ^ 64" "card S < MAX_SKIPPED_MESSAGE_KEYS"
  obtains s2 where "skip_message_keys K (of_nat j) s = skip_message_keys K (of_nat j) s2"
    "receiving K ck (Suc r) (insert r S) s2" "same_epoch s s2" "rs_consumed s2 = rs_consumed s"
proof -
  have r64: "Suc r < 2 ^ 64" using assms(3,4) by simp
  obtain s1 where s1: "next_recv_message_key K s = (s1, Inr (key_at K ck r))" "receiving K ck (Suc r) S s1" "same_epoch s s1"
    "rs_consumed s1 = rs_consumed s" "rs_skipped s1 = rs_skipped s" "rs_recv_count s1 = rs_recv_count s + 1"
    by (rule receiving_next [OF assms(1,2) r64])
  define s2 where "s2 = s1\<lparr>rs_skipped := bt_insert (rs_recv_count s1 - 1) (key_at K ck r) (rs_skipped s1)\<rparr>"
  have sub: "S \<subseteq> {..<r}" and cnt: "unat (rs_recv_count s) = r" and wf: "bt_wf (rs_skipped s)"
    and len: "length (rs_skipped s) = card S" and cons: "\<forall>n \<in> set (rs_consumed s). unat n < r \<and> unat n \<notin> S"
    and get: "\<And>n. bt_get (rs_skipped s) n = (if unat n \<in> S then Some (key_at K ck (unat n)) else None)"
    using assms(2) by (auto simp: receiving_def)
  have fresh: "bt_get (rs_skipped s) (rs_recv_count s) = None" using get sub cnt by auto
  have "receiving K ck (Suc r) (insert r S) s2"
    unfolding receiving_def s2_def
  proof (intro conjI ballI allI)
    show "length (rs_skipped (s1\<lparr>rs_skipped := bt_insert (rs_recv_count s1 - 1) (key_at K ck r) (rs_skipped s1)\<rparr>)) = card (insert r S)"
      using fresh s1(5,6) len card_insert_fresh [OF sub] by (simp add: length_bt_insert_fresh)
    show "bt_get (rs_skipped (s1\<lparr>rs_skipped := bt_insert (rs_recv_count s1 - 1) (key_at K ck r) (rs_skipped s1)\<rparr>)) n =
        (if unat n \<in> insert r S then Some (key_at K ck (unat n)) else None)" for n
    proof -
      have "n = rs_recv_count s \<longleftrightarrow> unat n = r" using cnt by (auto simp: word_unat_eq_iff)
      then show ?thesis using s1(5,6) get [of n] by auto
    qed
  qed (use s1 sub wf cons in \<open>auto simp: receiving_def\<close>)
  moreover have "rs_recv_count s < of_nat j" using cnt assms(3,4) by (simp add: word_less_nat_alt unat_of_nat_small)
  then have "skip_message_keys K (of_nat j) s = skip_message_keys K (of_nat j) s2"
    using assms(5) len by (simp add: skip_message_keys.simps [of K "of_nat j" s] s1(1) s2_def)
  moreover have "same_epoch s s2" "rs_consumed s2 = rs_consumed s" using s1(3,4) by (simp_all add: same_epoch_def s2_def)
  ultimately show ?thesis using that by blast
qed

lemma receiving_skip:
  assumes "hkdf_total K" "receiving K ck r S s" "r \<le> j" "j < 2 ^ 64" "card S + (j - r) \<le> MAX_SKIPPED_MESSAGE_KEYS"
  shows "\<exists>s'. skip_message_keys K (of_nat j) s = (s', Inr ()) \<and> receiving K ck j (S \<union> {r..<j}) s'
    \<and> same_epoch s s' \<and> rs_consumed s' = rs_consumed s"
  using assms(2-)
proof (induction "j - r" arbitrary: r S s)
  case 0
  then have "\<not> rs_recv_count s < of_nat j" by (simp add: receiving_def word_less_nat_alt unat_of_nat_small)
  then show ?case using 0 by (intro exI [of _ s]) (simp add: skip_message_keys.simps same_epoch_def)
next
  case (Suc d)
  then have rj: "r < j" "card S < MAX_SKIPPED_MESSAGE_KEYS" and Suc_d: "d = j - Suc r" by simp_all
  obtain s2 where s2: "skip_message_keys K (of_nat j) s = skip_message_keys K (of_nat j) s2"
    "receiving K ck (Suc r) (insert r S) s2" "same_epoch s s2" "rs_consumed s2 = rs_consumed s"
    by (rule receiving_skip_step [OF assms(1) Suc.prems(1) rj(1) Suc.prems(3) rj(2)])
  have "S \<subseteq> {..<r}" using Suc.prems(1) by (simp add: receiving_def)
  then have "card (insert r S) + (j - Suc r) \<le> MAX_SKIPPED_MESSAGE_KEYS"
    using card_insert_fresh [of S r] Suc.prems(4) rj(1) by simp
  then obtain s' where s': "skip_message_keys K (of_nat j) s2 = (s', Inr ())"
    "receiving K ck j (insert r S \<union> {Suc r..<j}) s'" "same_epoch s2 s'" "rs_consumed s' = rs_consumed s2"
    using Suc.hyps(1) [OF Suc_d s2(2)] Suc.prems(3) rj(1) by auto
  moreover have "insert r S \<union> {Suc r..<j} = S \<union> {r..<j}" using rj(1) by auto
  ultimately show ?case using s2 by (intro exI [of _ s']) (simp add: same_epoch_def)
qed

text \<open>A message too far ahead fills the store and is refused.\<close>

lemma receiving_skip_overflow:
  assumes "hkdf_total K" "receiving K ck r S s" "r \<le> j" "j < 2 ^ 64"
    and "card S \<le> MAX_SKIPPED_MESSAGE_KEYS" "MAX_SKIPPED_MESSAGE_KEYS < card S + (j - r)"
  shows "\<exists>s'. skip_message_keys K (of_nat j) s = (s', Inl TooManySkippedMessages)"
  using assms(2-)
proof (induction "j - r" arbitrary: r S s)
  case (Suc d)
  then have rj: "r < j" and Suc_d: "d = j - Suc r" by simp_all
  have len: "length (rs_skipped s) = card S" and cnt: "unat (rs_recv_count s) = r" and sub: "S \<subseteq> {..<r}"
    using Suc.prems(1) by (simp_all add: receiving_def)
  show ?case
  proof (cases "card S < MAX_SKIPPED_MESSAGE_KEYS")
    case True
    obtain s2 where s2: "skip_message_keys K (of_nat j) s = skip_message_keys K (of_nat j) s2"
      "receiving K ck (Suc r) (insert r S) s2" by (rule receiving_skip_step [OF assms(1) Suc.prems(1) rj Suc.prems(3) True])
    have "\<exists>s'. skip_message_keys K (of_nat j) s2 = (s', Inl TooManySkippedMessages)"
      by (rule Suc.hyps(1) [OF Suc_d s2(2)]) (use rj Suc.prems True card_insert_fresh [OF sub] in simp_all)
    then show ?thesis using s2(1) by simp
  next
    case False
    have "rs_recv_count s < of_nat j" using cnt rj Suc.prems(3) by (simp add: word_less_nat_alt unat_of_nat_small)
    then show ?thesis using False len by (simp add: skip_message_keys.simps [of K "of_nat j" s])
  qed
qed simp

section \<open>Receiving a message\<close>

text \<open>What the sender produces for the \<open>i\<close>-th message of a chain.\<close>

definition sealed :: "crypto \<Rightarrow> bytes \<Rightarrow> bytes \<Rightarrow> nat \<Rightarrow> string \<Rightarrow> ratchet_message" where
  "sealed K ck pub i p =
     \<lparr>rm_number = of_nat i, rm_ratchet_public_key = pub,
      rm_ciphertext = the (cr_aead_encrypt K (key_at K ck i) (nonce_for (of_nat i))
        (ratchet_aad (of_nat i) pub) (as_bytes p))\<rparr>"

lemma unseal:
  assumes "aead_correct K"
  shows "cr_aead_decrypt K (key_at K ck i) (nonce_for (of_nat i)) (ratchet_aad (of_nat i) pub)
    (rm_ciphertext (sealed K ck pub i p)) = Some (as_bytes p)"
  using assms unfolding aead_correct_def sealed_def by (metis option.sel ratchet_message.select_convs(3))

text \<open>The skipped keys after the key of message \<open>j\<close> was used.\<close>

definition next_window :: "nat \<Rightarrow> nat set \<Rightarrow> nat \<Rightarrow> nat \<times> nat set" where
  "next_window r S j = (if j \<in> S then (r, S - {j}) else (Suc j, S \<union> {r..<j}))"

definition in_window :: "nat \<Rightarrow> nat set \<Rightarrow> nat \<Rightarrow> bool" where
  "in_window r S j \<longleftrightarrow> j \<in> S \<or> r \<le> j \<and> card S + (j - r) \<le> MAX_SKIPPED_MESSAGE_KEYS"

lemma receiving_consume:
  assumes "receiving K ck r S s" "j < r" "j < 2 ^ 64" "j \<notin> S"
  shows "receiving K ck r S (s\<lparr>rs_consumed := bset_insert (of_nat j) (rs_consumed s)\<rparr>)"
  using assms by (auto simp: receiving_def unat_of_nat_small)

lemma receiving_take_skipped:
  assumes "receiving K ck r S s" "j \<in> S" "j < 2 ^ 64"
  shows "receiving K ck r (S - {j}) (s\<lparr>rs_skipped := bt_remove (of_nat j) (rs_skipped s)\<rparr>)"
proof -
  have fin: "finite S" and wf: "bt_wf (rs_skipped s)" and len: "length (rs_skipped s) = card S"
    and get: "\<And>n. bt_get (rs_skipped s) n = (if unat n \<in> S then Some (key_at K ck (unat n)) else None)"
    using assms(1) by (auto simp: receiving_def intro: finite_subset)
  have un: "unat (of_nat j :: u64) = j" using assms(3) by (rule unat_of_nat_small)
  then have "bt_get (rs_skipped s) (of_nat j) = Some (key_at K ck j)" using get assms(2) by simp
  from length_bt_remove [OF wf this] have "length (bt_remove (of_nat j) (rs_skipped s)) = card (S - {j})"
    using len fin assms(2) by (simp add: card_Diff_singleton)
  moreover have "n = of_nat j \<longleftrightarrow> unat n = j" for n :: u64 using un by auto
  ultimately show ?thesis using assms(1) by (auto simp: receiving_def)
qed

lemma receiving_decrypt:
  assumes K: "hkdf_total K" "aead_correct K" and s: "receiving K ck r S s" "rs_peer_public s = pub"
    and j: "Suc j < 2 ^ 64" "in_window r S j" and p: "is_str p"
  shows "\<exists>s'. ratchet_decrypt K (sealed K ck pub j p) s = (s', Inr p)
    \<and> receiving K ck (fst (next_window r S j)) (snd (next_window r S j)) s' \<and> same_epoch s s'"
proof -
  have un: "unat (of_nat j :: u64) = j" using j(1) by (intro unat_of_nat_small) simp
  have num: "rm_number (sealed K ck pub j p) = of_nat j" "rm_ratchet_public_key (sealed K ck pub j p) = pub"
    by (simp_all add: sealed_def)
  note dec = ratchet_decrypt_def Let_def num s(2) unseal [OF K(2)] p
  have get: "bt_get (rs_skipped s) (of_nat j) = (if j \<in> S then Some (key_at K ck j) else None)"
    and cnt: "unat (rs_recv_count s) = r" and cons: "\<forall>n \<in> set (rs_consumed s). unat n < r \<and> unat n \<notin> S"
    and sub: "S \<subseteq> {..<r}"
    using s(1) un by (auto simp: receiving_def)
  show ?thesis
  proof (cases "j \<in> S")
    case True
    let ?s = "s\<lparr>rs_skipped := bt_remove (of_nat j) (rs_skipped s)\<rparr>"
    have "of_nat j \<notin> set (rs_consumed s)" using cons True un by metis
    then have "ratchet_decrypt K (sealed K ck pub j p) s =
        (?s\<lparr>rs_consumed := bset_insert (of_nat j) (rs_consumed ?s)\<rparr>, Inr p)"
      using True get by (simp add: dec)
    moreover have "receiving K ck r (S - {j}) (?s\<lparr>rs_consumed := bset_insert (of_nat j) (rs_consumed ?s)\<rparr>)"
      using receiving_take_skipped [OF s(1) True] True sub j(1) by (intro receiving_consume) auto
    ultimately show ?thesis using True by (simp add: next_window_def same_epoch_def)
  next
    case False
    then have rj: "r \<le> j" "card S + (j - r) \<le> MAX_SKIPPED_MESSAGE_KEYS" using j(2) by (auto simp: in_window_def)
    obtain s1 where s1: "skip_message_keys K (of_nat j) s = (s1, Inr ())" "receiving K ck j (S \<union> {r..<j}) s1"
      "same_epoch s s1" "rs_consumed s1 = rs_consumed s"
      using receiving_skip [OF K(1) s(1) rj(1) _ rj(2)] j(1) by auto
    obtain s2 where s2: "next_recv_message_key K s1 = (s2, Inr (key_at K ck j))"
      "receiving K ck (Suc j) (S \<union> {r..<j}) s2" "same_epoch s1 s2" "rs_consumed s2 = rs_consumed s1"
      using receiving_next [OF K(1) s1(2) j(1)] by metis
    have "of_nat j \<notin> set (rs_consumed s)" using cons rj(1) un by (metis not_le)
    moreover have "\<not> of_nat j < rs_recv_count s" using cnt un rj(1) by (simp add: word_less_nat_alt)
    ultimately have "ratchet_decrypt K (sealed K ck pub j p) s =
        (s2\<lparr>rs_consumed := bset_insert (of_nat j) (rs_consumed s2)\<rparr>, Inr p)"
      using False get s1(1) s2(1) by (simp add: dec)
    moreover have "receiving K ck (Suc j) (S \<union> {r..<j}) (s2\<lparr>rs_consumed := bset_insert (of_nat j) (rs_consumed s2)\<rparr>)"
      using s2(2) False j(1) by (intro receiving_consume) auto
    moreover have "same_epoch s (s2\<lparr>rs_consumed := bset_insert (of_nat j) (rs_consumed s2)\<rparr>)"
      using s1(3) s2(3) by (simp add: same_epoch_def)
    ultimately show ?thesis using False by (simp add: next_window_def)
  qed
qed

lemma receiving_overflow:
  assumes "hkdf_total K" "receiving K ck r {} s" "rs_peer_public s = pub" "r + MAX_SKIPPED_MESSAGE_KEYS < j" "j < 2 ^ 64"
  shows "\<exists>s'. ratchet_decrypt K (sealed K ck pub j p) s = (s', Inl TooManySkippedMessages)"
proof -
  have un: "unat (of_nat j :: u64) = j" using assms(5) by (rule unat_of_nat_small)
  have "bt_get (rs_skipped s) (of_nat j) = None" "\<not> of_nat j < rs_recv_count s" "of_nat j \<notin> set (rs_consumed s)"
    using assms(2,4) un by (auto simp: receiving_def word_less_nat_alt)
  moreover have "\<exists>s'. skip_message_keys K (of_nat j) s = (s', Inl TooManySkippedMessages)"
    by (rule receiving_skip_overflow [OF assms(1,2)]) (use assms(4,5) in simp_all)
  ultimately show ?thesis using assms(3) by (auto simp: ratchet_decrypt_def Let_def sealed_def)
qed

section \<open>Delivery under reordering\<close>

fun encrypt_all ::
    "crypto \<Rightarrow> string list \<Rightarrow> ratchet_session \<Rightarrow> ratchet_session \<times> (crypto_error + ratchet_message) list" where
  "encrypt_all K [] s = (s, [])"
| "encrypt_all K (p # ps) s =
     (let (s', m) = ratchet_encrypt K p s; (t, ms) = encrypt_all K ps s' in (t, m # ms))"

fun decrypt_all ::
    "crypto \<Rightarrow> ratchet_message list \<Rightarrow> ratchet_session \<Rightarrow> ratchet_session \<times> (crypto_error + string) list" where
  "decrypt_all K [] s = (s, [])"
| "decrypt_all K (m # ms) s =
     (let (s', p) = ratchet_decrypt K m s; (t, ps) = decrypt_all K ms s' in (t, p # ps))"

text \<open>
  An order of delivery is within the window when each message that arrives finds its key in the
  store, or is ahead of the chain by no more keys than the store still takes.
\<close>

fun within_window :: "nat \<Rightarrow> nat set \<Rightarrow> nat list \<Rightarrow> bool" where
  "within_window r S [] \<longleftrightarrow> True"
| "within_window r S (j # js) \<longleftrightarrow>
     in_window r S j \<and> within_window (fst (next_window r S j)) (snd (next_window r S j)) js"

text \<open>Both sides stand at the start of the same chain.\<close>

definition fresh_link :: "ratchet_session \<Rightarrow> ratchet_session \<Rightarrow> bool" where
  "fresh_link a b \<longleftrightarrow> rs_send_chain_key a = rs_recv_chain_key b \<and> rs_send_count a = 0
     \<and> rs_recv_count b = 0 \<and> rs_skipped b = [] \<and> rs_consumed b = []
     \<and> rs_peer_public b = xk_public (rs_dh_keys a)"

lemma ratchet_encrypt_sealed:
  assumes "hkdf_total K" "aead_correct K" "rs_send_chain_key s = chain_at K ck i" "rs_send_count s = of_nat i"
  obtains s' where "ratchet_encrypt K p s = (s', Inr (sealed K ck (xk_public (rs_dh_keys s)) i p))"
    "rs_send_chain_key s' = chain_at K ck (Suc i)" "rs_send_count s' = of_nat (Suc i)"
    "rs_dh_keys s' = rs_dh_keys s" "rs_recv_chain_key s' = rs_recv_chain_key s"
    "rs_recv_count s' = rs_recv_count s" "rs_skipped s' = rs_skipped s" "rs_consumed s' = rs_consumed s"
    "rs_peer_public s' = rs_peer_public s" "rs_root_key s' = rs_root_key s" "rs_role s' = rs_role s"
proof -
  let ?s = "s\<lparr>rs_send_chain_key := chain_at K ck (Suc i), rs_send_count := rs_send_count s + 1\<rparr>"
  let ?pub = "xk_public (rs_dh_keys s)"
  obtain c where "cr_aead_encrypt K (key_at K ck i) (nonce_for (of_nat i)) (ratchet_aad (of_nat i) ?pub) (as_bytes p) = Some c"
    using assms(2) unfolding aead_correct_def by blast
  then have "ratchet_encrypt K p s = (?s, Inr (sealed K ck ?pub i p))"
    using assms by (simp add: ratchet_encrypt_def next_send_message_key_def advance_chain_at sealed_def Let_def)
  then show ?thesis by (rule that) (simp_all add: assms(4) add.commute)
qed

lemma encrypt_all_sealed:
  assumes "hkdf_total K" "aead_correct K" "rs_send_chain_key s = chain_at K ck i" "rs_send_count s = of_nat i"
  shows "snd (encrypt_all K ps s) =
    map (\<lambda>k. Inr (sealed K ck (xk_public (rs_dh_keys s)) (i + k) (ps ! k))) [0..<length ps]"
  using assms(3,4)
proof (induction ps arbitrary: i s)
  case (Cons p ps)
  from ratchet_encrypt_sealed [OF assms(1,2) Cons.prems, of p] obtain s' where s':
    "ratchet_encrypt K p s = (s', Inr (sealed K ck (xk_public (rs_dh_keys s)) i p))"
    "rs_send_chain_key s' = chain_at K ck (Suc i)" "rs_send_count s' = of_nat (Suc i)" "rs_dh_keys s' = rs_dh_keys s"
    by metis
  have "snd (encrypt_all K ps s') = map (\<lambda>k. Inr (sealed K ck (xk_public (rs_dh_keys s)) (Suc i + k) (ps ! k))) [0..<length ps]"
    using Cons.IH [OF s'(2,3)] s'(4) by simp
  moreover have "[0..<length (p # ps)] = 0 # map Suc [0..<length ps]" by (simp only: length_Cons map_Suc_upt upt_conv_Cons zero_less_Suc)
  ultimately show ?case using s'(1) by (simp only:) (simp add: case_prod_unfold comp_def)
qed simp

lemma decrypt_all_sealed:
  assumes "hkdf_total K" "aead_correct K" "receiving K ck r S s" "rs_peer_public s = pub"
    and "\<forall>j \<in> set js. Suc j < 2 ^ 64 \<and> is_str (f j)" "within_window r S js"
  shows "snd (decrypt_all K (map (\<lambda>j. sealed K ck pub j (f j)) js) s) = map (\<lambda>j. Inr (f j)) js"
  using assms(3-)
proof (induction js arbitrary: r S s)
  case (Cons j js)
  have "Suc j < 2 ^ 64" "in_window r S j" "is_str (f j)" using Cons.prems by simp_all
  from receiving_decrypt [OF assms(1,2) Cons.prems(1,2) this] obtain s' where s':
    "ratchet_decrypt K (sealed K ck pub j (f j)) s = (s', Inr (f j))"
    "receiving K ck (fst (next_window r S j)) (snd (next_window r S j)) s'" "same_epoch s s'" by blast
  then have "snd (decrypt_all K (map (\<lambda>j. sealed K ck pub j (f j)) js) s') = map (\<lambda>j. Inr (f j)) js"
    using Cons.prems by (intro Cons.IH) (auto simp: same_epoch_def)
  then show ?case using s'(1) by (simp add: case_prod_unfold Let_def)
qed simp

lemma receiving_fresh:
  assumes "rs_recv_count b = 0" "rs_skipped b = []" "rs_consumed b = []"
  shows "receiving K (rs_recv_chain_key b) 0 {} b"
  using assms by (simp add: receiving_def)

text \<open>The receiver stands where the sender is: both have used \<open>i\<close> keys of one chain.\<close>

definition in_step :: "crypto \<Rightarrow> nat \<Rightarrow> ratchet_session \<Rightarrow> ratchet_session \<Rightarrow> bool" where
  "in_step K i a b \<longleftrightarrow> (\<exists>ck. rs_send_chain_key a = chain_at K ck i \<and> rs_send_count a = of_nat i
     \<and> receiving K ck i {} b \<and> rs_peer_public b = xk_public (rs_dh_keys a))"

lemma fresh_link_in_step: "fresh_link a b \<Longrightarrow> in_step K 0 a b"
  unfolding in_step_def by (rule exI [of _ "rs_recv_chain_key b"]) (auto simp: fresh_link_def intro: receiving_fresh)

lemma next_message:
  assumes "crypto_ok K" "in_step K i sa sb" "Suc i < 2 ^ 64" "is_str p"
  obtains sa' sb' m where "ratchet_encrypt K p sa = (sa', Inr m)" "ratchet_decrypt K m sb = (sb', Inr p)"
    "in_step K (Suc i) sa' sb'" "rm_number m = of_nat i"
proof -
  have K: "hkdf_total K" "aead_correct K" using assms(1) by (simp_all add: crypto_ok_def)
  let ?pub = "xk_public (rs_dh_keys sa)"
  obtain ck where ck: "rs_send_chain_key sa = chain_at K ck i" "rs_send_count sa = of_nat i" "receiving K ck i {} sb"
    "rs_peer_public sb = ?pub" using assms(2) unfolding in_step_def by blast
  obtain sa' where sa': "ratchet_encrypt K p sa = (sa', Inr (sealed K ck ?pub i p))"
    "rs_send_chain_key sa' = chain_at K ck (Suc i)" "rs_send_count sa' = of_nat (Suc i)" "rs_dh_keys sa' = rs_dh_keys sa"
    by (rule ratchet_encrypt_sealed [OF K ck(1,2), of p])
  obtain sb' where sb': "ratchet_decrypt K (sealed K ck ?pub i p) sb = (sb', Inr p)" "receiving K ck (Suc i) {} sb'" "same_epoch sb sb'"
    using receiving_decrypt [OF K ck(3,4) assms(3) _ assms(4)] by (auto simp: in_window_def next_window_def)
  have "in_step K (Suc i) sa' sb'" unfolding in_step_def
    using sa'(2-4) sb'(2,3) ck(4) by (intro exI [of _ ck]) (simp add: same_epoch_def)
  then show ?thesis by (rule that [OF sa'(1) sb'(1)]) (simp add: sealed_def)
qed

lemma delivers_within_window:
  assumes K: "hkdf_total K" "aead_correct K" and "fresh_link a b" "\<forall>p \<in> set ps. is_str p" "length ps < 2 ^ 64"
    and "set js \<subseteq> {..<length ps}" "within_window 0 {} js"
  shows "\<exists>ms. snd (encrypt_all K ps a) = map Inr ms \<and> length ms = length ps
    \<and> snd (decrypt_all K (map (\<lambda>j. ms ! j) js) b) = map (\<lambda>j. Inr (ps ! j)) js"
proof -
  let ?ck = "rs_recv_chain_key b" and ?pub = "rs_peer_public b"
  define ms where "ms = map (\<lambda>k. sealed K ?ck ?pub k (ps ! k)) [0..<length ps]"
  have "snd (encrypt_all K ps a) = map Inr ms"
    using encrypt_all_sealed [OF K, of a ?ck 0 ps] assms(3) by (simp add: fresh_link_def ms_def)
  moreover have "map (\<lambda>j. ms ! j) js = map (\<lambda>j. sealed K ?ck ?pub j (ps ! j)) js"
    using assms(6) by (auto simp: ms_def)
  moreover have "snd (decrypt_all K (map (\<lambda>j. sealed K ?ck ?pub j (ps ! j)) js) b) = map (\<lambda>j. Inr (ps ! j)) js"
  proof (rule decrypt_all_sealed [OF K _ refl _ assms(7)])
    show "receiving K ?ck 0 {} b" using assms(3) by (intro receiving_fresh) (simp_all add: fresh_link_def)
    show "\<forall>j \<in> set js. Suc j < 2 ^ 64 \<and> is_str (ps ! j)" using assms(4-6) by (force simp: subset_eq)
  qed
  moreover have "length ms = length ps" by (simp add: ms_def)
  ultimately show ?thesis by (intro exI [of _ ms]) (simp only:)
qed

text \<open>
  C1: when the receiver stands at the start of the sender's chain, every message the sender
  encrypts can be decrypted to its text, in any order of arrival that stays within the window of
  eight skipped keys; messages may also be lost.
\<close>

theorem ratchet_delivers_within_window:
  assumes "crypto_ok K" "fresh_link a b" "\<forall>p \<in> set ps. is_str p" "length ps < 2 ^ 64"
    and "set js \<subseteq> {..<length ps}" "within_window 0 {} js"
  shows "\<exists>ms. snd (encrypt_all K ps a) = map Inr ms \<and> length ms = length ps
    \<and> snd (decrypt_all K (map (\<lambda>j. ms ! j) js) b) = map (\<lambda>j. Inr (ps ! j)) js"
  using assms delivers_within_window unfolding crypto_ok_def by blast

section \<open>A concrete instance of the primitives\<close>

text \<open>
  Not cryptography: functions that satisfy the documented behaviour, to evaluate the model.
\<close>

definition toy_tag :: "bytes \<Rightarrow> bytes \<Rightarrow> bytes \<Rightarrow> bytes \<Rightarrow> u8" where
  "toy_tag k n a m = sum_list k + 3 * sum_list n + 5 * sum_list a + 7 * sum_list m + of_nat (length m)"

definition toy_crypto :: crypto where
  "toy_crypto =
     \<lparr>cr_x25519_public = \<lambda>a. a,
      cr_x25519_dh = \<lambda>a b. map (\<lambda>(x, y). x + y) (zip a b),
      cr_hkdf = \<lambda>salt ikm info n. Some (replicate n (2 * sum_list ikm + of_nat (length info))),
      cr_aead_encrypt = \<lambda>k n a m. Some (m @ [toy_tag k n a m]),
      cr_aead_decrypt = \<lambda>k n a c. if c \<noteq> [] \<and> last c = toy_tag k n a (butlast c) then Some (butlast c) else None,
      cr_ed25519_public = \<lambda>s. s,
      cr_ed25519_sign = \<lambda>s m. s @ m,
      cr_ed25519_verify = \<lambda>p m sig. sig = p @ m,
      cr_sha256 = \<lambda>m. replicate 32 (sum_list m)\<rparr>"

lemma toy_dh_comm: "map (\<lambda>(x, y). x + y) (zip a b) = map (\<lambda>(x, y). x + (y :: u8)) (zip b a)"
proof (induction a arbitrary: b)
  case (Cons x a)
  then show ?case by (cases b) (simp_all add: add.commute)
qed simp

lemma toy_crypto_ok: "crypto_ok toy_crypto"
  by (simp add: crypto_ok_def dh_agrees_def hkdf_total_def aead_correct_def toy_crypto_def toy_dh_comm)

definition toy_session :: "ratchet_role \<Rightarrow> bytes \<Rightarrow> bytes \<Rightarrow> ratchet_session" where
  "toy_session role private peer =
     projr (ratchet_new toy_crypto (replicate 32 9) role (from_private_bytes toy_crypto private) peer)"

theorem ratchet_delivers_within_window_witness:
  "\<exists>ms. snd (encrypt_all toy_crypto [''a'', ''b'', ''c''] (toy_session RoleAlice [1] [2])) = map Inr ms
    \<and> snd (decrypt_all toy_crypto (map (\<lambda>j. ms ! j) [2, 0, 1]) (toy_session RoleBob [2] [1]))
      = [Inr ''c'', Inr ''a'', Inr ''b'']"
proof -
  have link: "fresh_link (toy_session RoleAlice [1] [2]) (toy_session RoleBob [2] [1])" by code_simp
  have str: "\<forall>p \<in> set [''a'', ''b'', ''c'']. is_str p" by code_simp
  have win: "within_window 0 {} [2, 0, 1]"
    by (simp add: in_window_def next_window_def MAX_SKIPPED_MESSAGE_KEYS_def)
  show ?thesis using ratchet_delivers_within_window [OF toy_crypto_ok link str _ _ win] by auto
qed

section \<open>Replays and bounds\<close>

lemma receive_dh_ratchet_peer:
  "receive_dh_ratchet K pub s = (s', Inr ()) \<Longrightarrow> rs_peer_public s' = pub"
  by (auto simp: receive_dh_ratchet_def apply_dh_ratchet_def Let_def split: sum.splits prod.splits)

lemma next_recv_frame:
  "rs_peer_public (fst (next_recv_message_key K s)) = rs_peer_public s"
  "rs_skipped (fst (next_recv_message_key K s)) = rs_skipped s"
  "rs_consumed (fst (next_recv_message_key K s)) = rs_consumed s"
  "rs_dh_keys (fst (next_recv_message_key K s)) = rs_dh_keys s"
  by (auto simp: next_recv_message_key_def split: sum.splits prod.splits)

lemma skip_message_keys_inv:
  assumes "P s" "\<And>s s' k. P s \<Longrightarrow> length (rs_skipped s) < MAX_SKIPPED_MESSAGE_KEYS \<Longrightarrow>
      next_recv_message_key K s = (s', Inr k) \<Longrightarrow>
      P (s'\<lparr>rs_skipped := bt_insert (rs_recv_count s' - 1) k (rs_skipped s')\<rparr>)"
    and "\<And>s. P s \<Longrightarrow> P (fst (next_recv_message_key K s))"
  shows "P (fst (skip_message_keys K n s))"
  using assms(1)
proof (induction "unat n - unat (rs_recv_count s)" arbitrary: s rule: less_induct)
  case less
  note unfold = skip_message_keys.simps [of K n s]
  show ?case
  proof (cases "rs_recv_count s < n \<and> length (rs_skipped s) < MAX_SKIPPED_MESSAGE_KEYS")
    case False
    then show ?thesis using less.prems by (auto simp: unfold)
  next
    case True
    obtain s' r where sr: "next_recv_message_key K s = (s', r)" by fastforce
    show ?thesis
    proof (cases r)
      case (Inl e)
      then show ?thesis using True sr assms(3) [OF less.prems] by (simp add: unfold)
    next
      case (Inr k)
      let ?t = "s'\<lparr>rs_skipped := bt_insert (rs_recv_count s' - 1) k (rs_skipped s')\<rparr>"
      have "P (fst (skip_message_keys K n ?t))"
        using less.hyps [of ?t] skip_decreases [of s n K s' k] assms(2) [OF less.prems] sr Inr True by simp
      then show ?thesis using True sr Inr by (simp add: unfold)
    qed
  qed
qed

text \<open>The session stays well formed, whatever it is given.\<close>

definition session_wf :: "crypto \<Rightarrow> ratchet_session \<Rightarrow> bool" where
  "session_wf K s \<longleftrightarrow> bt_wf (rs_skipped s) \<and> bset_wf (rs_consumed s)
     \<and> length (rs_skipped s) \<le> MAX_SKIPPED_MESSAGE_KEYS
     \<and> rs_dh_keys s = from_private_bytes K (xk_private (rs_dh_keys s))"

lemma length_bt_insert_le: "length (bt_insert k v m) \<le> Suc (length m)"
  by (simp add: bt_insert_def bt_remove_def)

lemma length_bt_remove_le: "length (bt_remove k m) \<le> length m"
  by (simp add: bt_remove_def)

lemma wf_next_recv: "session_wf K s \<Longrightarrow> session_wf K (fst (next_recv_message_key K s))"
  by (simp add: session_wf_def next_recv_frame)

lemma wf_skip: "session_wf K s \<Longrightarrow> session_wf K (fst (skip_message_keys K n s))"
proof (rule skip_message_keys_inv [where P = "session_wf K"])
  show "session_wf K (s'\<lparr>rs_skipped := bt_insert (rs_recv_count s' - 1) k (rs_skipped s')\<rparr>)"
    if "session_wf K s" "length (rs_skipped s) < MAX_SKIPPED_MESSAGE_KEYS" "next_recv_message_key K s = (s', Inr k)" for s s' k
    using that next_recv_frame [of K s] length_bt_insert_le [of "rs_recv_count s' - 1" k "rs_skipped s'"]
    by (simp add: session_wf_def)
qed (auto intro: wf_next_recv)

lemma wf_apply_dh: "session_wf K s \<Longrightarrow> session_wf K (fst (apply_dh_ratchet K d s))"
  by (auto simp: session_wf_def apply_dh_ratchet_def split: sum.splits prod.splits)

lemma wf_receive_dh: "session_wf K s \<Longrightarrow> session_wf K (fst (receive_dh_ratchet K pub s))"
  unfolding receive_dh_ratchet_def Let_def by (rule wf_apply_dh) (simp add: session_wf_def)

lemma wf_rotate: "session_wf K s \<Longrightarrow> session_wf K (fst (rotate_sending_ratchet K r s))"
  unfolding rotate_sending_ratchet_def Let_def by (rule wf_apply_dh) (simp add: session_wf_def from_private_bytes_def)

lemma wf_encrypt: "session_wf K s \<Longrightarrow> session_wf K (fst (ratchet_encrypt K p s))"
  by (auto simp: session_wf_def ratchet_encrypt_def next_send_message_key_def Let_def
      split: sum.splits prod.splits option.splits)

text \<open>\<^verbatim>\<open>decrypt\<close> in three stages: the ratchet step, the choice of the key, the AEAD.\<close>

definition decrypt_ratchet :: "crypto \<Rightarrow> ratchet_message \<Rightarrow> ratchet_session \<Rightarrow> ratchet_session \<times> (crypto_error + unit)" where
  "decrypt_ratchet K m s =
     (if rm_ratchet_public_key m \<noteq> rs_peer_public s then receive_dh_ratchet K (rm_ratchet_public_key m) s else (s, Inr ()))"

definition decrypt_key :: "crypto \<Rightarrow> u64 \<Rightarrow> ratchet_session \<Rightarrow> ratchet_session \<times> (crypto_error + bytes)" where
  "decrypt_key K number s =
     (case bt_get (rs_skipped s) number of
        Some message_key \<Rightarrow> (s\<lparr>rs_skipped := bt_remove number (rs_skipped s)\<rparr>, Inr message_key)
      | None \<Rightarrow>
          if number < rs_recv_count s then (s, Inl Replay)
          else (case skip_message_keys K number s of
                  (s', Inl e) \<Rightarrow> (s', Inl e)
                | (s', Inr _) \<Rightarrow> next_recv_message_key K s'))"

lemma ratchet_decrypt_stages:
  "ratchet_decrypt K m s0 =
     (case decrypt_ratchet K m s0 of (s, Inl e) \<Rightarrow> (s, Inl e) | (s, Inr _) \<Rightarrow>
        if rm_number m \<in> set (rs_consumed s) then (s, Inl Replay)
        else (case decrypt_key K (rm_number m) s of (s1, Inl e) \<Rightarrow> (s1, Inl e) | (s1, Inr message_key) \<Rightarrow>
          (case cr_aead_decrypt K message_key (nonce_for (rm_number m))
                  (ratchet_aad (rm_number m) (rm_ratchet_public_key m)) (rm_ciphertext m) of
             None \<Rightarrow> (s1, Inl Decrypt)
           | Some plaintext \<Rightarrow>
               (s1\<lparr>rs_consumed := bset_insert (rm_number m) (rs_consumed s1)\<rparr>, ok_or (from_utf8 plaintext) Utf8))))"
  by (auto simp: ratchet_decrypt_def decrypt_ratchet_def decrypt_key_def Let_def split: prod.splits sum.splits)

lemma wf_decrypt_key: "session_wf K s \<Longrightarrow> session_wf K (fst (decrypt_key K n s))"
  using wf_skip [of K s n] wf_next_recv [of K "fst (skip_message_keys K n s)"]
    length_bt_remove_le [of n "rs_skipped s"]
  by (auto simp: decrypt_key_def session_wf_def split: option.splits prod.splits sum.splits)

lemma wf_decrypt: "session_wf K s \<Longrightarrow> session_wf K (fst (ratchet_decrypt K m s))"
proof -
  assume wf: "session_wf K s"
  let ?d = "decrypt_ratchet K m s"
  have d: "session_wf K (fst ?d)" using wf wf_receive_dh by (auto simp: decrypt_ratchet_def)
  then have k: "session_wf K (fst (decrypt_key K (rm_number m) (fst ?d)))" by (rule wf_decrypt_key)
  show ?thesis unfolding ratchet_decrypt_stages
    using d k by (auto simp: session_wf_def split: prod.splits sum.splits option.splits)
qed

text \<open>
  C9: whatever messages a session is asked to decrypt, encrypt or ratchet on, forged ones
  included and failures included, it never holds more than eight skipped message keys, and its
  key pair and its key stores stay well formed.
\<close>

theorem skipped_keys_bounded:
  assumes "session_wf K s"
  shows "session_wf K (fst (ratchet_decrypt K m s)) \<and> session_wf K (fst (ratchet_encrypt K p s))
    \<and> session_wf K (fst (rotate_sending_ratchet K r s)) \<and> length (rs_skipped s) \<le> 8"
  using assms wf_decrypt wf_encrypt wf_rotate by (simp add: session_wf_def MAX_SKIPPED_MESSAGE_KEYS_def)

theorem skipped_keys_bounded_witness:
  "length (rs_skipped (fst (ratchet_decrypt toy_crypto \<lparr>rm_number = 100, rm_ratchet_public_key = [1], rm_ciphertext = []\<rparr>
      (toy_session RoleBob [2] [1])))) \<le> 8"
proof -
  have "session_wf toy_crypto (toy_session RoleBob [2] [1])" by code_simp
  from skipped_keys_bounded [OF this]
  show ?thesis by (metis (no_types) MAX_SKIPPED_MESSAGE_KEYS_def session_wf_def)
qed

lemma skip_frame:
  "rs_peer_public (fst (skip_message_keys K n s)) = rs_peer_public s
   \<and> rs_consumed (fst (skip_message_keys K n s)) = rs_consumed s"
proof (rule skip_message_keys_inv [where P = "\<lambda>t. rs_peer_public t = rs_peer_public s \<and> rs_consumed t = rs_consumed s"], goal_cases)
  case (2 u s' k)
  then show ?case using next_recv_frame(1,3) [of K u] by simp
qed (simp_all add: next_recv_frame)

lemma decrypt_key_frame:
  "rs_peer_public (fst (decrypt_key K n s)) = rs_peer_public s"
  "rs_consumed (fst (decrypt_key K n s)) = rs_consumed s"
  using skip_frame [of K n s] next_recv_frame [of K "fst (skip_message_keys K n s)"]
  by (auto simp: decrypt_key_def split: option.splits prod.splits sum.splits)

lemma decrypt_ratchet_peer: "decrypt_ratchet K m s = (s', Inr ()) \<Longrightarrow> rs_peer_public s' = rm_ratchet_public_key m"
  by (auto simp: decrypt_ratchet_def receive_dh_ratchet_peer split: if_splits)

lemma decrypt_same_epoch:
  assumes "rm_ratchet_public_key m = rs_peer_public s"
  shows "rs_peer_public (fst (ratchet_decrypt K m s)) = rs_peer_public s"
    "set (rs_consumed s) \<subseteq> set (rs_consumed (fst (ratchet_decrypt K m s)))"
  using decrypt_key_frame [of K "rm_number m" s] assms
  by (auto simp: ratchet_decrypt_stages decrypt_ratchet_def split: prod.splits sum.splits option.splits)

lemma decrypt_all_same_epoch:
  assumes "\<forall>m \<in> set ms. rm_ratchet_public_key m = rs_peer_public s"
  shows "rs_peer_public (fst (decrypt_all K ms s)) = rs_peer_public s
    \<and> set (rs_consumed s) \<subseteq> set (rs_consumed (fst (decrypt_all K ms s)))"
  using assms
proof (induction ms arbitrary: s)
  case (Cons m ms)
  let ?s = "fst (ratchet_decrypt K m s)"
  have "rm_ratchet_public_key m = rs_peer_public s" using Cons.prems by simp
  note step = decrypt_same_epoch [OF this, of K]
  have "rs_peer_public (fst (decrypt_all K ms ?s)) = rs_peer_public ?s
    \<and> set (rs_consumed ?s) \<subseteq> set (rs_consumed (fst (decrypt_all K ms ?s)))"
    using Cons.prems step(1) by (intro Cons.IH) simp
  then show ?case using step by (auto simp: case_prod_unfold Let_def)
qed simp

lemma decrypt_success:
  assumes "ratchet_decrypt K m s = (s', Inr p)"
  shows "rm_number m \<in> set (rs_consumed s')" "rs_peer_public s' = rm_ratchet_public_key m"
proof -
  obtain s1 where d: "decrypt_ratchet K m s = (s1, Inr ())"
    using assms by (auto simp: ratchet_decrypt_stages split: prod.splits sum.splits)
  show "rm_number m \<in> set (rs_consumed s')"
    using assms by (auto simp: ratchet_decrypt_stages d split: if_splits prod.splits sum.splits option.splits)
  show "rs_peer_public s' = rm_ratchet_public_key m"
    using assms decrypt_ratchet_peer [OF d] decrypt_key_frame(1) [of K "rm_number m" s1]
    by (auto simp: ratchet_decrypt_stages d split: if_splits prod.splits sum.splits option.splits)
qed

lemma replay_rejected:
  assumes "rm_ratchet_public_key m = rs_peer_public s" "rm_number m \<in> set (rs_consumed s)"
  shows "ratchet_decrypt K m s = (s, Inl Replay)"
  using assms by (simp add: ratchet_decrypt_stages decrypt_ratchet_def)

text \<open>
  C10: a message that was decrypted is rejected as a replay from then on, without any change to
  the session, however many other messages of the same ratchet key came in between, valid or not.
\<close>

theorem decrypted_message_not_replayable:
  assumes "ratchet_decrypt K m s = (s', Inr p)"
    and "\<forall>x \<in> set between. rm_ratchet_public_key x = rm_ratchet_public_key m"
  shows "ratchet_decrypt K m (fst (decrypt_all K between s')) = (fst (decrypt_all K between s'), Inl Replay)"
proof (rule replay_rejected)
  note ok = decrypt_success [OF assms(1)]
  have "\<forall>x \<in> set between. rm_ratchet_public_key x = rs_peer_public s'" using assms(2) ok(2) by simp
  note later = decrypt_all_same_epoch [OF this, of K]
  show "rm_ratchet_public_key m = rs_peer_public (fst (decrypt_all K between s'))" using later ok(2) by simp
  show "rm_number m \<in> set (rs_consumed (fst (decrypt_all K between s')))" using later ok(1) by blast
qed

definition toy_message :: ratchet_message where
  "toy_message = projr (snd (ratchet_encrypt toy_crypto ''hi'' (toy_session RoleAlice [1] [2])))"

theorem decrypted_message_not_replayable_witness:
  "\<exists>s'. ratchet_decrypt toy_crypto toy_message (toy_session RoleBob [2] [1]) = (s', Inr ''hi'')
     \<and> ratchet_decrypt toy_crypto toy_message s' = (s', Inl Replay)"
proof -
  have "snd (ratchet_decrypt toy_crypto toy_message (toy_session RoleBob [2] [1])) = Inr ''hi''" by code_simp
  then obtain s' where s': "ratchet_decrypt toy_crypto toy_message (toy_session RoleBob [2] [1]) = (s', Inr ''hi'')"
    by (cases "ratchet_decrypt toy_crypto toy_message (toy_session RoleBob [2] [1])") simp
  from decrypted_message_not_replayable [OF this, of "[]"] s' show ?thesis by auto
qed

text \<open>
  C17: \<^verbatim>\<open>decrypt\<close> gives up the message key before it knows that the message is genuine.  A forgery
  with the number the receiver expects next is rejected, but afterwards the genuine message of
  that number is rejected as a replay and can never be read.
\<close>

theorem forgery_blocks_genuine_message:
  assumes "hkdf_total K" "session_wf K s" "rs_recv_count s \<noteq> - 1"
    and "rm_ratchet_public_key forged = rs_peer_public s" "rm_number forged = rs_recv_count s"
    and "rs_recv_count s \<notin> set (rs_consumed s)" "bt_get (rs_skipped s) (rs_recv_count s) = None"
    and "\<And>key. cr_aead_decrypt K key (nonce_for (rm_number forged))
          (ratchet_aad (rm_number forged) (rm_ratchet_public_key forged)) (rm_ciphertext forged) = None"
    and "rm_ratchet_public_key genuine = rs_peer_public s" "rm_number genuine = rs_recv_count s"
  shows "\<exists>s'. ratchet_decrypt K forged s = (s', Inl Decrypt) \<and> snd (ratchet_decrypt K genuine s') = Inl Replay"
proof -
  let ?s = "s\<lparr>rs_recv_chain_key := fst (chain_step K (rs_recv_chain_key s)), rs_recv_count := rs_recv_count s + 1\<rparr>"
  have skip: "skip_message_keys K (rs_recv_count s) s = (s, Inr ())" by (simp add: skip_message_keys.simps)
  have "next_recv_message_key K s = (?s, Inr (snd (chain_step K (rs_recv_chain_key s))))"
    using assms(1) by (simp add: next_recv_message_key_def advance_chain_total case_prod_unfold)
  then have "decrypt_key K (rs_recv_count s) s = (?s, Inr (snd (chain_step K (rs_recv_chain_key s))))"
    using assms(7) skip by (simp add: decrypt_key_def)
  then have forged: "ratchet_decrypt K forged s = (?s, Inl Decrypt)"
    using assms(4,5,6,8) by (simp add: ratchet_decrypt_stages decrypt_ratchet_def)
  have "rs_recv_count s + 1 \<noteq> 0" using assms(3) by (metis add_eq_0_iff2)
  then have "unat (1 + rs_recv_count s) = Suc (unat (rs_recv_count s))" by (intro unatSuc) (simp add: add.commute)
  then have "rs_recv_count s < rs_recv_count s + 1" by (simp add: word_less_nat_alt add.commute)
  then have "decrypt_key K (rs_recv_count s) ?s = (?s, Inl Replay)" using assms(7) by (simp add: decrypt_key_def)
  then have "ratchet_decrypt K genuine ?s = (?s, Inl Replay)"
    using assms(6,9,10) by (simp add: ratchet_decrypt_stages decrypt_ratchet_def)
  with forged show ?thesis by simp
qed

theorem forgery_blocks_genuine_message_witness:
  "\<exists>s'. ratchet_decrypt toy_crypto (toy_message\<lparr>rm_ciphertext := []\<rparr>) (toy_session RoleBob [2] [1]) = (s', Inl Decrypt)
     \<and> snd (ratchet_decrypt toy_crypto toy_message s') = Inl Replay"
proof -
  have f: "rs_recv_count (toy_session RoleBob [2] [1]) \<noteq> - 1" "session_wf toy_crypto (toy_session RoleBob [2] [1])"
    "rm_ratchet_public_key toy_message = rs_peer_public (toy_session RoleBob [2] [1])"
    "rm_number toy_message = rs_recv_count (toy_session RoleBob [2] [1])"
    "rs_recv_count (toy_session RoleBob [2] [1]) \<notin> set (rs_consumed (toy_session RoleBob [2] [1]))"
    "bt_get (rs_skipped (toy_session RoleBob [2] [1])) (rs_recv_count (toy_session RoleBob [2] [1])) = None"
    by code_simp+
  have "hkdf_total toy_crypto" using toy_crypto_ok by (simp add: crypto_ok_def)
  from forgery_blocks_genuine_message [OF this f(2,1), of "toy_message\<lparr>rm_ciphertext := []\<rparr>" toy_message] f
  show ?thesis by (simp add: toy_crypto_def)
qed

section \<open>The Diffie-Hellman ratchet\<close>

text \<open>The two ends of a conversation.\<close>

definition linked :: "crypto \<Rightarrow> ratchet_session \<Rightarrow> ratchet_session \<Rightarrow> bool" where
  "linked K a b \<longleftrightarrow> rs_root_key a = rs_root_key b \<and> rs_role a \<noteq> rs_role b
     \<and> rs_dh_keys a = from_private_bytes K (xk_private (rs_dh_keys a))
     \<and> rs_dh_keys b = from_private_bytes K (xk_private (rs_dh_keys b))
     \<and> rs_peer_public a = xk_public (rs_dh_keys b) \<and> rs_peer_public b = xk_public (rs_dh_keys a)"

lemma chains_swap: "r \<noteq> r' \<Longrightarrow> role_chains r x y = (p, q) \<Longrightarrow> role_chains r' x y = (q, p)"
  by (cases r; cases r') auto

lemma derive_dh_total: "hkdf_total K \<Longrightarrow> \<exists>x. derive_dh_ratchet_state K rk d = Inr x"
proof -
  assume "hkdf_total K"
  then obtain out where "cr_hkdf K (Some rk) d DH_RATCHET_INFO 96 = Some out"
    by (rule hkdf_totalE [where n = 96]) auto
  then show ?thesis by (simp add: derive_dh_ratchet_state_def)
qed

lemma apply_dh_agrees:
  assumes "hkdf_total K" "rs_root_key a = rs_root_key b" "rs_role a \<noteq> rs_role b"
  obtains a' b' where "apply_dh_ratchet K d a = (a', Inr ())" "apply_dh_ratchet K d b = (b', Inr ())"
    "rs_root_key a' = rs_root_key b'" "rs_role a' \<noteq> rs_role b'"
    "rs_send_chain_key a' = rs_recv_chain_key b'" "rs_send_chain_key b' = rs_recv_chain_key a'"
    "\<forall>x \<in> {a', b'}. rs_send_count x = 0 \<and> rs_recv_count x = 0 \<and> rs_skipped x = [] \<and> rs_consumed x = []"
    "rs_dh_keys a' = rs_dh_keys a" "rs_dh_keys b' = rs_dh_keys b"
    "rs_peer_public a' = rs_peer_public a" "rs_peer_public b' = rs_peer_public b"
proof -
  obtain rk x y where d: "derive_dh_ratchet_state K (rs_root_key a) d = Inr (rk, x, y)"
    using derive_dh_total [OF assms(1)] by (metis prod_cases3)
  obtain p q where pq: "role_chains (rs_role a) x y = (p, q)" by fastforce
  then have qp: "role_chains (rs_role b) x y = (q, p)" by (rule chains_swap [OF assms(3)])
  let ?new = "\<lambda>s send recv. s\<lparr>rs_root_key := rk, rs_send_chain_key := send, rs_recv_chain_key := recv,
    rs_send_count := 0, rs_recv_count := 0, rs_skipped := [], rs_consumed := []\<rparr>"
  show ?thesis by (rule that [of "?new a p q" "?new b q p"])
      (use d pq qp assms(2,3) in \<open>simp_all add: apply_dh_ratchet_def\<close>)
qed

text \<open>
  C11: when one end rotates its sending key, the other end follows on the first message it
  receives: it derives the same root key and the same chains, both ends are linked again and
  stand at the start of fresh chains in both directions.
\<close>

theorem dh_ratchet_agrees:
  assumes "crypto_ok K" "linked K a b" "rotate_sending_ratchet K private a = (a', res)"
  shows "res = Inr () \<and> (\<exists>b'. receive_dh_ratchet K (xk_public (rs_dh_keys a')) b = (b', Inr ())
    \<and> linked K a' b' \<and> fresh_link a' b' \<and> fresh_link b' a'
    \<and> (cr_x25519_public K private \<noteq> xk_public (rs_dh_keys a) \<longrightarrow>
        (\<forall>m. rm_ratchet_public_key m = xk_public (rs_dh_keys a') \<longrightarrow> ratchet_decrypt K m b = ratchet_decrypt K m b')))"
proof -
  have K: "hkdf_total K" "dh_agrees K" using assms(1) by (simp_all add: crypto_ok_def)
  define a0 where "a0 = a\<lparr>rs_dh_keys := from_private_bytes K private\<rparr>"
  define pub where "pub = cr_x25519_public K private"
  define b0 where "b0 = b\<lparr>rs_peer_public := pub\<rparr>"
  define d where "d = dh_bytes K (rs_dh_keys a0) (rs_peer_public a0)"
  have bk: "xk_public (rs_dh_keys b) = cr_x25519_public K (xk_private (rs_dh_keys b))"
    using assms(2) unfolding linked_def from_private_bytes_def by (metis x25519_key_pair.select_convs(2))
  have d': "dh_bytes K (rs_dh_keys b) pub = d"
    using assms(2) K(2) bk by (simp add: linked_def d_def a0_def pub_def dh_bytes_def from_private_bytes_def dh_agrees_def)
  have "rs_root_key a0 = rs_root_key b0" "rs_role a0 \<noteq> rs_role b0"
    using assms(2) by (simp_all add: linked_def a0_def b0_def)
  from apply_dh_agrees [OF K(1) this, of d] obtain a1 b1 where ab:
    "apply_dh_ratchet K d a0 = (a1, Inr ())" "apply_dh_ratchet K d b0 = (b1, Inr ())"
    "rs_root_key a1 = rs_root_key b1" "rs_role a1 \<noteq> rs_role b1"
    "rs_send_chain_key a1 = rs_recv_chain_key b1" "rs_send_chain_key b1 = rs_recv_chain_key a1"
    "\<forall>x \<in> {a1, b1}. rs_send_count x = 0 \<and> rs_recv_count x = 0 \<and> rs_skipped x = [] \<and> rs_consumed x = []"
    "rs_dh_keys a1 = rs_dh_keys a0" "rs_dh_keys b1 = rs_dh_keys b0"
    "rs_peer_public a1 = rs_peer_public a0" "rs_peer_public b1 = rs_peer_public b0" by blast
  have run: "a' = a1" "res = Inr ()"
    using assms(3) ab(1) by (simp_all add: rotate_sending_ratchet_def Let_def a0_def d_def)
  have pubs: "xk_public (rs_dh_keys a1) = pub" "rs_peer_public b1 = pub"
    using ab by (simp_all add: a0_def b0_def from_private_bytes_def pub_def)
  have rec: "receive_dh_ratchet K pub b = (b1, Inr ())"
    using ab(2) d' by (simp add: receive_dh_ratchet_def b0_def Let_def)
  have link: "linked K a1 b1"
    using ab pubs assms(2) by (simp add: linked_def a0_def b0_def from_private_bytes_def)
  moreover have "fresh_link a1 b1 \<and> fresh_link b1 a1"
    using ab pubs link by (simp add: fresh_link_def linked_def)
  moreover have "ratchet_decrypt K m b = ratchet_decrypt K m b1"
    if "pub \<noteq> xk_public (rs_dh_keys a)" "rm_ratchet_public_key m = pub" for m
  proof -
    have "rs_peer_public b \<noteq> pub" using that(1) assms(2) by (simp add: linked_def)
    then have "decrypt_ratchet K m b = decrypt_ratchet K m b1"
      using that(2) rec pubs(2) by (simp add: decrypt_ratchet_def)
    then show ?thesis by (simp add: ratchet_decrypt_stages)
  qed
  ultimately show ?thesis using rec pubs run by (auto simp: pub_def)
qed

theorem dh_ratchet_agrees_witness:
  "\<exists>b'. receive_dh_ratchet toy_crypto [5] (toy_session RoleBob [2] [1]) = (b', Inr ())
     \<and> fresh_link (fst (rotate_sending_ratchet toy_crypto [5] (toy_session RoleAlice [1] [2]))) b'"
proof -
  let ?a = "toy_session RoleAlice [1] [2]" and ?b = "toy_session RoleBob [2] [1]"
  have l: "linked toy_crypto ?a ?b" by code_simp
  have "rotate_sending_ratchet toy_crypto [5] ?a = (fst (rotate_sending_ratchet toy_crypto [5] ?a), snd (rotate_sending_ratchet toy_crypto [5] ?a))"
    by simp
  from dh_ratchet_agrees [OF toy_crypto_ok l this]
  have "\<exists>b'. receive_dh_ratchet toy_crypto (xk_public (rs_dh_keys (fst (rotate_sending_ratchet toy_crypto [5] ?a)))) ?b = (b', Inr ())
    \<and> fresh_link (fst (rotate_sending_ratchet toy_crypto [5] ?a)) b'" by blast
  moreover have "xk_public (rs_dh_keys (fst (rotate_sending_ratchet toy_crypto [5] ?a))) = [5]" by code_simp
  ultimately show ?thesis by simp
qed

section \<open>Exported state and nonces\<close>

lemma role_state_round_trip [simp]: "role_from_state (role_state r) = r"
  by (cases r) auto

lemma state_round_trip: "session_wf K s \<Longrightarrow> ratchet_from_state K (ratchet_state s) = s"
  by (cases s) (simp add: ratchet_from_state_def ratchet_state_def session_wf_def bt_collect_id bset_collect_id)

text \<open>
  A session written with \<^verbatim>\<open>state\<close> and read with \<^verbatim>\<open>from_state\<close> is the same session, after any
  sequence of decryptions it was given.
\<close>

theorem session_state_round_trip:
  assumes "session_wf K s"
  shows "ratchet_from_state K (ratchet_state (fst (decrypt_all K ms s))) = fst (decrypt_all K ms s)"
proof (rule state_round_trip)
  show "session_wf K (fst (decrypt_all K ms s))" using assms
  proof (induction ms arbitrary: s)
    case (Cons m ms)
    then have "session_wf K (fst (decrypt_all K ms (fst (ratchet_decrypt K m s))))" using wf_decrypt by blast
    then show ?case by (simp add: case_prod_unfold Let_def)
  qed simp
qed

theorem session_state_round_trip_witness:
  "ratchet_from_state toy_crypto (ratchet_state (toy_session RoleBob [2] [1])) = toy_session RoleBob [2] [1]"
proof -
  have "session_wf toy_crypto (toy_session RoleBob [2] [1])" by code_simp
  from session_state_round_trip [OF this, of "[]"] show ?thesis by simp
qed

text \<open>
  The nonce and the associated data identify the message: different numbers give different
  nonces, and the associated data fixes number and ratchet key.
\<close>

theorem nonce_and_aad_injective:
  "(nonce_for m = nonce_for n \<longleftrightarrow> m = n) \<and> length (nonce_for n) = 12
   \<and> (ratchet_aad m p = ratchet_aad n q \<longleftrightarrow> m = n \<and> p = q)"
  by (simp add: nonce_for_def ratchet_aad_def append_eq_append_conv)

end
