(* ===== verification/Identity.thy ===== *)
theory Identity
  imports Ratchet
begin

text \<open>
  Identities of \<^verbatim>\<open>src/src/lib.rs\<close>: signed key exchanges and prekeys, accounts and devices with
  their certificates and revocations, device sessions, and the two endpoints \<^verbatim>\<open>Alice\<close> and \<^verbatim>\<open>Bob\<close>.
  \<open>cr_ed25519_verify K key bytes sig\<close> stands for parsing the key and the signature and verifying;
  the code reports each of the three failures as \<open>SignatureVerification\<close>.
\<close>

section \<open>Constants\<close>

definition PREKEY_HKDF_INFO :: bytes where
  "PREKEY_HKDF_INFO = as_bytes ''ciphermesh.phase-2c.prekey-initial-session''"

definition SIGNED_KEY_EXCHANGE_CONTEXT :: bytes where
  "SIGNED_KEY_EXCHANGE_CONTEXT = as_bytes ''ciphermesh.phase-2b.signed-x25519''"

definition SIGNED_PREKEY_CONTEXT :: bytes where
  "SIGNED_PREKEY_CONTEXT = as_bytes ''ciphermesh.phase-2c.signed-prekey''"

definition DEVICE_CERTIFICATE_CONTEXT :: bytes where
  "DEVICE_CERTIFICATE_CONTEXT = as_bytes ''ciphermesh.phase-5a.device-certificate''"

definition DEVICE_REVOCATION_CONTEXT :: bytes where
  "DEVICE_REVOCATION_CONTEXT = as_bytes ''ciphermesh.phase-5d.device-revocation''"

section \<open>Identity keys and signed material\<close>

record identity_key_pair =
  ik_secret :: bytes

definition ik_public_key :: "crypto \<Rightarrow> identity_key_pair \<Rightarrow> bytes" where
  "ik_public_key K ident = cr_ed25519_public K (ik_secret ident)"

definition ik_from_secret_bytes :: "bytes \<Rightarrow> identity_key_pair" where
  "ik_from_secret_bytes secret = \<lparr>ik_secret = secret\<rparr>"

record signed_key_exchange =
  ske_identity_public_key :: bytes
  ske_x25519_public_key :: bytes
  ske_signature :: bytes

record prekey_bundle =
  pb_identity_public_key :: bytes
  pb_signed_prekey_public_key :: bytes
  pb_signed_prekey_signature :: bytes
  pb_one_time_prekey_id :: u64
  pb_one_time_prekey_public_key :: bytes

record initial_message =
  im_alice_initial_public_key :: bytes
  im_one_time_prekey_id :: u64
  im_message :: ratchet_message

definition signed_key_exchange_bytes :: "bytes \<Rightarrow> bytes \<Rightarrow> bytes" where
  "signed_key_exchange_bytes identity_public_key x25519_public_key =
     SIGNED_KEY_EXCHANGE_CONTEXT @ identity_public_key @ x25519_public_key"

definition signed_prekey_bytes :: "bytes \<Rightarrow> bytes \<Rightarrow> bytes" where
  "signed_prekey_bytes identity_public_key signed_prekey_public_key =
     SIGNED_PREKEY_CONTEXT @ identity_public_key @ signed_prekey_public_key"

definition sign_key_exchange :: "crypto \<Rightarrow> identity_key_pair \<Rightarrow> bytes \<Rightarrow> signed_key_exchange" where
  "sign_key_exchange K ident x25519_public_key =
     (let identity_public_key = ik_public_key K ident
      in \<lparr>ske_identity_public_key = identity_public_key, ske_x25519_public_key = x25519_public_key,
          ske_signature = cr_ed25519_sign K (ik_secret ident)
            (signed_key_exchange_bytes identity_public_key x25519_public_key)\<rparr>)"

definition sign_prekey :: "crypto \<Rightarrow> identity_key_pair \<Rightarrow> bytes \<Rightarrow> bytes" where
  "sign_prekey K ident signed_prekey_public_key = cr_ed25519_sign K (ik_secret ident)
     (signed_prekey_bytes (ik_public_key K ident) signed_prekey_public_key)"

definition verified :: "bool \<Rightarrow> crypto_error + unit" where
  "verified b = (if b then Inr () else Inl SignatureVerification)"

definition verify_signed_key_exchange :: "crypto \<Rightarrow> signed_key_exchange \<Rightarrow> crypto_error + unit" where
  "verify_signed_key_exchange K exchange = verified (cr_ed25519_verify K (ske_identity_public_key exchange)
     (signed_key_exchange_bytes (ske_identity_public_key exchange) (ske_x25519_public_key exchange))
     (ske_signature exchange))"

definition verify_signed_prekey :: "crypto \<Rightarrow> prekey_bundle \<Rightarrow> crypto_error + unit" where
  "verify_signed_prekey K bundle = verified (cr_ed25519_verify K (pb_identity_public_key bundle)
     (signed_prekey_bytes (pb_identity_public_key bundle) (pb_signed_prekey_public_key bundle))
     (pb_signed_prekey_signature bundle))"

definition derive_prekey_aead_key :: "crypto \<Rightarrow> bytes \<Rightarrow> bytes \<Rightarrow> crypto_error + bytes" where
  "derive_prekey_aead_key K first_dh second_dh =
     ok_or (cr_hkdf K None (first_dh @ second_dh) PREKEY_HKDF_INFO 32) KeyDerivation"

section \<open>Accounts, devices, certificates\<close>

text \<open>\<^verbatim>\<open>format!("{byte:02x}")\<close>\<close>

definition hex_digit :: "nat \<Rightarrow> char" where
  "hex_digit n = char_of (if n < 10 then 48 + n else 87 + n)"

definition hex_byte :: "u8 \<Rightarrow> string" where
  "hex_byte b = [hex_digit (unat b div 16), hex_digit (unat b mod 16)]"

definition short_hash :: "crypto \<Rightarrow> bytes \<Rightarrow> string" where
  "short_hash K bs = concat (map hex_byte (take 16 (cr_sha256 K bs)))"

definition account_id_for_public_key :: "crypto \<Rightarrow> bytes \<Rightarrow> string" where
  "account_id_for_public_key K public_key = ''acct-'' @ short_hash K public_key"

definition device_id_for_public_key :: "crypto \<Rightarrow> bytes \<Rightarrow> string" where
  "device_id_for_public_key K public_key = ''dev-'' @ short_hash K public_key"

record device_certificate =
  crt_account_id :: string
  crt_device_id :: string
  crt_ed25519_public_key :: bytes
  crt_x25519_public_key :: bytes
  crt_signature :: bytes

record device_revocation =
  rev_account_id :: string
  rev_device_id :: string
  rev_revocation_counter :: u64
  rev_signature :: bytes

definition device_certificate_bytes :: "device_certificate \<Rightarrow> bytes" where
  "device_certificate_bytes certificate =
     DEVICE_CERTIFICATE_CONTEXT @ as_bytes (crt_account_id certificate) @ [0]
     @ as_bytes (crt_device_id certificate) @ [0]
     @ crt_ed25519_public_key certificate @ crt_x25519_public_key certificate"

definition device_revocation_bytes :: "device_revocation \<Rightarrow> bytes" where
  "device_revocation_bytes revocation =
     DEVICE_REVOCATION_CONTEXT @ as_bytes (rev_account_id revocation) @ [0]
     @ as_bytes (rev_device_id revocation) @ [0] @ to_be_bytes (rev_revocation_counter revocation)"

record account_identity =
  acc_account_id :: string
  acc_identity :: identity_key_pair

record device_identity =
  dev_account_id :: string
  dev_device_id :: string
  dev_signing :: identity_key_pair
  dev_x25519 :: x25519_key_pair

text \<open>\<open>secret\<close> and \<open>private\<close> are the random bytes of the key generation.\<close>

definition account_generate :: "crypto \<Rightarrow> bytes \<Rightarrow> account_identity" where
  "account_generate K secret =
     (let ident = ik_from_secret_bytes secret
      in \<lparr>acc_account_id = account_id_for_public_key K (ik_public_key K ident), acc_identity = ident\<rparr>)"

definition device_generate :: "crypto \<Rightarrow> bytes \<Rightarrow> bytes \<Rightarrow> string \<Rightarrow> device_identity" where
  "device_generate K secret private account_id =
     (let signing = ik_from_secret_bytes secret
      in \<lparr>dev_account_id = account_id, dev_device_id = device_id_for_public_key K (ik_public_key K signing),
          dev_signing = signing, dev_x25519 = from_private_bytes K private\<rparr>)"

record account_identity_state =
  ais_account_id :: string
  ais_account_secret_key :: bytes

record device_identity_state =
  dis_account_id :: string
  dis_device_id :: string
  dis_device_secret_key :: bytes
  dis_device_x25519_private_key :: bytes

definition account_export_state :: "account_identity \<Rightarrow> account_identity_state" where
  "account_export_state a = \<lparr>ais_account_id = acc_account_id a, ais_account_secret_key = ik_secret (acc_identity a)\<rparr>"

definition account_from_state :: "account_identity_state \<Rightarrow> account_identity" where
  "account_from_state st = \<lparr>acc_account_id = ais_account_id st,
     acc_identity = ik_from_secret_bytes (ais_account_secret_key st)\<rparr>"

definition device_export_state :: "device_identity \<Rightarrow> device_identity_state" where
  "device_export_state d = \<lparr>dis_account_id = dev_account_id d, dis_device_id = dev_device_id d,
     dis_device_secret_key = ik_secret (dev_signing d), dis_device_x25519_private_key = xk_private (dev_x25519 d)\<rparr>"

definition device_from_state :: "crypto \<Rightarrow> device_identity_state \<Rightarrow> device_identity" where
  "device_from_state K st = \<lparr>dev_account_id = dis_account_id st, dev_device_id = dis_device_id st,
     dev_signing = ik_from_secret_bytes (dis_device_secret_key st),
     dev_x25519 = from_private_bytes K (dis_device_x25519_private_key st)\<rparr>"

definition authorize_device :: "crypto \<Rightarrow> account_identity \<Rightarrow> device_identity \<Rightarrow> device_certificate" where
  "authorize_device K account device =
     (let certificate = \<lparr>crt_account_id = acc_account_id account, crt_device_id = dev_device_id device,
            crt_ed25519_public_key = ik_public_key K (dev_signing device),
            crt_x25519_public_key = xk_public (dev_x25519 device), crt_signature = []\<rparr>
      in certificate\<lparr>crt_signature :=
           cr_ed25519_sign K (ik_secret (acc_identity account)) (device_certificate_bytes certificate)\<rparr>)"

definition revoke_device :: "crypto \<Rightarrow> account_identity \<Rightarrow> string \<Rightarrow> u64 \<Rightarrow> device_revocation" where
  "revoke_device K account device_id revocation_counter =
     (let revocation = \<lparr>rev_account_id = acc_account_id account, rev_device_id = device_id,
            rev_revocation_counter = revocation_counter, rev_signature = []\<rparr>
      in revocation\<lparr>rev_signature :=
           cr_ed25519_sign K (ik_secret (acc_identity account)) (device_revocation_bytes revocation)\<rparr>)"

definition verify_device_certificate :: "crypto \<Rightarrow> bytes \<Rightarrow> device_certificate \<Rightarrow> crypto_error + unit" where
  "verify_device_certificate K account_public_key certificate =
     (if crt_account_id certificate \<noteq> account_id_for_public_key K account_public_key
      then Inl SignatureVerification
      else verified (cr_ed25519_verify K account_public_key (device_certificate_bytes certificate)
             (crt_signature certificate)))"

definition verify_authorized_sibling_devices ::
    "crypto \<Rightarrow> bytes \<Rightarrow> device_certificate \<Rightarrow> device_certificate \<Rightarrow> crypto_error + unit" where
  "verify_authorized_sibling_devices K account_public_key first second =
     and_then (verify_device_certificate K account_public_key first) (\<lambda>_.
     and_then (verify_device_certificate K account_public_key second) (\<lambda>_.
       if crt_account_id first \<noteq> crt_account_id second \<or> crt_device_id first = crt_device_id second
       then Inl SignatureVerification else Inr ()))"

definition verify_device_revocation :: "crypto \<Rightarrow> bytes \<Rightarrow> device_revocation \<Rightarrow> crypto_error + unit" where
  "verify_device_revocation K account_public_key revocation =
     (if rev_account_id revocation \<noteq> account_id_for_public_key K account_public_key
      then Inl SignatureVerification
      else verified (cr_ed25519_verify K account_public_key (device_revocation_bytes revocation)
             (rev_signature revocation)))"

text \<open>The loop over the revocations.\<close>

fun not_revoked ::
    "crypto \<Rightarrow> bytes \<Rightarrow> device_certificate \<Rightarrow> device_revocation list \<Rightarrow> crypto_error + bool" where
  "not_revoked K account_public_key certificate [] = Inr True"
| "not_revoked K account_public_key certificate (revocation # revocations) =
     (if rev_account_id revocation = crt_account_id certificate
         \<and> rev_device_id revocation = crt_device_id certificate
      then and_then (verify_device_revocation K account_public_key revocation) (\<lambda>_. Inr False)
      else not_revoked K account_public_key certificate revocations)"

definition is_device_currently_authorized ::
    "crypto \<Rightarrow> bytes \<Rightarrow> device_certificate \<Rightarrow> device_revocation list \<Rightarrow> crypto_error + bool" where
  "is_device_currently_authorized K account_public_key certificate revocations =
     and_then (verify_device_certificate K account_public_key certificate)
       (\<lambda>_. not_revoked K account_public_key certificate revocations)"

definition active_device_certificates ::
    "crypto \<Rightarrow> bytes \<Rightarrow> device_certificate list \<Rightarrow> device_revocation list
      \<Rightarrow> crypto_error + device_certificate list" where
  "active_device_certificates K account_public_key certificates revocations =
     collect_results (List.map_filter
       (\<lambda>certificate. case is_device_currently_authorized K account_public_key certificate revocations of
          Inr True \<Rightarrow> Some (Inr certificate)
        | Inr False \<Rightarrow> None
        | Inl error \<Rightarrow> Some (Inl error)) certificates)"

section \<open>Device sessions\<close>

record device_session =
  ds_local_device_id :: string
  ds_remote_device_id :: string
  ds_session :: ratchet_session

record device_delivery_envelope =
  de_logical_message_id :: string
  de_sender_device_id :: string
  de_recipient_device_id :: string
  de_message :: ratchet_message

definition create_outbound_session ::
    "crypto \<Rightarrow> device_identity \<Rightarrow> bytes \<Rightarrow> device_certificate \<Rightarrow> crypto_error + device_session" where
  "create_outbound_session K device remote_account_public_key remote_certificate =
     and_then (verify_device_certificate K remote_account_public_key remote_certificate) (\<lambda>_.
     and_then (derive_aead_key K (dev_x25519 device) (crt_x25519_public_key remote_certificate)) (\<lambda>key.
     and_then (ratchet_new K key RoleAlice (dev_x25519 device) (crt_x25519_public_key remote_certificate)) (\<lambda>session.
       Inr \<lparr>ds_local_device_id = dev_device_id device,
            ds_remote_device_id = crt_device_id remote_certificate, ds_session = session\<rparr>)))"

definition create_inbound_session ::
    "crypto \<Rightarrow> device_identity \<Rightarrow> string \<Rightarrow> bytes \<Rightarrow> crypto_error + device_session" where
  "create_inbound_session K device remote_device_id remote_device_x25519_public_key =
     and_then (derive_aead_key K (dev_x25519 device) remote_device_x25519_public_key) (\<lambda>key.
     and_then (ratchet_new K key RoleBob (dev_x25519 device) remote_device_x25519_public_key) (\<lambda>session.
       Inr \<lparr>ds_local_device_id = dev_device_id device, ds_remote_device_id = remote_device_id,
            ds_session = session\<rparr>))"

definition device_encrypt ::
    "crypto \<Rightarrow> string \<Rightarrow> string \<Rightarrow> device_session \<Rightarrow> device_session \<times> (crypto_error + device_delivery_envelope)" where
  "device_encrypt K logical_message_id plaintext s =
     (case ratchet_encrypt K plaintext (ds_session s) of (session, res) \<Rightarrow>
        (s\<lparr>ds_session := session\<rparr>, and_then res (\<lambda>message.
           Inr \<lparr>de_logical_message_id = logical_message_id, de_sender_device_id = ds_local_device_id s,
                de_recipient_device_id = ds_remote_device_id s, de_message = message\<rparr>)))"

definition device_decrypt ::
    "crypto \<Rightarrow> device_delivery_envelope \<Rightarrow> device_session \<Rightarrow> device_session \<times> (crypto_error + string)" where
  "device_decrypt K envelope s =
     (if de_recipient_device_id envelope \<noteq> ds_local_device_id s
         \<or> de_sender_device_id envelope \<noteq> ds_remote_device_id s
      then (s, Inl Decrypt)
      else (case ratchet_decrypt K (de_message envelope) (ds_session s) of (session, res) \<Rightarrow>
              (s\<lparr>ds_session := session\<rparr>, res)))"

record device_session_state =
  dss_local_device_id :: string
  dss_remote_device_id :: string
  dss_session :: ratchet_session_state

definition device_session_export_state :: "device_session \<Rightarrow> device_session_state" where
  "device_session_export_state s = \<lparr>dss_local_device_id = ds_local_device_id s,
     dss_remote_device_id = ds_remote_device_id s, dss_session = ratchet_state (ds_session s)\<rparr>"

definition device_session_from_state :: "crypto \<Rightarrow> device_session_state \<Rightarrow> device_session" where
  "device_session_from_state K st = \<lparr>ds_local_device_id = dss_local_device_id st,
     ds_remote_device_id = dss_remote_device_id st, ds_session = ratchet_from_state K (dss_session st)\<rparr>"

section \<open>Alice and Bob\<close>

record one_time_prekey =
  otp_id :: u64
  otp_keys :: x25519_key_pair

record alice =
  al_identity :: identity_key_pair
  al_keys :: x25519_key_pair
  al_session :: "ratchet_session option"

record bob =
  bo_identity :: identity_key_pair
  bo_keys :: x25519_key_pair
  bo_signed_prekey :: x25519_key_pair
  bo_one_time_prekey :: "one_time_prekey option"
  bo_session :: "ratchet_session option"

definition alice_local :: "crypto \<Rightarrow> bytes \<Rightarrow> bytes \<Rightarrow> alice" where
  "alice_local K secret private = \<lparr>al_identity = ik_from_secret_bytes secret,
     al_keys = from_private_bytes K private, al_session = None\<rparr>"

definition bob_local :: "crypto \<Rightarrow> bytes \<Rightarrow> bytes \<Rightarrow> bytes \<Rightarrow> bytes \<Rightarrow> bob" where
  "bob_local K secret private prekey one_time = \<lparr>bo_identity = ik_from_secret_bytes secret,
     bo_keys = from_private_bytes K private, bo_signed_prekey = from_private_bytes K prekey,
     bo_one_time_prekey = Some \<lparr>otp_id = 1, otp_keys = from_private_bytes K one_time\<rparr>, bo_session = None\<rparr>"

definition bob_mailbox_demo :: "crypto \<Rightarrow> bob" where
  "bob_mailbox_demo K = bob_local K (replicate 32 0x3d) (replicate 32 0x3e) (replicate 32 0x3f) (replicate 32 0x40)"

definition alice_signed_key_exchange :: "crypto \<Rightarrow> alice \<Rightarrow> signed_key_exchange" where
  "alice_signed_key_exchange K a = sign_key_exchange K (al_identity a) (xk_public (al_keys a))"

definition bob_signed_key_exchange :: "crypto \<Rightarrow> bob \<Rightarrow> signed_key_exchange" where
  "bob_signed_key_exchange K b = sign_key_exchange K (bo_identity b) (xk_public (bo_keys b))"

definition alice_derive_session_key ::
    "crypto \<Rightarrow> signed_key_exchange \<Rightarrow> alice \<Rightarrow> crypto_error + alice" where
  "alice_derive_session_key K bob_exchange a =
     and_then (verify_signed_key_exchange K bob_exchange) (\<lambda>_.
     and_then (derive_aead_key K (al_keys a) (ske_x25519_public_key bob_exchange)) (\<lambda>key.
     and_then (ratchet_new K key RoleAlice (al_keys a) (ske_x25519_public_key bob_exchange)) (\<lambda>session.
       Inr (a\<lparr>al_session := Some session\<rparr>))))"

definition bob_derive_session_key :: "crypto \<Rightarrow> signed_key_exchange \<Rightarrow> bob \<Rightarrow> crypto_error + bob" where
  "bob_derive_session_key K alice_exchange b =
     and_then (verify_signed_key_exchange K alice_exchange) (\<lambda>_.
     and_then (derive_aead_key K (bo_keys b) (ske_x25519_public_key alice_exchange)) (\<lambda>key.
     and_then (ratchet_new K key RoleBob (bo_keys b) (ske_x25519_public_key alice_exchange)) (\<lambda>session.
       Inr (b\<lparr>bo_session := Some session\<rparr>))))"

text \<open>\<^verbatim>\<open>self.session.as_mut().ok_or(MissingSessionKey)?\<close> followed by an operation on the session.\<close>

definition with_session ::
    "(ratchet_session \<Rightarrow> ratchet_session \<times> (crypto_error + 'a)) \<Rightarrow> ratchet_session option
      \<Rightarrow> ratchet_session option \<times> (crypto_error + 'a)" where
  "with_session f session = (case session of
     None \<Rightarrow> (None, Inl MissingSessionKey)
   | Some s \<Rightarrow> (case f s of (s', res) \<Rightarrow> (Some s', res)))"

definition encrypt_for_bob :: "crypto \<Rightarrow> string \<Rightarrow> alice \<Rightarrow> alice \<times> (crypto_error + ratchet_message)" where
  "encrypt_for_bob K message a =
     (case with_session (ratchet_encrypt K message) (al_session a) of (s, res) \<Rightarrow> (a\<lparr>al_session := s\<rparr>, res))"

definition decrypt_from_bob :: "crypto \<Rightarrow> ratchet_message \<Rightarrow> alice \<Rightarrow> alice \<times> (crypto_error + string)" where
  "decrypt_from_bob K message a =
     (case with_session (ratchet_decrypt K message) (al_session a) of (s, res) \<Rightarrow> (a\<lparr>al_session := s\<rparr>, res))"

definition alice_rotate_sending_ratchet :: "crypto \<Rightarrow> bytes \<Rightarrow> alice \<Rightarrow> alice \<times> (crypto_error + unit)" where
  "alice_rotate_sending_ratchet K private a =
     (case with_session (rotate_sending_ratchet K private) (al_session a) of (s, res) \<Rightarrow> (a\<lparr>al_session := s\<rparr>, res))"

definition encrypt_for_alice :: "crypto \<Rightarrow> string \<Rightarrow> bob \<Rightarrow> bob \<times> (crypto_error + ratchet_message)" where
  "encrypt_for_alice K message b =
     (case with_session (ratchet_encrypt K message) (bo_session b) of (s, res) \<Rightarrow> (b\<lparr>bo_session := s\<rparr>, res))"

definition decrypt_from_alice :: "crypto \<Rightarrow> ratchet_message \<Rightarrow> bob \<Rightarrow> bob \<times> (crypto_error + string)" where
  "decrypt_from_alice K message b =
     (case with_session (ratchet_decrypt K message) (bo_session b) of (s, res) \<Rightarrow> (b\<lparr>bo_session := s\<rparr>, res))"

definition bob_prekey_bundle :: "crypto \<Rightarrow> bob \<Rightarrow> crypto_error + prekey_bundle" where
  "bob_prekey_bundle K b =
     and_then (ok_or (bo_one_time_prekey b) PreKeyUnavailable) (\<lambda>one_time_prekey.
       let signed_prekey_public_key = xk_public (bo_signed_prekey b)
       in Inr \<lparr>pb_identity_public_key = ik_public_key K (bo_identity b),
               pb_signed_prekey_public_key = signed_prekey_public_key,
               pb_signed_prekey_signature = sign_prekey K (bo_identity b) signed_prekey_public_key,
               pb_one_time_prekey_id = otp_id one_time_prekey,
               pb_one_time_prekey_public_key = xk_public (otp_keys one_time_prekey)\<rparr>)"

definition replenish_one_time_prekey :: "crypto \<Rightarrow> bytes \<Rightarrow> u64 \<Rightarrow> bob \<Rightarrow> bob" where
  "replenish_one_time_prekey K private pid b =
     (case bo_one_time_prekey b of
        None \<Rightarrow> b\<lparr>bo_one_time_prekey := Some \<lparr>otp_id = pid, otp_keys = from_private_bytes K private\<rparr>\<rparr>
      | Some _ \<Rightarrow> b)"

definition encrypt_initial_message ::
    "crypto \<Rightarrow> bytes \<Rightarrow> prekey_bundle \<Rightarrow> string \<Rightarrow> alice \<Rightarrow> alice \<times> (crypto_error + initial_message)" where
  "encrypt_initial_message K private bundle message a =
     (case verify_signed_prekey K bundle of Inl e \<Rightarrow> (a, Inl e) | Inr _ \<Rightarrow>
        let initial_keys = from_private_bytes K private;
            first_dh = dh_bytes K initial_keys (pb_signed_prekey_public_key bundle);
            second_dh = dh_bytes K initial_keys (pb_one_time_prekey_public_key bundle)
        in case derive_prekey_aead_key K first_dh second_dh of Inl e \<Rightarrow> (a, Inl e) | Inr key \<Rightarrow>
          (case ratchet_new K key RoleAlice initial_keys (pb_signed_prekey_public_key bundle) of
             Inl e \<Rightarrow> (a, Inl e)
           | Inr session \<Rightarrow>
               (case encrypt_for_bob K message (a\<lparr>al_session := Some session\<rparr>) of
                  (a', Inl e) \<Rightarrow> (a', Inl e)
                | (a', Inr ciphertext) \<Rightarrow>
                    (a', Inr \<lparr>im_alice_initial_public_key = rm_ratchet_public_key ciphertext,
                              im_one_time_prekey_id = pb_one_time_prekey_id bundle,
                              im_message = ciphertext\<rparr>))))"

definition decrypt_initial_message ::
    "crypto \<Rightarrow> initial_message \<Rightarrow> bob \<Rightarrow> bob \<times> (crypto_error + string)" where
  "decrypt_initial_message K message b =
     (case bo_one_time_prekey b of None \<Rightarrow> (b, Inl PreKeyUnavailable) | Some one_time_prekey \<Rightarrow>
        if otp_id one_time_prekey \<noteq> im_one_time_prekey_id message then (b, Inl PreKeyUnavailable)
        else
          (let b1 = b\<lparr>bo_one_time_prekey := None\<rparr>;
               first_dh = dh_bytes K (bo_signed_prekey b) (im_alice_initial_public_key message);
               second_dh = dh_bytes K (otp_keys one_time_prekey) (im_alice_initial_public_key message)
           in case derive_prekey_aead_key K first_dh second_dh of Inl e \<Rightarrow> (b1, Inl e) | Inr key \<Rightarrow>
             (case ratchet_new K key RoleBob (bo_signed_prekey b) (im_alice_initial_public_key message) of
                Inl e \<Rightarrow> (b1, Inl e)
              | Inr session \<Rightarrow>
                  decrypt_from_alice K (im_message message) (b1\<lparr>bo_session := Some session\<rparr>))))"

record one_time_prekey_state =
  ots_id :: u64
  ots_private_key :: bytes

record alice_state =
  as_identity_secret_key :: bytes
  as_x25519_private_key :: bytes
  as_session :: "ratchet_session_state option"

record bob_state =
  bs_identity_secret_key :: bytes
  bs_x25519_private_key :: bytes
  bs_signed_prekey_private_key :: bytes
  bs_one_time_prekey :: "one_time_prekey_state option"
  bs_session :: "ratchet_session_state option"

definition otp_state :: "one_time_prekey \<Rightarrow> one_time_prekey_state" where
  "otp_state p = \<lparr>ots_id = otp_id p, ots_private_key = xk_private (otp_keys p)\<rparr>"

definition otp_from_state :: "crypto \<Rightarrow> one_time_prekey_state \<Rightarrow> one_time_prekey" where
  "otp_from_state K st = \<lparr>otp_id = ots_id st, otp_keys = from_private_bytes K (ots_private_key st)\<rparr>"

definition alice_export_state :: "alice \<Rightarrow> alice_state" where
  "alice_export_state a = \<lparr>as_identity_secret_key = ik_secret (al_identity a),
     as_x25519_private_key = xk_private (al_keys a), as_session = map_option ratchet_state (al_session a)\<rparr>"

definition alice_from_state :: "crypto \<Rightarrow> alice_state \<Rightarrow> alice" where
  "alice_from_state K st = \<lparr>al_identity = ik_from_secret_bytes (as_identity_secret_key st),
     al_keys = from_private_bytes K (as_x25519_private_key st),
     al_session = map_option (ratchet_from_state K) (as_session st)\<rparr>"

definition bob_export_state :: "bob \<Rightarrow> bob_state" where
  "bob_export_state b = \<lparr>bs_identity_secret_key = ik_secret (bo_identity b),
     bs_x25519_private_key = xk_private (bo_keys b),
     bs_signed_prekey_private_key = xk_private (bo_signed_prekey b),
     bs_one_time_prekey = map_option otp_state (bo_one_time_prekey b),
     bs_session = map_option ratchet_state (bo_session b)\<rparr>"

definition bob_from_state :: "crypto \<Rightarrow> bob_state \<Rightarrow> bob" where
  "bob_from_state K st = \<lparr>bo_identity = ik_from_secret_bytes (bs_identity_secret_key st),
     bo_keys = from_private_bytes K (bs_x25519_private_key st),
     bo_signed_prekey = from_private_bytes K (bs_signed_prekey_private_key st),
     bo_one_time_prekey = map_option (otp_from_state K) (bs_one_time_prekey st),
     bo_session = map_option (ratchet_from_state K) (bs_session st)\<rparr>"

text \<open>The simulated directory hands the published bundle out once.\<close>

type_synonym simulated_directory = "prekey_bundle option"

definition publish_bob_bundle :: "crypto \<Rightarrow> bob \<Rightarrow> simulated_directory \<Rightarrow> simulated_directory \<times> (crypto_error + unit)" where
  "publish_bob_bundle K b dir = (case bob_prekey_bundle K b of
     Inl e \<Rightarrow> (dir, Inl e) | Inr bundle \<Rightarrow> (Some bundle, Inr ()))"

definition take_bob_prekey_bundle :: "simulated_directory \<Rightarrow> simulated_directory \<times> (crypto_error + prekey_bundle)" where
  "take_bob_prekey_bundle dir = (None, ok_or dir PreKeyUnavailable)"

end
