(* ===== verification/Handshake.thy ===== *)
theory Handshake
  imports Identity RatchetProps
begin

text \<open>
  The endpoints \<^verbatim>\<open>Alice\<close> and \<^verbatim>\<open>Bob\<close>: what both promise is the locale \<open>endpoint\<close>, interpreted on
  either; the prekey handshake and the signed key exchange give two linked sessions, over which
  messages are delivered in any order within the window.
\<close>

section \<open>Endpoints\<close>

fun run_all :: "('x \<Rightarrow> 'e \<Rightarrow> 'e \<times> 'r) \<Rightarrow> 'x list \<Rightarrow> 'e \<Rightarrow> 'e \<times> 'r list" where
  "run_all f [] e = (e, [])"
| "run_all f (x # xs) e = (let (e', r) = f x e; (t, rs) = run_all f xs e' in (t, r # rs))"

lemma encrypt_all_run: "encrypt_all K ps s = run_all (ratchet_encrypt K) ps s"
  by (induction ps arbitrary: s) simp_all

lemma decrypt_all_run: "decrypt_all K ms s = run_all (ratchet_decrypt K) ms s"
  by (induction ms arbitrary: s) simp_all

text \<open>An endpoint runs its session, and reports a missing one.\<close>

locale endpoint =
  fixes session :: "'e \<Rightarrow> ratchet_session option"
    and send :: "crypto \<Rightarrow> string \<Rightarrow> 'e \<Rightarrow> 'e \<times> (crypto_error + ratchet_message)"
    and receive :: "crypto \<Rightarrow> ratchet_message \<Rightarrow> 'e \<Rightarrow> 'e \<times> (crypto_error + string)"
  assumes send_session: "session e = Some s \<Longrightarrow>
      session (fst (send K p e)) = Some (fst (ratchet_encrypt K p s)) \<and> snd (send K p e) = snd (ratchet_encrypt K p s)"
    and receive_session: "session e = Some s \<Longrightarrow>
      session (fst (receive K m e)) = Some (fst (ratchet_decrypt K m s)) \<and> snd (receive K m e) = snd (ratchet_decrypt K m s)"
    and no_session: "session e = None \<Longrightarrow> send K p e = (e, Inl MissingSessionKey) \<and> receive K m e = (e, Inl MissingSessionKey)"
begin

lemma send_all: "session e = Some s \<Longrightarrow> snd (run_all (send K) ps e) = snd (encrypt_all K ps s)"
proof (induction ps arbitrary: e s)
  case (Cons p ps)
  from send_session [OF Cons.prems, of K p] Cons.IH [of "fst (send K p e)" "fst (ratchet_encrypt K p s)"]
  show ?case by (simp add: case_prod_unfold Let_def)
qed simp

lemma receive_all: "session e = Some s \<Longrightarrow> snd (run_all (receive K) ms e) = snd (decrypt_all K ms s)"
proof (induction ms arbitrary: e s)
  case (Cons m ms)
  from receive_session [OF Cons.prems, of K m] Cons.IH [of "fst (receive K m e)" "fst (ratchet_decrypt K m s)"]
  show ?case by (simp add: case_prod_unfold Let_def)
qed simp

end

interpretation alice: endpoint al_session encrypt_for_bob decrypt_from_bob
  by unfold_locales
     (auto simp: encrypt_for_bob_def decrypt_from_bob_def with_session_def split: prod.splits option.splits)

interpretation bob: endpoint bo_session encrypt_for_alice decrypt_from_alice
  by unfold_locales
     (auto simp: encrypt_for_alice_def decrypt_from_alice_def with_session_def split: prod.splits option.splits)

section \<open>Two fresh sessions from one secret\<close>

lemma ratchet_new_linked:
  assumes "hkdf_total K" "ka = from_private_bytes K (xk_private ka)" "kb = from_private_bytes K (xk_private kb)"
  obtains sa sb where "ratchet_new K rk RoleAlice ka (xk_public kb) = Inr sa" "ratchet_new K rk RoleBob kb (xk_public ka) = Inr sb"
    "linked K sa sb" "fresh_link sa sb" "fresh_link sb sa" "session_wf K sa" "session_wf K sb"
    "rs_dh_keys sa = ka" "rs_dh_keys sb = kb" "rs_peer_public sb = xk_public ka"
proof -
  obtain out where "cr_hkdf K None rk INITIAL_CHAIN_INFO 64 = Some out"
    by (rule hkdf_totalE [where n = 64, OF assms(1)]) auto
  then have d: "derive_directional_chains K rk = Inr (take 32 out, drop 32 out)"
    by (simp add: derive_directional_chains_def)
  let ?new = "\<lambda>role snd_ck rcv_ck keys peer. \<lparr>rs_role = role, rs_root_key = rk, rs_send_chain_key = snd_ck,
     rs_recv_chain_key = rcv_ck, rs_send_count = 0, rs_recv_count = 0, rs_skipped = [], rs_consumed = [],
     rs_dh_keys = keys, rs_peer_public = peer\<rparr>"
  show ?thesis
    by (rule that [of "?new RoleAlice (take 32 out) (drop 32 out) ka (xk_public kb)"
          "?new RoleBob (drop 32 out) (take 32 out) kb (xk_public ka)"])
       (use assms(2,3) in \<open>simp_all add: ratchet_new_def d linked_def fresh_link_def session_wf_def
          MAX_SKIPPED_MESSAGE_KEYS_def\<close>)
qed

lemma linked_same_epoch: "linked K a b \<Longrightarrow> same_epoch b b' \<Longrightarrow> linked K a b'"
  by (simp add: linked_def same_epoch_def)

lemma first_message:
  assumes "crypto_ok K" "linked K sa sb" "fresh_link sa sb" "fresh_link sb sa" "is_str p"
  obtains sa' sb' m where "ratchet_encrypt K p sa = (sa', Inr m)" "ratchet_decrypt K m sb = (sb', Inr p)"
    "rm_ratchet_public_key m = xk_public (rs_dh_keys sa)" "linked K sa' sb'" "in_step K 1 sa' sb'" "fresh_link sb' sa'"
proof -
  have K: "hkdf_total K" "aead_correct K" using assms(1) by (simp_all add: crypto_ok_def)
  let ?ck = "rs_recv_chain_key sb" and ?pub = "xk_public (rs_dh_keys sa)"
  have f: "rs_send_chain_key sa = chain_at K ?ck 0" "rs_send_count sa = of_nat 0"
    using assms(3) by (simp_all add: fresh_link_def)
  obtain sa' where sa': "ratchet_encrypt K p sa = (sa', Inr (sealed K ?ck ?pub 0 p))" "rs_dh_keys sa' = rs_dh_keys sa"
    "rs_peer_public sa' = rs_peer_public sa" "rs_root_key sa' = rs_root_key sa" "rs_role sa' = rs_role sa"
    "rs_send_chain_key sa' = chain_at K ?ck (Suc 0)" "rs_send_count sa' = of_nat (Suc 0)"
    "rs_recv_chain_key sa' = rs_recv_chain_key sa" "rs_recv_count sa' = rs_recv_count sa" "rs_skipped sa' = rs_skipped sa"
    "rs_consumed sa' = rs_consumed sa"
    by (rule ratchet_encrypt_sealed [OF K f, of p])
  have "receiving K ?ck 0 {} sb" using assms(3) by (intro receiving_fresh) (simp_all add: fresh_link_def)
  moreover have pub: "rs_peer_public sb = ?pub" using assms(3) by (simp add: fresh_link_def)
  ultimately obtain sb' where sb': "ratchet_decrypt K (sealed K ?ck ?pub 0 p) sb = (sb', Inr p)" "same_epoch sb sb'"
    "receiving K ?ck (Suc 0) {} sb'"
    using receiving_decrypt [OF K, of ?ck 0 "{}" sb ?pub 0 p] assms(5) by (auto simp: in_window_def next_window_def)
  have "linked K sa' sb" using assms(2) sa' by (simp add: linked_def)
  then have "linked K sa' sb'" using sb'(2) by (rule linked_same_epoch)
  moreover have "in_step K 1 sa' sb'"
    unfolding in_step_def using sa' sb'(2,3) pub by (intro exI [of _ ?ck]) (simp add: same_epoch_def)
  moreover have "fresh_link sb' sa'" using assms(4) sa' sb'(2) by (simp add: fresh_link_def same_epoch_def)
  ultimately show ?thesis using that [OF sa'(1) sb'(1)] by (simp add: sealed_def)
qed

section \<open>The prekey handshake\<close>

definition sig_correct :: "crypto \<Rightarrow> bool" where
  "sig_correct K \<longleftrightarrow> (\<forall>secret m. cr_ed25519_verify K (cr_ed25519_public K secret) m (cr_ed25519_sign K secret m))"

definition bob_wf :: "crypto \<Rightarrow> bob \<Rightarrow> bool" where
  "bob_wf K b \<longleftrightarrow> bo_keys b = from_private_bytes K (xk_private (bo_keys b))
     \<and> bo_signed_prekey b = from_private_bytes K (xk_private (bo_signed_prekey b))
     \<and> (\<forall>p. bo_one_time_prekey b = Some p \<longrightarrow> otp_keys p = from_private_bytes K (xk_private (otp_keys p)))
     \<and> (\<forall>s. bo_session b = Some s \<longrightarrow> session_wf K s)"

lemma derive_prekey_total: "hkdf_total K \<Longrightarrow> \<exists>key. derive_prekey_aead_key K x y = Inr key"
  using hkdf_totalE [of K 32 None "x @ y" PREKEY_HKDF_INFO] by (auto simp: derive_prekey_aead_key_def)

lemma dh_bytes_agree:
  assumes "dh_agrees K" "ka = from_private_bytes K (xk_private ka)" "kb = from_private_bytes K (xk_private kb)"
  shows "dh_bytes K ka (xk_public kb) = dh_bytes K kb (xk_public ka)"
proof -
  have "xk_public k = cr_x25519_public K (xk_private k)" if "k = from_private_bytes K (xk_private k)" for k
    using that unfolding from_private_bytes_def by (metis x25519_key_pair.select_convs(2))
  then show ?thesis using assms unfolding dh_bytes_def dh_agrees_def by metis
qed

lemma initial_message_steps:
  assumes "crypto_ok K" "sig_correct K" "bob_wf K b" "bob_prekey_bundle K b = Inr bundle" "is_str p"
    and "encrypt_initial_message K private bundle p a = (a', res)"
  shows "\<exists>m b' sa sb. res = Inr m \<and> decrypt_initial_message K m b = (b', Inr p)
    \<and> bo_one_time_prekey b' = None \<and> decrypt_initial_message K m b' = (b', Inl PreKeyUnavailable)
    \<and> al_session a' = Some sa \<and> bo_session b' = Some sb \<and> linked K sa sb \<and> in_step K 1 sa sb \<and> in_step K 0 sb sa
    \<and> a' = a\<lparr>al_session := Some sa\<rparr>"
proof -
  have K: "hkdf_total K" "dh_agrees K" using assms(1) by (simp_all add: crypto_ok_def)
  obtain otp where otp: "bo_one_time_prekey b = Some otp" using assms(4)
    by (auto simp: bob_prekey_bundle_def and_then_Inr_iff)
  have bdl: "pb_identity_public_key bundle = ik_public_key K (bo_identity b)"
    "pb_signed_prekey_public_key bundle = xk_public (bo_signed_prekey b)"
    "pb_signed_prekey_signature bundle = sign_prekey K (bo_identity b) (xk_public (bo_signed_prekey b))"
    "pb_one_time_prekey_id bundle = otp_id otp" "pb_one_time_prekey_public_key bundle = xk_public (otp_keys otp)"
    using assms(4) otp by (auto simp: bob_prekey_bundle_def Let_def)
  have ver: "verify_signed_prekey K bundle = Inr ()"
    using assms(2) by (simp add: verify_signed_prekey_def bdl sign_prekey_def verified_def sig_correct_def ik_public_key_def)
  let ?ik = "from_private_bytes K private" and ?sk = "bo_signed_prekey b"
  have wf: "?sk = from_private_bytes K (xk_private ?sk)" "otp_keys otp = from_private_bytes K (xk_private (otp_keys otp))"
    "?ik = from_private_bytes K (xk_private ?ik)"
    using assms(3) otp by (simp_all add: bob_wf_def from_private_bytes_def)
  obtain key where key: "derive_prekey_aead_key K (dh_bytes K ?ik (xk_public ?sk)) (dh_bytes K ?ik (xk_public (otp_keys otp))) = Inr key"
    using derive_prekey_total [OF K(1)] by blast
  have key': "derive_prekey_aead_key K (dh_bytes K ?sk (xk_public ?ik)) (dh_bytes K (otp_keys otp) (xk_public ?ik)) = Inr key"
    using key dh_bytes_agree [OF K(2) wf(3,1)] dh_bytes_agree [OF K(2) wf(3,2)] by simp
  obtain sa sb where s: "ratchet_new K key RoleAlice ?ik (xk_public ?sk) = Inr sa" "ratchet_new K key RoleBob ?sk (xk_public ?ik) = Inr sb"
    "linked K sa sb" "fresh_link sa sb" "fresh_link sb sa" "rs_dh_keys sa = ?ik" by (rule ratchet_new_linked [OF K(1) wf(3,1)])
  obtain sa' sb' m where m: "ratchet_encrypt K p sa = (sa', Inr m)" "ratchet_decrypt K m sb = (sb', Inr p)"
    "rm_ratchet_public_key m = xk_public ?ik" "linked K sa' sb'" "in_step K 1 sa' sb'" "fresh_link sb' sa'"
    by (rule first_message [OF assms(1) s(3,4,5) assms(5)]) (simp add: s(6))
  have run: "a' = a\<lparr>al_session := Some sa'\<rparr>" "res = Inr \<lparr>im_alice_initial_public_key = xk_public ?ik,
      im_one_time_prekey_id = otp_id otp, im_message = m\<rparr>"
    using assms(6) ver key s(1) m(1,3)
    by (simp_all add: encrypt_initial_message_def Let_def bdl encrypt_for_bob_def with_session_def)
  let ?m = "\<lparr>im_alice_initial_public_key = xk_public ?ik, im_one_time_prekey_id = otp_id otp, im_message = m\<rparr>"
  let ?b' = "b\<lparr>bo_one_time_prekey := None, bo_session := Some sb'\<rparr>"
  have "decrypt_initial_message K ?m b = (?b', Inr p)"
    using otp key' s(2) m(2) by (simp add: decrypt_initial_message_def Let_def decrypt_from_alice_def with_session_def)
  moreover have "decrypt_initial_message K ?m ?b' = (?b', Inl PreKeyUnavailable)" by (simp add: decrypt_initial_message_def)
  ultimately show ?thesis using run m(4,5) fresh_link_in_step [OF m(6)]
    by (intro exI [of _ ?m] exI [of _ ?b'] exI [of _ sa'] exI [of _ sb']) simp
qed

lemma initial_message_run:
  assumes "crypto_ok K" "sig_correct K" "bob_wf K b" "bob_prekey_bundle K b = Inr bundle" "is_str p"
    and "encrypt_initial_message K private bundle p a = (a', res)"
  shows "\<exists>m b' sa sb. res = Inr m \<and> decrypt_initial_message K m b = (b', Inr p)
    \<and> bo_one_time_prekey b' = None \<and> decrypt_initial_message K m b' = (b', Inl PreKeyUnavailable)
    \<and> al_session a' = Some sa \<and> bo_session b' = Some sb \<and> linked K sa sb"
  using initial_message_steps [OF assms] by blast

text \<open>
  C4: an initial message that Alice encrypts for the bundle Bob published is decrypted by Bob to
  its text; it uses up Bob's one-time prekey, so the same message is refused afterwards, and it
  leaves Alice and Bob with linked sessions.
\<close>

theorem prekey_handshake:
  assumes "crypto_ok K" "sig_correct K" "bob_wf K b" "bob_prekey_bundle K b = Inr bundle" "is_str p"
    and "encrypt_initial_message K private bundle p a = (a', res)"
  shows "\<exists>m b' sa sb. res = Inr m \<and> decrypt_initial_message K m b = (b', Inr p)
    \<and> bo_one_time_prekey b' = None \<and> decrypt_initial_message K m b' = (b', Inl PreKeyUnavailable)
    \<and> al_session a' = Some sa \<and> bo_session b' = Some sb \<and> linked K sa sb"
  using assms by (rule initial_message_run)

lemma toy_sig_correct: "sig_correct toy_crypto"
  by (simp add: sig_correct_def toy_crypto_def)

definition toy_bob :: bob where
  "toy_bob = bob_local toy_crypto [1] [2] [3] [4]"

theorem prekey_handshake_witness:
  "\<exists>m b'. snd (encrypt_initial_message toy_crypto [9] (projr (bob_prekey_bundle toy_crypto toy_bob)) ''hello''
       (alice_local toy_crypto [5] [6])) = Inr m
     \<and> decrypt_initial_message toy_crypto m toy_bob = (b', Inr ''hello'')
     \<and> decrypt_initial_message toy_crypto m b' = (b', Inl PreKeyUnavailable)"
proof -
  let ?pb = "projr (bob_prekey_bundle toy_crypto toy_bob)" and ?a = "alice_local toy_crypto [5] [6]"
  have wf: "bob_wf toy_crypto toy_bob" by (simp add: bob_wf_def toy_bob_def bob_local_def from_private_bytes_def)
  have b: "bob_prekey_bundle toy_crypto toy_bob = Inr ?pb" by (simp add: bob_prekey_bundle_def toy_bob_def bob_local_def Let_def)
  have str: "is_str ''hello''" by code_simp
  have "encrypt_initial_message toy_crypto [9] ?pb ''hello'' ?a =
    (fst (encrypt_initial_message toy_crypto [9] ?pb ''hello'' ?a), snd (encrypt_initial_message toy_crypto [9] ?pb ''hello'' ?a))"
    by simp
  from prekey_handshake [OF toy_crypto_ok toy_sig_correct wf b str this] show ?thesis by blast
qed

text \<open>
  Bob gives up his one-time prekey before he has authenticated the initial message.  Any
  message that names the right prekey id is enough: it is rejected, but the prekey is gone, the
  session Bob had is replaced, and the genuine initial message is refused.
\<close>

theorem forged_initial_message_burns_prekey:
  assumes "hkdf_total K" "bo_one_time_prekey b = Some otp" "im_one_time_prekey_id forged = otp_id otp"
    and "\<And>key n aad. cr_aead_decrypt K key n aad (rm_ciphertext (im_message forged)) = None"
  shows "\<exists>b' e. decrypt_initial_message K forged b = (b', Inl e) \<and> bo_one_time_prekey b' = None
    \<and> bo_session b' \<noteq> None \<and> (\<forall>genuine. snd (decrypt_initial_message K genuine b') = Inl PreKeyUnavailable)"
proof -
  let ?d1 = "dh_bytes K (bo_signed_prekey b) (im_alice_initial_public_key forged)"
  let ?d2 = "dh_bytes K (otp_keys otp) (im_alice_initial_public_key forged)"
  obtain key where key: "derive_prekey_aead_key K ?d1 ?d2 = Inr key" using derive_prekey_total [OF assms(1)] by blast
  obtain out where "cr_hkdf K None key INITIAL_CHAIN_INFO 64 = Some out"
    by (rule hkdf_totalE [where n = 64, OF assms(1)]) auto
  then obtain s where s: "ratchet_new K key RoleBob (bo_signed_prekey b) (im_alice_initial_public_key forged) = Inr s"
    by (simp add: ratchet_new_def derive_directional_chains_def)
  obtain s' e where e: "ratchet_decrypt K (im_message forged) s = (s', Inl e)"
    by (cases "ratchet_decrypt K (im_message forged) s")
       (auto simp: ratchet_decrypt_stages assms(4) split: prod.splits sum.splits if_splits)
  have "decrypt_initial_message K forged b = (b\<lparr>bo_one_time_prekey := None, bo_session := Some s'\<rparr>, Inl e)"
    using assms(2,3) key s e by (simp add: decrypt_initial_message_def Let_def decrypt_from_alice_def with_session_def)
  then show ?thesis by (simp add: decrypt_initial_message_def)
qed

definition toy_forgery :: initial_message where
  "toy_forgery = \<lparr>im_alice_initial_public_key = [8], im_one_time_prekey_id = 1,
     im_message = \<lparr>rm_number = 0, rm_ratchet_public_key = [8], rm_ciphertext = []\<rparr>\<rparr>"

theorem forged_initial_message_burns_prekey_witness:
  "\<exists>b' e. decrypt_initial_message toy_crypto toy_forgery toy_bob = (b', Inl e) \<and> bo_one_time_prekey b' = None
    \<and> bo_session b' \<noteq> None \<and> (\<forall>genuine. snd (decrypt_initial_message toy_crypto genuine b') = Inl PreKeyUnavailable)"
proof (rule forged_initial_message_burns_prekey)
  show "hkdf_total toy_crypto" using toy_crypto_ok by (simp add: crypto_ok_def)
  show "bo_one_time_prekey toy_bob = Some (the (bo_one_time_prekey toy_bob))" by (simp add: toy_bob_def bob_local_def)
  show "im_one_time_prekey_id toy_forgery = otp_id (the (bo_one_time_prekey toy_bob))"
    by (simp add: toy_bob_def bob_local_def toy_forgery_def)
  show "\<And>key n aad. cr_aead_decrypt toy_crypto key n aad (rm_ciphertext (im_message toy_forgery)) = None"
    by (simp add: toy_crypto_def toy_forgery_def)
qed

section \<open>The signed key exchange\<close>

lemma derive_aead_total: "hkdf_total K \<Longrightarrow> \<exists>key. derive_aead_key K k p = Inr key"
  using hkdf_totalE [of K 32 None "cr_x25519_dh K (xk_private k) p" HKDF_INFO] by (auto simp: derive_aead_key_def)

lemma derive_aead_agree:
  assumes "dh_agrees K" "ka = from_private_bytes K (xk_private ka)" "kb = from_private_bytes K (xk_private kb)"
  shows "derive_aead_key K ka (xk_public kb) = derive_aead_key K kb (xk_public ka)"
  using dh_bytes_agree [OF assms] by (simp add: derive_aead_key_def dh_bytes_def)

lemma key_exchange_sessions:
  assumes "hkdf_total K" "dh_agrees K" "sig_correct K"
    and "al_keys a = from_private_bytes K (xk_private (al_keys a))" "bo_keys b = from_private_bytes K (xk_private (bo_keys b))"
  obtains sa sb where "alice_derive_session_key K (bob_signed_key_exchange K b) a = Inr (a\<lparr>al_session := Some sa\<rparr>)"
    "bob_derive_session_key K (alice_signed_key_exchange K a) b = Inr (b\<lparr>bo_session := Some sb\<rparr>)"
    "fresh_link sa sb" "fresh_link sb sa" "session_wf K sa" "session_wf K sb"
proof -
  obtain key where key: "derive_aead_key K (al_keys a) (xk_public (bo_keys b)) = Inr key" using derive_aead_total [OF assms(1)] by blast
  then have key': "derive_aead_key K (bo_keys b) (xk_public (al_keys a)) = Inr key" using derive_aead_agree [OF assms(2,4,5)] by simp
  obtain sa sb where s: "ratchet_new K key RoleAlice (al_keys a) (xk_public (bo_keys b)) = Inr sa"
    "ratchet_new K key RoleBob (bo_keys b) (xk_public (al_keys a)) = Inr sb" "fresh_link sa sb" "fresh_link sb sa"
    "session_wf K sa" "session_wf K sb"
    by (rule ratchet_new_linked [OF assms(1,4,5)])
  have ver: "verify_signed_key_exchange K (sign_key_exchange K i x) = Inr ()" for i x
    using assms(3) by (simp add: verify_signed_key_exchange_def sign_key_exchange_def Let_def verified_def sig_correct_def ik_public_key_def)
  show ?thesis
    by (rule that [OF _ _ s(3-6)])
       (use ver key key' s(1,2) in \<open>simp_all add: alice_derive_session_key_def bob_derive_session_key_def
          bob_signed_key_exchange_def alice_signed_key_exchange_def sign_key_exchange_def Let_def\<close>)
qed

text \<open>
  C8: after Alice and Bob have exchanged signed keys, whatever Alice sends is received by Bob, and
  whatever Bob sends by Alice, each text unchanged and in any order of arrival within the window.  The two
  directions are taken each on its own; a conversation in which they alternate is not covered.
\<close>

theorem key_exchange_conversation:
  assumes "crypto_ok K" "sig_correct K"
    and "al_keys a = from_private_bytes K (xk_private (al_keys a))" "bo_keys b = from_private_bytes K (xk_private (bo_keys b))"
    and "\<forall>p \<in> set ps. is_str p" "length ps < 2 ^ 64" "set js \<subseteq> {..<length ps}" "within_window 0 {} js"
  shows "\<exists>a' b'. alice_derive_session_key K (bob_signed_key_exchange K b) a = Inr a'
    \<and> bob_derive_session_key K (alice_signed_key_exchange K a) b = Inr b'
    \<and> (\<exists>ms. snd (run_all (encrypt_for_bob K) ps a') = map Inr ms
        \<and> snd (run_all (decrypt_from_alice K) (map (\<lambda>j. ms ! j) js) b') = map (\<lambda>j. Inr (ps ! j)) js)
    \<and> (\<exists>ms. snd (run_all (encrypt_for_alice K) ps b') = map Inr ms
        \<and> snd (run_all (decrypt_from_bob K) (map (\<lambda>j. ms ! j) js) a') = map (\<lambda>j. Inr (ps ! j)) js)"
proof -
  have K: "hkdf_total K" "dh_agrees K" "aead_correct K" using assms(1) by (simp_all add: crypto_ok_def)
  obtain sa sb where s: "alice_derive_session_key K (bob_signed_key_exchange K b) a = Inr (a\<lparr>al_session := Some sa\<rparr>)"
    "bob_derive_session_key K (alice_signed_key_exchange K a) b = Inr (b\<lparr>bo_session := Some sb\<rparr>)" "fresh_link sa sb" "fresh_link sb sa"
    by (rule key_exchange_sessions [OF K(1,2) assms(2-4)])
  let ?a = "a\<lparr>al_session := Some sa\<rparr>" and ?b = "b\<lparr>bo_session := Some sb\<rparr>"
  have "\<exists>ms. snd (encrypt_all K ps x) = map Inr ms \<and> snd (decrypt_all K (map (\<lambda>j. ms ! j) js) y) = map (\<lambda>j. Inr (ps ! j)) js"
    if "fresh_link x y" for x y using delivers_within_window [OF K(1,3) that assms(5-8)] by blast
  then show ?thesis using s alice.send_all [of ?a sa K] alice.receive_all [of ?a sa K]
      bob.send_all [of ?b sb K] bob.receive_all [of ?b sb K] by simp
qed

theorem key_exchange_conversation_witness:
  "\<exists>a' b' ms. alice_derive_session_key toy_crypto (bob_signed_key_exchange toy_crypto toy_bob) (alice_local toy_crypto [5] [6]) = Inr a'
     \<and> bob_derive_session_key toy_crypto (alice_signed_key_exchange toy_crypto (alice_local toy_crypto [5] [6])) toy_bob = Inr b'
     \<and> snd (run_all (encrypt_for_bob toy_crypto) [''a'', ''b''] a') = map Inr ms
     \<and> snd (run_all (decrypt_from_alice toy_crypto) [ms ! 1, ms ! 0] b') = [Inr ''b'', Inr ''a'']"
proof -
  let ?a = "alice_local toy_crypto [5] [6]"
  have k: "al_keys ?a = from_private_bytes toy_crypto (xk_private (al_keys ?a))"
    "bo_keys toy_bob = from_private_bytes toy_crypto (xk_private (bo_keys toy_bob))"
    by (simp_all add: alice_local_def toy_bob_def bob_local_def from_private_bytes_def)
  have str: "\<forall>p \<in> set [''a'', ''b'']. is_str p" by code_simp
  have win: "within_window 0 {} [1, 0]" by (simp add: in_window_def next_window_def MAX_SKIPPED_MESSAGE_KEYS_def)
  from key_exchange_conversation [OF toy_crypto_ok toy_sig_correct k str _ _ win] show ?thesis by fastforce
qed

section \<open>Saved endpoints\<close>

text \<open>Bob's exported state restores him: keys, prekeys and session are the same.\<close>

lemma bob_state_round_trip:
  assumes "bob_wf K b"
  shows "bob_from_state K (bob_export_state b) = b"
proof -
  have "map_option (\<lambda>p. otp_from_state K (otp_state p)) (bo_one_time_prekey b) = bo_one_time_prekey b"
    using assms by (cases "bo_one_time_prekey b") (auto simp: bob_wf_def otp_from_state_def otp_state_def)
  moreover have "map_option (\<lambda>s. ratchet_from_state K (ratchet_state s)) (bo_session b) = bo_session b"
    using assms by (cases "bo_session b") (auto simp: bob_wf_def state_round_trip)
  ultimately show ?thesis using assms
    by (cases b) (auto simp: bob_from_state_def bob_export_state_def bob_wf_def ik_from_secret_bytes_def option.map_comp comp_def)
qed

end
