(* ===== verification/Devices.thy ===== *)
theory Devices
  imports Handshake EventSync
begin

text \<open>
  Accounts and their devices: certificates and revocations (\<^verbatim>\<open>src/src/lib.rs\<close>), sessions between
  certified devices, and the synchronisation of sibling devices with its authorisation check
  (\<^verbatim>\<open>sync_authorized_sibling_devices\<close> of \<^verbatim>\<open>src/src/main.rs\<close>).
\<close>

section \<open>What is signed\<close>

lemma certificate_context_neq: "DEVICE_CERTIFICATE_CONTEXT @ x \<noteq> DEVICE_REVOCATION_CONTEXT @ y"
proof
  assume "DEVICE_CERTIFICATE_CONTEXT @ x = DEVICE_REVOCATION_CONTEXT @ y"
  then have "(DEVICE_CERTIFICATE_CONTEXT @ x) ! 18 = (DEVICE_REVOCATION_CONTEXT @ y) ! 18" by simp
  moreover have "(DEVICE_CERTIFICATE_CONTEXT @ x) ! 18 = byte_of_char CHR ''a''"
    "(DEVICE_REVOCATION_CONTEXT @ y) ! 18 = byte_of_char CHR ''d''"
    by (simp_all add: nth_append DEVICE_CERTIFICATE_CONTEXT_def DEVICE_REVOCATION_CONTEXT_def as_bytes_def)
  ultimately show False by simp
qed

lemma certificate_bytes_inject:
  assumes "device_certificate_bytes c = device_certificate_bytes d" "crt_account_id c = crt_account_id d"
    and "length (crt_ed25519_public_key c) = 32" "length (crt_ed25519_public_key d) = 32"
    and "length (crt_x25519_public_key c) = 32" "length (crt_x25519_public_key d) = 32"
  shows "crt_device_id c = crt_device_id d \<and> crt_ed25519_public_key c = crt_ed25519_public_key d
    \<and> crt_x25519_public_key c = crt_x25519_public_key d"
proof -
  have "as_bytes (crt_device_id c) @ [0] @ crt_ed25519_public_key c @ crt_x25519_public_key c =
    as_bytes (crt_device_id d) @ [0] @ crt_ed25519_public_key d @ crt_x25519_public_key d"
    using assms(1,2) by (simp add: device_certificate_bytes_def)
  moreover from this have "length (crt_device_id c) = length (crt_device_id d)"
    using assms(3-) by (auto dest: arg_cong [of _ _ length])
  ultimately show ?thesis using assms(3-) by (auto simp: append_eq_append_conv)
qed

lemma verify_certificate_account:
  "verify_device_certificate K pk c = Inr () \<Longrightarrow> crt_account_id c = account_id_for_public_key K pk"
  by (auto simp: verify_device_certificate_def split: if_splits)

lemma verify_certificate_signature:
  "verify_device_certificate K pk c = Inr () \<Longrightarrow> cr_ed25519_verify K pk (device_certificate_bytes c) (crt_signature c)"
  by (auto simp: verify_device_certificate_def verified_def split: if_splits)

text \<open>
  The signed bytes of a certificate leave no room for another reading: two certificates that
  verify under one account key and sign the same bytes certify the same device with the same
  keys, and no revocation signs the bytes of a certificate.
\<close>

theorem certificate_bytes_unambiguous:
  assumes "verify_device_certificate K pk c = Inr ()" "verify_device_certificate K pk d = Inr ()"
    and "\<forall>x \<in> {c, d}. length (crt_ed25519_public_key x) = 32 \<and> length (crt_x25519_public_key x) = 32"
    and "device_certificate_bytes c = device_certificate_bytes d"
  shows "c\<lparr>crt_signature := s\<rparr> = d\<lparr>crt_signature := s\<rparr> \<and> device_certificate_bytes c \<noteq> device_revocation_bytes r"
proof
  have acc: "crt_account_id c = crt_account_id d" using assms(1,2) verify_certificate_account by metis
  have "crt_device_id c = crt_device_id d \<and> crt_ed25519_public_key c = crt_ed25519_public_key d
      \<and> crt_x25519_public_key c = crt_x25519_public_key d"
    by (rule certificate_bytes_inject [OF assms(4) acc]) (use assms(3) in simp_all)
  with acc show "c\<lparr>crt_signature := s\<rparr> = d\<lparr>crt_signature := s\<rparr>" by (intro device_certificate.equality) simp_all
  show "device_certificate_bytes c \<noteq> device_revocation_bytes r"
    unfolding device_certificate_bytes_def device_revocation_bytes_def by (rule certificate_context_neq)
qed

section \<open>Revocation\<close>

lemma not_revoked_True: "not_revoked K pk c revs = Inr True \<longleftrightarrow>
    (\<forall>r \<in> set revs. \<not> (rev_account_id r = crt_account_id c \<and> rev_device_id r = crt_device_id c))"
  by (induction revs) (auto simp: and_then_Inr_iff)

lemma not_revoked_False: "not_revoked K pk c revs = Inr False \<Longrightarrow>
    \<exists>r \<in> set revs. rev_account_id r = crt_account_id c \<and> rev_device_id r = crt_device_id c
      \<and> verify_device_revocation K pk r = Inr ()"
  by (induction revs) (auto simp: and_then_Inr_iff split: if_splits)

lemma collect_map_filter:
  assumes "collect_results (List.map_filter f cs) = Inr xs" "\<And>c r. f c = Some (Inr r) \<Longrightarrow> r = c"
  shows "xs = filter (\<lambda>c. f c \<noteq> None) cs \<and> (\<forall>c \<in> set cs. f c = None \<or> f c = Some (Inr c))"
  using assms(1)
proof (induction cs arbitrary: xs)
  case Nil
  then show ?case by (simp add: List.map_filter_def)
next
  case (Cons c cs)
  show ?case
  proof (cases "f c")
    case None
    then show ?thesis using Cons by (simp add: List.map_filter_simps)
  next
    case (Some r)
    then obtain ys where ys: "r = Inr c" "collect_results (List.map_filter f cs) = Inr ys" "xs = c # ys"
      using Cons.prems assms(2) [of c] by (cases r) (auto simp: List.map_filter_simps split: sum.splits)
    then show ?thesis using Cons.IH [OF ys(2)] Some by simp
  qed
qed

text \<open>
  \<^verbatim>\<open>active_device_certificates\<close>, when it succeeds, returns exactly the certificates no
  revocation names, in their order; each of them carries a valid signature of the account, and
  each certificate it leaves out is revoked by a revocation with a valid signature.
\<close>

theorem active_certificates_exact:
  assumes "active_device_certificates K pk certs revs = Inr active"
  shows "active = filter (\<lambda>c. \<forall>r \<in> set revs. \<not> (rev_account_id r = crt_account_id c \<and> rev_device_id r = crt_device_id c)) certs
    \<and> (\<forall>c \<in> set certs. verify_device_certificate K pk c = Inr ())
    \<and> (\<forall>c \<in> set certs - set active. \<exists>r \<in> set revs. rev_account_id r = crt_account_id c
        \<and> rev_device_id r = crt_device_id c \<and> verify_device_revocation K pk r = Inr ())"
proof -
  define f where "f = (\<lambda>c. case is_device_currently_authorized K pk c revs of
      Inr True \<Rightarrow> Some (Inr c) | Inr False \<Rightarrow> None | Inl e \<Rightarrow> Some (Inl e :: crypto_error + device_certificate))"
  have "collect_results (List.map_filter f certs) = Inr active" using assms by (simp add: active_device_certificates_def f_def)
  moreover have "r = c" if "f c = Some (Inr r)" for c r using that by (auto simp: f_def split: sum.splits bool.splits)
  ultimately have act: "active = filter (\<lambda>c. f c \<noteq> None) certs" "\<forall>c \<in> set certs. f c = None \<or> f c = Some (Inr c)"
    using collect_map_filter by blast+
  have auth: "\<exists>b. is_device_currently_authorized K pk c revs = Inr b \<and> (b \<longleftrightarrow> f c \<noteq> None)" if "c \<in> set certs" for c
    using act(2) that by (auto simp: f_def split: sum.splits bool.splits)
  have ver: "\<forall>c \<in> set certs. verify_device_certificate K pk c = Inr ()"
    using auth by (fastforce simp: is_device_currently_authorized_def and_then_Inr_iff)
  have nr: "not_revoked K pk c revs = Inr (f c \<noteq> None)" if "c \<in> set certs" for c
    using auth [OF that] ver that by (auto simp: is_device_currently_authorized_def)
  have "(f c \<noteq> None) = (\<forall>r \<in> set revs. \<not> (rev_account_id r = crt_account_id c \<and> rev_device_id r = crt_device_id c))"
    if "c \<in> set certs" for c using nr [OF that] not_revoked_True [of K pk c revs] by simp
  then have "active = filter (\<lambda>c. \<forall>r \<in> set revs. \<not> (rev_account_id r = crt_account_id c \<and> rev_device_id r = crt_device_id c)) certs"
    unfolding act(1) by (intro filter_cong) auto
  moreover have "\<exists>r \<in> set revs. rev_account_id r = crt_account_id c \<and> rev_device_id r = crt_device_id c
      \<and> verify_device_revocation K pk r = Inr ()" if "c \<in> set certs - set active" for c
  proof -
    have "c \<in> set certs" "f c = None" using that act(1) by auto
    then have "not_revoked K pk c revs = Inr False" using nr by simp
    then show ?thesis by (rule not_revoked_False)
  qed
  ultimately show ?thesis using ver by blast
qed

definition toy_account :: account_identity where
  "toy_account = account_generate toy_crypto (replicate 32 1)"

definition toy_device :: "u8 \<Rightarrow> device_identity" where
  "toy_device n = device_generate toy_crypto (replicate 32 n) (replicate 32 (n + 1)) (acc_account_id toy_account)"

definition toy_cert :: "u8 \<Rightarrow> device_certificate" where
  "toy_cert n = authorize_device toy_crypto toy_account (toy_device n)"

lemma account_generate_verifies:
  assumes "sig_correct K"
  shows "verify_device_certificate K (ik_public_key K (acc_identity (account_generate K s)))
      (authorize_device K (account_generate K s) d) = Inr ()"
    and "verify_device_revocation K (ik_public_key K (acc_identity (account_generate K s)))
      (revoke_device K (account_generate K s) i n) = Inr ()"
  using assms
  by (simp_all add: verify_device_certificate_def verify_device_revocation_def authorize_device_def revoke_device_def
      account_generate_def Let_def verified_def sig_correct_def ik_public_key_def ik_from_secret_bytes_def
      device_certificate_bytes_def device_revocation_bytes_def)

abbreviation toy_pk :: bytes where
  "toy_pk \<equiv> ik_public_key toy_crypto (acc_identity toy_account)"

lemma toy_cert_ok: "verify_device_certificate toy_crypto toy_pk (toy_cert n) = Inr ()"
  unfolding toy_cert_def toy_account_def by (rule account_generate_verifies [OF toy_sig_correct])

lemma toy_cert_lengths: "length (crt_ed25519_public_key (toy_cert n)) = 32" "length (crt_x25519_public_key (toy_cert n)) = 32"
  by (simp_all add: toy_cert_def authorize_device_def toy_device_def device_generate_def Let_def
      ik_public_key_def toy_crypto_def ik_from_secret_bytes_def from_private_bytes_def)

theorem certificate_bytes_unambiguous_witness:
  "device_certificate_bytes (toy_cert 5) \<noteq> device_revocation_bytes (revoke_device toy_crypto toy_account ''dev'' 1)"
  using certificate_bytes_unambiguous [OF toy_cert_ok toy_cert_ok, of 5 5] toy_cert_lengths by simp

lemma toy_device_id: "crt_device_id (toy_cert n) = ''dev-'' @ concat (map hex_byte (replicate 16 (32 * n)))"
  by (simp add: toy_cert_def authorize_device_def Let_def toy_device_def device_generate_def device_id_for_public_key_def
      short_hash_def toy_crypto_def ik_public_key_def ik_from_secret_bytes_def sum_list_replicate)

lemma toy_ids_distinct: "crt_device_id (toy_cert 5) \<noteq> crt_device_id (toy_cert 6)"
proof -
  have "replicate 16 x = x # replicate 15 x" for x :: u8 by (simp add: numeral_eq_Suc)
  then have "crt_device_id (toy_cert n) ! 4 = hex_digit (unat (32 * n) div 16)" for n
    unfolding toy_device_id by (simp add: hex_byte_def)
  from this [of 5] this [of 6] have "crt_device_id (toy_cert 5) ! 4 \<noteq> crt_device_id (toy_cert 6) ! 4"
    by (simp add: hex_digit_def char_of_def)
  then show ?thesis by auto
qed

lemma active_toy: "active_device_certificates toy_crypto toy_pk [toy_cert 5, toy_cert 6]
    [revoke_device toy_crypto toy_account (crt_device_id (toy_cert 6)) 1] = Inr [toy_cert 5]"
proof -
  let ?r = "revoke_device toy_crypto toy_account (crt_device_id (toy_cert 6)) 1"
  have rv: "verify_device_revocation toy_crypto toy_pk ?r = Inr ()"
    unfolding toy_account_def by (rule account_generate_verifies [OF toy_sig_correct])
  have ids: "rev_account_id ?r = crt_account_id (toy_cert n)" "rev_device_id ?r = crt_device_id (toy_cert 6)" for n
    by (simp_all add: revoke_device_def toy_cert_def authorize_device_def Let_def)
  have ne: "crt_device_id (toy_cert 6) \<noteq> crt_device_id (toy_cert 5)" using toy_ids_distinct by simp
  show ?thesis using rv ids ne
    by (simp add: active_device_certificates_def is_device_currently_authorized_def toy_cert_ok List.map_filter_simps)
qed

theorem active_certificates_exact_witness:
  "\<exists>active. active_device_certificates toy_crypto toy_pk [toy_cert 5, toy_cert 6]
      [revoke_device toy_crypto toy_account (crt_device_id (toy_cert 6)) 1] = Inr active
    \<and> set active \<subseteq> {toy_cert 5, toy_cert 6}
    \<and> (\<forall>c \<in> {toy_cert 5, toy_cert 6}. verify_device_certificate toy_crypto toy_pk c = Inr ())"
  using active_certificates_exact [OF active_toy] active_toy by auto

section \<open>Sessions between devices\<close>

text \<open>
  A device that opens a session to a certified device and the device that accepts it are
  linked: envelopes sent over the one are decrypted by the other to their text, and an envelope
  for another device, or from another sender, is refused without touching the session.
\<close>

theorem device_sessions_linked:
  assumes "crypto_ok K" "verify_device_certificate K pk cert = Inr ()"
    and "crt_x25519_public_key cert = xk_public (dev_x25519 remote)" "crt_device_id cert = dev_device_id remote"
    and "dev_x25519 dev = from_private_bytes K (xk_private (dev_x25519 dev))"
    and "dev_x25519 remote = from_private_bytes K (xk_private (dev_x25519 remote))" "is_str p"
  shows "\<exists>out inb out' inb' env. create_outbound_session K dev pk cert = Inr out
    \<and> create_inbound_session K remote (dev_device_id dev) (xk_public (dev_x25519 dev)) = Inr inb
    \<and> device_encrypt K mid p out = (out', Inr env) \<and> device_decrypt K env inb = (inb', Inr p)
    \<and> linked K (ds_session out') (ds_session inb')
    \<and> (\<forall>other. other \<noteq> dev_device_id remote \<longrightarrow>
         device_decrypt K (env\<lparr>de_recipient_device_id := other\<rparr>) inb = (inb, Inl Decrypt))"
proof -
  have K: "hkdf_total K" "dh_agrees K" using assms(1) by (simp_all add: crypto_ok_def)
  let ?ka = "dev_x25519 dev" and ?kb = "dev_x25519 remote"
  obtain key where key: "derive_aead_key K ?ka (xk_public ?kb) = Inr key" using derive_aead_total [OF K(1)] by blast
  then have key': "derive_aead_key K ?kb (xk_public ?ka) = Inr key" using derive_aead_agree [OF K(2) assms(5,6)] by simp
  obtain sa sb where s: "ratchet_new K key RoleAlice ?ka (xk_public ?kb) = Inr sa" "ratchet_new K key RoleBob ?kb (xk_public ?ka) = Inr sb"
    "linked K sa sb" "fresh_link sa sb" "fresh_link sb sa" by (rule ratchet_new_linked [OF K(1) assms(5,6)])
  obtain sa' sb' m where m: "ratchet_encrypt K p sa = (sa', Inr m)" "ratchet_decrypt K m sb = (sb', Inr p)" "linked K sa' sb'"
    by (rule first_message [OF assms(1) s(3,4,5) assms(7)])
  let ?out = "\<lparr>ds_local_device_id = dev_device_id dev, ds_remote_device_id = dev_device_id remote, ds_session = sa\<rparr>"
  let ?inb = "\<lparr>ds_local_device_id = dev_device_id remote, ds_remote_device_id = dev_device_id dev, ds_session = sb\<rparr>"
  let ?env = "\<lparr>de_logical_message_id = mid, de_sender_device_id = dev_device_id dev,
     de_recipient_device_id = dev_device_id remote, de_message = m\<rparr>"
  have "create_outbound_session K dev pk cert = Inr ?out" using assms(2,3,4) key s(1) by (simp add: create_outbound_session_def)
  moreover have "create_inbound_session K remote (dev_device_id dev) (xk_public ?ka) = Inr ?inb"
    using key' s(2) by (simp add: create_inbound_session_def)
  moreover have "device_encrypt K mid p ?out = (?out\<lparr>ds_session := sa'\<rparr>, Inr ?env)" using m(1) by (simp add: device_encrypt_def)
  moreover have "device_decrypt K ?env ?inb = (?inb\<lparr>ds_session := sb'\<rparr>, Inr p)" using m(2) by (simp add: device_decrypt_def)
  moreover have "\<forall>other. other \<noteq> dev_device_id remote \<longrightarrow>
         device_decrypt K (?env\<lparr>de_recipient_device_id := other\<rparr>) ?inb = (?inb, Inl Decrypt)" by (simp add: device_decrypt_def)
  ultimately show ?thesis using m(3)
    by (intro exI [of _ ?out] exI [of _ ?inb] exI [of _ "?out\<lparr>ds_session := sa'\<rparr>"] exI [of _ "?inb\<lparr>ds_session := sb'\<rparr>"]
        exI [of _ ?env]) simp
qed

theorem device_sessions_linked_witness:
  "\<exists>out inb out' inb' env. create_outbound_session toy_crypto (toy_device 5) toy_pk (toy_cert 6) = Inr out
    \<and> create_inbound_session toy_crypto (toy_device 6) (dev_device_id (toy_device 5)) (xk_public (dev_x25519 (toy_device 5))) = Inr inb
    \<and> device_encrypt toy_crypto ''m'' ''hi'' out = (out', Inr env) \<and> device_decrypt toy_crypto env inb = (inb', Inr ''hi'')"
proof -
  have k: "dev_x25519 (toy_device n) = from_private_bytes toy_crypto (xk_private (dev_x25519 (toy_device n)))" for n
    by (simp add: toy_device_def device_generate_def Let_def from_private_bytes_def)
  have c: "crt_x25519_public_key (toy_cert 6) = xk_public (dev_x25519 (toy_device 6))" "crt_device_id (toy_cert 6) = dev_device_id (toy_device 6)"
    by (simp_all add: toy_cert_def authorize_device_def Let_def)
  have str: "is_str ''hi''" by code_simp
  from device_sessions_linked [OF toy_crypto_ok toy_cert_ok c k k str, of 5 "''m''"] show ?thesis by blast
qed

section \<open>Devices in the database\<close>

datatype app_error = AppCrypto crypto_error | AppStorage storage_error | AppSync sync_error | AppCodec
  | AppMessage string

text \<open>\<open>ser_cert\<close> and \<open>de_cert\<close> are \<^verbatim>\<open>bincode\<close> on certificates; likewise for revocations and envelopes.\<close>

definition persist_phase_5a_identity ::
    "crypto \<Rightarrow> (device_certificate \<Rightarrow> bytes) \<Rightarrow> u64 \<Rightarrow> account_identity \<Rightarrow> device_identity \<Rightarrow> device_certificate
      \<Rightarrow> db \<Rightarrow> db" where
  "persist_phase_5a_identity K ser_cert now account device certificate s =
     (let account_state = account_export_state account; device_state = device_export_state device;
          s1 = save_account_identity (acc_account_id account) (ik_public_key K (acc_identity account))
                 (Some (ais_account_secret_key account_state)) now s;
          s2 = save_device_identity (dev_device_id device) (dev_account_id device)
                 (ik_public_key K (dev_signing device)) (dis_device_secret_key device_state)
                 (xk_public (dev_x25519 device)) (dis_device_x25519_private_key device_state) now s1
      in save_device_certificate (acc_account_id account) (dev_device_id device) (ser_cert certificate) now s2)"

definition load_device_certificates ::
    "(bytes \<Rightarrow> device_certificate option) \<Rightarrow> string \<Rightarrow> db \<Rightarrow> app_error + device_certificate list" where
  "load_device_certificates de_cert account_id s =
     collect_results (map (\<lambda>blob. ok_or (de_cert blob) AppCodec) (device_certificates_for_account account_id s))"

definition load_device_revocations ::
    "(bytes \<Rightarrow> device_revocation option) \<Rightarrow> string \<Rightarrow> db \<Rightarrow> app_error + device_revocation list" where
  "load_device_revocations de_rev account_id s =
     collect_results (map (\<lambda>blob. ok_or (de_rev blob) AppCodec) (device_revocations_for_account account_id s))"

definition delivery_outbox_id :: "device_delivery_envelope \<Rightarrow> string" where
  "delivery_outbox_id envelope = de_logical_message_id envelope @ '':'' @ de_recipient_device_id envelope"

definition encrypt_and_queue_device_delivery ::
    "crypto \<Rightarrow> (device_delivery_envelope \<Rightarrow> bytes) \<Rightarrow> (device_session_state \<Rightarrow> bytes) \<Rightarrow> (nat \<Rightarrow> bool) \<Rightarrow> u64
      \<Rightarrow> string \<Rightarrow> string \<Rightarrow> db \<Rightarrow> device_session
      \<Rightarrow> db \<times> device_session \<times> (app_error + device_delivery_envelope)" where
  "encrypt_and_queue_device_delivery K ser_env ser_state fails now logical_message_id plaintext s session =
     (case device_encrypt K logical_message_id plaintext session of
        (session', Inl e) \<Rightarrow> (s, session', Inl (AppCrypto e))
      | (session', Inr envelope) \<Rightarrow>
          (let item = \<lparr>ob_message_id = delivery_outbox_id envelope,
                 ob_recipient_id = de_recipient_device_id envelope, ob_payload = ser_env envelope,
                 ob_status = OutboxPending, ob_retry_count = 0, ob_created_at = now, ob_last_attempt = None\<rparr>
           in case save_device_pair_session_and_outbox fails (ds_local_device_id session')
                     (ds_remote_device_id session') (ser_state (device_session_export_state session')) item now s of
                (s', Inl e) \<Rightarrow> (s', session', Inl (AppStorage e))
              | (s', Inr _) \<Rightarrow> (s', session', Inr envelope)))"

definition sync_authorized_sibling_devices ::
    "crypto \<Rightarrow> (sync_event list \<Rightarrow> 'w) \<Rightarrow> ('w \<Rightarrow> sync_event list option) \<Rightarrow> (nat \<Rightarrow> nat \<Rightarrow> bool)
      \<Rightarrow> (nat \<Rightarrow> nat \<Rightarrow> bool) \<Rightarrow> bytes \<Rightarrow> device_certificate \<Rightarrow> device_certificate \<Rightarrow> device_revocation list
      \<Rightarrow> string \<Rightarrow> db \<Rightarrow> db \<Rightarrow> db \<times> db \<times> (app_error + event_record list \<times> event_record list)" where
  "sync_authorized_sibling_devices K ser de fails_right fails_left account_public_key left_certificate
       right_certificate revocations conversation_id left right =
     (case verify_authorized_sibling_devices K account_public_key left_certificate right_certificate of
        Inl e \<Rightarrow> (left, right, Inl (AppCrypto e))
      | Inr _ \<Rightarrow>
     (case is_device_currently_authorized K account_public_key left_certificate revocations of
        Inl e \<Rightarrow> (left, right, Inl (AppCrypto e))
      | Inr False \<Rightarrow> (left, right, Inl (AppMessage ''sibling device is revoked''))
      | Inr True \<Rightarrow>
     (case is_device_currently_authorized K account_public_key right_certificate revocations of
        Inl e \<Rightarrow> (left, right, Inl (AppCrypto e))
      | Inr False \<Rightarrow> (left, right, Inl (AppMessage ''sibling device is revoked''))
      | Inr True \<Rightarrow>
          (case exchange_events ser de fails_right fails_left conversation_id left right of
             (left', right', Inl e) \<Rightarrow> (left', right', Inl (AppSync e))
           | (left', right', Inr trip) \<Rightarrow> (left', right', Inr trip)))))"

lemma verify_unit: "verify_device_certificate K pk c = Inr x \<Longrightarrow> verify_device_certificate K pk c = Inr ()"
  by simp

text \<open>
  C12: sibling devices only exchange events when both hold valid certificates of the account, for
  different devices, and neither is revoked; otherwise the call fails and both databases are
  untouched.
\<close>

theorem sync_requires_authorization:
  assumes "sync_authorized_sibling_devices K ser de f1 f2 pk lc rc revs c left right = (left', right', res)"
    and "(left', right') \<noteq> (left, right) \<or> (\<exists>trip. res = Inr trip)"
  shows "verify_device_certificate K pk lc = Inr () \<and> verify_device_certificate K pk rc = Inr ()
    \<and> crt_account_id lc = account_id_for_public_key K pk \<and> crt_device_id lc \<noteq> crt_device_id rc
    \<and> (\<forall>r \<in> set revs. rev_account_id r = crt_account_id lc \<longrightarrow> rev_device_id r \<notin> {crt_device_id lc, crt_device_id rc})"
proof -
  have sib: "verify_authorized_sibling_devices K pk lc rc = Inr ()"
    and la: "is_device_currently_authorized K pk lc revs = Inr True"
    and ra: "is_device_currently_authorized K pk rc revs = Inr True"
    using assms by (auto simp: sync_authorized_sibling_devices_def split: sum.splits bool.splits)
  then have v: "verify_device_certificate K pk lc = Inr ()" "verify_device_certificate K pk rc = Inr ()"
    "crt_account_id lc = crt_account_id rc" "crt_device_id lc \<noteq> crt_device_id rc"
    by (auto simp: verify_authorized_sibling_devices_def and_then_Inr_iff split: if_splits)
  moreover have "not_revoked K pk lc revs = Inr True" "not_revoked K pk rc revs = Inr True"
    using la ra v by (simp_all add: is_device_currently_authorized_def)
  ultimately show ?thesis using verify_certificate_account [OF v(1)] by (auto simp: not_revoked_True)
qed

theorem sync_requires_authorization_witness:
  "\<exists>left right trip. sync_authorized_sibling_devices toy_crypto (\<lambda>x. x) Some no_failures no_failures toy_pk
      (toy_cert 5) (toy_cert 6) [] ''c'' init_db init_db = (left, right, Inr trip)
    \<and> verify_device_certificate toy_crypto toy_pk (toy_cert 6) = Inr ()"
proof -
  note ne = toy_ids_distinct
  have acc: "crt_account_id (toy_cert n) = account_id_for_public_key toy_crypto toy_pk" for n
    by (rule verify_certificate_account [OF toy_cert_ok])
  obtain left right trip where run: "sync_authorized_sibling_devices toy_crypto (\<lambda>x. x) Some no_failures no_failures toy_pk
      (toy_cert 5) (toy_cert 6) [] ''c'' init_db init_db = (left, right, Inr trip)"
    using ne acc by (simp add: sync_authorized_sibling_devices_def verify_authorized_sibling_devices_def toy_cert_ok
        is_device_currently_authorized_def exchange_events_def send_missing_ok)
  with sync_requires_authorization [OF run] show ?thesis by blast
qed

end
