(* ===== verification/Mailbox.thy ===== *)
theory Mailbox
  imports StorageProps Handshake
begin

text \<open>
  The mailbox node for offline recipients: its table (\<^verbatim>\<open>src/src/mailbox_storage.rs\<close>), its request
  handler, and the two clients that deposit and fetch (\<^verbatim>\<open>src/src/main.rs\<close>).  The network is not
  modelled: a request is answered by the handler on the node's table at time \<open>now\<close>.
\<close>

section \<open>The table\<close>

record mailbox_envelope_record =
  me_message_id :: string
  me_recipient_token :: string
  me_encrypted_payload :: bytes
  me_created_at :: u64
  me_expires_at :: "u64 option"

record mailbox_row =
  mbx_message_id :: string
  mbx_recipient_token :: string
  mbx_encrypted_payload :: bytes
  mbx_status :: string
  mbx_created_at :: int
  mbx_expires_at :: "int option"
  mbx_delivered_at :: "int option"

record mailbox =
  mb_rows :: "mailbox_row list"
  mb_max_pending :: nat

definition mailbox_open :: "nat \<Rightarrow> mailbox" where
  "mailbox_open max_pending_envelopes = \<lparr>mb_rows = [], mb_max_pending = max_pending_envelopes\<rparr>"

definition pending_count :: "mailbox \<Rightarrow> nat" where
  "pending_count m = count_where (\<lambda>r. mbx_status r = ''pending'') (mb_rows m)"

definition row_expired :: "int \<Rightarrow> mailbox_row \<Rightarrow> bool" where
  "row_expired now r \<longleftrightarrow> mbx_status r = ''pending''
     \<and> (case mbx_expires_at r of None \<Rightarrow> False | Some e \<Rightarrow> e \<le> now)"

definition expire :: "u64 \<Rightarrow> mailbox \<Rightarrow> mailbox" where
  "expire now m = m\<lparr>mb_rows := update_where (row_expired (as_i64 now)) (\<lambda>r. r\<lparr>mbx_status := ''expired''\<rparr>) (mb_rows m)\<rparr>"

definition has_envelope :: "string \<Rightarrow> mailbox \<Rightarrow> bool" where
  "has_envelope message_id m \<longleftrightarrow> 0 < count_where (\<lambda>r. mbx_message_id r = message_id) (mb_rows m)"

definition envelope_to_row :: "mailbox_envelope_record \<Rightarrow> mailbox_row" where
  "envelope_to_row e = \<lparr>mbx_message_id = me_message_id e, mbx_recipient_token = me_recipient_token e,
     mbx_encrypted_payload = me_encrypted_payload e, mbx_status = ''pending'',
     mbx_created_at = as_i64 (me_created_at e), mbx_expires_at = map_option as_i64 (me_expires_at e),
     mbx_delivered_at = None\<rparr>"

definition envelope_from_row :: "mailbox_row \<Rightarrow> mailbox_envelope_record" where
  "envelope_from_row r = \<lparr>me_message_id = mbx_message_id r, me_recipient_token = mbx_recipient_token r,
     me_encrypted_payload = mbx_encrypted_payload r, me_created_at = as_u64 (mbx_created_at r),
     me_expires_at = map_option as_u64 (mbx_expires_at r)\<rparr>"

definition deposit :: "mailbox_envelope_record \<Rightarrow> u64 \<Rightarrow> mailbox \<Rightarrow> mailbox \<times> (string + bool)" where
  "deposit envelope now m0 =
     (let m = expire now m0
      in if mb_max_pending m \<le> pending_count m \<and> \<not> has_envelope (me_message_id envelope) m
         then (m, Inl ''mailbox storage is full'')
         else (let (t, inserted) = insert_or_ignore mbx_message_id (envelope_to_row envelope) (mb_rows m)
               in (m\<lparr>mb_rows := t\<rparr>, Inr (inserted = 1))))"

definition row_fetchable :: "string \<Rightarrow> int \<Rightarrow> mailbox_row \<Rightarrow> bool" where
  "row_fetchable recipient_token now r \<longleftrightarrow> mbx_recipient_token r = recipient_token
     \<and> mbx_status r = ''pending'' \<and> (case mbx_expires_at r of None \<Rightarrow> True | Some e \<Rightarrow> now < e)"

definition fetch_pending :: "string \<Rightarrow> u64 \<Rightarrow> mailbox \<Rightarrow> mailbox \<times> mailbox_envelope_record list" where
  "fetch_pending recipient_token now m0 =
     (let m = expire now m0
      in (m, map envelope_from_row (select_order_by (\<lambda>r. (mbx_created_at r, mbx_message_id r))
               (row_fetchable recipient_token (as_i64 now)) (mb_rows m))))"

definition acknowledge_retrieval :: "string \<Rightarrow> u64 \<Rightarrow> mailbox \<Rightarrow> mailbox" where
  "acknowledge_retrieval message_id now m =
     m\<lparr>mb_rows := update_where (\<lambda>r. mbx_message_id r = message_id)
        (\<lambda>r. r\<lparr>mbx_status := ''delivered'', mbx_delivered_at := Some (as_i64 now)\<rparr>) (mb_rows m)\<rparr>"

section \<open>Requests\<close>

record offline_envelope =
  oe_recipient_token :: string
  oe_message_id :: string
  oe_encrypted_payload :: bytes
  oe_expires_at :: "u64 option"

datatype mailbox_request = MbDeposit offline_envelope | MbFetch string | MbAcknowledge string

datatype mailbox_response =
  MbDeposited string | MbPending "offline_envelope list" | MbAcknowledged string | MbError string

fun handle_mailbox_request :: "u64 \<Rightarrow> mailbox_request \<Rightarrow> mailbox \<Rightarrow> mailbox \<times> mailbox_response" where
  "handle_mailbox_request now (MbDeposit envelope) m =
     (let record1 = \<lparr>me_message_id = oe_message_id envelope, me_recipient_token = oe_recipient_token envelope,
            me_encrypted_payload = oe_encrypted_payload envelope, me_created_at = now,
            me_expires_at = oe_expires_at envelope\<rparr>
      in case deposit record1 now m of
           (m', Inr _) \<Rightarrow> (m', MbDeposited (oe_message_id envelope))
         | (m', Inl error) \<Rightarrow> (m', MbError error))"
| "handle_mailbox_request now (MbFetch recipient_token) m =
     (case fetch_pending recipient_token now m of (m', records) \<Rightarrow>
        (m', MbPending (map (\<lambda>r. \<lparr>oe_recipient_token = me_recipient_token r, oe_message_id = me_message_id r,
                oe_encrypted_payload = me_encrypted_payload r, oe_expires_at = me_expires_at r\<rparr>) records)))"
| "handle_mailbox_request now (MbAcknowledge message_id) m =
     (acknowledge_retrieval message_id now m, MbAcknowledged message_id)"

section \<open>Invariant and step relation\<close>

inductive mailbox_reachable :: "nat \<Rightarrow> mailbox \<Rightarrow> bool" where
  mb_init: "mailbox_reachable n (mailbox_open n)"
| mb_request: "mailbox_reachable n m \<Longrightarrow> mailbox_reachable n (fst (handle_mailbox_request now req m))"

definition mailbox_ok :: "mailbox \<Rightarrow> bool" where
  "mailbox_ok m \<longleftrightarrow> pk_ok mbx_message_id (mb_rows m) \<and> pending_count m \<le> mb_max_pending m"

lemma length_filter_mono: "(\<And>x. P x \<Longrightarrow> Q x) \<Longrightarrow> length (filter P t) \<le> length (filter Q t)"
  by (induction t) (simp_all add: le_SucI)

lemma count_update_where_le:
  assumes "\<And>r. q (f r) \<Longrightarrow> q r"
  shows "count_where q (update_where p f t) \<le> count_where q t"
proof -
  have "q (if p x then f x else x) \<Longrightarrow> q x" for x using assms by (cases "p x") simp_all
  then show ?thesis unfolding count_where_def update_where_def filter_map length_map comp_def
    by (rule length_filter_mono)
qed

lemma mailbox_ok_expire: "mailbox_ok m \<Longrightarrow> mailbox_ok (expire now m)"
  unfolding mailbox_ok_def expire_def pending_count_def
  using count_update_where_le [of "\<lambda>r. mbx_status r = ''pending''" "\<lambda>r. r\<lparr>mbx_status := ''expired''\<rparr>"
      "row_expired (as_i64 now)" "mb_rows m"]
  by (auto intro: order_trans)

lemma mailbox_ok_acknowledge: "mailbox_ok m \<Longrightarrow> mailbox_ok (acknowledge_retrieval mid now m)"
  unfolding mailbox_ok_def acknowledge_retrieval_def pending_count_def
  using count_update_where_le [of "\<lambda>r. mbx_status r = ''pending''"
      "\<lambda>r. r\<lparr>mbx_status := ''delivered'', mbx_delivered_at := Some (as_i64 now)\<rparr>" "\<lambda>r. mbx_message_id r = mid" "mb_rows m"]
  by (auto intro: order_trans)

lemma mailbox_ok_deposit: "mailbox_ok m \<Longrightarrow> mailbox_ok (fst (deposit e now m))"
proof -
  assume "mailbox_ok m"
  then have ok: "mailbox_ok (expire now m)" by (rule mailbox_ok_expire)
  show ?thesis
  proof (cases "has_key mbx_message_id (me_message_id e) (mb_rows (expire now m))")
    case True
    then show ?thesis using ok
      by (simp add: deposit_def Let_def has_envelope_def count_where_has_key insert_or_ignore_def envelope_to_row_def)
  next
    case False
    then show ?thesis using ok
      by (auto simp: deposit_def Let_def has_envelope_def count_where_has_key insert_or_ignore_def envelope_to_row_def
          mailbox_ok_def pk_ok_def has_key_def pending_count_def count_where_def)
  qed
qed

lemma mailbox_ok_request: "mailbox_ok m \<Longrightarrow> mailbox_ok (fst (handle_mailbox_request now req m))"
  using mailbox_ok_deposit mailbox_ok_expire mailbox_ok_acknowledge
  by (cases req) (auto simp: Let_def case_prod_unfold fetch_pending_def split: sum.splits)

lemma max_pending_request: "mb_max_pending (fst (handle_mailbox_request now req m)) = mb_max_pending m"
  by (cases req) (auto simp: Let_def case_prod_unfold fetch_pending_def expire_def deposit_def
      acknowledge_retrieval_def split: sum.splits)

lemma mailbox_open_ok: "mailbox_ok (mailbox_open n)" "mb_max_pending (mailbox_open n) = n"
  by (simp_all add: mailbox_ok_def mailbox_open_def pending_count_def count_where_def)

text \<open>
  C13: a mailbox node never holds more pending envelopes than its limit, whatever requests it
  serves, and it stores at most one envelope per message id.
\<close>

theorem mailbox_bounded:
  assumes "mailbox_reachable n m"
  shows "pending_count m \<le> n \<and> pk_ok mbx_message_id (mb_rows m)"
proof -
  from assms have "mailbox_ok m \<and> mb_max_pending m = n"
    by induction (simp_all add: mailbox_ok_request max_pending_request mailbox_open_ok)
  then show ?thesis by (auto simp: mailbox_ok_def)
qed

definition toy_envelope :: "string \<Rightarrow> offline_envelope" where
  "toy_envelope mid = \<lparr>oe_recipient_token = ''t'', oe_message_id = mid, oe_encrypted_payload = [1], oe_expires_at = Some 100\<rparr>"

theorem mailbox_bounded_witness:
  "pending_count (fst (handle_mailbox_request 5 (MbDeposit (toy_envelope ''b''))
      (fst (handle_mailbox_request 5 (MbDeposit (toy_envelope ''a'')) (mailbox_open 1))))) \<le> 1"
  using mailbox_bounded [OF mb_request [OF mb_request [OF mb_init]]] by blast

section \<open>What a fetch returns\<close>

lemma fetch_rows:
  "snd (fetch_pending tok now m) = map envelope_from_row
     (select_order_by (\<lambda>r. (mbx_created_at r, mbx_message_id r)) (row_fetchable tok (as_i64 now)) (mb_rows m))"
proof -
  let ?p = "row_fetchable tok (as_i64 now)"
  let ?e = "\<lambda>r. if row_expired (as_i64 now) r then r\<lparr>mbx_status := ''expired''\<rparr> else r"
  have ex: "\<not> ?p (r\<lparr>mbx_status := ''expired''\<rparr>)" for r by (simp add: row_fetchable_def)
  have "row_expired (as_i64 now) r \<Longrightarrow> \<not> ?p r" for r
    by (cases "mbx_expires_at r") (simp_all add: row_fetchable_def row_expired_def)
  then have "filter ?p (map ?e rs) = filter ?p rs" for rs by (induction rs) (simp_all add: ex)
  then show ?thesis by (simp add: fetch_pending_def expire_def Let_def update_where_def select_order_by_def)
qed

lemma me_message_id_from_row [simp]: "me_message_id (envelope_from_row r) = mbx_message_id r"
  by (simp add: envelope_from_row_def)

lemma fetch_not_acknowledged:
  "mid \<notin> me_message_id ` set (snd (fetch_pending tok later (acknowledge_retrieval mid t m)))"
proof -
  have "\<not> row_fetchable tok (as_i64 later) r" if "r \<in> set (mb_rows (acknowledge_retrieval mid t m))" "mbx_message_id r = mid" for r
  proof -
    have "r \<in> (\<lambda>q. if mbx_message_id q = mid then q\<lparr>mbx_status := ''delivered'', mbx_delivered_at := Some (as_i64 t)\<rparr> else q)
        ` set (mb_rows m)"
      using that(1) by (simp add: acknowledge_retrieval_def set_update_where)
    then obtain q where q: "r = (if mbx_message_id q = mid
        then q\<lparr>mbx_status := ''delivered'', mbx_delivered_at := Some (as_i64 t)\<rparr> else q)"
      by blast
    have "mbx_message_id q = mid" using q that(2) by (cases "mbx_message_id q = mid") simp_all
    then have "mbx_status r = ''delivered''" using q by simp
    then show ?thesis by (simp add: row_fetchable_def)
  qed
  then show ?thesis unfolding fetch_rows by auto
qed

text \<open>
  A fetch returns exactly the envelopes that are pending for the recipient and not expired at
  that time, each once and in the order of their deposit, and an acknowledged envelope is never
  returned again.
\<close>

theorem fetch_pending_exact:
  assumes "mailbox_ok m"
  shows "set (snd (fetch_pending tok now m)) = envelope_from_row ` {r \<in> set (mb_rows m). row_fetchable tok (as_i64 now) r}
    \<and> distinct (map me_message_id (snd (fetch_pending tok now m)))
    \<and> (\<exists>rows. snd (fetch_pending tok now m) = map envelope_from_row rows
         \<and> sorted (map (\<lambda>r. (mbx_created_at r, mbx_message_id r)) rows))
    \<and> (\<forall>mid t later. mid \<notin> me_message_id ` set (snd (fetch_pending tok later (acknowledge_retrieval mid t m))))"
proof (intro conjI allI)
  show "set (snd (fetch_pending tok now m)) = envelope_from_row ` {r \<in> set (mb_rows m). row_fetchable tok (as_i64 now) r}"
    by (simp add: fetch_rows)
  have "distinct (map mbx_message_id (mb_rows m))" using assms by (simp add: mailbox_ok_def pk_ok_def)
  then show "distinct (map me_message_id (snd (fetch_pending tok now m)))"
    by (simp add: fetch_rows select_order_by_def comp_def distinct_map inj_on_def)
  show "\<exists>rows. snd (fetch_pending tok now m) = map envelope_from_row rows
         \<and> sorted (map (\<lambda>r. (mbx_created_at r, mbx_message_id r)) rows)"
    unfolding fetch_rows by (intro exI conjI, rule refl) (simp add: select_order_by_def)
qed (rule fetch_not_acknowledged)

theorem fetch_pending_exact_witness:
  "map me_message_id (snd (fetch_pending ''t'' 7 (fst (handle_mailbox_request 5 (MbDeposit (toy_envelope ''a'')) (mailbox_open 1)))))
   = [''a''] \<and> ''a'' \<notin> me_message_id ` set (snd (fetch_pending ''t'' 7 (acknowledge_retrieval ''a'' 6
       (fst (handle_mailbox_request 5 (MbDeposit (toy_envelope ''a'')) (mailbox_open 1))))))"
proof
  have ok: "mailbox_ok (fst (handle_mailbox_request 5 (MbDeposit (toy_envelope ''a'')) (mailbox_open 1)))" by code_simp
  show "''a'' \<notin> me_message_id ` set (snd (fetch_pending ''t'' 7 (acknowledge_retrieval ''a'' 6
       (fst (handle_mailbox_request 5 (MbDeposit (toy_envelope ''a'')) (mailbox_open 1))))))"
    using fetch_pending_exact [OF ok] by blast
  show "map me_message_id (snd (fetch_pending ''t'' 7 (fst (handle_mailbox_request 5 (MbDeposit (toy_envelope ''a''))
      (mailbox_open 1))))) = [''a'']" by code_simp
qed

end
