(* ===== verification/Delivery.thy ===== *)
theory Delivery
  imports Devices Mailbox
begin

text \<open>
  Deliveries that must survive retries (\<^verbatim>\<open>src/src/main.rs\<close>): the durable outbox with its
  acknowledgements (\<^verbatim>\<open>deliver_outbox_item_to_bob\<close>, \<^verbatim>\<open>handle_ack\<close>), and depositing to and fetching
  from a mailbox (\<^verbatim>\<open>run_alice_mailbox_deposit\<close>, \<^verbatim>\<open>run_bob_mailbox_fetch\<close>) without their printing and
  their network connection.
\<close>

section \<open>Serialisation\<close>

record durable_app_envelope =
  dae_message_id :: string
  dae_message :: ratchet_message

text \<open>\<^verbatim>\<open>bincode::serialize\<close> and \<^verbatim>\<open>deserialize\<close> on the types that are stored or sent.\<close>

record codec =
  cd_alice_state :: "alice_state \<Rightarrow> bytes"
  cd_bob_state :: "bob_state \<Rightarrow> bytes"
  cd_session_state :: "ratchet_session_state \<Rightarrow> bytes"
  cd_durable :: "durable_app_envelope \<Rightarrow> bytes"
  cd_durable_decode :: "bytes \<Rightarrow> durable_app_envelope option"
  cd_initial :: "initial_message \<Rightarrow> bytes"
  cd_initial_decode :: "bytes \<Rightarrow> initial_message option"

definition codec_ok :: "codec \<Rightarrow> bool" where
  "codec_ok C \<longleftrightarrow> (\<forall>e. cd_durable_decode C (cd_durable C e) = Some e)
     \<and> (\<forall>m. cd_initial_decode C (cd_initial C m) = Some m)"

definition hex_encode :: "bytes \<Rightarrow> string" where
  "hex_encode bs = concat (map hex_byte bs)"

definition recipient_token_for_bundle :: "crypto \<Rightarrow> prekey_bundle \<Rightarrow> string" where
  "recipient_token_for_bundle K bundle = hex_encode (take 16 (cr_sha256 K (pb_identity_public_key bundle)))"

definition message_id_for :: "crypto \<Rightarrow> u64 \<Rightarrow> bytes \<Rightarrow> string" where
  "message_id_for K now encrypted_payload =
     hex_encode (take 16 (cr_sha256 K (to_be_bytes now @ encrypted_payload)))"

section \<open>The outbox\<close>

definition persist_actor_message ::
    "(nat \<Rightarrow> bool) \<Rightarrow> u64 \<Rightarrow> string \<Rightarrow> string \<Rightarrow> bytes \<Rightarrow> string \<Rightarrow> string \<Rightarrow> string \<Rightarrow> bytes \<Rightarrow> message_record
      \<Rightarrow> db \<Rightarrow> db \<times> (storage_error + unit)" where
  "persist_actor_message fails now lid lrole lstate conversation_id peer_id session_role session_state message s =
     save_state_session_and_insert_message fails lid lrole lstate conversation_id peer_id session_role
       session_state message now s"

definition received_record :: "string \<Rightarrow> u64 \<Rightarrow> durable_app_envelope \<Rightarrow> outbox_item \<Rightarrow> string \<Rightarrow> message_record" where
  "received_record conversation_id now envelope item plaintext =
     \<lparr>mr_message_id = ''bob-'' @ dae_message_id envelope, mr_conversation_id = conversation_id,
      mr_sender_id = ''alice'', mr_recipient_id = ''bob'', mr_direction = DirReceived,
      mr_status = StatusReceived, mr_protocol_counter = Some (rm_number (dae_message envelope)),
      mr_ciphertext = ob_payload item, mr_plaintext = Some plaintext, mr_created_at = now\<rparr>"

definition deliver_outbox_item_to_bob ::
    "crypto \<Rightarrow> codec \<Rightarrow> (nat \<Rightarrow> bool) \<Rightarrow> u64 \<Rightarrow> string \<Rightarrow> outbox_item \<Rightarrow> db \<Rightarrow> bob
      \<Rightarrow> db \<times> bob \<times> (app_error + string)" where
  "deliver_outbox_item_to_bob K C fails now conversation_id item s b =
     (case cd_durable_decode C (ob_payload item) of None \<Rightarrow> (s, b, Inl AppCodec) | Some envelope \<Rightarrow>
        (case accept_message_once (dae_message_id envelope) now s of (s1, accepted) \<Rightarrow>
           if \<not> accepted then (s1, b, Inr (dae_message_id envelope))
           else (case decrypt_from_alice K (dae_message envelope) b of
                   (b1, Inl e) \<Rightarrow> (s1, b1, Inl (AppCrypto e))
                 | (b1, Inr plaintext) \<Rightarrow>
                     (case bo_session b1 of
                        None \<Rightarrow> (s1, b1, Inl (AppMessage ''Bob session missing after outbox receive''))
                      | Some session \<Rightarrow>
                          (case persist_actor_message fails now ''bob'' ''bob'' (cd_bob_state C (bob_export_state b1))
                                  conversation_id ''alice'' ''bob'' (cd_session_state C (ratchet_state session))
                                  (received_record conversation_id now envelope item plaintext) s1 of
                             (s2, Inl e) \<Rightarrow> (s2, b1, Inl (AppStorage e))
                           | (s2, Inr _) \<Rightarrow> (s2, b1, Inr (dae_message_id envelope)))))))"

definition handle_ack :: "u64 \<Rightarrow> string \<Rightarrow> db \<Rightarrow> db" where
  "handle_ack now message_id s = mark_outbox_delivered message_id now s"

lemma accept_frame:
  "messages (fst (accept_message_once mid now s)) = messages s"
  "outbox (fst (accept_message_once mid now s)) = outbox s"
  by (simp_all add: accept_message_once_def case_prod_unfold Let_def)

lemma accept_known: "mid \<in> set (accepted_ids s) \<Longrightarrow> accept_message_once mid now s = (s, False)"
  by (auto simp: accept_message_once_def insert_or_ignore_def has_key_def accepted_ids_def)

lemma accept_adds: "mid \<in> set (accepted_ids (fst (accept_message_once mid now s)))"
  by (simp add: accepted_store.entries_put)

lemma redelivery:
  assumes "cd_durable_decode C (ob_payload item) = Some env" "dae_message_id env \<in> set (accepted_ids s)"
  shows "deliver_outbox_item_to_bob K C fails now c item s b = (s, b, Inr (dae_message_id env))"
  using assms by (simp add: deliver_outbox_item_to_bob_def accept_known)

lemma deliver_accepts:
  assumes "cd_durable_decode C (ob_payload item) = Some env"
  shows "dae_message_id env \<in> set (accepted_ids (fst (deliver_outbox_item_to_bob K C fails now c item s b)))"
proof -
  let ?s1 = "fst (accept_message_once (dae_message_id env) now s)"
  have "accepted_ids (fst (persist_actor_message fails now x1 x2 x3 x4 x5 x6 x7 m ?s1)) = accepted_ids ?s1" for x1 x2 x3 x4 x5 x6 x7 m
    by (simp add: persist_actor_message_def)
  then show ?thesis using assms accept_adds [of "dae_message_id env" now s]
    by (simp add: deliver_outbox_item_to_bob_def case_prod_unfold split: sum.splits option.splits)
qed

text \<open>
  C21: delivering an outbox item to Bob again, however often and after whatever else the database
  did, acknowledges it again and changes neither the database nor Bob's session, so a message
  that was stored is stored once.
\<close>

theorem redelivery_idempotent:
  assumes "cd_durable_decode C (ob_payload item) = Some env"
    and "deliver_outbox_item_to_bob K C fails now c item s b = (s1, b1, res)"
    and "(storage_step strict)\<^sup>*\<^sup>* s1 t"
  shows "deliver_outbox_item_to_bob K C fails' later c' item t b' = (t, b', Inr (dae_message_id env))"
proof (rule redelivery [OF assms(1)])
  have "dae_message_id env \<in> set (accepted_ids s1)" using deliver_accepts [OF assms(1), of K fails now c s b] assms(2) by simp
  then show "dae_message_id env \<in> set (accepted_ids t)" using accepted_steps [OF assms(3)] by blast
qed

text \<open>
  The id is recorded as accepted before the message is decrypted and stored.  When decryption
  or the database write fails, the sender's retry is acknowledged as a duplicate and the sender
  marks the item delivered, although the text was never stored.
\<close>

theorem failed_delivery_is_acknowledged:
  assumes "cd_durable_decode C (ob_payload item) = Some env"
    and "deliver_outbox_item_to_bob K C fails now c item s b = (s1, b1, Inl e)"
    and "\<not> message_exists (''bob-'' @ dae_message_id env) s"
  shows "deliver_outbox_item_to_bob K C fails' later c item s1 b1 = (s1, b1, Inr (dae_message_id env))
    \<and> \<not> message_exists (''bob-'' @ dae_message_id env) s1"
proof
  have "dae_message_id env \<in> set (accepted_ids s1)" using deliver_accepts [OF assms(1), of K fails now c s b] assms(2) by simp
  then show "deliver_outbox_item_to_bob K C fails' later c item s1 b1 = (s1, b1, Inr (dae_message_id env))"
    by (rule redelivery [OF assms(1)])
  let ?a = "fst (accept_message_once (dae_message_id env) now s)"
  have tx: "fst (persist_actor_message fails now x1 x2 x3 x4 x5 x6 x7 m ?a) = ?a"
    if "snd (persist_actor_message fails now x1 x2 x3 x4 x5 x6 x7 m ?a) = Inl err" for x1 x2 x3 x4 x5 x6 x7 m err
    using that transaction_cases [of fails "[stmt_upsert_local_identity x1 x2 x3 (as_i64 now),
        stmt_upsert_session x4 x5 x6 x7 (as_i64 now), stmt_insert_message m]" ?a]
    by (auto simp: persist_actor_message_def save_state_session_and_insert_message_def)
  have "messages s1 = messages s"
    using assms(1,2) accept_frame(1) [of "dae_message_id env" now s] tx
    by (auto simp: deliver_outbox_item_to_bob_def case_prod_unfold prod_eq_iff split: sum.splits option.splits if_splits)
  then show "\<not> message_exists (''bob-'' @ dae_message_id env) s1" using assms(3) by (simp add: message_exists_def)
qed

section \<open>The mailbox clients\<close>

text \<open>
  The link to the node is a parameter: a request may not reach the node, or its answer may be
  lost on the way back (\<^verbatim>\<open>mailbox_request\<close> reports both as an error).
\<close>

datatype link = LinkUp | LinkDown | LinkAnswerLost

definition mailbox_request_call ::
    "link \<Rightarrow> u64 \<Rightarrow> mailbox_request \<Rightarrow> mailbox \<Rightarrow> mailbox \<times> (app_error + mailbox_response)" where
  "mailbox_request_call l node_now request m = (case l of
     LinkUp \<Rightarrow> (case handle_mailbox_request node_now request m of (m', response) \<Rightarrow> (m', Inr response))
   | LinkDown \<Rightarrow> (m, Inl (AppMessage ''mailbox request failed''))
   | LinkAnswerLost \<Rightarrow> (fst (handle_mailbox_request node_now request m), Inl (AppMessage ''mailbox request failed'')))"

definition MAILBOX_ENVELOPE_TTL_SECS :: u64 where
  "MAILBOX_ENVELOPE_TTL_SECS = 5 * 60"

definition mailbox_demo_prekey_bundle :: "crypto \<Rightarrow> crypto_error + prekey_bundle" where
  "mailbox_demo_prekey_bundle K = bob_prekey_bundle K (bob_mailbox_demo K)"

definition deposited :: "mailbox_response \<Rightarrow> app_error + unit" where
  "deposited response = (case response of
     MbDeposited _ \<Rightarrow> Inr ()
   | MbError error \<Rightarrow> Inl (AppMessage error)
   | MbPending _ \<Rightarrow> Inl (AppMessage ''unexpected pending-envelope response'')
   | MbAcknowledged _ \<Rightarrow> Inl (AppMessage ''unexpected mailbox ACK response''))"

definition mailbox_sent_record :: "u64 \<Rightarrow> string \<Rightarrow> string \<Rightarrow> initial_message \<Rightarrow> bytes \<Rightarrow> string \<Rightarrow> message_record" where
  "mailbox_sent_record now message_id recipient_token initial_message encrypted_payload message =
     \<lparr>mr_message_id = message_id, mr_conversation_id = ''mailbox-'' @ recipient_token,
      mr_sender_id = ''alice'', mr_recipient_id = recipient_token, mr_direction = DirSent,
      mr_status = StatusStored, mr_protocol_counter = Some (rm_number (im_message initial_message)),
      mr_ciphertext = encrypted_payload, mr_plaintext = Some message, mr_created_at = now\<rparr>"

text \<open>
  \<^verbatim>\<open>run_alice_mailbox_deposit\<close>: \<open>secret\<close>, \<open>private\<close> and \<open>ephemeral\<close> are the random keys of \<^verbatim>\<open>Alice::local\<close>
  and \<^verbatim>\<open>encrypt_initial_message\<close>.
\<close>

definition run_alice_mailbox_deposit ::
    "crypto \<Rightarrow> codec \<Rightarrow> (nat \<Rightarrow> bool) \<Rightarrow> link \<Rightarrow> bytes \<Rightarrow> bytes \<Rightarrow> bytes \<Rightarrow> u64 \<Rightarrow> u64 \<Rightarrow> string \<Rightarrow> db \<Rightarrow> mailbox
      \<Rightarrow> db \<times> mailbox \<times> (app_error + unit)" where
  "run_alice_mailbox_deposit K C fails l secret private ephemeral now node_now message s m =
     (case mailbox_demo_prekey_bundle K of Inl e \<Rightarrow> (s, m, Inl (AppCrypto e)) | Inr bob_bundle \<Rightarrow>
      (let recipient_token = recipient_token_for_bundle K bob_bundle in
       case encrypt_initial_message K ephemeral bob_bundle message (alice_local K secret private) of
         (_, Inl e) \<Rightarrow> (s, m, Inl (AppCrypto e))
       | (alice, Inr initial_message) \<Rightarrow>
          (let encrypted_payload = cd_initial C initial_message;
               message_id = message_id_for K now encrypted_payload;
               envelope = \<lparr>oe_recipient_token = recipient_token, oe_message_id = message_id,
                 oe_encrypted_payload = encrypted_payload,
                 oe_expires_at = Some (now + MAILBOX_ENVELOPE_TTL_SECS)\<rparr>;
               item = \<lparr>ob_message_id = message_id, ob_recipient_id = recipient_token,
                 ob_payload = encrypted_payload, ob_status = OutboxPending, ob_retry_count = 0,
                 ob_created_at = now, ob_last_attempt = None\<rparr>
           in case al_session alice of
                None \<Rightarrow> (s, m, Inl (AppMessage ''Alice session missing after mailbox encrypt''))
              | Some session \<Rightarrow>
                 (case save_state_session_message_and_outbox fails ''alice-mailbox'' ''alice''
                         (cd_alice_state C (alice_export_state alice)) (''mailbox-'' @ recipient_token)
                         recipient_token ''alice'' (cd_session_state C (ratchet_state session))
                         (mailbox_sent_record now message_id recipient_token initial_message encrypted_payload message)
                         item now s of
                    (s', Inl e) \<Rightarrow> (s', m, Inl (AppStorage e))
                  | (s', Inr _) \<Rightarrow>
                     (case mailbox_request_call l node_now (MbDeposit envelope) m of
                        (m', Inl e) \<Rightarrow> (s', m', Inl e)
                      | (m', Inr response) \<Rightarrow> (s', m', deposited response))))))"

definition mailbox_received_record :: "u64 \<Rightarrow> string \<Rightarrow> offline_envelope \<Rightarrow> initial_message \<Rightarrow> string \<Rightarrow> message_record" where
  "mailbox_received_record now recipient_token envelope initial_message plaintext =
     \<lparr>mr_message_id = oe_message_id envelope, mr_conversation_id = ''mailbox-'' @ recipient_token,
      mr_sender_id = ''alice'', mr_recipient_id = ''bob'', mr_direction = DirReceived,
      mr_status = StatusReceived, mr_protocol_counter = Some (rm_number (im_message initial_message)),
      mr_ciphertext = oe_encrypted_payload envelope, mr_plaintext = Some plaintext, mr_created_at = now\<rparr>"

text \<open>The part of the loop body before the acknowledgement.\<close>

definition receive_envelope ::
    "crypto \<Rightarrow> codec \<Rightarrow> u64 \<Rightarrow> string \<Rightarrow> offline_envelope \<Rightarrow> db \<Rightarrow> bob \<Rightarrow> db \<times> bob \<times> (app_error + unit)" where
  "receive_envelope K C now recipient_token envelope s b =
     (case accept_message_once (oe_message_id envelope) now s of (s1, accepted) \<Rightarrow>
        if \<not> accepted then (s1, b, Inr ())
        else (case cd_initial_decode C (oe_encrypted_payload envelope) of
                None \<Rightarrow> (s1, b, Inl AppCodec)
              | Some initial_message \<Rightarrow>
                  (case decrypt_initial_message K initial_message b of
                     (b1, Inl e) \<Rightarrow> (s1, b1, Inl (AppCrypto e))
                   | (b1, Inr plaintext) \<Rightarrow>
                      (let s2 = insert_message (mailbox_received_record now recipient_token envelope initial_message plaintext) s1
                       in (save_local_identity ''bob-mailbox'' ''bob'' (cd_bob_state C (bob_export_state b1)) now s2,
                           b1, Inr ())))))"

definition acknowledged :: "mailbox_response \<Rightarrow> app_error + unit" where
  "acknowledged response = (case response of
     MbAcknowledged _ \<Rightarrow> Inr ()
   | MbError error \<Rightarrow> Inl (AppMessage error)
   | _ \<Rightarrow> Inl (AppMessage ''unexpected mailbox retrieval ACK response''))"

fun fetch_loop ::
    "crypto \<Rightarrow> codec \<Rightarrow> (nat \<Rightarrow> link) \<Rightarrow> nat \<Rightarrow> u64 \<Rightarrow> u64 \<Rightarrow> string \<Rightarrow> offline_envelope list \<Rightarrow> db \<Rightarrow> bob \<Rightarrow> mailbox
      \<Rightarrow> db \<times> mailbox \<times> (app_error + unit)" where
  "fetch_loop K C l k now node_now recipient_token [] s b m = (s, m, Inr ())"
| "fetch_loop K C l k now node_now recipient_token (envelope # envelopes) s b m =
     (case receive_envelope K C now recipient_token envelope s b of
        (s1, b1, Inl e) \<Rightarrow> (s1, m, Inl e)
      | (s1, b1, Inr _) \<Rightarrow>
         (case mailbox_request_call (l k) node_now (MbAcknowledge (oe_message_id envelope)) m of
            (m1, Inl e) \<Rightarrow> (s1, m1, Inl e)
          | (m1, Inr response) \<Rightarrow>
             (case acknowledged response of
                Inl e \<Rightarrow> (s1, m1, Inl e)
              | Inr _ \<Rightarrow> fetch_loop K C l (Suc k) now node_now recipient_token envelopes s1 b1 m1)))"

definition run_bob_mailbox_fetch ::
    "crypto \<Rightarrow> codec \<Rightarrow> (nat \<Rightarrow> link) \<Rightarrow> u64 \<Rightarrow> u64 \<Rightarrow> db \<Rightarrow> mailbox \<Rightarrow> db \<times> mailbox \<times> (app_error + unit)" where
  "run_bob_mailbox_fetch K C l now node_now s m =
     (case bob_prekey_bundle K (bob_mailbox_demo K) of Inl e \<Rightarrow> (s, m, Inl (AppCrypto e)) | Inr bob_bundle \<Rightarrow>
      (let recipient_token = recipient_token_for_bundle K bob_bundle in
       case mailbox_request_call (l 0) node_now (MbFetch recipient_token) m of
         (m1, Inl e) \<Rightarrow> (s, m1, Inl e)
       | (m1, Inr response) \<Rightarrow>
          (case response of
             MbPending envelopes \<Rightarrow> fetch_loop K C l 1 now node_now recipient_token envelopes s (bob_mailbox_demo K) m1
           | MbError error \<Rightarrow> (s, m1, Inl (AppMessage error))
           | MbDeposited _ \<Rightarrow> (s, m1, Inl (AppMessage ''unexpected deposit response''))
           | MbAcknowledged _ \<Rightarrow> (s, m1, Inl (AppMessage ''unexpected mailbox ACK response'')))))"

section \<open>Offline delivery\<close>

lemma save_local_identity_messages [simp]: "messages (save_local_identity lid role st now s) = messages s"
  by (simp add: save_local_identity_def stmt_upsert_local_identity_def)

lemma save_local_identity_accepted [simp]: "accepted_ids (save_local_identity lid role st now s) = accepted_ids s"
  by (simp add: save_local_identity_def stmt_upsert_local_identity_def accepted_ids_def)

lemma insert_message_accepted [simp]: "accepted_ids (insert_message r s) = accepted_ids s"
  by (simp add: insert_message_def accepted_ids_def)

lemma messages_insert_message:
  "messages (insert_message r s) = fst (insert_or_ignore mw_message_id (message_to_row r) (messages s))"
  by (simp add: insert_message_def)

lemma accept_fresh: "mid \<notin> set (accepted_ids s) \<Longrightarrow> snd (accept_message_once mid now s)"
  by (auto simp: accept_message_once_def insert_or_ignore_def has_key_def accepted_ids_def)

lemma accepted_ids_accept:
  "set (accepted_ids (fst (accept_message_once mid now s))) = insert mid (set (accepted_ids s))"
  by (auto simp: accept_message_once_def insert_or_ignore_def has_key_def accepted_ids_def case_prod_unfold)

lemma receive_known:
  "oe_message_id env \<in> set (accepted_ids s) \<Longrightarrow> receive_envelope K C now tok env s b = (s, b, Inr ())"
  by (simp add: receive_envelope_def accept_known)

lemma receive_fresh:
  assumes "oe_message_id env \<notin> set (accepted_ids s)" "cd_initial_decode C (oe_encrypted_payload env) = Some im"
    and "decrypt_initial_message K im b = (b', Inr p)"
  obtains s' where "receive_envelope K C now tok env s b = (s', b', Inr ())"
    "messages s' = fst (insert_or_ignore mw_message_id (message_to_row (mailbox_received_record now tok env im p)) (messages s))"
    "set (accepted_ids s') = insert (oe_message_id env) (set (accepted_ids s))"
proof -
  let ?a = "accept_message_once (oe_message_id env) now s"
  have a: "?a = (fst ?a, True)" using accept_fresh [OF assms(1), of now] by (simp add: prod_eq_iff)
  show ?thesis
    by (rule that, subst receive_envelope_def, subst a, simp add: assms(2,3) Let_def)
       (simp_all add: messages_insert_message accept_frame accepted_ids_accept)
qed

lemma receive_undecryptable:
  assumes "oe_message_id env \<notin> set (accepted_ids s)" "cd_initial_decode C (oe_encrypted_payload env) = Some im"
    and "decrypt_initial_message K im b = (b', Inl e)"
  shows "receive_envelope K C now tok env s b =
    (fst (accept_message_once (oe_message_id env) now s), b', Inl (AppCrypto e))"
proof -
  let ?a = "accept_message_once (oe_message_id env) now s"
  have a: "?a = (fst ?a, True)" using accept_fresh [OF assms(1), of now] by (simp add: prod_eq_iff)
  show ?thesis by (subst receive_envelope_def, subst a) (simp add: assms(2,3))
qed

lemma decrypt_initial_uses_prekey:
  "decrypt_initial_message K im b = (b', Inr p) \<Longrightarrow> bo_one_time_prekey b' = None"
  by (auto simp: decrypt_initial_message_def Let_def decrypt_from_alice_def with_session_def
      split: option.splits if_splits sum.splits prod.splits)

lemma acknowledge_call:
  "snd (mailbox_request_call l t (MbAcknowledge mid) m) =
     (if l = LinkUp then Inr (MbAcknowledged mid) else Inl (AppMessage ''mailbox request failed''))"
  by (cases l) (simp_all add: mailbox_request_call_def)

lemma message_exists_iff: "message_exists mid s \<longleftrightarrow> mid \<in> mw_message_id ` set (messages s)"
  by (auto simp: message_exists_def count_where_def filter_empty_conv)

text \<open>
  C26: Bob's mailbox identity has one one-time prekey, so one run decrypts one envelope only.  When
  two are waiting, the run fails at the second, whose id is by then recorded as accepted; every
  later run takes it for a duplicate and acknowledges it, and its text is never stored.
\<close>

theorem second_envelope_lost:
  assumes "cd_initial_decode C (oe_encrypted_payload e1) = Some m1" "cd_initial_decode C (oe_encrypted_payload e2) = Some m2"
    and "decrypt_initial_message K m1 b = (b1, Inr p1)" "oe_message_id e1 \<noteq> oe_message_id e2" "l k = LinkUp"
    and "oe_message_id e1 \<notin> set (accepted_ids s)" "oe_message_id e2 \<notin> set (accepted_ids s)"
    and "\<not> message_exists (oe_message_id e2) s"
  shows "\<exists>s' m'. fetch_loop K C l k now t tok (e1 # e2 # rest) s b m = (s', m', Inl (AppCrypto PreKeyUnavailable))
    \<and> \<not> message_exists (oe_message_id e2) s'
    \<and> (\<forall>later b'. receive_envelope K C later tok e2 s' b' = (s', b', Inr ()))"
proof -
  obtain s1 where s1: "receive_envelope K C now tok e1 s b = (s1, b1, Inr ())"
    "messages s1 = fst (insert_or_ignore mw_message_id (message_to_row (mailbox_received_record now tok e1 m1 p1)) (messages s))"
    "set (accepted_ids s1) = insert (oe_message_id e1) (set (accepted_ids s))"
    by (rule receive_fresh [OF assms(6,1,3)])
  let ?s2 = "fst (accept_message_once (oe_message_id e2) now s1)"
  have "decrypt_initial_message K m2 b1 = (b1, Inl PreKeyUnavailable)"
    using decrypt_initial_uses_prekey [OF assms(3)] by (simp add: decrypt_initial_message_def)
  then have r2: "receive_envelope K C now tok e2 s1 b1 = (?s2, b1, Inl (AppCrypto PreKeyUnavailable))"
    using assms(2,4,7) s1(3) by (intro receive_undecryptable) auto
  let ?ack = "mailbox_request_call (l k) t (MbAcknowledge (oe_message_id e1)) m"
  have ack: "?ack = (fst ?ack, Inr (MbAcknowledged (oe_message_id e1)))" using assms(5) acknowledge_call by (simp add: prod_eq_iff)
  have loop: "fetch_loop K C l k now t tok (e1 # e2 # rest) s b m = (?s2, fst ?ack, Inl (AppCrypto PreKeyUnavailable))"
    by (subst fetch_loop.simps, subst s1(1), simp only: prod.case sum.case, subst ack) (simp add: acknowledged_def r2)
  have "\<not> message_exists (oe_message_id e2) ?s2"
    using assms(4,8) s1(2)
    by (auto simp: message_exists_iff accept_frame set_insert_or_ignore mailbox_received_record_def message_to_row_def)
  moreover have "receive_envelope K C later tok e2 ?s2 b' = (?s2, b', Inr ())" for later b'
    by (rule receive_known) (simp add: accepted_ids_accept)
  ultimately show ?thesis using loop by blast
qed

lemma loop_known:
  assumes "\<forall>e \<in> set es. oe_message_id e \<in> set (accepted_ids s)"
  shows "fst (fetch_loop K C l k now t tok es s b m) = s"
  using assms
proof (induction es arbitrary: k m)
  case (Cons e es)
  then have "receive_envelope K C now tok e s b = (s, b, Inr ())" by (intro receive_known) simp
  then show ?case using Cons by (simp split: sum.splits prod.splits)
qed simp

text \<open>The ids of the envelopes that wait for a recipient; the requests of a fetch add none.\<close>

definition waiting_ids :: "string \<Rightarrow> mailbox \<Rightarrow> string set" where
  "waiting_ids tok m = mbx_message_id ` {r \<in> set (mb_rows m). mbx_recipient_token r = tok \<and> mbx_status r = ''pending''}"

lemma waiting_ids_expire: "waiting_ids tok (expire now m) \<subseteq> waiting_ids tok m"
  by (auto simp: waiting_ids_def expire_def set_update_where split: if_splits)

lemma waiting_ids_acknowledge: "waiting_ids tok (acknowledge_retrieval mid now m) \<subseteq> waiting_ids tok m - {mid}"
proof -
  have "r \<in> set (mb_rows m) \<and> mbx_message_id r \<noteq> mid"
    if "r \<in> set (mb_rows (acknowledge_retrieval mid now m))" "mbx_status r = ''pending''" for r
  proof -
    have "r \<in> (\<lambda>q. if mbx_message_id q = mid then q\<lparr>mbx_status := ''delivered'', mbx_delivered_at := Some (as_i64 now)\<rparr> else q)
        ` set (mb_rows m)"
      using that(1) by (simp add: acknowledge_retrieval_def set_update_where)
    then obtain q where q: "q \<in> set (mb_rows m)"
      "r = (if mbx_message_id q = mid then q\<lparr>mbx_status := ''delivered'', mbx_delivered_at := Some (as_i64 now)\<rparr> else q)"
      by blast
    then show ?thesis using that(2) by (cases "mbx_message_id q = mid") simp_all
  qed
  then show ?thesis unfolding waiting_ids_def by blast
qed

lemma waiting_ids_calls:
  "waiting_ids tok (fst (mailbox_request_call l t (MbFetch tok') m)) \<subseteq> waiting_ids tok m"
  "waiting_ids tok (fst (mailbox_request_call l t (MbAcknowledge mid) m)) \<subseteq> waiting_ids tok m"
proof -
  have "waiting_ids tok (acknowledge_retrieval mid t m) \<subseteq> waiting_ids tok m" using waiting_ids_acknowledge by blast
  then show "waiting_ids tok (fst (mailbox_request_call l t (MbAcknowledge mid) m)) \<subseteq> waiting_ids tok m"
    by (cases l) (simp_all add: mailbox_request_call_def)
  show "waiting_ids tok (fst (mailbox_request_call l t (MbFetch tok') m)) \<subseteq> waiting_ids tok m"
    using waiting_ids_expire [of tok t m] by (cases l) (simp_all add: mailbox_request_call_def fetch_pending_def Let_def)
qed

lemma waiting_ids_loop: "waiting_ids tok (fst (snd (fetch_loop K C l k now t tok' es s b m))) \<subseteq> waiting_ids tok m"
proof (induction es arbitrary: k s b m)
  case (Cons e es)
  have call: "waiting_ids tok m1 \<subseteq> waiting_ids tok m"
    if "mailbox_request_call (l k) t (MbAcknowledge (oe_message_id e)) m = (m1, r)" for m1 r
    using that waiting_ids_calls(2) [of tok "l k" t "oe_message_id e" m] by simp
  show ?case using order_trans [OF Cons.IH call] call by (auto split: sum.splits prod.splits)
qed simp

lemma fetch_waiting:
  "me_message_id ` set (snd (fetch_pending tok t m)) \<subseteq> waiting_ids tok m"
  "waiting_ids tok (fst (fetch_pending tok t m)) \<subseteq> me_message_id ` set (snd (fetch_pending tok t m))"
proof -
  show "me_message_id ` set (snd (fetch_pending tok t m)) \<subseteq> waiting_ids tok m"
    by (auto simp: fetch_rows row_fetchable_def waiting_ids_def)
  have "row_fetchable tok (as_i64 t) r"
    if "r \<in> set (mb_rows (expire t m))" "mbx_recipient_token r = tok" "mbx_status r = ''pending''" for r
    using that by (auto simp: expire_def set_update_where row_fetchable_def row_expired_def split: if_splits option.splits)
  then show "waiting_ids tok (fst (fetch_pending tok t m)) \<subseteq> me_message_id ` set (snd (fetch_pending tok t m))"
    unfolding waiting_ids_def fetch_pending_def by (simp add: Let_def image_image) blast
qed

definition deposited_row :: "crypto \<Rightarrow> codec \<Rightarrow> u64 \<Rightarrow> u64 \<Rightarrow> prekey_bundle \<Rightarrow> initial_message \<Rightarrow> mailbox_row" where
  "deposited_row K C now node_now pb im =
     \<lparr>mbx_message_id = message_id_for K now (cd_initial C im), mbx_recipient_token = recipient_token_for_bundle K pb,
      mbx_encrypted_payload = cd_initial C im, mbx_status = ''pending'', mbx_created_at = as_i64 node_now,
      mbx_expires_at = Some (as_i64 (now + MAILBOX_ENVELOPE_TTL_SECS)), mbx_delivered_at = None\<rparr>"

lemma deposit_appends:
  assumes "handle_mailbox_request t (MbDeposit e) m = (m', MbDeposited x)" "length (mb_rows m') = Suc (length (mb_rows m))"
  shows "mb_rows m' = mb_rows (expire t m) @ [envelope_to_row \<lparr>me_message_id = oe_message_id e,
    me_recipient_token = oe_recipient_token e, me_encrypted_payload = oe_encrypted_payload e, me_created_at = t,
    me_expires_at = oe_expires_at e\<rparr>]"
proof -
  have "length (mb_rows (expire t m)) = length (mb_rows m)" by (simp add: expire_def update_where_def)
  then show ?thesis using assms
    by (auto simp: deposit_def Let_def insert_or_ignore_def split: if_splits)
qed

lemma call_up:
  "mailbox_request_call LinkUp t q m = (m', Inr r) \<longleftrightarrow> handle_mailbox_request t q m = (m', r)"
  by (simp add: mailbox_request_call_def case_prod_unfold prod_eq_iff)

lemma deposited_iff: "deposited r = Inr () \<longleftrightarrow> (\<exists>x. r = MbDeposited x)"
  by (cases r) (simp_all add: deposited_def)

definition deposited_envelope :: "crypto \<Rightarrow> codec \<Rightarrow> u64 \<Rightarrow> prekey_bundle \<Rightarrow> initial_message \<Rightarrow> offline_envelope" where
  "deposited_envelope K C now pb im =
     \<lparr>oe_recipient_token = recipient_token_for_bundle K pb, oe_message_id = message_id_for K now (cd_initial C im),
      oe_encrypted_payload = cd_initial C im, oe_expires_at = Some (now + MAILBOX_ENVELOPE_TTL_SECS)\<rparr>"

lemma alice_deposit_request:
  assumes "run_alice_mailbox_deposit K C fails LinkUp secret private eph now node_now p sa m = (sa', m', Inr ())"
  obtains pb a im x where "bob_prekey_bundle K (bob_mailbox_demo K) = Inr pb"
    "encrypt_initial_message K eph pb p (alice_local K secret private) = (a, Inr im)"
    "handle_mailbox_request node_now (MbDeposit (deposited_envelope K C now pb im)) m = (m', MbDeposited x)"
proof -
  obtain pb a im where pb: "bob_prekey_bundle K (bob_mailbox_demo K) = Inr pb"
    "encrypt_initial_message K eph pb p (alice_local K secret private) = (a, Inr im)"
    using assms(1) by (auto simp: run_alice_mailbox_deposit_def mailbox_demo_prekey_bundle_def Let_def
        split: sum.splits prod.splits)
  have "\<exists>response. mailbox_request_call LinkUp node_now (MbDeposit (deposited_envelope K C now pb im)) m = (m', Inr response)
      \<and> deposited response = Inr ()"
    using assms(1) unfolding run_alice_mailbox_deposit_def mailbox_demo_prekey_bundle_def pb Let_def deposited_envelope_def
    by (auto simp: pb(2) split: sum.splits prod.splits option.splits)
  then show ?thesis unfolding call_up deposited_iff using pb by (blast intro: that)
qed

lemma alice_deposit_row:
  assumes "run_alice_mailbox_deposit K C fails LinkUp secret private eph now node_now p sa m = (sa', m', Inr ())"
    and "length (mb_rows m') = Suc (length (mb_rows m))"
  obtains pb a im where "bob_prekey_bundle K (bob_mailbox_demo K) = Inr pb"
    "encrypt_initial_message K eph pb p (alice_local K secret private) = (a, Inr im)"
    "mb_rows m' = mb_rows (expire node_now m) @ [deposited_row K C now node_now pb im]"
proof -
  obtain pb a im x where pb: "bob_prekey_bundle K (bob_mailbox_demo K) = Inr pb"
    "encrypt_initial_message K eph pb p (alice_local K secret private) = (a, Inr im)"
    "handle_mailbox_request node_now (MbDeposit (deposited_envelope K C now pb im)) m = (m', MbDeposited x)"
    by (rule alice_deposit_request [OF assms(1)])
  from deposit_appends [OF pb(3) assms(2)] pb(1,2) show ?thesis
    by (intro that [of pb a im]) (simp_all add: deposited_row_def envelope_to_row_def deposited_envelope_def)
qed

lemma bob_mailbox_demo_wf: "bob_wf K (bob_mailbox_demo K)"
  by (simp add: bob_wf_def bob_mailbox_demo_def bob_local_def from_private_bytes_def)

lemma filter_last_only: "\<forall>x \<in> set xs. \<not> P x \<Longrightarrow> P y \<Longrightarrow> filter P (xs @ [y]) = [y]"
  by (simp add: filter_empty_conv)

lemma fetch_deposited:
  assumes "mb_rows m' = mb_rows (expire t0 m) @ [deposited_row K C now node_now pb im]"
    and "snd (fetch_pending (recipient_token_for_bundle K pb) t m) = []"
    and "as_i64 t < as_i64 (now + MAILBOX_ENVELOPE_TTL_SECS)"
  shows "snd (fetch_pending (recipient_token_for_bundle K pb) t m') = [envelope_from_row (deposited_row K C now node_now pb im)]"
proof -
  let ?tok = "recipient_token_for_bundle K pb" and ?row = "deposited_row K C now node_now pb im"
  have "envelope_from_row r \<in> set (snd (fetch_pending ?tok t m))" if "r \<in> set (mb_rows m)" "row_fetchable ?tok (as_i64 t) r" for r
    using that by (simp add: fetch_rows)
  then have "\<forall>r \<in> set (mb_rows m). \<not> row_fetchable ?tok (as_i64 t) r" using assms(2) by fastforce
  then have "\<forall>r \<in> set (mb_rows (expire t0 m)). \<not> row_fetchable ?tok (as_i64 t) r"
    by (auto simp: expire_def set_update_where row_fetchable_def)
  moreover have "row_fetchable ?tok (as_i64 t) ?row" using assms(3) by (simp add: row_fetchable_def deposited_row_def)
  ultimately show ?thesis by (simp add: fetch_rows assms(1) select_order_by_def filter_last_only)
qed

text \<open>A fetch run whose request is answered, and any run over envelopes that were all accepted.\<close>

definition as_offline :: "mailbox_envelope_record \<Rightarrow> offline_envelope" where
  "as_offline r = \<lparr>oe_recipient_token = me_recipient_token r, oe_message_id = me_message_id r,
     oe_encrypted_payload = me_encrypted_payload r, oe_expires_at = me_expires_at r\<rparr>"

lemma run_fetch_up:
  assumes "bob_prekey_bundle K (bob_mailbox_demo K) = Inr pb" "l 0 = LinkUp"
  shows "run_bob_mailbox_fetch K C l now t s m = fetch_loop K C l 1 now t (recipient_token_for_bundle K pb)
    (map as_offline (snd (fetch_pending (recipient_token_for_bundle K pb) t m))) s (bob_mailbox_demo K)
    (fst (fetch_pending (recipient_token_for_bundle K pb) t m))"
  using assms by (simp add: run_bob_mailbox_fetch_def mailbox_request_call_def Let_def case_prod_unfold as_offline_def [abs_def])

lemma run_fetch_waiting: "waiting_ids tok (fst (snd (run_bob_mailbox_fetch K C l now t s m))) \<subseteq> waiting_ids tok m"
proof (cases "bob_prekey_bundle K (bob_mailbox_demo K)")
  case (Inr pb)
  note asked = waiting_ids_calls(1) [of tok "l 0" t "recipient_token_for_bundle K pb" m]
  show ?thesis
    using asked
    by (auto simp: run_bob_mailbox_fetch_def Inr Let_def split: prod.splits sum.splits mailbox_response.splits
        dest!: subsetD [OF waiting_ids_loop])
qed (simp add: run_bob_mailbox_fetch_def)

lemma run_fetch_known:
  assumes "bob_prekey_bundle K (bob_mailbox_demo K) = Inr pb"
    and "waiting_ids (recipient_token_for_bundle K pb) m \<subseteq> set (accepted_ids s)"
  shows "fst (run_bob_mailbox_fetch K C l now t s m) = s"
proof (cases "l 0 = LinkUp")
  case True
  have "\<forall>e \<in> set (map as_offline (snd (fetch_pending (recipient_token_for_bundle K pb) t m))). oe_message_id e \<in> set (accepted_ids s)"
    using order_trans [OF fetch_waiting(1) assms(2)] by (auto simp: as_offline_def)
  then show ?thesis unfolding run_fetch_up [where l = l, OF assms(1) True] by (rule loop_known)
next
  case False
  then show ?thesis
    by (cases "l 0") (simp_all add: run_bob_mailbox_fetch_def assms(1) mailbox_request_call_def Let_def)
qed

text \<open>Fetches one after the other, each with its link and the clocks of Bob and of the node.\<close>

fun fetch_again :: "crypto \<Rightarrow> codec \<Rightarrow> ((nat \<Rightarrow> link) \<times> u64 \<times> u64) list \<Rightarrow> db \<Rightarrow> mailbox \<Rightarrow> db \<times> mailbox" where
  "fetch_again K C [] s m = (s, m)"
| "fetch_again K C ((l, now, node_now) # fetches) s m =
     (case run_bob_mailbox_fetch K C l now node_now s m of (s1, m1, _) \<Rightarrow> fetch_again K C fetches s1 m1)"

lemma fetch_again_known:
  assumes "bob_prekey_bundle K (bob_mailbox_demo K) = Inr pb"
    and "waiting_ids (recipient_token_for_bundle K pb) m \<subseteq> set (accepted_ids s)"
  shows "fst (fetch_again K C fetches s m) = s"
  using assms(2)
proof (induction fetches arbitrary: m)
  case (Cons f fetches)
  obtain l now t where f: "f = (l, now, t)" by (cases f)
  let ?run = "run_bob_mailbox_fetch K C l now t s m"
  have "waiting_ids (recipient_token_for_bundle K pb) (fst (snd ?run)) \<subseteq> set (accepted_ids s)"
    by (rule order_trans [OF run_fetch_waiting Cons.prems])
  then show ?case
    using run_fetch_known [OF assms(1) Cons.prems, of C l now t] Cons.IH by (simp add: f case_prod_unfold)
qed simp

text \<open>
  C22: a message that Alice deposits for Bob is delivered once.  Suppose the node has stored the envelope as a new
  row, its id is new to Bob, and no other envelope for him is waiting when he fetches: earlier ones were acknowledged
  or have expired.  (When two are waiting, the second is lost.)  Then the first fetch that reaches the node before the
  envelope expires adds exactly one row to Bob's history, with the id, the text and the conversation of the mailbox,
  whatever happens to the acknowledgement.  When the acknowledgement is answered, the run succeeds and nothing waits for
  Bob any more; and no sequence of later fetches, whatever the link does, changes Bob's database again.
\<close>

theorem mailbox_offline_delivery:
  assumes "crypto_ok K" "sig_correct K" "codec_ok C" "is_str p"
    and "run_alice_mailbox_deposit K C fails LinkUp secret private eph now node_now p sa m = (sa', m', Inr ())"
    and "length (mb_rows m') = Suc (length (mb_rows m))"
    and "tok = mbx_recipient_token (last (mb_rows m'))" "mid = mbx_message_id (last (mb_rows m'))"
    and "snd (fetch_pending tok t m) = []"
    and "as_i64 t < as_i64 (now + MAILBOX_ENVELOPE_TTL_SECS)" "l 0 = LinkUp"
    and "mid \<notin> set (accepted_ids s)" "\<not> message_exists mid s"
    and "run_bob_mailbox_fetch K C l now' t s m' = (s', m'', res)"
  shows "(\<exists>row. messages s' = messages s @ [row] \<and> mw_message_id row = mid \<and> mw_plaintext row = Some p
        \<and> mw_conversation_id row = ''mailbox-'' @ tok \<and> mw_direction row = ''received'')
    \<and> (l 1 = LinkUp \<longrightarrow> res = Inr () \<and> (\<forall>later. snd (fetch_pending tok later m'') = []))
    \<and> fst (fetch_again K C fetches s' m'') = s'"
proof -
  obtain pb a im where pb: "bob_prekey_bundle K (bob_mailbox_demo K) = Inr pb"
    and im: "encrypt_initial_message K eph pb p (alice_local K secret private) = (a, Inr im)"
    and rows: "mb_rows m' = mb_rows (expire node_now m) @ [deposited_row K C now node_now pb im]"
    by (rule alice_deposit_row [OF assms(5,6)])
  let ?e = "as_offline (envelope_from_row (deposited_row K C now node_now pb im))"
  have e: "oe_message_id ?e = mid" "oe_encrypted_payload ?e = cd_initial C im" and tok: "recipient_token_for_bundle K pb = tok"
    using assms(7,8) rows by (simp_all add: as_offline_def envelope_from_row_def deposited_row_def)
  obtain b' where b': "decrypt_initial_message K im (bob_mailbox_demo K) = (b', Inr p)"
    using initial_message_run [OF assms(1,2) bob_mailbox_demo_wf pb assms(4) im] by blast
  let ?m1 = "fst (fetch_pending tok t m')"
  note fetched = fetch_deposited [OF rows assms(9) [folded tok] assms(10), unfolded tok]
  have run: "fetch_loop K C l 1 now' t tok [?e] s (bob_mailbox_demo K) ?m1 = (s', m'', res)"
    using assms(14) unfolding run_fetch_up [where l = l, OF pb assms(11)] tok fetched by simp
  obtain s1 where s1: "receive_envelope K C now' tok ?e s (bob_mailbox_demo K) = (s1, b', Inr ())"
    "messages s1 = fst (insert_or_ignore mw_message_id (message_to_row (mailbox_received_record now' tok ?e im p)) (messages s))"
    "set (accepted_ids s1) = insert mid (set (accepted_ids s))"
    using receive_fresh [of ?e s C im K "bob_mailbox_demo K" b' p now' tok] assms(3,12) e b' by (auto simp: codec_ok_def)
  have s': "s' = s1" using run by (simp add: s1(1) split: sum.splits prod.splits)
  have "\<not> has_key mw_message_id mid (messages s)" using assms(13) by (auto simp: message_exists_iff has_key_def)
  then have stored: "\<exists>row. messages s' = messages s @ [row] \<and> mw_message_id row = mid \<and> mw_plaintext row = Some p
        \<and> mw_conversation_id row = ''mailbox-'' @ tok \<and> mw_direction row = ''received''"
    by (simp add: s' s1(2) insert_or_ignore_def message_to_row_def mailbox_received_record_def e(1))
  have waits: "waiting_ids tok ?m1 \<subseteq> {mid}"
    using fetch_waiting(2) [of tok t m'] e(1) by (simp add: fetched as_offline_def)
  have acked: "l 1 = LinkUp \<longrightarrow> res = Inr () \<and> (\<forall>later. snd (fetch_pending tok later m'') = [])"
  proof
    assume up: "l 1 = LinkUp"
    have "m'' = acknowledge_retrieval mid t ?m1" "res = Inr ()"
      using run by (simp_all add: s1(1) up [unfolded One_nat_def] mailbox_request_call_def acknowledged_def e(1))
    moreover have "waiting_ids tok (acknowledge_retrieval mid t ?m1) = {}"
      using waiting_ids_acknowledge [of tok mid t ?m1] waits by blast
    ultimately show "res = Inr () \<and> (\<forall>later. snd (fetch_pending tok later m'') = [])"
      using fetch_waiting(1) [of tok _ m''] by simp
  qed
  have "waiting_ids tok m'' \<subseteq> set (accepted_ids s')"
    using waiting_ids_loop [of tok K C l 1 now' t tok "[?e]" s "bob_mailbox_demo K" ?m1] waits run s1(3) by (auto simp: s')
  then have "fst (fetch_again K C fetches s' m'') = s'" using fetch_again_known [OF pb, unfolded tok] by blast
  with stored acked show ?thesis by blast
qed

section \<open>Concrete instances\<close>

text \<open>A codec that meets \<open>codec_ok\<close>: byte strings with their length in unary in front.\<close>

definition enc_bytes :: "bytes \<Rightarrow> bytes" where
  "enc_bytes bs = replicate (length bs) 1 @ 0 # bs"

definition dec_bytes :: "bytes \<Rightarrow> bytes \<times> bytes" where
  "dec_bytes w = (let n = length (takeWhile (\<lambda>x. x = 1) w) in (take n (drop (Suc n) w), drop (Suc n + n) w))"

lemma dec_enc_bytes [simp]: "dec_bytes (enc_bytes bs @ rest) = (bs, rest)"
proof -
  have "takeWhile (\<lambda>x. x = 1) (replicate n 1 @ (0 :: u8) # xs) = replicate n 1" for n xs by (induction n) simp_all
  then have "takeWhile (\<lambda>x. x = 1) (enc_bytes bs @ rest) = replicate (length bs) 1" by (simp add: enc_bytes_def)
  then show ?thesis by (simp add: dec_bytes_def enc_bytes_def)
qed

definition enc_u64 :: "u64 \<Rightarrow> bytes" where
  "enc_u64 n = enc_bytes (replicate (unat n) 0)"

definition dec_u64 :: "bytes \<Rightarrow> u64 \<times> bytes" where
  "dec_u64 w = (case dec_bytes w of (bs, rest) \<Rightarrow> (of_nat (length bs), rest))"

lemma dec_enc_u64 [simp]: "dec_u64 (enc_u64 n @ rest) = (n, rest)"
  by (simp add: dec_u64_def enc_u64_def)

definition enc_message :: "ratchet_message \<Rightarrow> bytes" where
  "enc_message m = enc_u64 (rm_number m) @ enc_bytes (rm_ratchet_public_key m) @ enc_bytes (rm_ciphertext m)"

definition dec_message :: "bytes \<Rightarrow> ratchet_message" where
  "dec_message w = (case dec_u64 w of (n, w1) \<Rightarrow> case dec_bytes w1 of (pk, w2) \<Rightarrow>
     \<lparr>rm_number = n, rm_ratchet_public_key = pk, rm_ciphertext = fst (dec_bytes w2)\<rparr>)"

lemma dec_enc_message [simp]: "dec_message (enc_message m) = m"
  using dec_enc_bytes [of "rm_ciphertext m" "[]"] by (simp add: dec_message_def enc_message_def)

definition toy_codec :: codec where
  "toy_codec =
     \<lparr>cd_alice_state = \<lambda>_. [], cd_bob_state = \<lambda>_. [], cd_session_state = \<lambda>_. [],
      cd_durable = \<lambda>e. enc_bytes (as_bytes (dae_message_id e)) @ enc_message (dae_message e),
      cd_durable_decode = \<lambda>w. (case dec_bytes w of (i, w1) \<Rightarrow>
        Some \<lparr>dae_message_id = map char_of_byte i, dae_message = dec_message w1\<rparr>),
      cd_initial = \<lambda>m. enc_bytes (im_alice_initial_public_key m) @ enc_u64 (im_one_time_prekey_id m) @ enc_message (im_message m),
      cd_initial_decode = \<lambda>w. (case dec_bytes w of (pk, w1) \<Rightarrow> case dec_u64 w1 of (i, w2) \<Rightarrow>
        Some \<lparr>im_alice_initial_public_key = pk, im_one_time_prekey_id = i, im_message = dec_message w2\<rparr>)\<rparr>"

lemma toy_codec_ok: "codec_ok toy_codec"
  by (simp add: codec_ok_def toy_codec_def as_bytes_def comp_def)

definition toy_durable :: durable_app_envelope where
  "toy_durable = \<lparr>dae_message_id = ''m1'', dae_message = \<lparr>rm_number = 0, rm_ratchet_public_key = [8], rm_ciphertext = [1, 2]\<rparr>\<rparr>"

definition toy_item :: outbox_item where
  "toy_item = \<lparr>ob_message_id = ''m1'', ob_recipient_id = ''bob'', ob_payload = cd_durable toy_codec toy_durable,
     ob_status = OutboxPending, ob_retry_count = 0, ob_created_at = 0, ob_last_attempt = None\<rparr>"

lemma toy_item_decodes: "cd_durable_decode toy_codec (ob_payload toy_item) = Some toy_durable"
  using toy_codec_ok by (simp add: toy_item_def codec_ok_def)

theorem redelivery_idempotent_witness:
  "deliver_outbox_item_to_bob toy_crypto toy_codec (\<lambda>_. False) 9 ''c'' toy_item
     (fst (deliver_outbox_item_to_bob toy_crypto toy_codec (\<lambda>_. False) 5 ''c'' toy_item init_db toy_bob)) toy_bob
   = (fst (deliver_outbox_item_to_bob toy_crypto toy_codec (\<lambda>_. False) 5 ''c'' toy_item init_db toy_bob), toy_bob, Inr ''m1'')"
proof -
  let ?run = "deliver_outbox_item_to_bob toy_crypto toy_codec (\<lambda>_. False) 5 ''c'' toy_item init_db toy_bob"
  have "?run = (fst ?run, fst (snd ?run), snd (snd ?run))" by simp
  from redelivery_idempotent [OF toy_item_decodes this rtranclp.rtrancl_refl] show ?thesis by (simp add: toy_durable_def)
qed

theorem failed_delivery_is_acknowledged_witness:
  "\<exists>s1 b1. deliver_outbox_item_to_bob toy_crypto toy_codec (\<lambda>_. False) 5 ''c'' toy_item init_db toy_bob
       = (s1, b1, Inl (AppCrypto MissingSessionKey))
     \<and> deliver_outbox_item_to_bob toy_crypto toy_codec (\<lambda>_. False) 9 ''c'' toy_item s1 b1 = (s1, b1, Inr ''m1'')
     \<and> \<not> message_exists ''bob-m1'' s1"
proof -
  let ?run = "deliver_outbox_item_to_bob toy_crypto toy_codec (\<lambda>_. False) 5 ''c'' toy_item init_db toy_bob"
  have fails: "?run = (fst ?run, fst (snd ?run), Inl (AppCrypto MissingSessionKey))"
    by (simp add: deliver_outbox_item_to_bob_def toy_item_decodes accept_message_once_def insert_or_ignore_def init_db_def
        decrypt_from_alice_def with_session_def toy_bob_def bob_local_def)
  have "\<not> message_exists (''bob-'' @ dae_message_id toy_durable) init_db" by (simp add: message_exists_def count_where_def init_db_def)
  from failed_delivery_is_acknowledged [OF toy_item_decodes fails this] fails show ?thesis
    by (intro exI [of _ "fst ?run"] exI [of _ "fst (snd ?run)"]) (simp add: toy_durable_def)
qed

definition toy_payload :: initial_message where
  "toy_payload = projr (snd (encrypt_initial_message toy_crypto [9] (projr (bob_prekey_bundle toy_crypto toy_bob)) ''hello''
     (alice_local toy_crypto [5] [6])))"

definition toy_offline :: "string \<Rightarrow> offline_envelope" where
  "toy_offline mid = \<lparr>oe_recipient_token = ''t'', oe_message_id = mid,
     oe_encrypted_payload = cd_initial toy_codec toy_payload, oe_expires_at = None\<rparr>"

lemma toy_offline_decodes: "cd_initial_decode toy_codec (oe_encrypted_payload (toy_offline mid)) = Some toy_payload"
  using toy_codec_ok by (simp add: toy_offline_def codec_ok_def)

lemma toy_payload_decrypts: "\<exists>b'. decrypt_initial_message toy_crypto toy_payload toy_bob = (b', Inr ''hello'')"
proof -
  let ?pb = "projr (bob_prekey_bundle toy_crypto toy_bob)"
  let ?run = "encrypt_initial_message toy_crypto [9] ?pb ''hello'' (alice_local toy_crypto [5] [6])"
  have wf: "bob_wf toy_crypto toy_bob" by (simp add: bob_wf_def toy_bob_def bob_local_def from_private_bytes_def)
  have b: "bob_prekey_bundle toy_crypto toy_bob = Inr ?pb" by (simp add: bob_prekey_bundle_def toy_bob_def bob_local_def Let_def)
  have str: "is_str ''hello''" by code_simp
  have "?run = (fst ?run, snd ?run)" by simp
  from initial_message_run [OF toy_crypto_ok toy_sig_correct wf b str this] show ?thesis
    by (auto simp: toy_payload_def)
qed

theorem second_envelope_lost_witness:
  "\<exists>s' m'. fetch_loop toy_crypto toy_codec (\<lambda>_. LinkUp) 1 5 5 ''t'' [toy_offline ''m1'', toy_offline ''m2''] init_db toy_bob (mailbox_open 4)
      = (s', m', Inl (AppCrypto PreKeyUnavailable))
    \<and> \<not> message_exists ''m2'' s'
    \<and> (\<forall>later b'. receive_envelope toy_crypto toy_codec later ''t'' (toy_offline ''m2'') s' b' = (s', b', Inr ()))"
proof -
  have ids: "oe_message_id (toy_offline mid) = mid" for mid by (simp add: toy_offline_def)
  have none: "accepted_ids init_db = []" "\<not> message_exists mid init_db" for mid
    by (simp_all add: accepted_ids_def init_db_def message_exists_def count_where_def)
  obtain b' where "decrypt_initial_message toy_crypto toy_payload toy_bob = (b', Inr ''hello'')"
    using toy_payload_decrypts by blast
  from second_envelope_lost [OF toy_offline_decodes toy_offline_decodes this,
      of "''m1''" "''m2''" "\<lambda>_. LinkUp" 1 init_db, unfolded ids] show ?thesis
    by (simp add: none)
qed

lemma alice_deposit_open:
  assumes "crypto_ok K" "sig_correct K" "is_str p"
  obtains sa m where "run_alice_mailbox_deposit K C (\<lambda>_. False) LinkUp secret private eph now node_now p s (mailbox_open (Suc n))
    = (sa, m, Inr ())" "length (mb_rows m) = 1"
proof -
  obtain pb where pb: "bob_prekey_bundle K (bob_mailbox_demo K) = Inr pb"
    by (simp add: bob_prekey_bundle_def bob_mailbox_demo_def bob_local_def Let_def)
  let ?run = "encrypt_initial_message K eph pb p (alice_local K secret private)"
  have "?run = (fst ?run, snd ?run)" by simp
  from initial_message_run [OF assms(1,2) bob_mailbox_demo_wf pb assms(3) this]
  obtain im ses where im: "?run = (fst ?run, Inr im)" "al_session (fst ?run) = Some ses" by (auto simp: prod_eq_iff)
  have tx: "transaction (\<lambda>_. False) stmts s = (fold (\<lambda>f. f) stmts s, Inr ())" for stmts and s :: db
    by (simp add: transaction_def run_statements_ok)
  have empty: "mb_rows (expire node_now (mailbox_open (Suc n))) = []" by (simp add: expire_def mailbox_open_def update_where_def)
  have dep: "handle_mailbox_request node_now (MbDeposit e) (mailbox_open (Suc n)) = (m, r) \<Longrightarrow>
      length (mb_rows m) = 1 \<and> deposited r = Inr ()" for e m r
    by (auto simp: deposit_def Let_def pending_count_def count_where_def empty insert_or_ignore_def
        deposited_def expire_def mailbox_open_def update_where_def)
  let ?alice = "run_alice_mailbox_deposit K C (\<lambda>_. False) LinkUp secret private eph now node_now p s (mailbox_open (Suc n))"
  have "length (mb_rows (fst (snd ?alice))) = 1 \<and> snd (snd ?alice) = Inr ()"
    unfolding run_alice_mailbox_deposit_def mailbox_demo_prekey_bundle_def pb sum.case
    by (subst (1 2) im(1)) (simp add: Let_def im(2) save_state_session_message_and_outbox_def tx mailbox_request_call_def
        case_prod_unfold dep [OF prod.collapse [symmetric]] del: handle_mailbox_request.simps)
  then show ?thesis by (intro that [of "fst ?alice" "fst (snd ?alice)"]) (simp_all add: prod_eq_iff)
qed

theorem mailbox_offline_delivery_witness:
  "\<exists>m' row s'. fst (run_bob_mailbox_fetch toy_crypto toy_codec (\<lambda>_. LinkUp) 7 7 init_db m') = s' \<and> messages s' = [row]
    \<and> mw_message_id row = mbx_message_id (last (mb_rows m')) \<and> mw_plaintext row = Some ''hello''
    \<and> snd (snd (run_bob_mailbox_fetch toy_crypto toy_codec (\<lambda>_. LinkUp) 7 7 init_db m')) = Inr ()"
proof -
  have str: "is_str ''hello''" by code_simp
  obtain sa m where m: "run_alice_mailbox_deposit toy_crypto toy_codec (\<lambda>_. False) LinkUp [5] [6] [9] 5 5 ''hello'' init_db
      (mailbox_open (Suc 3)) = (sa, m, Inr ())" "length (mb_rows m) = 1"
    by (rule alice_deposit_open [OF toy_crypto_ok toy_sig_correct str])
  let ?bob = "run_bob_mailbox_fetch toy_crypto toy_codec (\<lambda>_. LinkUp) 7 7 init_db m"
  have len: "length (mb_rows m) = Suc (length (mb_rows (mailbox_open (Suc 3))))"
    using m(2) by (simp add: mailbox_open_def)
  have none: "snd (fetch_pending tok 7 (mailbox_open (Suc 3))) = []" for tok
    by (simp add: fetch_rows mailbox_open_def select_order_by_def)
  have time: "as_i64 7 < as_i64 (5 + MAILBOX_ENVELOPE_TTL_SECS)" by code_simp
  have fresh: "mid \<notin> set (accepted_ids init_db)" "\<not> message_exists mid init_db" "messages init_db = []" for mid
    by (simp_all add: accepted_ids_def init_db_def message_exists_def count_where_def)
  have bob: "?bob = (fst ?bob, fst (snd ?bob), snd (snd ?bob))" by simp
  from mailbox_offline_delivery [OF toy_crypto_ok toy_sig_correct toy_codec_ok str m(1) len refl refl none time refl fresh(1,2) bob]
  show ?thesis by (simp add: fresh(3)) blast
qed

end
