(* ===== verification/Text.thy ===== *)
theory Text
  imports Delivery
begin

text \<open>
  The text helpers of the command line client (\<^verbatim>\<open>src/src/main.rs\<close>): display names, invite codes,
  hexadecimal text, safety numbers, identifiers derived from hashes, and the lines of the chat list.
  A \<^verbatim>\<open>str\<close> is its UTF-8 byte sequence; \<open>utf8_chars\<close> is its \<^verbatim>\<open>chars()\<close> iterator.
\<close>

section \<open>Characters\<close>

definition cont_char :: "char \<Rightarrow> bool" where
  "cont_char c \<longleftrightarrow> cont_byte (byte_of_char c)"

function utf8_chars :: "string \<Rightarrow> string list" where
  "utf8_chars [] = []"
| "utf8_chars (c # cs) = (c # takeWhile cont_char cs) # utf8_chars (dropWhile cont_char cs)"
  by pat_completeness auto
termination by (relation "measure length") (auto simp: le_imp_less_Suc length_dropWhile_le)

text \<open>\<^verbatim>\<open>char::is_whitespace\<close>: the code points with the property White Space, in UTF-8.\<close>

definition is_whitespace :: "string \<Rightarrow> bool" where
  "is_whitespace c \<longleftrightarrow> map (of_char :: char \<Rightarrow> nat) c \<in>
     {[9], [10], [11], [12], [13], [32], [194, 133], [194, 160], [225, 154, 128],
      [226, 128, 128], [226, 128, 129], [226, 128, 130], [226, 128, 131], [226, 128, 132],
      [226, 128, 133], [226, 128, 134], [226, 128, 135], [226, 128, 136], [226, 128, 137],
      [226, 128, 138], [226, 128, 168], [226, 128, 169], [226, 128, 175], [226, 129, 159],
      [227, 128, 128]}"

definition trim_chars :: "string list \<Rightarrow> string list" where
  "trim_chars cs = rev (dropWhile is_whitespace (rev (dropWhile is_whitespace cs)))"

definition trim :: "string \<Rightarrow> string" where
  "trim s = concat (trim_chars (utf8_chars s))"

definition take_chars :: "nat \<Rightarrow> string \<Rightarrow> string" where
  "take_chars n s = concat (take n (utf8_chars s))"

section \<open>Display names\<close>

definition DISPLAY_NAME_MAX_CHARS :: nat where
  "DISPLAY_NAME_MAX_CHARS = 32"

definition validate_display_name :: "string \<Rightarrow> app_error + string" where
  "validate_display_name display_name0 =
     (let display_name = trim display_name0
      in if display_name = [] then Inl (AppMessage ''display name cannot be empty'')
         else if DISPLAY_NAME_MAX_CHARS < length (utf8_chars display_name)
         then Inl (AppMessage ''display name must be 32 characters or fewer'')
         else Inr display_name)"

definition normalize_optional_display_name :: "string \<Rightarrow> string" where
  "normalize_optional_display_name display_name0 =
     (let display_name = trim display_name0
      in if display_name = [] then ''Anonymous'' else take_chars DISPLAY_NAME_MAX_CHARS display_name)"

definition display_name_or_anonymous :: "string \<Rightarrow> string" where
  "display_name_or_anonymous display_name0 =
     (let display_name = trim display_name0
      in if display_name = [] then ''Anonymous'' else take_chars DISPLAY_NAME_MAX_CHARS display_name)"

definition update_local_display_name :: "string \<Rightarrow> u64 \<Rightarrow> db \<Rightarrow> db \<times> (app_error + string)" where
  "update_local_display_name display_name0 now s =
     (case validate_display_name display_name0 of
        Inl e \<Rightarrow> (s, Inl e)
      | Inr display_name \<Rightarrow> (save_display_name display_name now s, Inr display_name))"

definition load_local_profile :: "db \<Rightarrow> string" where
  "load_local_profile s =
     (case load_display_name s of Some name \<Rightarrow> display_name_or_anonymous name | None \<Rightarrow> ''Anonymous'')"

text \<open>\<open>typed\<close> is the line read from the terminal when the profile has no name yet.\<close>

definition load_or_prompt_display_name :: "string \<Rightarrow> u64 \<Rightarrow> db \<Rightarrow> db \<times> string" where
  "load_or_prompt_display_name typed now s =
     (if load_local_profile s \<noteq> ''Anonymous'' then (s, load_local_profile s)
      else let display_name = normalize_optional_display_name typed
           in (save_display_name display_name now s, display_name))"

section \<open>Selections and commands\<close>

definition is_back_selection :: "string \<Rightarrow> bool" where
  "is_back_selection selection \<longleftrightarrow>
     eq_ignore_ascii_case (trim selection) ''b'' \<or> eq_ignore_ascii_case (trim selection) ''back''"

definition is_quit_selection :: "string \<Rightarrow> bool" where
  "is_quit_selection selection \<longleftrightarrow>
     eq_ignore_ascii_case (trim selection) ''q'' \<or> eq_ignore_ascii_case (trim selection) ''quit''"

definition is_chat_back_command :: "string \<Rightarrow> bool" where
  "is_chat_back_command line \<longleftrightarrow>
     eq_ignore_ascii_case (trim line) ''/back'' \<or> eq_ignore_ascii_case (trim line) ''/exit''"

section \<open>Invite codes\<close>

definition INVITE_CODE_LEN :: nat where
  "INVITE_CODE_LEN = 6"

definition INVITE_CODE_ALPHABET :: string where
  "INVITE_CODE_ALPHABET = ''ABCDEFGHJKLMNPQRSTUVWXYZ23456789''"

text \<open>\<open>random\<close> are the bytes that \<^verbatim>\<open>fill_random\<close> wrote, or its failure.\<close>

definition generate_invite_code :: "bytes option \<Rightarrow> app_error + string" where
  "generate_invite_code random = (case random of
     None \<Rightarrow> Inl (AppMessage ''random source failed'')
   | Some bs \<Rightarrow> Inr (map (\<lambda>byte. INVITE_CODE_ALPHABET ! (unat byte mod length INVITE_CODE_ALPHABET)) bs))"

definition normalize_invite_code :: "string \<Rightarrow> app_error + string" where
  "normalize_invite_code code =
     (let normalized = concat (map (map to_ascii_uppercase)
            (filter (\<lambda>ch. \<not> is_whitespace ch \<and> ch \<noteq> ''-'') (utf8_chars code)))
      in if length normalized \<noteq> INVITE_CODE_LEN then Inl (AppMessage ''invite code must be 6 characters'')
         else if \<not> list_all (\<lambda>byte. byte \<in> set INVITE_CODE_ALPHABET) normalized
         then Inl (AppMessage ''invite code contains unsupported characters'')
         else Inr normalized)"

definition invite_code_hash :: "crypto \<Rightarrow> string \<Rightarrow> string" where
  "invite_code_hash K code =
     hex_encode (take 16 (cr_sha256 K (as_bytes (''ciphermesh.invite-code.v1'' @ map to_ascii_uppercase code))))"

section \<open>Hexadecimal text\<close>

definition hex_value :: "char \<Rightarrow> nat option" where
  "hex_value c = (let n = of_char c :: nat in
     if 48 \<le> n \<and> n \<le> 57 then Some (n - 48)
     else if 97 \<le> n \<and> n \<le> 102 then Some (n - 87)
     else if 65 \<le> n \<and> n \<le> 70 then Some (n - 55)
     else None)"

fun radix_16 :: "nat \<Rightarrow> string \<Rightarrow> nat option" where
  "radix_16 acc [] = Some acc"
| "radix_16 acc (c # cs) = (case hex_value c of
     None \<Rightarrow> None
   | Some d \<Rightarrow> if 255 < 16 * acc + d then None else radix_16 (16 * acc + d) cs)"

text \<open>\<^verbatim>\<open>u8::from_str_radix(text, 16)\<close>, which accepts a leading plus sign before a digit.\<close>

definition u8_from_str_radix_16 :: "string \<Rightarrow> u8 option" where
  "u8_from_str_radix_16 text =
     (if text = [] \<or> text = ''+'' \<or> text = ''-'' then None
      else map_option of_nat (radix_16 0 (if hd text = CHR ''+'' then tl text else text)))"

fun hex_chunks :: "string \<Rightarrow> (app_error + u8) list" where
  "hex_chunks (a # b # rest) =
     (case from_utf8 (as_bytes [a, b]) of
        None \<Rightarrow> Inl AppCodec
      | Some text \<Rightarrow> (case u8_from_str_radix_16 text of None \<Rightarrow> Inl AppCodec | Some v \<Rightarrow> Inr v)) # hex_chunks rest"
| "hex_chunks _ = []"

definition hex_decode :: "string \<Rightarrow> app_error + bytes" where
  "hex_decode v =
     (if odd (length v) then Inl (AppMessage ''hex value has odd length'') else collect_results (hex_chunks v))"

section \<open>Identifiers\<close>

text \<open>The comparison of byte arrays is lexicographic.\<close>

fun bytes_le :: "bytes \<Rightarrow> bytes \<Rightarrow> bool" where
  "bytes_le [] ys = True"
| "bytes_le (x # xs) [] = False"
| "bytes_le (x # xs) (y # ys) = (x < y \<or> x = y \<and> bytes_le xs ys)"

definition safety_number :: "crypto \<Rightarrow> bytes \<Rightarrow> bytes \<Rightarrow> string" where
  "safety_number K first_identity second_identity =
     (let (low, high) = (if bytes_le first_identity second_identity
            then (first_identity, second_identity) else (second_identity, first_identity))
      in hex_encode (take 20 (cr_sha256 K (as_bytes ''ciphermesh.safety-number.v1'' @ low @ high))))"

definition chat_message_id :: "crypto \<Rightarrow> string \<Rightarrow> message_direction \<Rightarrow> u64 option \<Rightarrow> bytes \<Rightarrow> string" where
  "chat_message_id K conversation_id direction protocol_counter ciphertext =
     hex_encode (take 16 (cr_sha256 K (as_bytes ''ciphermesh.local-history.v1'' @ as_bytes conversation_id
       @ (case direction of DirSent \<Rightarrow> as_bytes ''sent'' | DirReceived \<Rightarrow> as_bytes ''received'')
       @ (case protocol_counter of Some counter \<Rightarrow> to_be_bytes counter | None \<Rightarrow> []) @ ciphertext)))"

definition pending_peer_message_id :: "crypto \<Rightarrow> bytes \<Rightarrow> u64 \<Rightarrow> string \<Rightarrow> string \<Rightarrow> string" where
  "pending_peer_message_id K random now peer_id plaintext =
     hex_encode (take 16 (cr_sha256 K (as_bytes ''ciphermesh.pending-peer-message.v1'' @ as_bytes peer_id
       @ to_be_bytes now @ as_bytes plaintext @ random)))"

definition contact_id_for_identity :: "crypto \<Rightarrow> bytes \<Rightarrow> string" where
  "contact_id_for_identity K identity_public_key =
     ''contact-'' @ hex_encode (take 8 (cr_sha256 K identity_public_key))"

definition contact_id_for_display_name :: "crypto \<Rightarrow> string \<Rightarrow> string" where
  "contact_id_for_display_name K display_name =
     ''contact-'' @ hex_encode (take 8 (cr_sha256 K
       (as_bytes ''ciphermesh.display-contact.v1'' @ as_bytes (display_name_or_anonymous display_name))))"

section \<open>The chat list\<close>

fun show_nat :: "nat \<Rightarrow> string" where
  "show_nat n = (if n < 10 then [char_of (48 + n)] else show_nat (n div 10) @ [char_of (48 + n mod 10)])"

declare show_nat.simps [simp del]

definition relative_time :: "u64 \<Rightarrow> u64 \<Rightarrow> string" where
  "relative_time now timestamp =
     (if now \<le> timestamp then ''just now''
      else let age = unat (now - timestamp) in
        if age \<le> 59 then ''just now''
        else if age \<le> 119 then ''1 min ago''
        else if age \<le> 3599 then show_nat (age div 60) @ '' min ago''
        else if age \<le> 7199 then ''1 hour ago''
        else if age \<le> 86399 then show_nat (age div 3600) @ '' hours ago''
        else if age \<le> 172799 then ''yesterday''
        else show_nat (age div 86400) @ '' days ago'')"

definition is_local_message :: "message_record \<Rightarrow> bool" where
  "is_local_message message \<longleftrightarrow>
     mr_direction message = DirSent \<or> eq_ignore_ascii_case (trim (mr_sender_id message)) ''you''"

definition truncate_preview :: "string \<Rightarrow> nat \<Rightarrow> string" where
  "truncate_preview v max_chars =
     (if max_chars < length (utf8_chars v) then take_chars max_chars v @ ''...'' else take_chars max_chars v)"

definition MIDDLE_DOT :: string where
  "MIDDLE_DOT = [CHR 0xC2, CHR 0xB7]"

definition chat_preview_line :: "u64 \<Rightarrow> chat_summary \<Rightarrow> string" where
  "chat_preview_line now summary =
     (if 0 < cs_pending_count summary
      then ''Offline '' @ MIDDLE_DOT @ '' ''
        @ (if cs_pending_count summary = 1 then ''1 pending message''
           else show_nat (cs_pending_count summary) @ '' pending messages'')
      else case cs_last_message summary of
        None \<Rightarrow> ''Offline '' @ MIDDLE_DOT @ '' No messages''
      | Some message \<Rightarrow>
          (let plaintext0 = trim (case mr_plaintext message of Some p \<Rightarrow> p | None \<Rightarrow> ''[encrypted]'');
               plaintext1 = (if plaintext0 = [] then ''[empty message]'' else plaintext0);
               plaintext = (if is_local_message message then ''You: '' @ plaintext1 else plaintext1)
           in ''Offline '' @ MIDDLE_DOT @ '' last message: '' @ truncate_preview plaintext 48 @ '' '' @ MIDDLE_DOT @ '' ''
              @ relative_time now (mr_created_at message)))"

definition message_status_label :: "message_status \<Rightarrow> string" where
  "message_status_label status = (case status of
     StatusStored \<Rightarrow> ''queued for delivery'' | StatusSent \<Rightarrow> ''sent'' | StatusReceived \<Rightarrow> ''delivered'')"

definition remote_sender_label :: "string \<Rightarrow> string \<Rightarrow> string" where
  "remote_sender_label wire_sender_display_name saved_display_name =
     (if trim wire_sender_display_name = [] then saved_display_name else wire_sender_display_name)"

definition remote_message_sender_label :: "message_record \<Rightarrow> string \<Rightarrow> string" where
  "remote_message_sender_label message saved_display_name0 =
     (let saved_display_name = display_name_or_anonymous saved_display_name0;
          sender_id = trim (mr_sender_id message)
      in if sender_id = [] \<or> eq_ignore_ascii_case sender_id ''anonymous'' then saved_display_name
         else display_name_or_anonymous sender_id)"

section \<open>Laws of the character view\<close>

fun char_groups :: "string list \<Rightarrow> bool" where
  "char_groups [] = True"
| "char_groups (g # gs) = (g \<noteq> [] \<and> list_all cont_char (tl g)
     \<and> list_all (\<lambda>h. h \<noteq> [] \<and> \<not> cont_char (hd h)) gs \<and> char_groups gs)"

lemma char_groups_utf8_chars: "char_groups (utf8_chars s) \<and> list_all (\<lambda>h. h \<noteq> [] \<and> \<not> cont_char (hd h)) (tl (utf8_chars s))"
proof (induction s rule: utf8_chars.induct)
  case (2 c cs)
  have "list_all cont_char (takeWhile cont_char cs)" by (auto simp: list_all_iff dest: set_takeWhileD)
  moreover have "list_all (\<lambda>h. h \<noteq> [] \<and> \<not> cont_char (hd h)) (utf8_chars (dropWhile cont_char cs))"
  proof (cases "dropWhile cont_char cs")
    case (Cons d ds)
    then have "\<not> cont_char d" using hd_dropWhile [of cont_char cs] by simp
    then show ?thesis using conjunct2 [OF 2] unfolding Cons by simp
  next
    case Nil
    then show ?thesis by (simp only: Nil utf8_chars.simps list.pred_inject)
  qed
  ultimately show ?case using conjunct1 [OF 2] by simp
qed simp

lemma takeWhile_append_all:
  "list_all P xs \<Longrightarrow> takeWhile P (xs @ ys) = xs @ takeWhile P ys"
  "list_all P xs \<Longrightarrow> dropWhile P (xs @ ys) = dropWhile P ys"
  by (induction xs) simp_all

lemma while_stops: "xs = [] \<or> \<not> P (hd xs) \<Longrightarrow> takeWhile P xs = [] \<and> dropWhile P xs = xs"
  by (cases xs) simp_all

lemma utf8_chars_concat: "char_groups gs \<Longrightarrow> utf8_chars (concat gs) = gs"
proof (induction gs)
  case (Cons g gs)
  obtain c cs where g: "g = c # cs" "list_all cont_char cs" using Cons.prems by (cases g) simp_all
  have hd: "concat gs = [] \<or> \<not> cont_char (hd (concat gs))"
    using Cons.prems by (cases gs) simp_all
  have "takeWhile cont_char (concat gs) = []" "dropWhile cont_char (concat gs) = concat gs"
    using while_stops [of "concat gs" cont_char] hd by auto
  then have "takeWhile cont_char (cs @ concat gs) = cs" "dropWhile cont_char (cs @ concat gs) = concat gs"
    using takeWhile_append_all [OF g(2)] by simp_all
  moreover have "utf8_chars (concat gs) = gs" using Cons by simp
  ultimately show ?case by (simp add: g(1))
qed simp

lemma concat_utf8_chars [simp]: "concat (utf8_chars s) = s"
  by (induction s rule: utf8_chars.induct) simp_all

lemma utf8_chars_eq_Nil [simp]: "utf8_chars s = [] \<longleftrightarrow> s = []"
  by (cases s) simp_all

lemma char_groups_append: "char_groups (xs @ ys) \<Longrightarrow> char_groups xs \<and> char_groups ys"
  by (induction xs) auto

lemma char_groups_take: "char_groups gs \<Longrightarrow> char_groups (take n gs)"
  by (metis append_take_drop_id char_groups_append)

lemma trim_chars_segment: "\<exists>xs ys. cs = xs @ trim_chars cs @ ys"
proof -
  let ?m = "dropWhile is_whitespace cs"
  have "cs = takeWhile is_whitespace cs @ ?m" by simp
  moreover have "?m = trim_chars cs @ rev (takeWhile is_whitespace (rev ?m))"
    unfolding trim_chars_def by (metis rev_append rev_rev_ident takeWhile_dropWhile_id)
  ultimately show ?thesis by metis
qed

lemma utf8_chars_trim: "utf8_chars (trim s) = trim_chars (utf8_chars s)"
proof -
  obtain xs ys where "utf8_chars s = xs @ trim_chars (utf8_chars s) @ ys" using trim_chars_segment by blast
  then have "char_groups (trim_chars (utf8_chars s))"
    using char_groups_utf8_chars [of s] char_groups_append by metis
  then show ?thesis by (simp add: trim_def utf8_chars_concat)
qed

lemma utf8_chars_take: "utf8_chars (take_chars n s) = take n (utf8_chars s)"
  using char_groups_utf8_chars [of s] by (simp add: take_chars_def utf8_chars_concat char_groups_take)

lemma trim_chars_twice: "trim_chars (trim_chars cs) = trim_chars cs"
proof -
  let ?t = "trim_chars cs"
  have last: "?t = [] \<or> \<not> is_whitespace (last ?t)"
    unfolding trim_chars_def by (metis hd_dropWhile last_rev rev.simps(1))
  have hd: "?t = [] \<or> \<not> is_whitespace (hd ?t)"
  proof (cases "?t = []")
    case False
    obtain ys where "dropWhile is_whitespace cs = ?t @ ys"
      unfolding trim_chars_def by (metis rev_append rev_rev_ident takeWhile_dropWhile_id)
    with False have "hd ?t = hd (dropWhile is_whitespace cs)" "dropWhile is_whitespace cs \<noteq> []" by auto
    then show ?thesis using hd_dropWhile by metis
  qed simp
  have "dropWhile is_whitespace ?t = ?t" using hd by (cases ?t) auto
  moreover have "dropWhile is_whitespace (rev ?t) = rev ?t" using last by (simp add: dropWhile_eq_self_iff hd_rev)
  ultimately show ?thesis by (subst trim_chars_def) simp
qed

lemma trim_twice [simp]: "trim (trim s) = trim s"
  by (simp add: trim_def [of "trim s"] utf8_chars_trim trim_chars_twice) (simp add: trim_def)

text \<open>
  A display name that passes the validation is not empty, has at most 32 characters, validates
  to itself, is shown unchanged wherever names are shown, and is what the profile loads after the
  update.
\<close>

theorem validated_name_stable:
  assumes "update_local_display_name typed now s = (s', Inr name)"
  shows "name \<noteq> [] \<and> length (utf8_chars name) \<le> 32 \<and> validate_display_name name = Inr name
    \<and> display_name_or_anonymous name = name \<and> load_local_profile s' = name"
proof -
  have v: "name = trim typed" "name \<noteq> []" "length (utf8_chars name) \<le> 32" "s' = save_display_name name now s"
    using assms by (auto simp: update_local_display_name_def validate_display_name_def Let_def DISPLAY_NAME_MAX_CHARS_def
        split: if_splits)
  have t: "trim name = name" using v(1) by simp
  have d: "display_name_or_anonymous name = name"
    using v(2,3) by (simp add: display_name_or_anonymous_def t take_chars_def DISPLAY_NAME_MAX_CHARS_def)
  have "load_display_name s' = Some name"
    unfolding v(4) load_display_name_def save_display_name_def by (simp add: select_one_upsert split: option.splits)
  then show ?thesis using v(2,3) t d
    by (simp add: validate_display_name_def DISPLAY_NAME_MAX_CHARS_def load_local_profile_def)
qed

theorem validated_name_stable_witness:
  "load_local_profile (fst (update_local_display_name '' Ada '' 5 init_db)) = ''Ada''"
proof -
  have "update_local_display_name '' Ada '' 5 init_db = (save_display_name ''Ada'' 5 init_db, Inr ''Ada'')"
    by (simp add: update_local_display_name_def) code_simp
  from validated_name_stable [OF this] this show ?thesis by simp
qed

section \<open>Invite codes as they are typed\<close>

lemma utf8_chars_ascii: "\<forall>c \<in> set s. \<not> cont_char c \<Longrightarrow> utf8_chars s = map (\<lambda>c. [c]) s"
proof (induction s)
  case (Cons c s)
  have "s = [] \<or> \<not> cont_char (hd s)" using Cons.prems by (cases s) simp_all
  then show ?case using Cons while_stops [of s cont_char] by simp
qed simp

definition separator :: "char \<Rightarrow> bool" where
  "separator c \<longleftrightarrow> c = CHR '' '' \<or> c = CHR ''-''"

definition code_char :: "char \<Rightarrow> bool" where
  "code_char c \<longleftrightarrow> to_ascii_uppercase c \<in> set INVITE_CODE_ALPHABET"

lemma is_whitespace_single: "is_whitespace [c] \<longleftrightarrow> (of_char c :: nat) \<in> {9, 10, 11, 12, 13, 32}"
  by (simp add: is_whitespace_def)

lemma cont_char_nat: "cont_char c \<longleftrightarrow> 128 \<le> (of_char c :: nat) \<and> (of_char c :: nat) \<le> 191"
proof -
  have "unat (of_nat (of_char c) :: u8) = of_char c"
    using nat_of_char_less_256 [of c] by (simp add: unat_of_nat del: of_nat_of_char)
  then have "unat (byte_of_char c) = of_char c" by (simp only: of_nat_of_char byte_of_char_def)
  then show ?thesis by (simp add: cont_char_def cont_byte_def word_le_nat_alt)
qed

lemma alphabet_range:
  "c \<in> set INVITE_CODE_ALPHABET \<Longrightarrow> 50 \<le> (of_char c :: nat) \<and> (of_char c :: nat) \<le> 90"
  by (auto simp: INVITE_CODE_ALPHABET_def)

lemma code_char_ascii:
  assumes "code_char c"
  shows "\<not> cont_char c \<and> \<not> is_whitespace [c] \<and> c \<noteq> CHR ''-''"
proof -
  have "50 \<le> (of_char c :: nat) \<and> (of_char c :: nat) \<le> 122"
    using assms alphabet_range [of "to_ascii_uppercase c"]
    by (auto simp: code_char_def to_ascii_uppercase_def Let_def split: if_splits)
  then show ?thesis by (auto simp: cont_char_nat is_whitespace_single)
qed

lemma separator_dropped: "separator c \<Longrightarrow> \<not> cont_char c \<and> (is_whitespace [c] \<or> c = CHR ''-'')"
  by (auto simp: separator_def is_whitespace_def cont_char_def cont_byte_def byte_of_char_def)

lemma generated_code:
  assumes "generate_invite_code (Some bs) = Inr code"
  shows "length code = length bs" "set code \<subseteq> set INVITE_CODE_ALPHABET"
proof -
  have "0 < length INVITE_CODE_ALPHABET" by (simp add: INVITE_CODE_ALPHABET_def)
  then show "length code = length bs" "set code \<subseteq> set INVITE_CODE_ALPHABET"
    using assms by (auto simp: generate_invite_code_def)
qed

lemma uppercase_alphabet: "c \<in> set INVITE_CODE_ALPHABET \<Longrightarrow> to_ascii_uppercase c = c"
  by (auto simp: INVITE_CODE_ALPHABET_def to_ascii_uppercase_def)

text \<open>
  The code that one side generated and displayed is recognised however the other side types
  it: in upper or lower case, with spaces and hyphens before, between and after its characters.
  It normalises to the generated code, so both sides compute the same code hash.
\<close>

theorem typed_code_recognised:
  assumes "generate_invite_code (Some bs) = Inr code" "length bs = INVITE_CODE_LEN"
    and "map to_ascii_uppercase (filter (\<lambda>c. \<not> separator c) typed) = code"
  shows "normalize_invite_code typed = Inr code \<and> invite_code_hash K code = invite_code_hash K (filter (\<lambda>c. \<not> separator c) typed)"
proof -
  have alpha: "set code \<subseteq> set INVITE_CODE_ALPHABET" and len: "length code = INVITE_CODE_LEN"
    using generated_code [OF assms(1)] assms(2) by simp_all
  have code: "code_char c" if "c \<in> set typed" "\<not> separator c" for c
    using that alpha assms(3) by (auto simp: code_char_def)
  have ascii: "\<forall>c \<in> set typed. \<not> cont_char c" using code code_char_ascii separator_dropped by blast
  have keep: "(\<not> is_whitespace [c] \<and> [c] \<noteq> ''-'') = (\<not> separator c)" if "c \<in> set typed" for c
    using that code code_char_ascii [of c] separator_dropped [of c] by auto
  have "filter (\<lambda>ch. \<not> is_whitespace ch \<and> ch \<noteq> ''-'') (utf8_chars typed) = map (\<lambda>c. [c]) (filter (\<lambda>c. \<not> separator c) typed)"
    unfolding utf8_chars_ascii [OF ascii] filter_map comp_def using keep by (simp cong: filter_cong)
  then have "concat (map (map to_ascii_uppercase) (filter (\<lambda>ch. \<not> is_whitespace ch \<and> ch \<noteq> ''-'') (utf8_chars typed))) = code"
    by (simp add: comp_def concat_map_singleton assms(3))
  then have "normalize_invite_code typed = Inr code"
    using len alpha by (auto simp: normalize_invite_code_def Let_def list_all_iff)
  moreover have "map to_ascii_uppercase code = code" using alpha uppercase_alphabet by (simp add: map_idI subset_iff)
  ultimately show ?thesis using assms(3) by (simp add: invite_code_hash_def)
qed

theorem typed_code_recognised_witness:
  "normalize_invite_code '' abc-def '' = Inr ''ABCDEF''"
proof -
  have "generate_invite_code (Some [0, 1, 2, 3, 4, 5]) = Inr ''ABCDEF''" by code_simp
  moreover have "map to_ascii_uppercase (filter (\<lambda>c. \<not> separator c) '' abc-def '') = ''ABCDEF''" by code_simp
  moreover have "length [0, 1, 2, 3, 4, 5 :: u8] = INVITE_CODE_LEN" by (simp add: INVITE_CODE_LEN_def)
  ultimately show ?thesis using typed_code_recognised [of "[0, 1, 2, 3, 4, 5]" "''ABCDEF''" "'' abc-def ''"] by simp
qed

section \<open>Hexadecimal round trip and safety numbers\<close>

lemma hex_value_digit: "n < 16 \<Longrightarrow> hex_value (hex_digit n) = Some n"
  by (simp add: hex_value_def hex_digit_def Let_def)

lemma hex_digit_ascii: "n < 16 \<Longrightarrow> byte_of_char (hex_digit n) \<le> 127 \<and> hex_digit n \<noteq> CHR ''+''"
proof -
  have "\<forall>n \<in> set [0..<16]. byte_of_char (hex_digit n) \<le> 127 \<and> hex_digit n \<noteq> CHR ''+''" by code_simp
  then show "n < 16 \<Longrightarrow> byte_of_char (hex_digit n) \<le> 127 \<and> hex_digit n \<noteq> CHR ''+''" by simp
qed

lemma hex_chunk_byte:
  "from_utf8 (as_bytes (hex_byte b)) = Some (hex_byte b)" "u8_from_str_radix_16 (hex_byte b) = Some b"
proof -
  have "unat b < 2 ^ LENGTH(8)" by (rule unsigned_less)
  then have lt: "unat b < 256" by simp
  have n: "unat b div 16 < 16" "unat b mod 16 < 16" using lt by (simp_all add: less_mult_imp_div_less)
  have "is_str (hex_byte b)"
    using hex_digit_ascii [OF n(1)] hex_digit_ascii [OF n(2)] by (simp add: is_str_def as_bytes_def hex_byte_def)
  then show "from_utf8 (as_bytes (hex_byte b)) = Some (hex_byte b)" by (rule from_utf8_as_bytes)
  have "16 * (unat b div 16) + unat b mod 16 = unat b" by simp
  moreover have "unat b \<le> 255" using lt by simp
  ultimately show "u8_from_str_radix_16 (hex_byte b) = Some b"
    using hex_digit_ascii [OF n(1)] n
    by (simp add: u8_from_str_radix_16_def hex_byte_def hex_value_digit)
qed

text \<open>
  Decoding the hexadecimal text of any bytes gives the bytes back.
\<close>

theorem hex_round_trip: "hex_decode (hex_encode bs) = Inr bs"
proof -
  have "hex_chunks (hex_encode bs) = map Inr bs"
  proof (induction bs)
    case (Cons b bs)
    have "hex_encode (b # bs) = hex_digit (unat b div 16) # hex_digit (unat b mod 16) # hex_encode bs"
      by (simp add: hex_encode_def hex_byte_def)
    then show ?case using Cons hex_chunk_byte [of b] by (simp add: hex_byte_def)
  qed (simp add: hex_encode_def)
  moreover have "even (length (hex_encode bs))" by (induction bs) (simp_all add: hex_encode_def hex_byte_def)
  moreover have "collect_results (map Inr bs) = Inr bs" by (induction bs) simp_all
  ultimately show ?thesis by (simp add: hex_decode_def)
qed

lemma bytes_le_antisym: "bytes_le a b \<Longrightarrow> bytes_le b a \<Longrightarrow> a = b"
  by (induction a b rule: bytes_le.induct) (auto elim: bytes_le.elims)

lemma bytes_le_total: "bytes_le a b \<or> bytes_le b a"
  by (induction a b rule: bytes_le.induct) auto

text \<open>
  Both parties of a conversation compute the same safety number, whichever of the two
  identity keys is their own.
\<close>

theorem safety_number_symmetric: "safety_number K a b = safety_number K b a"
  using bytes_le_antisym [of a b] bytes_le_total [of a b] by (auto simp: safety_number_def)

end
