(* ===== verification/Addresses.thy ===== *)
theory Addresses
  imports Text
begin

text \<open>
  Network addresses: which IP addresses the program dials or advertises, and the functions that
  take multiaddresses apart (\<^verbatim>\<open>src/src/main.rs\<close>, \<^verbatim>\<open>src/src/pairing.rs\<close>).  A \<^verbatim>\<open>Multiaddr\<close> is the
  list of its protocol components; a \<^verbatim>\<open>PeerId\<close> is its text form.
\<close>

section \<open>IP addresses\<close>

type_synonym u16 = "16 word"
type_synonym peer_id = string

datatype ipv4 = Ipv4 u8 u8 u8 u8

type_synonym ipv6 = "128 word"

datatype ip_addr = IpV4 ipv4 | IpV6 ipv6

fun v4_unspecified :: "ipv4 \<Rightarrow> bool" where
  "v4_unspecified (Ipv4 a b c d) \<longleftrightarrow> a = 0 \<and> b = 0 \<and> c = 0 \<and> d = 0"

fun v4_loopback :: "ipv4 \<Rightarrow> bool" where
  "v4_loopback (Ipv4 a b c d) \<longleftrightarrow> a = 127"

fun v4_private :: "ipv4 \<Rightarrow> bool" where
  "v4_private (Ipv4 a b c d) \<longleftrightarrow> a = 10 \<or> a = 172 \<and> 16 \<le> b \<and> b \<le> 31 \<or> a = 192 \<and> b = 168"

fun v4_link_local :: "ipv4 \<Rightarrow> bool" where
  "v4_link_local (Ipv4 a b c d) \<longleftrightarrow> a = 169 \<and> b = 254"

fun v4_multicast :: "ipv4 \<Rightarrow> bool" where
  "v4_multicast (Ipv4 a b c d) \<longleftrightarrow> 224 \<le> a \<and> a \<le> 239"

fun v4_broadcast :: "ipv4 \<Rightarrow> bool" where
  "v4_broadcast (Ipv4 a b c d) \<longleftrightarrow> a = 255 \<and> b = 255 \<and> c = 255 \<and> d = 255"

fun v4_documentation :: "ipv4 \<Rightarrow> bool" where
  "v4_documentation (Ipv4 a b c d) \<longleftrightarrow>
     a = 192 \<and> b = 0 \<and> c = 2 \<or> a = 198 \<and> b = 51 \<and> c = 100 \<or> a = 203 \<and> b = 0 \<and> c = 113"

definition v6_segment0 :: "ipv6 \<Rightarrow> u16" where
  "v6_segment0 ip = ucast (drop_bit 112 ip)"

definition v6_unique_local :: "ipv6 \<Rightarrow> bool" where
  "v6_unique_local ip \<longleftrightarrow> and (v6_segment0 ip) 0xfe00 = 0xfc00"

definition v6_unicast_link_local :: "ipv6 \<Rightarrow> bool" where
  "v6_unicast_link_local ip \<longleftrightarrow> and (v6_segment0 ip) 0xffc0 = 0xfe80"

definition v6_multicast :: "ipv6 \<Rightarrow> bool" where
  "v6_multicast ip \<longleftrightarrow> and (v6_segment0 ip) 0xff00 = 0xff00"

fun is_usable_remote_ip :: "ip_addr \<Rightarrow> bool" where
  "is_usable_remote_ip (IpV4 ip) \<longleftrightarrow> \<not> v4_unspecified ip \<and> \<not> v4_loopback ip"
| "is_usable_remote_ip (IpV6 ip) \<longleftrightarrow> ip \<noteq> 0 \<and> ip \<noteq> 1"

fun is_dialable_peer_ip :: "ip_addr \<Rightarrow> bool" where
  "is_dialable_peer_ip (IpV4 ip) \<longleftrightarrow> \<not> v4_unspecified ip \<and> \<not> v4_loopback ip \<and> \<not> v4_link_local ip
     \<and> \<not> v4_multicast ip \<and> \<not> v4_broadcast ip \<and> \<not> v4_documentation ip"
| "is_dialable_peer_ip (IpV6 ip) \<longleftrightarrow> ip \<noteq> 0 \<and> ip \<noteq> 1 \<and> \<not> v6_unicast_link_local ip \<and> \<not> v6_multicast ip"

section \<open>Multiaddresses\<close>

datatype protocol = Ip4 ipv4 | Ip6 ipv6 | Tcp u16 | Udp u16 | P2p peer_id | P2pCircuit
  | Dns string | Dns4 string | Dns6 string | OtherProtocol string

type_synonym multiaddr = "protocol list"

definition strip_p2p :: "multiaddr \<Rightarrow> multiaddr \<times> peer_id option" where
  "strip_p2p addr = fold (\<lambda>p (stripped, peer).
     (case p of P2p v \<Rightarrow> (stripped, Some v) | _ \<Rightarrow> (stripped @ [p], peer))) addr ([], None)"

definition relay_dial_addresses :: "multiaddr list \<Rightarrow> peer_id \<Rightarrow> multiaddr list" where
  "relay_dial_addresses relay_peers target =
     map (\<lambda>addr. addr @ [P2pCircuit, P2p target]) (filter (\<lambda>addr. snd (strip_p2p addr) \<noteq> None) relay_peers)"

definition peer_id_from_multiaddr :: "multiaddr \<Rightarrow> app_error + peer_id" where
  "peer_id_from_multiaddr addr =
     ok_or (snd (strip_p2p addr)) (AppMessage ''mailbox multiaddr must include /p2p/<peer-id>'')"

definition peer_id_from_service_addr :: "multiaddr \<Rightarrow> app_error + peer_id" where
  "peer_id_from_service_addr addr =
     ok_or (snd (strip_p2p addr)) (AppMessage ''CipherMesh pairing service configuration is incomplete.'')"

definition socket_to_app_multiaddr :: "ip_addr \<Rightarrow> u16 \<Rightarrow> multiaddr" where
  "socket_to_app_multiaddr ip port = [case ip of IpV4 a \<Rightarrow> Ip4 a | IpV6 a \<Rightarrow> Ip6 a, Udp port]"

definition socket_from_app_multiaddr :: "multiaddr \<Rightarrow> ip_addr option \<Rightarrow> app_error + ip_addr \<times> u16" where
  "socket_from_app_multiaddr addr fallback_ip =
     (let (ip, port) = fold (\<lambda>p (ip, port). (case p of
            Ip4 v \<Rightarrow> (Some (IpV4 v), port) | Ip6 v \<Rightarrow> (Some (IpV6 v), port)
          | Udp v \<Rightarrow> (ip, Some v) | _ \<Rightarrow> (ip, port))) addr (None, None)
      in and_then (ok_or ip (AppMessage ''app multiaddr is missing an IP address'')) (\<lambda>ip0.
         and_then (if is_usable_remote_ip ip0 then Inr ip0
                   else ok_or fallback_ip (AppMessage
                     ''discovered app address was not reachable and no peer LAN IP was known'')) (\<lambda>ip1.
         and_then (ok_or port (AppMessage ''app multiaddr is missing a UDP port'')) (\<lambda>port1. Inr (ip1, port1)))))"

definition multiaddr_ip :: "multiaddr \<Rightarrow> ip_addr option" where
  "multiaddr_ip addr = find is_usable_remote_ip
     (List.map_filter (\<lambda>p. case p of Ip4 ip \<Rightarrow> Some (IpV4 ip) | Ip6 ip \<Rightarrow> Some (IpV6 ip) | _ \<Rightarrow> None) addr)"

text \<open>\<open>addresses\<close> lists the \<^verbatim>\<open>BTreeSet\<close> in its order.\<close>

definition best_discovered_ip :: "multiaddr list \<Rightarrow> ip_addr option" where
  "best_discovered_ip addresses =
     (let ips = List.map_filter multiaddr_ip addresses
      in case find (\<lambda>ip. case ip of IpV4 _ \<Rightarrow> True | IpV6 _ \<Rightarrow> False) ips of
           Some ip \<Rightarrow> Some ip | None \<Rightarrow> (case ips of [] \<Rightarrow> None | ip # _ \<Rightarrow> Some ip))"

text \<open>\<open>lan\<close> is the result of \<^verbatim>\<open>lan_ip_candidate\<close>, which asks the operating system.\<close>

definition advertise_socket_addr :: "ip_addr option \<Rightarrow> ip_addr \<times> u16 \<Rightarrow> app_error + ip_addr \<times> u16" where
  "advertise_socket_addr lan listen_addr =
     (if is_usable_remote_ip (fst listen_addr) then Inr listen_addr
      else and_then (ok_or lan (AppMessage ''cannot advertise; bind to a LAN address'')) (\<lambda>ip. Inr (ip, snd listen_addr)))"

fun service_protocol_public :: "protocol \<Rightarrow> bool" where
  "service_protocol_public (Ip4 ip) \<longleftrightarrow> \<not> v4_unspecified ip \<and> \<not> v4_loopback ip \<and> \<not> v4_private ip
     \<and> \<not> v4_link_local ip \<and> \<not> v4_multicast ip \<and> \<not> v4_documentation ip"
| "service_protocol_public (Ip6 ip) \<longleftrightarrow> ip \<noteq> 0 \<and> ip \<noteq> 1 \<and> \<not> v6_unique_local ip
     \<and> \<not> v6_unicast_link_local ip \<and> \<not> v6_multicast ip"
| "service_protocol_public (Dns _) = True"
| "service_protocol_public (Dns4 _) = True"
| "service_protocol_public (Dns6 _) = True"
| "service_protocol_public _ = False"

definition service_address_is_public :: "multiaddr \<Rightarrow> bool" where
  "service_address_is_public addr = list_ex service_protocol_public addr"

text \<open>\<open>parsed\<close> is the configured text as the multiaddr parser reads it.\<close>

definition configured_service_addr :: "multiaddr option \<Rightarrow> app_error + multiaddr" where
  "configured_service_addr parsed =
     and_then (ok_or parsed (AppMessage ''CipherMesh pairing service configuration is invalid'')) (\<lambda>addr.
     and_then (peer_id_from_service_addr addr) (\<lambda>_.
       if service_address_is_public addr then Inr addr
       else Inl (AppMessage ''CipherMesh pairing service must use a publicly reachable address.'')))"

fun listener_components ::
    "ip_addr option \<Rightarrow> multiaddr \<Rightarrow> multiaddr \<times> bool \<times> bool \<Rightarrow> (multiaddr \<times> bool \<times> bool) option" where
  "listener_components lan [] acc = Some acc"
| "listener_components lan (p # ps) (res, has_ip, has_tcp) = (case p of
     Ip4 ip \<Rightarrow>
       if v4_unspecified ip then
         (case lan of Some (IpV4 l) \<Rightarrow> listener_components lan ps (res @ [Ip4 l], True, has_tcp) | _ \<Rightarrow> None)
       else if is_usable_remote_ip (IpV4 ip) then listener_components lan ps (res @ [Ip4 ip], True, has_tcp)
       else listener_components lan ps (res, has_ip, has_tcp)
   | Ip6 ip \<Rightarrow>
       if ip = 0 then None
       else if is_usable_remote_ip (IpV6 ip) then listener_components lan ps (res @ [Ip6 ip], True, has_tcp)
       else listener_components lan ps (res, has_ip, has_tcp)
   | Tcp port \<Rightarrow> listener_components lan ps (res @ [Tcp port], has_ip, True)
   | _ \<Rightarrow> listener_components lan ps (res, has_ip, has_tcp))"

definition direct_address_from_listener :: "ip_addr option \<Rightarrow> multiaddr \<Rightarrow> multiaddr option" where
  "direct_address_from_listener lan addr = (case listener_components lan addr ([], False, False) of
     None \<Rightarrow> None
   | Some (res, has_ip, has_tcp) \<Rightarrow> if has_ip \<and> has_tcp then Some res else None)"

definition direct_component :: "protocol \<Rightarrow> bool" where
  "direct_component p = (case p of
     Ip4 ip \<Rightarrow> is_dialable_peer_ip (IpV4 ip) | Ip6 ip \<Rightarrow> is_dialable_peer_ip (IpV6 ip)
   | Tcp _ \<Rightarrow> True | _ \<Rightarrow> False)"

definition sanitize_direct_address :: "multiaddr \<Rightarrow> multiaddr option" where
  "sanitize_direct_address addr =
     (if P2pCircuit \<in> set addr then None
      else let (has_usable_ip, has_transport, sanitized) = fold (\<lambda>p (has_ip, has_tcp, acc). (case p of
             Ip4 ip \<Rightarrow> if is_dialable_peer_ip (IpV4 ip) then (True, has_tcp, acc @ [p]) else (has_ip, has_tcp, acc)
           | Ip6 ip \<Rightarrow> if is_dialable_peer_ip (IpV6 ip) then (True, has_tcp, acc @ [p]) else (has_ip, has_tcp, acc)
           | Tcp _ \<Rightarrow> (has_ip, True, acc @ [p])
           | _ \<Rightarrow> (has_ip, has_tcp, acc))) addr (False, False, [])
        in if has_usable_ip \<and> has_transport then Some sanitized else None)"

text \<open>\<^verbatim>\<open>Multiaddr\<close> as text: parser and printer of the multiaddr crate.\<close>

record addr_text =
  at_parse :: "string \<Rightarrow> multiaddr option"
  at_show :: "multiaddr \<Rightarrow> string"

definition addr_text_ok :: "addr_text \<Rightarrow> bool" where
  "addr_text_ok A \<longleftrightarrow> (\<forall>a. at_parse A (at_show A a) = Some a)"

definition sanitize_direct_address_text :: "addr_text \<Rightarrow> string \<Rightarrow> string option" where
  "sanitize_direct_address_text A address =
     (case at_parse A address of None \<Rightarrow> None
      | Some parsed \<Rightarrow> map_option (at_show A) (sanitize_direct_address parsed))"

section \<open>What sanitising leaves\<close>

definition is_tcp :: "protocol \<Rightarrow> bool" where
  "is_tcp p = (case p of Tcp _ \<Rightarrow> True | _ \<Rightarrow> False)"

lemma sanitize_fold:
  "fold (\<lambda>p (has_ip, has_tcp, acc). (case p of
       Ip4 ip \<Rightarrow> if is_dialable_peer_ip (IpV4 ip) then (True, has_tcp, acc @ [p]) else (has_ip, has_tcp, acc)
     | Ip6 ip \<Rightarrow> if is_dialable_peer_ip (IpV6 ip) then (True, has_tcp, acc @ [p]) else (has_ip, has_tcp, acc)
     | Tcp _ \<Rightarrow> (has_ip, True, acc @ [p])
     | _ \<Rightarrow> (has_ip, has_tcp, acc))) addr (i, t, acc)
   = (i \<or> list_ex (\<lambda>p. direct_component p \<and> \<not> is_tcp p) addr, t \<or> list_ex is_tcp addr, acc @ filter direct_component addr)"
  by (induction addr arbitrary: i t acc) (auto simp: direct_component_def is_tcp_def split: protocol.splits)

lemma sanitize_alt:
  "sanitize_direct_address addr =
     (if P2pCircuit \<notin> set addr \<and> list_ex (\<lambda>p. direct_component p \<and> \<not> is_tcp p) addr \<and> list_ex is_tcp addr
      then Some (filter direct_component addr) else None)"
  unfolding sanitize_direct_address_def sanitize_fold by simp

lemma sanitized_parts:
  assumes "sanitize_direct_address a0 = Some a"
  shows "list_all direct_component a" "P2pCircuit \<notin> set a" "list_ex is_tcp a"
    "list_ex (\<lambda>p. direct_component p \<and> \<not> is_tcp p) a" "sanitize_direct_address a = Some a"
proof -
  have tcp: "is_tcp x \<Longrightarrow> direct_component x" for x
    by (cases x) (simp_all add: is_tcp_def direct_component_def)
  have f: "a = filter direct_component a0" "P2pCircuit \<notin> set a0"
    "list_ex (\<lambda>p. direct_component p \<and> \<not> is_tcp p) a0" "list_ex is_tcp a0"
    using assms by (auto simp: sanitize_alt split: if_splits)
  then show all: "list_all direct_component a" "P2pCircuit \<notin> set a" by (auto simp: list_all_iff)
  show ex: "list_ex is_tcp a" "list_ex (\<lambda>p. direct_component p \<and> \<not> is_tcp p) a"
    using f tcp by (auto simp: list_ex_iff)
  have "filter direct_component a = a" using all(1) by (simp add: list_all_iff)
  then show "sanitize_direct_address a = Some a" using all ex by (simp add: sanitize_alt)
qed

lemma sanitize_text_parts:
  assumes "addr_text_ok A" "sanitize_direct_address_text A text1 = Some text2"
  obtains a0 a where "sanitize_direct_address a0 = Some a" "at_parse A text2 = Some a" "text2 = at_show A a"
  using assms by (auto simp: sanitize_direct_address_text_def addr_text_ok_def split: option.splits)

lemma sanitize_text_twice:
  assumes "addr_text_ok A" "sanitize_direct_address_text A text1 = Some text2"
  shows "sanitize_direct_address_text A text2 = Some text2"
  by (rule sanitize_text_parts [OF assms]) (simp add: sanitize_direct_address_text_def sanitized_parts(5))

text \<open>
  An address that survives sanitising consists of TCP ports and dialable IP addresses only, at
  least one of each: it names no peer and no relay, and neither the local host nor a link-local,
  multicast or broadcast address.  Sanitising it again, as the receiver of the text does, changes
  nothing.
\<close>

theorem sanitized_address_dialable:
  assumes "addr_text_ok A" "sanitize_direct_address_text A text1 = Some text2"
  shows "\<exists>a. at_parse A text2 = Some a \<and> list_all direct_component a \<and> list_ex is_tcp a
    \<and> list_ex (\<lambda>p. direct_component p \<and> \<not> is_tcp p) a \<and> P2pCircuit \<notin> set a
    \<and> sanitize_direct_address_text A text2 = Some text2"
proof -
  obtain a0 a where a: "sanitize_direct_address a0 = Some a" "at_parse A text2 = Some a"
    by (rule sanitize_text_parts [OF assms])
  then show ?thesis using sanitized_parts [OF a(1)] sanitize_text_twice [OF assms] by blast
qed

section \<open>A concrete text form\<close>

fun enc_protocol :: "protocol \<Rightarrow> bytes" where
  "enc_protocol (Ip4 (Ipv4 a b c d)) = [0, a, b, c, d]"
| "enc_protocol (Ip6 ip) = 1 # replicate (unat ip) 0"
| "enc_protocol (Tcp port) = 2 # replicate (unat port) 0"
| "enc_protocol (Udp port) = 3 # replicate (unat port) 0"
| "enc_protocol (P2p s) = 4 # as_bytes s"
| "enc_protocol P2pCircuit = [5]"
| "enc_protocol (Dns s) = 6 # as_bytes s"
| "enc_protocol (Dns4 s) = 7 # as_bytes s"
| "enc_protocol (Dns6 s) = 8 # as_bytes s"
| "enc_protocol (OtherProtocol s) = 9 # as_bytes s"

definition dec_protocol :: "bytes \<Rightarrow> protocol" where
  "dec_protocol w = (let t = hd w; v = tl w; s = map char_of_byte v in
     if t = 0 then Ip4 (Ipv4 (v ! 0) (v ! 1) (v ! 2) (v ! 3))
     else if t = 1 then Ip6 (of_nat (length v))
     else if t = 2 then Tcp (of_nat (length v))
     else if t = 3 then Udp (of_nat (length v))
     else if t = 4 then P2p s else if t = 5 then P2pCircuit else if t = 6 then Dns s
     else if t = 7 then Dns4 s else if t = 8 then Dns6 s else OtherProtocol s)"

lemma dec_enc_protocol: "dec_protocol (enc_protocol p) = p"
  by (cases p rule: enc_protocol.cases) (simp_all add: dec_protocol_def as_bytes_def comp_def)

fun dec_addr :: "nat \<Rightarrow> bytes \<Rightarrow> multiaddr" where
  "dec_addr 0 w = []"
| "dec_addr (Suc n) w = (if w = [] then [] else case dec_bytes w of (x, rest) \<Rightarrow> dec_protocol x # dec_addr n rest)"

definition enc_addr :: "multiaddr \<Rightarrow> bytes" where
  "enc_addr a = concat (map (\<lambda>p. enc_bytes (enc_protocol p)) a)"

lemma dec_enc_addr: "length a \<le> n \<Longrightarrow> dec_addr n (enc_addr a) = a"
proof (induction a arbitrary: n)
  case Nil
  then show ?case by (cases n) (simp_all add: enc_addr_def)
next
  case (Cons p a)
  then obtain k where k: "n = Suc k" "length a \<le> k" by (cases n) auto
  have "enc_addr (p # a) = enc_bytes (enc_protocol p) @ enc_addr a" by (simp add: enc_addr_def)
  moreover have "enc_addr (p # a) \<noteq> []" by (simp add: enc_addr_def enc_bytes_def)
  ultimately show ?case using Cons.IH [OF k(2)] k(1) by (simp add: dec_enc_protocol)
qed

lemma length_enc_addr: "length a \<le> length (enc_addr a)"
  by (induction a) (simp_all add: enc_addr_def enc_bytes_def)

definition toy_addr_text :: addr_text where
  "toy_addr_text = \<lparr>at_parse = \<lambda>s. Some (dec_addr (length s) (as_bytes s)), at_show = \<lambda>a. map char_of_byte (enc_addr a)\<rparr>"

lemma as_bytes_char_of_byte [simp]: "as_bytes (map char_of_byte bs) = bs"
proof -
  have "byte_of_char (char_of_byte b) = b" for b
  proof -
    have "unat b < 2 ^ LENGTH(8)" by (rule unsigned_less)
    then have "unat b mod 256 = unat b" by simp
    moreover have "byte_of_char (char_of_byte b) = of_nat (of_char (char_of (unat b) :: char))"
      unfolding byte_of_char_def char_of_byte_def by (rule of_nat_of_char [symmetric])
    ultimately show ?thesis by (simp only: of_char_of) simp
  qed
  then show ?thesis by (simp add: as_bytes_def comp_def)
qed

lemma toy_addr_text_ok: "addr_text_ok toy_addr_text"
  using length_enc_addr by (simp add: addr_text_ok_def toy_addr_text_def dec_enc_addr)

definition toy_address :: multiaddr where
  "toy_address = [Ip4 (Ipv4 192 168 1 7), Tcp 4, P2p ''x'']"

theorem sanitized_address_dialable_witness:
  "\<exists>t a. sanitize_direct_address_text toy_addr_text (at_show toy_addr_text toy_address) = Some t
     \<and> at_parse toy_addr_text t = Some a \<and> list_all direct_component a
     \<and> sanitize_direct_address_text toy_addr_text t = Some t"
proof -
  have "sanitize_direct_address toy_address = Some [Ip4 (Ipv4 192 168 1 7), Tcp 4]"
    by (simp add: sanitize_alt toy_address_def direct_component_def is_tcp_def)
  then have "sanitize_direct_address_text toy_addr_text (at_show toy_addr_text toy_address)
      = Some (at_show toy_addr_text [Ip4 (Ipv4 192 168 1 7), Tcp 4])"
    using toy_addr_text_ok by (simp add: sanitize_direct_address_text_def addr_text_ok_def)
  with sanitized_address_dialable [OF toy_addr_text_ok this] show ?thesis by blast
qed

end
