(* ===== verification/Rendezvous.thy ===== *)
theory Rendezvous
  imports Addresses
begin

text \<open>
  The public rendezvous service (\<^verbatim>\<open>run_public_service_swarm\<close> of \<^verbatim>\<open>src/src/pairing.rs\<close>): the event loop
  over relay reservations and invite requests is a step function on the two tables it keeps.
\<close>

section \<open>Requests and state\<close>

datatype pairing_request =
    RegisterInvite (rq_code_hash: string) (rq_expires_at: u64) (rq_addresses: "string list")
  | ResolveInvite string
  | PreKeyBundleRequest
  | InitialMessageRequest bytes
  | ChatFrameRequest bytes

datatype pairing_response =
    Registered
  | Resolved peer_id "string list"
  | PreKeyBundleResponse bytes
  | Ack string
  | PairingError string

record invite_registration =
  ir_peer_id :: peer_id
  ir_direct_addresses :: "string list"
  ir_expires_at :: u64

record service =
  sv_invitations :: "string \<rightharpoonup> invite_registration"
  sv_reserved :: "peer_id set"

definition service_init :: service where
  "service_init = \<lparr>sv_invitations = Map.empty, sv_reserved = {}\<rparr>"

text \<open>\<^verbatim>\<open>HashMap::retain\<close>.\<close>

definition retain :: "('v \<Rightarrow> bool) \<Rightarrow> ('k \<rightharpoonup> 'v) \<Rightarrow> 'k \<rightharpoonup> 'v" where
  "retain p m = (\<lambda>k. case m k of Some v \<Rightarrow> if p v then Some v else None | None \<Rightarrow> None)"

definition INVITE_TTL_SECS :: u64 where
  "INVITE_TTL_SECS = 5 * 60"

definition service_request ::
    "addr_text \<Rightarrow> u64 \<Rightarrow> peer_id \<Rightarrow> pairing_request \<Rightarrow> service \<Rightarrow> service \<times> pairing_response" where
  "service_request A now peer request sv0 =
     (let invitations = retain (\<lambda>invite. now < ir_expires_at invite) (sv_invitations sv0);
          sv = sv0\<lparr>sv_invitations := invitations\<rparr>
      in case request of
           RegisterInvite code_hash expires_at direct_addresses \<Rightarrow>
             if peer \<notin> sv_reserved sv then (sv, PairingError ''relay reservation is not ready; retrying'')
             else if expires_at \<le> now \<or> now + INVITE_TTL_SECS < expires_at
             then (sv, PairingError ''invalid invite expiry'')
             else if (case invitations code_hash of Some existing \<Rightarrow> ir_peer_id existing \<noteq> peer | None \<Rightarrow> False)
             then (sv, PairingError ''invite code collision; try again'')
             else (sv\<lparr>sv_invitations := invitations(code_hash \<mapsto>
                     \<lparr>ir_peer_id = peer,
                      ir_direct_addresses = List.map_filter (sanitize_direct_address_text A) direct_addresses,
                      ir_expires_at = expires_at\<rparr>)\<rparr>, Registered)
         | ResolveInvite code_hash \<Rightarrow>
             (sv\<lparr>sv_invitations := invitations(code_hash := None)\<rparr>,
              (case invitations code_hash of
                 Some invite \<Rightarrow>
                   if ir_peer_id invite \<in> sv_reserved sv
                   then Resolved (ir_peer_id invite) (ir_direct_addresses invite)
                   else PairingError ''Invite is invalid, expired, or already used.''
               | None \<Rightarrow> PairingError ''Invite is invalid, expired, or already used.''))
         | _ \<Rightarrow> (sv, PairingError ''unsupported service request''))"

text \<open>
  The events of the loop that change the state or are answered.  \<open>ReservationEnded\<close> stands for
  \<^verbatim>\<open>ReservationClosed\<close> and \<^verbatim>\<open>ReservationTimedOut\<close>.
\<close>

datatype service_event =
    ReservationAccepted peer_id
  | ReservationEnded peer_id
  | ServiceRequest u64 peer_id pairing_request

fun service_step :: "addr_text \<Rightarrow> service_event \<Rightarrow> service \<Rightarrow> service \<times> pairing_response option" where
  "service_step A (ReservationAccepted p) sv = (sv\<lparr>sv_reserved := insert p (sv_reserved sv)\<rparr>, None)"
| "service_step A (ReservationEnded p) sv =
     (sv\<lparr>sv_reserved := sv_reserved sv - {p},
         sv_invitations := retain (\<lambda>invite. ir_peer_id invite \<noteq> p) (sv_invitations sv)\<rparr>, None)"
| "service_step A (ServiceRequest now p request) sv =
     (case service_request A now p request sv of (sv', response) \<Rightarrow> (sv', Some response))"

fun service_run ::
    "addr_text \<Rightarrow> service_event list \<Rightarrow> service \<Rightarrow> service \<times> (service_event \<times> pairing_response option) list" where
  "service_run A [] sv = (sv, [])"
| "service_run A (ev # evs) sv =
     (case service_step A ev sv of (sv1, r) \<Rightarrow>
        (case service_run A evs sv1 of (sv2, log) \<Rightarrow> (sv2, (ev, r) # log)))"

section \<open>Invariant\<close>

definition service_ok :: "addr_text \<Rightarrow> service \<Rightarrow> bool" where
  "service_ok A sv \<longleftrightarrow> (\<forall>h i. sv_invitations sv h = Some i \<longrightarrow> ir_peer_id i \<in> sv_reserved sv
     \<and> (\<forall>t \<in> set (ir_direct_addresses i). sanitize_direct_address_text A t = Some t))"

lemma retain_Some [simp]: "retain p m k = Some v \<longleftrightarrow> m k = Some v \<and> p v"
  by (auto simp: retain_def split: option.splits)

lemma retain_None_mono [simp]: "m k = None \<Longrightarrow> retain p m k = None"
  by (simp add: retain_def)

lemma service_ok_step:
  assumes "addr_text_ok A" "service_ok A sv"
  shows "service_ok A (fst (service_step A ev sv))"
proof (cases ev)
  case (ServiceRequest now p request)
  show ?thesis
    using assms(2) sanitize_text_twice [OF assms(1)] unfolding ServiceRequest service_ok_def
    by (cases request) (auto simp: service_request_def Let_def map_filter_def split: if_splits option.splits)
qed (use assms(2) in \<open>auto simp: service_ok_def\<close>)

lemma service_ok_run:
  assumes "addr_text_ok A" "service_ok A sv"
  shows "service_ok A (fst (service_run A evs sv))"
  using assms(2)
proof (induction evs arbitrary: sv)
  case (Cons ev evs)
  from Cons.IH [OF service_ok_step [OF assms(1) Cons.prems]] show ?case by (simp add: case_prod_unfold)
qed simp

lemma service_init_ok: "service_ok A service_init"
  by (simp add: service_ok_def service_init_def)

text \<open>
  C27: in every state the service reaches, each invite belongs to a peer with an active relay
  reservation and lists sanitised addresses only.  So resolving a code hash succeeds exactly when
  an unexpired invite is registered for it, and then returns that peer and its addresses.
\<close>

theorem resolve_exact:
  assumes "addr_text_ok A" "sv = fst (service_run A evs service_init)"
  shows "service_ok A sv \<and> (snd (service_request A now p (ResolveInvite h) sv) = Resolved q addrs \<longleftrightarrow>
      (\<exists>i. sv_invitations sv h = Some i \<and> now < ir_expires_at i \<and> q = ir_peer_id i \<and> addrs = ir_direct_addresses i))"
proof
  show ok: "service_ok A sv" unfolding assms(2) by (rule service_ok_run [OF assms(1) service_init_ok])
  show "snd (service_request A now p (ResolveInvite h) sv) = Resolved q addrs \<longleftrightarrow>
      (\<exists>i. sv_invitations sv h = Some i \<and> now < ir_expires_at i \<and> q = ir_peer_id i \<and> addrs = ir_direct_addresses i)"
  proof (cases "sv_invitations sv h")
    case (Some i)
    then have "ir_peer_id i \<in> sv_reserved sv" using ok by (auto simp: service_ok_def)
    then show ?thesis using Some by (auto simp: service_request_def Let_def retain_def)
  qed (simp add: service_request_def Let_def)
qed

section \<open>One resolution per registration\<close>

definition registers :: "string \<Rightarrow> service_event \<times> pairing_response option \<Rightarrow> bool" where
  "registers h e \<longleftrightarrow> (\<exists>now p x addrs. e = (ServiceRequest now p (RegisterInvite h x addrs), Some Registered))"

lemma absent_step:
  assumes "sv_invitations sv h = None" "service_step A ev sv = (sv', r)" "\<not> registers h (ev, r)"
  shows "sv_invitations sv' h = None"
proof (cases ev)
  case (ServiceRequest now p request)
  then show ?thesis using assms
    by (cases request) (auto simp: service_request_def Let_def registers_def split: if_splits option.splits)
qed (use assms in auto)

lemma absent_run:
  assumes "sv_invitations sv h = None" "\<forall>e \<in> set (snd (service_run A evs sv)). \<not> registers h e"
  shows "sv_invitations (fst (service_run A evs sv)) h = None"
  using assms
proof (induction evs arbitrary: sv)
  case (Cons ev evs)
  obtain sv1 r where s: "service_step A ev sv = (sv1, r)" by (cases "service_step A ev sv")
  have "sv_invitations sv1 h = None"
    using Cons.prems by (intro absent_step [OF Cons.prems(1) s]) (simp add: s case_prod_unfold)
  from Cons.IH [OF this] Cons.prems(2) show ?case by (simp add: s case_prod_unfold)
qed simp

lemma resolved_removes:
  "snd (service_step A (ServiceRequest now p (ResolveInvite h)) sv) = Some (Resolved q addrs) \<Longrightarrow>
   sv_invitations (fst (service_step A (ServiceRequest now p (ResolveInvite h)) sv)) h = None"
  by (simp add: service_request_def Let_def)

lemma resolved_present:
  "snd (service_step A (ServiceRequest now p (ResolveInvite h)) sv) = Some (Resolved q addrs) \<Longrightarrow>
   sv_invitations sv h \<noteq> None"
  by (auto simp: service_request_def Let_def split: option.splits if_splits)

lemma service_run_append:
  "service_run A (xs @ ys) sv =
     (fst (service_run A ys (fst (service_run A xs sv))),
      snd (service_run A xs sv) @ snd (service_run A ys (fst (service_run A xs sv))))"
  by (induction xs arbitrary: sv) (simp_all add: case_prod_unfold)

text \<open>
  An invite is handed out once.  In any run of the service, between two successful resolutions
  of one code hash the code is registered again.
\<close>

theorem invite_resolved_once:
  assumes "service_step A (ServiceRequest t1 p1 (ResolveInvite h)) (fst (service_run A evs1 sv)) = (sv1, Some (Resolved q1 addrs1))"
    and "snd (service_step A (ServiceRequest t2 p2 (ResolveInvite h)) (fst (service_run A evs2 sv1))) = Some (Resolved q2 addrs2)"
  shows "\<exists>e \<in> set (snd (service_run A evs2 sv1)). registers h e"
proof (rule ccontr)
  assume "\<not> ?thesis"
  then have none: "\<forall>e \<in> set (snd (service_run A evs2 sv1)). \<not> registers h e" by blast
  have "sv_invitations sv1 h = None"
    using resolved_removes [of A t1 p1 h "fst (service_run A evs1 sv)" q1 addrs1] assms(1) by simp
  from absent_run [OF this none] resolved_present [OF assms(2)] show False by simp
qed

text \<open>
  While an invite is registered, nobody else can take its code: an event either leaves the
  registration as it is, or it is the resolution of the code, a request after its expiry, the end
  of its owner's reservation, or the owner registering the code anew.
\<close>

theorem registration_protected:
  assumes "sv_invitations sv h = Some i" "service_step A ev sv = (sv', r)"
  shows "sv_invitations sv' h = Some i
    \<or> (\<exists>now p. ev = ServiceRequest now p (ResolveInvite h))
    \<or> (\<exists>now p request. ev = ServiceRequest now p request \<and> ir_expires_at i \<le> now)
    \<or> ev = ReservationEnded (ir_peer_id i)
    \<or> (\<exists>now x addrs. ev = ServiceRequest now (ir_peer_id i) (RegisterInvite h x addrs) \<and> r = Some Registered)"
proof (cases ev)
  case (ServiceRequest now p request)
  show ?thesis
  proof (cases "now < ir_expires_at i")
    case True
    define m where "m = retain (\<lambda>invite. now < ir_expires_at invite) (sv_invitations sv)"
    have "m h = Some i" using assms(1) True by (simp add: m_def)
    then show ?thesis using assms(2) ServiceRequest
      by (cases request) (auto simp: service_request_def Let_def m_def [symmetric] split: if_splits option.splits)
  qed (use ServiceRequest in \<open>simp add: not_less\<close>)
qed (use assms in auto)

section \<open>Witnesses\<close>

definition toy_registered :: "service_event list" where
  "toy_registered = [ReservationAccepted ''p'', ServiceRequest 10 ''p'' (RegisterInvite ''h'' 100 [])]"

lemma toy_registered_invite:
  "sv_invitations (fst (service_run A toy_registered service_init)) ''h'' =
     Some \<lparr>ir_peer_id = ''p'', ir_direct_addresses = [], ir_expires_at = 100\<rparr>"
  by (simp add: toy_registered_def service_init_def service_request_def INVITE_TTL_SECS_def map_filter_def)

theorem resolve_exact_witness:
  "snd (service_request toy_addr_text 20 ''q'' (ResolveInvite ''h'') (fst (service_run toy_addr_text toy_registered service_init)))
     = Resolved ''p'' []"
  using resolve_exact [OF toy_addr_text_ok refl, where now = 20 and p = "''q''" and h = "''h''" and evs = toy_registered
      and q = "''p''" and addrs = "[]"] toy_registered_invite
  by simp

theorem invite_resolved_once_witness:
  "\<exists>sv1. service_step toy_addr_text (ServiceRequest 20 ''q'' (ResolveInvite ''h''))
        (fst (service_run toy_addr_text toy_registered service_init)) = (sv1, Some (Resolved ''p'' []))
     \<and> (\<exists>e \<in> set (snd (service_run toy_addr_text [ServiceRequest 30 ''p'' (RegisterInvite ''h'' 100 [])] sv1)). registers ''h'' e)"
proof -
  let ?sv = "fst (service_run toy_addr_text toy_registered service_init)"
  let ?step = "service_step toy_addr_text (ServiceRequest 20 ''q'' (ResolveInvite ''h'')) ?sv"
  let ?again = "[ServiceRequest 30 ''p'' (RegisterInvite ''h'' 100 [])]"
  have 1: "?step = (fst ?step, Some (Resolved ''p'' []))"
    by (simp add: toy_registered_def service_init_def service_request_def INVITE_TTL_SECS_def map_filter_def retain_def)
  have 2: "snd (service_step toy_addr_text (ServiceRequest 40 ''r'' (ResolveInvite ''h'')) (fst (service_run toy_addr_text ?again (fst ?step))))
      = Some (Resolved ''p'' [])"
    by (simp add: toy_registered_def service_init_def service_request_def INVITE_TTL_SECS_def map_filter_def retain_def)
  from invite_resolved_once [OF 1 2] 1 show ?thesis by blast
qed

theorem registration_protected_witness:
  "sv_invitations (fst (service_step toy_addr_text (ServiceRequest 20 ''q'' (RegisterInvite ''h'' 90 []))
     (fst (service_run toy_addr_text toy_registered service_init)))) ''h''
   = Some \<lparr>ir_peer_id = ''p'', ir_direct_addresses = [], ir_expires_at = 100\<rparr>"
proof -
  let ?step = "service_step toy_addr_text (ServiceRequest 20 ''q'' (RegisterInvite ''h'' 90 []))
     (fst (service_run toy_addr_text toy_registered service_init))"
  have "?step = (fst ?step, snd ?step)" by simp
  from registration_protected [OF toy_registered_invite this] show ?thesis by simp
qed

end
