(* ===== verification/ChatStore.thy ===== *)
theory ChatStore
  imports Rendezvous StorageChats "HOL-Library.Countable"
begin

text \<open>
  What the chat client keeps in its database (\<^verbatim>\<open>src/src/main.rs\<close>): the local identities, contacts
  and known peers, the message history, and the queue of messages for peers that are offline; and
  the payloads of the pairing handshake.  \<open>now\<close> is the clock; \<open>fails\<close> says which statements fail.
\<close>

section \<open>Payloads\<close>

record chat_prekey_bundle =
  cpb_sender_display_name :: string
  cpb_bundle :: prekey_bundle

record chat_initial_message =
  cim_sender_display_name :: string
  cim_sender_identity_public_key :: "bytes option"
  cim_message :: initial_message

record legacy_chat_initial_message =
  lim_sender_display_name :: string
  lim_message :: initial_message

datatype chat_frame = FrameMessage string string ratchet_message | FrameAck string

text \<open>\<^verbatim>\<open>bincode\<close> on the types of the chat, beside those of \<open>codec\<close>.\<close>

record chat_codec = codec +
  cc_alice_state_decode :: "bytes \<Rightarrow> alice_state option"
  cc_bob_state_decode :: "bytes \<Rightarrow> bob_state option"
  cc_message :: "ratchet_message \<Rightarrow> bytes"
  cc_frame :: "chat_frame \<Rightarrow> bytes"
  cc_frame_decode :: "bytes \<Rightarrow> chat_frame option"
  cc_prekey :: "chat_prekey_bundle \<Rightarrow> bytes"
  cc_prekey_decode :: "bytes \<Rightarrow> chat_prekey_bundle option"
  cc_bare_prekey_decode :: "bytes \<Rightarrow> prekey_bundle option"
  cc_chat_initial :: "chat_initial_message \<Rightarrow> bytes"
  cc_chat_initial_decode :: "bytes \<Rightarrow> chat_initial_message option"
  cc_legacy_initial_decode :: "bytes \<Rightarrow> legacy_chat_initial_message option"

definition chat_codec_ok :: "chat_codec \<Rightarrow> bool" where
  "chat_codec_ok C \<longleftrightarrow> (\<forall>x. cc_frame_decode C (cc_frame C x) = Some x)
     \<and> (\<forall>x. cc_prekey_decode C (cc_prekey C x) = Some x)
     \<and> (\<forall>x. cc_chat_initial_decode C (cc_chat_initial C x) = Some x)
     \<and> (\<forall>x. cc_alice_state_decode C (cd_alice_state C x) = Some x)
     \<and> (\<forall>x. cc_bob_state_decode C (cd_bob_state C x) = Some x)"

definition decode_chat_prekey_bundle :: "chat_codec \<Rightarrow> bytes \<Rightarrow> app_error + string \<times> prekey_bundle" where
  "decode_chat_prekey_bundle C bs = (case cc_prekey_decode C bs of
     Some b \<Rightarrow> Inr (display_name_or_anonymous (cpb_sender_display_name b), cpb_bundle b)
   | None \<Rightarrow> (case cc_bare_prekey_decode C bs of
       Some b \<Rightarrow> Inr (''Anonymous'', b) | None \<Rightarrow> Inl AppCodec))"

definition decode_chat_initial_message :: "chat_codec \<Rightarrow> bytes \<Rightarrow> app_error + chat_initial_message" where
  "decode_chat_initial_message C bs = (case cc_chat_initial_decode C bs of
     Some m \<Rightarrow> Inr \<lparr>cim_sender_display_name = display_name_or_anonymous (cim_sender_display_name m),
       cim_sender_identity_public_key = cim_sender_identity_public_key m, cim_message = cim_message m\<rparr>
   | None \<Rightarrow> (case cc_legacy_initial_decode C bs of
       Some m \<Rightarrow> Inr \<lparr>cim_sender_display_name = display_name_or_anonymous (lim_sender_display_name m),
         cim_sender_identity_public_key = None, cim_message = lim_message m\<rparr>
     | None \<Rightarrow> (case cd_initial_decode C bs of
         Some m \<Rightarrow> Inr \<lparr>cim_sender_display_name = ''Anonymous'', cim_sender_identity_public_key = None, cim_message = m\<rparr>
       | None \<Rightarrow> Inl AppCodec)))"

section \<open>Local identities\<close>

definition save_alice_identity :: "chat_codec \<Rightarrow> u64 \<Rightarrow> alice \<Rightarrow> db \<Rightarrow> db" where
  "save_alice_identity C now a s =
     save_local_identity ''alice'' ''alice'' (cd_alice_state C (alice_export_state a)) now s"

definition save_bob_identity :: "chat_codec \<Rightarrow> u64 \<Rightarrow> bob \<Rightarrow> db \<Rightarrow> db" where
  "save_bob_identity C now b s =
     save_local_identity ''bob'' ''bob'' (cd_bob_state C (bob_export_state b)) now s"

text \<open>\<open>fresh\<close> is the identity that \<^verbatim>\<open>Alice::local\<close> or \<^verbatim>\<open>Bob::local\<close> generates.\<close>

definition load_or_create_alice_identity ::
    "crypto \<Rightarrow> chat_codec \<Rightarrow> alice \<Rightarrow> u64 \<Rightarrow> db \<Rightarrow> db \<times> (app_error + alice)" where
  "load_or_create_alice_identity K C fresh now s = (case load_local_identity ''alice'' s of
     Some state_bytes \<Rightarrow> (case cc_alice_state_decode C state_bytes of
       None \<Rightarrow> (s, Inl AppCodec)
     | Some state \<Rightarrow> (s, Inr (alice_from_state K (state\<lparr>as_session := None\<rparr>))))
   | None \<Rightarrow> (save_alice_identity C now fresh s, Inr fresh))"

definition load_or_create_bob_identity ::
    "crypto \<Rightarrow> chat_codec \<Rightarrow> bob \<Rightarrow> u64 \<Rightarrow> db \<Rightarrow> db \<times> (app_error + bob)" where
  "load_or_create_bob_identity K C fresh now s = (case load_local_identity ''bob'' s of
     Some state_bytes \<Rightarrow> (case cc_bob_state_decode C state_bytes of
       None \<Rightarrow> (s, Inl AppCodec)
     | Some state \<Rightarrow> (s, Inr (bob_from_state K (state\<lparr>bs_session := None\<rparr>))))
   | None \<Rightarrow> (save_bob_identity C now fresh s, Inr fresh))"

section \<open>Contacts and known peers\<close>

definition save_contact_for_chat ::
    "crypto \<Rightarrow> (nat \<Rightarrow> bool) \<Rightarrow> u64 \<Rightarrow> string \<Rightarrow> string \<Rightarrow> bytes \<Rightarrow> string \<Rightarrow> db \<Rightarrow> db \<times> (app_error + unit)" where
  "save_contact_for_chat K fails now contact_id display_name0 identity_public_key discovery_hint s =
     (let display_name = display_name_or_anonymous display_name0;
          s1 = save_contact \<lparr>ct_contact_id = contact_id, ct_display_name = display_name,
                 ct_identity_public_key = identity_public_key, ct_discovery_hint = discovery_hint,
                 ct_saved_at = now\<rparr> s
      in if length identity_public_key = 32
         then (case merge_contact_into fails (contact_id_for_display_name K display_name) contact_id s1 of
                 (s2, Inl e) \<Rightarrow> (s2, Inl (AppStorage e))
               | (s2, Inr _) \<Rightarrow>
                   (case save_known_peer \<lparr>kp_peer_id = contact_id_for_identity K identity_public_key,
                           kp_identity_public_key = identity_public_key, kp_display_name = display_name,
                           kp_conversation_id = contact_id, kp_last_seen_at = now\<rparr> s2 of
                      Inl e \<Rightarrow> (s2, Inl (AppStorage e)) | Inr s3 \<Rightarrow> (s3, Inr ())))
         else (s1, Inr ()))"

definition load_known_peer_for_conversation :: "crypto \<Rightarrow> string \<Rightarrow> db \<Rightarrow> known_peer_record option" where
  "load_known_peer_for_conversation K conversation_id s = (case known_peer_for_conversation conversation_id s of
     Some peer \<Rightarrow> Some peer
   | None \<Rightarrow> (case load_contact conversation_id s of
       None \<Rightarrow> None
     | Some contact \<Rightarrow>
         if length (ct_identity_public_key contact) = 32
         then Some \<lparr>kp_peer_id = contact_id_for_identity K (ct_identity_public_key contact),
                kp_identity_public_key = ct_identity_public_key contact, kp_display_name = ct_display_name contact,
                kp_conversation_id = ct_contact_id contact, kp_last_seen_at = ct_saved_at contact\<rparr>
         else None))"

definition pending_peer_id_for_conversation :: "crypto \<Rightarrow> string \<Rightarrow> db \<Rightarrow> string" where
  "pending_peer_id_for_conversation K conversation_id s =
     (case load_known_peer_for_conversation K conversation_id s of Some peer \<Rightarrow> kp_peer_id peer | None \<Rightarrow> conversation_id)"

section \<open>History and queue\<close>

record chat_history_entry =
  che_message_id :: "string option"
  che_conversation_id :: string
  che_sender_display_name :: string
  che_peer_display_name :: string
  che_direction :: message_direction
  che_status :: message_status
  che_protocol_counter :: "u64 option"
  che_ciphertext :: bytes
  che_plaintext :: string

definition entry_message_id :: "crypto \<Rightarrow> chat_history_entry \<Rightarrow> string" where
  "entry_message_id K entry = (case che_message_id entry of Some mid \<Rightarrow> mid
     | None \<Rightarrow> chat_message_id K (che_conversation_id entry) (che_direction entry) (che_protocol_counter entry)
                 (che_ciphertext entry))"

definition persist_chat_message :: "crypto \<Rightarrow> u64 \<Rightarrow> chat_history_entry \<Rightarrow> db \<Rightarrow> db" where
  "persist_chat_message K now entry s =
     (let (sender_id, recipient_id) = (case che_direction entry of
            DirSent \<Rightarrow> (''you'', che_peer_display_name entry)
          | DirReceived \<Rightarrow> (che_sender_display_name entry, ''you''))
      in insert_message \<lparr>mr_message_id = entry_message_id K entry, mr_conversation_id = che_conversation_id entry,
           mr_sender_id = display_name_or_anonymous sender_id, mr_recipient_id = display_name_or_anonymous recipient_id,
           mr_direction = che_direction entry, mr_status = che_status entry,
           mr_protocol_counter = che_protocol_counter entry, mr_ciphertext = che_ciphertext entry,
           mr_plaintext = Some (che_plaintext entry), mr_created_at = now\<rparr> s)"

definition queue_offline_peer_message ::
    "crypto \<Rightarrow> bytes \<Rightarrow> u64 \<Rightarrow> known_peer_record \<Rightarrow> string \<Rightarrow> db \<Rightarrow> db" where
  "queue_offline_peer_message K random now peer plaintext s =
     (let message_id = pending_peer_message_id K random now (kp_peer_id peer) plaintext
      in insert_message \<lparr>mr_message_id = message_id, mr_conversation_id = kp_conversation_id peer,
           mr_sender_id = ''you'', mr_recipient_id = kp_display_name peer, mr_direction = DirSent,
           mr_status = StatusStored, mr_protocol_counter = None, mr_ciphertext = as_bytes plaintext,
           mr_plaintext = Some plaintext, mr_created_at = now\<rparr>
         (queue_pending_peer_message \<lparr>pm_message_id = message_id, pm_peer_id = kp_peer_id peer,
            pm_conversation_id = kp_conversation_id peer, pm_plaintext = plaintext, pm_created_at = now,
            pm_retry_count = 0, pm_last_attempt = None\<rparr> s))"

text \<open>A message typed while the peer is offline; without a peer profile nothing is queued.\<close>

definition queue_message_after_peer_disconnect ::
    "crypto \<Rightarrow> bytes \<Rightarrow> u64 \<Rightarrow> string \<Rightarrow> string \<Rightarrow> db \<Rightarrow> db" where
  "queue_message_after_peer_disconnect K random now conversation_id line s =
     (case load_known_peer_for_conversation K conversation_id s of
        None \<Rightarrow> s | Some peer \<Rightarrow> queue_offline_peer_message K random now peer line s)"

definition track_pending_chat_delivery :: "crypto \<Rightarrow> u64 \<Rightarrow> string \<Rightarrow> string \<Rightarrow> string \<Rightarrow> db \<Rightarrow> db" where
  "track_pending_chat_delivery K now conversation_id message_id plaintext s =
     queue_pending_peer_message \<lparr>pm_message_id = message_id,
       pm_peer_id = pending_peer_id_for_conversation K conversation_id s, pm_conversation_id = conversation_id,
       pm_plaintext = plaintext, pm_created_at = now, pm_retry_count = 0, pm_last_attempt = None\<rparr> s"

definition mark_delivered_if_pending :: "string \<Rightarrow> db \<Rightarrow> db" where
  "mark_delivered_if_pending message_id s =
     update_message_status message_id StatusSent (remove_pending_peer_message message_id s)"

definition chat_message_already_saved :: "string \<Rightarrow> db \<Rightarrow> bool" where
  "chat_message_already_saved message_id s = message_exists message_id s"

definition mark_incoming_chat_message_accepted :: "u64 \<Rightarrow> string \<Rightarrow> db \<Rightarrow> db" where
  "mark_incoming_chat_message_accepted now message_id s = fst (accept_message_once message_id now s)"

section \<open>Identities across restarts\<close>

lemma load_saved_identity: "load_local_identity lid (save_local_identity lid role st now s) = Some st"
  by (simp add: load_local_identity_def save_local_identity_def stmt_upsert_local_identity_def select_one_upsert
      split: option.splits)

lemma alice_state_round_trip:
  "al_keys a = from_private_bytes K (xk_private (al_keys a)) \<Longrightarrow>
   alice_from_state K ((alice_export_state a)\<lparr>as_session := None\<rparr>) = a\<lparr>al_session := None\<rparr>"
  by (cases a) (simp add: alice_from_state_def alice_export_state_def ik_from_secret_bytes_def)

section \<open>The queue is found again\<close>

lemma select_oneD: "select_one p t = Some r \<Longrightarrow> r \<in> set t \<and> p r"
  by (auto simp: select_one_def find_Some_iff)

lemma known_peer_saved:
  assumes "save_known_peer p s = Inr s'"
  shows "\<exists>q. known_peer_for_conversation (kp_conversation_id p) s' = Some q \<and> kp_peer_id q = kp_peer_id p"
proof -
  let ?row = "\<lparr>kw_peer_id = kp_peer_id p, kw_identity_public_key = kp_identity_public_key p,
         kw_display_name = kp_display_name p, kw_conversation_id = kp_conversation_id p,
         kw_last_seen_at = as_i64 (kp_last_seen_at p)\<rparr>"
  have s': "known_peers s' = upsert kw_peer_id (\<lambda>old new. new) ?row (known_peers s)"
    and no: "\<forall>r \<in> set (known_peers s). kw_conversation_id r = kp_conversation_id p \<longrightarrow> kw_peer_id r = kp_peer_id p"
    using assms by (auto simp: save_known_peer_def split: if_splits)
  have own: "\<forall>r \<in> set (known_peers s'). kw_conversation_id r = kp_conversation_id p \<longrightarrow> kw_peer_id r = kp_peer_id p"
    using no by (auto simp: s' upsert_def split: if_splits)
  have "?row \<in> set (known_peers s')" by (auto simp: s' upsert_def has_key_def image_iff)
  then have "\<exists>r \<in> set (known_peers s'). kw_conversation_id r = kp_conversation_id p" by (rule rev_bexI) simp
  then have "select_one (\<lambda>r. kw_conversation_id r = kp_conversation_id p) (known_peers s') \<noteq> None"
    unfolding select_one_None_iff by blast
  then obtain r where r: "select_one (\<lambda>r. kw_conversation_id r = kp_conversation_id p) (known_peers s') = Some r" by blast
  then have "r \<in> set (known_peers s')" "kw_conversation_id r = kp_conversation_id p"
    using select_oneD [OF r] by simp_all
  then show ?thesis using own r by (simp add: known_peer_for_conversation_def known_peer_from_row_def)
qed

lemma contact_saved_peer:
  assumes "save_contact_for_chat K fails now cid name key hint s = (s', Inr ())" "length key = 32"
  shows "pending_peer_id_for_conversation K cid s' = contact_id_for_identity K key"
proof -
  obtain s2 p where "save_known_peer p s2 = Inr s'" "kp_conversation_id p = cid" "kp_peer_id p = contact_id_for_identity K key"
    using assms by (fastforce simp: save_contact_for_chat_def Let_def split: prod.splits sum.splits)
  then show ?thesis using known_peer_saved
    by (fastforce simp: pending_peer_id_for_conversation_def load_known_peer_for_conversation_def)
qed

text \<open>
  Once a peer with an identity key is saved as a contact under the id derived from that key,
  whatever is typed while the peer is offline, or is sent and not yet acknowledged, is found by
  the query that resends the queue of that conversation.
\<close>

theorem queued_message_found:
  assumes "length key = 32" "cid = contact_id_for_identity K key"
    and "save_contact_for_chat K fails now cid name key hint s = (s', Inr ())"
    and "\<not> has_key pw_message_id mid (pending_peer_messages s')"
  shows "mid \<in> pm_message_id ` set (pending_peer_messages_for_peer cid (track_pending_chat_delivery K t cid mid line s'))
    \<and> (mid = pending_peer_message_id K random t cid line \<longrightarrow>
       mid \<in> pm_message_id ` set (pending_peer_messages_for_peer cid (queue_message_after_peer_disconnect K random t cid line s')))"
proof -
  have peer: "pending_peer_id_for_conversation K cid s' = cid" using contact_saved_peer [OF assms(3,1)] assms(2) by simp
  have "\<exists>q. load_known_peer_for_conversation K cid s' = Some q"
  proof -
    obtain s2 p where "save_known_peer p s2 = Inr s'" "kp_conversation_id p = cid"
      using assms(1,3) by (fastforce simp: save_contact_for_chat_def Let_def split: prod.splits sum.splits)
    then show ?thesis using known_peer_saved by (fastforce simp: load_known_peer_for_conversation_def)
  qed
  then obtain q where q: "load_known_peer_for_conversation K cid s' = Some q" "kp_peer_id q = cid"
    using peer by (auto simp: pending_peer_id_for_conversation_def)
  have found: "mid \<in> pm_message_id ` set (pending_peer_messages_for_peer c (queue_pending_peer_message \<lparr>pm_message_id = mid,
      pm_peer_id = c, pm_conversation_id = v, pm_plaintext = x, pm_created_at = a, pm_retry_count = n, pm_last_attempt = l\<rparr> s'))"
    for c v x a n l
    using assms(4) by (force simp: pending_peer_messages_for_peer_def queue_pending_peer_message_def insert_or_ignore_def
        pending_to_row_def pending_peer_message_from_row_def)
  have rest: "pending_peer_messages_for_peer c (insert_message r u) = pending_peer_messages_for_peer c u" for c r u
    by (simp add: pending_peer_messages_for_peer_def insert_message_def)
  show ?thesis using found
    by (auto simp: track_pending_chat_delivery_def peer queue_message_after_peer_disconnect_def q
        queue_offline_peer_message_def Let_def rest)
qed

lemma Collect_image_filter: "(\<And>q. P (f q) = P q) \<Longrightarrow> {x \<in> f ` S. P x} = f ` {q \<in> S. P q}"
  by auto

lemma merged_pending:
  assumes "save_contact_for_chat K fails now cid name key hint s = (s', Inr ())" "length key = 32"
    and "old = contact_id_for_display_name K (display_name_or_anonymous name)" "old \<noteq> cid"
  shows "pending_peer_messages s' = update_where (\<lambda>r. pw_conversation_id r = old) (\<lambda>r. r\<lparr>pw_conversation_id := cid\<rparr>)
    (pending_peer_messages s)"
proof -
  obtain s2 p c where s2: "merge_contact_into fails old cid (save_contact c s) = (s2, Inr ())" "save_known_peer p s2 = Inr s'"
    using assms(1-3) by (fastforce simp: save_contact_for_chat_def Let_def split: prod.splits sum.splits)
  have "s2 = fold (\<lambda>st u. st u) (merge_statements old cid) (save_contact c s)"
    by (rule merge_result [OF assms(4) s2(1)])
  then have "pending_peer_messages s2 = update_where (\<lambda>r. pw_conversation_id r = old) (\<lambda>r. r\<lparr>pw_conversation_id := cid\<rparr>)
      (pending_peer_messages s)"
    by (simp add: merge_statements_def save_contact_def)
  then show ?thesis using s2(2) by (auto simp: save_known_peer_def split: if_splits)
qed

text \<open>
  C29: a message queued for a contact that had no identity key keeps the old contact id as its peer
  id when the contact is later merged into one with a key.  It counts as pending in the merged
  conversation, but no query by the peer id of that conversation finds it, so it is never sent.
\<close>

theorem merge_strands_queued_message:
  assumes "save_contact_for_chat K fails now cid name key hint s = (s', Inr ())" "length key = 32"
    and "cid = contact_id_for_identity K key"
    and "old = contact_id_for_display_name K (display_name_or_anonymous name)" "old \<noteq> cid"
    and "r \<in> set (pending_peer_messages s)" "pw_conversation_id r = old" "pw_peer_id r = old"
    and "pk_ok pw_message_id (pending_peer_messages s)"
  shows "0 < pending_peer_message_count cid s'
    \<and> pw_message_id r \<notin> pm_message_id ` set (pending_peer_messages_for_peer (pending_peer_id_for_conversation K cid s') s')"
proof
  let ?up = "\<lambda>q. if pw_conversation_id q = old then q\<lparr>pw_conversation_id := cid\<rparr> else q"
  have rows: "pending_peer_messages s' = map ?up (pending_peer_messages s)"
    using merged_pending [OF assms(1,2,4,5)] by (simp add: update_where_def)
  have "?up r \<in> set (pending_peer_messages s')" using assms(6) by (simp add: rows)
  moreover have "pw_conversation_id (?up r) = cid" using assms(7) by simp
  ultimately show "0 < pending_peer_message_count cid s'"
    by (auto simp: pending_peer_message_count_def count_where_def filter_empty_conv)
  have peer: "pending_peer_id_for_conversation K cid s' = cid" using contact_saved_peer [OF assms(1,2)] assms(3) by simp
  have id: "pw_message_id (?up q) = pw_message_id q" "pw_peer_id (?up q) = pw_peer_id q" for q by simp_all
  have "q = r" if "q \<in> set (pending_peer_messages s)" "pw_message_id q = pw_message_id r" for q
    using that assms(6,9) by (auto simp: pk_ok_def distinct_map inj_on_def)
  then have "pw_message_id r \<notin> pw_message_id ` {q \<in> set (pending_peer_messages s). pw_peer_id q = cid}"
    using assms(5,8) by auto
  moreover have "pm_message_id ` set (pending_peer_messages_for_peer cid s') =
      pw_message_id ` {q \<in> set (pending_peer_messages s). pw_peer_id q = cid}"
  proof -
    have "pm_message_id ` set (pending_peer_messages_for_peer cid s') = pw_message_id ` {q \<in> set (pending_peer_messages s'). pw_peer_id q = cid}"
      by (simp add: pending_peer_messages_for_peer_def image_image pending_peer_message_from_row_def)
    also have "{q \<in> set (pending_peer_messages s'). pw_peer_id q = cid} = ?up ` {q \<in> set (pending_peer_messages s). pw_peer_id q = cid}"
      unfolding rows set_map by (rule Collect_image_filter) (simp only: id(2))
    finally show ?thesis unfolding image_image id(1) .
  qed
  ultimately show "pw_message_id r \<notin> pm_message_id ` set (pending_peer_messages_for_peer (pending_peer_id_for_conversation K cid s') s')"
    unfolding peer by simp
qed

lemma save_contact_fresh:
  assumes "\<And>i. \<not> fails i" "known_peers s = []"
  shows "\<exists>s'. save_contact_for_chat K fails now cid name key hint s = (s', Inr ())"
proof -
  have "\<exists>s2. merge_contact_into fails old cid (save_contact c s) = (s2, Inr ()) \<and> known_peers s2 = []" for old c
    using assms by (auto simp: merge_contact_into_def autocommit_ok merge_statements_def save_contact_def delete_where_def)
  then obtain s2 where "merge_contact_into fails (contact_id_for_display_name K (display_name_or_anonymous name)) cid
      (save_contact \<lparr>ct_contact_id = cid, ct_display_name = display_name_or_anonymous name, ct_identity_public_key = key,
         ct_discovery_hint = hint, ct_saved_at = now\<rparr> s) = (s2, Inr ())" "known_peers s2 = []" by blast
  then show ?thesis by (simp add: save_contact_for_chat_def Let_def save_known_peer_def)
qed

text \<open>
  C28: Bob's identity survives a restart: what \<^verbatim>\<open>save_bob_identity\<close> wrote is loaded again with the same
  keys and prekeys, whatever else the database did to other identities; only the session is
  dropped.
\<close>

theorem bob_identity_survives_restart:
  assumes "bob_wf K b" "chat_codec_ok C"
  shows "load_or_create_bob_identity K C fresh now (save_bob_identity C t b s) =
    (save_bob_identity C t b s, Inr (b\<lparr>bo_session := None\<rparr>))"
proof -
  have wf: "bob_wf K (b\<lparr>bo_session := None\<rparr>)" using assms(1) by (simp add: bob_wf_def)
  have "(bob_export_state b)\<lparr>bs_session := None\<rparr> = bob_export_state (b\<lparr>bo_session := None\<rparr>)"
    by (simp add: bob_export_state_def)
  then have "bob_from_state K ((bob_export_state b)\<lparr>bs_session := None\<rparr>) = b\<lparr>bo_session := None\<rparr>"
    using bob_state_round_trip [OF wf] by simp
  then show ?thesis using assms(2)
    by (simp add: load_or_create_bob_identity_def save_bob_identity_def load_saved_identity chat_codec_ok_def)
qed

section \<open>A concrete codec and witnesses\<close>

text \<open>
  The types that are serialised are countable, so a value can be written as the byte string whose
  length is its number.
\<close>

instance ratchet_message_ext :: (countable) countable
  by (rule countable_classI [of "\<lambda>x. to_nat (rm_number x, rm_ratchet_public_key x, rm_ciphertext x, ratchet_message.more x)"]) simp

instance ratchet_role_state :: countable
  by countable_datatype

instance ratchet_session_state_ext :: (countable) countable
  by (rule countable_classI [of "\<lambda>x. to_nat (rss_role x, rss_root_key x, rss_send_chain_key x, rss_recv_chain_key x,
      rss_send_count x, rss_recv_count x, rss_skipped x, rss_consumed x, rss_dh_private_key x, rss_peer_public x,
      ratchet_session_state.more x)"]) simp

instance alice_state_ext :: (countable) countable
  by (rule countable_classI [of "\<lambda>x. to_nat (as_identity_secret_key x, as_x25519_private_key x, as_session x, alice_state.more x)"]) simp

instance one_time_prekey_state_ext :: (countable) countable
  by (rule countable_classI [of "\<lambda>x. to_nat (ots_id x, ots_private_key x, one_time_prekey_state.more x)"]) simp

instance bob_state_ext :: (countable) countable
  by (rule countable_classI [of "\<lambda>x. to_nat (bs_identity_secret_key x, bs_x25519_private_key x, bs_signed_prekey_private_key x,
      bs_one_time_prekey x, bs_session x, bob_state.more x)"]) simp

instance prekey_bundle_ext :: (countable) countable
  by (rule countable_classI [of "\<lambda>x. to_nat (pb_identity_public_key x, pb_signed_prekey_public_key x,
      pb_signed_prekey_signature x, pb_one_time_prekey_id x, pb_one_time_prekey_public_key x, prekey_bundle.more x)"]) simp

instance initial_message_ext :: (countable) countable
  by (rule countable_classI [of "\<lambda>x. to_nat (im_alice_initial_public_key x, im_one_time_prekey_id x, im_message x,
      initial_message.more x)"]) simp

instance chat_prekey_bundle_ext :: (countable) countable
  by (rule countable_classI [of "\<lambda>x. to_nat (cpb_sender_display_name x, cpb_bundle x, chat_prekey_bundle.more x)"]) simp

instance chat_initial_message_ext :: (countable) countable
  by (rule countable_classI [of "\<lambda>x. to_nat (cim_sender_display_name x, cim_sender_identity_public_key x, cim_message x,
      chat_initial_message.more x)"]) simp

instance chat_frame :: countable
  by countable_datatype

definition enc_countable :: "'a :: countable \<Rightarrow> bytes" where
  "enc_countable x = replicate (to_nat x) 0"

definition dec_countable :: "bytes \<Rightarrow> 'a :: countable" where
  "dec_countable w = from_nat (length w)"

lemma dec_enc_countable [simp]: "dec_countable (enc_countable x) = x"
  by (simp add: dec_countable_def enc_countable_def)

definition toy_chat_codec :: chat_codec where
  "toy_chat_codec = \<lparr>cd_alice_state = enc_countable, cd_bob_state = enc_countable, cd_session_state = enc_countable,
     cd_durable = cd_durable toy_codec, cd_durable_decode = cd_durable_decode toy_codec,
     cd_initial = enc_countable, cd_initial_decode = (\<lambda>w. Some (dec_countable w)),
     cc_alice_state_decode = (\<lambda>w. Some (dec_countable w)), cc_bob_state_decode = (\<lambda>w. Some (dec_countable w)),
     cc_message = enc_countable, cc_frame = enc_countable, cc_frame_decode = (\<lambda>w. Some (dec_countable w)),
     cc_prekey = enc_countable, cc_prekey_decode = (\<lambda>w. Some (dec_countable w)), cc_bare_prekey_decode = (\<lambda>w. None),
     cc_chat_initial = enc_countable, cc_chat_initial_decode = (\<lambda>w. Some (dec_countable w)),
     cc_legacy_initial_decode = (\<lambda>w. None)\<rparr>"

lemma toy_chat_codec_ok: "chat_codec_ok toy_chat_codec"
  by (simp add: chat_codec_ok_def toy_chat_codec_def)

theorem bob_identity_survives_restart_witness:
  "snd (load_or_create_bob_identity toy_crypto toy_chat_codec (bob_local toy_crypto [9] [9] [9] [9]) 7
      (save_bob_identity toy_chat_codec 5 toy_bob init_db)) = Inr toy_bob"
proof -
  have "bob_wf toy_crypto toy_bob" "toy_bob\<lparr>bo_session := None\<rparr> = toy_bob"
    by (simp_all add: bob_wf_def toy_bob_def bob_local_def from_private_bytes_def)
  then show ?thesis using bob_identity_survives_restart [OF _ toy_chat_codec_ok] by simp
qed

definition toy_identity :: bytes where
  "toy_identity = replicate 32 7"

lemma init_tables: "known_peers init_db = []" "pending_peer_messages init_db = []" "contacts_tbl init_db = []"
  by (simp_all add: init_db_def)

theorem queued_message_found_witness:
  "\<exists>s'. save_contact_for_chat toy_crypto (\<lambda>_. False) 5 (contact_id_for_identity toy_crypto toy_identity) ''Ada'' toy_identity
        ''automatic direct/relay'' init_db = (s', Inr ())
     \<and> ''m1'' \<in> pm_message_id ` set (pending_peer_messages_for_peer (contact_id_for_identity toy_crypto toy_identity)
          (track_pending_chat_delivery toy_crypto 6 (contact_id_for_identity toy_crypto toy_identity) ''m1'' ''hi'' s'))"
proof -
  let ?cid = "contact_id_for_identity toy_crypto toy_identity"
  obtain s' where s': "save_contact_for_chat toy_crypto (\<lambda>_. False) 5 ?cid ''Ada'' toy_identity ''automatic direct/relay'' init_db
      = (s', Inr ())" using save_contact_fresh [of "\<lambda>_. False" init_db] init_tables(1) by blast
  have len: "length toy_identity = 32" by (simp add: toy_identity_def)
  have "pending_peer_messages s' = []"
  proof (cases "contact_id_for_display_name toy_crypto (display_name_or_anonymous ''Ada'') = ?cid")
    case True
    then show ?thesis using s' len
      by (auto simp: save_contact_for_chat_def Let_def merge_contact_into_def save_known_peer_def save_contact_def init_tables)
  next
    case False
    then show ?thesis using merged_pending [OF s' len refl] by (simp add: init_tables update_where_def)
  qed
  then have "\<not> has_key pw_message_id ''m1'' (pending_peer_messages s')" by simp
  from queued_message_found [OF len refl s' this] s' show ?thesis by blast
qed

lemma toy_ada: "display_name_or_anonymous ''Ada'' = ''Ada''"
  by code_simp

lemma hex_encode_inject: "hex_encode bs = hex_encode cs \<Longrightarrow> bs = cs"
  by (metis hex_round_trip sum.inject(2))

lemma toy_ids_differ: "contact_id_for_display_name toy_crypto ''Ada'' \<noteq> contact_id_for_identity toy_crypto toy_identity"
proof -
  have "sum_list (as_bytes ''ciphermesh.display-contact.v1'' @ as_bytes ''Ada'') \<noteq> (sum_list toy_identity :: u8)"
    by (simp add: as_bytes_def byte_of_char_def toy_identity_def sum_list_replicate)
  then show ?thesis
    by (auto simp: contact_id_for_display_name_def contact_id_for_identity_def toy_ada toy_crypto_def dest!: hex_encode_inject)
qed

theorem merge_strands_queued_message_witness:
  "\<exists>s'. save_contact_for_chat toy_crypto (\<lambda>_. False) 5 (contact_id_for_identity toy_crypto toy_identity) ''Ada'' toy_identity
        ''automatic direct/relay''
        (track_pending_chat_delivery toy_crypto 4 (contact_id_for_display_name toy_crypto ''Ada'') ''m1'' ''hi'' init_db) = (s', Inr ())
     \<and> 0 < pending_peer_message_count (contact_id_for_identity toy_crypto toy_identity) s'
     \<and> ''m1'' \<notin> pm_message_id ` set (pending_peer_messages_for_peer
          (pending_peer_id_for_conversation toy_crypto (contact_id_for_identity toy_crypto toy_identity) s') s')"
proof -
  let ?cid = "contact_id_for_identity toy_crypto toy_identity" and ?old = "contact_id_for_display_name toy_crypto ''Ada''"
  let ?s = "track_pending_chat_delivery toy_crypto 4 ?old ''m1'' ''hi'' init_db"
  let ?r = "pending_to_row \<lparr>pm_message_id = ''m1'', pm_peer_id = ?old, pm_conversation_id = ?old, pm_plaintext = ''hi'',
    pm_created_at = 4, pm_retry_count = 0, pm_last_attempt = None\<rparr>"
  have "pending_peer_id_for_conversation toy_crypto ?old init_db = ?old"
    by (simp add: pending_peer_id_for_conversation_def load_known_peer_for_conversation_def known_peer_for_conversation_def
        load_contact_def select_one_def init_tables)
  then have rows: "pending_peer_messages ?s = [?r]" "known_peers ?s = []"
    by (simp_all add: track_pending_chat_delivery_def queue_pending_peer_message_def insert_or_ignore_def init_tables)
  obtain s' where s': "save_contact_for_chat toy_crypto (\<lambda>_. False) 5 ?cid ''Ada'' toy_identity ''automatic direct/relay'' ?s = (s', Inr ())"
    using save_contact_fresh [of "\<lambda>_. False" ?s] rows(2) by blast
  have len: "length toy_identity = 32" by (simp add: toy_identity_def)
  have ada: "?old = contact_id_for_display_name toy_crypto (display_name_or_anonymous ''Ada'')"
    by (simp add: toy_ada)
  have neq: "?old \<noteq> ?cid" by (rule toy_ids_differ)
  from merge_strands_queued_message [OF s' len refl ada neq, of ?r] rows(1) s' show ?thesis
    by (simp add: pending_to_row_def pk_ok_def)
qed

end
