(* ===== verification/ChatSession.thy ===== *)
theory ChatSession
  imports ChatStore
begin

text \<open>
  A chat once the handshake is done: preparing and receiving frames, resending the queue, the
  event loop of the pairing chat (\<^verbatim>\<open>src/src/pairing.rs\<close>) and the queue flush and event loop of the QUIC
  chat (\<^verbatim>\<open>src/src/main.rs\<close>).  The code has every function twice, for \<^verbatim>\<open>Alice\<close> and for \<^verbatim>\<open>Bob\<close>; here it is
  one function over a \<open>party\<close> and two instances.  Printing is left out.
\<close>

section \<open>Parties\<close>

record 'e party =
  pt_encrypt :: "crypto \<Rightarrow> string \<Rightarrow> 'e \<Rightarrow> 'e \<times> (crypto_error + ratchet_message)"
  pt_decrypt :: "crypto \<Rightarrow> ratchet_message \<Rightarrow> 'e \<Rightarrow> 'e \<times> (crypto_error + string)"
  pt_save :: "chat_codec \<Rightarrow> u64 \<Rightarrow> 'e \<Rightarrow> db \<Rightarrow> db"

definition alice_party :: "alice party" where
  "alice_party = \<lparr>pt_encrypt = encrypt_for_bob, pt_decrypt = decrypt_from_bob, pt_save = save_alice_identity\<rparr>"

definition bob_party :: "bob party" where
  "bob_party = \<lparr>pt_encrypt = encrypt_for_alice, pt_decrypt = decrypt_from_alice, pt_save = save_bob_identity\<rparr>"

section \<open>Outgoing frames\<close>

definition sent_entry :: "string \<Rightarrow> string \<Rightarrow> string \<Rightarrow> string \<Rightarrow> bytes \<Rightarrow> string \<Rightarrow> chat_history_entry" where
  "sent_entry message_id conversation_id local_display_name remote_display_name frame_bytes plaintext =
     \<lparr>che_message_id = Some message_id, che_conversation_id = conversation_id,
      che_sender_display_name = local_display_name, che_peer_display_name = remote_display_name,
      che_direction = DirSent, che_status = StatusSent, che_protocol_counter = None,
      che_ciphertext = frame_bytes, che_plaintext = plaintext\<rparr>"

definition outgoing_message_id :: "crypto \<Rightarrow> chat_codec \<Rightarrow> string \<Rightarrow> ratchet_message \<Rightarrow> string option \<Rightarrow> string" where
  "outgoing_message_id K C conversation_id message existing_message_id = (case existing_message_id of
     Some mid \<Rightarrow> mid
   | None \<Rightarrow> chat_message_id K conversation_id DirSent (Some (rm_number message)) (cc_message C message))"

definition prepare_outgoing_frame ::
    "crypto \<Rightarrow> chat_codec \<Rightarrow> u64 \<Rightarrow> ratchet_message \<Rightarrow> string \<Rightarrow> string \<Rightarrow> string \<Rightarrow> string \<Rightarrow> string option
      \<Rightarrow> db \<Rightarrow> db \<times> string \<times> bytes" where
  "prepare_outgoing_frame K C now message local_display_name remote_display_name conversation_id plaintext existing s =
     (let message_id = outgoing_message_id K C conversation_id message existing;
          frame_bytes = cc_frame C (FrameMessage message_id local_display_name message)
      in (persist_chat_message K now (sent_entry message_id conversation_id local_display_name remote_display_name
            frame_bytes plaintext) s, message_id, frame_bytes))"

definition prepare_party_frame ::
    "'e party \<Rightarrow> crypto \<Rightarrow> chat_codec \<Rightarrow> u64 \<Rightarrow> string \<Rightarrow> string \<Rightarrow> string \<Rightarrow> string \<Rightarrow> string option
      \<Rightarrow> 'e \<Rightarrow> db \<Rightarrow> db \<times> 'e \<times> (app_error + string \<times> bytes)" where
  "prepare_party_frame P K C now local_display_name remote_display_name conversation_id plaintext existing e s =
     (case pt_encrypt P K plaintext e of
        (e1, Inl err) \<Rightarrow> (s, e1, Inl (AppCrypto err))
      | (e1, Inr message) \<Rightarrow>
          (case prepare_outgoing_frame K C now message local_display_name remote_display_name conversation_id plaintext
                  existing (pt_save P C now e1 s) of
             (s1, res) \<Rightarrow> (s1, e1, Inr res)))"

definition prepare_alice_frame ::
    "crypto \<Rightarrow> chat_codec \<Rightarrow> u64 \<Rightarrow> string \<Rightarrow> string \<Rightarrow> string \<Rightarrow> string \<Rightarrow> string option
      \<Rightarrow> alice \<Rightarrow> db \<Rightarrow> db \<times> alice \<times> (app_error + string \<times> bytes)" where
  "prepare_alice_frame = prepare_party_frame alice_party"

definition prepare_bob_frame ::
    "crypto \<Rightarrow> chat_codec \<Rightarrow> u64 \<Rightarrow> string \<Rightarrow> string \<Rightarrow> string \<Rightarrow> string \<Rightarrow> string option
      \<Rightarrow> bob \<Rightarrow> db \<Rightarrow> db \<times> bob \<times> (app_error + string \<times> bytes)" where
  "prepare_bob_frame = prepare_party_frame bob_party"

text \<open>The queue of a conversation is encrypted anew and sent; the frames that went out are returned.\<close>

fun send_pending_loop ::
    "'e party \<Rightarrow> crypto \<Rightarrow> chat_codec \<Rightarrow> u64 \<Rightarrow> string \<Rightarrow> string \<Rightarrow> pending_peer_message list \<Rightarrow> 'e \<Rightarrow> db
      \<Rightarrow> db \<times> 'e \<times> bytes list \<times> (app_error + unit)" where
  "send_pending_loop P K C now local_display_name conversation_id [] e s = (s, e, [], Inr ())"
| "send_pending_loop P K C now local_display_name conversation_id (item # items) e s =
     (case prepare_party_frame P K C now local_display_name ''peer'' conversation_id (pm_plaintext item)
             (Some (pm_message_id item)) e (record_pending_peer_message_attempt (pm_message_id item) now s) of
        (s1, e1, Inl err) \<Rightarrow> (s1, e1, [], Inl err)
      | (s1, e1, Inr (_, bytes)) \<Rightarrow>
          (case send_pending_loop P K C now local_display_name conversation_id items e1 s1 of
             (s2, e2, frames, res) \<Rightarrow> (s2, e2, bytes # frames, res)))"

definition send_pending_as_alice ::
    "crypto \<Rightarrow> chat_codec \<Rightarrow> u64 \<Rightarrow> string \<Rightarrow> string \<Rightarrow> alice \<Rightarrow> db \<Rightarrow> db \<times> alice \<times> bytes list \<times> (app_error + unit)" where
  "send_pending_as_alice K C now local_display_name conversation_id e s =
     send_pending_loop alice_party K C now local_display_name conversation_id
       (pending_peer_messages_for_peer conversation_id s) e s"

definition send_pending_as_bob ::
    "crypto \<Rightarrow> chat_codec \<Rightarrow> u64 \<Rightarrow> string \<Rightarrow> string \<Rightarrow> bob \<Rightarrow> db \<Rightarrow> db \<times> bob \<times> bytes list \<times> (app_error + unit)" where
  "send_pending_as_bob K C now local_display_name conversation_id e s =
     send_pending_loop bob_party K C now local_display_name conversation_id
       (pending_peer_messages_for_peer conversation_id s) e s"

section \<open>Incoming frames\<close>

definition received_entry :: "string \<Rightarrow> string \<Rightarrow> string \<Rightarrow> string \<Rightarrow> ratchet_message \<Rightarrow> bytes \<Rightarrow> string \<Rightarrow> chat_history_entry" where
  "received_entry message_id conversation_id sender_display_name local_display_name message frame_bytes plaintext =
     \<lparr>che_message_id = Some message_id, che_conversation_id = conversation_id,
      che_sender_display_name = sender_display_name, che_peer_display_name = local_display_name,
      che_direction = DirReceived, che_status = StatusReceived, che_protocol_counter = Some (rm_number message),
      che_ciphertext = frame_bytes, che_plaintext = plaintext\<rparr>"

text \<open>The common core: a message not yet saved is decrypted, saved and marked accepted.\<close>

definition store_incoming ::
    "'e party \<Rightarrow> crypto \<Rightarrow> chat_codec \<Rightarrow> u64 \<Rightarrow> string \<Rightarrow> string \<Rightarrow> bytes \<Rightarrow> string \<Rightarrow> string \<Rightarrow> ratchet_message
      \<Rightarrow> 'e \<Rightarrow> db \<Rightarrow> db \<times> 'e \<times> (app_error + string)" where
  "store_incoming P K C now local_display_name conversation_id frame_bytes message_id sender_display_name message e s =
     (case pt_decrypt P K message e of
        (e1, Inl err) \<Rightarrow> (s, e1, Inl (AppCrypto err))
      | (e1, Inr plaintext) \<Rightarrow>
          (mark_incoming_chat_message_accepted now message_id
             (persist_chat_message K now (received_entry message_id conversation_id sender_display_name
                local_display_name message frame_bytes plaintext) (pt_save P C now e1 s)),
           e1, Inr plaintext))"

datatype app_event =
    EvRequest peer_id pairing_request
  | EvResponse peer_id pairing_response
  | EvOutboundFailure peer_id

definition handle_chat_frame ::
    "'e party \<Rightarrow> crypto \<Rightarrow> chat_codec \<Rightarrow> u64 \<Rightarrow> string \<Rightarrow> string \<Rightarrow> bytes \<Rightarrow> 'e \<Rightarrow> db
      \<Rightarrow> db \<times> 'e \<times> (app_error + pairing_response option)" where
  "handle_chat_frame P K C now local_display_name conversation_id bytes e s =
     (case cc_frame_decode C bytes of
        None \<Rightarrow> (s, e, Inl AppCodec)
      | Some (FrameAck _) \<Rightarrow> (s, e, Inr None)
      | Some (FrameMessage message_id sender_display_name message) \<Rightarrow>
          if chat_message_already_saved message_id s then (s, e, Inr (Some (Ack message_id)))
          else (case store_incoming P K C now local_display_name conversation_id bytes message_id
                       sender_display_name message e s of
                  (s1, e1, Inl err) \<Rightarrow> (s1, e1, Inl err)
                | (s1, e1, Inr _) \<Rightarrow> (s1, e1, Inr (Some (Ack message_id)))))"

definition handle_party_app_event ::
    "'e party \<Rightarrow> crypto \<Rightarrow> chat_codec \<Rightarrow> u64 \<Rightarrow> peer_id \<Rightarrow> string \<Rightarrow> string \<Rightarrow> app_event \<Rightarrow> 'e \<Rightarrow> db
      \<Rightarrow> db \<times> 'e \<times> (app_error + pairing_response option)" where
  "handle_party_app_event P K C now target local_display_name conversation_id event e s = (case event of
     EvRequest peer (ChatFrameRequest bytes) \<Rightarrow>
       if peer = target then handle_chat_frame P K C now local_display_name conversation_id bytes e s
       else (s, e, Inr None)
   | EvResponse peer (Ack message_id) \<Rightarrow>
       if peer = target then (mark_delivered_if_pending message_id s, e, Inr None) else (s, e, Inr None)
   | _ \<Rightarrow> (s, e, Inr None))"

definition handle_alice_app_event ::
    "crypto \<Rightarrow> chat_codec \<Rightarrow> u64 \<Rightarrow> peer_id \<Rightarrow> string \<Rightarrow> string \<Rightarrow> app_event \<Rightarrow> alice \<Rightarrow> db
      \<Rightarrow> db \<times> alice \<times> (app_error + pairing_response option)" where
  "handle_alice_app_event = handle_party_app_event alice_party"

definition handle_bob_pairing_app_event ::
    "crypto \<Rightarrow> chat_codec \<Rightarrow> u64 \<Rightarrow> peer_id \<Rightarrow> string \<Rightarrow> string \<Rightarrow> app_event \<Rightarrow> bob \<Rightarrow> db
      \<Rightarrow> db \<times> bob \<times> (app_error + pairing_response option)" where
  "handle_bob_pairing_app_event = handle_party_app_event bob_party"

section \<open>The pairing chat loop\<close>

record pairing_chat_context =
  pcc_local_display_name :: string
  pcc_remote_display_name :: string
  pcc_conversation_id :: string

record 'e pairing_chat =
  pc_online :: bool
  pc_party :: 'e
  pc_db :: db

datatype chat_event =
    CtrlC
  | ReconnectTick
  | InputClosed
  | Line string
  | AppEvent app_event
  | ConnectionEstablished peer_id
  | ConnectionClosed peer_id nat
  | RelayListenerClosed
  | RelayReservationAccepted
  | OtherSwarmEvent

text \<open>What a step does to the swarm: requests to the target, one response, dialling, listening.\<close>

datatype chat_action = SendFrame bytes | Respond pairing_response | Reconnect | ListenOnRelay

datatype loop_result = Continue | Finished | Failed app_error

definition peer_lost_all_connections :: "peer_id \<Rightarrow> peer_id \<Rightarrow> nat \<Rightarrow> bool" where
  "peer_lost_all_connections peer_id target num_established \<longleftrightarrow> peer_id = target \<and> num_established = 0"

definition loop_of :: "app_error + 'a \<Rightarrow> loop_result" where
  "loop_of res = (case res of Inl err \<Rightarrow> Failed err | Inr _ \<Rightarrow> Continue)"

text \<open>Showing a conversation clears the markers of the messages it showed as new.\<close>

definition print_conversation :: "string \<Rightarrow> db \<Rightarrow> db" where
  "print_conversation conversation_id s =
     (if new_messages_for_conversation conversation_id s = [] then s
      else fst (mark_new_messages_read conversation_id s))"

definition pairing_chat_start ::
    "'e party \<Rightarrow> crypto \<Rightarrow> chat_codec \<Rightarrow> u64 \<Rightarrow> pairing_chat_context \<Rightarrow> 'e \<Rightarrow> db
      \<Rightarrow> 'e pairing_chat \<times> chat_action list \<times> loop_result" where
  "pairing_chat_start P K C now cx e s =
     (case send_pending_loop P K C now (pcc_local_display_name cx) (pcc_conversation_id cx)
             (pending_peer_messages_for_peer (pcc_conversation_id cx) s) e s of
        (s1, e1, frames, res) \<Rightarrow>
          (\<lparr>pc_online = True, pc_party = e1,
            pc_db = (case res of Inl _ \<Rightarrow> s1 | Inr _ \<Rightarrow> print_conversation (pcc_conversation_id cx) s1)\<rparr>,
           map SendFrame frames, loop_of res))"

fun pairing_chat_step ::
    "'e party \<Rightarrow> crypto \<Rightarrow> chat_codec \<Rightarrow> bytes \<Rightarrow> u64 \<Rightarrow> peer_id \<Rightarrow> pairing_chat_context \<Rightarrow> chat_event \<Rightarrow> 'e pairing_chat
      \<Rightarrow> 'e pairing_chat \<times> chat_action list \<times> loop_result" where
  "pairing_chat_step P K C random now target cx CtrlC st = (st, [], Finished)"
| "pairing_chat_step P K C random now target cx ReconnectTick st =
     (st, if pc_online st then [] else [Reconnect], Continue)"
| "pairing_chat_step P K C random now target cx InputClosed st = (st, [], Finished)"
| "pairing_chat_step P K C random now target cx (Line line) st =
     (if is_chat_back_command line then (st, [], Finished)
      else if line = [] then (st, [], Continue)
      else if \<not> pc_online st
      then (st\<lparr>pc_db := queue_message_after_peer_disconnect K random now (pcc_conversation_id cx) line (pc_db st)\<rparr>, [], Continue)
      else (case prepare_party_frame P K C now (pcc_local_display_name cx) (pcc_remote_display_name cx)
                   (pcc_conversation_id cx) line None (pc_party st) (pc_db st) of
              (s1, e1, Inl err) \<Rightarrow> (st\<lparr>pc_party := e1, pc_db := s1\<rparr>, [], Failed err)
            | (s1, e1, Inr (message_id, bytes)) \<Rightarrow>
                (st\<lparr>pc_party := e1,
                    pc_db := track_pending_chat_delivery K now (pcc_conversation_id cx) message_id line s1\<rparr>,
                 [SendFrame bytes], Continue)))"
| "pairing_chat_step P K C random now target cx (AppEvent event) st =
     (case handle_party_app_event P K C now target (pcc_local_display_name cx) (pcc_conversation_id cx) event
             (pc_party st) (pc_db st) of
        (s1, e1, res) \<Rightarrow> (st\<lparr>pc_party := e1, pc_db := s1\<rparr>,
          (case res of Inr (Some response) \<Rightarrow> [Respond response] | _ \<Rightarrow> []), loop_of res))"
| "pairing_chat_step P K C random now target cx (ConnectionEstablished peer_id) st =
     (if peer_id = target \<and> \<not> pc_online st
      then (case send_pending_loop P K C now (pcc_local_display_name cx) (pcc_conversation_id cx)
                   (pending_peer_messages_for_peer (pcc_conversation_id cx) (pc_db st)) (pc_party st) (pc_db st) of
              (s1, e1, frames, res) \<Rightarrow>
                (\<lparr>pc_online = True, pc_party = e1, pc_db = s1\<rparr>, map SendFrame frames, loop_of res))
      else (st, [], Continue))"
| "pairing_chat_step P K C random now target cx (ConnectionClosed peer_id num_established) st =
     (if peer_lost_all_connections peer_id target num_established
      then (st\<lparr>pc_online := False\<rparr>, [Reconnect], Continue) else (st, [], Continue))"
| "pairing_chat_step P K C random now target cx RelayListenerClosed st = (st, [ListenOnRelay], Continue)"
| "pairing_chat_step P K C random now target cx RelayReservationAccepted st =
     (st, if pc_online st then [] else [Reconnect], Continue)"
| "pairing_chat_step P K C random now target cx OtherSwarmEvent st = (st, [], Continue)"

text \<open>
  The loop runs until a step returns.  Every event comes with the clock at that moment and the random
  bytes a queued message would draw.
\<close>

type_synonym timed_event = "u64 \<times> bytes \<times> chat_event"

definition event_of :: "timed_event \<Rightarrow> chat_event" where
  "event_of = snd \<circ> snd"

fun run_pairing_chat ::
    "'e party \<Rightarrow> crypto \<Rightarrow> chat_codec \<Rightarrow> peer_id \<Rightarrow> pairing_chat_context \<Rightarrow> timed_event list
      \<Rightarrow> 'e pairing_chat \<Rightarrow> 'e pairing_chat \<times> chat_action list \<times> loop_result" where
  "run_pairing_chat P K C target cx [] st = (st, [], Continue)"
| "run_pairing_chat P K C target cx ((now, random, ev) # evs) st =
     (case pairing_chat_step P K C random now target cx ev st of
        (st1, acts, Continue) \<Rightarrow>
          (case run_pairing_chat P K C target cx evs st1 of (st2, acts2, r) \<Rightarrow> (st2, acts @ acts2, r))
      | (st1, acts, r) \<Rightarrow> (st1, acts, r))"

end
