(* ===== verification/ChatProps.thy ===== *)
theory ChatProps
  imports ChatSession
begin

text \<open>
  What the pairing chat achieves: lines typed by one party are stored by the other exactly once,
  whatever is repeated on the way; the queue is sent again on reconnection; and the limit that
  resending runs into.
\<close>

section \<open>The frames of a conversation\<close>

text \<open>The frames of a list of lines, from position \<open>i\<close> of the sending chain.\<close>

definition line_id :: "crypto \<Rightarrow> chat_codec \<Rightarrow> bytes \<Rightarrow> bytes \<Rightarrow> string \<Rightarrow> nat \<Rightarrow> string \<Rightarrow> string" where
  "line_id K C ck pub cid i p = outgoing_message_id K C cid (sealed K ck pub i p) None"

fun line_frames :: "crypto \<Rightarrow> chat_codec \<Rightarrow> bytes \<Rightarrow> bytes \<Rightarrow> string \<Rightarrow> string \<Rightarrow> nat \<Rightarrow> string list \<Rightarrow> bytes list" where
  "line_frames K C ck pub cid ln i [] = []"
| "line_frames K C ck pub cid ln i (p # ps) =
     cc_frame C (FrameMessage (line_id K C ck pub cid i p) ln (sealed K ck pub i p)) # line_frames K C ck pub cid ln (Suc i) ps"

fun line_ids :: "crypto \<Rightarrow> chat_codec \<Rightarrow> bytes \<Rightarrow> bytes \<Rightarrow> string \<Rightarrow> nat \<Rightarrow> string list \<Rightarrow> string list" where
  "line_ids K C ck pub cid i [] = []"
| "line_ids K C ck pub cid i (p # ps) = line_id K C ck pub cid i p # line_ids K C ck pub cid (Suc i) ps"

lemma length_line_frames [simp]: "length (line_frames K C ck pub cid ln i ps) = length ps"
  by (induction ps arbitrary: i) simp_all

lemma length_line_ids [simp]: "length (line_ids K C ck pub cid i ps) = length ps"
  by (induction ps arbitrary: i) simp_all

text \<open>Every element of a list as often as the second list says, and once more.\<close>

definition repeat_all :: "('a \<Rightarrow> 'b) \<Rightarrow> 'a list \<Rightarrow> nat list \<Rightarrow> 'b list" where
  "repeat_all f xs ns = concat (map2 (\<lambda>x n. replicate (Suc n) (f x)) xs ns)"

lemma repeat_all_Cons [simp]: "repeat_all f (x # xs) (n # ns) = replicate (Suc n) (f x) @ repeat_all f xs ns"
  by (simp add: repeat_all_def)

lemma run_chat_append:
  "run_pairing_chat P K C target cx xs st = (st1, acts1, Continue) \<Longrightarrow>
   run_pairing_chat P K C target cx (xs @ ys) st =
     (case run_pairing_chat P K C target cx ys st1 of (st2, acts2, r) \<Rightarrow> (st2, acts1 @ acts2, r))"
proof (induction xs arbitrary: st acts1)
  case (Cons x xs)
  obtain now random ev where x: "x = (now, random, ev)" by (cases x)
  from Cons.prems obtain st0 acts0 acts2 where s: "pairing_chat_step P K C random now target cx ev st = (st0, acts0, Continue)"
    "run_pairing_chat P K C target cx xs st0 = (st1, acts2, Continue)" "acts1 = acts0 @ acts2"
    by (auto simp: x split: prod.splits loop_result.splits)
  then show ?case using Cons.IH [OF s(2)] by (simp add: x split: prod.splits)
qed (simp split: prod.splits)

lemma event_of_split: "map event_of evs = x # xs \<longleftrightarrow>
   (\<exists>now random rest. evs = (now, random, x) # rest \<and> map event_of rest = xs)"
  by (cases evs) (auto simp: event_of_def)

lemma event_of_append:
  assumes "map event_of evs = xs @ ys"
  obtains evs1 evs2 where "evs = evs1 @ evs2" "map event_of evs1 = xs" "map event_of evs2 = ys"
  using assms by (auto simp: map_eq_append_conv)

abbreviation frame_event :: "peer_id \<Rightarrow> bytes \<Rightarrow> chat_event" where
  "frame_event target f \<equiv> AppEvent (EvRequest target (ChatFrameRequest f))"

section \<open>The queue\<close>

text \<open>The frames that carry the messages \<open>ms\<close> of the queued items.\<close>

definition item_frames :: "chat_codec \<Rightarrow> string \<Rightarrow> pending_peer_message list \<Rightarrow> ratchet_message list \<Rightarrow> bytes list" where
  "item_frames C ln items ms = map2 (\<lambda>item m. cc_frame C (FrameMessage (pm_message_id item) ln m)) items ms"

lemma ratchet_encrypt_total:
  assumes "hkdf_total K" "aead_correct K"
  obtains s' m where "ratchet_encrypt K p s = (s', Inr m)"
proof -
  obtain c where "cr_aead_encrypt K (key_at K (rs_send_chain_key s) 0) (nonce_for (rs_send_count s))
      (ratchet_aad (rs_send_count s) (xk_public (rs_dh_keys s))) (as_bytes p) = Some c"
    using assms(2) unfolding aead_correct_def by blast
  then show ?thesis
    using that advance_chain_at [OF assms(1), of "rs_send_chain_key s" 0]
    by (simp add: ratchet_encrypt_def next_send_message_key_def Let_def)
qed

lemma encrypt_all_total:
  assumes "hkdf_total K" "aead_correct K"
  shows "\<exists>ms. snd (encrypt_all K ps s) = map Inr ms \<and> length ms = length ps"
proof (induction ps arbitrary: s)
  case (Cons p ps)
  obtain s' m where m: "ratchet_encrypt K p s = (s', Inr m)" by (rule ratchet_encrypt_total [OF assms])
  obtain ms where "snd (encrypt_all K ps s') = map Inr ms \<and> length ms = length ps" using Cons.IH by blast
  then show ?case by (intro exI [of _ "m # ms"]) (simp add: m case_prod_unfold)
qed simp

lemma encrypt_all_snoc:
  "snd (encrypt_all K (ps @ [p]) s) = snd (encrypt_all K ps s) @ [snd (ratchet_encrypt K p (fst (encrypt_all K ps s)))]"
  by (induction ps arbitrary: s) (simp_all add: case_prod_unfold Let_def)

lemma encrypt_all_position:
  assumes "hkdf_total K" "aead_correct K" "rs_send_chain_key s = chain_at K ck i" "rs_send_count s = of_nat i"
  shows "rs_send_chain_key (fst (encrypt_all K ps s)) = chain_at K ck (i + length ps)
    \<and> rs_send_count (fst (encrypt_all K ps s)) = of_nat (i + length ps) \<and> rs_dh_keys (fst (encrypt_all K ps s)) = rs_dh_keys s"
  using assms(3,4)
proof (induction ps arbitrary: i s)
  case (Cons p ps)
  obtain s' where s': "ratchet_encrypt K p s = (s', Inr (sealed K ck (xk_public (rs_dh_keys s)) i p))"
    "rs_send_chain_key s' = chain_at K ck (Suc i)" "rs_send_count s' = of_nat (Suc i)" "rs_dh_keys s' = rs_dh_keys s"
    by (rule ratchet_encrypt_sealed [OF assms(1,2) Cons.prems])
  then show ?case using Cons.IH [OF s'(2,3)] by (simp add: case_prod_unfold Let_def)
qed simp

text \<open>A message of the conversation with the given peer id waits for its acknowledgement.\<close>

definition queued :: "string \<Rightarrow> string \<Rightarrow> string \<Rightarrow> db \<Rightarrow> bool" where
  "queued mid pid p s \<longleftrightarrow>
     (\<exists>r \<in> set (pending_peer_messages s). pw_message_id r = mid \<and> pw_peer_id r = pid \<and> pw_plaintext r = p)"

lemma queued_cong: "pending_peer_messages s = pending_peer_messages t \<Longrightarrow> queued mid pid p s = queued mid pid p t"
  by (simp add: queued_def)

lemma bex_map_cong: "(\<And>r. Q (f r) = Q r) \<Longrightarrow> (\<exists>r \<in> set (map f t). Q r) = (\<exists>r \<in> set t. Q r)"
  by simp

lemma queued_attempt [simp]: "queued mid pid p (record_pending_peer_message_attempt m now s) = queued mid pid p s"
proof -
  have "pending_peer_messages (record_pending_peer_message_attempt m now s) = map (\<lambda>r. if pw_message_id r = m
      then r\<lparr>pw_retry_count := pw_retry_count r + 1, pw_last_attempt := Some (as_i64 now)\<rparr> else r) (pending_peer_messages s)"
    by (simp add: record_pending_peer_message_attempt_def update_where_def)
  then show ?thesis unfolding queued_def by (simp only:) (rule bex_map_cong, simp)
qed

lemma pending_persist [simp]: "pending_peer_messages (persist_chat_message K now entry s) = pending_peer_messages s"
  by (simp add: persist_chat_message_def insert_message_def case_prod_unfold Let_def)

lemma pending_accepted [simp]: "pending_peer_messages (mark_incoming_chat_message_accepted now mid s) = pending_peer_messages s"
  by (simp add: mark_incoming_chat_message_accepted_def accept_message_once_def case_prod_unfold Let_def)

lemma queued_queue: "queued mid pid p s \<Longrightarrow> queued mid pid p (queue_pending_peer_message m s)"
  by (auto simp: queued_def queue_pending_peer_message_def insert_or_ignore_def)

lemma queued_delivered: "queued mid pid p s \<Longrightarrow> m \<noteq> mid \<Longrightarrow> queued mid pid p (mark_delivered_if_pending m s)"
  by (auto simp: queued_def mark_delivered_if_pending_def update_message_status_def remove_pending_peer_message_def delete_where_def)

lemma queued_offline: "queued mid pid p s \<Longrightarrow> queued mid pid p (queue_message_after_peer_disconnect K random now cid line s)"
  by (auto simp: queue_message_after_peer_disconnect_def queue_offline_peer_message_def Let_def insert_message_def
      queued_cong [of "_\<lparr>messages := _\<rparr>"] queued_queue split: option.splits)

lemma queued_listed:
  "queued mid pid p s \<longleftrightarrow>
     (\<exists>item \<in> set (pending_peer_messages_for_peer pid s). pm_message_id item = mid \<and> pm_plaintext item = p)"
  by (auto simp: queued_def pending_peer_messages_for_peer_def pending_peer_message_from_row_def)

definition frame_id :: "chat_codec \<Rightarrow> bytes \<Rightarrow> string" where
  "frame_id C f = (case cc_frame_decode C f of Some (FrameMessage message_id _ _) \<Rightarrow> message_id | _ \<Rightarrow> [])"

section \<open>The contract of a party\<close>

locale chat_party = endpoint session "pt_encrypt P" "pt_decrypt P"
  for session :: "'e \<Rightarrow> ratchet_session option" and P :: "'e party" +
  assumes save_messages: "messages (pt_save P C now e s) = messages s"
    and save_pending: "pending_peer_messages (pt_save P C now e s) = pending_peer_messages s"
begin

lemma handle_saved:
  assumes "cc_frame_decode C bs = Some (FrameMessage mid name m)" "message_exists mid s"
  shows "handle_chat_frame P K C now ln cid bs e s = (s, e, Inr (Some (Ack mid)))"
  using assms by (simp add: handle_chat_frame_def chat_message_already_saved_def)

lemma handle_fresh:
  assumes "cc_frame_decode C bs = Some (FrameMessage mid name m)" "\<not> message_exists mid s"
    and "session e = Some ss" "ratchet_decrypt K m ss = (ss', Inr p)"
  obtains s' e' row where "handle_chat_frame P K C now ln cid bs e s = (s', e', Inr (Some (Ack mid)))"
    "session e' = Some ss'" "messages s' = messages s @ [row]" "mw_message_id row = mid"
    "mw_conversation_id row = cid" "mw_plaintext row = Some p"
proof -
  let ?d = "pt_decrypt P K m e"
  have d: "?d = (fst ?d, Inr p)" "session (fst ?d) = Some ss'"
    using receive_session [OF assms(3), of K m] assms(4) by (auto simp: prod_eq_iff)
  have "\<not> has_key mw_message_id mid (messages s)" using assms(2) by (auto simp: message_exists_iff has_key_def)
  then have "handle_chat_frame P K C now ln cid bs e s = (mark_incoming_chat_message_accepted now mid
      (persist_chat_message K now (received_entry mid cid name ln m bs p) (pt_save P C now (fst ?d) s)),
      fst ?d, Inr (Some (Ack mid)))"
    using assms(1,2)
    by (simp add: handle_chat_frame_def chat_message_already_saved_def store_incoming_def)
       (subst d(1), simp)
  moreover have "messages (mark_incoming_chat_message_accepted now mid
      (persist_chat_message K now (received_entry mid cid name ln m bs p) (pt_save P C now (fst ?d) s))) = messages s @ [message_to_row
        \<lparr>mr_message_id = mid, mr_conversation_id = cid, mr_sender_id = display_name_or_anonymous name,
         mr_recipient_id = display_name_or_anonymous ''you'', mr_direction = DirReceived, mr_status = StatusReceived,
         mr_protocol_counter = Some (rm_number m), mr_ciphertext = bs, mr_plaintext = Some p, mr_created_at = now\<rparr>]"
    using \<open>\<not> has_key mw_message_id mid (messages s)\<close>
    by (simp add: mark_incoming_chat_message_accepted_def accept_frame persist_chat_message_def received_entry_def
        entry_message_id_def messages_insert_message save_messages insert_or_ignore_def message_to_row_def)
  ultimately show ?thesis using that d(2) by (simp add: message_to_row_def)
qed

lemma prepare_frame:
  assumes "session e = Some ss" "ratchet_encrypt K p ss = (ss', Inr m)"
  obtains s' e' where "prepare_party_frame P K C now ln rn cid p existing e s =
      (s', e', Inr (outgoing_message_id K C cid m existing,
        cc_frame C (FrameMessage (outgoing_message_id K C cid m existing) ln m)))" "session e' = Some ss'"
    "pending_peer_messages s' = pending_peer_messages s"
proof -
  let ?d = "pt_encrypt P K p e"
  have d: "?d = (fst ?d, Inr m)" "session (fst ?d) = Some ss'"
    using send_session [OF assms(1), of K p] assms(2) by (auto simp: prod_eq_iff)
  show ?thesis
    by (rule that, subst prepare_party_frame_def, subst d(1), simp add: prepare_outgoing_frame_def Let_def)
       (simp_all add: d(2) persist_chat_message_def insert_message_def save_pending case_prod_unfold Let_def)
qed

text \<open>Typing lines sends one frame each, in the order of the sending chain.\<close>

lemma lines_sent:
  assumes K: "hkdf_total K" "aead_correct K"
    and "pc_online st" "session (pc_party st) = Some ss" "xk_public (rs_dh_keys ss) = pub"
    and "rs_send_chain_key ss = chain_at K ck i" "rs_send_count ss = of_nat i"
    and "\<forall>p \<in> set ps. p \<noteq> [] \<and> \<not> is_chat_back_command p" "map event_of evs = map Line ps"
  shows "\<exists>st' ss'. run_pairing_chat P K C target cx evs st =
      (st', map SendFrame (line_frames K C ck pub (pcc_conversation_id cx) (pcc_local_display_name cx) i ps), Continue)
    \<and> pc_online st' \<and> session (pc_party st') = Some ss' \<and> xk_public (rs_dh_keys ss') = pub
    \<and> rs_send_chain_key ss' = chain_at K ck (i + length ps) \<and> rs_send_count ss' = of_nat (i + length ps)"
  using assms(3-)
proof (induction ps arbitrary: st ss i evs)
  case (Cons p ps)
  let ?m = "sealed K ck pub i p" and ?cid = "pcc_conversation_id cx"
  let ?mid = "outgoing_message_id K C ?cid ?m None"
  obtain now random evs' where evs: "evs = (now, random, Line p) # evs'" "map event_of evs' = map Line ps"
    using Cons.prems(7) by (auto simp: event_of_split)
  obtain ss1 where ss1: "ratchet_encrypt K p ss = (ss1, Inr ?m)" "rs_send_chain_key ss1 = chain_at K ck (Suc i)"
      "rs_send_count ss1 = of_nat (Suc i)" "rs_dh_keys ss1 = rs_dh_keys ss"
    by (rule ratchet_encrypt_sealed [OF K Cons.prems(4,5), of p]) (simp add: Cons.prems(3))
  obtain s1 e1 where e1: "prepare_party_frame P K C now (pcc_local_display_name cx) (pcc_remote_display_name cx) ?cid p None
      (pc_party st) (pc_db st) = (s1, e1, Inr (?mid, cc_frame C (FrameMessage ?mid (pcc_local_display_name cx) ?m)))"
      "session e1 = Some ss1" by (rule prepare_frame [OF Cons.prems(2) ss1(1)])
  let ?st1 = "st\<lparr>pc_party := e1, pc_db := track_pending_chat_delivery K now ?cid ?mid p s1\<rparr>"
  have step: "pairing_chat_step P K C random now target cx (Line p) st =
      (?st1, [SendFrame (cc_frame C (FrameMessage ?mid (pcc_local_display_name cx) ?m))], Continue)"
    using Cons.prems(1,6) e1(1) by simp
  obtain st' ss' where rest: "run_pairing_chat P K C target cx evs' ?st1 =
      (st', map SendFrame (line_frames K C ck pub ?cid (pcc_local_display_name cx) (Suc i) ps), Continue)"
    "pc_online st'" "session (pc_party st') = Some ss'" "xk_public (rs_dh_keys ss') = pub"
    "rs_send_chain_key ss' = chain_at K ck (Suc i + length ps)" "rs_send_count ss' = of_nat (Suc i + length ps)"
    using Cons.IH [of ?st1 ss1 "Suc i" evs'] Cons.prems(1,3,6) e1(2) ss1(2,3,4) evs(2) by auto
  show ?case using rest
    by (intro exI [of _ st'] exI [of _ ss']) (simp add: evs(1) step line_id_def del: pairing_chat_step.simps)
qed simp

text \<open>Frames that carry a saved message are acknowledged and change nothing.\<close>

lemma saved_frames:
  assumes "\<forall>f \<in> set fs. \<exists>name m. cc_frame_decode C f = Some (FrameMessage (mid f) name m) \<and> message_exists (mid f) (pc_db st)"
    and "map event_of evs = map (frame_event target) fs"
  shows "run_pairing_chat P K C target cx evs st = (st, map (\<lambda>f. Respond (Ack (mid f))) fs, Continue)"
  using assms
proof (induction fs arbitrary: evs)
  case (Cons f fs)
  then obtain name m where f: "cc_frame_decode C f = Some (FrameMessage (mid f) name m)" "message_exists (mid f) (pc_db st)" by auto
  obtain now random evs' where evs: "evs = (now, random, frame_event target f) # evs'" "map event_of evs' = map (frame_event target) fs"
    using Cons.prems(2) by (auto simp: event_of_split)
  have "run_pairing_chat P K C target cx evs' st = (st, map (\<lambda>f. Respond (Ack (mid f))) fs, Continue)"
    by (rule Cons.IH [OF _ evs(2)]) (use Cons.prems(1) in simp)
  then show ?case by (simp add: evs(1) handle_party_app_event_def handle_saved [OF f] loop_of_def)
qed simp

text \<open>A frame that cannot be decrypted ends the chat.\<close>

lemma frame_refused:
  assumes "cc_frame_decode C f = Some (FrameMessage mid name m)" "\<not> message_exists mid (pc_db st)"
    and "session (pc_party st) = Some ss" "ratchet_decrypt K m ss = (ss', Inl err)"
  shows "\<exists>st'. pairing_chat_step P K C random now target cx (frame_event target f) st = (st', [], Failed (AppCrypto err))"
proof -
  have "snd (pt_decrypt P K m (pc_party st)) = Inl err" using receive_session [OF assms(3), of K m] assms(4) by simp
  then obtain e1 where "pt_decrypt P K m (pc_party st) = (e1, Inl err)" by (metis prod.collapse)
  then show ?thesis using assms(1,2)
    by (simp add: handle_party_app_event_def handle_chat_frame_def chat_message_already_saved_def store_incoming_def loop_of_def)
qed

text \<open>In-order frames, each delivered once or more often, are stored once each.\<close>

lemma frame_repeated:
  assumes "cc_frame_decode C f = Some (FrameMessage mid name m)" "\<not> message_exists mid (pc_db st)"
    and "session (pc_party st) = Some ss" "ratchet_decrypt K m ss = (ss', Inr p)"
    and "map event_of evs = replicate (Suc n) (frame_event target f)"
  obtains st' row where "run_pairing_chat P K C target cx evs st = (st', replicate (Suc n) (Respond (Ack mid)), Continue)"
    "session (pc_party st') = Some ss'" "messages (pc_db st') = messages (pc_db st) @ [row]" "mw_message_id row = mid"
    "mw_conversation_id row = pcc_conversation_id cx" "mw_plaintext row = Some p" "pc_online st' = pc_online st"
proof -
  obtain now random evs' where evs: "evs = (now, random, frame_event target f) # evs'"
    "map event_of evs' = map (frame_event target) (replicate n f)"
    using assms(5) by (auto simp: event_of_split)
  obtain s' e' row where h: "handle_chat_frame P K C now (pcc_local_display_name cx) (pcc_conversation_id cx) f (pc_party st) (pc_db st)
      = (s', e', Inr (Some (Ack mid)))" "session e' = Some ss'" "messages s' = messages (pc_db st) @ [row]"
      "mw_message_id row = mid" "mw_conversation_id row = pcc_conversation_id cx" "mw_plaintext row = Some p"
    by (rule handle_fresh [OF assms(1-4)])
  let ?st = "st\<lparr>pc_party := e', pc_db := s'\<rparr>"
  have step: "pairing_chat_step P K C random now target cx (frame_event target f) st = (?st, [Respond (Ack mid)], Continue)"
    by (simp add: handle_party_app_event_def h(1) loop_of_def)
  have "message_exists mid s'" using h(3,4) by (auto simp: message_exists_iff)
  then have rest: "run_pairing_chat P K C target cx evs' ?st = (?st, replicate n (Respond (Ack mid)), Continue)"
    using saved_frames [OF _ evs(2), of C "\<lambda>_. mid" ?st] assms(1) by (auto simp: map_replicate_const)
  show ?thesis
    by (rule that [of ?st row]) (use h rest in \<open>simp_all add: evs(1) step del: pairing_chat_step.simps\<close>)
qed

lemma frames_received:
  assumes K: "hkdf_total K" "aead_correct K" and C: "\<And>x. cc_frame_decode C (cc_frame C x) = Some x"
    and "receiving K ck i {} sb" "session (pc_party st) = Some sb" "rs_peer_public sb = pub"
    and "\<forall>p \<in> set ps. is_str p" "i + length ps < 2 ^ 64" "length ns = length ps"
    and "distinct (line_ids K C ck pub cid i ps)" "\<forall>mid \<in> set (line_ids K C ck pub cid i ps). \<not> message_exists mid (pc_db st)"
    and "map event_of evs = repeat_all (frame_event target) (line_frames K C ck pub cid ln i ps) ns"
  shows "\<exists>st' rows. run_pairing_chat P K C target cx evs st
      = (st', repeat_all (\<lambda>mid. Respond (Ack mid)) (line_ids K C ck pub cid i ps) ns, Continue)
    \<and> messages (pc_db st') = messages (pc_db st) @ rows \<and> map mw_message_id rows = line_ids K C ck pub cid i ps
    \<and> map mw_plaintext rows = map Some ps \<and> (\<forall>r \<in> set rows. mw_conversation_id r = pcc_conversation_id cx)"
  using assms(4-)
proof (induction ps arbitrary: i st sb ns evs)
  case (Cons p ps)
  obtain n ns' where ns: "ns = n # ns'" "length ns' = length ps" using Cons.prems(6) by (cases ns) auto
  let ?m = "sealed K ck pub i p" and ?mid = "line_id K C ck pub cid i p"
  obtain evs1 evs2 where evs: "evs = evs1 @ evs2"
    "map event_of evs1 = replicate (Suc n) (frame_event target (cc_frame C (FrameMessage ?mid ln ?m)))"
    "map event_of evs2 = repeat_all (frame_event target) (line_frames K C ck pub cid ln (Suc i) ps) ns'"
    by (rule event_of_append [OF Cons.prems(9) [unfolded ns(1) line_frames.simps repeat_all_Cons]])
  have "in_window i {} i" "next_window i {} i = (Suc i, {})" by (simp_all add: in_window_def next_window_def)
  then obtain sb1 where sb1: "ratchet_decrypt K ?m sb = (sb1, Inr p)" "receiving K ck (Suc i) {} sb1" "same_epoch sb sb1"
    using receiving_decrypt [OF K Cons.prems(1,3), of i p] Cons.prems(4,5) by auto
  obtain st1 row where st1: "run_pairing_chat P K C target cx evs1 st = (st1, replicate (Suc n) (Respond (Ack ?mid)), Continue)"
    "session (pc_party st1) = Some sb1" "messages (pc_db st1) = messages (pc_db st) @ [row]" "mw_message_id row = ?mid"
    "mw_conversation_id row = pcc_conversation_id cx" "mw_plaintext row = Some p"
    by (rule frame_repeated [OF C _ Cons.prems(2) sb1(1) evs(2)]) (use Cons.prems(8) in auto)
  have "\<forall>mid \<in> set (line_ids K C ck pub cid (Suc i) ps). \<not> message_exists mid (pc_db st1)"
    using Cons.prems(7,8) st1(3,4) by (auto simp: message_exists_iff)
  then obtain st' rows where rest: "run_pairing_chat P K C target cx evs2 st1
      = (st', repeat_all (\<lambda>mid. Respond (Ack mid)) (line_ids K C ck pub cid (Suc i) ps) ns', Continue)"
    "messages (pc_db st') = messages (pc_db st1) @ rows" "map mw_message_id rows = line_ids K C ck pub cid (Suc i) ps"
    "map mw_plaintext rows = map Some ps" "\<forall>r \<in> set rows. mw_conversation_id r = pcc_conversation_id cx"
    using Cons.IH [OF sb1(2) st1(2) _ _ _ ns(2) _ _ evs(3)] Cons.prems(3,4,5,7) sb1(3) by (auto simp: same_epoch_def)
  show ?case
    by (rule exI [of _ st'], rule exI [of _ "row # rows"])
       (use rest st1 ns(1) evs(1) run_chat_append [OF st1(1)] in simp)
qed (simp add: repeat_all_def)

text \<open>The queue of a conversation is sent in its order, from the next position of the chain.\<close>

lemma pending_sent:
  assumes "session e = Some ss" "snd (encrypt_all K (map pm_plaintext items) ss) = map Inr ms"
  shows "\<exists>s' e'. send_pending_loop P K C now ln cid items e s = (s', e', item_frames C ln items ms, Inr ())
    \<and> session e' = Some (fst (encrypt_all K (map pm_plaintext items) ss))"
  using assms
proof (induction items arbitrary: e s ss ms)
  case (Cons item items)
  obtain ss1 res where enc: "ratchet_encrypt K (pm_plaintext item) ss = (ss1, res)" by (cases "ratchet_encrypt K (pm_plaintext item) ss")
  with Cons.prems(2) obtain m ms' where ms: "ms = m # ms'" "res = Inr m" "snd (encrypt_all K (map pm_plaintext items) ss1) = map Inr ms'"
    by (cases ms) (auto simp: case_prod_unfold Let_def)
  obtain s1 e1 where e1: "prepare_party_frame P K C now ln ''peer'' cid (pm_plaintext item) (Some (pm_message_id item)) e
      (record_pending_peer_message_attempt (pm_message_id item) now s)
      = (s1, e1, Inr (pm_message_id item, cc_frame C (FrameMessage (pm_message_id item) ln m)))" "session e1 = Some ss1"
    by (rule prepare_frame [OF Cons.prems(1) enc [unfolded ms(2)], of C now ln "''peer''" cid "Some (pm_message_id item)"])
       (simp add: outgoing_message_id_def)
  obtain s' e' where "send_pending_loop P K C now ln cid items e1 s1 = (s', e', item_frames C ln items ms', Inr ())"
    "session e' = Some (fst (encrypt_all K (map pm_plaintext items) ss1))"
    using Cons.IH [OF e1(2) ms(3)] by blast
  then show ?case by (intro exI [of _ s'] exI [of _ e']) (simp add: e1(1) enc ms(1) item_frames_def case_prod_unfold Let_def)
qed (simp add: item_frames_def)

lemma queue_and_line_sent:
  assumes K: "hkdf_total K" "aead_correct K"
    and e: "session (pc_party st) = Some ss" "rs_send_chain_key ss = chain_at K ck i" "rs_send_count ss = of_nat i" "\<not> pc_online st"
    and items: "items = pending_peer_messages_for_peer (pcc_conversation_id cx) (pc_db st)"
    and ms: "snd (encrypt_all K (map pm_plaintext items) ss) = map Inr ms"
    and line: "line \<noteq> []" "\<not> is_chat_back_command line"
    and evs: "map event_of evs = [ConnectionEstablished target, Line line]"
  shows "\<exists>st'. run_pairing_chat P K C target cx evs st = (st', map SendFrame (item_frames C (pcc_local_display_name cx) items ms
      @ line_frames K C ck (xk_public (rs_dh_keys ss)) (pcc_conversation_id cx) (pcc_local_display_name cx) (i + length items) [line]), Continue)"
proof -
  let ?ln = "pcc_local_display_name cx" and ?cid = "pcc_conversation_id cx" and ?ss = "fst (encrypt_all K (map pm_plaintext items) ss)"
    and ?n = "i + length items"
  obtain now random now2 random2 where x: "evs = [(now, random, ConnectionEstablished target), (now2, random2, Line line)]"
    using evs by (auto simp: event_of_split)
  obtain s1 e1 where loop: "send_pending_loop P K C now ?ln ?cid items (pc_party st) (pc_db st) = (s1, e1, item_frames C ?ln items ms, Inr ())"
    "session e1 = Some ?ss" using pending_sent [OF e(1) ms] by blast
  let ?st1 = "\<lparr>pc_online = True, pc_party = e1, pc_db = s1\<rparr>"
  have step: "pairing_chat_step P K C random now target cx (ConnectionEstablished target) st =
      (?st1, map SendFrame (item_frames C ?ln items ms), Continue)"
    using e(4) loop(1) by (simp add: items [symmetric] loop_of_def)
  have pos: "rs_send_chain_key ?ss = chain_at K ck ?n" "rs_send_count ?ss = of_nat ?n" "xk_public (rs_dh_keys ?ss) = xk_public (rs_dh_keys ss)"
    using encrypt_all_position [OF K e(2,3), of "map pm_plaintext items"] by simp_all
  have "\<forall>p \<in> set [line]. p \<noteq> [] \<and> \<not> is_chat_back_command p" "map event_of [(now2, random2, Line line)] = map Line [line]"
    using line by (simp_all add: event_of_def)
  from lines_sent [OF K _ _ pos(3,1,2) this, of ?st1 C target cx] loop(2) obtain st' where
    "run_pairing_chat P K C target cx [(now2, random2, Line line)] ?st1 =
      (st', map SendFrame (line_frames K C ck (xk_public (rs_dh_keys ss)) ?cid ?ln ?n [line]), Continue)" by auto
  then show ?thesis by (auto simp: x step simp del: pairing_chat_step.simps line_frames.simps split: prod.splits)
qed

lemma resent_then_refused:
  assumes C: "\<And>x. cc_frame_decode C (cc_frame C x) = Some x"
    and saved: "\<forall>item \<in> set items. message_exists (pm_message_id item) (pc_db st)" "length ms = length items"
    and f: "\<not> message_exists mid (pc_db st)" "session (pc_party st) = Some ss" "ratchet_decrypt K m ss = (ss', Inl err)"
    and arr: "map event_of arrivals = map (frame_event target) (item_frames C ln items ms @ [cc_frame C (FrameMessage mid ln m)])"
  shows "\<exists>st'. run_pairing_chat P K C target cx arrivals st =
    (st', map (\<lambda>item. Respond (Ack (pm_message_id item))) items, Failed (AppCrypto err))"
proof -
  let ?f = "cc_frame C (FrameMessage mid ln m)" and ?frames = "item_frames C ln items ms"
  obtain a1 a2 where a12: "arrivals = a1 @ a2" "map event_of a1 = map (frame_event target) ?frames"
    "map event_of a2 = map (frame_event target) [?f]" by (rule event_of_append [OF arr [unfolded map_append]])
  then obtain now random where a: "arrivals = a1 @ [(now, random, frame_event target ?f)]" by (auto simp: event_of_split)
  have run1: "run_pairing_chat P K C target cx a1 st = (st, map (\<lambda>f. Respond (Ack (frame_id C f))) ?frames, Continue)"
    by (rule saved_frames [OF _ a12(2)]) (use saved(1) in \<open>auto simp: item_frames_def frame_id_def C dest: set_zip_leftD\<close>)
  have ids: "map (\<lambda>f. Respond (Ack (frame_id C f))) ?frames = map (\<lambda>item. Respond (Ack (pm_message_id item))) items"
    using saved(2) by (intro nth_equalityI) (simp_all add: item_frames_def frame_id_def C)
  have "\<exists>st'. pairing_chat_step P K C random now target cx (frame_event target ?f) st = (st', [], Failed (AppCrypto err))"
    by (rule frame_refused [OF C f])
  then show ?thesis using run_chat_append [OF run1, of "[(now, random, frame_event target ?f)]"]
    by (auto simp: a ids simp del: pairing_chat_step.simps)
qed

text \<open>No step but the acknowledgement takes a message off the queue, and no step loses the session.\<close>

lemma prepare_keeps:
  "prepare_party_frame P K C now ln rn cid p existing e s = (s', e', res) \<Longrightarrow>
     pending_peer_messages s' = pending_peer_messages s \<and> (session e \<noteq> None \<longrightarrow> session e' \<noteq> None)"
  using send_session [of e _ K p]
  by (auto simp: prepare_party_frame_def prepare_outgoing_frame_def Let_def save_pending split: prod.splits sum.splits)

lemma send_pending_keeps:
  "send_pending_loop P K C now ln cid items e s = (s', e', frames, res) \<Longrightarrow>
     (queued mid pid p s \<longrightarrow> queued mid pid p s') \<and> (session e \<noteq> None \<longrightarrow> session e' \<noteq> None)"
proof (induction items arbitrary: e s frames)
  case (Cons item items)
  let ?pre = "prepare_party_frame P K C now ln ''peer'' cid (pm_plaintext item) (Some (pm_message_id item)) e
      (record_pending_peer_message_attempt (pm_message_id item) now s)"
  obtain s1 e1 res1 where pre: "?pre = (s1, e1, res1)" by (cases ?pre)
  from prepare_keeps [OF pre] have 1: "queued mid pid p s \<longrightarrow> queued mid pid p s1" "session e \<noteq> None \<longrightarrow> session e1 \<noteq> None"
    by (auto simp: queued_cong [of s1] queued_attempt)
  show ?case
  proof (cases res1)
    case (Inl err)
    then show ?thesis using Cons.prems 1 by (simp add: pre)
  next
    case (Inr r)
    then show ?thesis using Cons.prems Cons.IH [of e1 s1] 1 by (auto simp: pre split: prod.splits)
  qed
qed simp

lemma decrypt_keeps: "pt_decrypt P K m e = (e', res) \<Longrightarrow> session e \<noteq> None \<longrightarrow> session e' \<noteq> None"
  using receive_session [of e _ K m] by auto

lemma handle_frame_keeps:
  "handle_chat_frame P K C now ln cid bs e s = (s', e', res) \<Longrightarrow>
     pending_peer_messages s' = pending_peer_messages s \<and> (session e \<noteq> None \<longrightarrow> session e' \<noteq> None)"
  by (auto simp: handle_chat_frame_def store_incoming_def save_pending dest: decrypt_keeps
      split: option.splits chat_frame.splits if_splits prod.splits sum.splits)

lemma app_event_keeps:
  assumes "handle_party_app_event P K C now target ln cid event e s = (s', e', res)"
  shows "(event \<noteq> EvResponse target (Ack mid) \<longrightarrow> queued mid pid p s \<longrightarrow> queued mid pid p s')
    \<and> (session e \<noteq> None \<longrightarrow> session e' \<noteq> None)"
proof -
  consider (frame) bs where "handle_chat_frame P K C now ln cid bs e s = (s', e', res)" | (same) "s' = s" "e' = e"
    | (ack) m where "event = EvResponse target (Ack m)" "s' = mark_delivered_if_pending m s" "e' = e"
    using assms by (auto simp: handle_party_app_event_def split: app_event.splits pairing_request.splits pairing_response.splits if_splits)
  then show ?thesis
  proof cases
    case frame
    then show ?thesis using handle_frame_keeps [OF frame] queued_cong [of s' s] by simp
  qed (auto intro: queued_delivered)
qed

lemma step_keeps:
  assumes "pairing_chat_step P K C random now target cx ev st = (st', acts, r)"
  shows "(ev \<noteq> AppEvent (EvResponse target (Ack mid)) \<longrightarrow> queued mid pid p (pc_db st) \<longrightarrow> queued mid pid p (pc_db st'))
    \<and> (session (pc_party st) \<noteq> None \<longrightarrow> session (pc_party st') \<noteq> None)"
proof (cases ev)
  case (Line line)
  let ?pre = "prepare_party_frame P K C now (pcc_local_display_name cx) (pcc_remote_display_name cx)
    (pcc_conversation_id cx) line None (pc_party st) (pc_db st)"
  obtain s1 e1 res1 where pre: "?pre = (s1, e1, res1)" by (cases ?pre)
  have k: "queued mid pid p (pc_db st) \<Longrightarrow> queued mid pid p s1" "session (pc_party st) \<noteq> None \<longrightarrow> session e1 \<noteq> None"
    using prepare_keeps [OF pre] queued_cong [of s1 "pc_db st" mid pid p] by simp_all
  have "pc_db st' = pc_db st \<or> pc_db st' = s1 \<or> (\<exists>m. pc_db st' = track_pending_chat_delivery K now (pcc_conversation_id cx) m line s1)
      \<or> pc_db st' = queue_message_after_peer_disconnect K random now (pcc_conversation_id cx) line (pc_db st)"
    "pc_party st' = pc_party st \<or> pc_party st' = e1"
    using assms by (cases res1; force simp: Line pre split: if_splits)+
  then show ?thesis using k queued_offline queued_queue unfolding track_pending_chat_delivery_def by metis
next
  case (AppEvent event)
  let ?h = "handle_party_app_event P K C now target (pcc_local_display_name cx) (pcc_conversation_id cx) event (pc_party st) (pc_db st)"
  obtain s1 e1 res1 where h: "?h = (s1, e1, res1)" by (cases ?h)
  then have "st' = st\<lparr>pc_party := e1, pc_db := s1\<rparr>" using assms by (simp add: AppEvent)
  then show ?thesis using app_event_keeps [OF h, of mid pid p] by (simp add: AppEvent)
next
  case (ConnectionEstablished peer)
  let ?l = "send_pending_loop P K C now (pcc_local_display_name cx) (pcc_conversation_id cx)
    (pending_peer_messages_for_peer (pcc_conversation_id cx) (pc_db st)) (pc_party st) (pc_db st)"
  obtain s1 e1 frames res1 where l: "?l = (s1, e1, frames, res1)" by (cases ?l)
  then have "st' = st \<or> st' = \<lparr>pc_online = True, pc_party = e1, pc_db = s1\<rparr>"
    using assms by (auto simp: ConnectionEstablished split: if_splits)
  then show ?thesis using send_pending_keeps [OF l, of mid pid p] by auto
qed (use assms in \<open>auto split: if_splits\<close>)

lemma run_keeps:
  assumes "run_pairing_chat P K C target cx evs st = (st', acts, r)"
    and "AppEvent (EvResponse target (Ack mid)) \<notin> event_of ` set evs" "queued mid pid p (pc_db st)" "session (pc_party st) \<noteq> None"
  shows "queued mid pid p (pc_db st') \<and> session (pc_party st') \<noteq> None"
  using assms
proof (induction evs arbitrary: st acts)
  case (Cons x evs)
  obtain now random ev where x: "x = (now, random, ev)" by (cases x)
  obtain st1 acts1 r1 where s: "pairing_chat_step P K C random now target cx ev st = (st1, acts1, r1)"
    by (cases "pairing_chat_step P K C random now target cx ev st")
  have "ev \<noteq> AppEvent (EvResponse target (Ack mid))" using Cons.prems(2) by (auto simp: x event_of_def)
  then have q: "queued mid pid p (pc_db st1)" "session (pc_party st1) \<noteq> None"
    using step_keeps [OF s, of mid pid p] Cons.prems(3,4) by simp_all
  show ?case
  proof (cases r1)
    case Continue
    obtain st2 acts2 r2 where rest: "run_pairing_chat P K C target cx evs st1 = (st2, acts2, r2)"
      by (cases "run_pairing_chat P K C target cx evs st1")
    then have "st2 = st'" "r2 = r" using Cons.prems(1) by (simp_all add: x s Continue)
    then show ?thesis using Cons.IH [OF rest [unfolded \<open>st2 = st'\<close> \<open>r2 = r\<close>] _ q] Cons.prems(2) by simp
  qed (use Cons.prems(1) q in \<open>auto simp: x s\<close>)
qed simp

end

interpretation alice_chat: chat_party al_session alice_party
proof -
  have "endpoint al_session (pt_encrypt alice_party) (pt_decrypt alice_party)"
    by (simp add: alice_party_def alice.endpoint_axioms)
  then show "chat_party al_session alice_party"
    by (rule chat_party.intro) (unfold_locales, simp_all add: alice_party_def save_alice_identity_def
        save_local_identity_def stmt_upsert_local_identity_def)
qed

interpretation bob_chat: chat_party bo_session bob_party
proof -
  have "endpoint bo_session (pt_encrypt bob_party) (pt_decrypt bob_party)"
    by (simp add: bob_party_def bob.endpoint_axioms)
  then show "chat_party bo_session bob_party"
    by (rule chat_party.intro) (unfold_locales, simp_all add: bob_party_def save_bob_identity_def
        save_local_identity_def stmt_upsert_local_identity_def)
qed

section \<open>Lines typed are lines stored\<close>

lemma map_frame_id:
  assumes "\<And>x. cc_frame_decode C (cc_frame C x) = Some x"
  shows "map (frame_id C) (line_frames K C ck pub cid ln i ps) = line_ids K C ck pub cid i ps"
  by (induction ps arbitrary: i) (simp_all add: frame_id_def assms)

lemma repeat_all_map: "repeat_all g (map h xs) ns = repeat_all (\<lambda>x. g (h x)) xs ns"
  by (simp add: repeat_all_def zip_map1 case_prod_unfold comp_def)

lemma lines_delivered:
  assumes "crypto_ok K" "chat_codec_ok C" "in_step K i sa sb"
    and "al_session (pc_party stA) = Some sa" "bo_session (pc_party stB) = Some sb" "pc_online stA"
    and "\<forall>p \<in> set ps. p \<noteq> [] \<and> is_str p \<and> \<not> is_chat_back_command p" "i + length ps < 2 ^ 64"
    and "map event_of typed = map Line ps"
    and "run_pairing_chat alice_party K C bob_peer cxA typed stA = (stA', acts, r)"
  shows "\<exists>frames. r = Continue \<and> acts = map SendFrame frames \<and> length frames = length ps
    \<and> (\<forall>copies arrivals. length copies = length ps
         \<and> map event_of arrivals = repeat_all (frame_event alice_peer) frames copies
         \<and> distinct (map (frame_id C) frames) \<and> (\<forall>f \<in> set frames. \<not> message_exists (frame_id C f) (pc_db stB))
       \<longrightarrow> (\<exists>stB' rows. run_pairing_chat bob_party K C alice_peer cxB arrivals stB
              = (stB', repeat_all (\<lambda>f. Respond (Ack (frame_id C f))) frames copies, Continue)
            \<and> messages (pc_db stB') = messages (pc_db stB) @ rows
            \<and> map mw_message_id rows = map (frame_id C) frames \<and> map mw_plaintext rows = map Some ps
            \<and> (\<forall>row \<in> set rows. mw_conversation_id row = pcc_conversation_id cxB)))"
proof -
  have K: "hkdf_total K" "aead_correct K" using assms(1) by (simp_all add: crypto_ok_def)
  have C: "cc_frame_decode C (cc_frame C x) = Some x" for x using assms(2) by (simp add: chat_codec_ok_def)
  let ?pub = "xk_public (rs_dh_keys sa)" and ?cid = "pcc_conversation_id cxA"
  obtain ck where link: "rs_send_chain_key sa = chain_at K ck i" "rs_send_count sa = of_nat i" "rs_peer_public sb = ?pub"
    "receiving K ck i {} sb" using assms(3) by (auto simp: in_step_def)
  let ?frames = "line_frames K C ck ?pub ?cid (pcc_local_display_name cxA) i ps"
  have lines: "\<forall>p \<in> set ps. p \<noteq> [] \<and> \<not> is_chat_back_command p" "\<forall>p \<in> set ps. is_str p" using assms(7) by auto
  have "r = Continue \<and> acts = map SendFrame ?frames"
    using alice_chat.lines_sent [OF K assms(6,4) refl link(1,2) lines(1) assms(9), of C bob_peer cxA] assms(10) by auto
  moreover have "\<exists>stB' rows. run_pairing_chat bob_party K C alice_peer cxB arrivals stB
        = (stB', repeat_all (\<lambda>f. Respond (Ack (frame_id C f))) ?frames copies, Continue)
      \<and> messages (pc_db stB') = messages (pc_db stB) @ rows
      \<and> map mw_message_id rows = map (frame_id C) ?frames \<and> map mw_plaintext rows = map Some ps
      \<and> (\<forall>row \<in> set rows. mw_conversation_id row = pcc_conversation_id cxB)"
    if *: "length copies = length ps" "map event_of arrivals = repeat_all (frame_event alice_peer) ?frames copies"
      "distinct (map (frame_id C) ?frames)" "\<forall>f \<in> set ?frames. \<not> message_exists (frame_id C f) (pc_db stB)" for copies arrivals
  proof -
    have ids: "map (frame_id C) ?frames = line_ids K C ck ?pub ?cid i ps" by (rule map_frame_id [OF C])
    have "\<forall>mid \<in> set (line_ids K C ck ?pub ?cid i ps). \<not> message_exists mid (pc_db stB)"
      using *(4) unfolding ids [symmetric] by simp
    then show ?thesis
      using bob_chat.frames_received [OF K C link(4) assms(5) link(3) lines(2) _ *(1) _ _ *(2), of cxB] assms(8) *(3)
      by (simp add: ids [symmetric] repeat_all_map)
  qed
  ultimately show ?thesis by (intro exI [of _ ?frames]) simp
qed

text \<open>
  C18: The lines one party types are sent as one frame each, and the other party, when each frame reaches
  it once or several times, answers every copy with an acknowledgement and stores every line exactly
  once, under the frame's identifier, with its text and in order.  The identifiers are assumed new to
  the receiver and free of hash collisions.
\<close>

theorem chat_lines_delivered:
  assumes "crypto_ok K" "chat_codec_ok C" "in_step K i sa sb"
    and "al_session (pc_party stA) = Some sa" "bo_session (pc_party stB) = Some sb" "pc_online stA"
    and "\<forall>p \<in> set ps. p \<noteq> [] \<and> is_str p \<and> \<not> is_chat_back_command p" "i + length ps < 2 ^ 64"
    and "map event_of typed = map Line ps"
    and "run_pairing_chat alice_party K C bob_peer cxA typed stA = (stA', acts, r)"
  shows "\<exists>frames. r = Continue \<and> acts = map SendFrame frames \<and> length frames = length ps
    \<and> (\<forall>copies arrivals. length copies = length ps
         \<and> map event_of arrivals = repeat_all (frame_event alice_peer) frames copies
         \<and> distinct (map (frame_id C) frames) \<and> (\<forall>f \<in> set frames. \<not> message_exists (frame_id C f) (pc_db stB))
       \<longrightarrow> (\<exists>stB' rows. run_pairing_chat bob_party K C alice_peer cxB arrivals stB
              = (stB', repeat_all (\<lambda>f. Respond (Ack (frame_id C f))) frames copies, Continue)
            \<and> messages (pc_db stB') = messages (pc_db stB) @ rows
            \<and> map mw_message_id rows = map (frame_id C) frames \<and> map mw_plaintext rows = map Some ps
            \<and> (\<forall>row \<in> set rows. mw_conversation_id row = pcc_conversation_id cxB)))"
  using assms by (rule lines_delivered)

definition toy_context :: pairing_chat_context where
  "toy_context = \<lparr>pcc_local_display_name = ''me'', pcc_remote_display_name = ''you'', pcc_conversation_id = ''c''\<rparr>"

definition toy_alice_chat :: "db \<Rightarrow> alice pairing_chat" where
  "toy_alice_chat s = \<lparr>pc_online = True, pc_party = (alice_local toy_crypto [5] [6])
     \<lparr>al_session := Some (toy_session RoleAlice [1] [2])\<rparr>, pc_db = s\<rparr>"

definition toy_bob_chat :: "db \<Rightarrow> bob pairing_chat" where
  "toy_bob_chat s = \<lparr>pc_online = True, pc_party = toy_bob\<lparr>bo_session := Some (toy_session RoleBob [2] [1])\<rparr>, pc_db = s\<rparr>"

lemma toy_chat [simp]:
  "al_session (pc_party (toy_alice_chat s)) = Some (toy_session RoleAlice [1] [2])" "pc_online (toy_alice_chat s)"
  "bo_session (pc_party (toy_bob_chat s)) = Some (toy_session RoleBob [2] [1])" "pc_online (toy_bob_chat s)"
  "pc_db (toy_alice_chat s) = s" "pc_db (toy_bob_chat s) = s"
  by (simp_all add: toy_alice_chat_def toy_bob_chat_def)

lemma toy_link: "fresh_link (toy_session RoleAlice [1] [2]) (toy_session RoleBob [2] [1])"
  by code_simp

theorem chat_lines_delivered_witness:
  "\<exists>stA' frame stB' row. run_pairing_chat alice_party toy_crypto toy_chat_codec ''B'' toy_context
        [(3, [], Line ''hi'')] (toy_alice_chat init_db) = (stA', [SendFrame frame], Continue)
     \<and> run_pairing_chat bob_party toy_crypto toy_chat_codec ''A'' toy_context
        [(4, [], frame_event ''A'' frame), (5, [], frame_event ''A'' frame)] (toy_bob_chat init_db)
       = (stB', [Respond (Ack (frame_id toy_chat_codec frame)), Respond (Ack (frame_id toy_chat_codec frame))], Continue)
     \<and> messages (pc_db stB') = [row] \<and> mw_plaintext row = Some ''hi''"
proof -
  let ?run = "run_pairing_chat alice_party toy_crypto toy_chat_codec ''B'' toy_context [(3, [], Line ''hi'')] (toy_alice_chat init_db)"
  obtain stA' acts r where run: "?run = (stA', acts, r)" by (cases ?run)
  have ps: "\<forall>p \<in> set [''hi'']. p \<noteq> [] \<and> is_str p \<and> \<not> is_chat_back_command p" by code_simp
  have ev: "map event_of [(3, [], Line ''hi'')] = map Line [''hi'']" by (simp add: event_of_def)
  note delivered = chat_lines_delivered [OF toy_crypto_ok toy_chat_codec_ok fresh_link_in_step [OF toy_link] toy_chat(1,3,2) ps _ ev run,
    where alice_peer = "''A''" and cxB = toy_context]
  obtain frames where f: "r = Continue" "acts = map SendFrame frames" "length frames = 1" and all:
    "\<forall>copies arrivals. length copies = length [''hi''] \<and> map event_of arrivals = repeat_all (frame_event ''A'') frames copies
         \<and> distinct (map (frame_id toy_chat_codec) frames)
         \<and> (\<forall>f \<in> set frames. \<not> message_exists (frame_id toy_chat_codec f) (pc_db (toy_bob_chat init_db)))
       \<longrightarrow> (\<exists>stB' rows. run_pairing_chat bob_party toy_crypto toy_chat_codec ''A'' toy_context arrivals (toy_bob_chat init_db)
              = (stB', repeat_all (\<lambda>f. Respond (Ack (frame_id toy_chat_codec f))) frames copies, Continue)
            \<and> messages (pc_db stB') = messages (pc_db (toy_bob_chat init_db)) @ rows
            \<and> map mw_message_id rows = map (frame_id toy_chat_codec) frames \<and> map mw_plaintext rows = map Some [''hi'']
            \<and> (\<forall>row \<in> set rows. mw_conversation_id row = pcc_conversation_id toy_context))"
    by (rule exE [OF delivered]) auto
  obtain frame where frame: "frames = [frame]" using f(3) by (auto simp: length_Suc_conv)
  have none: "messages init_db = []" "\<not> message_exists mid init_db" for mid by (simp_all add: message_exists_iff init_db_def)
  obtain stB' rows where "run_pairing_chat bob_party toy_crypto toy_chat_codec ''A'' toy_context
      [(4, [], frame_event ''A'' frame), (5, [], frame_event ''A'' frame)] (toy_bob_chat init_db)
      = (stB', repeat_all (\<lambda>f. Respond (Ack (frame_id toy_chat_codec f))) frames [1], Continue)"
    "messages (pc_db stB') = messages (pc_db (toy_bob_chat init_db)) @ rows" "map mw_plaintext rows = [Some ''hi'']"
    using all [rule_format, of "[1]" "[(4, [], frame_event ''A'' frame), (5, [], frame_event ''A'' frame)]"]
    by (auto simp: frame none repeat_all_def event_of_def simp del: run_pairing_chat.simps)
  then show ?thesis using run f by (auto simp: frame none repeat_all_def simp del: run_pairing_chat.simps)
qed

section \<open>Undelivered lines are sent again\<close>

text \<open>
  C19: On Alice's side, a line waiting in the queue of a conversation stays there through any events of the chat loop other
  than its acknowledgement by the peer, and when the peer comes back the whole queue is encrypted anew
  and sent, one frame per waiting line, in the order of the queue and under the same identifiers.
\<close>

theorem unacknowledged_line_resent:
  assumes "crypto_ok K" "al_session (pc_party st) \<noteq> None" "queued mid (pcc_conversation_id cx) p (pc_db st)"
    and "AppEvent (EvResponse target (Ack mid)) \<notin> event_of ` set evs"
    and "run_pairing_chat alice_party K C target cx evs st = (st', acts, r)" "\<not> pc_online st'"
    and "items = pending_peer_messages_for_peer (pcc_conversation_id cx) (pc_db st')"
  shows "\<exists>ss ms st''. al_session (pc_party st') = Some ss \<and> snd (encrypt_all K (map pm_plaintext items) ss) = map Inr ms
    \<and> pairing_chat_step alice_party K C random now target cx (ConnectionEstablished target) st' =
        (st'', map SendFrame (item_frames C (pcc_local_display_name cx) items ms), Continue)
    \<and> pc_online st'' \<and> (\<exists>item \<in> set items. pm_message_id item = mid \<and> pm_plaintext item = p)
    \<and> queued mid (pcc_conversation_id cx) p (pc_db st'')"
proof -
  have K: "hkdf_total K" "aead_correct K" using assms(1) by (simp_all add: crypto_ok_def)
  from alice_chat.run_keeps [OF assms(5,4,3,2)] obtain ss where q: "queued mid (pcc_conversation_id cx) p (pc_db st')"
    and ss: "al_session (pc_party st') = Some ss" by auto
  obtain ms where ms: "snd (encrypt_all K (map pm_plaintext items) ss) = map Inr ms"
    using encrypt_all_total [OF K] by blast
  obtain s'' e'' where loop: "send_pending_loop alice_party K C now (pcc_local_display_name cx) (pcc_conversation_id cx)
      items (pc_party st') (pc_db st') = (s'', e'', item_frames C (pcc_local_display_name cx) items ms, Inr ())"
    using alice_chat.pending_sent [OF ss ms] by blast
  have step: "pairing_chat_step alice_party K C random now target cx (ConnectionEstablished target) st' =
      (\<lparr>pc_online = True, pc_party = e'', pc_db = s''\<rparr>, map SendFrame (item_frames C (pcc_local_display_name cx) items ms), Continue)"
    using assms(6) loop by (simp add: assms(7) [symmetric] loop_of_def)
  moreover have "queued mid (pcc_conversation_id cx) p s''" using alice_chat.send_pending_keeps [OF loop] q by blast
  ultimately show ?thesis using ss ms q [unfolded queued_listed] assms(7) by auto
qed

definition toy_waiting :: pending_row where
  "toy_waiting = \<lparr>pw_message_id = ''m1'', pw_peer_id = ''c'', pw_conversation_id = ''c'', pw_plaintext = ''hi'',
     pw_created_at = 1, pw_retry_count = 0, pw_last_attempt = None\<rparr>"

theorem unacknowledged_line_resent_witness:
  "\<exists>ms st' st''. run_pairing_chat alice_party toy_crypto toy_chat_codec ''B'' toy_context [(3, [], ConnectionClosed ''B'' 0)]
        (toy_alice_chat (init_db\<lparr>pending_peer_messages := [toy_waiting]\<rparr>)) = (st', [Reconnect], Continue)
     \<and> pairing_chat_step alice_party toy_crypto toy_chat_codec [] 4 ''B'' toy_context (ConnectionEstablished ''B'') st' =
        (st'', map SendFrame (item_frames toy_chat_codec ''me'' [pending_peer_message_from_row toy_waiting] ms), Continue)
     \<and> length ms = 1 \<and> queued ''m1'' ''c'' ''hi'' (pc_db st'')"
proof -
  let ?st = "toy_alice_chat (init_db\<lparr>pending_peer_messages := [toy_waiting]\<rparr>)" and ?evs = "[(3, [], ConnectionClosed ''B'' 0)]"
  let ?st' = "?st\<lparr>pc_online := False\<rparr>" and ?items = "[pending_peer_message_from_row toy_waiting]"
  have run: "run_pairing_chat alice_party toy_crypto toy_chat_codec ''B'' toy_context ?evs ?st = (?st', [Reconnect], Continue)"
    by (simp add: peer_lost_all_connections_def)
  have q: "queued ''m1'' (pcc_conversation_id toy_context) ''hi'' (pc_db ?st)"
    by (simp add: queued_def toy_waiting_def toy_context_def)
  have noack: "AppEvent (EvResponse ''B'' (Ack ''m1'')) \<notin> event_of ` set ?evs" by (simp add: event_of_def)
  have items: "?items = pending_peer_messages_for_peer (pcc_conversation_id toy_context) (pc_db ?st')"
    by (simp add: pending_peer_messages_for_peer_def select_order_by_def toy_waiting_def toy_context_def)
  have "al_session (pc_party ?st) \<noteq> None" "\<not> pc_online ?st'" by simp_all
  from unacknowledged_line_resent [OF toy_crypto_ok this(1) q noack run this(2) items, of "[]" 4]
  obtain ss ms st'' where r: "snd (encrypt_all toy_crypto (map pm_plaintext ?items) ss) = map Inr ms"
    "pairing_chat_step alice_party toy_crypto toy_chat_codec [] 4 ''B'' toy_context (ConnectionEstablished ''B'') ?st' =
        (st'', map SendFrame (item_frames toy_chat_codec (pcc_local_display_name toy_context) ?items ms), Continue)"
    "queued ''m1'' (pcc_conversation_id toy_context) ''hi'' (pc_db st'')" by auto
  from arg_cong [OF r(1), of length] have "length ms = 1" by (simp add: case_prod_unfold Let_def)
  then show ?thesis using run r(2,3) by (auto simp: toy_context_def simp del: run_pairing_chat.simps pairing_chat_step.simps)
qed

text \<open>
  C20: Resending spends positions of the sending chain although the receiver, which has the messages
  already, acknowledges the frames without advancing its own chain.  When more than eight messages are
  sent again in this way, the next new line is too far ahead: the receiver's chat ends with
  \<^verbatim>\<open>TooManySkippedMessages\<close>.
\<close>

theorem retransmission_exhausts_window:
  assumes "crypto_ok K" "chat_codec_ok C" "in_step K i sa sb"
    and "al_session (pc_party stA) = Some sa" "bo_session (pc_party stB) = Some sb" "\<not> pc_online stA"
    and "items = pending_peer_messages_for_peer (pcc_conversation_id cxA) (pc_db stA)"
    and "MAX_SKIPPED_MESSAGE_KEYS < length items" "i + length items < 2 ^ 64"
    and "\<forall>item \<in> set items. message_exists (pm_message_id item) (pc_db stB)"
    and "line \<noteq> []" "\<not> is_chat_back_command line"
    and "snd (encrypt_all K (map pm_plaintext items @ [line]) sa) = map Inr (ms @ [m])"
    and "mid = outgoing_message_id K C (pcc_conversation_id cxA) m None" "\<not> message_exists mid (pc_db stB)"
    and "frames = item_frames C (pcc_local_display_name cxA) items ms @ [cc_frame C (FrameMessage mid (pcc_local_display_name cxA) m)]"
    and "map event_of evs = [ConnectionEstablished bob_peer, Line line]" "map event_of arrivals = map (frame_event alice_peer) frames"
  shows "\<exists>stA' stB'. run_pairing_chat alice_party K C bob_peer cxA evs stA = (stA', map SendFrame frames, Continue)
    \<and> run_pairing_chat bob_party K C alice_peer cxB arrivals stB =
        (stB', map (\<lambda>item. Respond (Ack (pm_message_id item))) items, Failed (AppCrypto TooManySkippedMessages))"
proof -
  have K: "hkdf_total K" "aead_correct K" using assms(1) by (simp_all add: crypto_ok_def)
  have C: "cc_frame_decode C (cc_frame C x) = Some x" for x using assms(2) by (simp add: chat_codec_ok_def)
  let ?pub = "xk_public (rs_dh_keys sa)" and ?n = "i + length items" and ?ps = "map pm_plaintext items"
  let ?ss = "fst (encrypt_all K ?ps sa)"
  obtain ck where link: "rs_send_chain_key sa = chain_at K ck i" "rs_send_count sa = of_nat i" "rs_peer_public sb = ?pub"
    "receiving K ck i {} sb" using assms(3) by (auto simp: in_step_def)
  have ms: "snd (encrypt_all K ?ps sa) = map Inr ms" "snd (ratchet_encrypt K line ?ss) = Inr m"
    using assms(13) by (simp_all add: encrypt_all_snoc)
  have lenms: "length ms = length items" using arg_cong [OF ms(1), of length] encrypt_all_sealed [OF K link(1,2), of ?ps] by simp
  have pos: "rs_send_chain_key ?ss = chain_at K ck ?n" "rs_send_count ?ss = of_nat ?n" "rs_dh_keys ?ss = rs_dh_keys sa"
    using encrypt_all_position [OF K link(1,2), of ?ps] by simp_all
  have m: "m = sealed K ck ?pub ?n line"
    by (rule ratchet_encrypt_sealed [OF K pos(1,2), of line]) (use ms(2) pos(3) in simp)
  have sent: "\<exists>stA'. run_pairing_chat alice_party K C bob_peer cxA evs stA = (stA', map SendFrame frames, Continue)"
    using alice_chat.queue_and_line_sent [OF K assms(4) link(1,2) assms(6,7) ms(1) assms(11,12,17), of C]
    by (simp add: assms(14,16) m line_id_def)
  obtain ss' where d: "ratchet_decrypt K m sb = (ss', Inl TooManySkippedMessages)"
    using receiving_overflow [OF K(1) link(4,3), of ?n line] assms(8,9) m by auto
  have received: "\<exists>stB'. run_pairing_chat bob_party K C alice_peer cxB arrivals stB =
      (stB', map (\<lambda>item. Respond (Ack (pm_message_id item))) items, Failed (AppCrypto TooManySkippedMessages))"
    by (rule bob_chat.resent_then_refused [OF C assms(10) lenms assms(15,5) d assms(18) [unfolded assms(16)]])
  show ?thesis using sent received by blast
qed

text \<open>Nine queued messages, all of them saved by the receiver.\<close>

definition toy_queue :: "pending_row list" where
  "toy_queue = map (\<lambda>n. toy_waiting\<lparr>pw_message_id := [char_of (n :: nat)]\<rparr>) [65..<74]"

definition toy_received :: "message_row list" where
  "toy_received = map (\<lambda>r. \<lparr>mw_message_id = pw_message_id r, mw_conversation_id = ''c'', mw_sender_id = ''a'', mw_recipient_id = ''you'',
     mw_direction = ''received'', mw_status = ''received'', mw_protocol_counter = None, mw_ciphertext = [],
     mw_plaintext = Some ''hi'', mw_created_at = 1\<rparr>) toy_queue"

theorem retransmission_exhausts_window_witness:
  "\<exists>frames stA' stB' acks. run_pairing_chat alice_party toy_crypto toy_chat_codec ''B'' toy_context
        [(3, [], ConnectionEstablished ''B''), (4, [], Line ''new'')]
        ((toy_alice_chat (init_db\<lparr>pending_peer_messages := toy_queue\<rparr>))\<lparr>pc_online := False\<rparr>) = (stA', map SendFrame frames, Continue)
     \<and> length frames = 10
     \<and> run_pairing_chat bob_party toy_crypto toy_chat_codec ''A'' toy_context (map (\<lambda>f. (5, [], frame_event ''A'' f)) frames)
          (toy_bob_chat (init_db\<lparr>messages := toy_received\<rparr>)) = (stB', acks, Failed (AppCrypto TooManySkippedMessages))"
proof -
  let ?sA = "init_db\<lparr>pending_peer_messages := toy_queue\<rparr>" and ?sB = "init_db\<lparr>messages := toy_received\<rparr>"
  let ?stA = "(toy_alice_chat ?sA)\<lparr>pc_online := False\<rparr>" and ?sa = "toy_session RoleAlice [1] [2]"
  define items where "items = pending_peer_messages_for_peer (pcc_conversation_id toy_context) (pc_db ?stA)"
  have peer: "\<forall>r \<in> set toy_queue. pw_peer_id r = pcc_conversation_id toy_context"
    by (simp add: toy_queue_def toy_waiting_def toy_context_def del: upt.simps upt_rec_numeral)
  have len: "length toy_queue = 9" by (simp add: toy_queue_def)
  have items: "length items = 9" "set items = pending_peer_message_from_row ` set toy_queue"
    using filter_True [OF peer] by (simp_all add: items_def pending_peer_messages_for_peer_def select_order_by_def len)
  have saved: "\<forall>item \<in> set items. message_exists (pm_message_id item) (pc_db (toy_bob_chat ?sB))"
    by (simp add: items(2) pending_peer_message_from_row_def message_exists_iff toy_received_def image_image)
  have K: "hkdf_total toy_crypto" "aead_correct toy_crypto" using toy_crypto_ok by (simp_all add: crypto_ok_def)
  obtain ms' where ms': "snd (encrypt_all toy_crypto (map pm_plaintext items @ [''new'']) ?sa) = map Inr ms'" "length ms' = 10"
    using encrypt_all_total [OF K, of "map pm_plaintext items @ [''new'']" ?sa] items(1) by auto
  then obtain ms m where ms: "ms' = ms @ [m]" by (cases ms' rule: rev_cases) auto
  define mid where "mid = outgoing_message_id toy_crypto toy_chat_codec (pcc_conversation_id toy_context) m None"
  have "length mid = 32"
    by (simp add: mid_def outgoing_message_id_def chat_message_id_def hex_encode_def toy_crypto_def length_concat comp_def
        sum_list_replicate hex_byte_def)
  then have fresh: "\<not> message_exists mid (pc_db (toy_bob_chat ?sB))"
    by (auto simp: message_exists_iff toy_received_def toy_queue_def simp del: upt_rec_numeral)
  have line: "''new'' \<noteq> []" "\<not> is_chat_back_command ''new''" by (simp, code_simp)
  let ?frames = "item_frames toy_chat_codec (pcc_local_display_name toy_context) items ms
    @ [cc_frame toy_chat_codec (FrameMessage mid (pcc_local_display_name toy_context) m)]"
  have len: "MAX_SKIPPED_MESSAGE_KEYS < length items" "0 + length items < 2 ^ 64" "length ?frames = 10"
    using items(1) ms'(2) ms by (simp_all add: MAX_SKIPPED_MESSAGE_KEYS_def item_frames_def)
  have sess: "al_session (pc_party ?stA) = Some ?sa" "\<not> pc_online ?stA" by simp_all
  have ev: "map event_of [(3, [], ConnectionEstablished ''B''), (4, [], Line ''new'')] = [ConnectionEstablished ''B'', Line ''new'']"
    "map event_of (map (\<lambda>f. (5, [], frame_event ''A'' f)) ?frames) = map (frame_event ''A'') ?frames"
    by (simp_all add: event_of_def)
  from retransmission_exhausts_window [OF toy_crypto_ok toy_chat_codec_ok fresh_link_in_step [OF toy_link] sess(1) toy_chat(3) sess(2) items_def len(1,2) saved line
      ms'(1) [unfolded ms] mid_def fresh refl ev, of toy_context] len(3) show ?thesis by blast
qed

end
