(* ===== verification/Pairing.thy ===== *)
theory Pairing
  imports ChatProps
begin

text \<open>
  Pairing through the public service (\<^verbatim>\<open>run_create_invite_at\<close>, \<^verbatim>\<open>run_join_invite_at\<close> and
  \<^verbatim>\<open>wait_for_join_ack_and_chat\<close> of \<^verbatim>\<open>src/src/pairing.rs\<close>): the event loops of the inviting and of the
  joining side as step functions.  The swarm is the source of the events and takes the actions; that
  it refuses to dial or to listen is left out, and so is logging.
\<close>

section \<open>Errors, timers, events\<close>

fun contains :: "string \<Rightarrow> string \<Rightarrow> bool" where
  "contains [] pattern \<longleftrightarrow> pattern = []"
| "contains (c # cs) pattern \<longleftrightarrow> take (length pattern) (c # cs) = pattern \<or> contains cs pattern"

definition human_service_error :: "string \<Rightarrow> string" where
  "human_service_error error =
     (if contains error ''invalid'' \<or> contains error ''expired'' \<or> contains error ''used''
      then ''Invite is invalid, expired, or already used.''
      else ''Pairing service is temporarily unavailable. Please try again.'')"

text \<open>Durations and points in time are milliseconds since the loop began.\<close>

definition DISCOVERY_TIMEOUT :: nat where
  "DISCOVERY_TIMEOUT = 30000"

definition DIRECT_DIAL_GRACE :: nat where
  "DIRECT_DIAL_GRACE = 3000"

text \<open>
  The events both loops wait for.  A timer event is the completion of a \<^verbatim>\<open>sleep\<close>; it counts only
  when its branch of the \<^verbatim>\<open>select!\<close> is enabled and its deadline has passed.
\<close>

datatype pairing_event =
    SetupTimer | InviteTimer | PairingTimer | FallbackTimer
  | NewListenAddr multiaddr
  | OwnRelayListenerClosed
  | ReservationReqAccepted peer_id bool
  | Established peer_id bool
  | OutgoingConnectionError "peer_id option"
  | PairingApp app_event
  | MdnsDiscovered "(peer_id \<times> multiaddr) list"
  | IdentifyReceived peer_id "multiaddr list"
  | OtherPairingEvent

datatype pairing_action =
    SendRequest peer_id pairing_request
  | SendResponse pairing_response
  | AddExternalAddress multiaddr
  | AddPeerAddress peer_id multiaddr
  | DialPeer peer_id
  | DialMultiaddr multiaddr
  | ListenOn multiaddr

text \<open>What a step leads to; \<open>AwaitAck\<close> and \<open>Paired\<close> are the calls that end the loop.\<close>

datatype pairing_outcome =
    Pending
  | Aborted app_error
  | AwaitAck peer_id string string
  | Paired peer_id pairing_chat_context

text \<open>What a step draws from outside: the clock, the time since the loop began, fresh private keys, failing statements.\<close>

record step_env =
  se_now :: u64
  se_elapsed :: nat
  se_private :: bytes
  se_fails :: "nat \<Rightarrow> bool"

definition add_sanitized_peer_addresses :: "peer_id \<Rightarrow> multiaddr list \<Rightarrow> pairing_action list" where
  "add_sanitized_peer_addresses peer addresses = map (AddPeerAddress peer) (List.map_filter sanitize_direct_address addresses)"

definition dial_target_through_relay :: "multiaddr \<Rightarrow> peer_id \<Rightarrow> pairing_action" where
  "dial_target_through_relay service_addr target = DialMultiaddr (service_addr @ [P2pCircuit, P2p target])"

definition send_invite_registration :: "peer_id \<Rightarrow> string \<Rightarrow> u64 \<Rightarrow> string list \<Rightarrow> pairing_action" where
  "send_invite_registration service_peer_id code_hash expires_at direct_addresses =
     SendRequest service_peer_id (RegisterInvite code_hash expires_at direct_addresses)"

text \<open>\<open>lan\<close> is the result of \<^verbatim>\<open>lan_ip_candidate\<close>; without a candidate no direct listener is pending.\<close>

definition listen_for_direct_connections :: "ip_addr option \<Rightarrow> pairing_action list \<times> bool" where
  "listen_for_direct_connections lan = (case lan of
     None \<Rightarrow> ([], False)
   | Some (IpV4 ip) \<Rightarrow> ([ListenOn [Ip4 ip, Tcp 0]], True)
   | Some (IpV6 ip) \<Rightarrow> ([ListenOn [Ip6 ip, Tcp 0]], True))"

text \<open>\<open>encode\<close> and \<open>decode\<close> are the protobuf encoding of libp2p key pairs, \<open>fresh\<close> a generated pair.\<close>

definition load_or_create_libp2p_identity ::
    "('k \<Rightarrow> bytes) \<Rightarrow> (bytes \<Rightarrow> 'k option) \<Rightarrow> 'k \<Rightarrow> u64 \<Rightarrow> db \<Rightarrow> db \<times> (app_error + 'k)" where
  "load_or_create_libp2p_identity encode decode fresh now s = (case load_local_identity ''libp2p-installation'' s of
     Some key_bytes \<Rightarrow> (s, ok_or (decode key_bytes) AppCodec)
   | None \<Rightarrow> (save_local_identity ''libp2p-installation'' ''libp2p'' (encode fresh) now s, Inr fresh))"

section \<open>Accepting an initial message\<close>

text \<open>\<^verbatim>\<open>hint\<close> tells how the peer was reached.\<close>

definition accept_initial_message ::
    "crypto \<Rightarrow> chat_codec \<Rightarrow> (nat \<Rightarrow> bool) \<Rightarrow> u64 \<Rightarrow> string \<Rightarrow> string \<Rightarrow> bytes \<Rightarrow> bob \<Rightarrow> db
      \<Rightarrow> db \<times> bob \<times> (app_error + string \<times> string)" where
  "accept_initial_message K C fails now local_display_name hint payload b s =
     (case decode_chat_initial_message C payload of
        Inl e \<Rightarrow> (s, b, Inl e)
      | Inr initial \<Rightarrow>
          (case decrypt_initial_message K (cim_message initial) b of
             (b1, Inl e) \<Rightarrow> (s, b1, Inl (AppCrypto e))
           | (b1, Inr plaintext) \<Rightarrow>
               (let remote_display_name = cim_sender_display_name initial;
                    s1 = save_bob_identity C now b1 s;
                    conversation_id = (case cim_sender_identity_public_key initial of
                      Some key \<Rightarrow> contact_id_for_identity K key
                    | None \<Rightarrow> contact_id_for_display_name K remote_display_name)
                in case save_contact_for_chat K fails now conversation_id remote_display_name
                          (case cim_sender_identity_public_key initial of
                             Some key \<Rightarrow> key | None \<Rightarrow> as_bytes ''legacy display-name contact'') hint s1 of
                     (s2, Inl e) \<Rightarrow> (s2, b1, Inl e)
                   | (s2, Inr _) \<Rightarrow>
                       (if plaintext = [] then s2
                        else persist_chat_message K now
                          \<lparr>che_message_id = None, che_conversation_id = conversation_id,
                           che_sender_display_name = remote_display_name, che_peer_display_name = local_display_name,
                           che_direction = DirReceived, che_status = StatusReceived, che_protocol_counter = None,
                           che_ciphertext = payload, che_plaintext = plaintext\<rparr> s2,
                        b1, Inr (remote_display_name, conversation_id)))))"

definition publish_prekey_bundle ::
    "crypto \<Rightarrow> chat_codec \<Rightarrow> bytes \<Rightarrow> u64 \<Rightarrow> string \<Rightarrow> bob \<Rightarrow> bob \<times> (app_error + bytes)" where
  "publish_prekey_bundle K C private now local_display_name b =
     (let b1 = replenish_one_time_prekey K private now b
      in case bob_prekey_bundle K b1 of
           Inl e \<Rightarrow> (b1, Inl (AppCrypto e))
         | Inr bundle \<Rightarrow> (b1, Inr (cc_prekey C \<lparr>cpb_sender_display_name = local_display_name, cpb_bundle = bundle\<rparr>)))"

section \<open>The inviting side\<close>

record invite_config =
  ic_local_display_name :: string
  ic_service_addr :: multiaddr
  ic_service_peer_id :: peer_id
  ic_code_hash :: string
  ic_expires_at :: u64

text \<open>
  What \<^verbatim>\<open>run_create_invite_at\<close> prepares: the code it will print and the constants of its loop.
  \<open>random\<close> are the random bytes of the code.
\<close>

definition create_invite_config ::
    "crypto \<Rightarrow> string \<Rightarrow> multiaddr \<Rightarrow> u64 \<Rightarrow> bytes option \<Rightarrow> app_error + string \<times> invite_config" where
  "create_invite_config K local_display_name service_addr now random =
     and_then (peer_id_from_service_addr service_addr) (\<lambda>service_peer_id.
     and_then (generate_invite_code random) (\<lambda>code.
       Inr (code, \<lparr>ic_local_display_name = local_display_name, ic_service_addr = service_addr,
         ic_service_peer_id = service_peer_id, ic_code_hash = invite_code_hash K code,
         ic_expires_at = now + INVITE_TTL_SECS\<rparr>)))"

record create_invite =
  ci_registered :: bool
  ci_registration_sent :: bool
  ci_reservation_confirmed :: bool
  ci_direct_listener_ready :: bool
  ci_direct_addresses :: "string list"
  ci_bob :: bob
  ci_db :: db

definition create_invite_start :: "ip_addr option \<Rightarrow> invite_config \<Rightarrow> bob \<Rightarrow> db \<Rightarrow> create_invite \<times> pairing_action list" where
  "create_invite_start lan cf b s =
     (let (listening, direct_listener_pending) = listen_for_direct_connections lan
      in (\<lparr>ci_registered = False, ci_registration_sent = False, ci_reservation_confirmed = False,
           ci_direct_listener_ready = (\<not> direct_listener_pending), ci_direct_addresses = [], ci_bob = b, ci_db = s\<rparr>,
          listening @ [ListenOn (ic_service_addr cf @ [P2pCircuit])]))"

definition create_invite_listening ::
    "addr_text \<Rightarrow> ip_addr option \<Rightarrow> invite_config \<Rightarrow> multiaddr \<Rightarrow> create_invite \<Rightarrow> create_invite \<times> pairing_action list" where
  "create_invite_listening A lan cf address st =
     (if P2pCircuit \<in> set address then (st, [])
      else (case direct_address_from_listener lan address of
        None \<Rightarrow> (st, [])
      | Some direct \<Rightarrow>
          (let rendered = at_show A direct;
               addresses = (if rendered \<in> set (ci_direct_addresses st) then ci_direct_addresses st
                            else ci_direct_addresses st @ [rendered]);
               st1 = st\<lparr>ci_direct_addresses := addresses, ci_direct_listener_ready := True\<rparr>
           in if ci_reservation_confirmed st \<and> \<not> ci_registration_sent st
              then (st1\<lparr>ci_registration_sent := True\<rparr>,
                    [AddExternalAddress direct, send_invite_registration (ic_service_peer_id cf) (ic_code_hash cf)
                       (ic_expires_at cf) addresses])
              else (st1, [AddExternalAddress direct]))))"

definition create_invite_reserved ::
    "invite_config \<Rightarrow> bool \<Rightarrow> create_invite \<Rightarrow> create_invite \<times> pairing_action list" where
  "create_invite_reserved cf renewal st =
     (let st1 = st\<lparr>ci_reservation_confirmed := True\<rparr>
      in if \<not> ci_registered st \<and> \<not> ci_registration_sent st \<and> \<not> renewal \<and> ci_direct_listener_ready st
         then (st1\<lparr>ci_registration_sent := True\<rparr>,
               [send_invite_registration (ic_service_peer_id cf) (ic_code_hash cf) (ic_expires_at cf) (ci_direct_addresses st)])
         else (st1, []))"

definition create_invite_request ::
    "crypto \<Rightarrow> chat_codec \<Rightarrow> step_env \<Rightarrow> invite_config \<Rightarrow> peer_id \<Rightarrow> pairing_request \<Rightarrow> create_invite
      \<Rightarrow> create_invite \<times> pairing_action list \<times> pairing_outcome" where
  "create_invite_request K C env cf peer request st = (case request of
     PreKeyBundleRequest \<Rightarrow>
       (case publish_prekey_bundle K C (se_private env) (se_now env) (ic_local_display_name cf) (ci_bob st) of
          (b1, Inl e) \<Rightarrow> (st\<lparr>ci_bob := b1\<rparr>, [], Aborted e)
        | (b1, Inr payload) \<Rightarrow> (st\<lparr>ci_bob := b1, ci_db := save_bob_identity C (se_now env) b1 (ci_db st)\<rparr>,
             [SendResponse (PreKeyBundleResponse payload)], Pending))
   | InitialMessageRequest payload \<Rightarrow>
       (case accept_initial_message K C (se_fails env) (se_now env) (ic_local_display_name cf) ''automatic direct/relay''
               payload (ci_bob st) (ci_db st) of
          (s1, b1, Inl e) \<Rightarrow> (st\<lparr>ci_bob := b1, ci_db := s1\<rparr>, [], Aborted e)
        | (s1, b1, Inr (remote_display_name, conversation_id)) \<Rightarrow>
            (st\<lparr>ci_bob := b1, ci_db := s1\<rparr>, [SendResponse (Ack ''paired'')],
             Paired peer \<lparr>pcc_local_display_name = ic_local_display_name cf,
               pcc_remote_display_name = remote_display_name, pcc_conversation_id = conversation_id\<rparr>))
   | _ \<Rightarrow> (st, [SendResponse (PairingError ''pairing has not completed'')], Pending))"

fun create_invite_step ::
    "crypto \<Rightarrow> chat_codec \<Rightarrow> addr_text \<Rightarrow> ip_addr option \<Rightarrow> invite_config \<Rightarrow> step_env \<Rightarrow> pairing_event \<Rightarrow> create_invite
      \<Rightarrow> create_invite \<times> pairing_action list \<times> pairing_outcome" where
  "create_invite_step K C A lan cf env SetupTimer st =
     (st, [], if \<not> ci_registered st \<and> DISCOVERY_TIMEOUT \<le> se_elapsed env
              then Aborted (AppMessage ''Pairing service is unavailable. Please try again.'') else Pending)"
| "create_invite_step K C A lan cf env InviteTimer st =
     (st, [], if ci_registered st \<and> unat INVITE_TTL_SECS * 1000 \<le> se_elapsed env
              then Aborted (AppMessage ''Invite expired. Please create a new invite.'') else Pending)"
| "create_invite_step K C A lan cf env (NewListenAddr address) st =
     (case create_invite_listening A lan cf address st of (st1, acts) \<Rightarrow> (st1, acts, Pending))"
| "create_invite_step K C A lan cf env OwnRelayListenerClosed st =
     (st\<lparr>ci_reservation_confirmed := False, ci_registration_sent := False, ci_registered := False\<rparr>,
      [ListenOn (ic_service_addr cf @ [P2pCircuit])], Pending)"
| "create_invite_step K C A lan cf env (ReservationReqAccepted relay renewal) st =
     (if relay = ic_service_peer_id cf
      then (case create_invite_reserved cf renewal st of (st1, acts) \<Rightarrow> (st1, acts, Pending)) else (st, [], Pending))"
| "create_invite_step K C A lan cf env (PairingApp (EvResponse peer response)) st =
     (if peer = ic_service_peer_id cf
      then (case response of
              Registered \<Rightarrow> (st\<lparr>ci_registered := True\<rparr>, [], Pending)
            | PairingError error \<Rightarrow> (st, [], Aborted (AppMessage (human_service_error error)))
            | _ \<Rightarrow> (st, [], Pending))
      else (st, [], Pending))"
| "create_invite_step K C A lan cf env (PairingApp (EvRequest peer request)) st =
     (if ci_registered st \<and> peer \<noteq> ic_service_peer_id cf then create_invite_request K C env cf peer request st
      else (st, [], Pending))"
| "create_invite_step K C A lan cf env (MdnsDiscovered peers) st =
     (st, concat (map (\<lambda>(peer, address). add_sanitized_peer_addresses peer [address]) peers), Pending)"
| "create_invite_step K C A lan cf env (IdentifyReceived peer addresses) st =
     (st, add_sanitized_peer_addresses peer addresses, Pending)"
| "create_invite_step K C A lan cf env _ st = (st, [], Pending)"

section \<open>The joining side\<close>

record join_config =
  jc_local_display_name :: string
  jc_service_addr :: multiaddr
  jc_service_peer_id :: peer_id
  jc_code_hash :: string

text \<open>\<^verbatim>\<open>run_join_invite\<close> normalises the typed code before the loop of \<^verbatim>\<open>run_join_invite_at\<close> is prepared.\<close>

definition join_invite_config :: "crypto \<Rightarrow> string \<Rightarrow> string \<Rightarrow> multiaddr \<Rightarrow> app_error + join_config" where
  "join_invite_config K typed local_display_name service_addr =
     and_then (normalize_invite_code typed) (\<lambda>code.
     and_then (peer_id_from_service_addr service_addr) (\<lambda>service_peer_id.
       Inr \<lparr>jc_local_display_name = local_display_name, jc_service_addr = service_addr,
         jc_service_peer_id = service_peer_id, jc_code_hash = invite_code_hash K code\<rparr>))"

record join_invite =
  ji_lookup_sent :: bool
  ji_target_peer_id :: "peer_id option"
  ji_requested_bundle :: bool
  ji_relay_started :: bool
  ji_fallback_at :: "nat option"
  ji_alice :: alice
  ji_db :: db

definition join_invite_start :: "ip_addr option \<Rightarrow> join_config \<Rightarrow> alice \<Rightarrow> db \<Rightarrow> join_invite \<times> pairing_action list" where
  "join_invite_start lan cf a s =
     (\<lparr>ji_lookup_sent = False, ji_target_peer_id = None, ji_requested_bundle = False, ji_relay_started = False,
       ji_fallback_at = None, ji_alice = a, ji_db = s\<rparr>,
      fst (listen_for_direct_connections lan) @ [DialMultiaddr (jc_service_addr cf)])"

text \<open>
  \<open>parse_peer\<close> is the parser of peer ids.  The sanitised addresses of the answer are parsed again before
  they are added; an address whose text does not parse ends the loop.
\<close>

definition join_addresses :: "addr_text \<Rightarrow> string list \<Rightarrow> multiaddr option list" where
  "join_addresses A addresses = map (at_parse A) (List.map_filter (sanitize_direct_address_text A) addresses)"

definition join_invite_resolved ::
    "addr_text \<Rightarrow> (string \<Rightarrow> peer_id option) \<Rightarrow> join_config \<Rightarrow> step_env \<Rightarrow> string \<Rightarrow> string list \<Rightarrow> join_invite
      \<Rightarrow> join_invite \<times> pairing_action list \<times> pairing_outcome" where
  "join_invite_resolved A parse_peer cf env peer_text direct_addresses st = (case parse_peer peer_text of
     None \<Rightarrow> (st, [], Aborted (AppMessage ''service returned an invalid peer''))
   | Some target \<Rightarrow>
       (let st1 = st\<lparr>ji_target_peer_id := Some target\<rparr>; addresses = join_addresses A direct_addresses;
            added = map (\<lambda>a. AddPeerAddress target (the a)) (takeWhile (\<lambda>a. a \<noteq> None) addresses)
        in if None \<in> set addresses then (st1, added, Aborted AppCodec)
           else if addresses \<noteq> []
           then (st1\<lparr>ji_fallback_at := Some (se_elapsed env + DIRECT_DIAL_GRACE)\<rparr>, added @ [DialPeer target], Pending)
           else (st1\<lparr>ji_relay_started := True\<rparr>, [dial_target_through_relay (jc_service_addr cf) target], Pending)))"

definition relay_fallback :: "join_config \<Rightarrow> join_invite \<Rightarrow> join_invite \<times> pairing_action list" where
  "relay_fallback cf st = (case ji_target_peer_id st of
     None \<Rightarrow> (st, [])
   | Some target \<Rightarrow> (st\<lparr>ji_relay_started := True, ji_fallback_at := None\<rparr>,
       [dial_target_through_relay (jc_service_addr cf) target]))"

definition join_invite_bundle ::
    "crypto \<Rightarrow> chat_codec \<Rightarrow> step_env \<Rightarrow> join_config \<Rightarrow> peer_id \<Rightarrow> bytes \<Rightarrow> join_invite
      \<Rightarrow> join_invite \<times> pairing_action list \<times> pairing_outcome" where
  "join_invite_bundle K C env cf peer payload st = (case decode_chat_prekey_bundle C payload of
     Inl e \<Rightarrow> (st, [], Aborted e)
   | Inr (remote_display_name, bundle) \<Rightarrow>
       (let conversation_id = contact_id_for_identity K (pb_identity_public_key bundle)
        in case save_contact_for_chat K (se_fails env) (se_now env) conversation_id remote_display_name
                  (pb_identity_public_key bundle) ''automatic direct/relay'' (ji_db st) of
             (s1, Inl e) \<Rightarrow> (st\<lparr>ji_db := s1\<rparr>, [], Aborted e)
           | (s1, Inr _) \<Rightarrow>
               (case encrypt_initial_message K (se_private env) bundle [] (ji_alice st) of
                  (a1, Inl e) \<Rightarrow> (st\<lparr>ji_db := s1, ji_alice := a1\<rparr>, [], Aborted (AppCrypto e))
                | (a1, Inr initial) \<Rightarrow>
                    (st\<lparr>ji_db := save_alice_identity C (se_now env) a1 s1, ji_alice := a1\<rparr>,
                     [SendRequest peer (InitialMessageRequest (cc_chat_initial C
                        \<lparr>cim_sender_display_name = jc_local_display_name cf,
                         cim_sender_identity_public_key = Some (ske_identity_public_key (alice_signed_key_exchange K a1)),
                         cim_message = initial\<rparr>))],
                     AwaitAck peer remote_display_name conversation_id))))"

definition join_invite_response ::
    "crypto \<Rightarrow> chat_codec \<Rightarrow> addr_text \<Rightarrow> (string \<Rightarrow> peer_id option) \<Rightarrow> step_env \<Rightarrow> join_config \<Rightarrow> peer_id \<Rightarrow> pairing_response
      \<Rightarrow> join_invite \<Rightarrow> join_invite \<times> pairing_action list \<times> pairing_outcome" where
  "join_invite_response K C A parse_peer env cf peer response st =
     (if peer = jc_service_peer_id cf
      then (case response of
              Resolved peer_text direct_addresses \<Rightarrow> join_invite_resolved A parse_peer cf env peer_text direct_addresses st
            | PairingError error \<Rightarrow> (st, [], Aborted (AppMessage (human_service_error error)))
            | _ \<Rightarrow> (st, [], Pending))
      else if Some peer = ji_target_peer_id st
      then (case response of
              PreKeyBundleResponse payload \<Rightarrow> join_invite_bundle K C env cf peer payload st
            | PairingError error \<Rightarrow> (st, [], Aborted (AppMessage (human_service_error error)))
            | _ \<Rightarrow> (st, [], Pending))
      else (st, [], Pending))"

definition join_invite_connected :: "join_config \<Rightarrow> peer_id \<Rightarrow> bool \<Rightarrow> join_invite \<Rightarrow> join_invite \<times> pairing_action list" where
  "join_invite_connected cf peer relayed st =
     (if peer = jc_service_peer_id cf \<and> \<not> relayed \<and> \<not> ji_lookup_sent st
      then (st\<lparr>ji_lookup_sent := True\<rparr>, [SendRequest (jc_service_peer_id cf) (ResolveInvite (jc_code_hash cf))])
      else if Some peer = ji_target_peer_id st \<and> \<not> ji_requested_bundle st
      then (st\<lparr>ji_requested_bundle := True\<rparr>, [SendRequest peer PreKeyBundleRequest])
      else (st, []))"

fun join_invite_step ::
    "crypto \<Rightarrow> chat_codec \<Rightarrow> addr_text \<Rightarrow> (string \<Rightarrow> peer_id option) \<Rightarrow> join_config \<Rightarrow> step_env \<Rightarrow> pairing_event \<Rightarrow> join_invite
      \<Rightarrow> join_invite \<times> pairing_action list \<times> pairing_outcome" where
  "join_invite_step K C A parse_peer cf env PairingTimer st =
     (st, [], if DISCOVERY_TIMEOUT + DIRECT_DIAL_GRACE \<le> se_elapsed env
              then Aborted (AppMessage ''Could not connect. Please create a new invite and try again.'') else Pending)"
| "join_invite_step K C A parse_peer cf env FallbackTimer st =
     (if \<not> ji_relay_started st \<and> (case ji_fallback_at st of Some deadline \<Rightarrow> deadline \<le> se_elapsed env | None \<Rightarrow> False)
      then (case relay_fallback cf st of (st1, acts) \<Rightarrow> (st1, acts, Pending)) else (st, [], Pending))"
| "join_invite_step K C A parse_peer cf env (Established peer relayed) st =
     (case join_invite_connected cf peer relayed st of (st1, acts) \<Rightarrow> (st1, acts, Pending))"
| "join_invite_step K C A parse_peer cf env (PairingApp (EvResponse peer response)) st =
     join_invite_response K C A parse_peer env cf peer response st"
| "join_invite_step K C A parse_peer cf env (MdnsDiscovered peers) st =
     (st, concat (map (\<lambda>(peer, address). if Some peer = ji_target_peer_id st
        then add_sanitized_peer_addresses peer [address] else []) peers), Pending)"
| "join_invite_step K C A parse_peer cf env (IdentifyReceived peer addresses) st =
     (st, add_sanitized_peer_addresses peer addresses, Pending)"
| "join_invite_step K C A parse_peer cf env (OutgoingConnectionError peer) st =
     (if peer = ji_target_peer_id st \<and> \<not> ji_relay_started st
      then (case relay_fallback cf st of (st1, acts) \<Rightarrow> (st1, acts, Pending)) else (st, [], Pending))"
| "join_invite_step K C A parse_peer cf env _ st = (st, [], Pending)"

text \<open>Waiting for the answer to the initial message; \<open>elapsed\<close> counts from the start of the wait.\<close>

fun wait_for_join_ack_and_chat ::
    "peer_id \<Rightarrow> string \<Rightarrow> string \<Rightarrow> string \<Rightarrow> nat \<Rightarrow> pairing_event \<Rightarrow> pairing_outcome" where
  "wait_for_join_ack_and_chat target local_display_name remote_display_name conversation_id elapsed PairingTimer =
     (if DISCOVERY_TIMEOUT \<le> elapsed then Aborted (AppMessage ''Pairing timed out. Please create a new invite.'') else Pending)"
| "wait_for_join_ack_and_chat target local_display_name remote_display_name conversation_id elapsed
     (PairingApp (EvResponse peer (Ack _))) =
     (if peer = target
      then Paired target \<lparr>pcc_local_display_name = local_display_name, pcc_remote_display_name = remote_display_name,
             pcc_conversation_id = conversation_id\<rparr> else Pending)"
| "wait_for_join_ack_and_chat target local_display_name remote_display_name conversation_id elapsed
     (PairingApp (EvOutboundFailure _)) = Aborted (AppMessage ''Could not complete pairing'')"
| "wait_for_join_ack_and_chat target local_display_name remote_display_name conversation_id elapsed _ = Pending"

text \<open>The loops: a step that does not continue ends the run.\<close>

fun create_invite_run ::
    "crypto \<Rightarrow> chat_codec \<Rightarrow> addr_text \<Rightarrow> ip_addr option \<Rightarrow> invite_config \<Rightarrow> (step_env \<times> pairing_event) list \<Rightarrow> create_invite
      \<Rightarrow> create_invite \<times> pairing_action list \<times> pairing_outcome" where
  "create_invite_run K C A lan cf [] st = (st, [], Pending)"
| "create_invite_run K C A lan cf ((env, ev) # evs) st =
     (case create_invite_step K C A lan cf env ev st of
        (st1, acts, Pending) \<Rightarrow>
          (case create_invite_run K C A lan cf evs st1 of (st2, acts2, r) \<Rightarrow> (st2, acts @ acts2, r))
      | (st1, acts, r) \<Rightarrow> (st1, acts, r))"

fun join_invite_run ::
    "crypto \<Rightarrow> chat_codec \<Rightarrow> addr_text \<Rightarrow> (string \<Rightarrow> peer_id option) \<Rightarrow> join_config \<Rightarrow> (step_env \<times> pairing_event) list \<Rightarrow> join_invite
      \<Rightarrow> join_invite \<times> pairing_action list \<times> pairing_outcome" where
  "join_invite_run K C A parse_peer cf [] st = (st, [], Pending)"
| "join_invite_run K C A parse_peer cf ((env, ev) # evs) st =
     (case join_invite_step K C A parse_peer cf env ev st of
        (st1, acts, Pending) \<Rightarrow>
          (case join_invite_run K C A parse_peer cf evs st1 of (st2, acts2, r) \<Rightarrow> (st2, acts @ acts2, r))
      | (st1, acts, r) \<Rightarrow> (st1, acts, r))"

section \<open>Contacts can be saved\<close>

text \<open>Known peers are stored under the id of their conversation.\<close>

definition peers_ok :: "db \<Rightarrow> bool" where
  "peers_ok s \<longleftrightarrow> (\<forall>r \<in> set (known_peers s). kw_peer_id r = kw_conversation_id r)"

lemma peers_ok_merge:
  assumes "\<And>i. \<not> fails i" "peers_ok s"
  shows "\<exists>s'. merge_contact_into fails old cid s = (s', Inr ()) \<and> peers_ok s'"
  using assms by (auto simp: merge_contact_into_def autocommit_ok merge_statements_def delete_where_def peers_ok_def)

lemma save_contact_ok:
  assumes "\<And>i. \<not> fails i" "peers_ok s" "length key = 32 \<longrightarrow> cid = contact_id_for_identity K key"
  shows "\<exists>s'. save_contact_for_chat K fails now cid name key hint s = (s', Inr ()) \<and> peers_ok s'"
proof -
  let ?c = "\<lparr>ct_contact_id = cid, ct_display_name = display_name_or_anonymous name, ct_identity_public_key = key,
    ct_discovery_hint = hint, ct_saved_at = now\<rparr>"
  have 1: "peers_ok (save_contact ?c s)" using assms(2) by (simp add: peers_ok_def save_contact_def)
  obtain s2 where s2: "merge_contact_into fails (contact_id_for_display_name K (display_name_or_anonymous name)) cid
      (save_contact ?c s) = (s2, Inr ())" "peers_ok s2" using peers_ok_merge [of fails, OF assms(1) 1] by blast
  show ?thesis
  proof (cases "length key = 32")
    case True
    then have key: "contact_id_for_identity K key = cid" using assms(3) by simp
    have "\<not> (\<exists>r \<in> set (known_peers s2). kw_peer_id r \<noteq> cid \<and> kw_conversation_id r = cid)"
      using s2(2) by (auto simp: peers_ok_def)
    moreover have "set (upsert kw_peer_id (\<lambda>old new. new) r t) \<subseteq> insert r (set t)" for r and t :: "known_peer_row list"
      by (auto simp: upsert_def)
    ultimately show ?thesis using True s2
      by (fastforce simp: save_contact_for_chat_def Let_def save_known_peer_def peers_ok_def key)
  next
    case False
    then show ?thesis using 1 by (simp add: save_contact_for_chat_def Let_def)
  qed
qed

lemma peers_ok_saved [simp]: "peers_ok (save_bob_identity C now b s) = peers_ok s" "peers_ok (save_alice_identity C now a s) = peers_ok s"
  by (simp_all add: peers_ok_def save_bob_identity_def save_alice_identity_def save_local_identity_def stmt_upsert_local_identity_def)

lemma no_pending_saved:
  assumes "save_contact_for_chat K fails now cid name key hint s = (s', res)" "\<And>i. \<not> fails i" "pending_peer_messages s = []"
  shows "pending_peer_messages s' = []"
proof -
  have pend: "pending_peer_messages (fst (merge_contact_into fails old new t)) = []" if "pending_peer_messages t = []" for old new t
    using that assms(2) by (simp add: merge_contact_into_def autocommit_ok merge_statements_def update_where_def)
  let ?c = "\<lparr>ct_contact_id = cid, ct_display_name = display_name_or_anonymous name, ct_identity_public_key = key,
    ct_discovery_hint = hint, ct_saved_at = now\<rparr>"
  let ?m = "merge_contact_into fails (contact_id_for_display_name K (display_name_or_anonymous name)) cid (save_contact ?c s)"
  obtain s2 r2 where m: "?m = (s2, r2)" by (cases ?m)
  have 1: "pending_peer_messages (save_contact ?c s) = []" using assms(3) by (simp add: save_contact_def)
  then have 2: "pending_peer_messages s2 = []" using pend [OF 1, of "contact_id_for_display_name K (display_name_or_anonymous name)" cid]
    by (simp add: m)
  have kp: "pending_peer_messages s3 = []" if "save_known_peer p s2 = Inr s3" for p s3
    using that 2 by (auto simp: save_known_peer_def split: if_splits)
  show ?thesis
  proof (cases "length key = 32")
    case True
    then show ?thesis using assms(1) 2 kp by (auto simp: save_contact_for_chat_def Let_def m split: sum.splits)
  next
    case False
    then show ?thesis using assms(1) 1 by (simp add: save_contact_for_chat_def Let_def)
  qed
qed

lemma pending_saved [simp]:
  "pending_peer_messages (save_bob_identity C now b s) = pending_peer_messages s"
  "pending_peer_messages (save_alice_identity C now a s) = pending_peer_messages s"
  by (simp_all add: save_bob_identity_def save_alice_identity_def save_local_identity_def stmt_upsert_local_identity_def)

section \<open>The handshake of two paired machines\<close>

lemma replenished:
  assumes "bob_wf K b"
  shows "bob_wf K (replenish_one_time_prekey K private now b)"
    and "\<exists>pb. bob_prekey_bundle K (replenish_one_time_prekey K private now b) = Inr pb
      \<and> pb_identity_public_key pb = ik_public_key K (bo_identity b)"
  using assms by (auto simp: replenish_one_time_prekey_def bob_wf_def from_private_bytes_def bob_prekey_bundle_def Let_def
      split: option.splits)

text \<open>Bob's answer to an initial message that Alice made for his bundle.\<close>

lemma initial_message_accepted:
  assumes K: "crypto_ok K" "sig_correct K" and C: "chat_codec_ok C"
    and b: "bob_wf K b" "bob_prekey_bundle K b = Inr pb"
    and enc: "encrypt_initial_message K private pb [] a = (a', res)"
    and db: "\<And>i. \<not> fails i" "peers_ok s"
  shows "\<exists>m b' s' sa sb. res = Inr m \<and> a' = a\<lparr>al_session := Some sa\<rparr> \<and> bo_session b' = Some sb \<and> bo_one_time_prekey b' = None
    \<and> in_step K 1 sa sb \<and> in_step K 0 sb sa \<and> (pending_peer_messages s = [] \<longrightarrow> pending_peer_messages s' = [])
    \<and> accept_initial_message K C fails now ln hint (cc_chat_initial C \<lparr>cim_sender_display_name = name,
         cim_sender_identity_public_key = Some key, cim_message = m\<rparr>) b s
       = (s', b', Inr (display_name_or_anonymous name, contact_id_for_identity K key))"
proof -
  have "is_str []" by (simp add: is_str_def as_bytes_def)
  from initial_message_steps [OF K b this enc] obtain m b' sa sb where h: "res = Inr m" "decrypt_initial_message K m b = (b', Inr [])"
    "bo_one_time_prekey b' = None" "al_session a' = Some sa" "bo_session b' = Some sb" "in_step K 1 sa sb" "in_step K 0 sb sa"
    "a' = a\<lparr>al_session := Some sa\<rparr>" by blast
  have dec: "decode_chat_initial_message C (cc_chat_initial C \<lparr>cim_sender_display_name = name,
      cim_sender_identity_public_key = Some key, cim_message = m\<rparr>) = Inr \<lparr>cim_sender_display_name = display_name_or_anonymous name,
      cim_sender_identity_public_key = Some key, cim_message = m\<rparr>"
    using C by (simp add: decode_chat_initial_message_def chat_codec_ok_def)
  have "peers_ok (save_bob_identity C now b' s)" using db(2) by simp
  then obtain s' where "save_contact_for_chat K fails now (contact_id_for_identity K key) (display_name_or_anonymous name) key hint
      (save_bob_identity C now b' s) = (s', Inr ())"
    using save_contact_ok [of fails _ key _ K, OF db(1)] by blast
  moreover from this have "pending_peer_messages s = [] \<longrightarrow> pending_peer_messages s' = []"
    using no_pending_saved [of K fails, OF _ db(1)] by simp
  ultimately have "(pending_peer_messages s = [] \<longrightarrow> pending_peer_messages s' = [])
    \<and> accept_initial_message K C fails now ln hint (cc_chat_initial C \<lparr>cim_sender_display_name = name,
      cim_sender_identity_public_key = Some key, cim_message = m\<rparr>) b s
      = (s', b', Inr (display_name_or_anonymous name, contact_id_for_identity K key))"
    by (simp add: accept_initial_message_def dec h(2) Let_def)
  then show ?thesis using h by blast
qed

lemma pairing_exchange:
  assumes K: "crypto_ok K" "sig_correct K" and C: "chat_codec_ok C"
    and B: "bob_wf K (ci_bob stB)" "ci_registered stB" "alice_peer \<noteq> ic_service_peer_id cfB" "peers_ok (ci_db stB)"
    and A: "ji_target_peer_id stA = Some bob_peer" "bob_peer \<noteq> jc_service_peer_id cfA" "peers_ok (ji_db stA)"
    and env: "\<And>i. \<not> se_fails e1 i" "\<And>i. \<not> se_fails e2 i"
  shows "\<exists>payload initial stB1 stB2 stA1 sa sb.
      create_invite_step K C T lan cfB e0 (PairingApp (EvRequest alice_peer PreKeyBundleRequest)) stB =
        (stB1, [SendResponse (PreKeyBundleResponse payload)], Pending)
    \<and> join_invite_step K C T parse_peer cfA e1 (PairingApp (EvResponse bob_peer (PreKeyBundleResponse payload))) stA =
        (stA1, [SendRequest bob_peer (InitialMessageRequest initial)], AwaitAck bob_peer
          (display_name_or_anonymous (ic_local_display_name cfB)) (contact_id_for_identity K (ik_public_key K (bo_identity (ci_bob stB)))))
    \<and> create_invite_step K C T lan cfB e2 (PairingApp (EvRequest alice_peer (InitialMessageRequest initial))) stB1 =
        (stB2, [SendResponse (Ack ''paired'')], Paired alice_peer \<lparr>pcc_local_display_name = ic_local_display_name cfB,
          pcc_remote_display_name = display_name_or_anonymous (jc_local_display_name cfA),
          pcc_conversation_id = contact_id_for_identity K (ik_public_key K (al_identity (ji_alice stA)))\<rparr>)
    \<and> al_session (ji_alice stA1) = Some sa \<and> bo_session (ci_bob stB2) = Some sb \<and> in_step K 1 sa sb \<and> in_step K 0 sb sa
    \<and> bo_one_time_prekey (ci_bob stB2) = None
    \<and> (pending_peer_messages (ci_db stB) = [] \<longrightarrow> pending_peer_messages (ci_db stB2) = [])
    \<and> (pending_peer_messages (ji_db stA) = [] \<longrightarrow> pending_peer_messages (ji_db stA1) = [])"
proof -
  let ?b1 = "replenish_one_time_prekey K (se_private e0) (se_now e0) (ci_bob stB)"
  obtain pb where bdl: "bob_prekey_bundle K ?b1 = Inr pb" "pb_identity_public_key pb = ik_public_key K (bo_identity (ci_bob stB))"
    using replenished(2) [OF B(1)] by blast
  let ?payload = "cc_prekey C \<lparr>cpb_sender_display_name = ic_local_display_name cfB, cpb_bundle = pb\<rparr>"
  let ?stB1 = "stB\<lparr>ci_bob := ?b1, ci_db := save_bob_identity C (se_now e0) ?b1 (ci_db stB)\<rparr>"
  have 1: "create_invite_step K C T lan cfB e0 (PairingApp (EvRequest alice_peer PreKeyBundleRequest)) stB =
      (?stB1, [SendResponse (PreKeyBundleResponse ?payload)], Pending)"
    using B(2,3) by (simp add: create_invite_request_def publish_prekey_bundle_def Let_def bdl(1))
  let ?cid = "contact_id_for_identity K (ik_public_key K (bo_identity (ci_bob stB)))" and ?name = "display_name_or_anonymous (ic_local_display_name cfB)"
  obtain s1 where s1: "save_contact_for_chat K (se_fails e1) (se_now e1) ?cid ?name (ik_public_key K (bo_identity (ci_bob stB)))
      ''automatic direct/relay'' (ji_db stA) = (s1, Inr ())"
    using save_contact_ok [of "se_fails e1", OF env(1) A(3)] by blast
  have pend: "pending_peer_messages (ji_db stA) = [] \<longrightarrow> pending_peer_messages s1 = []"
    using no_pending_saved [of K "se_fails e1", OF s1 env(1)] by simp
  obtain a1 res where enc: "encrypt_initial_message K (se_private e1) pb [] (ji_alice stA) = (a1, res)"
    by (cases "encrypt_initial_message K (se_private e1) pb [] (ji_alice stA)")
  let ?key = "ske_identity_public_key (alice_signed_key_exchange K a1)"
  have "peers_ok (ci_db ?stB1)" using B(4) by simp
  from initial_message_accepted [where fails = "se_fails e2" and now = "se_now e2" and ln = "ic_local_display_name cfB"
      and hint = "''automatic direct/relay''" and name = "jc_local_display_name cfA" and key = ?key, OF K C
      replenished(1) [OF B(1)] bdl(1) enc env(2) this]
  obtain m b' s' sa sb where m: "res = Inr m" "a1 = (ji_alice stA)\<lparr>al_session := Some sa\<rparr>" "bo_session b' = Some sb"
      "bo_one_time_prekey b' = None" "in_step K 1 sa sb" "in_step K 0 sb sa"
      "pending_peer_messages (ci_db ?stB1) = [] \<longrightarrow> pending_peer_messages s' = []"
    "accept_initial_message K C (se_fails e2) (se_now e2) (ic_local_display_name cfB) ''automatic direct/relay''
       (cc_chat_initial C \<lparr>cim_sender_display_name = jc_local_display_name cfA, cim_sender_identity_public_key = Some ?key, cim_message = m\<rparr>)
       ?b1 (ci_db ?stB1) = (s', b', Inr (display_name_or_anonymous (jc_local_display_name cfA), contact_id_for_identity K ?key))" by blast
  let ?initial = "cc_chat_initial C \<lparr>cim_sender_display_name = jc_local_display_name cfA, cim_sender_identity_public_key = Some ?key, cim_message = m\<rparr>"
  have dec: "decode_chat_prekey_bundle C ?payload = Inr (?name, pb)"
    using C by (simp add: decode_chat_prekey_bundle_def chat_codec_ok_def)
  have 2: "join_invite_step K C T parse_peer cfA e1 (PairingApp (EvResponse bob_peer (PreKeyBundleResponse ?payload))) stA =
      (stA\<lparr>ji_db := save_alice_identity C (se_now e1) a1 s1, ji_alice := a1\<rparr>,
       [SendRequest bob_peer (InitialMessageRequest ?initial)], AwaitAck bob_peer ?name ?cid)"
    using A(1,2) by (simp add: join_invite_response_def join_invite_bundle_def dec bdl(2) Let_def s1 enc m(1))
  have key: "?key = ik_public_key K (al_identity (ji_alice stA))"
    by (simp add: m(2) alice_signed_key_exchange_def sign_key_exchange_def Let_def)
  have 3: "create_invite_step K C T lan cfB e2 (PairingApp (EvRequest alice_peer (InitialMessageRequest ?initial))) ?stB1 =
      (?stB1\<lparr>ci_bob := b', ci_db := s'\<rparr>, [SendResponse (Ack ''paired'')], Paired alice_peer
        \<lparr>pcc_local_display_name = ic_local_display_name cfB, pcc_remote_display_name = display_name_or_anonymous (jc_local_display_name cfA),
         pcc_conversation_id = contact_id_for_identity K (ik_public_key K (al_identity (ji_alice stA)))\<rparr>)"
    using B(2,3) m(8) by (simp add: create_invite_request_def key)
  show ?thesis
    by (intro exI conjI, rule 1, rule 2, rule 3) (use m(2-7) pend in simp_all)
qed

section \<open>Nothing is served before the invite is registered\<close>

definition serves :: "pairing_action \<Rightarrow> bool" where
  "serves act = (case act of SendResponse _ \<Rightarrow> True | _ \<Rightarrow> False)"

lemma add_sanitized_quiet [simp]: "filter serves (add_sanitized_peer_addresses peer addresses) = []"
  by (simp add: add_sanitized_peer_addresses_def filter_map comp_def serves_def)

lemma unregistered_step:
  assumes "create_invite_step K C T lan cf env ev st = (st', acts, r)" "\<not> ci_registered st"
    and "ev \<noteq> PairingApp (EvResponse (ic_service_peer_id cf) Registered)"
  shows "\<not> ci_registered st' \<and> ci_bob st' = ci_bob st \<and> ci_db st' = ci_db st \<and> filter serves acts = []
    \<and> (\<forall>peer cx. r \<noteq> Paired peer cx)"
proof (cases ev)
  case (PairingApp app)
  then show ?thesis using assms
    by (cases app) (auto simp: create_invite_request_def split: if_splits pairing_response.splits)
next
  case (MdnsDiscovered peers)
  then show ?thesis using assms by (auto simp: filter_concat comp_def case_prod_unfold)
qed (use assms in \<open>auto simp: create_invite_listening_def create_invite_reserved_def Let_def serves_def send_invite_registration_def
    split: if_splits option.splits\<close>)

text \<open>
  C30: Until the service has confirmed the registration of the invite, the inviting side answers no request,
  pairs with nobody and leaves its keys and its database as they are, whatever the network delivers.
\<close>

theorem unregistered_invite_serves_nobody:
  assumes "create_invite_run K C T lan cf evs (fst (create_invite_start lan cf b s)) = (st', acts, r)"
    and "PairingApp (EvResponse (ic_service_peer_id cf) Registered) \<notin> snd ` set evs"
  shows "ci_bob st' = b \<and> ci_db st' = s \<and> (\<forall>response. SendResponse response \<notin> set acts) \<and> (\<forall>peer cx. r \<noteq> Paired peer cx)"
proof -
  have "ci_bob st' = ci_bob st \<and> ci_db st' = ci_db st \<and> filter serves acts = [] \<and> (\<forall>peer cx. r \<noteq> Paired peer cx)"
    if "create_invite_run K C T lan cf evs st = (st', acts, r)" "\<not> ci_registered st" for st acts
    using that assms(2)
  proof (induction evs arbitrary: st acts)
    case (Cons x evs)
    obtain env ev where x: "x = (env, ev)" by (cases x)
    obtain st1 acts1 r1 where s1: "create_invite_step K C T lan cf env ev st = (st1, acts1, r1)"
      by (cases "create_invite_step K C T lan cf env ev st")
    have u: "\<not> ci_registered st1" "ci_bob st1 = ci_bob st" "ci_db st1 = ci_db st" "filter serves acts1 = []" "\<forall>peer cx. r1 \<noteq> Paired peer cx"
      using unregistered_step [OF s1 Cons.prems(2)] Cons.prems(3) by (auto simp: x)
    show ?case
    proof (cases "r1 = Pending")
      case True
      obtain st2 acts2 r2 where rest: "create_invite_run K C T lan cf evs st1 = (st2, acts2, r2)"
        by (cases "create_invite_run K C T lan cf evs st1")
      then have eq: "st2 = st'" "r2 = r" "acts = acts1 @ acts2" using Cons.prems(1) by (auto simp: x s1 True)
      show ?thesis using Cons.IH [OF rest [unfolded eq] u(1)] Cons.prems(3) u(2-4) by (simp add: eq(3))
    next
      case False
      then have "(st', acts, r) = (st1, acts1, r1)" using Cons.prems(1) by (cases r1) (auto simp: x s1)
      then show ?thesis using u by simp
    qed
  qed simp
  from this [OF assms(1)] show ?thesis
    by (auto simp: create_invite_start_def case_prod_unfold Let_def filter_empty_conv serves_def)
qed

definition toy_env :: step_env where
  "toy_env = \<lparr>se_now = 10, se_elapsed = 5, se_private = [9], se_fails = (\<lambda>_. False)\<rparr>"

definition toy_invite_config :: invite_config where
  "toy_invite_config = \<lparr>ic_local_display_name = ''Bob'', ic_service_addr = [P2p ''S''], ic_service_peer_id = ''S'',
     ic_code_hash = ''h'', ic_expires_at = 300\<rparr>"

definition toy_join_config :: join_config where
  "toy_join_config = \<lparr>jc_local_display_name = ''Ann'', jc_service_addr = [P2p ''S''], jc_service_peer_id = ''S'', jc_code_hash = ''h''\<rparr>"

theorem unregistered_invite_serves_nobody_witness:
  "\<exists>st' acts r. create_invite_run toy_crypto toy_chat_codec toy_addr_text None toy_invite_config
        [(toy_env, ReservationReqAccepted ''S'' False), (toy_env, PairingApp (EvRequest ''A'' PreKeyBundleRequest))]
        (fst (create_invite_start None toy_invite_config toy_bob init_db)) = (st', acts, r)
      \<and> acts \<noteq> [] \<and> ci_bob st' = toy_bob \<and> ci_db st' = init_db \<and> (\<forall>response. SendResponse response \<notin> set acts)"
proof -
  let ?evs = "[(toy_env, ReservationReqAccepted ''S'' False), (toy_env, PairingApp (EvRequest ''A'' PreKeyBundleRequest))]"
  let ?run = "create_invite_run toy_crypto toy_chat_codec toy_addr_text None toy_invite_config ?evs
    (fst (create_invite_start None toy_invite_config toy_bob init_db))"
  have run: "?run = (fst ?run, fst (snd ?run), snd (snd ?run))" by simp
  have acts: "fst (snd ?run) \<noteq> []"
    by (simp add: toy_invite_config_def create_invite_start_def listen_for_direct_connections_def create_invite_reserved_def Let_def)
  have "PairingApp (EvResponse (ic_service_peer_id toy_invite_config) Registered) \<notin> snd ` set ?evs" by simp
  from unregistered_invite_serves_nobody [OF run this] acts show ?thesis
    by (intro exI [of _ "fst ?run"] exI [of _ "fst (snd ?run)"] exI [of _ "snd (snd ?run)"]) simp
qed

section \<open>The joining side asks once\<close>

definition resolves :: "pairing_action \<Rightarrow> bool" where
  "resolves act = (case act of SendRequest _ (ResolveInvite _) \<Rightarrow> True | _ \<Rightarrow> False)"

definition asks_bundle :: "pairing_action \<Rightarrow> bool" where
  "asks_bundle act = (case act of SendRequest _ PreKeyBundleRequest \<Rightarrow> True | _ \<Rightarrow> False)"

definition budget :: "bool \<Rightarrow> nat" where
  "budget sent = (if sent then 0 else 1)"

lemma add_sanitized_asks [simp]:
  "filter resolves (add_sanitized_peer_addresses peer addresses) = []" "filter asks_bundle (add_sanitized_peer_addresses peer addresses) = []"
  by (simp_all add: add_sanitized_peer_addresses_def filter_map comp_def resolves_def asks_bundle_def)

lemma join_step_budget:
  assumes "join_invite_step K C T parse_peer cf env ev st = (st', acts, r)"
  shows "length (filter resolves acts) + budget (ji_lookup_sent st') \<le> budget (ji_lookup_sent st)
    \<and> length (filter asks_bundle acts) + budget (ji_requested_bundle st') \<le> budget (ji_requested_bundle st)"
proof (cases ev)
  case (PairingApp app)
  then show ?thesis using assms
    by (cases app) (auto simp: join_invite_response_def join_invite_resolved_def join_invite_bundle_def Let_def resolves_def asks_bundle_def
        filter_map comp_def dial_target_through_relay_def split: if_splits pairing_response.splits option.splits sum.splits prod.splits)
next
  case (MdnsDiscovered peers)
  then show ?thesis using assms by (auto simp: filter_concat comp_def case_prod_unfold if_distrib [of "filter _"] cong: if_cong)
qed (use assms in \<open>auto simp: join_invite_connected_def relay_fallback_def budget_def resolves_def asks_bundle_def dial_target_through_relay_def
    split: if_splits option.splits\<close>)

text \<open>
  The joining side sends at most one lookup of the invite and at most one request for a prekey bundle,
  whatever connections come and go and whatever is answered, so that it does not use up the
  one-time invite or the prekey by asking twice.
\<close>

theorem join_requests_once:
  assumes "join_invite_run K C T parse_peer cf evs (fst (join_invite_start lan cf a s)) = (st', acts, r)"
  shows "length (filter resolves acts) \<le> 1 \<and> length (filter asks_bundle acts) \<le> 1"
proof -
  have "length (filter resolves acts) \<le> budget (ji_lookup_sent st) \<and> length (filter asks_bundle acts) \<le> budget (ji_requested_bundle st)"
    if "join_invite_run K C T parse_peer cf evs st = (st', acts, r)" for st acts
    using that
  proof (induction evs arbitrary: st acts)
    case (Cons x evs)
    obtain env ev where x: "x = (env, ev)" by (cases x)
    obtain st1 acts1 r1 where s1: "join_invite_step K C T parse_peer cf env ev st = (st1, acts1, r1)"
      by (cases "join_invite_step K C T parse_peer cf env ev st")
    show ?case
    proof (cases "r1 = Pending")
      case True
      obtain st2 acts2 r2 where rest: "join_invite_run K C T parse_peer cf evs st1 = (st2, acts2, r2)"
        by (cases "join_invite_run K C T parse_peer cf evs st1")
      then have eq: "st2 = st'" "r2 = r" "acts = acts1 @ acts2" using Cons.prems by (auto simp: x s1 True)
      show ?thesis using Cons.IH [OF rest [unfolded eq]] join_step_budget [OF s1] by (simp add: eq(3))
    next
      case False
      then have "(st', acts, r) = (st1, acts1, r1)" using Cons.prems by (cases r1) (auto simp: x s1)
      then show ?thesis using join_step_budget [OF s1] by simp
    qed
  qed simp
  from this [OF assms] show ?thesis by (auto simp: budget_def split: if_splits)
qed

theorem join_requests_once_witness:
  "\<exists>st' acts r. join_invite_run toy_crypto toy_chat_codec toy_addr_text Some toy_join_config
        [(toy_env, Established ''S'' False), (toy_env, Established ''S'' False)]
        (fst (join_invite_start None toy_join_config (alice_local toy_crypto [5] [6]) init_db)) = (st', acts, r)
      \<and> acts \<noteq> [] \<and> length (filter resolves acts) \<le> 1"
proof -
  let ?evs = "[(toy_env, Established ''S'' False), (toy_env, Established ''S'' False)]"
  let ?run = "join_invite_run toy_crypto toy_chat_codec toy_addr_text Some toy_join_config ?evs
    (fst (join_invite_start None toy_join_config (alice_local toy_crypto [5] [6]) init_db))"
  have run: "?run = (fst ?run, fst (snd ?run), snd (snd ?run))" by simp
  have acts: "fst (snd ?run) \<noteq> []"
    by (simp add: toy_join_config_def join_invite_start_def join_invite_connected_def)
  from join_requests_once [OF run] acts show ?thesis
    by (intro exI [of _ "fst ?run"] exI [of _ "fst (snd ?run)"] exI [of _ "snd (snd ?run)"]) simp
qed

section \<open>Meeting at the service\<close>

lemma sanitized_text_parses: "addr_text_ok T \<Longrightarrow> None \<notin> set (join_addresses T addresses)"
  by (auto simp: join_addresses_def map_filter_def sanitize_direct_address_text_def addr_text_ok_def split: option.splits)

lemma resolved_step:
  assumes "addr_text_ok T" "parse_peer p = Some p"
  shows "\<exists>acts st'. join_invite_resolved T parse_peer cf env p addresses st = (st', acts, Pending) \<and> ji_target_peer_id st' = Some p
    \<and> ji_requested_bundle st' = ji_requested_bundle st \<and> ji_alice st' = ji_alice st \<and> ji_db st' = ji_db st"
  using sanitized_text_parses [OF assms(1)] assms(2) by (simp add: join_invite_resolved_def Let_def)

text \<open>Registering a code that is free and resolving it before it expires.\<close>

lemma register_then_resolve:
  assumes "bob_peer \<in> sv_reserved sv" "sv_invitations sv h = None" "t1 < expires" "expires \<le> t1 + INVITE_TTL_SECS" "t2 < expires"
  shows "\<exists>sv1 sv2. service_request T t1 bob_peer (RegisterInvite h expires addresses) sv = (sv1, Registered)
    \<and> service_request T t2 alice_peer (ResolveInvite h) sv1 =
        (sv2, Resolved bob_peer (List.map_filter (sanitize_direct_address_text T) addresses))"
proof -
  have "retain p (sv_invitations sv) h = None" for p using assms(2) by (simp add: retain_def)
  then show ?thesis using assms by (simp add: service_request_def Let_def retain_def not_le not_less)
qed

end
