(* ===== verification/Quic.thy ===== *)
theory Quic
  imports Pairing
begin

text \<open>
  The chat over a direct QUIC connection (\<^verbatim>\<open>src/src/main.rs\<close>): which errors mean that the peer is gone,
  sending a line, flushing the queue with acknowledgements, the handshakes and the chat loop.  What the
  connection does is given by the outcome of each send and by the list of what arrives.
\<close>

section \<open>Errors of the connection\<close>

text \<open>\<^verbatim>\<open>quinn::ConnectionError\<close>: the error code and the reason of a close; the variants the code does not name are one.\<close>

datatype connection_error =
    ApplicationClosed nat bytes
  | ClosedByTransport bytes
  | Reset
  | TimedOut
  | LocallyClosed
  | OtherConnectionError

fun is_peer_disconnect_error :: "connection_error \<Rightarrow> bool" where
  "is_peer_disconnect_error (ApplicationClosed code reason) \<longleftrightarrow> code = 0 \<or> reason = []"
| "is_peer_disconnect_error (ClosedByTransport reason) \<longleftrightarrow> reason = []"
| "is_peer_disconnect_error Reset \<longleftrightarrow> True"
| "is_peer_disconnect_error TimedOut \<longleftrightarrow> True"
| "is_peer_disconnect_error LocallyClosed \<longleftrightarrow> True"
| "is_peer_disconnect_error OtherConnectionError \<longleftrightarrow> False"

text \<open>
  A boxed error: one of the three types the code looks for (\<open>Some\<close>: \<^verbatim>\<open>ConnectionLost\<close>, \<open>None\<close>: any other
  variant), another error with a source, or one without.
\<close>

datatype net_error =
    ConnectionFailed connection_error
  | ReadToEndFailed "connection_error option"
  | WriteFailed "connection_error option"
  | CausedBy net_error
  | OtherNetError

fun is_peer_disconnect_app_error :: "net_error \<Rightarrow> bool" where
  "is_peer_disconnect_app_error (ConnectionFailed e) \<longleftrightarrow> is_peer_disconnect_error e"
| "is_peer_disconnect_app_error (ReadToEndFailed lost) \<longleftrightarrow>
     (case lost of Some e \<Rightarrow> is_peer_disconnect_error e | None \<Rightarrow> False)"
| "is_peer_disconnect_app_error (WriteFailed lost) \<longleftrightarrow>
     (case lost of Some e \<Rightarrow> is_peer_disconnect_error e | None \<Rightarrow> False)"
| "is_peer_disconnect_app_error (CausedBy e) \<longleftrightarrow> is_peer_disconnect_app_error e"
| "is_peer_disconnect_app_error OtherNetError \<longleftrightarrow> False"

datatype chat_error = NetError net_error | AppError app_error

fun peer_gone :: "chat_error \<Rightarrow> bool" where
  "peer_gone (NetError e) = is_peer_disconnect_app_error e"
| "peer_gone (AppError _) = False"

section \<open>Sending a line\<close>

text \<open>\<open>sent\<close> is the outcome of \<^verbatim>\<open>send_chat_frame\<close>.  A frame that was sent is part of the result.\<close>

definition send_party_chat_line_with_id ::
    "'e party \<Rightarrow> crypto \<Rightarrow> chat_codec \<Rightarrow> u64 \<Rightarrow> string \<Rightarrow> string \<Rightarrow> string \<Rightarrow> string \<Rightarrow> string option \<Rightarrow> net_error option
      \<Rightarrow> 'e \<Rightarrow> db \<Rightarrow> db \<times> 'e \<times> bytes list \<times> (chat_error + string)" where
  "send_party_chat_line_with_id P K C now local_display_name remote_display_name conversation_id line existing sent e s =
     (case pt_encrypt P K line e of
        (e1, Inl err) \<Rightarrow> (s, e1, [], Inl (AppError (AppCrypto err)))
      | (e1, Inr message) \<Rightarrow>
          (let s1 = pt_save P C now e1 s;
               message_id = outgoing_message_id K C conversation_id message existing;
               frame_bytes = cc_frame C (FrameMessage message_id local_display_name message)
           in case sent of
                Some err \<Rightarrow> (s1, e1, [], Inl (NetError err))
              | None \<Rightarrow> (persist_chat_message K now (sent_entry message_id conversation_id local_display_name
                           remote_display_name frame_bytes line) s1, e1, [frame_bytes], Inr message_id)))"

definition send_party_chat_line ::
    "'e party \<Rightarrow> crypto \<Rightarrow> chat_codec \<Rightarrow> u64 \<Rightarrow> string \<Rightarrow> string \<Rightarrow> string \<Rightarrow> string \<Rightarrow> net_error option
      \<Rightarrow> 'e \<Rightarrow> db \<Rightarrow> db \<times> 'e \<times> bytes list \<times> (chat_error + unit)" where
  "send_party_chat_line P K C now local_display_name remote_display_name conversation_id line sent e s =
     (if line = [] then (s, e, [], Inr ())
      else case send_party_chat_line_with_id P K C now local_display_name remote_display_name conversation_id line None sent e s of
             (s1, e1, frames, Inl err) \<Rightarrow> (s1, e1, frames, Inl err)
           | (s1, e1, frames, Inr _) \<Rightarrow> (s1, e1, frames, Inr ()))"

definition send_alice_chat_line_with_id where "send_alice_chat_line_with_id = send_party_chat_line_with_id alice_party"
definition send_bob_chat_line_with_id where "send_bob_chat_line_with_id = send_party_chat_line_with_id bob_party"
definition send_alice_chat_line where "send_alice_chat_line = send_party_chat_line alice_party"
definition send_bob_chat_line where "send_bob_chat_line = send_party_chat_line bob_party"

section \<open>Flushing the queue\<close>

text \<open>
  What the connection brings while an acknowledgement is awaited: nothing in time, a failed accept, a
  failed read, or bytes; \<open>Received\<close> also gives the outcome of sending an acknowledgement for them.
\<close>

datatype arrival =
    AckTimeout
  | AcceptFailed connection_error
  | ReceiveFailed net_error
  | Received bytes "net_error option"

text \<open>A frame other than the awaited acknowledgement; the result holds the acknowledgement that was sent.\<close>

definition handle_incoming_during_flush ::
    "'e party \<Rightarrow> crypto \<Rightarrow> chat_codec \<Rightarrow> u64 \<Rightarrow> string \<Rightarrow> string \<Rightarrow> bytes \<Rightarrow> chat_frame \<Rightarrow> net_error option \<Rightarrow> 'e \<Rightarrow> db
      \<Rightarrow> db \<times> 'e \<times> bytes list \<times> (chat_error + unit)" where
  "handle_incoming_during_flush P K C now local_display_name conversation_id frame_bytes frame ack_sent e s = (case frame of
     FrameAck _ \<Rightarrow> (s, e, [], Inr ())
   | FrameMessage message_id sender_display_name message \<Rightarrow>
       (case (if chat_message_already_saved message_id s then (s, e, Inr ())
              else (case store_incoming P K C now local_display_name conversation_id frame_bytes message_id
                           sender_display_name message e s of
                      (s1, e1, Inl err) \<Rightarrow> (s1, e1, Inl err)
                    | (s1, e1, Inr _) \<Rightarrow> (mark_message_new conversation_id message_id now s1, e1, Inr ()))) of
          (s1, e1, Inl err) \<Rightarrow> (s1, e1, [], Inl (AppError err))
        | (s1, e1, Inr _) \<Rightarrow>
            (case ack_sent of
               None \<Rightarrow> (s1, e1, [cc_frame C (FrameAck message_id)], Inr ())
             | Some err \<Rightarrow> (s1, e1, [], if is_peer_disconnect_app_error err then Inr () else Inl (NetError err)))))"

text \<open>
  Waiting ends with the awaited acknowledgement (\<open>True\<close>), with the loss of the peer or a timeout
  (\<open>False\<close>), or with an error; when the list is over the wait times out.  The rest of the list is left.
\<close>

fun wait_for_chat_ack ::
    "'e party \<Rightarrow> crypto \<Rightarrow> chat_codec \<Rightarrow> u64 \<Rightarrow> string \<Rightarrow> string \<Rightarrow> string \<Rightarrow> arrival list \<Rightarrow> 'e \<Rightarrow> db
      \<Rightarrow> db \<times> 'e \<times> bytes list \<times> arrival list \<times> (chat_error + bool)" where
  "wait_for_chat_ack P K C now local_display_name conversation_id expected [] e s = (s, e, [], [], Inr False)"
| "wait_for_chat_ack P K C now local_display_name conversation_id expected (AckTimeout # arrivals) e s =
     (s, e, [], arrivals, Inr False)"
| "wait_for_chat_ack P K C now local_display_name conversation_id expected (AcceptFailed err # arrivals) e s =
     (s, e, [], arrivals, if is_peer_disconnect_error err then Inr False else Inl (NetError (ConnectionFailed err)))"
| "wait_for_chat_ack P K C now local_display_name conversation_id expected (ReceiveFailed err # arrivals) e s =
     (s, e, [], arrivals, if is_peer_disconnect_app_error err then Inr False else Inl (NetError err))"
| "wait_for_chat_ack P K C now local_display_name conversation_id expected (Received frame_bytes ack_sent # arrivals) e s =
     (case cc_frame_decode C frame_bytes of
        None \<Rightarrow> (s, e, [], arrivals, Inl (AppError AppCodec))
      | Some frame \<Rightarrow>
          if frame = FrameAck expected then (s, e, [], arrivals, Inr True)
          else (case handle_incoming_during_flush P K C now local_display_name conversation_id frame_bytes frame ack_sent e s of
                  (s1, e1, acks, Inl err) \<Rightarrow> (s1, e1, acks, arrivals, Inl err)
                | (s1, e1, acks, Inr _) \<Rightarrow>
                    (case wait_for_chat_ack P K C now local_display_name conversation_id expected arrivals e1 s1 of
                       (s2, e2, frames, rest, res) \<Rightarrow> (s2, e2, acks @ frames, rest, res))))"

text \<open>\<open>sends\<close> holds the outcome of sending each queued message; sending goes well where it has no entry.\<close>

fun flush_loop ::
    "'e party \<Rightarrow> crypto \<Rightarrow> chat_codec \<Rightarrow> u64 \<Rightarrow> string \<Rightarrow> string \<Rightarrow> pending_peer_message list \<Rightarrow> net_error option list
      \<Rightarrow> arrival list \<Rightarrow> 'e \<Rightarrow> db \<Rightarrow> db \<times> 'e \<times> bytes list \<times> arrival list \<times> (chat_error + unit)" where
  "flush_loop P K C now local_display_name conversation_id [] sends arrivals e s = (s, e, [], arrivals, Inr ())"
| "flush_loop P K C now local_display_name conversation_id (item # items) sends arrivals e s =
     (let s1 = record_pending_peer_message_attempt (pm_message_id item) now s
      in case pt_encrypt P K (pm_plaintext item) e of
           (e1, Inl err) \<Rightarrow> (s1, e1, [], arrivals, Inl (AppError (AppCrypto err)))
         | (e1, Inr message) \<Rightarrow>
             (let s2 = pt_save P C now e1 s1;
                  frame_bytes = cc_frame C (FrameMessage (pm_message_id item) local_display_name message)
              in case (case sends of [] \<Rightarrow> None | outcome # _ \<Rightarrow> outcome) of
                   Some err \<Rightarrow> (s2, e1, [], arrivals, if is_peer_disconnect_app_error err then Inr () else Inl (NetError err))
                 | None \<Rightarrow>
                     (case wait_for_chat_ack P K C now local_display_name conversation_id (pm_message_id item) arrivals e1 s2 of
                        (s3, e3, acks, rest, Inl err) \<Rightarrow> (s3, e3, frame_bytes # acks, rest, Inl err)
                      | (s3, e3, acks, rest, Inr False) \<Rightarrow> (s3, e3, frame_bytes # acks, rest, Inr ())
                      | (s3, e3, acks, rest, Inr True) \<Rightarrow>
                          (case flush_loop P K C now local_display_name conversation_id items (tl sends) rest e3
                                  (mark_delivered_if_pending (pm_message_id item) s3) of
                             (s4, e4, frames, rest4, res) \<Rightarrow> (s4, e4, frame_bytes # acks @ frames, rest4, res)))))"

definition flush_pending_messages ::
    "'e party \<Rightarrow> crypto \<Rightarrow> chat_codec \<Rightarrow> u64 \<Rightarrow> string \<Rightarrow> string \<Rightarrow> net_error option list \<Rightarrow> arrival list \<Rightarrow> 'e \<Rightarrow> db
      \<Rightarrow> db \<times> 'e \<times> bytes list \<times> arrival list \<times> (chat_error + unit)" where
  "flush_pending_messages P K C now local_display_name conversation_id sends arrivals e s =
     flush_loop P K C now local_display_name conversation_id
       (pending_peer_messages_for_peer (pending_peer_id_for_conversation K conversation_id s) s) sends arrivals e s"

definition handle_incoming_during_alice_flush where "handle_incoming_during_alice_flush = handle_incoming_during_flush alice_party"
definition handle_incoming_during_bob_flush where "handle_incoming_during_bob_flush = handle_incoming_during_flush bob_party"
definition wait_for_chat_ack_as_alice where "wait_for_chat_ack_as_alice = wait_for_chat_ack alice_party"
definition wait_for_chat_ack_as_bob where "wait_for_chat_ack_as_bob = wait_for_chat_ack bob_party"
definition flush_pending_messages_to_bob where "flush_pending_messages_to_bob = flush_pending_messages alice_party"
definition flush_pending_messages_to_alice where "flush_pending_messages_to_alice = flush_pending_messages bob_party"

section \<open>Handshakes\<close>

record chat_session =
  cs_remote_display_name :: string
  cs_conversation_id :: string

text \<open>
  \<^verbatim>\<open>connect_alice_chat\<close> after the connection stands: \<open>bundle_bytes\<close> is what the peer sent first, \<open>hint\<close> the
  text of its address, \<open>initial_sent\<close> the outcome of sending the initial message.
\<close>

definition connect_alice_chat ::
    "crypto \<Rightarrow> chat_codec \<Rightarrow> (nat \<Rightarrow> bool) \<Rightarrow> bytes \<Rightarrow> u64 \<Rightarrow> string \<Rightarrow> string \<Rightarrow> bytes \<Rightarrow> net_error option
      \<Rightarrow> net_error option list \<Rightarrow> arrival list \<Rightarrow> alice \<Rightarrow> db \<Rightarrow> db \<times> alice \<times> bytes list \<times> (chat_error + chat_session)" where
  "connect_alice_chat K C fails private now local_display_name hint bundle_bytes initial_sent sends arrivals a s =
     (case decode_chat_prekey_bundle C bundle_bytes of
        Inl e \<Rightarrow> (s, a, [], Inl (AppError e))
      | Inr (remote_display_name, bundle) \<Rightarrow>
          (let conversation_id = contact_id_for_identity K (pb_identity_public_key bundle)
           in case save_contact_for_chat K fails now conversation_id remote_display_name (pb_identity_public_key bundle)
                     (''quic:'' @ hint) s of
                (s1, Inl e) \<Rightarrow> (s1, a, [], Inl (AppError e))
              | (s1, Inr _) \<Rightarrow>
                  (case encrypt_initial_message K private bundle [] a of
                     (a1, Inl e) \<Rightarrow> (s1, a1, [], Inl (AppError (AppCrypto e)))
                   | (a1, Inr initial) \<Rightarrow>
                       (let s2 = save_alice_identity C now a1 s1;
                            initial_bytes = cc_chat_initial C \<lparr>cim_sender_display_name = local_display_name,
                              cim_sender_identity_public_key = Some (ske_identity_public_key (alice_signed_key_exchange K a1)),
                              cim_message = initial\<rparr>
                        in case initial_sent of
                             Some err \<Rightarrow> (s2, a1, [], Inl (NetError err))
                           | None \<Rightarrow>
                               (case flush_pending_messages_to_bob K C now local_display_name conversation_id sends arrivals a1 s2 of
                                  (s3, a3, frames, _, Inl err) \<Rightarrow> (s3, a3, initial_bytes # frames, Inl err)
                                | (s3, a3, frames, _, Inr _) \<Rightarrow>
                                    (save_alice_identity C now a3 s3, a3, initial_bytes # frames,
                                     Inr \<lparr>cs_remote_display_name = remote_display_name, cs_conversation_id = conversation_id\<rparr>))))))"

text \<open>
  \<^verbatim>\<open>complete_bob_chat_handshake\<close>: \<open>received\<close> is the initial message as the connection delivers it, given
  the bundle that was sent.
\<close>

definition complete_bob_chat_handshake ::
    "crypto \<Rightarrow> chat_codec \<Rightarrow> (nat \<Rightarrow> bool) \<Rightarrow> bytes \<Rightarrow> u64 \<Rightarrow> string \<Rightarrow> net_error option \<Rightarrow> (bytes \<Rightarrow> net_error + bytes)
      \<Rightarrow> bob \<Rightarrow> db \<Rightarrow> db \<times> bob \<times> (chat_error + chat_session)" where
  "complete_bob_chat_handshake K C fails private now local_display_name bundle_sent received b s =
     (case publish_prekey_bundle K C private now local_display_name b of
        (b1, Inl e) \<Rightarrow> (s, b1, Inl (AppError e))
      | (b1, Inr payload) \<Rightarrow>
          (case bundle_sent of
             Some err \<Rightarrow> (s, b1, Inl (NetError err))
           | None \<Rightarrow>
               (case received payload of
                  Inl err \<Rightarrow> (s, b1, Inl (NetError err))
                | Inr initial_bytes \<Rightarrow>
                    (case accept_initial_message K C fails now local_display_name ''direct QUIC'' initial_bytes b1 s of
                       (s2, b2, Inl e) \<Rightarrow> (s2, b2, Inl (AppError e))
                     | (s2, b2, Inr (remote_display_name, conversation_id)) \<Rightarrow>
                         (s2, b2, Inr \<lparr>cs_remote_display_name = remote_display_name, cs_conversation_id = conversation_id\<rparr>)))))"

text \<open>
  \<^verbatim>\<open>run_chat_bob_with_endpoint\<close> up to its chat loop: it saves the identity before the bundle is sent and
  flushes the queue after the handshake.
\<close>

definition run_chat_bob_with_endpoint ::
    "crypto \<Rightarrow> chat_codec \<Rightarrow> (nat \<Rightarrow> bool) \<Rightarrow> bytes \<Rightarrow> u64 \<Rightarrow> string \<Rightarrow> net_error option \<Rightarrow> (bytes \<Rightarrow> net_error + bytes)
      \<Rightarrow> net_error option list \<Rightarrow> arrival list \<Rightarrow> bob \<Rightarrow> db \<Rightarrow> db \<times> bob \<times> bytes list \<times> (chat_error + chat_session)" where
  "run_chat_bob_with_endpoint K C fails private now local_display_name bundle_sent received sends arrivals b s =
     (case publish_prekey_bundle K C private now local_display_name b of
        (b1, Inl e) \<Rightarrow> (s, b1, [], Inl (AppError e))
      | (b1, Inr payload) \<Rightarrow>
          (let s1 = save_bob_identity C now b1 s
           in case bundle_sent of
                Some err \<Rightarrow> (s1, b1, [], Inl (NetError err))
              | None \<Rightarrow>
                  (case received payload of
                     Inl err \<Rightarrow> (s1, b1, [payload], Inl (NetError err))
                   | Inr initial_bytes \<Rightarrow>
                       (case accept_initial_message K C fails now local_display_name ''direct QUIC'' initial_bytes b1 s1 of
                          (s2, b2, Inl e) \<Rightarrow> (s2, b2, [payload], Inl (AppError e))
                        | (s2, b2, Inr (remote_display_name, conversation_id)) \<Rightarrow>
                            (case flush_pending_messages_to_alice K C now local_display_name conversation_id sends arrivals b2 s2 of
                               (s3, b3, frames, _, Inl err) \<Rightarrow> (s3, b3, payload # frames, Inl err)
                             | (s3, b3, frames, _, Inr _) \<Rightarrow> (s3, b3, payload # frames,
                                 Inr \<lparr>cs_remote_display_name = remote_display_name, cs_conversation_id = conversation_id\<rparr>))))))"

text \<open>
  One round of \<^verbatim>\<open>run_chat_listener\<close> up to its chat loop: a failed handshake leaves the listener running
  (\<open>Inr None\<close>), a failed flush ends it.  The identity is loaded anew for every connection; \<open>fresh\<close> is the
  identity made when none is stored.
\<close>

definition serve_chat_connection ::
    "crypto \<Rightarrow> chat_codec \<Rightarrow> (nat \<Rightarrow> bool) \<Rightarrow> bytes \<Rightarrow> bob \<Rightarrow> u64 \<Rightarrow> string \<Rightarrow> net_error option \<Rightarrow> (bytes \<Rightarrow> net_error + bytes)
      \<Rightarrow> net_error option list \<Rightarrow> arrival list \<Rightarrow> db \<Rightarrow> db \<times> bytes list \<times> (chat_error + (bob \<times> chat_session) option)" where
  "serve_chat_connection K C fails private fresh now local_display_name bundle_sent received sends arrivals s =
     (case load_or_create_bob_identity K C fresh now s of
        (s0, Inl e) \<Rightarrow> (s0, [], Inl (AppError e))
      | (s0, Inr b) \<Rightarrow>
          (case complete_bob_chat_handshake K C fails private now local_display_name bundle_sent received b s0 of
             (s1, b1, Inl _) \<Rightarrow> (s1, [], Inr None)
           | (s1, b1, Inr session) \<Rightarrow>
               (case flush_pending_messages_to_alice K C now local_display_name (cs_conversation_id session) sends arrivals b1 s1 of
                  (s2, b2, frames, _, Inl err) \<Rightarrow> (s2, frames, Inl err)
                | (s2, b2, frames, _, Inr _) \<Rightarrow> (save_bob_identity C now b2 s2, frames, Inr (Some (b2, session))))))"

section \<open>The chat loop\<close>

text \<open>
  The events of the loop: the terminal, with the outcome of sending a line, and the connection, with the
  outcome of sending an acknowledgement.  An incoming stream is awaited only while the peer is online.
\<close>

datatype quic_event =
    QuicCtrlC
  | QuicInputClosed
  | QuicLine string "net_error option"
  | QuicIncoming arrival

datatype quic_result = QuicContinue | QuicFinished | QuicFailed chat_error

definition quic_line ::
    "'e party \<Rightarrow> crypto \<Rightarrow> chat_codec \<Rightarrow> bytes \<Rightarrow> u64 \<Rightarrow> pairing_chat_context \<Rightarrow> string \<Rightarrow> net_error option \<Rightarrow> 'e pairing_chat
      \<Rightarrow> 'e pairing_chat \<times> bytes list \<times> quic_result" where
  "quic_line P K C random now cx line sent st =
     (if is_chat_back_command line then (st, [], QuicFinished)
      else if pc_online st
      then (case send_party_chat_line P K C now (pcc_local_display_name cx) (pcc_remote_display_name cx)
                   (pcc_conversation_id cx) line sent (pc_party st) (pc_db st) of
              (s1, e1, frames, Inr _) \<Rightarrow> (st\<lparr>pc_party := e1, pc_db := s1\<rparr>, frames, QuicContinue)
            | (s1, e1, frames, Inl err) \<Rightarrow>
                if peer_gone err
                then (\<lparr>pc_online = False, pc_party = e1,
                       pc_db = queue_message_after_peer_disconnect K random now (pcc_conversation_id cx) line s1\<rparr>, frames, QuicContinue)
                else (st\<lparr>pc_party := e1, pc_db := s1\<rparr>, frames, QuicFailed err))
      else (st\<lparr>pc_db := queue_message_after_peer_disconnect K random now (pcc_conversation_id cx) line (pc_db st)\<rparr>, [], QuicContinue))"

text \<open>A frame in the loop: unlike in the flush nothing is marked new, and a lost acknowledgement means offline.\<close>

definition quic_frame ::
    "'e party \<Rightarrow> crypto \<Rightarrow> chat_codec \<Rightarrow> u64 \<Rightarrow> pairing_chat_context \<Rightarrow> bytes \<Rightarrow> net_error option \<Rightarrow> 'e pairing_chat
      \<Rightarrow> 'e pairing_chat \<times> bytes list \<times> quic_result" where
  "quic_frame P K C now cx frame_bytes ack_sent st = (case cc_frame_decode C frame_bytes of
     None \<Rightarrow> (st, [], QuicFailed (AppError AppCodec))
   | Some (FrameAck _) \<Rightarrow> (st, [], QuicContinue)
   | Some (FrameMessage message_id sender_display_name message) \<Rightarrow>
       (case (if chat_message_already_saved message_id (pc_db st) then (pc_db st, pc_party st, Inr [])
              else store_incoming P K C now (pcc_local_display_name cx) (pcc_conversation_id cx) frame_bytes message_id
                     sender_display_name message (pc_party st) (pc_db st)) of
          (s1, e1, Inl err) \<Rightarrow> (st\<lparr>pc_party := e1, pc_db := s1\<rparr>, [], QuicFailed (AppError err))
        | (s1, e1, Inr _) \<Rightarrow>
            (case ack_sent of
               None \<Rightarrow> (st\<lparr>pc_party := e1, pc_db := s1\<rparr>, [cc_frame C (FrameAck message_id)], QuicContinue)
             | Some err \<Rightarrow>
                 if is_peer_disconnect_app_error err
                 then (\<lparr>pc_online = False, pc_party = e1, pc_db = s1\<rparr>, [], QuicContinue)
                 else (st\<lparr>pc_party := e1, pc_db := s1\<rparr>, [], QuicFailed (NetError err)))))"

definition quic_lost :: "chat_error \<Rightarrow> 'e pairing_chat \<Rightarrow> 'e pairing_chat \<times> bytes list \<times> quic_result" where
  "quic_lost err st = (if peer_gone err then (st\<lparr>pc_online := False\<rparr>, [], QuicContinue) else (st, [], QuicFailed err))"

fun quic_incoming ::
    "'e party \<Rightarrow> crypto \<Rightarrow> chat_codec \<Rightarrow> u64 \<Rightarrow> pairing_chat_context \<Rightarrow> arrival \<Rightarrow> 'e pairing_chat
      \<Rightarrow> 'e pairing_chat \<times> bytes list \<times> quic_result" where
  "quic_incoming P K C now cx AckTimeout st = (st, [], QuicContinue)"
| "quic_incoming P K C now cx (AcceptFailed err) st = quic_lost (NetError (ConnectionFailed err)) st"
| "quic_incoming P K C now cx (ReceiveFailed err) st = quic_lost (NetError err) st"
| "quic_incoming P K C now cx (Received frame_bytes ack_sent) st = quic_frame P K C now cx frame_bytes ack_sent st"

fun quic_chat_step ::
    "'e party \<Rightarrow> crypto \<Rightarrow> chat_codec \<Rightarrow> bytes \<Rightarrow> u64 \<Rightarrow> pairing_chat_context \<Rightarrow> quic_event \<Rightarrow> 'e pairing_chat
      \<Rightarrow> 'e pairing_chat \<times> bytes list \<times> quic_result" where
  "quic_chat_step P K C random now cx QuicCtrlC st = (st, [], QuicFinished)"
| "quic_chat_step P K C random now cx QuicInputClosed st = (st, [], QuicFinished)"
| "quic_chat_step P K C random now cx (QuicLine line sent) st = quic_line P K C random now cx line sent st"
| "quic_chat_step P K C random now cx (QuicIncoming arrival) st =
     (if pc_online st then quic_incoming P K C now cx arrival st else (st, [], QuicContinue))"

definition chat_loop_alice where "chat_loop_alice = quic_chat_step alice_party"
definition chat_loop_bob_shared where "chat_loop_bob_shared = quic_chat_step bob_party"

section \<open>What a flush removes\<close>

text \<open>A queued message apart from its attempts.\<close>

definition queue_key :: "pending_row \<Rightarrow> string \<times> string \<times> string" where
  "queue_key r = (pw_message_id r, pw_peer_id r, pw_plaintext r)"

lemma queued_key: "queued mid pid p s \<longleftrightarrow> (mid, pid, p) \<in> queue_key ` set (pending_peer_messages s)"
  by (auto simp: queued_def queue_key_def)

lemma keys_attempt [simp]:
  "map queue_key (pending_peer_messages (record_pending_peer_message_attempt m now s)) = map queue_key (pending_peer_messages s)"
  by (simp add: record_pending_peer_message_attempt_def update_where_def queue_key_def)

lemma keys_delivered [simp]:
  "map queue_key (pending_peer_messages (mark_delivered_if_pending m s)) =
     filter (\<lambda>k. fst k \<noteq> m) (map queue_key (pending_peer_messages s))"
  by (simp add: mark_delivered_if_pending_def update_message_status_def remove_pending_peer_message_def delete_where_def
      queue_key_def filter_map comp_def)

lemma pending_marked_new [simp]: "pending_peer_messages (mark_message_new cid mid now s) = pending_peer_messages s"
  by (simp add: mark_message_new_def)

context chat_party
begin

lemma store_keeps:
  "store_incoming P K C now ln cid bs mid name m e s = (s', e', res) \<Longrightarrow> pending_peer_messages s' = pending_peer_messages s"
  by (auto simp: store_incoming_def save_pending split: prod.splits sum.splits)

lemma flush_incoming_keeps:
  "handle_incoming_during_flush P K C now ln cid bs frame ack_sent e s = (s', e', acks, res) \<Longrightarrow>
     pending_peer_messages s' = pending_peer_messages s"
  by (auto simp: handle_incoming_during_flush_def dest: store_keeps
      split: chat_frame.splits if_splits prod.splits sum.splits option.splits)

lemma wait_keeps:
  "wait_for_chat_ack P K C now ln cid expected arrivals e s = (s', e', acks, rest, res) \<Longrightarrow>
     pending_peer_messages s' = pending_peer_messages s \<and> set rest \<subseteq> set arrivals
     \<and> (res = Inr True \<longrightarrow> (\<exists>bs out. Received bs out \<in> set arrivals \<and> cc_frame_decode C bs = Some (FrameAck expected)))"
proof (induction arrivals arbitrary: e s acks)
  case (Cons x arrivals)
  show ?case
  proof (cases x)
    case (Received bs out)
    show ?thesis
    proof (cases "cc_frame_decode C bs")
      case None
      then show ?thesis using Cons.prems by (auto simp: Received)
    next
      case (Some frame)
      obtain s1 e1 acks1 res1 where h: "handle_incoming_during_flush P K C now ln cid bs frame out e s = (s1, e1, acks1, res1)"
        by (cases "handle_incoming_during_flush P K C now ln cid bs frame out e s")
      note pend = flush_incoming_keeps [OF h]
      consider "frame = FrameAck expected" | err where "frame \<noteq> FrameAck expected" "res1 = Inl err" | "frame \<noteq> FrameAck expected" "res1 = Inr ()"
        by (cases res1) auto
      then show ?thesis
      proof cases
        case 3
        obtain s2 e2 frames rest2 res2 where w: "wait_for_chat_ack P K C now ln cid expected arrivals e1 s1 = (s2, e2, frames, rest2, res2)"
          by (cases "wait_for_chat_ack P K C now ln cid expected arrivals e1 s1")
        then have eq: "s2 = s'" "e2 = e'" "rest2 = rest" "res2 = res" using Cons.prems 3 by (simp_all add: Received Some h)
        show ?thesis using Cons.IH [OF w [unfolded eq]] pend by auto
      qed (use Cons.prems pend Some in \<open>auto simp: Received h\<close>)
    qed
  qed (use Cons.prems in \<open>auto split: if_splits\<close>)
qed auto

lemma flush_loop_keeps:
  "flush_loop P K C now ln cid items sends arrivals e s = (s', e', frames, rest, res) \<Longrightarrow> queued mid pid p s \<Longrightarrow>
     (\<forall>bs out. Received bs out \<in> set arrivals \<longrightarrow> cc_frame_decode C bs \<noteq> Some (FrameAck mid)) \<Longrightarrow> queued mid pid p s'"
proof (induction items arbitrary: sends arrivals e s frames)
  case (Cons item items)
  let ?s1 = "record_pending_peer_message_attempt (pm_message_id item) now s"
  have q1: "queued mid pid p ?s1" using Cons.prems(2) by simp
  obtain e1 r1 where enc: "pt_encrypt P K (pm_plaintext item) e = (e1, r1)" by (cases "pt_encrypt P K (pm_plaintext item) e")
  show ?case
  proof (cases r1)
    case (Inl err)
    then show ?thesis using Cons.prems(1) q1 by (simp add: enc Let_def)
  next
    case (Inr m)
    let ?s2 = "pt_save P C now e1 ?s1" and ?w = "wait_for_chat_ack P K C now ln cid (pm_message_id item) arrivals e1"
    have q2: "queued mid pid p ?s2" using q1 queued_cong [OF save_pending] by blast
    obtain s3 e3 acks rest3 r3 where w: "?w ?s2 = (s3, e3, acks, rest3, r3)" by (cases "?w ?s2")
    note keeps = wait_keeps [OF w]
    have q3: "queued mid pid p s3" using keeps q2 queued_cong by blast
    consider err where "(case sends of [] \<Rightarrow> None | outcome # _ \<Rightarrow> outcome) = Some err"
      | "(case sends of [] \<Rightarrow> None | outcome # _ \<Rightarrow> outcome) = None" "r3 \<noteq> Inr True"
      | "(case sends of [] \<Rightarrow> None | outcome # _ \<Rightarrow> outcome) = None" "r3 = Inr True" by blast
    then show ?thesis
    proof cases
      case 1
      then show ?thesis using Cons.prems(1) q2 by (auto simp: enc Inr Let_def)
    next
      case 2
      then show ?thesis using Cons.prems(1) q3 by (auto simp: enc Inr Let_def w split: sum.splits bool.splits)
    next
      case 3
      have ne: "pm_message_id item \<noteq> mid" using keeps 3(2) Cons.prems(3) by blast
      obtain s4 e4 frames4 rest4 r4 where f: "flush_loop P K C now ln cid items (tl sends) rest3 e3
          (mark_delivered_if_pending (pm_message_id item) s3) = (s4, e4, frames4, rest4, r4)"
        by (cases "flush_loop P K C now ln cid items (tl sends) rest3 e3 (mark_delivered_if_pending (pm_message_id item) s3)")
      then have eq: "s4 = s'" "e4 = e'" "rest4 = rest" "r4 = res" using Cons.prems(1) 3 by (simp_all add: enc Inr Let_def w)
      show ?thesis
        by (rule Cons.IH [OF f [unfolded eq] queued_delivered [OF q3 ne]]) (use Cons.prems(3) keeps in blast)
    qed
  qed
qed simp

text \<open>Acknowledgements of the first \<open>k\<close> items, then silence.\<close>

lemma flush_prefix:
  assumes C: "\<And>x. cc_frame_decode C (cc_frame C x) = Some x"
    and "session e = Some ss" "snd (encrypt_all K (map pm_plaintext items) ss) = map Inr ms"
    and "k \<le> length items" "late = [] \<or> hd late = AckTimeout"
  shows "\<exists>s' e' rest. flush_loop P K C now ln cid items []
        (map (\<lambda>item. Received (cc_frame C (FrameAck (pm_message_id item))) None) (take k items) @ late) e s
      = (s', e', take (Suc k) (item_frames C ln items ms), rest, Inr ())
    \<and> map queue_key (pending_peer_messages s') =
        filter (\<lambda>q. fst q \<notin> pm_message_id ` set (take k items)) (map queue_key (pending_peer_messages s))"
  using assms(2-4)
proof (induction items arbitrary: e ss ms k s)
  case (Cons item items)
  obtain ss1 res where enc: "ratchet_encrypt K (pm_plaintext item) ss = (ss1, res)" by (cases "ratchet_encrypt K (pm_plaintext item) ss")
  with Cons.prems(2) obtain m ms' where ms: "ms = m # ms'" "res = Inr m" "snd (encrypt_all K (map pm_plaintext items) ss1) = map Inr ms'"
    by (cases ms) (auto simp: case_prod_unfold Let_def)
  let ?d = "pt_encrypt P K (pm_plaintext item) e"
  have d: "?d = (fst ?d, Inr m)" "session (fst ?d) = Some ss1"
    using send_session [OF Cons.prems(1), of K "pm_plaintext item"] enc ms(2) by (auto simp: prod_eq_iff)
  let ?s2 = "pt_save P C now (fst ?d) (record_pending_peer_message_attempt (pm_message_id item) now s)"
    and ?f = "cc_frame C (FrameMessage (pm_message_id item) ln m)"
  have keys: "map queue_key (pending_peer_messages ?s2) = map queue_key (pending_peer_messages s)" by (simp add: save_pending)
  show ?case
  proof (cases k)
    case 0
    have "\<exists>rest. wait_for_chat_ack P K C now ln cid (pm_message_id item) late (fst ?d) ?s2 = (?s2, fst ?d, [], rest, Inr False)"
      using assms(5) by (cases late) auto
    then obtain rest where w: "wait_for_chat_ack P K C now ln cid (pm_message_id item) late (fst ?d) ?s2 = (?s2, fst ?d, [], rest, Inr False)" ..
    show ?thesis
      by (rule exI [of _ ?s2], rule exI [of _ "fst ?d"], rule exI [of _ rest])
         (simp add: 0, subst d(1), simp add: Let_def w ms(1) item_frames_def keys)
  next
    case (Suc k')
    let ?as = "map (\<lambda>item. Received (cc_frame C (FrameAck (pm_message_id item))) None) (take k' items) @ late"
    let ?s3 = "mark_delivered_if_pending (pm_message_id item) ?s2"
    have "k' \<le> length items" using Cons.prems(3) Suc by simp
    then obtain s' e' rest where r: "flush_loop P K C now ln cid items [] ?as (fst ?d) ?s3
        = (s', e', take (Suc k') (item_frames C ln items ms'), rest, Inr ())"
      "map queue_key (pending_peer_messages s') =
        filter (\<lambda>q. fst q \<notin> pm_message_id ` set (take k' items)) (map queue_key (pending_peer_messages ?s3))"
      using Cons.IH [OF d(2) ms(3)] by blast
    have w: "wait_for_chat_ack P K C now ln cid (pm_message_id item)
        (Received (cc_frame C (FrameAck (pm_message_id item))) None # ?as) (fst ?d) ?s2 = (?s2, fst ?d, [], ?as, Inr True)"
      by (simp add: C)
    have "map queue_key (pending_peer_messages s') =
        filter (\<lambda>q. fst q \<notin> pm_message_id ` set (take k (item # items))) (map queue_key (pending_peer_messages s))"
      unfolding r(2) keys_delivered keys by (simp add: Suc conj_commute)
    moreover have "flush_loop P K C now ln cid (item # items) [] (Received (cc_frame C (FrameAck (pm_message_id item))) None # ?as) e s
        = (s', e', ?f # take (Suc k') (item_frames C ln items ms'), rest, Inr ())"
      unfolding flush_loop.simps Let_def by (subst d(1)) (simp add: w r(1) del: wait_for_chat_ack.simps)
    ultimately show ?thesis
      by (intro exI [of _ s'] exI [of _ e'] exI [of _ rest]) (simp add: Suc ms(1) item_frames_def)
  qed
qed (simp add: item_frames_def)

end

text \<open>
  C32: When the queue is flushed over a QUIC connection and the peer acknowledges its first \<open>k\<close> messages and
  then falls silent, these messages were sent in order, one at a time, and exactly they are taken off
  the queue; the message whose acknowledgement is missing was sent and stays, the rest is not sent.
\<close>

theorem flush_removes_acknowledged_prefix:
  assumes "crypto_ok K" "chat_codec_ok C" "al_session a = Some ss"
    and "items = pending_peer_messages_for_peer (pending_peer_id_for_conversation K cid s) s"
    and "snd (encrypt_all K (map pm_plaintext items) ss) = map Inr ms" "k \<le> length items"
    and "arrivals = map (\<lambda>item. Received (cc_frame C (FrameAck (pm_message_id item))) None) (take k items) @ late"
    and "late = [] \<or> hd late = AckTimeout"
  shows "\<exists>s' a' rest. flush_pending_messages_to_bob K C now ln cid [] arrivals a s
      = (s', a', take (Suc k) (item_frames C ln items ms), rest, Inr ())
    \<and> map queue_key (pending_peer_messages s') =
        filter (\<lambda>q. fst q \<notin> pm_message_id ` set (take k items)) (map queue_key (pending_peer_messages s))"
  unfolding flush_pending_messages_to_bob_def flush_pending_messages_def assms(4) [symmetric] assms(7)
  by (rule alice_chat.flush_prefix [OF _ assms(3,5,6,8)]) (use assms(2) in \<open>simp add: chat_codec_ok_def\<close>)

theorem flush_removes_acknowledged_prefix_witness:
  "\<exists>ms s' a' rest. flush_pending_messages_to_bob toy_crypto toy_chat_codec 5 ''me'' ''c''
        [] [Received (cc_frame toy_chat_codec (FrameAck ''m1'')) None] (pc_party (toy_alice_chat init_db))
        (init_db\<lparr>pending_peer_messages := [toy_waiting]\<rparr>)
      = (s', a', item_frames toy_chat_codec ''me'' [pending_peer_message_from_row toy_waiting] ms, rest, Inr ())
    \<and> length ms = 1 \<and> pending_peer_messages s' = []"
proof -
  let ?s = "init_db\<lparr>pending_peer_messages := [toy_waiting]\<rparr>" and ?items = "[pending_peer_message_from_row toy_waiting]"
    and ?a = "pc_party (toy_alice_chat init_db)" and ?ack = "[Received (cc_frame toy_chat_codec (FrameAck ''m1'')) None]"
  have peer: "pending_peer_id_for_conversation toy_crypto ''c'' ?s = ''c''"
    by (simp add: pending_peer_id_for_conversation_def load_known_peer_for_conversation_def known_peer_for_conversation_def
        load_contact_def select_one_def init_tables)
  have items: "?items = pending_peer_messages_for_peer (pending_peer_id_for_conversation toy_crypto ''c'' ?s) ?s"
    unfolding peer by (simp add: pending_peer_messages_for_peer_def select_order_by_def toy_waiting_def)
  have K: "hkdf_total toy_crypto" "aead_correct toy_crypto" using toy_crypto_ok by (simp_all add: crypto_ok_def)
  obtain ms where ms: "snd (encrypt_all toy_crypto (map pm_plaintext ?items) (toy_session RoleAlice [1] [2])) = map Inr ms" "length ms = 1"
    using encrypt_all_total [OF K, of "map pm_plaintext ?items"] by auto
  have mid: "pw_message_id toy_waiting = ''m1''" "pm_message_id (pending_peer_message_from_row toy_waiting) = ''m1''"
    by (simp_all add: pending_peer_message_from_row_def toy_waiting_def)
  have acks: "?ack = map (\<lambda>item. Received (cc_frame toy_chat_codec (FrameAck (pm_message_id item))) None) (take 1 ?items) @ []"
    by (simp add: mid)
  have le: "1 \<le> length ?items" by simp
  from flush_removes_acknowledged_prefix [OF toy_crypto_ok toy_chat_codec_ok toy_chat(1) [of init_db] items ms(1) le acks disjI1 [OF refl],
      of 5 "''me''"]
  obtain s' a' rest where r: "flush_pending_messages_to_bob toy_crypto toy_chat_codec 5 ''me'' ''c'' [] ?ack ?a ?s
      = (s', a', take (Suc 1) (item_frames toy_chat_codec ''me'' ?items ms), rest, Inr ())"
    "map queue_key (pending_peer_messages s') =
      filter (\<lambda>q. fst q \<notin> pm_message_id ` set (take 1 ?items)) (map queue_key (pending_peer_messages ?s))" by blast
  have "pending_peer_messages s' = []" using r(2) by (simp add: mid queue_key_def toy_waiting_def)
  moreover have "take (Suc 1) (item_frames toy_chat_codec ''me'' ?items ms) = item_frames toy_chat_codec ''me'' ?items ms"
    using ms(2) by (simp add: item_frames_def)
  ultimately show ?thesis using r(1) ms(2) by auto
qed

text \<open>
  Whatever arrives during a flush, a queued message that the peer did not acknowledge stays queued.
\<close>

theorem flush_keeps_unacknowledged:
  assumes "flush_pending_messages_to_bob K C now ln cid sends arrivals a s = (s', a', frames, rest, res)" "queued mid pid p s"
    and "\<forall>bs out. Received bs out \<in> set arrivals \<longrightarrow> cc_frame_decode C bs \<noteq> Some (FrameAck mid)"
  shows "queued mid pid p s'"
  using assms unfolding flush_pending_messages_to_bob_def flush_pending_messages_def by (rule alice_chat.flush_loop_keeps)

text \<open>
  While the peer is offline the QUIC chat queues an empty line, which the same loop ignores when the
  peer is online and which the pairing chat ignores always.
\<close>

theorem empty_line_queued_offline:
  assumes "\<not> pc_online st" "load_known_peer_for_conversation K (pcc_conversation_id cx) (pc_db st) = Some peer"
    and "mid = pending_peer_message_id K random now (kp_peer_id peer) []"
    and "\<not> has_key pw_message_id mid (pending_peer_messages (pc_db st))"
  shows "queued mid (kp_peer_id peer) [] (pc_db (fst (chat_loop_alice K C random now cx (QuicLine [] sent) st)))
    \<and> pairing_chat_step alice_party K C random now target cx (Line []) st = (st, [], Continue)
    \<and> chat_loop_alice K C random now cx (QuicLine [] None) (st\<lparr>pc_online := True\<rparr>) = (st\<lparr>pc_online := True\<rparr>, [], QuicContinue)"
proof -
  have stays: "\<not> is_chat_back_command []" by code_simp
  show ?thesis using assms stays
    by (simp add: chat_loop_alice_def quic_line_def send_party_chat_line_def queue_message_after_peer_disconnect_def
        queue_offline_peer_message_def Let_def queued_def insert_message_def queue_pending_peer_message_def insert_or_ignore_def
        pending_to_row_def)
qed

theorem empty_line_queued_offline_witness:
  "\<exists>mid. queued mid ''p'' [] (pc_db (fst (chat_loop_alice toy_crypto toy_chat_codec [] 5 toy_context (QuicLine [] None)
     ((toy_alice_chat (init_db\<lparr>known_peers := [\<lparr>kw_peer_id = ''p'', kw_identity_public_key = [], kw_display_name = ''Bo'',
        kw_conversation_id = ''c'', kw_last_seen_at = 1\<rparr>]\<rparr>))\<lparr>pc_online := False\<rparr>))))"
proof -
  let ?r = "\<lparr>kw_peer_id = ''p'', kw_identity_public_key = [], kw_display_name = ''Bo'', kw_conversation_id = ''c'', kw_last_seen_at = 1\<rparr>"
  let ?st = "(toy_alice_chat (init_db\<lparr>known_peers := [?r]\<rparr>))\<lparr>pc_online := False\<rparr>"
  have peer: "load_known_peer_for_conversation toy_crypto (pcc_conversation_id toy_context) (pc_db ?st) = Some (known_peer_from_row ?r)"
    by (simp add: load_known_peer_for_conversation_def known_peer_for_conversation_def select_one_def toy_context_def)
  have "\<not> pc_online ?st" "\<not> has_key pw_message_id m (pending_peer_messages (pc_db ?st))" for m by (simp_all add: has_key_def init_tables)
  note queued = empty_line_queued_offline [where C = toy_chat_codec and random = "[]" and now = 5 and sent = None, OF this(1) peer refl this(2)]
  have "kp_peer_id (known_peer_from_row ?r) = ''p''" by (simp add: known_peer_from_row_def)
  then show ?thesis using conjunct1 [OF queued] by metis
qed

end
