(* ===== verification/OneShot.thy ===== *)
theory OneShot
  imports Quic
begin

text \<open>
  The commands that deliver one message and then chat (\<^verbatim>\<open>src/src/main.rs\<close>): \<^verbatim>\<open>run_alice\<close> and
  \<^verbatim>\<open>run_bob_quic_once\<close> over a direct QUIC connection, \<^verbatim>\<open>run_alice_relayed\<close> and \<^verbatim>\<open>handle_bob_app_event\<close>
  over libp2p requests, the lookup of a peer's address and of an invite in the local network.
  Connections and swarms are given by what they deliver; printing is left out.
\<close>

section \<open>The chat loop over QUIC\<close>

type_synonym timed_quic_event = "u64 \<times> bytes \<times> quic_event"

fun quic_chat_run ::
    "'e party \<Rightarrow> crypto \<Rightarrow> chat_codec \<Rightarrow> pairing_chat_context \<Rightarrow> timed_quic_event list \<Rightarrow> 'e pairing_chat
      \<Rightarrow> 'e pairing_chat \<times> bytes list \<times> quic_result" where
  "quic_chat_run P K C cx [] st = (st, [], QuicContinue)"
| "quic_chat_run P K C cx ((now, random, ev) # evs) st =
     (case quic_chat_step P K C random now cx ev st of
        (st1, frames, QuicContinue) \<Rightarrow>
          (case quic_chat_run P K C cx evs st1 of (st2, frames2, r) \<Rightarrow> (st2, frames @ frames2, r))
      | (st1, frames, r) \<Rightarrow> (st1, frames, r))"

definition quic_chat ::
    "'e party \<Rightarrow> crypto \<Rightarrow> chat_codec \<Rightarrow> pairing_chat_context \<Rightarrow> timed_quic_event list \<Rightarrow> 'e \<Rightarrow> db
      \<Rightarrow> db \<times> 'e \<times> bytes list \<times> quic_result" where
  "quic_chat P K C cx evs e s =
     (case quic_chat_run P K C cx evs \<lparr>pc_online = True, pc_party = e, pc_db = print_conversation (pcc_conversation_id cx) s\<rparr> of
        (st, frames, r) \<Rightarrow> (pc_db st, pc_party st, frames, r))"

section \<open>The direct connection\<close>

text \<open>
  What a connection yields on Bob's side: the outcome of sending the bundle, the initial message given
  that bundle, the outcome of sending the acknowledgement, the events of the chat; and on Alice's side.
\<close>

record bob_link =
  bl_bundle_sent :: "net_error option"
  bl_received :: "bytes \<Rightarrow> net_error + bytes"
  bl_ack_sent :: "net_error option"
  bl_chat :: "timed_quic_event list"

record alice_link =
  al_connected :: "chat_error option"
  al_bundle :: "net_error + bytes"
  al_initial_sent :: "net_error option"
  al_ack :: "net_error + bytes"
  al_sends :: "net_error option list"
  al_arrivals :: "arrival list"
  al_chat :: "timed_quic_event list"

definition initial_conversation_id :: "crypto \<Rightarrow> chat_initial_message \<Rightarrow> string" where
  "initial_conversation_id K initial = (case cim_sender_identity_public_key initial of
     Some key \<Rightarrow> contact_id_for_identity K key
   | None \<Rightarrow> contact_id_for_display_name K (cim_sender_display_name initial))"

definition initial_identity :: "chat_initial_message \<Rightarrow> bytes" where
  "initial_identity initial = (case cim_sender_identity_public_key initial of
     Some key \<Rightarrow> key | None \<Rightarrow> as_bytes ''legacy display-name contact'')"

definition one_shot_received :: "string \<Rightarrow> string \<Rightarrow> string \<Rightarrow> bytes \<Rightarrow> string \<Rightarrow> chat_history_entry" where
  "one_shot_received conversation_id remote_display_name local_display_name encrypted_bytes plaintext =
     \<lparr>che_message_id = None, che_conversation_id = conversation_id,
      che_sender_display_name = remote_display_name, che_peer_display_name = local_display_name,
      che_direction = DirReceived, che_status = StatusReceived, che_protocol_counter = None,
      che_ciphertext = encrypted_bytes, che_plaintext = plaintext\<rparr>"

definition run_bob_quic_once ::
    "crypto \<Rightarrow> chat_codec \<Rightarrow> (nat \<Rightarrow> bool) \<Rightarrow> u64 \<Rightarrow> string \<Rightarrow> bob_link \<Rightarrow> bob \<Rightarrow> db
      \<Rightarrow> db \<times> bob \<times> bytes list \<times> quic_result" where
  "run_bob_quic_once K C fails now local_display_name link b s =
     (case bob_prekey_bundle K b of
        Inl e \<Rightarrow> (s, b, [], QuicFailed (AppError (AppCrypto e)))
      | Inr bundle \<Rightarrow>
     (let payload = cc_prekey C \<lparr>cpb_sender_display_name = local_display_name, cpb_bundle = bundle\<rparr>
      in case bl_bundle_sent link of
        Some err \<Rightarrow> (s, b, [], QuicFailed (NetError err))
      | None \<Rightarrow>
     (case bl_received link payload of
        Inl err \<Rightarrow> (s, b, [payload], QuicFailed (NetError err))
      | Inr encrypted_bytes \<Rightarrow>
     (case decode_chat_initial_message C encrypted_bytes of
        Inl e \<Rightarrow> (s, b, [payload], QuicFailed (AppError e))
      | Inr initial \<Rightarrow>
     (let remote_display_name = cim_sender_display_name initial; conversation_id = initial_conversation_id K initial
      in case save_contact_for_chat K fails now conversation_id remote_display_name (initial_identity initial) ''direct QUIC'' s of
        (s1, Inl e) \<Rightarrow> (s1, b, [payload], QuicFailed (AppError e))
      | (s1, Inr _) \<Rightarrow>
     (case decrypt_initial_message K (cim_message initial) b of
        (b1, Inl e) \<Rightarrow> (s1, b1, [payload], QuicFailed (AppError (AppCrypto e)))
      | (b1, Inr plaintext) \<Rightarrow>
     (let s2 = (if plaintext = [] then s1 else persist_chat_message K now
            (one_shot_received conversation_id remote_display_name local_display_name encrypted_bytes plaintext) s1);
          cx = \<lparr>pcc_local_display_name = local_display_name, pcc_remote_display_name = remote_display_name,
                pcc_conversation_id = conversation_id\<rparr>;
          acks = (if plaintext = [] then [] else [as_bytes ''ok''])
      in case (if plaintext = [] then None else bl_ack_sent link) of
        Some err \<Rightarrow> (s2, b1, [payload], QuicFailed (NetError err))
      | None \<Rightarrow>
          (case quic_chat bob_party K C cx (bl_chat link) b1 s2 of
             (s3, b2, frames, r) \<Rightarrow> (s3, b2, payload # acks @ frames, r)))))))))"

definition one_shot_sent :: "string \<Rightarrow> string \<Rightarrow> string \<Rightarrow> bytes \<Rightarrow> string \<Rightarrow> chat_history_entry" where
  "one_shot_sent conversation_id local_display_name remote_display_name encrypted_bytes message =
     \<lparr>che_message_id = None, che_conversation_id = conversation_id,
      che_sender_display_name = local_display_name, che_peer_display_name = remote_display_name,
      che_direction = DirSent, che_status = StatusSent, che_protocol_counter = None,
      che_ciphertext = encrypted_bytes, che_plaintext = message\<rparr>"

definition run_alice ::
    "crypto \<Rightarrow> chat_codec \<Rightarrow> (nat \<Rightarrow> bool) \<Rightarrow> bytes \<Rightarrow> u64 \<Rightarrow> string \<Rightarrow> string \<Rightarrow> string \<Rightarrow> alice_link \<Rightarrow> alice \<Rightarrow> db
      \<Rightarrow> db \<times> alice \<times> bytes list \<times> quic_result" where
  "run_alice K C fails private now local_display_name hint message link a s =
     (case al_connected link of
        Some err \<Rightarrow> (s, a, [], QuicFailed err)
      | None \<Rightarrow>
     (case al_bundle link of
        Inl err \<Rightarrow> (s, a, [], QuicFailed (NetError err))
      | Inr bundle_bytes \<Rightarrow>
     (case decode_chat_prekey_bundle C bundle_bytes of
        Inl e \<Rightarrow> (s, a, [], QuicFailed (AppError e))
      | Inr (remote_display_name, bundle) \<Rightarrow>
     (let conversation_id = contact_id_for_identity K (pb_identity_public_key bundle)
      in case save_contact_for_chat K fails now conversation_id remote_display_name (pb_identity_public_key bundle)
            (''quic:'' @ hint) s of
        (s1, Inl e) \<Rightarrow> (s1, a, [], QuicFailed (AppError e))
      | (s1, Inr _) \<Rightarrow>
     (case encrypt_initial_message K private bundle message a of
        (a1, Inl e) \<Rightarrow> (s1, a1, [], QuicFailed (AppError (AppCrypto e)))
      | (a1, Inr initial_message) \<Rightarrow>
     (let encrypted_bytes = cc_chat_initial C \<lparr>cim_sender_display_name = local_display_name,
            cim_sender_identity_public_key = Some (ske_identity_public_key (alice_signed_key_exchange K a1)),
            cim_message = initial_message\<rparr>;
          cx = \<lparr>pcc_local_display_name = local_display_name, pcc_remote_display_name = remote_display_name,
                pcc_conversation_id = conversation_id\<rparr>
      in case al_initial_sent link of
        Some err \<Rightarrow> (s1, a1, [], QuicFailed (NetError err))
      | None \<Rightarrow>
     (case al_ack link of
        Inl err \<Rightarrow> (s1, a1, [encrypted_bytes], QuicFailed (NetError err))
      | Inr ack_bytes \<Rightarrow>
     (case flush_pending_messages_to_bob K C now local_display_name conversation_id (al_sends link) (al_arrivals link) a1 s1 of
        (s2, a2, frames, _, Inl err) \<Rightarrow> (s2, a2, encrypted_bytes # frames, QuicFailed err)
      | (s2, a2, frames, _, Inr _) \<Rightarrow>
     (let s3 = (if message = [] then s2 else persist_chat_message K now
            (one_shot_sent conversation_id local_display_name remote_display_name encrypted_bytes message) s2)
      in case quic_chat alice_party K C cx (al_chat link) a2 s3 of
           (s4, a3, frames2, r) \<Rightarrow> (s4, a3, encrypted_bytes # frames @ frames2, r))))))))))"

section \<open>The relayed exchange\<close>

datatype cm_request = CmPreKeyBundle | CmInitialMessage bytes | CmInviteLookup string

datatype cm_response = CmBundle bytes | CmAck bytes | CmInviteAddress "string option" | CmError string

record relayed_alice =
  ra_requested_bundle :: bool
  ra_sent_initial :: bool
  ra_alice :: alice

datatype relay_event =
    RelayTimeout
  | RelayConnected peer_id
  | RelayResponse cm_response
  | RelayRequestFailed
  | OtherRelayEvent

datatype relay_result = RelayContinue | RelayDone | RelayFailed app_error

text \<open>\<open>private\<close> is the ephemeral key the initial message would use.  Requests go to \<open>bob_peer_id\<close>.\<close>

fun run_alice_relayed_step ::
    "crypto \<Rightarrow> chat_codec \<Rightarrow> bytes \<Rightarrow> peer_id \<Rightarrow> string \<Rightarrow> relay_event \<Rightarrow> relayed_alice
      \<Rightarrow> relayed_alice \<times> cm_request list \<times> relay_result" where
  "run_alice_relayed_step K C private bob_peer_id message RelayTimeout st =
     (st, [], RelayFailed (AppMessage ''relay fallback timed out''))"
| "run_alice_relayed_step K C private bob_peer_id message (RelayConnected peer) st =
     (if peer = bob_peer_id \<and> \<not> ra_requested_bundle st
      then (st\<lparr>ra_requested_bundle := True\<rparr>, [CmPreKeyBundle], RelayContinue) else (st, [], RelayContinue))"
| "run_alice_relayed_step K C private bob_peer_id message (RelayResponse (CmBundle bundle_bytes)) st =
     (if ra_sent_initial st then (st, [], RelayContinue)
      else (case cc_bare_prekey_decode C bundle_bytes of
              None \<Rightarrow> (st, [], RelayFailed AppCodec)
            | Some bundle \<Rightarrow>
                (case encrypt_initial_message K private bundle message (ra_alice st) of
                   (a1, Inl e) \<Rightarrow> (st\<lparr>ra_alice := a1\<rparr>, [], RelayFailed (AppCrypto e))
                 | (a1, Inr initial_message) \<Rightarrow>
                     (st\<lparr>ra_alice := a1, ra_sent_initial := True\<rparr>,
                      [CmInitialMessage (cd_initial C initial_message)], RelayContinue))))"
| "run_alice_relayed_step K C private bob_peer_id message (RelayResponse (CmAck ack_bytes)) st = (st, [], RelayDone)"
| "run_alice_relayed_step K C private bob_peer_id message (RelayResponse (CmError error)) st =
     (st, [], RelayFailed (AppMessage error))"
| "run_alice_relayed_step K C private bob_peer_id message (RelayResponse (CmInviteAddress _)) st = (st, [], RelayContinue)"
| "run_alice_relayed_step K C private bob_peer_id message RelayRequestFailed st =
     (st, [], RelayFailed (AppMessage ''relay app request failed''))"
| "run_alice_relayed_step K C private bob_peer_id message OtherRelayEvent st = (st, [], RelayContinue)"

text \<open>Before the loop: without a relay address the command fails; otherwise every address is added and dialled.\<close>

definition run_alice_relayed_start :: "multiaddr list \<Rightarrow> peer_id \<Rightarrow> alice \<Rightarrow> app_error + relayed_alice \<times> multiaddr list" where
  "run_alice_relayed_start relay_peers bob_peer_id a =
     (let relay_addresses = relay_dial_addresses relay_peers bob_peer_id
      in if relay_addresses = []
         then Inl (AppMessage ''relay fallback requested but no relay bootstrap multiaddr was provided'')
         else Inr (\<lparr>ra_requested_bundle = False, ra_sent_initial = False, ra_alice = a\<rparr>, relay_addresses))"

fun run_alice_relayed ::
    "crypto \<Rightarrow> chat_codec \<Rightarrow> peer_id \<Rightarrow> string \<Rightarrow> (bytes \<times> relay_event) list \<Rightarrow> relayed_alice
      \<Rightarrow> relayed_alice \<times> cm_request list \<times> relay_result" where
  "run_alice_relayed K C bob_peer_id message [] st = (st, [], RelayContinue)"
| "run_alice_relayed K C bob_peer_id message ((private, ev) # evs) st =
     (case run_alice_relayed_step K C private bob_peer_id message ev st of
        (st1, requests, RelayContinue) \<Rightarrow>
          (case run_alice_relayed K C bob_peer_id message evs st1 of (st2, requests2, r) \<Rightarrow> (st2, requests @ requests2, r))
      | (st1, requests, r) \<Rightarrow> (st1, requests, r))"

text \<open>
  \<^verbatim>\<open>handle_bob_app_event\<close>: the state is Bob and the flag \<^verbatim>\<open>final_ack_pending\<close>; beside the response the
  result holds the plaintext that is printed.  \<open>enc_bundle\<close> is \<^verbatim>\<open>bincode\<close> on bundles, \<open>error_text\<close> the
  \<^verbatim>\<open>Display\<close> of an error.
\<close>

datatype bob_app_event = BobRequest cm_request | BobInboundFailure | BobResponseSent | BobOtherEvent

record relayed_bob =
  rb_bob :: bob
  rb_final_ack_pending :: bool

definition decrypt_relayed ::
    "crypto \<Rightarrow> chat_codec \<Rightarrow> bytes \<Rightarrow> bob \<Rightarrow> bob \<times> (app_error + string)" where
  "decrypt_relayed K C encrypted_bytes b = (case cd_initial_decode C encrypted_bytes of
     None \<Rightarrow> (b, Inl AppCodec)
   | Some initial_message \<Rightarrow> (case decrypt_initial_message K initial_message b of
       (b1, Inl e) \<Rightarrow> (b1, Inl (AppCrypto e)) | (b1, Inr plaintext) \<Rightarrow> (b1, Inr plaintext)))"

fun handle_bob_app_event ::
    "crypto \<Rightarrow> chat_codec \<Rightarrow> (prekey_bundle \<Rightarrow> bytes) \<Rightarrow> (app_error \<Rightarrow> string) \<Rightarrow> bob_app_event \<Rightarrow> relayed_bob
      \<Rightarrow> relayed_bob \<times> cm_response option \<times> string option \<times> (app_error + bool)" where
  "handle_bob_app_event K C enc_bundle error_text (BobRequest CmPreKeyBundle) st =
     (case bob_prekey_bundle K (rb_bob st) of
        Inl e \<Rightarrow> (st, None, None, Inl (AppCrypto e))
      | Inr bundle \<Rightarrow> (st, Some (CmBundle (enc_bundle bundle)), None, Inr False))"
| "handle_bob_app_event K C enc_bundle error_text (BobRequest (CmInitialMessage encrypted_bytes)) st =
     (case decrypt_relayed K C encrypted_bytes (rb_bob st) of
        (b1, Inr plaintext) \<Rightarrow>
          (\<lparr>rb_bob = b1, rb_final_ack_pending = True\<rparr>, Some (CmAck (as_bytes ''ok'')), Some plaintext, Inr False)
      | (b1, Inl error) \<Rightarrow> (st\<lparr>rb_bob := b1\<rparr>, Some (CmError (error_text error)), None, Inr False))"
| "handle_bob_app_event K C enc_bundle error_text (BobRequest (CmInviteLookup _)) st =
     (st, Some (CmError ''invite lookup is not available in this chat path''), None, Inr False)"
| "handle_bob_app_event K C enc_bundle error_text BobInboundFailure st = (st, None, None, Inr False)"
| "handle_bob_app_event K C enc_bundle error_text BobResponseSent st =
     (if rb_final_ack_pending st then (st\<lparr>rb_final_ack_pending := False\<rparr>, None, None, Inr True)
      else (st, None, None, Inr False))"
| "handle_bob_app_event K C enc_bundle error_text BobOtherEvent st = (st, None, None, Inr False)"

text \<open>
  \<^verbatim>\<open>run_alice_discovered\<close> after the address was found, with a message to deliver: an error of the direct
  way, whatever its place, is followed by the relayed way with a new identity.
\<close>

datatype delivery_route = DirectRoute quic_result | RelayRoute quic_result "app_error + relay_result"

definition run_alice_discovered ::
    "crypto \<Rightarrow> chat_codec \<Rightarrow> (nat \<Rightarrow> bool) \<Rightarrow> bytes \<Rightarrow> u64 \<Rightarrow> string \<Rightarrow> string \<Rightarrow> string \<Rightarrow> alice_link \<Rightarrow> alice
      \<Rightarrow> multiaddr list \<Rightarrow> peer_id \<Rightarrow> (bytes \<times> relay_event) list \<Rightarrow> alice \<Rightarrow> db
      \<Rightarrow> db \<times> bytes list \<times> cm_request list \<times> delivery_route" where
  "run_alice_discovered K C fails private now local_display_name hint message link a bootstrap_peers bob_peer_id evs a_relay s =
     (case run_alice K C fails private now local_display_name hint message link a s of
        (s1, a1, sent, QuicFailed err) \<Rightarrow>
          (case run_alice_relayed_start bootstrap_peers bob_peer_id a_relay of
             Inl e \<Rightarrow> (s1, sent, [], RelayRoute (QuicFailed err) (Inl e))
           | Inr (st, dialled) \<Rightarrow>
               (case run_alice_relayed K C bob_peer_id message evs st of
                  (st1, requests, r) \<Rightarrow> (s1, sent, requests, RelayRoute (QuicFailed err) (Inr r))))
      | (s1, a1, sent, r) \<Rightarrow> (s1, sent, [], DirectRoute r))"

section \<open>Finding a peer\<close>

datatype discovery_event =
    DiscoveryTimeout
  | DiscoveredPeers "(peer_id \<times> multiaddr) list"
  | ExpiredPeers "(peer_id \<times> multiaddr) list"
  | IdentifiedPeer peer_id "multiaddr list"
  | DiscoveryConnected peer_id
  | FoundRecord bytes
  | DiscoveryRequest peer_id cm_request
  | DiscoveryResponse cm_response
  | OtherDiscoveryEvent

datatype discovery_action =
    KadAddAddress peer_id multiaddr
  | KadRemoveAddress peer_id multiaddr
  | KadGetRecord peer_id
  | DiscoveryAsk peer_id cm_request
  | DiscoveryAnswer cm_response

datatype 'a discovery_result = Searching | FoundResult 'a | SearchFailed app_error

record discovery =
  ds_addresses :: "peer_id \<Rightarrow> multiaddr list"
  ds_asked_kad :: bool

text \<open>A \<^verbatim>\<open>BTreeSet\<close> of addresses is a list in the order of \<open>rank\<close>.\<close>

definition note_address ::
    "(multiaddr \<Rightarrow> 'o :: linorder) \<Rightarrow> peer_id \<Rightarrow> multiaddr \<Rightarrow> discovery \<Rightarrow> discovery" where
  "note_address rank peer address st =
     st\<lparr>ds_addresses := (ds_addresses st)(peer := insort_insert_key rank address (ds_addresses st peer))\<rparr>"

definition ask_kad :: "peer_id \<Rightarrow> peer_id \<Rightarrow> discovery \<Rightarrow> discovery \<times> discovery_action list" where
  "ask_kad target peer st =
     (if peer = target \<and> \<not> ds_asked_kad st then (st\<lparr>ds_asked_kad := True\<rparr>, [KadGetRecord target]) else (st, []))"

fun discovered_peers ::
    "(multiaddr \<Rightarrow> 'o :: linorder) \<Rightarrow> peer_id \<Rightarrow> (peer_id \<times> multiaddr) list \<Rightarrow> discovery \<Rightarrow> discovery \<times> discovery_action list" where
  "discovered_peers rank target [] st = (st, [])"
| "discovered_peers rank target ((peer, address) # peers) st =
     (case ask_kad target peer (note_address rank peer address st) of (st1, asked) \<Rightarrow>
      (case discovered_peers rank target peers st1 of (st2, acts) \<Rightarrow> (st2, KadAddAddress peer address # asked @ acts)))"

fun discover_app_addr_step ::
    "addr_text \<Rightarrow> (multiaddr \<Rightarrow> 'o :: linorder) \<Rightarrow> peer_id \<Rightarrow> discovery_event \<Rightarrow> discovery
      \<Rightarrow> discovery \<times> discovery_action list \<times> (ip_addr \<times> u16) discovery_result" where
  "discover_app_addr_step A rank target DiscoveryTimeout st =
     (st, [], SearchFailed (AppMessage ''timed out discovering the peer''))"
| "discover_app_addr_step A rank target (DiscoveredPeers peers) st =
     (case discovered_peers rank target peers st of (st1, acts) \<Rightarrow> (st1, acts, Searching))"
| "discover_app_addr_step A rank target (ExpiredPeers peers) st =
     (st, map (\<lambda>(peer, address). KadRemoveAddress peer address) peers, Searching)"
| "discover_app_addr_step A rank target (IdentifiedPeer peer addresses) st =
     (case ask_kad target peer (fold (note_address rank peer) addresses st) of
        (st1, asked) \<Rightarrow> (st1, map (KadAddAddress peer) addresses @ asked, Searching))"
| "discover_app_addr_step A rank target (DiscoveryConnected peer) st =
     (case ask_kad target peer st of (st1, asked) \<Rightarrow> (st1, asked, Searching))"
| "discover_app_addr_step A rank target (FoundRecord value) st =
     (st, [], (case from_utf8 value of
        None \<Rightarrow> SearchFailed AppCodec
      | Some text \<Rightarrow> (case at_parse A text of
          None \<Rightarrow> SearchFailed AppCodec
        | Some app_multiaddr \<Rightarrow> (case socket_from_app_multiaddr app_multiaddr (best_discovered_ip (ds_addresses st target)) of
            Inl e \<Rightarrow> SearchFailed e | Inr addr \<Rightarrow> FoundResult addr))))"
| "discover_app_addr_step A rank target (DiscoveryRequest peer request) st = (st, [], Searching)"
| "discover_app_addr_step A rank target (DiscoveryResponse response) st = (st, [], Searching)"
| "discover_app_addr_step A rank target OtherDiscoveryEvent st = (st, [], Searching)"

text \<open>
  The lookup of an invite in the local network, which keeps no state: the inviting side answers with
  its address, as text, if the hash is that of its code; the joining side asks every peer it discovers.
\<close>

fun run_invite_discovery_advertiser ::
    "string \<Rightarrow> string \<Rightarrow> discovery_event \<Rightarrow> discovery_action list" where
  "run_invite_discovery_advertiser code_hash advertised_addr (DiscoveredPeers peers) =
     map (\<lambda>(peer, address). KadAddAddress peer address) peers"
| "run_invite_discovery_advertiser code_hash advertised_addr (ExpiredPeers peers) =
     map (\<lambda>(peer, address). KadRemoveAddress peer address) peers"
| "run_invite_discovery_advertiser code_hash advertised_addr (IdentifiedPeer peer addresses) = map (KadAddAddress peer) addresses"
| "run_invite_discovery_advertiser code_hash advertised_addr (DiscoveryRequest peer (CmInviteLookup requested)) =
     [DiscoveryAnswer (CmInviteAddress (if requested = code_hash then Some advertised_addr else None))]"
| "run_invite_discovery_advertiser code_hash advertised_addr (DiscoveryRequest peer _) =
     [DiscoveryAnswer (CmError ''invite discovery only'')]"
| "run_invite_discovery_advertiser code_hash advertised_addr _ = []"

fun discover_lan_invite_addr ::
    "(string \<Rightarrow> 'a option) \<Rightarrow> string \<Rightarrow> discovery_event \<Rightarrow> discovery_action list \<times> 'a discovery_result" where
  "discover_lan_invite_addr parse_socket code_hash DiscoveryTimeout =
     ([], SearchFailed (AppMessage ''timed out discovering invite on local network''))"
| "discover_lan_invite_addr parse_socket code_hash (DiscoveredPeers peers) =
     (concat (map (\<lambda>(peer, address). [KadAddAddress peer address, DiscoveryAsk peer (CmInviteLookup code_hash)]) peers), Searching)"
| "discover_lan_invite_addr parse_socket code_hash (ExpiredPeers peers) =
     (map (\<lambda>(peer, address). KadRemoveAddress peer address) peers, Searching)"
| "discover_lan_invite_addr parse_socket code_hash (IdentifiedPeer peer addresses) = (map (KadAddAddress peer) addresses, Searching)"
| "discover_lan_invite_addr parse_socket code_hash (DiscoveryResponse (CmInviteAddress (Some address))) =
     ([], (case parse_socket address of
        None \<Rightarrow> SearchFailed (AppMessage ''discovered invite address was invalid'') | Some a \<Rightarrow> FoundResult a))"
| "discover_lan_invite_addr parse_socket code_hash _ = ([], Searching)"

section \<open>The relayed exchange delivers\<close>

text \<open>The initial message for Bob's bundle is decrypted once.\<close>

lemma relayed_initial:
  assumes "crypto_ok K" "sig_correct K" "bob_wf K b" "bo_one_time_prekey b \<noteq> None" "is_str message"
  obtains pb a1 m b1 where "bob_prekey_bundle K b = Inr pb" "encrypt_initial_message K private pb message a = (a1, Inr m)"
    "decrypt_initial_message K m b = (b1, Inr message)" "decrypt_initial_message K m b1 = (b1, Inl PreKeyUnavailable)"
proof -
  obtain pb where bdl: "bob_prekey_bundle K b = Inr pb" using assms(4) by (auto simp: bob_prekey_bundle_def Let_def)
  obtain a1 res where enc: "encrypt_initial_message K private pb message a = (a1, res)" by fastforce
  from initial_message_steps [OF assms(1-3) bdl assms(5) enc] bdl enc show ?thesis by (blast intro: that)
qed

text \<open>
  C24: a message sent over a relay reaches Bob: Alice asks for his bundle once she is connected, sends
  one initial message for it, Bob prints its text and acknowledges, and both sides end; the same
  request sent again is answered with an error.
\<close>

theorem relayed_message_delivered:
  assumes K: "crypto_ok K" "sig_correct K"
    and C: "\<And>x. cc_bare_prekey_decode C (enc_bundle x) = Some x" "\<And>m. cd_initial_decode C (cd_initial C m) = Some m"
    and b: "bob_wf K b" "bo_one_time_prekey b \<noteq> None" and "is_str message"
    and relays: "relay_dial_addresses relay_peers bob_peer_id \<noteq> []"
  shows "\<exists>st0 st1 payload initial b1.
      run_alice_relayed_start relay_peers bob_peer_id a = Inr (st0, relay_dial_addresses relay_peers bob_peer_id)
    \<and> handle_bob_app_event K C enc_bundle error_text (BobRequest CmPreKeyBundle) \<lparr>rb_bob = b, rb_final_ack_pending = False\<rparr>
        = (\<lparr>rb_bob = b, rb_final_ack_pending = False\<rparr>, Some (CmBundle payload), None, Inr False)
    \<and> run_alice_relayed K C bob_peer_id message [(p1, RelayConnected bob_peer_id), (p2, RelayResponse (CmBundle payload))] st0
        = (st1, [CmPreKeyBundle, CmInitialMessage initial], RelayContinue)
    \<and> handle_bob_app_event K C enc_bundle error_text (BobRequest (CmInitialMessage initial)) \<lparr>rb_bob = b, rb_final_ack_pending = False\<rparr>
        = (\<lparr>rb_bob = b1, rb_final_ack_pending = True\<rparr>, Some (CmAck (as_bytes ''ok'')), Some message, Inr False)
    \<and> run_alice_relayed_step K C p3 bob_peer_id message (RelayResponse (CmAck (as_bytes ''ok''))) st1 = (st1, [], RelayDone)
    \<and> handle_bob_app_event K C enc_bundle error_text BobResponseSent \<lparr>rb_bob = b1, rb_final_ack_pending = True\<rparr>
        = (\<lparr>rb_bob = b1, rb_final_ack_pending = False\<rparr>, None, None, Inr True)
    \<and> handle_bob_app_event K C enc_bundle error_text (BobRequest (CmInitialMessage initial)) \<lparr>rb_bob = b1, rb_final_ack_pending = False\<rparr>
        = (\<lparr>rb_bob = b1, rb_final_ack_pending = False\<rparr>, Some (CmError (error_text (AppCrypto PreKeyUnavailable))), None, Inr False)"
proof -
  obtain pb a1 m b1 where m: "bob_prekey_bundle K b = Inr pb" "encrypt_initial_message K p2 pb message a = (a1, Inr m)"
    "decrypt_initial_message K m b = (b1, Inr message)" "decrypt_initial_message K m b1 = (b1, Inl PreKeyUnavailable)"
    by (rule relayed_initial [OF K b assms(7)])
  show ?thesis
    by (intro exI [of _ "\<lparr>ra_requested_bundle = False, ra_sent_initial = False, ra_alice = a\<rparr>"]
          exI [of _ "\<lparr>ra_requested_bundle = True, ra_sent_initial = True, ra_alice = a1\<rparr>"]
          exI [of _ "enc_bundle pb"] exI [of _ "cd_initial C m"] exI [of _ b1])
       (use relays m in \<open>simp add: run_alice_relayed_start_def Let_def C decrypt_relayed_def\<close>)
qed

text \<open>Alice asks for a bundle at most once and sends at most one initial message.\<close>

definition initial_requests :: "cm_request list \<Rightarrow> nat" where
  "initial_requests rs = length (filter (\<lambda>r. case r of CmInitialMessage _ \<Rightarrow> True | _ \<Rightarrow> False) rs)"

definition bundle_requests :: "cm_request list \<Rightarrow> nat" where
  "bundle_requests rs = length (filter (\<lambda>r. r = CmPreKeyBundle) rs)"

lemma relayed_requests_bounded:
  "run_alice_relayed K C bob_peer_id message evs st = (st', rs, r) \<Longrightarrow>
     initial_requests rs + (if ra_sent_initial st then 1 else 0) \<le> 1
     \<and> bundle_requests rs + (if ra_requested_bundle st then 1 else 0) \<le> 1"
proof (induction evs arbitrary: st st' rs r)
  case (Cons tev evs)
  obtain eph ev where tev: "tev = (eph, ev)" by (cases tev)
  obtain st1 rs1 r1 where step: "run_alice_relayed_step K C eph bob_peer_id message ev st = (st1, rs1, r1)"
    by (cases "run_alice_relayed_step K C eph bob_peer_id message ev st")
  have one: "initial_requests rs1 + (if ra_sent_initial st then 1 else 0) \<le> (if ra_sent_initial st1 then 1 else 0)
      \<and> bundle_requests rs1 + (if ra_requested_bundle st then 1 else 0) \<le> (if ra_requested_bundle st1 then 1 else 0)"
    using step by (cases "(K, C, eph, bob_peer_id, message, ev, st)" rule: run_alice_relayed_step.cases)
      (auto simp: initial_requests_def bundle_requests_def split: if_splits option.splits prod.splits sum.splits)
  have add: "initial_requests (xs @ ys) = initial_requests xs + initial_requests ys"
    "bundle_requests (xs @ ys) = bundle_requests xs + bundle_requests ys" for xs ys
    by (simp_all add: initial_requests_def bundle_requests_def)
  show ?case
  proof (cases r1)
    case RelayContinue
    then obtain rs2 where "run_alice_relayed K C bob_peer_id message evs st1 = (st', rs2, r)" "rs = rs1 @ rs2"
      using Cons.prems step by (auto simp: tev split: prod.splits)
    then show ?thesis using Cons.IH [of st1 st' rs2 r] one by (auto simp: add split: if_splits)
  qed (use Cons.prems step one in \<open>auto simp: tev split: if_splits\<close>)
qed (simp add: initial_requests_def bundle_requests_def)

section \<open>The direct exchange\<close>

lemma contact_saved:
  assumes "\<And>i. \<not> fails i" "peers_ok s" "length key = 32" "cid = contact_id_for_identity K key"
    and "old = contact_id_for_display_name K (display_name_or_anonymous name)" "old \<noteq> cid"
  shows "\<exists>s' c. save_contact_for_chat K fails now cid name key hint s = (s', Inr ())
    \<and> load_contact cid s' = Some c \<and> ct_identity_public_key c = key
    \<and> messages s' = update_where (\<lambda>r. mw_conversation_id r = old) (\<lambda>r. r\<lparr>mw_conversation_id := cid\<rparr>) (messages s)"
proof -
  obtain s' where s': "save_contact_for_chat K fails now cid name key hint s = (s', Inr ())"
    using save_contact_ok [of fails s key cid K, OF assms(1,2)] assms(4) by blast
  let ?c = "\<lparr>ct_contact_id = cid, ct_display_name = display_name_or_anonymous name, ct_identity_public_key = key,
    ct_discovery_hint = hint, ct_saved_at = now\<rparr>"
  have m: "merge_contact_into fails old cid (save_contact ?c s) =
      (fold (\<lambda>st u. st u) (merge_statements old cid) (save_contact ?c s), Inr ())" (is "_ = (?s2, _)")
    using assms(6) by (simp add: merge_contact_into_def autocommit_ok [OF assms(1)])
  then obtain p where p: "save_known_peer p ?s2 = Inr s'"
    using s' assms(3,5) by (auto simp: save_contact_for_chat_def Let_def split: sum.splits)
  have same: "messages s' = messages ?s2" "contacts_tbl s' = contacts_tbl ?s2"
    using p by (auto simp: save_known_peer_def split: if_splits)
  have drop: "select_one (\<lambda>r. cw_contact_id r = cid) (delete_where (\<lambda>r. cw_contact_id r = old) t) = select_one (\<lambda>r. cw_contact_id r = cid) t" for t
    using assms(6) by (induction t) (auto simp: delete_where_def select_one_def)
  have tables: "messages ?s2 = update_where (\<lambda>r. mw_conversation_id r = old) (\<lambda>r. r\<lparr>mw_conversation_id := cid\<rparr>) (messages s)"
    "contacts_tbl ?s2 = delete_where (\<lambda>r. cw_contact_id r = old) (contacts_tbl (save_contact ?c s))"
    by (simp_all add: merge_statements_def save_contact_def)
  have "load_contact cid s' = load_contact cid (save_contact ?c s)"
    unfolding load_contact_def same(2) tables(2) drop ..
  also have "\<dots> = Some (contact_from_row \<lparr>cw_contact_id = cid, cw_display_name = display_name_or_anonymous name,
      cw_identity_public_key = key, cw_discovery_hint = hint, cw_saved_at = as_i64 now\<rparr>)"
    by (simp add: load_contact_def save_contact_def select_one_upsert split: option.splits)
  finally show ?thesis using s' by (simp add: same(1) tables(1) contact_from_row_def)
qed

lemma contact_keeps_ids:
  assumes "save_contact_for_chat K fails now cid name key hint s = (s', res)"
  shows "message_exists mid s' = message_exists mid s"
proof -
  have upd: "mw_message_id ` set (update_where p (\<lambda>r. r\<lparr>mw_conversation_id := c\<rparr>) t) = mw_message_id ` set t" for p c t
    by (induction t) (auto simp: update_where_def)
  have stmt: "message_exists mid (st u) = message_exists mid u" if "st \<in> set (merge_statements old new)" for st old new u
    using that by (cases rule: merge_statements_cases) (simp_all add: message_exists_iff upd)
  have auto_ok: "message_exists mid (fst (autocommit fails 0 (merge_statements old new) u)) = message_exists mid u" for old new u
    by (rule autocommit_inv [where P = "\<lambda>v. message_exists mid v = message_exists mid u"]) (auto simp: stmt)
  have merged: "message_exists mid v = message_exists mid u" if "merge_contact_into fails old new u = (v, r)" for old new u v r
    using that auto_ok [of old new u] by (auto simp: merge_contact_into_def split: if_splits)
  have kp: "message_exists mid v = message_exists mid u" if "save_known_peer p u = Inr v" for p u v
    using that by (auto simp: save_known_peer_def message_exists_iff split: if_splits)
  have sc: "message_exists mid (save_contact c u) = message_exists mid u" for c u
    by (simp add: save_contact_def message_exists_iff)
  show ?thesis
    using assms by (auto simp: save_contact_for_chat_def Let_def sc split: if_splits prod.splits sum.splits dest!: merged kp)
qed

text \<open>
  C37: \<^verbatim>\<open>run_bob_quic_once\<close> saves the contact before it checks the initial message.  An initial message
  that Bob cannot decrypt still stores a contact with the identity key it claims and moves the history
  of the placeholder contact with the claimed name into that conversation; in the chat commands the same
  message leaves the database as it was.
\<close>

theorem forged_one_shot_takes_over_history:
  assumes "\<And>i. \<not> fails i" "peers_ok s" "bob_prekey_bundle K b = Inr pb" "bl_bundle_sent link = None"
    and "payload = cc_prekey C \<lparr>cpb_sender_display_name = local_name, cpb_bundle = pb\<rparr>"
    and "bl_received link payload = Inr encrypted" "decode_chat_initial_message C encrypted = Inr initial"
    and "cim_sender_identity_public_key initial = Some key" "length key = 32" "cid = contact_id_for_identity K key"
    and "old = contact_id_for_display_name K (display_name_or_anonymous (cim_sender_display_name initial))" "old \<noteq> cid"
    and "decrypt_initial_message K (cim_message initial) b = (b', Inl e)"
  shows "\<exists>s' c. run_bob_quic_once K C fails now local_name link b s = (s', b', [payload], QuicFailed (AppError (AppCrypto e)))
    \<and> load_contact cid s' = Some c \<and> ct_identity_public_key c = key
    \<and> set (messages_for_conversation cid s') = (\<lambda>m. m\<lparr>mr_conversation_id := cid\<rparr>) `
        (set (messages_for_conversation old s) \<union> set (messages_for_conversation cid s))
    \<and> accept_initial_message K C fails now local_name ''direct QUIC'' encrypted b s = (s, b', Inl (AppCrypto e))"
proof -
  obtain s' c where s': "save_contact_for_chat K fails now cid (cim_sender_display_name initial) key ''direct QUIC'' s = (s', Inr ())"
    "load_contact cid s' = Some c" "ct_identity_public_key c = key"
    "messages s' = update_where (\<lambda>r. mw_conversation_id r = old) (\<lambda>r. r\<lparr>mw_conversation_id := cid\<rparr>) (messages s)"
    using contact_saved [of fails s key cid K, OF assms(1,2,9,10,11,12)] by blast
  have "run_bob_quic_once K C fails now local_name link b s = (s', b', [payload], QuicFailed (AppError (AppCrypto e)))"
    using assms s'(1) by (simp add: run_bob_quic_once_def Let_def initial_conversation_id_def initial_identity_def)
  moreover have "accept_initial_message K C fails now local_name ''direct QUIC'' encrypted b s = (s, b', Inl (AppCrypto e))"
    using assms by (simp add: accept_initial_message_def)
  ultimately show ?thesis using s'(2,3) set_merged_messages [OF assms(12) s'(4)] by blast
qed

lemma inserted_message:
  "\<not> message_exists (mr_message_id m) s \<Longrightarrow> messages (insert_message m s) = messages s @ [message_to_row m]"
  by (auto simp: insert_message_def insert_or_ignore_def message_exists_iff has_key_def message_to_row_def image_iff)

lemma messages_printed [simp]: "messages (print_conversation cid s) = messages s"
  by (simp add: print_conversation_def mark_new_messages_read_def)

text \<open>A row of the history with this text, conversation and direction.\<close>

definition in_history :: "string \<Rightarrow> message_direction \<Rightarrow> string \<Rightarrow> string \<Rightarrow> db \<Rightarrow> bool" where
  "in_history mid direction conversation_id plaintext s \<longleftrightarrow> (\<exists>r \<in> set (messages s). mw_message_id r = mid
     \<and> mw_plaintext r = Some plaintext \<and> mw_conversation_id r = conversation_id \<and> mw_direction r = message_direction_as_str direction)"

lemma persisted_in_history:
  assumes "\<not> message_exists (entry_message_id K entry) s"
  shows "in_history (entry_message_id K entry) (che_direction entry) (che_conversation_id entry) (che_plaintext entry)
    (persist_chat_message K now entry s)"
  using assms
  by (auto simp: in_history_def persist_chat_message_def Let_def inserted_message message_to_row_def split: message_direction.splits)

text \<open>What saving a contact with an identity key does to the history and to the queue.\<close>

definition moved_history :: "string \<Rightarrow> string \<Rightarrow> message_row list \<Rightarrow> message_row list" where
  "moved_history old new = update_where (\<lambda>r. mw_conversation_id r = old) (\<lambda>r. r\<lparr>mw_conversation_id := new\<rparr>)"

text \<open>
  The contact under which a peer without a key would be kept.  The name is normalised when it is received and again when
  it is saved; the first cuts it at 32 characters, which may leave a space at its end for the second.
\<close>

definition name_contact_id :: "crypto \<Rightarrow> string \<Rightarrow> string" where
  "name_contact_id K name = contact_id_for_display_name K (display_name_or_anonymous (display_name_or_anonymous name))"

lemma contact_moves:
  assumes "\<And>i. \<not> fails i" "peers_ok s" "length key = 32" "cid = contact_id_for_identity K key"
    and "old = contact_id_for_display_name K (display_name_or_anonymous name)"
  obtains s' where "save_contact_for_chat K fails now cid name key hint s = (s', Inr ())"
    "messages s' = moved_history old cid (messages s)" "pw_peer_id ` set (pending_peer_messages s') = pw_peer_id ` set (pending_peer_messages s)"
    "pending_peer_id_for_conversation K cid s' = cid"
proof -
  obtain s' where s': "save_contact_for_chat K fails now cid name key hint s = (s', Inr ())"
    using save_contact_ok [of fails s key cid K, OF assms(1,2)] assms(4) by blast
  have peer: "pending_peer_id_for_conversation K cid s' = cid" using contact_saved_peer [OF s' assms(3)] assms(4) by simp
  show ?thesis
  proof (cases "old = cid")
    case True
    have "messages s' = messages s" "pending_peer_messages s' = pending_peer_messages s"
      using s' assms(3,5) True
      by (auto simp: save_contact_for_chat_def Let_def merge_contact_into_def save_known_peer_def save_contact_def split: if_splits)
    moreover have "update_where (\<lambda>r. mw_conversation_id r = cid) (\<lambda>r. r\<lparr>mw_conversation_id := cid\<rparr>) ms = ms" for ms :: "message_row list"
      by (simp add: update_where_def map_idI)
    ultimately show ?thesis by (intro that [OF s' _ _ peer]) (simp_all add: True moved_history_def)
  next
    case False
    have "pw_peer_id ` set (update_where p (\<lambda>r. r\<lparr>pw_conversation_id := cid\<rparr>) ps) = pw_peer_id ` set ps" for p ps
      by (induction ps) (auto simp: update_where_def)
    then have "pw_peer_id ` set (pending_peer_messages s') = pw_peer_id ` set (pending_peer_messages s)"
      by (simp only: merged_pending [OF s' assms(3,5) False])
    moreover have "messages s' = moved_history old cid (messages s)"
      using contact_saved [of fails s key cid K old name now hint, OF assms False] s' by (force simp: moved_history_def)
    ultimately show ?thesis by (intro that [OF s' _ _ peer])
  qed
qed

lemma persisted_message:
  assumes "\<not> message_exists (entry_message_id K entry) s"
  obtains row where "messages (persist_chat_message K now entry s) = messages s @ [row]" "mw_message_id row = entry_message_id K entry"
    "mw_plaintext row = Some (che_plaintext entry)" "mw_conversation_id row = che_conversation_id entry"
    "mw_direction row = message_direction_as_str (che_direction entry)" "mw_status row = message_status_as_str (che_status entry)"
  using assms
  by (intro that [of "last (messages (persist_chat_message K now entry s))"])
    (auto simp: persist_chat_message_def Let_def inserted_message message_to_row_def split: message_direction.splits)

lemma one_shot_row:
  assumes "save_contact_for_chat K fails now0 cid name key hint s = (s1, r)"
    and "che_message_id entry = None" "mid = chat_message_id K (che_conversation_id entry) (che_direction entry)
      (che_protocol_counter entry) (che_ciphertext entry)" "\<not> message_exists mid s"
  shows "\<exists>row. messages (print_conversation x (persist_chat_message K now entry s1)) = messages s1 @ [row] \<and> mw_message_id row = mid
    \<and> mw_plaintext row = Some (che_plaintext entry) \<and> mw_conversation_id row = che_conversation_id entry
    \<and> mw_direction row = message_direction_as_str (che_direction entry) \<and> mw_status row = message_status_as_str (che_status entry)"
proof -
  have mid: "entry_message_id K entry = mid" by (simp add: entry_message_id_def assms(2,3))
  then have new: "\<not> message_exists (entry_message_id K entry) s1" using assms(4) by (simp add: contact_keeps_ids [OF assms(1)])
  show ?thesis by (rule persisted_message [OF new, of now]) (simp add: mid)
qed

text \<open>
  C23: The one message of the direct commands is delivered and stored once.  Bob's contact is saved with a key of 32
  bytes, nothing is queued for him, the ids of the message are new on both sides, the messages that are sent arrive and
  no SQL statement fails.  Then Alice's encryption succeeds; her history afterwards is the one she had, with that of the
  contact known by Bob's name moved into the conversation of his key, and one row more: her text as sent, in that
  conversation.  Bob answers \<open>ok\<close>, and his history is the one he had, moved in the same way, and one row more: her text as
  received, in the conversation of her key.  Their sessions are in step for the chat that follows.
\<close>

theorem one_shot_delivered:
  assumes K: "crypto_ok K" "sig_correct K" and C: "chat_codec_ok C" and env: "\<And>i. \<not> fails i"
    and b: "bob_wf K b" "bob_prekey_bundle K b = Inr pb" and msg: "is_str message" "message \<noteq> []"
    and db: "peers_ok s" "peers_ok t" "\<forall>r \<in> set (pending_peer_messages s). pw_peer_id r \<noteq> bob_cid"
    and alice: "al_connected link = None" "al_bundle link = Inr payload" "al_initial_sent link = None"
      "al_ack link = Inr (as_bytes ''ok'')" "al_chat link = []"
    and bob: "bl_bundle_sent blink = None" "bl_received blink payload = Inr encrypted" "bl_ack_sent blink = None" "bl_chat blink = []"
    and payload: "payload = cc_prekey C \<lparr>cpb_sender_display_name = bob_name, cpb_bundle = pb\<rparr>"
    and enc: "encrypt_initial_message K eph pb message a = (a', res)"
    and encrypted: "encrypted = cc_chat_initial C \<lparr>cim_sender_display_name = alice_name,
      cim_sender_identity_public_key = Some (ik_public_key K (al_identity a)), cim_message = projr res\<rparr>"
    and ids: "bob_cid = contact_id_for_identity K (ik_public_key K (bo_identity b))" "length (ik_public_key K (bo_identity b)) = 32"
      "alice_cid = contact_id_for_identity K (ik_public_key K (al_identity a))" "length (ik_public_key K (al_identity a)) = 32"
    and fresh: "\<not> message_exists (chat_message_id K bob_cid DirSent None encrypted) s"
      "\<not> message_exists (chat_message_id K alice_cid DirReceived None encrypted) t"
  shows "\<exists>initial s' t' b' sa sb. res = Inr initial
    \<and> run_alice K C fails eph now alice_name hint message link a s = (s', a', [encrypted], QuicContinue)
    \<and> run_bob_quic_once K C fails now' bob_name blink b t = (t', b', [payload, as_bytes ''ok''], QuicContinue)
    \<and> al_session a' = Some sa \<and> bo_session b' = Some sb \<and> in_step K 1 sa sb \<and> in_step K 0 sb sa
    \<and> (\<exists>row. messages s' = moved_history (name_contact_id K bob_name) bob_cid (messages s) @ [row]
         \<and> mw_message_id row = chat_message_id K bob_cid DirSent None encrypted \<and> mw_plaintext row = Some message
         \<and> mw_conversation_id row = bob_cid \<and> mw_direction row = ''sent'' \<and> mw_status row = ''sent'')
    \<and> (\<exists>row. messages t' = moved_history (name_contact_id K alice_name) alice_cid (messages t) @ [row]
         \<and> mw_message_id row = chat_message_id K alice_cid DirReceived None encrypted \<and> mw_plaintext row = Some message
         \<and> mw_conversation_id row = alice_cid \<and> mw_direction row = ''received'' \<and> mw_status row = ''received'')"
proof -
  have bdl: "pb_identity_public_key pb = ik_public_key K (bo_identity b)"
    using b(2) by (auto simp: bob_prekey_bundle_def Let_def and_then_Inr_iff)
  from initial_message_steps [OF K b msg(1) enc] obtain m b' sa sb where m: "res = Inr m"
    "decrypt_initial_message K m b = (b', Inr message)" "al_session a' = Some sa" "bo_session b' = Some sb"
    "in_step K 1 sa sb" "in_step K 0 sb sa" "a' = a\<lparr>al_session := Some sa\<rparr>" by blast
  let ?nameA = "display_name_or_anonymous alice_name" and ?nameB = "display_name_or_anonymous bob_name"
  let ?initial = "\<lparr>cim_sender_display_name = alice_name, cim_sender_identity_public_key = Some (ik_public_key K (al_identity a)), cim_message = m\<rparr>"
  have e: "encrypted = cc_chat_initial C ?initial" by (simp add: encrypted m(1))
  have key: "ske_identity_public_key (alice_signed_key_exchange K a') = ik_public_key K (al_identity a)"
    by (simp add: m(7) alice_signed_key_exchange_def sign_key_exchange_def Let_def)
  have decA: "decode_chat_prekey_bundle C payload = Inr (?nameB, pb)"
    using C by (simp add: payload decode_chat_prekey_bundle_def chat_codec_ok_def)
  have decB: "decode_chat_initial_message C encrypted = Inr (?initial\<lparr>cim_sender_display_name := ?nameA\<rparr>)"
    using C by (simp add: e decode_chat_initial_message_def chat_codec_ok_def)
  obtain s1 where s1: "save_contact_for_chat K fails now bob_cid ?nameB (ik_public_key K (bo_identity b)) (''quic:'' @ hint) s = (s1, Inr ())"
    "messages s1 = moved_history (contact_id_for_display_name K (display_name_or_anonymous ?nameB)) bob_cid (messages s)"
    "pw_peer_id ` set (pending_peer_messages s1) = pw_peer_id ` set (pending_peer_messages s)"
    "pending_peer_id_for_conversation K bob_cid s1 = bob_cid"
    by (rule contact_moves [OF env db(1) ids(2,1) refl])
  obtain t1 where t1: "save_contact_for_chat K fails now' alice_cid ?nameA (ik_public_key K (al_identity a)) ''direct QUIC'' t = (t1, Inr ())"
    "messages t1 = moved_history (contact_id_for_display_name K (display_name_or_anonymous ?nameA)) alice_cid (messages t)"
    by (rule contact_moves [OF env db(2) ids(4,3) refl])
  have "bob_cid \<notin> pw_peer_id ` set (pending_peer_messages s1)" using db(3) by (auto simp: s1(3))
  then have "filter (\<lambda>r. pw_peer_id r = bob_cid) (pending_peer_messages s1) = []" by (auto simp: filter_empty_conv)
  then have "pending_peer_messages_for_peer bob_cid s1 = []"
    by (simp add: pending_peer_messages_for_peer_def select_order_by_def)
  then have quiet: "flush_pending_messages_to_bob K C now alice_name bob_cid sends arrivals e s1 = (s1, e, [], arrivals, Inr ())" for sends arrivals e
    by (simp add: flush_pending_messages_to_bob_def flush_pending_messages_def s1(4))
  let ?sent = "one_shot_sent bob_cid alice_name ?nameB encrypted message"
    and ?recv = "one_shot_received alice_cid ?nameA bob_name encrypted message"
  let ?s' = "print_conversation bob_cid (persist_chat_message K now ?sent s1)"
    and ?t' = "print_conversation alice_cid (persist_chat_message K now' ?recv t1)"
  have A: "run_alice K C fails eph now alice_name hint message link a s = (?s', a', [encrypted], QuicContinue)"
    unfolding run_alice_def Let_def by (simp only: alice decA bdl enc m(1) prod.case sum.case option.case ids(1) [symmetric] s1 quiet msg(2) key e [symmetric]
        if_False quic_chat_def quic_chat_run.simps pairing_chat.simps pairing_chat_context.simps append_Nil)
  have B: "run_bob_quic_once K C fails now' bob_name blink b t = (?t', b', [payload, as_bytes ''ok''], QuicContinue)"
    using bob msg(2) t1(1)
    by (simp add: run_bob_quic_once_def b(2) payload decB Let_def initial_conversation_id_def initial_identity_def
        ids(3) [symmetric] m(2) quic_chat_def)
  have "\<exists>row. messages ?s' = messages s1 @ [row] \<and> mw_message_id row = chat_message_id K bob_cid DirSent None encrypted
      \<and> mw_plaintext row = Some message \<and> mw_conversation_id row = bob_cid \<and> mw_direction row = ''sent'' \<and> mw_status row = ''sent''"
    using one_shot_row [OF s1(1), of ?sent _ bob_cid now] fresh(1) by (simp add: one_shot_sent_def)
  moreover have "\<exists>row. messages ?t' = messages t1 @ [row] \<and> mw_message_id row = chat_message_id K alice_cid DirReceived None encrypted
      \<and> mw_plaintext row = Some message \<and> mw_conversation_id row = alice_cid \<and> mw_direction row = ''received'' \<and> mw_status row = ''received''"
    using one_shot_row [OF t1(1), of ?recv _ alice_cid now'] fresh(2) by (simp add: one_shot_received_def)
  ultimately show ?thesis using m(1,3-6) A B by (simp add: s1(2) t1(2) name_contact_id_def)
qed

text \<open>
  With an empty message Bob sends no acknowledgement, yet Alice takes whatever comes first for one: a
  line Bob types is swallowed, whatever it is, and never reaches her database.
\<close>

theorem empty_one_shot_swallows_first_frame:
  assumes "decrypt_initial_message K (cim_message initial) b = (b1, Inr [])" "bob_prekey_bundle K b = Inr pb"
    and "payload = cc_prekey C \<lparr>cpb_sender_display_name = bob_name, cpb_bundle = pb\<rparr>"
    and "bl_bundle_sent blink = None" "bl_received blink payload = Inr encrypted" "decode_chat_initial_message C encrypted = Inr initial"
    and "save_contact_for_chat K fails now (initial_conversation_id K initial) (cim_sender_display_name initial) (initial_identity initial)
      ''direct QUIC'' t = (t1, Inr ())"
  shows "\<exists>t' b' frames r. run_bob_quic_once K C fails now bob_name blink b t = (t', b', payload # frames, r)
      \<and> quic_chat bob_party K C \<lparr>pcc_local_display_name = bob_name, pcc_remote_display_name = cim_sender_display_name initial,
            pcc_conversation_id = initial_conversation_id K initial\<rparr> (bl_chat blink) b1 t1 = (t', b', frames, r)
      \<and> (\<forall>frame \<in> set frames. run_alice K C fails eph now alice_name hint [] (link\<lparr>al_ack := Inr frame\<rparr>) a s =
            run_alice K C fails eph now alice_name hint [] (link\<lparr>al_ack := Inr (as_bytes ''ok'')\<rparr>) a s)"
proof -
  have "run_alice K C fails eph now alice_name hint [] (link\<lparr>al_ack := Inr frame\<rparr>) a s =
      run_alice K C fails eph now alice_name hint [] (link\<lparr>al_ack := Inr (as_bytes ''ok'')\<rparr>) a s" for frame
    by (simp add: run_alice_def Let_def cong: option.case_cong sum.case_cong prod.case_cong)
  then show ?thesis using assms by (simp add: run_bob_quic_once_def Let_def split: prod.splits)
qed

section \<open>Concrete runs\<close>

definition toy_relay_codec :: chat_codec where
  "toy_relay_codec = toy_chat_codec\<lparr>cc_bare_prekey_decode := \<lambda>w. Some (dec_countable w)\<rparr>"

definition toy_ann :: alice where
  "toy_ann = alice_local toy_crypto [5] [6]"

lemma toy_bob_wf: "bob_wf toy_crypto toy_bob" "bo_one_time_prekey toy_bob \<noteq> None"
  by (simp_all add: bob_wf_def toy_bob_def bob_local_def from_private_bytes_def)

lemma toy_bob_bundle: "\<exists>pb. bob_prekey_bundle toy_crypto toy_bob = Inr pb"
  by (simp add: bob_prekey_bundle_def toy_bob_def bob_local_def Let_def)

lemma toy_chat_codec_fields [simp]:
  "cc_prekey toy_chat_codec = enc_countable" "cc_chat_initial toy_chat_codec = enc_countable"
  "decode_chat_initial_message toy_chat_codec (enc_countable m) = Inr (m\<lparr>cim_sender_display_name :=
     display_name_or_anonymous (cim_sender_display_name m)\<rparr>)"
  by (simp_all add: toy_chat_codec_def decode_chat_initial_message_def)

lemma is_str_hi: "is_str ''hi''"
  by code_simp

theorem relayed_message_delivered_witness:
  "\<exists>st0 st1 payload initial bob'. run_alice_relayed_start [[P2p ''R'']] ''B'' toy_ann = Inr (st0, [[P2p ''R'', P2pCircuit, P2p ''B'']])
    \<and> run_alice_relayed toy_crypto toy_relay_codec ''B'' ''hi'' [([7], RelayConnected ''B''), ([8], RelayResponse (CmBundle payload))] st0
        = (st1, [CmPreKeyBundle, CmInitialMessage initial], RelayContinue)
    \<and> handle_bob_app_event toy_crypto toy_relay_codec enc_countable (\<lambda>_. ''error'') (BobRequest (CmInitialMessage initial))
         \<lparr>rb_bob = toy_bob, rb_final_ack_pending = False\<rparr> = (bob', Some (CmAck (as_bytes ''ok'')), Some ''hi'', Inr False)"
proof -
  have C: "cc_bare_prekey_decode toy_relay_codec (enc_countable x) = Some x"
    "cd_initial_decode toy_relay_codec (cd_initial toy_relay_codec m) = Some m" for x m
    by (simp_all add: toy_relay_codec_def toy_chat_codec_def)
  have relays: "relay_dial_addresses [[P2p ''R'']] ''B'' = [[P2p ''R'', P2pCircuit, P2p ''B'']]"
    by (simp add: relay_dial_addresses_def strip_p2p_def)
  then have "relay_dial_addresses [[P2p ''R'']] ''B'' \<noteq> []" by simp
  from relayed_message_delivered [OF toy_crypto_ok toy_sig_correct C toy_bob_wf is_str_hi this,
      where ?p1.0 = "[7]" and ?p2.0 = "[8]" and ?p3.0 = "[9]" and a = toy_ann and error_text = "\<lambda>_. ''error''"]
  show ?thesis unfolding relays by blast
qed

definition toy_forged_initial :: chat_initial_message where
  "toy_forged_initial = \<lparr>cim_sender_display_name = ''Ada'', cim_sender_identity_public_key = Some toy_identity,
     cim_message = toy_forgery\<lparr>im_one_time_prekey_id := 99\<rparr>\<rparr>"

definition toy_bob_link :: "bytes \<Rightarrow> bob_link" where
  "toy_bob_link received = \<lparr>bl_bundle_sent = None, bl_received = \<lambda>_. Inr received, bl_ack_sent = None, bl_chat = []\<rparr>"

definition toy_alice_link :: "bytes \<Rightarrow> alice_link" where
  "toy_alice_link payload = \<lparr>al_connected = None, al_bundle = Inr payload, al_initial_sent = None, al_ack = Inr (as_bytes ''ok''),
     al_sends = [], al_arrivals = [], al_chat = []\<rparr>"

theorem forged_one_shot_takes_over_history_witness:
  "\<exists>s' c e sent. run_bob_quic_once toy_crypto toy_chat_codec (\<lambda>_. False) 5 ''Bob'' (toy_bob_link (enc_countable toy_forged_initial))
       toy_bob init_db = (s', toy_bob, sent, QuicFailed (AppError (AppCrypto e)))
    \<and> load_contact (contact_id_for_identity toy_crypto toy_identity) s' = Some c \<and> ct_identity_public_key c = toy_identity"
proof -
  obtain pb where pb: "bob_prekey_bundle toy_crypto toy_bob = Inr pb" using toy_bob_bundle by blast
  let ?initial = "toy_forged_initial\<lparr>cim_sender_display_name := display_name_or_anonymous ''Ada''\<rparr>"
  have dec: "decode_chat_initial_message toy_chat_codec (enc_countable toy_forged_initial) = Inr ?initial"
    by (simp add: toy_forged_initial_def)
  have link: "bl_bundle_sent (toy_bob_link x) = None" "bl_received (toy_bob_link x) p = Inr x" for x p
    by (simp_all add: toy_bob_link_def)
  have key: "cim_sender_identity_public_key ?initial = Some toy_identity" "length toy_identity = 32"
    by (simp_all add: toy_forged_initial_def toy_identity_def)
  have neq: "contact_id_for_display_name toy_crypto (display_name_or_anonymous (cim_sender_display_name ?initial))
      \<noteq> contact_id_for_identity toy_crypto toy_identity" using toy_ids_differ by (simp add: toy_ada)
  have bad: "decrypt_initial_message toy_crypto (cim_message ?initial) toy_bob = (toy_bob, Inl PreKeyUnavailable)"
    by (simp add: decrypt_initial_message_def toy_bob_def bob_local_def toy_forged_initial_def)
  have "peers_ok init_db" by (simp add: peers_ok_def init_tables)
  from forged_one_shot_takes_over_history [where fails = "\<lambda>_. False" and now = 5, OF _ this pb link(1) refl link(2) dec key refl refl neq bad]
  show ?thesis by blast
qed

text \<open>Identities whose public keys have 32 bytes, as those of the real cryptography.\<close>

definition toy_bob32 :: bob where
  "toy_bob32 = bob_local toy_crypto (replicate 32 7) [2] [3] [4]"

definition toy_ann32 :: alice where
  "toy_ann32 = alice_local toy_crypto (replicate 32 5) [6]"

theorem one_shot_delivered_witness:
  "\<exists>payload encrypted s' a' t' b' row. run_alice toy_crypto toy_chat_codec (\<lambda>_. False) [7] 5 ''Ann'' ''10.0.0.2:5000'' ''hi'' (toy_alice_link payload)
        toy_ann32 init_db = (s', a', [encrypted], QuicContinue)
    \<and> run_bob_quic_once toy_crypto toy_chat_codec (\<lambda>_. False) 6 ''Bob'' (toy_bob_link encrypted) toy_bob32 init_db
        = (t', b', [payload, as_bytes ''ok''], QuicContinue)
    \<and> messages t' = [row] \<and> mw_plaintext row = Some ''hi''"
proof -
  have wf: "bob_wf toy_crypto toy_bob32" by (simp add: bob_wf_def toy_bob32_def bob_local_def from_private_bytes_def)
  obtain pb where pb: "bob_prekey_bundle toy_crypto toy_bob32 = Inr pb"
    by (simp add: bob_prekey_bundle_def toy_bob32_def bob_local_def Let_def)
  let ?payload = "cc_prekey toy_chat_codec \<lparr>cpb_sender_display_name = ''Bob'', cpb_bundle = pb\<rparr>"
  obtain a' res where enc: "encrypt_initial_message toy_crypto [7] pb ''hi'' toy_ann32 = (a', res)"
    by (cases "encrypt_initial_message toy_crypto [7] pb ''hi'' toy_ann32")
  have db: "peers_ok init_db" "\<forall>r \<in> set (pending_peer_messages init_db). pw_peer_id r \<noteq> cid" for cid
    by (simp_all add: peers_ok_def init_tables)
  have la: "al_connected (toy_alice_link p) = None" "al_bundle (toy_alice_link p) = Inr p" "al_initial_sent (toy_alice_link p) = None"
    "al_ack (toy_alice_link p) = Inr (as_bytes ''ok'')" "al_chat (toy_alice_link p) = []" for p by (simp_all add: toy_alice_link_def)
  have lb: "bl_bundle_sent (toy_bob_link p) = None" "bl_received (toy_bob_link p) q = Inr p" "bl_ack_sent (toy_bob_link p) = None"
    "bl_chat (toy_bob_link p) = []" for p q by (simp_all add: toy_bob_link_def)
  have len: "length (ik_public_key toy_crypto (bo_identity toy_bob32)) = 32" "length (ik_public_key toy_crypto (al_identity toy_ann32)) = 32"
    by code_simp+
  have none: "\<not> message_exists mid init_db" "messages init_db = []" for mid by (simp_all add: message_exists_iff init_db_def)
  have hi: "''hi'' \<noteq> ([] :: string)" by simp
  from one_shot_delivered [where fails = "\<lambda>_. False" and now = 5 and now' = 6 and eph = "[7]" and alice_name = "''Ann''"
      and hint = "''10.0.0.2:5000''" and bob_name = "''Bob''" and a = toy_ann32, OF toy_crypto_ok toy_sig_correct toy_chat_codec_ok _ wf pb
      is_str_hi hi db(1) db la lb refl enc refl refl len(1) refl len(2) none(1) none(1)]
  show ?thesis by (auto simp: none(2) moved_history_def update_where_def)
qed

theorem empty_one_shot_swallows_first_frame_witness:
  "\<exists>encrypted t' b' sent. run_bob_quic_once toy_crypto toy_chat_codec (\<lambda>_. False) 6 ''Bob'' (toy_bob_link encrypted) toy_bob init_db
      = (t', b', [sent], QuicContinue)"
proof -
  obtain pb where pb: "bob_prekey_bundle toy_crypto toy_bob = Inr pb" using toy_bob_bundle by blast
  obtain a1 res where enc: "encrypt_initial_message toy_crypto [7] pb [] toy_ann = (a1, res)"
    by (cases "encrypt_initial_message toy_crypto [7] pb [] toy_ann")
  have "is_str []" by (simp add: is_str_def)
  from initial_message_steps [OF toy_crypto_ok toy_sig_correct toy_bob_wf(1) pb this enc]
  obtain m b1 where m: "decrypt_initial_message toy_crypto m toy_bob = (b1, Inr [])" by blast
  let ?sent = "\<lparr>cim_sender_display_name = ''Ann'', cim_sender_identity_public_key = Some toy_identity, cim_message = m\<rparr>"
  let ?initial = "?sent\<lparr>cim_sender_display_name := display_name_or_anonymous ''Ann''\<rparr>"
  have dec: "decode_chat_initial_message toy_chat_codec (enc_countable ?sent) = Inr ?initial" by simp
  have m': "decrypt_initial_message toy_crypto (cim_message ?initial) toy_bob = (b1, Inr [])" using m by simp
  have link: "bl_bundle_sent (toy_bob_link x) = None" "bl_received (toy_bob_link x) p = Inr x" "bl_chat (toy_bob_link x) = []" for x p
    by (simp_all add: toy_bob_link_def)
  have "\<exists>t1. save_contact_for_chat toy_crypto (\<lambda>_. False) 6 (initial_conversation_id toy_crypto ?initial) (cim_sender_display_name ?initial)
      (initial_identity ?initial) ''direct QUIC'' init_db = (t1, Inr ())"
    by (rule save_contact_fresh) (simp_all add: init_tables)
  then obtain t1 where t1: "save_contact_for_chat toy_crypto (\<lambda>_. False) 6 (initial_conversation_id toy_crypto ?initial)
      (cim_sender_display_name ?initial) (initial_identity ?initial) ''direct QUIC'' init_db = (t1, Inr ())" by blast
  from empty_one_shot_swallows_first_frame [where eph = "[7]" and alice_name = "''Ann''" and hint = "''h''" and link = "toy_alice_link []"
      and a = toy_ann and s = init_db and bob_name = "''Bob''", OF m' pb refl link(1,2) dec t1]
  show ?thesis unfolding link(3) quic_chat_def by auto
qed

end
