(* ===== verification/Menu.thy ===== *)
theory Menu
  imports Pairing
begin

text \<open>
  The menus of the client (\<^verbatim>\<open>src/src/main.rs\<close>): the main menu, the invite menus with the whole of
  \<^verbatim>\<open>run_create_invite\<close> and \<^verbatim>\<open>run_join_invite\<close> (\<^verbatim>\<open>src/src/pairing.rs\<close>) behind them, the profile, the chat
  lists with their pages, and a saved conversation.  A menu is a loop over the lines typed at the
  terminal; what it shows is a list of screens.
\<close>

section \<open>Pairing sessions started from a menu\<close>

text \<open>
  What a pairing session meets: the configured service address, the answer to the name prompt, clock,
  random bytes, the identities that would be generated, and the events of its three loops.
\<close>

record session_script =
  ss_service_addr :: "multiaddr option"
  ss_name_line :: string
  ss_now :: u64
  ss_fresh_alice :: alice
  ss_fresh_bob :: bob
  ss_fresh_key :: bytes
  ss_random :: "bytes option"
  ss_lan :: "ip_addr option"
  ss_events :: "(step_env \<times> pairing_event) list"
  ss_ack_events :: "(nat \<times> pairing_event) list"
  ss_chat_start :: u64
  ss_chat :: "timed_event list"

text \<open>The text forms of addresses and peer ids, and the decoder of the stored libp2p key.\<close>

record platform =
  pf_addr_text :: addr_text
  pf_parse_peer :: "string \<Rightarrow> peer_id option"
  pf_key :: "bytes \<Rightarrow> bytes option"

text \<open>A session is still open when its events are over and it has not returned.\<close>

datatype session_end = SessionOpen | SessionReturned | SessionFailed app_error

definition paired_chat ::
    "'e party \<Rightarrow> crypto \<Rightarrow> chat_codec \<Rightarrow> session_script \<Rightarrow> peer_id \<Rightarrow> pairing_chat_context \<Rightarrow> 'e \<Rightarrow> db \<Rightarrow> db \<times> session_end" where
  "paired_chat P K C sc target cx e s =
     (case pairing_chat_start P K C (ss_chat_start sc) cx e s of
        (st, acts, Failed err) \<Rightarrow> (pc_db st, SessionFailed err)
      | (st, acts, _) \<Rightarrow>
          (case run_pairing_chat P K C target cx (ss_chat sc) st of
             (st1, acts1, Continue) \<Rightarrow> (pc_db st1, SessionOpen)
           | (st1, acts1, Finished) \<Rightarrow> (pc_db st1, SessionReturned)
           | (st1, acts1, Failed err) \<Rightarrow> (pc_db st1, SessionFailed err)))"

definition run_create_invite_at ::
    "crypto \<Rightarrow> chat_codec \<Rightarrow> platform \<Rightarrow> session_script \<Rightarrow> multiaddr \<Rightarrow> db \<Rightarrow> db \<times> session_end" where
  "run_create_invite_at K C F sc service_addr s =
     (case load_or_prompt_display_name (ss_name_line sc) (ss_now sc) s of (s1, local_display_name) \<Rightarrow>
     (case load_or_create_bob_identity K C (ss_fresh_bob sc) (ss_now sc) s1 of
        (s2, Inl err) \<Rightarrow> (s2, SessionFailed err)
      | (s2, Inr bob) \<Rightarrow>
     (case load_or_create_libp2p_identity id (pf_key F) (ss_fresh_key sc) (ss_now sc) s2 of
        (s3, Inl err) \<Rightarrow> (s3, SessionFailed err)
      | (s3, Inr _) \<Rightarrow>
     (case create_invite_config K local_display_name service_addr (ss_now sc) (ss_random sc) of
        Inl err \<Rightarrow> (s3, SessionFailed err)
      | Inr (code, cf) \<Rightarrow>
     (case create_invite_run K C (pf_addr_text F) (ss_lan sc) cf (ss_events sc)
             (fst (create_invite_start (ss_lan sc) cf bob s3)) of
        (st, acts, Paired peer cx) \<Rightarrow> paired_chat bob_party K C sc peer cx (ci_bob st) (ci_db st)
      | (st, acts, Aborted err) \<Rightarrow> (ci_db st, SessionFailed err)
      | (st, acts, _) \<Rightarrow> (ci_db st, SessionOpen))))))"

definition run_create_invite :: "crypto \<Rightarrow> chat_codec \<Rightarrow> platform \<Rightarrow> session_script \<Rightarrow> db \<Rightarrow> db \<times> session_end" where
  "run_create_invite K C F sc s = (case configured_service_addr (ss_service_addr sc) of
     Inl err \<Rightarrow> (s, SessionFailed err) | Inr service_addr \<Rightarrow> run_create_invite_at K C F sc service_addr s)"

text \<open>The loop of \<^verbatim>\<open>wait_for_join_ack_and_chat\<close>; an event comes with the time since it was entered.\<close>

fun wait_for_join_ack ::
    "peer_id \<Rightarrow> string \<Rightarrow> string \<Rightarrow> string \<Rightarrow> (nat \<times> pairing_event) list \<Rightarrow> pairing_outcome" where
  "wait_for_join_ack target local_display_name remote_display_name conversation_id [] = Pending"
| "wait_for_join_ack target local_display_name remote_display_name conversation_id ((elapsed, ev) # evs) =
     (case wait_for_join_ack_and_chat target local_display_name remote_display_name conversation_id elapsed ev of
        Pending \<Rightarrow> wait_for_join_ack target local_display_name remote_display_name conversation_id evs
      | res \<Rightarrow> res)"

definition run_join_invite_at ::
    "crypto \<Rightarrow> chat_codec \<Rightarrow> platform \<Rightarrow> session_script \<Rightarrow> string \<Rightarrow> multiaddr \<Rightarrow> db \<Rightarrow> db \<times> session_end" where
  "run_join_invite_at K C F sc code service_addr s =
     (case load_or_prompt_display_name (ss_name_line sc) (ss_now sc) s of (s1, local_display_name) \<Rightarrow>
     (case load_or_create_alice_identity K C (ss_fresh_alice sc) (ss_now sc) s1 of
        (s2, Inl err) \<Rightarrow> (s2, SessionFailed err)
      | (s2, Inr alice) \<Rightarrow>
     (case load_or_create_libp2p_identity id (pf_key F) (ss_fresh_key sc) (ss_now sc) s2 of
        (s3, Inl err) \<Rightarrow> (s3, SessionFailed err)
      | (s3, Inr _) \<Rightarrow>
     (case join_invite_config K code local_display_name service_addr of
        Inl err \<Rightarrow> (s3, SessionFailed err)
      | Inr cf \<Rightarrow>
     (case join_invite_run K C (pf_addr_text F) (pf_parse_peer F) cf (ss_events sc)
             (fst (join_invite_start (ss_lan sc) cf alice s3)) of
        (st, acts, AwaitAck target remote_display_name conversation_id) \<Rightarrow>
          (case wait_for_join_ack target local_display_name remote_display_name conversation_id (ss_ack_events sc) of
             Paired peer cx \<Rightarrow> paired_chat alice_party K C sc peer cx (ji_alice st) (ji_db st)
           | Aborted err \<Rightarrow> (ji_db st, SessionFailed err)
           | _ \<Rightarrow> (ji_db st, SessionOpen))
      | (st, acts, Aborted err) \<Rightarrow> (ji_db st, SessionFailed err)
      | (st, acts, _) \<Rightarrow> (ji_db st, SessionOpen))))))"

definition run_join_invite ::
    "crypto \<Rightarrow> chat_codec \<Rightarrow> platform \<Rightarrow> session_script \<Rightarrow> string \<Rightarrow> db \<Rightarrow> db \<times> session_end" where
  "run_join_invite K C F sc code s = (case normalize_invite_code code of
     Inl err \<Rightarrow> (s, SessionFailed err)
   | Inr normalized \<Rightarrow> (case configured_service_addr (ss_service_addr sc) of
       Inl err \<Rightarrow> (s, SessionFailed err)
     | Inr service_addr \<Rightarrow> run_join_invite_at K C F sc normalized service_addr s))"

section \<open>The terminal\<close>

text \<open>
  A line as \<^verbatim>\<open>read_line\<close> delivers it, with the clock, the random bytes and the failing SQL statements
  of what it triggers, and the session it may start.  At the end of the input \<^verbatim>\<open>read_line\<close> delivers the
  empty line again and again.
\<close>

record typed =
  ty_line :: string
  ty_now :: u64
  ty_random :: bytes
  ty_fails :: "nat \<Rightarrow> bool"
  ty_session :: session_script

definition trim_end :: "string \<Rightarrow> string" where
  "trim_end s = concat (rev (dropWhile is_whitespace (rev (utf8_chars s))))"

definition prompt_line :: "typed \<Rightarrow> string" where
  "prompt_line k = trim_end (ty_line k)"

definition dec_digit :: "char \<Rightarrow> nat option" where
  "dec_digit c = (let n = of_char c :: nat in if 48 \<le> n \<and> n \<le> 57 then Some (n - 48) else None)"

fun dec_digits :: "nat \<Rightarrow> string \<Rightarrow> nat option" where
  "dec_digits acc [] = Some acc"
| "dec_digits acc (c # cs) = (case dec_digit c of
     None \<Rightarrow> None
   | Some d \<Rightarrow> if acc * 10 + d < 2 ^ 64 then dec_digits (acc * 10 + d) cs else None)"

text \<open>\<^verbatim>\<open>str::parse::<usize>\<close>: decimal digits after an optional plus sign; overflow is an error.\<close>

definition parse_usize :: "string \<Rightarrow> nat option" where
  "parse_usize s =
     (let digits = (case s of CHR ''+'' # rest \<Rightarrow> rest | _ \<Rightarrow> s)
      in if digits = [] then None else dec_digits 0 digits)"

datatype shown =
    ShowMain
  | ShowCreate
  | ShowJoin
  | ShowProfile string
  | ShowRecent "chat_summary list"
  | ShowPage nat nat "chat_summary list"
  | ShowConversation string string "message_record list" "message_record list"

text \<open>How a menu ends on a finite list of lines: it waits for more, it returns with the lines it left, or it fails.\<close>

datatype 'a menu_end = Waiting | Returned 'a "typed list" | MenuFailed app_error

type_synonym 'a menu_result = "db \<times> shown list \<times> 'a menu_end"

definition after :: "shown list \<Rightarrow> 'a menu_result \<Rightarrow> 'a menu_result" where
  "after views r = (case r of (s, vs, e) \<Rightarrow> (s, views @ vs, e))"

text \<open>A nested menu: its screens come first, and the outer menu goes on with the lines it left.\<close>

definition menu_bind :: "'a menu_result \<Rightarrow> ('a \<Rightarrow> typed list \<Rightarrow> db \<Rightarrow> 'b menu_result) \<Rightarrow> 'b menu_result" where
  "menu_bind r f = (case r of
     (s, vs, Returned x ks) \<Rightarrow> after vs (f x ks s)
   | (s, vs, Waiting) \<Rightarrow> (s, vs, Waiting)
   | (s, vs, MenuFailed err) \<Rightarrow> (s, vs, MenuFailed err))"

lemma menu_bind_cong [fundef_cong]:
  assumes "r = r'" "\<And>s vs x ks. r' = (s, vs, Returned x ks) \<Longrightarrow> f x ks s = g x ks s"
  shows "menu_bind r f = menu_bind r' g"
  using assms by (auto simp: menu_bind_def split: prod.splits menu_end.splits)

section \<open>A saved conversation\<close>

text \<open>\<^verbatim>\<open>print_offline_conversation\<close>: the heading, the messages, those marked new; \<open>print_conversation\<close> is its effect.\<close>

definition conversation_view :: "string \<Rightarrow> string \<Rightarrow> db \<Rightarrow> shown" where
  "conversation_view conversation_id display_name s =
     ShowConversation conversation_id (display_name_or_anonymous display_name)
       (messages_for_conversation conversation_id s) (new_messages_for_conversation conversation_id s)"

fun saved_conversation_loop ::
    "crypto \<Rightarrow> string \<Rightarrow> string \<Rightarrow> known_peer_record option \<Rightarrow> typed list \<Rightarrow> db \<Rightarrow> unit menu_result" where
  "saved_conversation_loop K conversation_id display_name peer [] s =
     (print_conversation conversation_id s, [conversation_view conversation_id display_name s], Waiting)"
| "saved_conversation_loop K conversation_id display_name peer (k # ks) s =
     (let view = conversation_view conversation_id display_name s;
          s1 = print_conversation conversation_id s;
          line = prompt_line k
      in if is_chat_back_command line then (s1, [view], Returned () ks)
         else if eq_ignore_ascii_case (trim line) ''/clear'' then
           (case clear_conversation_history (ty_fails k) conversation_id s1 of
              (s2, Inl err) \<Rightarrow> (s2, [view], MenuFailed (AppStorage err))
            | (s2, Inr removed) \<Rightarrow> after [view] (saved_conversation_loop K conversation_id display_name peer ks s2))
         else if eq_ignore_ascii_case (trim line) ''/delete'' then
           (case ks of
              [] \<Rightarrow> (s1, [view], Waiting)
            | k2 # ks2 \<Rightarrow>
                if trim (prompt_line k2) = ''DELETE'' then
                  (case delete_conversation (ty_fails k2) conversation_id s1 of
                     (s2, Inl err) \<Rightarrow> (s2, [view], MenuFailed (AppStorage err))
                   | (s2, Inr removed) \<Rightarrow> (s2, [view], Returned () ks2))
                else after [view] (saved_conversation_loop K conversation_id display_name peer ks2 s1))
         else if line = [] then after [view] (saved_conversation_loop K conversation_id display_name peer ks s1)
         else (case peer of
                 Some p \<Rightarrow> after [view] (saved_conversation_loop K conversation_id display_name peer ks
                   (queue_offline_peer_message K (ty_random k) (ty_now k) p line s1))
               | None \<Rightarrow> after [view] (saved_conversation_loop K conversation_id display_name peer ks s1)))"

declare saved_conversation_loop.simps(2) [simp del]

definition open_saved_conversation :: "crypto \<Rightarrow> string \<Rightarrow> string \<Rightarrow> typed list \<Rightarrow> db \<Rightarrow> unit menu_result" where
  "open_saved_conversation K conversation_id display_name ks s =
     saved_conversation_loop K conversation_id display_name (load_known_peer_for_conversation K conversation_id s) ks s"

lemma after_Returned [simp]: "after vs r = (s, ws, Returned x ks) \<longleftrightarrow> (\<exists>us. r = (s, us, Returned x ks) \<and> ws = vs @ us)"
  by (auto simp: after_def split: prod.splits)

lemma menu_bind_Returned:
  "menu_bind r f = (s, ws, Returned y ls) \<longleftrightarrow>
     (\<exists>t vs x ks us. r = (t, vs, Returned x ks) \<and> f x ks t = (s, us, Returned y ls) \<and> ws = vs @ us)"
  by (auto simp: menu_bind_def split: prod.splits menu_end.splits)

lemma saved_conversation_rest:
  "saved_conversation_loop K cid name peer kb s = (s', vs, Returned x ks) \<Longrightarrow> length ks < length kb"
proof (induction K cid name peer kb s arbitrary: vs rule: saved_conversation_loop.induct)
  case (2 K cid name peer k kb s)
  then show ?case
    by (fastforce simp: saved_conversation_loop.simps(2) Let_def split: if_splits prod.splits sum.splits option.splits list.splits)
qed simp

section \<open>The chat lists\<close>

definition RECENT_CHAT_LIMIT :: nat where
  "RECENT_CHAT_LIMIT = 3"

definition CHAT_HISTORY_PAGE_SIZE :: nat where
  "CHAT_HISTORY_PAGE_SIZE = 6"

definition selected_chat :: "nat \<Rightarrow> string \<Rightarrow> chat_summary list \<Rightarrow> chat_summary option" where
  "selected_chat limit selection chats = (case parse_usize (trim selection) of
     Some index \<Rightarrow> if 1 \<le> index \<and> index \<le> limit \<and> index - 1 < length chats then Some (chats ! (index - 1)) else None
   | None \<Rightarrow> None)"

definition open_chat :: "crypto \<Rightarrow> chat_summary \<Rightarrow> typed list \<Rightarrow> db \<Rightarrow> unit menu_result" where
  "open_chat K selected ks s =
     open_saved_conversation K (ct_contact_id (cs_contact selected)) (ct_display_name (cs_contact selected)) ks s"

lemma open_chat_rest: "open_chat K c kb s = (s', vs, Returned x ks) \<Longrightarrow> length ks < length kb"
  by (simp add: open_chat_def open_saved_conversation_def saved_conversation_rest)

text \<open>The head of the loop of \<^verbatim>\<open>run_all_chat_history_menu\<close>: number of pages, the page within it, its chats.\<close>

definition total_pages :: "db \<Rightarrow> nat" where
  "total_pages s = max ((chat_summary_count s + (CHAT_HISTORY_PAGE_SIZE - 1)) div CHAT_HISTORY_PAGE_SIZE) 1"

definition page_within :: "nat \<Rightarrow> db \<Rightarrow> nat" where
  "page_within page s = min page (total_pages s - 1)"

definition page_chats :: "nat \<Rightarrow> db \<Rightarrow> chat_summary list" where
  "page_chats page s =
     chat_summaries_page (of_nat CHAT_HISTORY_PAGE_SIZE) (of_nat (page * CHAT_HISTORY_PAGE_SIZE)) s"

definition page_view :: "nat \<Rightarrow> db \<Rightarrow> shown" where
  "page_view page s = ShowPage (page + 1) (total_pages s) (page_chats page s)"

function (sequential) all_chats_loop :: "crypto \<Rightarrow> nat \<Rightarrow> typed list \<Rightarrow> db \<Rightarrow> unit menu_result" where
  "all_chats_loop K page0 [] s = (s, [page_view (page_within page0 s) s], Waiting)"
| "all_chats_loop K page0 (k # ks) s =
     (let page = page_within page0 s; view = page_view page s; selection = prompt_line k
      in if is_back_selection selection then (s, [view], Returned () ks)
         else if eq_ignore_ascii_case selection ''p'' then
           after [view] (all_chats_loop K (if 0 < page then page - 1 else page) ks s)
         else if eq_ignore_ascii_case selection ''n'' then
           after [view] (all_chats_loop K (if page + 1 < total_pages s then page + 1 else page) ks s)
         else (case selected_chat (length (page_chats page s)) selection (page_chats page s) of
                 Some selected \<Rightarrow> after [view] (menu_bind (open_chat K selected ks s)
                   (\<lambda>_ rest s1. all_chats_loop K page rest s1))
               | None \<Rightarrow> after [view] (all_chats_loop K page ks s)))"
  by pat_completeness auto
termination
  by (relation "measure (\<lambda>(K, page, ks, s). length ks)") (auto dest: open_chat_rest)

declare all_chats_loop.simps(2) [simp del]

definition run_all_chat_history_menu :: "crypto \<Rightarrow> typed list \<Rightarrow> db \<Rightarrow> unit menu_result" where
  "run_all_chat_history_menu K ks s = all_chats_loop K 0 ks s"

lemma all_chats_rest: "all_chats_loop K page kb s = (s', vs, Returned x ks) \<Longrightarrow> length ks < length kb"
proof (induction K page kb s arbitrary: vs rule: all_chats_loop.induct)
  case (2 K page k kb s)
  then show ?case
    by (fastforce simp: all_chats_loop.simps(2) Let_def menu_bind_Returned dest: open_chat_rest split: if_splits option.splits)
qed simp

function (sequential) chat_history_loop :: "crypto \<Rightarrow> typed list \<Rightarrow> db \<Rightarrow> unit menu_result" where
  "chat_history_loop K [] s = (s, [ShowRecent (recent_chat_summaries (of_nat RECENT_CHAT_LIMIT) s)], Waiting)"
| "chat_history_loop K (k # ks) s =
     (let chats = recent_chat_summaries (of_nat RECENT_CHAT_LIMIT) s; view = ShowRecent chats; selection = prompt_line k
      in if is_back_selection selection then (s, [view], Returned () ks)
         else if chats = [] then after [view] (chat_history_loop K ks s)
         else if eq_ignore_ascii_case selection ''a'' then
           after [view] (menu_bind (run_all_chat_history_menu K ks s) (\<lambda>_ rest s1. chat_history_loop K rest s1))
         else (case selected_chat (min (length chats) RECENT_CHAT_LIMIT) selection chats of
                 Some selected \<Rightarrow> after [view] (menu_bind (open_chat K selected ks s) (\<lambda>_ rest s1. chat_history_loop K rest s1))
               | None \<Rightarrow> after [view] (chat_history_loop K ks s)))"
  by pat_completeness auto
termination
  by (relation "measure (\<lambda>(K, ks, s). length ks)")
     (auto simp: run_all_chat_history_menu_def dest: open_chat_rest all_chats_rest)

declare chat_history_loop.simps(2) [simp del]

definition run_chat_history_menu :: "crypto \<Rightarrow> typed list \<Rightarrow> db \<Rightarrow> unit menu_result" where
  "run_chat_history_menu K ks s = chat_history_loop K ks s"

lemma chat_history_rest: "chat_history_loop K kb s = (s', vs, Returned x ks) \<Longrightarrow> length ks < length kb"
proof (induction K kb s arbitrary: vs rule: chat_history_loop.induct)
  case (2 K k kb s)
  then show ?case
    by (fastforce simp: chat_history_loop.simps(2) run_all_chat_history_menu_def Let_def menu_bind_Returned
        dest: open_chat_rest all_chats_rest split: if_splits option.splits)
qed simp

section \<open>Profile and invites\<close>

fun run_profile_menu :: "typed list \<Rightarrow> db \<Rightarrow> unit menu_result" where
  "run_profile_menu [] s = (s, [ShowProfile (load_local_profile s)], Waiting)"
| "run_profile_menu (k # ks) s =
     (let view = ShowProfile (load_local_profile s)
      in if trim (prompt_line k) = ''1'' then
           (case ks of
              [] \<Rightarrow> (s, [view], Waiting)
            | k2 # ks2 \<Rightarrow>
                if is_back_selection (prompt_line k2) then after [view] (run_profile_menu ks2 s)
                else after [view] (run_profile_menu ks2 (fst (update_local_display_name (prompt_line k2) (ty_now k2) s))))
         else if is_back_selection (trim (prompt_line k)) then (s, [view], Returned () ks)
         else after [view] (run_profile_menu ks s))"

declare run_profile_menu.simps(2) [simp del]

fun run_create_invite_menu ::
    "crypto \<Rightarrow> chat_codec \<Rightarrow> platform \<Rightarrow> typed list \<Rightarrow> db \<Rightarrow> unit menu_result" where
  "run_create_invite_menu K C F [] s = (s, [ShowCreate], Waiting)"
| "run_create_invite_menu K C F (k # ks) s =
     (if trim (prompt_line k) = ''1'' then
        (case run_create_invite K C F (ty_session k) s of
           (s1, SessionOpen) \<Rightarrow> (s1, [ShowCreate], Waiting)
         | (s1, _) \<Rightarrow> (s1, [ShowCreate], Returned () ks))
      else if is_back_selection (trim (prompt_line k)) then (s, [ShowCreate], Returned () ks)
      else after [ShowCreate] (run_create_invite_menu K C F ks s))"

fun run_join_invite_menu ::
    "crypto \<Rightarrow> chat_codec \<Rightarrow> platform \<Rightarrow> typed list \<Rightarrow> db \<Rightarrow> unit menu_result" where
  "run_join_invite_menu K C F [] s = (s, [ShowJoin], Waiting)"
| "run_join_invite_menu K C F (k # ks) s =
     (if trim (prompt_line k) = ''1'' then
        (case ks of
           [] \<Rightarrow> (s, [ShowJoin], Waiting)
         | k2 # ks2 \<Rightarrow>
             if is_back_selection (prompt_line k2) then (s, [ShowJoin], Returned () ks2)
             else (case run_join_invite K C F (ty_session k2) (trim (prompt_line k2)) s of
                     (s1, SessionOpen) \<Rightarrow> (s1, [ShowJoin], Waiting)
                   | (s1, SessionReturned) \<Rightarrow> (s1, [ShowJoin], Returned () ks2)
                   | (s1, SessionFailed err) \<Rightarrow> after [ShowJoin] (run_join_invite_menu K C F ks2 s1)))
      else if is_back_selection (trim (prompt_line k)) then (s, [ShowJoin], Returned () ks)
      else after [ShowJoin] (run_join_invite_menu K C F ks s))"

declare run_create_invite_menu.simps(2) [simp del] run_join_invite_menu.simps(2) [simp del]

lemma profile_rest: "run_profile_menu kb s = (s', vs, Returned x ks) \<Longrightarrow> length ks < length kb"
proof (induction kb s arbitrary: vs rule: run_profile_menu.induct)
  case (2 k kb s)
  then show ?case by (fastforce simp: run_profile_menu.simps(2) Let_def split: if_splits list.splits)
qed simp

lemma create_rest: "run_create_invite_menu K C F kb s = (s', vs, Returned x ks) \<Longrightarrow> length ks < length kb"
proof (induction K C F kb s arbitrary: vs rule: run_create_invite_menu.induct)
  case (2 K C F k kb s)
  then show ?case
    by (fastforce simp: run_create_invite_menu.simps(2) split: if_splits prod.splits session_end.splits)
qed simp

lemma join_rest: "run_join_invite_menu K C F kb s = (s', vs, Returned x ks) \<Longrightarrow> length ks < length kb"
proof (induction K C F kb s arbitrary: vs rule: run_join_invite_menu.induct)
  case (2 K C F k kb s)
  then show ?case
    by (fastforce simp: run_join_invite_menu.simps(2) split: if_splits prod.splits session_end.splits list.splits)
qed simp

section \<open>The main menu\<close>

datatype screen_action = Stay | Back | Quit

abbreviation stay :: "unit menu_result \<Rightarrow> screen_action menu_result" where
  "stay r \<equiv> menu_bind r (\<lambda>_ rest s. (s, [], Returned Stay rest))"

fun run_main_menu_screen ::
    "crypto \<Rightarrow> chat_codec \<Rightarrow> platform \<Rightarrow> typed list \<Rightarrow> db \<Rightarrow> screen_action menu_result" where
  "run_main_menu_screen K C F [] s = (s, [ShowMain], Waiting)"
| "run_main_menu_screen K C F (k # ks) s =
     (let selection = trim (prompt_line k)
      in if selection = ''1'' then after [ShowMain] (stay (run_create_invite_menu K C F ks s))
         else if selection = ''2'' then after [ShowMain] (stay (run_join_invite_menu K C F ks s))
         else if selection = ''3'' then after [ShowMain] (stay (run_chat_history_menu K ks s))
         else if selection = ''4'' then after [ShowMain] (stay (run_profile_menu ks s))
         else if is_quit_selection selection then (s, [ShowMain], Returned Quit ks)
         else if is_back_selection selection then (s, [ShowMain], Returned Back ks)
         else (s, [ShowMain], Returned Stay ks))"

lemma main_screen_rest: "run_main_menu_screen K C F kb s = (s', vs, Returned x ks) \<Longrightarrow> length ks < length kb"
  by (cases kb)
     (fastforce simp: Let_def menu_bind_Returned run_chat_history_menu_def
       dest: create_rest join_rest profile_rest chat_history_rest split: if_splits)+

function run_product_menu ::
    "crypto \<Rightarrow> chat_codec \<Rightarrow> platform \<Rightarrow> typed list \<Rightarrow> db \<Rightarrow> unit menu_result" where
  "run_product_menu K C F ks s = menu_bind (run_main_menu_screen K C F ks s)
     (\<lambda>action rest s1. case action of Quit \<Rightarrow> (s1, [], Returned () rest) | _ \<Rightarrow> run_product_menu K C F rest s1)"
  by pat_completeness auto
termination
  by (relation "measure (\<lambda>(K, C, F, ks, s). length ks)") (auto dest: main_screen_rest)

declare run_product_menu.simps [simp del] run_main_menu_screen.simps(2) [simp del]

end
