(* ===== verification/ClientFiles.thy ===== *)
theory ClientFiles
  imports Pairing
begin

text \<open>
  What the client's database holds together: stored and queued messages and known peers belong to a contact,
  contacts and known peers are kept under the id of their identity key.  The methods of the store that the client
  calls keep this, also when a merge, the clearing or the deletion of a conversation is cut short.
\<close>

section \<open>Messages under contacts\<close>

definition contact_ids :: "db \<Rightarrow> string set" where
  "contact_ids s = cw_contact_id ` set (contacts_tbl s)"

text \<open>Known peers have a key of 32 bytes and are kept under its id; so are contacts that have such a key.\<close>

definition keyed :: "crypto \<Rightarrow> db \<Rightarrow> bool" where
  "keyed K s \<longleftrightarrow>
     (\<forall>r \<in> set (known_peers s). length (kw_identity_public_key r) = 32
        \<and> kw_peer_id r = contact_id_for_identity K (kw_identity_public_key r) \<and> kw_conversation_id r = kw_peer_id r)
     \<and> (\<forall>r \<in> set (contacts_tbl s). length (cw_identity_public_key r) = 32 \<longrightarrow>
        cw_contact_id r = contact_id_for_identity K (cw_identity_public_key r))"

text \<open>Stored messages, queued messages and known peers belong to a contact.\<close>

definition filed :: "crypto \<Rightarrow> db \<Rightarrow> bool" where
  "filed K s \<longleftrightarrow> mw_conversation_id ` set (messages s) \<subseteq> contact_ids s
     \<and> pw_conversation_id ` set (pending_peer_messages s) \<subseteq> contact_ids s
     \<and> kw_conversation_id ` set (known_peers s) \<subseteq> contact_ids s \<and> keyed K s"

text \<open>The same while a conversation is open.\<close>

definition filed_chat :: "crypto \<Rightarrow> string \<Rightarrow> db \<Rightarrow> bool" where
  "filed_chat K cid s \<longleftrightarrow> filed K s \<and> cid \<in> contact_ids s"

section \<open>Methods with one statement\<close>

lemma keyed_mono:
  "set (known_peers t) \<subseteq> set (known_peers s) \<Longrightarrow> set (contacts_tbl t) \<subseteq> set (contacts_tbl s) \<Longrightarrow> keyed K s \<Longrightarrow> keyed K t"
  unfolding keyed_def by blast

lemma filed_change:
  assumes "known_peers t = known_peers s" "contacts_tbl t = contacts_tbl s"
    and "mw_conversation_id ` set (messages t) \<subseteq> insert cid (mw_conversation_id ` set (messages s))"
    and "pw_conversation_id ` set (pending_peer_messages t) \<subseteq> insert cid (pw_conversation_id ` set (pending_peer_messages s))"
    and "filed K s" "cid \<in> contact_ids s"
  shows "filed K t" "contact_ids t = contact_ids s"
proof -
  show ids: "contact_ids t = contact_ids s" by (simp only: contact_ids_def assms(2))
  have "keyed K t" using keyed_mono [of t s K] assms(1,2,5) by (simp add: filed_def)
  moreover have "mw_conversation_id ` set (messages t) \<subseteq> contact_ids s" "pw_conversation_id ` set (pending_peer_messages t) \<subseteq> contact_ids s"
    using assms(3-6) unfolding filed_def by (meson insert_subset order_trans)+
  ultimately show "filed K t" using assms(1,5) unfolding filed_def ids by simp
qed

lemma filed_same:
  assumes "known_peers t = known_peers s" "contacts_tbl t = contacts_tbl s"
    and "mw_conversation_id ` set (messages t) \<subseteq> mw_conversation_id ` set (messages s)"
    and "pw_conversation_id ` set (pending_peer_messages t) \<subseteq> pw_conversation_id ` set (pending_peer_messages s)"
  shows "filed K s \<Longrightarrow> filed K t" "filed_chat K cid s \<Longrightarrow> filed_chat K cid t"
proof -
  have ids: "contact_ids t = contact_ids s" by (simp only: contact_ids_def assms(2))
  show filed: "filed K t" if "filed K s"
    using that keyed_mono [of t s K] assms unfolding filed_def ids by (simp, meson order_trans)
  show "filed_chat K cid t" if "filed_chat K cid s"
    using that unfolding filed_chat_def ids by (meson filed)
qed

lemma update_where_keeps: "(\<And>r. f (g r) = f r) \<Longrightarrow> f ` set (update_where p g t) = f ` set t"
  by (induction t) (auto simp: update_where_def)

lemma filed_methods:
  assumes "P = filed K \<or> P = filed_chat K cid" and "P u"
  shows "P (save_local_identity lid role state now u)" "P (save_display_name name now u)"
    "P (record_pending_peer_message_attempt mid now u)" "P (remove_pending_peer_message mid u)"
    "P (update_message_status mid status u)" "P (fst (accept_message_once mid now u))"
    "P (mark_message_new cid' mid now u)" "P (fst (mark_new_messages_read cid' u))"
proof -
  have less: "P t" if "known_peers t = known_peers u" "contacts_tbl t = contacts_tbl u"
    "mw_conversation_id ` set (messages t) \<subseteq> mw_conversation_id ` set (messages u)"
    "pw_conversation_id ` set (pending_peer_messages t) \<subseteq> pw_conversation_id ` set (pending_peer_messages u)" for t
    using assms filed_same [OF that] by auto
  note defs = save_local_identity_def stmt_upsert_local_identity_def save_display_name_def record_pending_peer_message_attempt_def
    remove_pending_peer_message_def update_message_status_def accept_message_once_def mark_message_new_def mark_new_messages_read_def
  show "P (save_local_identity lid role state now u)" "P (save_display_name name now u)"
    "P (record_pending_peer_message_attempt mid now u)" "P (remove_pending_peer_message mid u)"
    "P (update_message_status mid status u)" "P (fst (accept_message_once mid now u))"
    "P (mark_message_new cid' mid now u)" "P (fst (mark_new_messages_read cid' u))"
    by (rule less; auto simp: defs update_where_keeps case_prod_unfold Let_def)+
qed

lemma filed_stored:
  assumes "filed_chat K cid u"
  shows "mr_conversation_id r = cid \<Longrightarrow> filed_chat K cid (insert_message r u)"
    "pm_conversation_id m = cid \<Longrightarrow> filed_chat K cid (queue_pending_peer_message m u)"
proof -
  have more: "filed_chat K cid t" if "known_peers t = known_peers u" "contacts_tbl t = contacts_tbl u"
    "mw_conversation_id ` set (messages t) \<subseteq> insert cid (mw_conversation_id ` set (messages u))"
    "pw_conversation_id ` set (pending_peer_messages t) \<subseteq> insert cid (pw_conversation_id ` set (pending_peer_messages u))" for t
    using assms filed_change [OF that] by (auto simp: filed_chat_def)
  show "mr_conversation_id r = cid \<Longrightarrow> filed_chat K cid (insert_message r u)"
    "pm_conversation_id m = cid \<Longrightarrow> filed_chat K cid (queue_pending_peer_message m u)"
    by (rule more; auto simp: insert_message_def queue_pending_peer_message_def insert_or_ignore_def message_to_row_def pending_to_row_def)+
qed

lemma filed_listed:
  assumes "c \<in> set (chat_summaries_page n k u)"
  shows "ct_contact_id (cs_contact c) \<in> contact_ids u"
proof -
  have part: "set (limit_offset l off xs) \<subseteq> set xs" for l off and xs :: "summary_row list"
    by (auto simp: limit_offset_def Let_def dest: in_set_takeD in_set_dropD)
  have "\<exists>x \<in> set (summary_join u). c = chat_summary_from_row x"
    using assms part by (fastforce simp: chat_summaries_page_def)
  then show ?thesis
    by (auto simp: summary_join_def chat_summary_from_row_def contact_from_row_def contact_ids_def)
qed

section \<open>Merging, clearing and deleting\<close>

lemma take_cases:
  assumes "k \<le> (8::nat)"
  obtains "k = 0" | "k = 1" | "k = 2" | "k = 3" | "k = 4" | "k = 5" | "k = 6" | "k = 7" | "k = 8"
  using assms by linarith

text \<open>The tables of a merge or a deletion that was cut short after \<open>k\<close> statements.\<close>

lemma merge_prefix_tables:
  assumes "k \<le> 8" "u = fold (\<lambda>st u. st u) (take k (merge_statements old new)) s"
  shows "messages u = (if 1 \<le> k then update_where (\<lambda>r. mw_conversation_id r = old) (\<lambda>r. r\<lparr>mw_conversation_id := new\<rparr>) (messages s)
      else messages s)"
    "pending_peer_messages u = (if 2 \<le> k then update_where (\<lambda>r. pw_conversation_id r = old) (\<lambda>r. r\<lparr>pw_conversation_id := new\<rparr>)
      (pending_peer_messages s) else pending_peer_messages s)"
    "known_peers u = (if 7 \<le> k then delete_where (\<lambda>r. kw_conversation_id r = old) (known_peers s) else known_peers s)"
    "contacts_tbl u = (if 8 \<le> k then delete_where (\<lambda>r. cw_contact_id r = old) (contacts_tbl s) else contacts_tbl s)"
  using assms(2) by (rule_tac [!] take_cases [OF assms(1)]) (simp_all add: merge_statements_alt)

lemma delete_prefix_tables:
  assumes "k \<le> 8" "u = fold (\<lambda>st u. st u) (take k (delete_statements c)) s"
  shows "messages u = (if 1 \<le> k then delete_where (\<lambda>r. mw_conversation_id r = c) (messages s) else messages s)"
    "pending_peer_messages u = (if 3 \<le> k then delete_where (\<lambda>r. pw_conversation_id r = c) (pending_peer_messages s)
      else pending_peer_messages s)"
    "known_peers u = (if 7 \<le> k then delete_where (\<lambda>r. kw_conversation_id r = c) (known_peers s) else known_peers s)"
    "contacts_tbl u = (if 8 \<le> k then delete_where (\<lambda>r. cw_contact_id r = c) (contacts_tbl s) else contacts_tbl s)"
  using assms(2) by (rule_tac [!] take_cases [OF assms(1)]) (simp_all add: delete_statements_def clear_statements_def)

lemma moved_conversations:
  assumes "old \<noteq> new"
  shows "mw_conversation_id ` set (update_where (\<lambda>r. mw_conversation_id r = old) (\<lambda>r. r\<lparr>mw_conversation_id := new\<rparr>) ms)
      \<subseteq> insert new (mw_conversation_id ` set ms - {old})"
    "pw_conversation_id ` set (update_where (\<lambda>r. pw_conversation_id r = old) (\<lambda>r. r\<lparr>pw_conversation_id := new\<rparr>) ps)
      \<subseteq> insert new (pw_conversation_id ` set ps - {old})"
  using assms by (auto simp: update_where_def)

lemma filed_merge:
  assumes "merge_contact_into fl old new s = (t, res)" "filed_chat K new s"
  shows "filed_chat K new t"
proof (cases "old = new")
  case True
  then show ?thesis using assms by (simp add: merge_contact_into_def)
next
  case False
  then have "t = fst (autocommit fl 0 (merge_statements old new) s)" using assms(1) by (simp add: merge_contact_into_def)
  moreover have "length (merge_statements old new) = 8" by (simp add: merge_statements_alt)
  ultimately obtain k where k: "k \<le> 8" "t = fold (\<lambda>st u. st u) (take k (merge_statements old new)) s"
    using autocommit_prefix [of "merge_statements old new" fl 0 s] by metis
  note tables = merge_prefix_tables [OF k]
  have ids: "contact_ids t = (if 8 \<le> k then contact_ids s - {old} else contact_ids s)"
    by (auto simp: contact_ids_def tables)
  have sub: "X \<subseteq> contact_ids t"
    if "X \<subseteq> insert new (M - (if n \<le> k then {old} else {}))" "M \<subseteq> contact_ids s" "n \<le> 8" for X M n
  proof (cases "8 \<le> k")
    case True
    then have "n \<le> k" using that(3) by simp
    then show ?thesis using that(1,2) True False assms(2) unfolding ids filed_chat_def by auto
  next
    case False
    then show ?thesis using that(1,2) assms(2) unfolding ids filed_chat_def by (auto split: if_splits)
  qed
  note in_s = assms(2) [unfolded filed_chat_def filed_def]
  have "mw_conversation_id ` set (messages t) \<subseteq> contact_ids t"
    by (rule sub [of _ "mw_conversation_id ` set (messages s)" 1])
      (use in_s moved_conversations(1) [OF False, of "messages s"] in \<open>simp_all add: tables subset_insertI\<close>)
  moreover have "pw_conversation_id ` set (pending_peer_messages t) \<subseteq> contact_ids t"
    by (rule sub [of _ "pw_conversation_id ` set (pending_peer_messages s)" 2])
      (use in_s moved_conversations(2) [OF False, of "pending_peer_messages s"] in \<open>simp_all add: tables subset_insertI\<close>)
  moreover have "kw_conversation_id ` set (known_peers t) \<subseteq> contact_ids t"
    by (rule sub [of _ "kw_conversation_id ` set (known_peers s)" 7]) (use in_s in \<open>auto simp: tables\<close>)
  moreover have "keyed K t"
    by (rule keyed_mono [of t s]) (use in_s in \<open>auto simp: tables\<close>)
  moreover have "new \<in> contact_ids t" using in_s False by (simp add: ids)
  ultimately show ?thesis unfolding filed_chat_def filed_def by blast
qed

lemma filed_clear:
  assumes "clear_conversation_history fl c s = (t, res)" "filed_chat K cid s"
  shows "filed_chat K cid t"
proof -
  have t: "t = fst (autocommit fl 0 (clear_statements c) s)"
    using assms(1) by (auto simp: clear_conversation_history_def Let_def split: prod.splits)
  have less: "filed_chat K cid v" if "known_peers v = known_peers u" "contacts_tbl v = contacts_tbl u"
    "mw_conversation_id ` set (messages v) \<subseteq> mw_conversation_id ` set (messages u)"
    "pw_conversation_id ` set (pending_peer_messages v) \<subseteq> pw_conversation_id ` set (pending_peer_messages u)" "filed_chat K cid u" for u v
    using filed_same(2) [OF that] .
  show ?thesis unfolding t
    by (rule autocommit_inv [where P = "filed_chat K cid", OF _ assms(2)]) (auto simp: clear_statements_def intro: less)
qed

lemma filed_delete:
  assumes "delete_conversation fl c s = (t, res)" "filed K s"
  shows "filed K t"
proof -
  have "t = fst (autocommit fl 0 (delete_statements c) s)"
    using assms(1) by (auto simp: delete_conversation_def Let_def split: prod.splits)
  moreover have "length (delete_statements c) = 8" by (simp add: delete_statements_def clear_statements_def)
  ultimately obtain k where k: "k \<le> 8" "t = fold (\<lambda>st u. st u) (take k (delete_statements c)) s"
    using autocommit_prefix [of "delete_statements c" fl 0 s] by metis
  note tables = delete_prefix_tables [OF k]
  have ids: "contact_ids t = (if 8 \<le> k then contact_ids s - {c} else contact_ids s)"
    by (auto simp: contact_ids_def tables)
  have sub: "X \<subseteq> contact_ids t"
    if "X \<subseteq> M - (if n \<le> k then {c} else {})" "M \<subseteq> contact_ids s" "n \<le> 8" for X M n
  proof (cases "8 \<le> k")
    case True
    then have "n \<le> k" using that(3) by simp
    then show ?thesis using that(1,2) True unfolding ids by auto
  next
    case False
    then show ?thesis using that(1,2) unfolding ids by (auto split: if_splits)
  qed
  note in_s = assms(2) [unfolded filed_def]
  have "mw_conversation_id ` set (messages t) \<subseteq> contact_ids t"
    by (rule sub [of _ "mw_conversation_id ` set (messages s)" 1]) (use in_s in \<open>auto simp: tables\<close>)
  moreover have "pw_conversation_id ` set (pending_peer_messages t) \<subseteq> contact_ids t"
    by (rule sub [of _ "pw_conversation_id ` set (pending_peer_messages s)" 3]) (use in_s in \<open>auto simp: tables\<close>)
  moreover have "kw_conversation_id ` set (known_peers t) \<subseteq> contact_ids t"
    by (rule sub [of _ "kw_conversation_id ` set (known_peers s)" 7]) (use in_s in \<open>auto simp: tables\<close>)
  moreover have "keyed K t"
    by (rule keyed_mono [of t s]) (use in_s in \<open>auto simp: tables\<close>)
  ultimately show ?thesis unfolding filed_def by blast
qed

section \<open>Saving a contact\<close>

lemma set_upsert_replaced: "set (upsert key (\<lambda>old new. new) r t) = insert r {x \<in> set t. key x \<noteq> key r}"
  by (auto simp: upsert_def has_key_def image_iff)

lemma filed_contact:
  assumes "filed K s" "length (ct_identity_public_key c) = 32 \<Longrightarrow> ct_contact_id c = contact_id_for_identity K (ct_identity_public_key c)"
  shows "filed_chat K (ct_contact_id c) (save_contact c s)"
proof -
  have ids: "contact_ids (save_contact c s) = insert (ct_contact_id c) (contact_ids s)"
    by (auto simp: contact_ids_def save_contact_def set_upsert_replaced)
  have "keyed K (save_contact c s)"
    using assms by (auto simp: keyed_def filed_def save_contact_def set_upsert_replaced)
  then show ?thesis
    using assms(1) unfolding filed_chat_def filed_def ids by (auto simp: save_contact_def)
qed

lemma filed_known_peer:
  assumes "save_known_peer p s = Inr t" "filed_chat K (kp_conversation_id p) s" "length (kp_identity_public_key p) = 32"
    and "kp_peer_id p = contact_id_for_identity K (kp_identity_public_key p)" "kp_conversation_id p = kp_peer_id p"
  shows "filed_chat K (kp_conversation_id p) t"
proof -
  let ?row = "\<lparr>kw_peer_id = kp_peer_id p, kw_identity_public_key = kp_identity_public_key p, kw_display_name = kp_display_name p,
     kw_conversation_id = kp_conversation_id p, kw_last_seen_at = as_i64 (kp_last_seen_at p)\<rparr>"
  have t: "t = s\<lparr>known_peers := upsert kw_peer_id (\<lambda>old new. new) ?row (known_peers s)\<rparr>"
    using assms(1) by (simp add: save_known_peer_def split: if_splits)
  have "keyed K t" using assms(2-5) by (auto simp: t keyed_def filed_chat_def filed_def set_upsert_replaced)
  then show ?thesis
    using assms(2) by (auto simp: t filed_chat_def filed_def contact_ids_def set_upsert_replaced)
qed

lemma filed_save_contact:
  assumes "save_contact_for_chat K fl now cid name key hint s = (t, res)" "filed K s"
    and "length key = 32 \<Longrightarrow> cid = contact_id_for_identity K key"
  shows "filed_chat K cid t"
proof -
  let ?c = "\<lparr>ct_contact_id = cid, ct_display_name = display_name_or_anonymous name, ct_identity_public_key = key,
    ct_discovery_hint = hint, ct_saved_at = now\<rparr>"
  let ?p = "\<lparr>kp_peer_id = contact_id_for_identity K key, kp_identity_public_key = key, kp_display_name = display_name_or_anonymous name,
    kp_conversation_id = cid, kp_last_seen_at = now\<rparr>"
  have 1: "filed_chat K cid (save_contact ?c s)" using filed_contact [of K s ?c] assms(2,3) by simp
  have 2: "filed_chat K cid u" if "merge_contact_into fl old cid (save_contact ?c s) = (u, r)" for old u r
    by (rule filed_merge [OF that 1])
  have 3: "filed_chat K cid v" if "save_known_peer ?p u = Inr v" "filed_chat K cid u" "length key = 32" for u v
    using filed_known_peer [OF that(1)] that(2,3) assms(3) by simp
  show ?thesis
    using assms(1) 1 by (auto simp: save_contact_for_chat_def Let_def split: if_splits prod.splits sum.splits dest: 2 3)
qed

lemma filed_peers: "filed K s \<Longrightarrow> peers_ok s"
  by (auto simp: filed_def keyed_def peers_ok_def)

lemma filed_init: "filed K init_db"
  by (simp add: filed_def keyed_def init_db_def)

end
