(* ===== verification/ClientSteps.thy ===== *)
theory ClientSteps
  imports Menu OneShot ClientFiles
begin

text \<open>
  What the client does to its database.  The database is changed through the methods of \<^verbatim>\<open>Storage\<close> only; here
  an invariant that those methods keep, called the way the client calls them, is carried through every function of
  the chat, of pairing, of the menus and of the commands over QUIC.  \<open>filed\<close> is such an invariant.
\<close>

section \<open>What the client relies on\<close>

text \<open>
  A property of databases that the methods without a conversation keep.  These and the other methods with a
  single statement always succeed; merges, clearing and deleting end with any result.
\<close>

named_theorems by_steps

locale client_methods =
  fixes J :: "db \<Rightarrow> bool"
  assumes keeps_identity: "J u \<Longrightarrow> J (save_local_identity lid role state now u)"
    and keeps_name: "J u \<Longrightarrow> J (save_display_name name now u)"
    and keeps_attempt: "J u \<Longrightarrow> J (record_pending_peer_message_attempt mid now u)"
    and keeps_remove: "J u \<Longrightarrow> J (remove_pending_peer_message mid u)"
    and keeps_status: "J u \<Longrightarrow> J (update_message_status mid status u)"
    and keeps_accept: "J u \<Longrightarrow> J (fst (accept_message_once mid now u))"
    and keeps_new: "J u \<Longrightarrow> J (mark_message_new cid' mid now u)"
    and keeps_read: "J u \<Longrightarrow> J (fst (mark_new_messages_read cid' u))"
begin

lemmas method_steps [by_steps] = keeps_identity keeps_name keeps_attempt keeps_remove keeps_status keeps_accept keeps_new keeps_read

lemma save_steps [by_steps]:
  assumes "J u"
  shows "J (save_alice_identity C now a u)" "J (save_bob_identity C now b u)"
    "J (mark_delivered_if_pending mid u)" "J (mark_incoming_chat_message_accepted now mid u)" "J (print_conversation cid' u)"
    "J (fst (update_local_display_name name now u))" "J (fst (load_or_prompt_display_name line now u))"
  using assms
  by (auto simp: save_alice_identity_def save_bob_identity_def mark_delivered_if_pending_def
      mark_incoming_chat_message_accepted_def print_conversation_def update_local_display_name_def load_or_prompt_display_name_def
      Let_def split: prod.splits sum.splits option.splits intro: method_steps)

lemma identity_steps:
  assumes "J u"
  shows "load_or_create_alice_identity K C fresh now u = (t, res) \<Longrightarrow> J t"
    "load_or_create_bob_identity K C fresh_bob now u = (t, res_bob) \<Longrightarrow> J t"
    "load_or_create_libp2p_identity enc dec key now u = (t, res_key) \<Longrightarrow> J t"
    "load_or_prompt_display_name line now u = (t, name) \<Longrightarrow> J t"
  using assms save_steps(7) [OF assms, of line now]
  by (auto simp: load_or_create_alice_identity_def load_or_create_bob_identity_def load_or_create_libp2p_identity_def
      split: option.splits intro: by_steps)

end

text \<open>In a chat messages are stored and queued in the conversation \<open>cid\<close> of the chat only.\<close>

locale chat_store = client_methods J for J :: "db \<Rightarrow> bool" +
  fixes cid :: string
  assumes keeps_message: "J u \<Longrightarrow> mr_conversation_id r = cid \<Longrightarrow> J (insert_message r u)"
    and keeps_queue: "J u \<Longrightarrow> pm_conversation_id m = cid \<Longrightarrow> J (queue_pending_peer_message m u)"
begin

lemma persist_steps: "J u \<Longrightarrow> che_conversation_id entry = cid \<Longrightarrow> J (persist_chat_message K now entry u)"
  by (auto simp: persist_chat_message_def Let_def split: message_direction.splits intro: keeps_message)

lemma entry_steps [by_steps]:
  assumes "J u"
  shows "J (persist_chat_message K now (sent_entry mid cid ln rn bs p) u)"
    "J (persist_chat_message K now (received_entry mid cid sn ln message bs p) u)"
  using assms by (simp_all add: persist_steps sent_entry_def received_entry_def)

lemma known_peer_conversation: "load_known_peer_for_conversation K cid u = Some q \<Longrightarrow> kp_conversation_id q = cid"
  by (auto simp: load_known_peer_for_conversation_def known_peer_for_conversation_def known_peer_from_row_def load_contact_def
      contact_from_row_def dest: select_oneD split: option.splits if_splits)

lemma offline_steps: "J u \<Longrightarrow> kp_conversation_id q = cid \<Longrightarrow> J (queue_offline_peer_message K random now q line u)"
  by (simp add: queue_offline_peer_message_def Let_def keeps_message keeps_queue)

lemma queueing_steps [by_steps]:
  assumes "J u"
  shows "J (queue_message_after_peer_disconnect K random now cid line u)"
    "J (track_pending_chat_delivery K now cid mid line u)"
  using assms
  by (auto simp: queue_message_after_peer_disconnect_def track_pending_chat_delivery_def
      intro: offline_steps keeps_queue dest: known_peer_conversation split: option.splits)

end

section \<open>Chats\<close>

text \<open>A role whose saving is a method of the store.\<close>

locale storing_party = chat_store J cid for J :: "db \<Rightarrow> bool" and cid :: string +
  fixes P :: "'e party"
  assumes party_steps: "J u \<Longrightarrow> J (pt_save P C now e u)"
begin

lemma prepare_steps:
  assumes "prepare_party_frame P K C now ln rn cid text existing e u = (t, res)" "J u"
  shows "J t"
  using assms
  by (auto simp: prepare_party_frame_def prepare_outgoing_frame_def Let_def split: prod.splits sum.splits intro: by_steps party_steps)

lemma send_pending_steps:
  assumes "send_pending_loop P K C now ln cid items e u = (t, res)" "J u"
  shows "J t"
  using assms
proof (induction items arbitrary: e u t res)
  case (Cons item items)
  show ?case
    using Cons.prems by (auto split: prod.splits sum.splits)
      (blast intro: by_steps prepare_steps Cons.IH)+
qed simp

lemma store_incoming_steps:
  assumes "store_incoming P K C now ln cid bs mid sn message e u = (t, res)" "J u"
  shows "J t"
  using assms by (auto simp: store_incoming_def split: prod.splits sum.splits intro: by_steps party_steps)

lemma handle_event_steps:
  assumes "handle_party_app_event P K C now target ln cid event e u = (t, res)" "J u"
  shows "J t"
  using assms
  by (auto simp: handle_party_app_event_def handle_chat_frame_def intro: by_steps store_incoming_steps
      split: app_event.splits pairing_request.splits pairing_response.splits option.splits chat_frame.splits if_splits prod.splits sum.splits)

lemma chat_start_steps:
  assumes "pairing_chat_start P K C now cx e u = (st, res)" "J u" "pcc_conversation_id cx = cid"
  shows "J (pc_db st)"
  using assms(1,2) by (auto simp: pairing_chat_start_def assms(3) split: prod.splits sum.splits)
    (blast intro: by_steps send_pending_steps)+

lemma chat_step_steps:
  assumes "pairing_chat_step P K C random now target cx ev st = (st1, res)" "J (pc_db st)" "pcc_conversation_id cx = cid"
  shows "J (pc_db st1)"
  using assms(1,2)
  by (cases ev)
     (auto simp: assms(3) split: if_splits prod.splits sum.splits option.splits,
      (blast intro: by_steps prepare_steps handle_event_steps send_pending_steps)+)

lemma chat_run_steps:
  assumes "run_pairing_chat P K C target cx evs st = (st1, res)" "J (pc_db st)" "pcc_conversation_id cx = cid"
  shows "J (pc_db st1)"
  using assms(1,2)
proof (induction evs arbitrary: st st1 res)
  case (Cons tev evs)
  obtain now random ev where tev: "tev = (now, random, ev)" by (cases tev)
  obtain st2 acts r where step: "pairing_chat_step P K C random now target cx ev st = (st2, acts, r)"
    by (cases "pairing_chat_step P K C random now target cx ev st")
  note ok = chat_step_steps [OF step Cons.prems(2) assms(3)]
  show ?case
    using Cons.prems(1) ok step by (cases r) (auto simp: tev split: prod.splits dest: Cons.IH [OF _ ok])
qed simp

lemma paired_chat_steps:
  assumes "paired_chat P K C sc target cx e u = (t, res)" "J u" "pcc_conversation_id cx = cid"
  shows "J t"
  using assms(1) chat_start_steps [where C = C and now = "ss_chat_start sc" and cx = cx and e = e, OF _ assms(2,3)]
  by (auto simp: paired_chat_def split: prod.splits loop_result.splits dest: chat_run_steps [OF _ _ assms(3)])

lemma flush_incoming_steps:
  assumes "handle_incoming_during_flush P K C now ln cid bs frame ack e u = (t, res)" "J u"
  shows "J t"
  using assms
  by (auto simp: handle_incoming_during_flush_def split: chat_frame.splits if_splits prod.splits sum.splits option.splits)
    (blast intro: by_steps store_incoming_steps)+

lemma wait_steps:
  assumes "wait_for_chat_ack P K C now ln cid expected arrivals e u = (t, res)" "J u"
  shows "J t"
  using assms
proof (induction arrivals arbitrary: e u t res)
  case (Cons arrival arrivals)
  show ?case
  proof (cases arrival)
    case (Received bs ack)
    then show ?thesis using Cons.prems
      by (auto split: option.splits if_splits prod.splits sum.splits) (blast intro: flush_incoming_steps Cons.IH)+
  qed (use Cons.prems in simp_all)
qed simp

lemma flush_steps:
  assumes "flush_loop P K C now ln cid items sends arrivals e u = (t, res)" "J u"
  shows "J t"
  using assms
proof (induction items arbitrary: sends arrivals e u t res)
  case (Cons item items)
  have attempted: "J (record_pending_peer_message_attempt (pm_message_id item) now u)"
    using Cons.prems(2) by (rule by_steps)
  then have saved: "J (pt_save P C now e1 (record_pending_peer_message_attempt (pm_message_id item) now u))" for e1
    by (rule party_steps)
  show ?case
    using Cons.prems(1) attempted saved
    by (auto simp: Let_def split: prod.splits sum.splits option.splits list.splits bool.splits)
      (blast intro: by_steps wait_steps Cons.IH)+
qed simp

lemma quic_step_steps:
  assumes "quic_chat_step P K C random now cx ev st = (st1, res)" "J (pc_db st)" "pcc_conversation_id cx = cid"
  shows "J (pc_db st1)"
proof (cases ev)
  case (QuicLine line sent)
  then show ?thesis using assms(1,2)
    by (auto simp: assms(3) quic_line_def send_party_chat_line_def send_party_chat_line_with_id_def Let_def
        split: if_splits prod.splits sum.splits option.splits)
      (blast intro: by_steps party_steps)+
next
  case (QuicIncoming arrival)
  then show ?thesis using assms(1,2)
    by (cases arrival) (auto simp: assms(3) quic_lost_def quic_frame_def
      split: if_splits prod.splits sum.splits option.splits chat_frame.splits intro: store_incoming_steps)
qed (use assms in simp_all)

lemma quic_chat_steps:
  assumes "quic_chat P K C cx evs e u = (t, res)" "J u" "pcc_conversation_id cx = cid"
  shows "J t"
proof -
  have run: "quic_chat_run P K C cx evs st = (st1, r) \<Longrightarrow> J (pc_db st) \<Longrightarrow> J (pc_db st1)" for st st1 r
  proof (induction evs arbitrary: st r)
    case (Cons tev evs)
    obtain now random ev where tev: "tev = (now, random, ev)" by (cases tev)
    obtain st2 frames r2 where step: "quic_chat_step P K C random now cx ev st = (st2, frames, r2)"
      by (cases "quic_chat_step P K C random now cx ev st")
    note ok = quic_step_steps [OF step Cons.prems(2) assms(3)]
    show ?case using Cons.prems(1) ok step
      by (cases r2) (auto simp: tev split: prod.splits dest: Cons.IH [OF _ ok])
  qed simp
  have "J (print_conversation (pcc_conversation_id cx) u)" using assms(2) by (rule by_steps)
  then show ?thesis using assms(1) run by (fastforce simp: quic_chat_def split: prod.splits)
qed

end

sublocale chat_store \<subseteq> alice: storing_party J cid alice_party
  by unfold_locales (auto simp: alice_party_def intro: by_steps)

sublocale chat_store \<subseteq> bob: storing_party J cid bob_party
  by unfold_locales (auto simp: bob_party_def intro: by_steps)

section \<open>Pairing\<close>

lemma start_keeps_db [simp]:
  "ci_db (fst (create_invite_start lan cf b s)) = s" "ji_db (fst (join_invite_start lan cj a s)) = s"
  by (simp_all add: create_invite_start_def join_invite_start_def split: prod.splits)

lemma fst_after [simp]: "fst (after vs r) = fst r"
  by (simp add: after_def split: prod.splits)

lemma accept_initial_alt:
  "accept_initial_message K C fails now local_display_name hint payload b s =
     (case decode_chat_initial_message C payload of
        Inl e \<Rightarrow> (s, b, Inl e)
      | Inr initial \<Rightarrow>
          (case decrypt_initial_message K (cim_message initial) b of
             (b1, Inl e) \<Rightarrow> (s, b1, Inl (AppCrypto e))
           | (b1, Inr plaintext) \<Rightarrow>
               (let cid = initial_conversation_id K initial; rn = cim_sender_display_name initial
                in case save_contact_for_chat K fails now cid rn (initial_identity initial) hint (save_bob_identity C now b1 s) of
                     (s2, Inl e) \<Rightarrow> (s2, b1, Inl e)
                   | (s2, Inr _) \<Rightarrow> (if plaintext = [] then s2
                        else persist_chat_message K now (one_shot_received cid rn local_display_name payload plaintext) s2,
                        b1, Inr (rn, cid)))))"
  by (simp only: accept_initial_message_def initial_conversation_id_def initial_identity_def one_shot_received_def Let_def)

text \<open>
  An invariant of the whole client, \<open>I\<close>, and what more is known while a conversation is open, \<open>J cid\<close>.  A
  conversation is opened by saving its contact or from a chat list.  A contact with an identity key of 32 bytes is
  saved under the id derived from that key only.
\<close>

locale client_store = client_methods I for I :: "db \<Rightarrow> bool" +
  fixes K :: crypto and J :: "string \<Rightarrow> db \<Rightarrow> bool"
  assumes chats: "chat_store (J cid) cid"
    and opened: "J cid u \<Longrightarrow> I u"
    and listed: "c \<in> set (chat_summaries_page n k u) \<Longrightarrow> I u \<Longrightarrow> J (ct_contact_id (cs_contact c)) u"
    and clear_steps: "clear_conversation_history fl cid u = (t, cleared) \<Longrightarrow> J cid u \<Longrightarrow> J cid t"
    and delete_steps: "delete_conversation fl cid u = (t, deleted) \<Longrightarrow> I u \<Longrightarrow> I t"
    and save_contact_steps: "save_contact_for_chat K fl now cid name key hint u = (t, saved) \<Longrightarrow>
      (length key = 32 \<Longrightarrow> cid = contact_id_for_identity K key) \<Longrightarrow> I u \<Longrightarrow> I t \<and> (saved = Inr () \<longrightarrow> J cid t)"

sublocale client_store \<subseteq> chat: chat_store "J cid" cid for cid
  by (rule chats)

context client_store
begin

lemma keyed_contact_steps:
  "save_contact_for_chat K fl now (contact_id_for_identity K key) name key hint u = (t, saved) \<Longrightarrow> I u \<Longrightarrow>
     I t \<and> (saved = Inr () \<longrightarrow> J (contact_id_for_identity K key) t)"
  by (erule save_contact_steps) simp_all

text \<open>A peer that sent no key is saved with a placeholder of another length.\<close>

lemma initial_contact_steps:
  "save_contact_for_chat K fl now (initial_conversation_id K initial) name (initial_identity initial) hint u = (t, saved) \<Longrightarrow> I u \<Longrightarrow>
     I t \<and> (saved = Inr () \<longrightarrow> J (initial_conversation_id K initial) t)"
  by (erule save_contact_steps)
     (auto simp: initial_conversation_id_def initial_identity_def as_bytes_def split: option.splits)

lemma accept_initial_steps:
  assumes "accept_initial_message K C fl now ln hint payload b u = (t, b', res)" "I u"
  shows "I t \<and> (\<forall>name cid. res = Inr (name, cid) \<longrightarrow> J cid t)"
proof -
  have received: "J cid (persist_chat_message K now (one_shot_received cid rn ln payload p) v)" if "J cid v" for cid rn p v
    using that by (simp add: chat.persist_steps one_shot_received_def)
  show ?thesis
    using assms unfolding accept_initial_alt Let_def
    by (auto split: prod.splits sum.splits if_splits dest!: initial_contact_steps intro: save_steps received opened)
qed

text \<open>When pairing is over, the conversation of the chat is open.\<close>

lemma create_step_steps:
  assumes "create_invite_step K C A lan cf env ev st = (st1, acts, res)" "I (ci_db st)"
  shows "I (ci_db st1) \<and> (\<forall>peer cx. res = Paired peer cx \<longrightarrow> J (pcc_conversation_id cx) (ci_db st1))"
  using assms
  by (cases "(K, C, A, lan, cf, env, ev, st)" rule: create_invite_step.cases)
     (auto simp: create_invite_listening_def create_invite_reserved_def create_invite_request_def Let_def
       split: if_splits prod.splits sum.splits option.splits pairing_request.splits pairing_response.splits
       intro: by_steps dest: accept_initial_steps)

lemma create_run_steps:
  assumes "create_invite_run K C A lan cf evs st = (st1, acts, res)" "I (ci_db st)"
  shows "I (ci_db st1) \<and> (\<forall>peer cx. res = Paired peer cx \<longrightarrow> J (pcc_conversation_id cx) (ci_db st1))"
  using assms
proof (induction evs arbitrary: st acts)
  case (Cons tev evs)
  obtain env ev where tev: "tev = (env, ev)" by (cases tev)
  obtain st2 acts2 r where step: "create_invite_step K C A lan cf env ev st = (st2, acts2, r)"
    by (cases "create_invite_step K C A lan cf env ev st")
  note ok = create_step_steps [OF step Cons.prems(2)]
  show ?case
    using Cons.prems(1) ok step Cons.IH [of st2] by (cases r) (auto simp: tev split: prod.splits)
qed simp

lemma join_step_steps:
  assumes "join_invite_step K C A pp cf env ev st = (st1, acts, res)" "I (ji_db st)"
  shows "I (ji_db st1) \<and> (\<forall>peer name cid. res = AwaitAck peer name cid \<longrightarrow> J cid (ji_db st1))"
proof -
  have sent: "I (ji_db st2) \<and> (\<forall>peer name cid. r = AwaitAck peer name cid \<longrightarrow> J cid (ji_db st2))"
    if "join_invite_bundle K C env cf peer payload st = (st2, acts2, r)" for peer payload st2 acts2 r
    using that assms(2)
    by (auto simp: join_invite_bundle_def Let_def split: prod.splits sum.splits dest!: keyed_contact_steps intro: save_steps chat.save_steps)
  show ?thesis
    using assms
    by (cases "(K, C, A, pp, cf, env, ev, st)" rule: join_invite_step.cases)
       (auto simp: join_invite_response_def join_invite_resolved_def join_invite_connected_def relay_fallback_def Let_def
         split: if_splits prod.splits sum.splits option.splits pairing_response.splits dest!: sent)
qed

lemma join_run_steps:
  assumes "join_invite_run K C A pp cf evs st = (st1, acts, res)" "I (ji_db st)"
  shows "I (ji_db st1) \<and> (\<forall>peer name cid. res = AwaitAck peer name cid \<longrightarrow> J cid (ji_db st1))"
  using assms
proof (induction evs arbitrary: st acts)
  case (Cons tev evs)
  obtain env ev where tev: "tev = (env, ev)" by (cases tev)
  obtain st2 acts2 r where step: "join_invite_step K C A pp cf env ev st = (st2, acts2, r)"
    by (cases "join_invite_step K C A pp cf env ev st")
  note ok = join_step_steps [OF step Cons.prems(2)]
  show ?case
    using Cons.prems(1) ok step Cons.IH [of st2] by (cases r) (auto simp: tev split: prod.splits)
qed simp

lemma create_session_steps:
  assumes "I u"
  shows "I (fst (run_create_invite K C F sc u))"
proof -
  have run: "I (fst (run_create_invite_at K C F sc addr u))" for addr
  proof -
    obtain s1 name where n: "load_or_prompt_display_name (ss_name_line sc) (ss_now sc) u = (s1, name)" by fastforce
    obtain s2 rb where b: "load_or_create_bob_identity K C (ss_fresh_bob sc) (ss_now sc) s1 = (s2, rb)" by fastforce
    obtain s3 rk where k: "load_or_create_libp2p_identity id (pf_key F) (ss_fresh_key sc) (ss_now sc) s2 = (s3, rk)" by fastforce
    note 1 = identity_steps(4) [OF assms n]
    note 2 = identity_steps(2) [OF 1 b]
    note 3 = identity_steps(3) [OF 2 k]
    have paired: "I (fst (case create_invite_run K C (pf_addr_text F) (ss_lan sc) cf (ss_events sc)
             (fst (create_invite_start (ss_lan sc) cf bob s3)) of
        (st, acts, Paired peer cx) \<Rightarrow> paired_chat bob_party K C sc peer cx (ci_bob st) (ci_db st)
      | (st, acts, Aborted err) \<Rightarrow> (ci_db st, SessionFailed err)
      | (st, acts, _) \<Rightarrow> (ci_db st, SessionOpen)))" (is "I (fst (case ?run of (st, acts, r) \<Rightarrow> ?end st acts r))") for cf bob
    proof -
      obtain st acts r where run: "?run = (st, acts, r)" by (cases ?run)
      note ok = create_run_steps [OF run, unfolded start_keeps_db, OF 3]
      have "I (fst (paired_chat bob_party K C sc peer cx (ci_bob st) (ci_db st)))" if "r = Paired peer cx" for peer cx
        by (rule opened, rule chat.bob.paired_chat_steps [OF surjective_pairing _ refl]) (use ok that in blast)
      with ok show ?thesis by (simp add: run split: pairing_outcome.split)
    qed
    show ?thesis
      using 1 2 3 by (simp add: run_create_invite_at_def n b k paired split: sum.split prod.split)
  qed
  then show ?thesis using assms by (simp add: run_create_invite_def split: sum.split)
qed

lemma waited_conversation:
  "wait_for_join_ack p ln rn cid evs = Paired peer cx \<Longrightarrow> pcc_conversation_id cx = cid"
proof (induction evs)
  case (Cons tev evs)
  obtain elapsed ev where tev: "tev = (elapsed, ev)" by (cases tev)
  show ?case using Cons
    by (cases "(p, ln, rn, cid, elapsed, ev)" rule: wait_for_join_ack_and_chat.cases) (auto simp: tev split: if_splits)
qed simp

lemma join_session_steps:
  assumes "I u"
  shows "I (fst (run_join_invite K C F sc code u))"
proof -
  have run: "I (fst (run_join_invite_at K C F sc normalized addr u))" for normalized addr
  proof -
    obtain s1 name where n: "load_or_prompt_display_name (ss_name_line sc) (ss_now sc) u = (s1, name)" by fastforce
    obtain s2 ra where a: "load_or_create_alice_identity K C (ss_fresh_alice sc) (ss_now sc) s1 = (s2, ra)" by fastforce
    obtain s3 rk where k: "load_or_create_libp2p_identity id (pf_key F) (ss_fresh_key sc) (ss_now sc) s2 = (s3, rk)" by fastforce
    note 1 = identity_steps(4) [OF assms n]
    note 2 = identity_steps(1) [OF 1 a]
    note 3 = identity_steps(3) [OF 2 k]
    have waited: "I (fst (case wait_for_join_ack target name rn cid (ss_ack_events sc) of
             Paired peer cx \<Rightarrow> paired_chat alice_party K C sc peer cx (ji_alice st) (ji_db st)
           | Aborted err \<Rightarrow> (ji_db st, SessionFailed err)
           | _ \<Rightarrow> (ji_db st, SessionOpen)))" if "J cid (ji_db st)" for target rn cid st
    proof (cases "wait_for_join_ack target name rn cid (ss_ack_events sc)")
      case (Paired peer cx)
      have "J cid (fst (paired_chat alice_party K C sc peer cx (ji_alice st) (ji_db st)))"
        by (rule chat.alice.paired_chat_steps [OF surjective_pairing that waited_conversation [OF Paired]])
      then show ?thesis by (simp add: Paired opened)
    qed (simp_all add: opened [OF that])
    have paired: "I (fst (case join_invite_run K C (pf_addr_text F) (pf_parse_peer F) cf (ss_events sc)
             (fst (join_invite_start (ss_lan sc) cf alice s3)) of
        (st, acts, AwaitAck target rn cid) \<Rightarrow>
          (case wait_for_join_ack target name rn cid (ss_ack_events sc) of
             Paired peer cx \<Rightarrow> paired_chat alice_party K C sc peer cx (ji_alice st) (ji_db st)
           | Aborted err \<Rightarrow> (ji_db st, SessionFailed err)
           | _ \<Rightarrow> (ji_db st, SessionOpen))
      | (st, acts, Aborted err) \<Rightarrow> (ji_db st, SessionFailed err)
      | (st, acts, _) \<Rightarrow> (ji_db st, SessionOpen)))" (is "I (fst (case ?run of (st, acts, r) \<Rightarrow> ?end st acts r))") for cf alice
    proof -
      obtain st acts r where run: "?run = (st, acts, r)" by (cases ?run)
      note ok = join_run_steps [OF run, unfolded start_keeps_db, OF 3]
      show ?thesis using ok by (cases r) (simp_all add: run waited)
    qed
    show ?thesis
      using 1 2 3 by (simp add: run_join_invite_at_def n a k paired split: sum.split)
  qed
  then show ?thesis using assms by (simp add: run_join_invite_def split: sum.split)
qed

section \<open>Menus\<close>

lemma menu_bind_steps:
  assumes "I (fst r)"
    and "\<And>t vs x ks. r = (t, vs, Returned x ks) \<Longrightarrow> I t \<Longrightarrow> I (fst (f x ks t))"
  shows "I (fst (menu_bind r f))"
  using assms by (auto simp: menu_bind_def split: prod.splits menu_end.splits)

lemma saved_conversation_steps:
  "J cid u \<Longrightarrow> (\<forall>q. peer = Some q \<longrightarrow> kp_conversation_id q = cid) \<Longrightarrow> I (fst (saved_conversation_loop K cid name peer kb u))"
proof (induction kb arbitrary: u rule: measure_induct_rule [where f = length])
  case (less kb)
  have shown: "J cid (print_conversation cid u)" using less.prems(1) by (rule chat.save_steps)
  show ?case
  proof (cases kb)
    case (Cons k ks)
    have IH: "I (fst (saved_conversation_loop K cid name peer ks' t))" if "length ks' \<le> length ks" "J cid t" for ks' t
      using less.IH [OF _ that(2) less.prems(2)] that(1) Cons by simp
    have cleared: "J cid (fst (clear_conversation_history fl cid (print_conversation cid u)))" for fl
      by (rule clear_steps [OF surjective_pairing shown])
    have deleted: "I (fst (delete_conversation fl cid (print_conversation cid u)))" for fl
      by (rule delete_steps [OF surjective_pairing opened [OF shown]])
    have queued: "J cid (queue_offline_peer_message K random now q line (print_conversation cid u))" if "peer = Some q" for random now q line
      using less.prems(2) that by (intro chat.offline_steps shown) simp
    have reshown: "I (print_conversation cid t)" if "J cid t" for t by (rule opened) (rule chat.save_steps [OF that])
    show ?thesis unfolding Cons saved_conversation_loop.simps(2) Let_def
      using shown queued IH
      by (cases ks; cases peer) (simp_all add: case_prod_unfold opened [OF shown] cleared opened [OF cleared] deleted reshown split: sum.split)
  qed (simp add: opened [OF shown])
qed

lemma open_chat_steps:
  assumes "J (ct_contact_id (cs_contact c)) u"
  shows "I (fst (open_chat K c kb u))"
  unfolding open_chat_def open_saved_conversation_def
  by (rule saved_conversation_steps [OF assms]) (auto dest: chat.known_peer_conversation)

lemma selected_listed: "selected_chat n selection chats = Some c \<Longrightarrow> c \<in> set chats"
  by (auto simp: selected_chat_def split: option.splits if_splits)

lemma all_chats_steps: "K' = K \<Longrightarrow> I u \<Longrightarrow> I (fst (all_chats_loop K' page kb u))"
proof (induction K' page kb u rule: all_chats_loop.induct)
  case (2 K2 page k kb u)
  have chosen: "I (fst (open_chat K c kb u))" if "selected_chat n selection (page_chats p u) = Some c" for n selection p c
    using selected_listed [OF that] unfolding page_chats_def by (rule open_chat_steps [OF listed [OF _ 2(6)]])
  show ?case using 2
    by (auto simp: all_chats_loop.simps(2) Let_def split: option.splits intro!: menu_bind_steps dest: chosen)
qed simp

lemma chat_history_steps: "K' = K \<Longrightarrow> I u \<Longrightarrow> I (fst (chat_history_loop K' kb u))"
proof (induction K' kb u rule: chat_history_loop.induct)
  case (2 K2 k kb u)
  have chosen: "I (fst (open_chat K c kb u))"
    if "selected_chat n selection (recent_chat_summaries l u) = Some c" for n selection l c
    using selected_listed [OF that] unfolding recent_chat_summaries_def by (rule open_chat_steps [OF listed [OF _ 2(6)]])
  show ?case using 2
    by (auto simp: chat_history_loop.simps(2) run_all_chat_history_menu_def Let_def split: option.splits
        intro!: menu_bind_steps all_chats_steps [OF refl] dest: chosen)
qed simp

lemma profile_steps: "I u \<Longrightarrow> I (fst (run_profile_menu kb u))"
proof (induction kb arbitrary: u rule: measure_induct_rule [where f = length])
  case (less kb)
  have renamed: "I (fst (update_local_display_name name now u))" for name now
    using less.prems by (rule by_steps)
  show ?case using less renamed
    by (cases kb) (auto simp: run_profile_menu.simps(2) Let_def split: list.splits)
qed

lemma create_menu_steps: "K' = K \<Longrightarrow> I u \<Longrightarrow> I (fst (run_create_invite_menu K' C F kb u))"
proof (induction K' C F kb u rule: run_create_invite_menu.induct)
  case (2 K2 C F k kb u)
  then show ?case
    by (simp add: run_create_invite_menu.simps(2) case_prod_unfold create_session_steps split: session_end.split)
qed simp

lemma join_menu_steps: "I u \<Longrightarrow> I (fst (run_join_invite_menu K C F kb u))"
proof (induction kb arbitrary: u rule: measure_induct_rule [where f = length])
  case (less kb)
  show ?case
  proof (cases kb)
    case (Cons k ks)
    have IH: "I (fst (run_join_invite_menu K C F ks' t))" if "length ks' \<le> length ks" "I t" for ks' t
      using less.IH that Cons by simp
    show ?thesis unfolding Cons run_join_invite_menu.simps(2)
      by (cases ks) (simp_all add: less.prems IH case_prod_unfold join_session_steps split: session_end.split)
  qed (simp add: less.prems)
qed

lemma main_screen_steps: "I u \<Longrightarrow> I (fst (run_main_menu_screen K C F kb u))"
  by (cases kb) (simp_all add: run_main_menu_screen.simps(2) run_chat_history_menu_def Let_def
      menu_bind_steps create_menu_steps [OF refl] join_menu_steps chat_history_steps [OF refl] profile_steps)

lemma product_menu_steps: "I u \<Longrightarrow> I (fst (run_product_menu K C F kb u))"
proof (induction kb arbitrary: u rule: measure_induct_rule [where f = length])
  case (less kb)
  have "I (fst (case x of Quit \<Rightarrow> (t, [], Returned () ks) | _ \<Rightarrow> run_product_menu K C F ks t))"
    if "run_main_menu_screen K C F kb u = (t, vs, Returned x ks)" "I t" for t vs x ks
    using less.IH [OF main_screen_rest [OF that(1)] that(2)] that(2) by (simp split: screen_action.split)
  from menu_bind_steps [OF main_screen_steps [OF less.prems] this] show ?case
    by (simp only: run_product_menu.simps [of K C F kb u])
qed

section \<open>The commands over QUIC\<close>

lemma flush_to_bob_steps:
  "flush_pending_messages_to_bob K C now ln cid sends arrivals a u = (t, res) \<Longrightarrow> J cid u \<Longrightarrow> J cid t"
  unfolding flush_pending_messages_to_bob_def flush_pending_messages_def by (rule chat.alice.flush_steps)

lemma flush_to_alice_steps:
  "flush_pending_messages_to_alice K C now ln cid sends arrivals b u = (t, res) \<Longrightarrow> J cid u \<Longrightarrow> J cid t"
  unfolding flush_pending_messages_to_alice_def flush_pending_messages_def by (rule chat.bob.flush_steps)

lemma connect_alice_steps:
  assumes "connect_alice_chat K C fl private now ln hint payload initial_sent sends arrivals a u = (t, a', frames, res)" "I u"
  shows "I t \<and> (\<forall>session. res = Inr session \<longrightarrow> J (cs_conversation_id session) t)"
  using assms
  by (auto simp: connect_alice_chat_def Let_def split: prod.splits sum.splits option.splits dest!: keyed_contact_steps
      dest!: flush_to_bob_steps [OF _ chat.save_steps(1)] intro: opened save_steps chat.save_steps)

lemma bob_handshake_steps:
  assumes "complete_bob_chat_handshake K C fl private now ln bundle_sent received b u = (t, b', res)" "I u"
  shows "I t \<and> (\<forall>session. res = Inr session \<longrightarrow> J (cs_conversation_id session) t)"
  using assms
  by (auto simp: complete_bob_chat_handshake_def split: prod.splits sum.splits option.splits dest!: accept_initial_steps)

lemma chat_bob_steps:
  assumes "run_chat_bob_with_endpoint K C fl private now ln bundle_sent received sends arrivals b u = (t, b', frames, res)" "I u"
  shows "I t \<and> (\<forall>session. res = Inr session \<longrightarrow> J (cs_conversation_id session) t)"
  using assms
  by (auto simp: run_chat_bob_with_endpoint_def Let_def split: prod.splits sum.splits option.splits
      dest!: accept_initial_steps [OF _ save_steps(2)] dest: flush_to_alice_steps intro: opened save_steps)

lemma serve_connection_steps:
  assumes "serve_chat_connection K C fl private fresh now ln bundle_sent received sends arrivals u = (t, frames, res)" "I u"
  shows "I t \<and> (\<forall>b session. res = Inr (Some (b, session)) \<longrightarrow> J (cs_conversation_id session) t)"
proof -
  obtain s0 rb where load: "load_or_create_bob_identity K C fresh now u = (s0, rb)" by fastforce
  note loaded = identity_steps(2) [OF assms(2) load]
  show ?thesis
    using assms(1) loaded
    by (auto simp: serve_chat_connection_def load split: prod.splits sum.splits dest!: bob_handshake_steps [OF _ loaded]
        dest: flush_to_alice_steps intro: opened chat.save_steps)
qed

text \<open>The loop of a command, in the conversation that was opened.\<close>

lemma quic_session_steps:
  assumes "J cid v"
  shows "I (fst (quic_chat bob_party K C \<lparr>pcc_local_display_name = ln, pcc_remote_display_name = rn, pcc_conversation_id = cid\<rparr> evs b v))"
    "I (fst (quic_chat alice_party K C \<lparr>pcc_local_display_name = ln, pcc_remote_display_name = rn, pcc_conversation_id = cid\<rparr> evs a v))"
  by (rule opened, rule chat.bob.quic_chat_steps [OF surjective_pairing assms], simp)
    (rule opened, rule chat.alice.quic_chat_steps [OF surjective_pairing assms], simp)

lemma one_shot_steps:
  assumes "J cid v"
  shows "J cid (persist_chat_message K now (one_shot_received cid rn ln bs p) v)"
    "J cid (persist_chat_message K now (one_shot_sent cid ln rn bs p) v)"
  using assms by (simp_all add: chat.persist_steps one_shot_received_def one_shot_sent_def)

lemma run_bob_once_steps:
  assumes "I u"
  shows "I (fst (run_bob_quic_once K C fl now ln link b u))"
proof -
  have saved: "I (fst (save_contact_for_chat K fl now (initial_conversation_id K i) rn (initial_identity i) hint u))"
    "snd (save_contact_for_chat K fl now (initial_conversation_id K i) rn (initial_identity i) hint u) = Inr () \<Longrightarrow>
       J (initial_conversation_id K i) (fst (save_contact_for_chat K fl now (initial_conversation_id K i) rn (initial_identity i) hint u))"
    for i rn hint
    using initial_contact_steps [OF surjective_pairing assms] by blast+
  show ?thesis
    using assms saved(1)
    by (auto simp: run_bob_quic_once_def Let_def case_prod_unfold split: sum.split option.split
        intro!: quic_session_steps one_shot_steps saved(2) opened [OF one_shot_steps(1), OF saved(2)])
qed

lemma run_alice_steps:
  assumes "I u"
  shows "I (fst (run_alice K C fl private now ln hint message link a u))"
proof -
  let ?saved = "\<lambda>key rn hint. save_contact_for_chat K fl now (contact_id_for_identity K key) rn key hint u"
  have saved: "I (fst (?saved key rn hint))" "snd (?saved key rn hint) = Inr () \<Longrightarrow> J (contact_id_for_identity K key) (fst (?saved key rn hint))"
    for key rn hint
    using keyed_contact_steps [OF surjective_pairing assms] by blast+
  have flushed: "J cid (fst (flush_pending_messages_to_bob K C now ln cid sends arrivals a1 v))" if "J cid v" for cid sends arrivals a1 v
    by (rule flush_to_bob_steps [OF surjective_pairing that])
  show ?thesis
    using assms saved(1)
    by (auto simp: run_alice_def Let_def case_prod_unfold split: sum.split option.split
        intro!: quic_session_steps one_shot_steps flushed saved(2) opened [OF flushed, OF saved(2)])
qed

end

section \<open>Plain text\<close>

text \<open>Printable characters of ASCII: trimming does not touch them.\<close>

definition plain_char :: "char \<Rightarrow> bool" where
  "plain_char c \<longleftrightarrow> 33 \<le> (of_char c :: nat) \<and> (of_char c :: nat) \<le> 126"

lemma plain_char_facts:
  assumes "plain_char c"
  shows "\<not> cont_char c" "\<not> is_whitespace [c]"
proof -
  have "unat (of_nat (of_char c) :: u8) = of_char c"
    using nat_of_char_less_256 [of c] by (simp add: unat_of_nat del: of_nat_of_char)
  then have "unat (of_char c :: u8) = of_char c" by (simp only: of_nat_of_char)
  then show "\<not> cont_char c"
    using assms by (simp add: plain_char_def cont_char_def cont_byte_def byte_of_char_def word_le_nat_alt)
  show "\<not> is_whitespace [c]" using assms by (auto simp: plain_char_def is_whitespace_def)
qed

lemma drop_plain: "\<forall>c \<in> set s. plain_char c \<Longrightarrow> dropWhile is_whitespace (map (\<lambda>c. [c]) s) = map (\<lambda>c. [c]) s"
  by (cases s) (simp_all add: plain_char_facts)

lemma plain_chars: "\<forall>c \<in> set s. plain_char c \<Longrightarrow> utf8_chars s = map (\<lambda>c. [c]) s"
  by (intro utf8_chars_ascii) (simp add: plain_char_facts)

lemma trim_plain: "\<forall>c \<in> set s. plain_char c \<Longrightarrow> trim s = s"
  using drop_plain [of s] drop_plain [of "rev s"]
  by (simp add: trim_def trim_chars_def plain_chars rev_map [symmetric] concat_map_singleton)

section \<open>Runs of the client\<close>

text \<open>
  One use of the client on a database: a run of the product menu, a command that delivers one message and chats, or a
  connection of the chat listener or of a chat command, up to its loop or with the loop.
\<close>

abbreviation session_context :: "string \<Rightarrow> chat_session \<Rightarrow> pairing_chat_context" where
  "session_context local_display_name session \<equiv> \<lparr>pcc_local_display_name = local_display_name,
     pcc_remote_display_name = cs_remote_display_name session, pcc_conversation_id = cs_conversation_id session\<rparr>"

inductive client_step :: "crypto \<Rightarrow> chat_codec \<Rightarrow> db \<Rightarrow> db \<Rightarrow> bool" for K C where
  client_menu: "client_step K C s (fst (run_product_menu K C F kb s))"
| client_alice: "client_step K C s (fst (run_alice K C fl private now ln hint message alice_link a s))"
| client_bob_once: "client_step K C s (fst (run_bob_quic_once K C fl now ln bob_link b s))"
| client_connect: "connect_alice_chat K C fl private now ln hint payload initial_sent sends arrivals a s = (t, a', frames, res) \<Longrightarrow>
    client_step K C s t"
| client_chat: "connect_alice_chat K C fl private now ln hint payload initial_sent sends arrivals a s = (t, a', frames, Inr session) \<Longrightarrow>
    client_step K C s (fst (quic_chat alice_party K C (session_context ln session) evs a' t))"
| client_accept: "run_chat_bob_with_endpoint K C fl private now ln bundle_sent received sends arrivals b s = (t, b', frames, res) \<Longrightarrow>
    client_step K C s t"
| client_bob_chat: "run_chat_bob_with_endpoint K C fl private now ln bundle_sent received sends arrivals b s = (t, b', frames, Inr session) \<Longrightarrow>
    client_step K C s (fst (quic_chat bob_party K C (session_context ln session) evs b' t))"
| client_listen: "serve_chat_connection K C fl private fresh now ln bundle_sent received sends arrivals s = (t, frames, res) \<Longrightarrow>
    client_step K C s t"
| client_serve: "serve_chat_connection K C fl private fresh now ln bundle_sent received sends arrivals s = (t, frames, Inr (Some (b', session))) \<Longrightarrow>
    client_step K C s (fst (quic_chat bob_party K C (session_context ln session) evs b' t))"

context client_store
begin

lemma client_step_steps: "client_step K C s t \<Longrightarrow> I s \<Longrightarrow> I t"
proof (induction rule: client_step.induct)
  case (client_chat fl rnd now ln hint payload initial_sent sends arrivals a s t a' frames session evs)
  then show ?case using connect_alice_steps by (intro quic_session_steps) blast
next
  case (client_bob_chat fl rnd now ln bundle_sent received sends arrivals b s t b' frames session evs)
  then show ?case using chat_bob_steps by (intro quic_session_steps) blast
next
  case (client_serve fl rnd fresh now ln bundle_sent received sends arrivals s t frames b' session evs)
  then show ?case using serve_connection_steps by (intro quic_session_steps) blast
qed (auto dest: connect_alice_steps chat_bob_steps serve_connection_steps intro: product_menu_steps run_alice_steps run_bob_once_steps)

lemma client_run_steps: "(client_step K C)\<^sup>*\<^sup>* s t \<Longrightarrow> I s \<Longrightarrow> I t"
  by (induction rule: rtranclp_induct) (auto intro: client_step_steps)

end

section \<open>Everything is filed under a contact\<close>

interpretation filed_store: client_methods "filed K" for K
  by unfold_locales (erule filed_methods [of "filed K" K, OF disjI1 [OF refl]])+

interpretation filed_chats: chat_store "filed_chat K cid" cid for K cid
  by unfold_locales (erule filed_methods [of "filed_chat K cid" K cid, OF disjI2 [OF refl]] | erule (1) filed_stored)+

interpretation filed_client: client_store "filed K" K "filed_chat K" for K
proof unfold_locales
  show "filed_chat K cid t" if "clear_conversation_history fl cid u = (t, cleared)" "filed_chat K cid u" for fl cid u t cleared
    by (rule filed_clear [OF that])
  show "filed K t" if "delete_conversation fl cid u = (t, deleted)" "filed K u" for fl cid u t deleted
    by (rule filed_delete [OF that])
  show "filed K t \<and> (saved = Inr () \<longrightarrow> filed_chat K cid t)"
    if "save_contact_for_chat K fl now cid name key hint u = (t, saved)" "length key = 32 \<Longrightarrow> cid = contact_id_for_identity K key" "filed K u"
    for fl now cid name key hint u t saved
    using filed_save_contact [OF that(1,3,2)] by (simp add: filed_chat_def)
qed (simp_all add: filed_chat_def filed_listed)

lemma listed_contacts: "contact_ids s = (\<lambda>c. ct_contact_id (cs_contact c)) ` set (chat_summaries s)"
  by (auto simp: contact_ids_def chat_summaries_def contacts_def chat_summary_of_def contact_from_row_def image_image)

text \<open>
  C7: Whatever is typed at the menus, whatever the network delivers and wherever a merge, a deletion or a clearing
  of a conversation is cut short: in a database that only the client has used, starting from an empty one, every stored
  message and every queued one belongs to a conversation of the chat list, every known peer has the id and the
  conversation of its identity key and is in the chat list, a contact with an identity key has the id of that key, and
  the next contact of a peer can be saved: the UNIQUE constraint on the conversation of a known peer never refuses it.
  Methods of the store with a single statement are taken to succeed; the mailbox commands, which keep messages
  without a contact, are not among the uses.
\<close>

theorem client_files_messages:
  assumes "(client_step K C)\<^sup>*\<^sup>* init_db s"
  shows "(\<forall>r \<in> set (messages s). \<exists>c \<in> set (chat_summaries s). ct_contact_id (cs_contact c) = mw_conversation_id r)
    \<and> (\<forall>r \<in> set (pending_peer_messages s). \<exists>c \<in> set (chat_summaries s). ct_contact_id (cs_contact c) = pw_conversation_id r)
    \<and> (\<forall>r \<in> set (known_peers s). length (kw_identity_public_key r) = 32
         \<and> kw_peer_id r = contact_id_for_identity K (kw_identity_public_key r) \<and> kw_conversation_id r = kw_peer_id r
         \<and> (\<exists>c \<in> set (chat_summaries s). ct_contact_id (cs_contact c) = kw_conversation_id r))
    \<and> (\<forall>c \<in> set (chat_summaries s). length (ct_identity_public_key (cs_contact c)) = 32 \<longrightarrow>
         ct_contact_id (cs_contact c) = contact_id_for_identity K (ct_identity_public_key (cs_contact c)))
    \<and> (length key = 32 \<longrightarrow> (\<exists>t. save_contact_for_chat K (\<lambda>_. False) now (contact_id_for_identity K key) name key hint s = (t, Inr ())))"
proof -
  have filed: "filed K s" by (rule filed_client.client_run_steps [OF assms filed_init])
  have listed: "\<exists>c \<in> set (chat_summaries s). ct_contact_id (cs_contact c) = cid" if "cid \<in> contact_ids s" for cid
    using that unfolding listed_contacts by auto
  have "mw_conversation_id r \<in> contact_ids s" if "r \<in> set (messages s)" for r
    using filed that by (auto simp: filed_def)
  then have stored: "\<forall>r \<in> set (messages s). \<exists>c \<in> set (chat_summaries s). ct_contact_id (cs_contact c) = mw_conversation_id r"
    using listed by blast
  have "pw_conversation_id r \<in> contact_ids s" if "r \<in> set (pending_peer_messages s)" for r
    using filed that by (auto simp: filed_def)
  then have queued: "\<forall>r \<in> set (pending_peer_messages s). \<exists>c \<in> set (chat_summaries s). ct_contact_id (cs_contact c) = pw_conversation_id r"
    using listed by blast
  have "kw_conversation_id r \<in> contact_ids s" if "r \<in> set (known_peers s)" for r
    using filed that by (auto simp: filed_def)
  then have peers: "\<forall>r \<in> set (known_peers s). length (kw_identity_public_key r) = 32
         \<and> kw_peer_id r = contact_id_for_identity K (kw_identity_public_key r) \<and> kw_conversation_id r = kw_peer_id r
         \<and> (\<exists>c \<in> set (chat_summaries s). ct_contact_id (cs_contact c) = kw_conversation_id r)"
    using filed listed by (simp add: filed_def keyed_def)
  have contacts: "\<forall>c \<in> set (chat_summaries s). length (ct_identity_public_key (cs_contact c)) = 32 \<longrightarrow>
         ct_contact_id (cs_contact c) = contact_id_for_identity K (ct_identity_public_key (cs_contact c))"
    using filed by (auto simp: filed_def keyed_def chat_summaries_def contacts_def chat_summary_of_def contact_from_row_def)
  have "\<exists>t. save_contact_for_chat K (\<lambda>_. False) now (contact_id_for_identity K key) name key hint s = (t, Inr ())"
    using save_contact_ok [of "\<lambda>_. False" s key "contact_id_for_identity K key"] filed_peers [OF filed] by blast
  with stored queued peers contacts show ?thesis by blast
qed

definition toy_script :: session_script where
  "toy_script = \<lparr>ss_service_addr = None, ss_name_line = [], ss_now = 1, ss_fresh_alice = toy_ann, ss_fresh_bob = toy_bob,
     ss_fresh_key = [], ss_random = None, ss_lan = None, ss_events = [], ss_ack_events = [], ss_chat_start = 1, ss_chat = []\<rparr>"

definition toy_typed :: "string \<Rightarrow> typed" where
  "toy_typed line = \<lparr>ty_line = line, ty_now = 7, ty_random = [1], ty_fails = (\<lambda>_. False), ty_session = toy_script\<rparr>"

lemma prompt_plain: "\<forall>c \<in> set line. plain_char c \<Longrightarrow> prompt_line (toy_typed line) = line"
  using drop_plain [of "rev line"]
  by (simp add: prompt_line_def trim_end_def toy_typed_def plain_chars concat_map_singleton flip: rev_map)

definition toy_platform :: platform where
  "toy_platform = \<lparr>pf_addr_text = toy_addr_text, pf_parse_peer = (\<lambda>_. None), pf_key = Some\<rparr>"

definition toy_renaming :: "typed list" where
  "toy_renaming = [toy_typed ''4'', toy_typed ''1'', toy_typed ''Ada'']"

lemma toy_renaming_lines:
  "trim (prompt_line (toy_typed ''4'')) = ''4''" "trim (prompt_line (toy_typed ''1'')) = ''1''"
  "prompt_line (toy_typed ''Ada'') = ''Ada''" "\<not> is_back_selection ''Ada''"
  by (simp_all add: prompt_plain trim_plain plain_char_def is_back_selection_def eq_ignore_ascii_case_def nocase_def to_ascii_lowercase_def)

lemma toy_now [simp]: "ty_now (toy_typed line) = 7"
  by (simp add: toy_typed_def)

lemma toy_renamed:
  "fst (run_product_menu K C F toy_renaming s) = fst (update_local_display_name ''Ada'' 7 s)"
  by (subst run_product_menu.simps)
    (simp add: toy_renaming_def run_main_menu_screen.simps(2) run_profile_menu.simps(2) toy_renaming_lines
      menu_bind_def after_def Let_def)

lemma toy_received:
  "\<exists>encrypted. messages (fst (run_bob_quic_once toy_crypto toy_chat_codec (\<lambda>_. False) 6 ''Bob'' (toy_bob_link encrypted) toy_bob init_db)) \<noteq> []"
proof -
  obtain pb where pb: "bob_prekey_bundle toy_crypto toy_bob = Inr pb" using toy_bob_bundle by blast
  obtain a1 res where enc: "encrypt_initial_message toy_crypto [7] pb ''hi'' toy_ann = (a1, res)"
    by (cases "encrypt_initial_message toy_crypto [7] pb ''hi'' toy_ann")
  from initial_message_steps [OF toy_crypto_ok toy_sig_correct toy_bob_wf(1) pb is_str_hi enc]
  obtain m b1 where m: "decrypt_initial_message toy_crypto m toy_bob = (b1, Inr ''hi'')" by blast
  let ?sent = "\<lparr>cim_sender_display_name = ''Ann'', cim_sender_identity_public_key = Some toy_identity, cim_message = m\<rparr>"
  let ?initial = "?sent\<lparr>cim_sender_display_name := display_name_or_anonymous ''Ann''\<rparr>"
  obtain t1 where t1: "save_contact_for_chat toy_crypto (\<lambda>_. False) 6 (initial_conversation_id toy_crypto ?initial)
      (cim_sender_display_name ?initial) (initial_identity ?initial) ''direct QUIC'' init_db = (t1, Inr ())"
    using save_contact_fresh [of "\<lambda>_. False" init_db] init_tables(1) by blast
  have "\<not> message_exists mid t1" for mid
    using contact_keeps_ids [OF t1, of mid] by (simp add: message_exists_iff init_db_def)
  then have "messages (persist_chat_message toy_crypto 6 entry t1) \<noteq> []" for entry
    by (auto simp: persist_chat_message_def Let_def inserted_message split: message_direction.split)
  then have "messages (fst (run_bob_quic_once toy_crypto toy_chat_codec (\<lambda>_. False) 6 ''Bob'' (toy_bob_link (enc_countable ?sent)) toy_bob init_db)) \<noteq> []"
    using pb m t1 by (simp add: run_bob_quic_once_def toy_bob_link_def Let_def quic_chat_def)
  then show ?thesis by blast
qed

theorem client_files_messages_witness:
  "\<exists>s r c. (client_step toy_crypto toy_chat_codec)\<^sup>*\<^sup>* init_db s \<and> r \<in> set (messages s) \<and> c \<in> set (chat_summaries s)
     \<and> ct_contact_id (cs_contact c) = mw_conversation_id r"
proof -
  obtain encrypted where e: "messages (fst (run_bob_quic_once toy_crypto toy_chat_codec (\<lambda>_. False) 6 ''Bob''
      (toy_bob_link encrypted) toy_bob init_db)) \<noteq> []" (is "messages ?s \<noteq> []")
    using toy_received by blast
  have used: "(client_step toy_crypto toy_chat_codec)\<^sup>*\<^sup>* init_db ?s"
    by (rule r_into_rtranclp) (rule client_bob_once)
  obtain r where "r \<in> set (messages ?s)" using e by (cases "messages ?s") auto
  with used client_files_messages [OF used] show ?thesis by blast
qed

end
