(* ===== verification/MenuProps.thy ===== *)
theory MenuProps
  imports ClientSteps "HOL-Library.Sublist"
begin

text \<open>
  What the menus promise: how a run goes on when more lines are typed, the way out of every menu, the
  end of the input, the pages of the chat list, the numbers shown in it, and what browsing leaves alone.
\<close>

section \<open>More lines\<close>

text \<open>
  \<open>extends Q ks r r'\<close>: with the lines \<open>ks\<close> added, a menu that had returned or failed does the same, and
  leaves the added lines; one that was waiting ends as \<open>Q\<close> says.
\<close>

definition extends :: "('a menu_end \<Rightarrow> bool) \<Rightarrow> typed list \<Rightarrow> 'a menu_result \<Rightarrow> 'a menu_result \<Rightarrow> bool" where
  "extends Q ks r r' \<longleftrightarrow> (case r of
     (s, vs, Returned x rest) \<Rightarrow> r' = (s, vs, Returned x (rest @ ks))
   | (s, vs, MenuFailed err) \<Rightarrow> r' = r
   | (s, vs, Waiting) \<Rightarrow> Q (snd (snd r')))"

lemma ending_after [simp]: "snd (snd (after vs r)) = snd (snd r)"
  by (simp add: after_def split: prod.splits)

lemma extends_after [simp]: "extends Q ks (after vs r) (after vs r') \<longleftrightarrow> extends Q ks r r'"
  by (auto simp: extends_def after_def split: prod.splits menu_end.splits)

lemma extends_ends [simp]:
  "extends Q ks (s, vs, Returned x rest) r' \<longleftrightarrow> r' = (s, vs, Returned x (rest @ ks))"
  "extends Q ks (s, vs, MenuFailed err) r' \<longleftrightarrow> r' = (s, vs, MenuFailed err)"
  "extends Q ks (s, vs, Waiting) r' \<longleftrightarrow> Q (snd (snd r'))"
  by (simp_all add: extends_def)

lemma extends_bind:
  assumes "extends P ks r r'"
    and "\<And>t vs x rest. r = (t, vs, Returned x rest) \<Longrightarrow> extends Q ks (f x rest t) (f x (rest @ ks) t)"
    and "P (snd (snd r')) \<Longrightarrow> Q (snd (snd (menu_bind r' f)))"
  shows "extends Q ks (menu_bind r f) (menu_bind r' f)"
proof -
  obtain s vs e where r: "r = (s, vs, e)" by (cases r)
  show ?thesis
  proof (cases e)
    case (Returned x rest)
    then show ?thesis using assms(1) assms(2) [of s vs x rest] r by (simp add: menu_bind_def)
  qed (use assms r in \<open>auto simp: menu_bind_def\<close>)
qed

lemma waiting_bind: "snd (snd r) = Waiting \<Longrightarrow> snd (snd (menu_bind r f)) = Waiting"
  by (auto simp: menu_bind_def split: prod.splits)

lemma saved_extends:
  assumes "ks \<noteq> []" "trim (prompt_line (hd ks)) \<noteq> ''DELETE''"
    and now: "\<And>peer s. Q (snd (snd (saved_conversation_loop K cid name peer ks s)))"
    and next_line: "\<And>peer s. Q (snd (snd (saved_conversation_loop K cid name peer (tl ks) s)))"
  shows "extends Q ks (saved_conversation_loop K cid name peer kb s) (saved_conversation_loop K cid name peer (kb @ ks) s)"
proof (induction kb arbitrary: peer s rule: measure_induct_rule [where f = length])
  case (less kb)
  show ?case
  proof (cases kb)
    case (Cons k kb1)
    have IH: "extends Q ks (saved_conversation_loop K cid name peer' kb' t) (saved_conversation_loop K cid name peer' (kb' @ ks) t)"
      if "length kb' \<le> length kb1" for peer' kb' t
      using less.IH that Cons by simp
    obtain k1 ks1 where ks: "ks = k1 # ks1" using assms(1) by (cases ks) simp
    show ?thesis unfolding Cons append_Cons saved_conversation_loop.simps(2) Let_def
      using assms(2) IH [of kb1, unfolded ks]
      using IH [of kb1, unfolded ks]
      by (cases kb1) (simp_all add: ks IH [unfolded ks] now [unfolded ks] next_line [unfolded ks list.sel] split: sum.split option.split prod.split)
  qed (simp add: now)
qed

lemma all_chats_extends:
  assumes nested: "\<And>K cid name peer kb s. extends P ks (saved_conversation_loop K cid name peer kb s)
                   (saved_conversation_loop K cid name peer (kb @ ks) s)"
    and up: "\<And>K page r. P (snd (snd r)) \<Longrightarrow> Q (snd (snd (menu_bind r (\<lambda>_ rest s1. all_chats_loop K page rest s1))))"
    and now: "\<And>K page s. Q (snd (snd (all_chats_loop K page ks s)))"
  shows "extends Q ks (all_chats_loop K page kb s) (all_chats_loop K page (kb @ ks) s)"
proof (induction K page kb s rule: all_chats_loop.induct)
  case (2 K page k kb s)
  then show ?case
    by (simp add: all_chats_loop.simps(2) Let_def open_chat_def open_saved_conversation_def nested extends_bind [OF nested] up
        split: option.split)
qed (simp add: now)

lemma chat_history_extends:
  assumes nested: "\<And>K cid name peer kb s. extends P ks (saved_conversation_loop K cid name peer kb s)
                   (saved_conversation_loop K cid name peer (kb @ ks) s)"
    and pages: "\<And>K page kb s. extends P' ks (all_chats_loop K page kb s) (all_chats_loop K page (kb @ ks) s)"
    and up: "\<And>K r. P (snd (snd r)) \<or> P' (snd (snd r)) \<Longrightarrow> Q (snd (snd (menu_bind r (\<lambda>_ rest s1. chat_history_loop K rest s1))))"
    and now: "\<And>K s. Q (snd (snd (chat_history_loop K ks s)))"
  shows "extends Q ks (chat_history_loop K kb s) (chat_history_loop K (kb @ ks) s)"
proof (induction K kb s rule: chat_history_loop.induct)
  case (2 K k kb s)
  then show ?case
    by (simp add: chat_history_loop.simps(2) run_all_chat_history_menu_def Let_def open_chat_def open_saved_conversation_def
        nested extends_bind [OF nested] extends_bind [OF pages] up split: option.split)
qed (simp add: now)

lemma profile_extends:
  assumes "ks \<noteq> []" and now: "\<And>s. Q (snd (snd (run_profile_menu ks s)))" and next_line: "\<And>s. Q (snd (snd (run_profile_menu (tl ks) s)))"
  shows "extends Q ks (run_profile_menu kb s) (run_profile_menu (kb @ ks) s)"
proof (induction kb arbitrary: s rule: measure_induct_rule [where f = length])
  case (less kb)
  show ?case
  proof (cases kb)
    case (Cons k kb1)
    have IH: "extends Q ks (run_profile_menu kb' t) (run_profile_menu (kb' @ ks) t)" if "length kb' \<le> length kb1" for kb' t
      using less.IH that Cons by simp
    obtain k1 ks1 where ks: "ks = k1 # ks1" using assms(1) by (cases ks) simp
    show ?thesis unfolding Cons append_Cons run_profile_menu.simps(2) Let_def
      using IH [of kb1, unfolded ks]
      by (cases kb1) (simp_all add: ks IH [unfolded ks] now [unfolded ks] next_line [unfolded ks list.sel])
  qed (simp add: now)
qed

text \<open>A pairing session that a line may start ends by itself.\<close>

definition session_ends :: "crypto \<Rightarrow> chat_codec \<Rightarrow> platform \<Rightarrow> typed \<Rightarrow> bool" where
  "session_ends K C F k \<longleftrightarrow> (\<forall>s. snd (run_create_invite K C F (ty_session k) s) \<noteq> SessionOpen)
     \<and> (\<forall>code s. snd (run_join_invite K C F (ty_session k) code s) \<noteq> SessionOpen)"

lemma create_menu_extends:
  assumes now: "\<And>s. Q (snd (snd (run_create_invite_menu K C F ks s)))"
    and "Q Waiting \<or> (\<forall>k \<in> set kb. session_ends K C F k)"
  shows "extends Q ks (run_create_invite_menu K C F kb s) (run_create_invite_menu K C F (kb @ ks) s)"
  using assms(2)
proof (induction kb arbitrary: s)
  case (Cons k kb)
  obtain t e where "run_create_invite K C F (ty_session k) s = (t, e)" by (cases "run_create_invite K C F (ty_session k) s")
  then show ?case using Cons
    by (auto simp: run_create_invite_menu.simps(2) session_ends_def split: session_end.split dest: spec [of _ s])
qed (simp add: now)

lemma join_menu_extends:
  assumes "ks \<noteq> []" and now: "\<And>s. Q (snd (snd (run_join_invite_menu K C F ks s)))"
    and next_line: "\<And>s. Q (snd (snd (run_join_invite_menu K C F (tl ks) s)))"
    and prompt: "\<not> is_back_selection (prompt_line (hd ks))" "normalize_invite_code (trim (prompt_line (hd ks))) = Inl err"
    and "Q Waiting \<or> (\<forall>k \<in> set kb. session_ends K C F k)"
  shows "extends Q ks (run_join_invite_menu K C F kb s) (run_join_invite_menu K C F (kb @ ks) s)"
  using assms(6)
proof (induction kb arbitrary: s rule: measure_induct_rule [where f = length])
  case (less kb)
  show ?case
  proof (cases kb)
    case (Cons k kb1)
    have IH: "extends Q ks (run_join_invite_menu K C F kb' t) (run_join_invite_menu K C F (kb' @ ks) t)"
      if "length kb' \<le> length kb1" "set kb' \<subseteq> set kb1" for kb' t
      using less that Cons by (intro less.IH) auto
    obtain k1 ks1 where ks: "ks = k1 # ks1" using assms(1) by (cases ks) simp
    show ?thesis
    proof (cases kb1)
      case Nil
      then show ?thesis unfolding Cons append_Cons run_join_invite_menu.simps(2)
        using next_line now ks prompt by (simp add: run_join_invite_def)
    next
      case (Cons k2 kb2)
      obtain t e where joined: "run_join_invite K C F (ty_session k2) (trim (prompt_line k2)) s = (t, e)"
        by (cases "run_join_invite K C F (ty_session k2) (trim (prompt_line k2)) s")
      have "e = SessionOpen \<Longrightarrow> Q Waiting"
        using less.prems joined \<open>kb = k # kb1\<close> Cons by (auto simp: session_ends_def) (metis snd_conv)
      then show ?thesis unfolding \<open>kb = k # kb1\<close> append_Cons run_join_invite_menu.simps(2)
        using Cons joined IH [of "k2 # kb2"] IH [of kb2] by (auto split: session_end.split)
    qed
  qed (simp add: now)
qed

lemma extends_mono: "extends P ks r r' \<Longrightarrow> (\<And>e. P e \<Longrightarrow> Q e) \<Longrightarrow> extends Q ks r r'"
  by (auto simp: extends_def split: prod.splits menu_end.splits)

lemma main_screen_extends:
  assumes lists: "\<And>kb s. extends R ks (chat_history_loop K kb s) (chat_history_loop K (kb @ ks) s)"
      "\<And>kb s. extends R ks (run_profile_menu kb s) (run_profile_menu (kb @ ks) s)"
    and invites: "extends R ks (run_create_invite_menu K C F (tl kb) s) (run_create_invite_menu K C F (tl kb @ ks) s)"
      "extends R ks (run_join_invite_menu K C F (tl kb) s) (run_join_invite_menu K C F (tl kb @ ks) s)"
    and up: "\<And>r. R (snd (snd r)) \<Longrightarrow> Q (snd (snd (menu_bind r (\<lambda>_ rest t. (t, [], Returned Stay rest)))))"
    and now: "Q (snd (snd (run_main_menu_screen K C F ks s)))"
  shows "extends Q ks (run_main_menu_screen K C F kb s) (run_main_menu_screen K C F (kb @ ks) s)"
proof (cases kb)
  case (Cons k kb1)
  have stay: "extends Q ks (menu_bind r (\<lambda>_ rest t. (t, [], Returned Stay rest))) (menu_bind r' (\<lambda>_ rest t. (t, [], Returned Stay rest)))"
    if "extends R ks r r'" for r r'
    by (rule extends_bind [OF that]) (simp_all add: up)
  show ?thesis
    using invites unfolding Cons append_Cons run_main_menu_screen.simps(2) Let_def run_chat_history_menu_def
    by (simp add: lists stay)
qed (simp add: now)

lemma saved_subset: "saved_conversation_loop K cid name peer kb s = (s', vs, Returned x ks) \<Longrightarrow> set ks \<subseteq> set kb"
proof (induction K cid name peer kb s arbitrary: vs rule: saved_conversation_loop.induct)
  case (2 K cid name peer k kb s)
  then show ?case
    by (fastforce simp: saved_conversation_loop.simps(2) Let_def split: if_splits prod.splits sum.splits option.splits list.splits)
qed simp

lemma open_chat_subset: "open_chat K c kb s = (s', vs, Returned x ks) \<Longrightarrow> set ks \<subseteq> set kb"
  unfolding open_chat_def open_saved_conversation_def by (rule saved_subset)

lemma all_chats_subset: "all_chats_loop K page kb s = (s', vs, Returned x ks) \<Longrightarrow> set ks \<subseteq> set kb"
proof (induction K page kb s arbitrary: vs rule: all_chats_loop.induct)
  case (2 K page k kb s)
  then show ?case
    by (fastforce simp: all_chats_loop.simps(2) Let_def menu_bind_Returned dest: open_chat_subset split: if_splits option.splits)
qed simp

lemma chat_history_subset: "chat_history_loop K kb s = (s', vs, Returned x ks) \<Longrightarrow> set ks \<subseteq> set kb"
proof (induction K kb s arbitrary: vs rule: chat_history_loop.induct)
  case (2 K k kb s)
  then show ?case
    by (fastforce simp: chat_history_loop.simps(2) run_all_chat_history_menu_def Let_def menu_bind_Returned
        dest: open_chat_subset all_chats_subset split: if_splits option.splits)
qed simp

lemma profile_subset: "run_profile_menu kb s = (s', vs, Returned x ks) \<Longrightarrow> set ks \<subseteq> set kb"
proof (induction kb s arbitrary: vs rule: run_profile_menu.induct)
  case (2 k kb s)
  then show ?case by (fastforce simp: run_profile_menu.simps(2) Let_def split: if_splits list.splits)
qed simp

lemma create_subset: "run_create_invite_menu K C F kb s = (s', vs, Returned x ks) \<Longrightarrow> set ks \<subseteq> set kb"
proof (induction K C F kb s arbitrary: vs rule: run_create_invite_menu.induct)
  case (2 K C F k kb s)
  then show ?case
    by (fastforce simp: run_create_invite_menu.simps(2) split: if_splits prod.splits session_end.splits)
qed simp

lemma join_subset: "run_join_invite_menu K C F kb s = (s', vs, Returned x ks) \<Longrightarrow> set ks \<subseteq> set kb"
proof (induction K C F kb s arbitrary: vs rule: run_join_invite_menu.induct)
  case (2 K C F k kb s)
  then show ?case
    by (fastforce simp: run_join_invite_menu.simps(2) split: if_splits prod.splits session_end.splits list.splits)
qed simp

lemma main_screen_subset: "run_main_menu_screen K C F kb s = (s', vs, Returned x ks) \<Longrightarrow> set ks \<subseteq> set kb"
  by (cases kb)
     (fastforce simp: run_main_menu_screen.simps(2) Let_def menu_bind_Returned run_chat_history_menu_def
       dest: create_subset join_subset profile_subset chat_history_subset split: if_splits)+

abbreviation product_after :: "crypto \<Rightarrow> chat_codec \<Rightarrow> platform \<Rightarrow> screen_action \<Rightarrow> typed list \<Rightarrow> db \<Rightarrow> unit menu_result" where
  "product_after K C F action rest s \<equiv> (case action of Quit \<Rightarrow> (s, [], Returned () rest) | _ \<Rightarrow> run_product_menu K C F rest s)"

lemma product_extends:
  assumes screen: "\<And>kb s. (\<forall>k \<in> set kb. S k) \<Longrightarrow>
      extends R ks (run_main_menu_screen K C F kb s) (run_main_menu_screen K C F (kb @ ks) s)"
    and up: "\<And>r. R (snd (snd r)) \<Longrightarrow> Q (snd (snd (menu_bind r (product_after K C F))))"
    and "\<forall>k \<in> set kb. S k"
  shows "extends Q ks (run_product_menu K C F kb s) (run_product_menu K C F (kb @ ks) s)"
  using assms(3)
proof (induction kb arbitrary: s rule: measure_induct_rule [where f = length])
  case (less kb)
  show ?case
    unfolding run_product_menu.simps [of K C F kb] run_product_menu.simps [of K C F "kb @ ks"]
  proof (rule extends_bind [OF screen [OF less.prems]])
    fix t vs x rest
    assume r: "run_main_menu_screen K C F kb s = (t, vs, Returned x rest)"
    have "extends Q ks (run_product_menu K C F rest t) (run_product_menu K C F (rest @ ks) t)"
      using main_screen_rest [OF r] main_screen_subset [OF r] less.prems by (intro less.IH) auto
    then show "extends Q ks (product_after K C F x rest t) (product_after K C F x (rest @ ks) t)"
      by (cases x) simp_all
  qed (rule up)
qed

section \<open>The end of the input\<close>

lemma blank_line [simp]:
  "\<not> is_chat_back_command []" "\<not> is_back_selection []" "\<not> is_quit_selection []" "trim [] = []"
  "\<not> eq_ignore_ascii_case [] (c # cs)" "selected_chat n [] chats = None"
  "normalize_invite_code [] = Inl (AppMessage ''invite code must be 6 characters'')"
proof -
  show trim: "trim [] = []" by (simp add: trim_plain)
  show "\<not> is_chat_back_command []" "\<not> is_back_selection []" "\<not> is_quit_selection []"
    by (simp_all add: is_chat_back_command_def is_back_selection_def is_quit_selection_def trim eq_ignore_ascii_case_def nocase_def)
  show "selected_chat n [] chats = None" by (simp add: selected_chat_def parse_usize_def trim)
  show "normalize_invite_code [] = Inl (AppMessage ''invite code must be 6 characters'')"
    by (simp add: normalize_invite_code_def INVITE_CODE_LEN_def)
qed (simp add: eq_ignore_ascii_case_def nocase_def)

abbreviation all_blank :: "typed list \<Rightarrow> bool" where
  "all_blank ks \<equiv> \<forall>k \<in> set ks. prompt_line k = []"

lemma saved_idle: "all_blank ks \<Longrightarrow> snd (snd (saved_conversation_loop K cid name peer ks s)) = Waiting"
  by (induction ks arbitrary: s) (simp_all add: saved_conversation_loop.simps(2) Let_def)

lemma all_chats_idle: "all_blank ks \<Longrightarrow> snd (snd (all_chats_loop K page ks s)) = Waiting"
  by (induction ks arbitrary: page s) (simp_all add: all_chats_loop.simps(2) Let_def)

lemma chat_history_idle: "all_blank ks \<Longrightarrow> snd (snd (chat_history_loop K ks s)) = Waiting"
  by (induction ks arbitrary: s) (simp_all add: chat_history_loop.simps(2) Let_def)

lemma profile_idle: "all_blank ks \<Longrightarrow> snd (snd (run_profile_menu ks s)) = Waiting"
  by (induction ks arbitrary: s) (simp_all add: run_profile_menu.simps(2) Let_def)

lemma invite_menus_idle:
  assumes "all_blank ks"
  shows "snd (snd (run_create_invite_menu K C F ks s)) = Waiting" "snd (snd (run_join_invite_menu K C F ks s)) = Waiting"
  using assms by (induction ks arbitrary: s) (simp_all add: run_create_invite_menu.simps(2) run_join_invite_menu.simps(2))

lemma product_idle: "all_blank ks \<Longrightarrow> snd (snd (run_product_menu K C F ks s)) = Waiting"
proof (induction ks arbitrary: s)
  case Nil
  then show ?case by (subst run_product_menu.simps) (simp add: waiting_bind)
next
  case (Cons k ks)
  then show ?case by (subst run_product_menu.simps) (simp add: run_main_menu_screen.simps(2) menu_bind_def)
qed

lemma blank_extends:
  assumes "ks \<noteq> []" "all_blank ks"
  shows "extends (\<lambda>e. e = Waiting) ks (saved_conversation_loop K cid name peer kb s) (saved_conversation_loop K cid name peer (kb @ ks) s)"
    "extends (\<lambda>e. e = Waiting) ks (all_chats_loop K page kb s) (all_chats_loop K page (kb @ ks) s)"
    "extends (\<lambda>e. e = Waiting) ks (chat_history_loop K kb s) (chat_history_loop K (kb @ ks) s)"
    "extends (\<lambda>e. e = Waiting) ks (run_profile_menu kb s) (run_profile_menu (kb @ ks) s)"
    "extends (\<lambda>e. e = Waiting) ks (run_create_invite_menu K C F kb s) (run_create_invite_menu K C F (kb @ ks) s)"
    "extends (\<lambda>e. e = Waiting) ks (run_join_invite_menu K C F kb s) (run_join_invite_menu K C F (kb @ ks) s)"
proof -
  have rest: "all_blank (tl ks)" using assms by (cases ks) simp_all
  show saved: "extends (\<lambda>e. e = Waiting) ks (saved_conversation_loop K cid name peer kb s)
      (saved_conversation_loop K cid name peer (kb @ ks) s)" for K cid name peer kb s
    using assms by (intro saved_extends) (simp_all add: saved_idle rest)
  show pages: "extends (\<lambda>e. e = Waiting) ks (all_chats_loop K page kb s) (all_chats_loop K page (kb @ ks) s)" for K page kb s
    by (rule all_chats_extends [OF saved]) (simp_all add: waiting_bind all_chats_idle assms)
  show "extends (\<lambda>e. e = Waiting) ks (chat_history_loop K kb s) (chat_history_loop K (kb @ ks) s)"
    by (rule chat_history_extends [OF saved pages]) (auto intro: waiting_bind simp: chat_history_idle assms)
  show "extends (\<lambda>e. e = Waiting) ks (run_profile_menu kb s) (run_profile_menu (kb @ ks) s)"
    using assms by (intro profile_extends) (simp_all add: profile_idle rest)
  show "extends (\<lambda>e. e = Waiting) ks (run_create_invite_menu K C F kb s) (run_create_invite_menu K C F (kb @ ks) s)"
    by (rule create_menu_extends) (simp_all add: invite_menus_idle assms)
  show "extends (\<lambda>e. e = Waiting) ks (run_join_invite_menu K C F kb s) (run_join_invite_menu K C F (kb @ ks) s)"
    using assms by (intro join_menu_extends) (simp_all add: invite_menus_idle rest)
qed

text \<open>
  The menus do not see the end of the input: a menu that waits for a line goes on waiting
  however many empty lines \<^verbatim>\<open>read_line\<close> delivers once the terminal is closed, so the client never ends.
\<close>

theorem end_of_input_never_ends:
  assumes "\<forall>k \<in> set ks. prompt_line k = ''''" and "snd (snd (run_product_menu K C F kb s)) = Waiting"
  shows "snd (snd (run_product_menu K C F (kb @ ks) s)) = Waiting"
proof (cases "ks = []")
  case False
  have screen: "extends (\<lambda>e. e = Waiting \<or> (\<exists>x rest. e = Returned x rest \<and> x \<noteq> Quit \<and> all_blank rest)) ks
      (run_main_menu_screen K C F kb' t) (run_main_menu_screen K C F (kb' @ ks) t)" for kb' t
  proof (rule main_screen_extends [where R = "\<lambda>e. e = Waiting"])
    obtain k ks1 where "ks = k # ks1" using False by (cases ks) simp
    then show "snd (snd (run_main_menu_screen K C F ks t)) = Waiting
        \<or> (\<exists>x rest. snd (snd (run_main_menu_screen K C F ks t)) = Returned x rest \<and> x \<noteq> Quit \<and> all_blank rest)"
      using assms(1) by (simp add: run_main_menu_screen.simps(2))
  qed (use blank_extends [OF False assms(1)] in \<open>simp_all add: waiting_bind\<close>)
  have "extends (\<lambda>e. e = Waiting) ks (run_product_menu K C F kb s) (run_product_menu K C F (kb @ ks) s)"
  proof (rule product_extends [where S = "\<lambda>_. True", OF screen])
    fix r :: "screen_action menu_result"
    assume "snd (snd r) = Waiting \<or> (\<exists>x rest. snd (snd r) = Returned x rest \<and> x \<noteq> Quit \<and> all_blank rest)"
    then show "snd (snd (menu_bind r (product_after K C F))) = Waiting"
      by (cases r) (auto simp: menu_bind_def product_idle split: screen_action.split)
  qed simp
  then show ?thesis using assms(2) by (simp add: extends_def split: prod.splits)
qed (use assms in simp)

lemma toy_renaming_waits: "snd (snd (run_product_menu K C F toy_renaming s)) = Waiting"
  by (subst run_product_menu.simps)
    (simp add: toy_renaming_def run_main_menu_screen.simps(2) run_profile_menu.simps(2) toy_renaming_lines menu_bind_def after_def Let_def)

theorem end_of_input_never_ends_witness:
  "snd (snd (run_product_menu toy_crypto toy_chat_codec toy_platform (toy_renaming @ replicate 1000 (toy_typed [])) init_db)) = Waiting"
proof (rule end_of_input_never_ends)
  have "prompt_line (toy_typed []) = []" by (simp add: prompt_plain)
  then show "\<forall>k \<in> set (replicate 1000 (toy_typed [])). prompt_line k = ''''" by simp
  show "snd (snd (run_product_menu toy_crypto toy_chat_codec toy_platform toy_renaming init_db)) = Waiting"
    by (rule toy_renaming_waits)
qed

section \<open>The way out\<close>

lemma trim_commands [simp]: "trim ''/back'' = ''/back''" "trim ''b'' = ''b''" "trim ''q'' = ''q''"
  by (rule trim_plain, simp add: plain_char_def)+

lemma leave_line [simp]:
  "is_chat_back_command ''/back''" "\<not> is_back_selection ''/back''" "\<not> is_quit_selection ''/back''"
  "is_back_selection ''b''" "\<not> is_quit_selection ''b''" "is_quit_selection ''q''"
  "\<not> eq_ignore_ascii_case ''/back'' ''p''" "\<not> eq_ignore_ascii_case ''/back'' ''n''" "\<not> eq_ignore_ascii_case ''/back'' ''a''"
  by (simp_all add: is_chat_back_command_def is_back_selection_def is_quit_selection_def eq_ignore_ascii_case_def nocase_def
      to_ascii_lowercase_def)

lemma leave_selects_nothing [simp]: "selected_chat n ''/back'' chats = None"
proof -
  have "parse_usize ''/back'' = None" by (simp add: parse_usize_def dec_digit_def)
  then show ?thesis by (simp add: selected_chat_def)
qed

lemma leave_is_no_code [simp]: "normalize_invite_code ''/back'' = Inl (AppMessage ''invite code must be 6 characters'')"
  by (simp add: normalize_invite_code_def plain_chars plain_char_def plain_char_facts INVITE_CODE_LEN_def)

text \<open>From a conversation to the chats, to the first menu, and out.\<close>

definition leaving :: "typed list \<Rightarrow> bool" where
  "leaving ks \<longleftrightarrow> map prompt_line ks = [''/back'', ''/back'', ''b'', ''b'', ''q'']"

lemma leaving_lines: "leaving ks \<longleftrightarrow> (\<exists>k1 k2 k3 k4 k5. ks = [k1, k2, k3, k4, k5] \<and> prompt_line k1 = ''/back'' \<and> prompt_line k2 = ''/back''
    \<and> prompt_line k3 = ''b'' \<and> prompt_line k4 = ''b'' \<and> prompt_line k5 = ''q'')"
  by (auto simp: leaving_def map_eq_Cons_conv)

lemma saved_back: "prompt_line k = ''/back'' \<Longrightarrow> snd (snd (saved_conversation_loop K cid name peer (k # ks) s)) = Returned () ks"
  unfolding saved_conversation_loop.simps(2) Let_def by simp

lemma main_screen_line:
  "prompt_line k = ''/back'' \<Longrightarrow> run_main_menu_screen K C F (k # ks) s = (s, [ShowMain], Returned Stay ks)"
  "prompt_line k = ''b'' \<Longrightarrow> run_main_menu_screen K C F (k # ks) s = (s, [ShowMain], Returned Back ks)"
  "prompt_line k = ''q'' \<Longrightarrow> run_main_menu_screen K C F (k # ks) s = (s, [ShowMain], Returned Quit ks)"
  by (simp_all add: run_main_menu_screen.simps(2))

lemma product_line:
  "prompt_line k = ''/back'' \<Longrightarrow> snd (snd (run_product_menu K C F (k # ks) s)) = snd (snd (run_product_menu K C F ks s))"
  "prompt_line k = ''b'' \<Longrightarrow> snd (snd (run_product_menu K C F (k # ks) s)) = snd (snd (run_product_menu K C F ks s))"
  "prompt_line k = ''q'' \<Longrightarrow> snd (snd (run_product_menu K C F (k # ks) s)) = Returned () ks"
  by (subst run_product_menu.simps, simp only: main_screen_line menu_bind_def prod.case menu_end.case screen_action.case ending_after snd_conv)+

lemma saved_left:
  assumes "leaving ks"
  shows "extends (\<lambda>e. e = Returned () (drop 1 ks) \<or> e = Returned () (drop 2 ks)) ks
    (saved_conversation_loop K cid name peer kb s) (saved_conversation_loop K cid name peer (kb @ ks) s)"
proof -
  obtain k1 k2 k3 k4 k5 where ks: "ks = [k1, k2, k3, k4, k5]" "prompt_line k1 = ''/back''" "prompt_line k2 = ''/back''"
    using assms unfolding leaving_lines by blast
  show ?thesis by (rule saved_extends) (simp_all add: ks saved_back)
qed

lemma all_chats_left:
  assumes "leaving ks"
  shows "extends (\<lambda>e. e = Returned () (drop 3 ks)) ks (all_chats_loop K page kb s) (all_chats_loop K page (kb @ ks) s)"
proof (rule all_chats_extends [OF saved_left [OF assms]])
  fix K page and r :: "unit menu_result"
  assume "snd (snd r) = Returned () (drop 1 ks) \<or> snd (snd r) = Returned () (drop 2 ks)"
  then show "snd (snd (menu_bind r (\<lambda>_ rest s1. all_chats_loop K page rest s1))) = Returned () (drop 3 ks)"
    using assms by (cases r) (auto simp: leaving_lines menu_bind_def all_chats_loop.simps(2) Let_def)
qed (use assms in \<open>auto simp: leaving_lines all_chats_loop.simps(2) Let_def\<close>)

lemma chat_history_left:
  assumes "leaving ks"
  shows "extends (\<lambda>e. e = Returned () (drop 3 ks) \<or> e = Returned () (drop 4 ks)) ks (chat_history_loop K kb s) (chat_history_loop K (kb @ ks) s)"
proof (rule chat_history_extends [OF saved_left [OF assms] all_chats_left [OF assms]])
  fix K and r :: "unit menu_result"
  assume "(snd (snd r) = Returned () (drop 1 ks) \<or> snd (snd r) = Returned () (drop 2 ks)) \<or> snd (snd r) = Returned () (drop 3 ks)"
  then show "snd (snd (menu_bind r (\<lambda>_ rest s1. chat_history_loop K rest s1))) = Returned () (drop 3 ks)
      \<or> snd (snd (menu_bind r (\<lambda>_ rest s1. chat_history_loop K rest s1))) = Returned () (drop 4 ks)"
    using assms by (cases r) (auto simp: leaving_lines menu_bind_def chat_history_loop.simps(2) Let_def)
qed (use assms in \<open>auto simp: leaving_lines chat_history_loop.simps(2) Let_def\<close>)

lemma other_menus_left:
  assumes "leaving ks"
  shows "extends (\<lambda>e. e = Returned () (drop 3 ks)) ks (run_profile_menu kb s) (run_profile_menu (kb @ ks) s)"
    "\<forall>k \<in> set kb. session_ends K C F k \<Longrightarrow>
       extends (\<lambda>e. e = Returned () (drop 3 ks)) ks (run_create_invite_menu K C F kb s) (run_create_invite_menu K C F (kb @ ks) s)"
    "\<forall>k \<in> set kb. session_ends K C F k \<Longrightarrow>
       extends (\<lambda>e. e = Returned () (drop 3 ks)) ks (run_join_invite_menu K C F kb s) (run_join_invite_menu K C F (kb @ ks) s)"
proof -
  show "extends (\<lambda>e. e = Returned () (drop 3 ks)) ks (run_profile_menu kb s) (run_profile_menu (kb @ ks) s)"
    using assms by (intro profile_extends) (auto simp: leaving_lines run_profile_menu.simps(2) Let_def)
  show "extends (\<lambda>e. e = Returned () (drop 3 ks)) ks (run_create_invite_menu K C F kb s) (run_create_invite_menu K C F (kb @ ks) s)"
    if "\<forall>k \<in> set kb. session_ends K C F k"
    using assms that by (intro create_menu_extends) (auto simp: leaving_lines run_create_invite_menu.simps(2))
  show "extends (\<lambda>e. e = Returned () (drop 3 ks)) ks (run_join_invite_menu K C F kb s) (run_join_invite_menu K C F (kb @ ks) s)"
    if "\<forall>k \<in> set kb. session_ends K C F k"
    using assms that by (intro join_menu_extends) (auto simp: leaving_lines run_join_invite_menu.simps(2))
qed

text \<open>
  C33: wherever the user is in the menus, as long as no pairing session is open, the lines
  \<^verbatim>\<open>/back\<close>, \<^verbatim>\<open>/back\<close>, \<^verbatim>\<open>b\<close>, \<^verbatim>\<open>b\<close>, \<^verbatim>\<open>q\<close> end the client.
\<close>

theorem menus_can_be_left:
  assumes "leaving ks" and "\<forall>k \<in> set kb. session_ends K C F k"
    and "snd (snd (run_product_menu K C F kb s)) = Waiting"
  shows "snd (snd (run_product_menu K C F (kb @ ks) s)) = Returned () []"
proof -
  have quit: "snd (snd (run_product_menu K C F (tl ks) t)) = Returned () []"
    "snd (snd (run_product_menu K C F (drop 3 ks) t)) = Returned () []" "snd (snd (run_product_menu K C F (drop 4 ks) t)) = Returned () []" for t
    using assms(1) by (auto simp: leaving_lines product_line)
  let ?R = "\<lambda>e. e = Returned () (drop 3 ks) \<or> e = Returned () (drop 4 ks)"
  let ?Q = "\<lambda>e. e = Returned Stay (tl ks) \<or> e = Returned Stay (drop 3 ks) \<or> e = Returned Stay (drop 4 ks)"
  have screen: "extends ?Q ks (run_main_menu_screen K C F kb' t) (run_main_menu_screen K C F (kb' @ ks) t)"
    if "\<forall>k \<in> set kb'. session_ends K C F k" for kb' t
  proof (rule main_screen_extends [where R = ?R])
    have "\<forall>k \<in> set (tl kb'). session_ends K C F k" using that by (cases kb') simp_all
    then show "extends ?R ks (run_create_invite_menu K C F (tl kb') t) (run_create_invite_menu K C F (tl kb' @ ks) t)"
      "extends ?R ks (run_join_invite_menu K C F (tl kb') t) (run_join_invite_menu K C F (tl kb' @ ks) t)"
      by (rule extends_mono [OF other_menus_left(2) [OF assms(1)]] extends_mono [OF other_menus_left(3) [OF assms(1)]]; simp)+
    show "extends ?R ks (run_profile_menu kb s) (run_profile_menu (kb @ ks) s)" for kb s
      by (rule extends_mono [OF other_menus_left(1) [OF assms(1)]]) simp
    show "?Q (snd (snd (run_main_menu_screen K C F ks t)))"
      using assms(1) by (auto simp: leaving_lines main_screen_line)
    show "?Q (snd (snd (menu_bind r (\<lambda>_ rest t. (t, [], Returned Stay rest)))))" if "?R (snd (snd r))" for r :: "unit menu_result"
      using that by (cases r) (auto simp: menu_bind_def after_def)
  qed (rule chat_history_left [OF assms(1)])
  have "extends (\<lambda>e. e = Returned () []) ks (run_product_menu K C F kb s) (run_product_menu K C F (kb @ ks) s)"
  proof (rule product_extends [where S = "session_ends K C F", OF screen])
    fix r :: "screen_action menu_result"
    assume "?Q (snd (snd r))"
    then show "snd (snd (menu_bind r (product_after K C F))) = Returned () []"
      by (cases r) (auto simp: menu_bind_def quit)
  qed (use assms in simp_all)
  then show ?thesis using assms(3) by (simp add: extends_def split: prod.splits)
qed

definition toy_leaving :: "typed list" where
  "toy_leaving = map toy_typed [''/back'', ''/back'', ''b'', ''b'', ''q'']"

theorem menus_can_be_left_witness:
  "snd (snd (run_product_menu toy_crypto toy_chat_codec toy_platform (toy_renaming @ toy_leaving) init_db)) = Returned () []"
proof (rule menus_can_be_left)
  show "leaving toy_leaving" by (simp add: leaving_def toy_leaving_def prompt_plain plain_char_def)
  show "\<forall>k \<in> set toy_renaming. session_ends toy_crypto toy_chat_codec toy_platform k"
    by (simp add: toy_renaming_def toy_typed_def toy_script_def session_ends_def run_create_invite_def run_join_invite_def
        configured_service_addr_def split: sum.split)
  show "snd (snd (run_product_menu toy_crypto toy_chat_codec toy_platform toy_renaming init_db)) = Waiting"
    by (rule toy_renaming_waits)
qed

section \<open>The pages of the chat list\<close>

lemma concat_slices: "concat (map (\<lambda>p. take k (drop (p * k) xs)) [0..<n]) = take (n * k) xs"
proof (induction n)
  case (Suc n)
  have "take (n * k) xs @ take k (drop (n * k) xs) = take (n * k + k) xs" by (simp add: take_add)
  with Suc show ?case by (simp add: add.commute)
qed simp

lemma page_chats_slice:
  assumes "p * CHAT_HISTORY_PAGE_SIZE < 2 ^ 63"
  shows "page_chats p s = take CHAT_HISTORY_PAGE_SIZE (drop (p * CHAT_HISTORY_PAGE_SIZE) (map chat_summary_from_row (summary_rows s)))"
proof -
  have "unat (of_nat (p * CHAT_HISTORY_PAGE_SIZE) :: u64) = p * CHAT_HISTORY_PAGE_SIZE"
    using assms by (simp add: unat_of_nat del: of_nat_mult)
  moreover have "unat (of_nat CHAT_HISTORY_PAGE_SIZE :: u64) = CHAT_HISTORY_PAGE_SIZE"
    by (simp add: CHAT_HISTORY_PAGE_SIZE_def)
  moreover have "CHAT_HISTORY_PAGE_SIZE < 2 ^ 63" by (simp add: CHAT_HISTORY_PAGE_SIZE_def)
  ultimately show ?thesis using assms by (simp only: page_chats_def chat_summaries_page_rows)
qed

lemma next_line [simp]:
  "\<not> is_back_selection ''n''" "\<not> eq_ignore_ascii_case ''n'' ''p''" "eq_ignore_ascii_case ''n'' ''n''"
proof -
  have "trim ''n'' = ''n''" by (simp add: trim_plain plain_char_def)
  then show "\<not> is_back_selection ''n''"
    by (simp add: is_back_selection_def eq_ignore_ascii_case_def nocase_def to_ascii_lowercase_def)
qed (simp_all add: eq_ignore_ascii_case_def nocase_def to_ascii_lowercase_def)

lemma pages_turned:
  assumes "\<forall>k \<in> set ks. prompt_line k = ''n''" "p + length ks < total_pages s"
  shows "all_chats_loop K p ks s = (s, map (\<lambda>q. page_view q s) [p..<Suc (p + length ks)], Waiting)"
  using assms
proof (induction ks arbitrary: p)
  case Nil
  then show ?case by (simp add: page_within_def)
next
  case (Cons k ks)
  have "all_chats_loop K p (k # ks) s = after [page_view p s] (all_chats_loop K (p + 1) ks s)"
    using Cons.prems by (simp add: all_chats_loop.simps(2) Let_def page_within_def)
  then show ?case using Cons.IH [of "p + 1"] Cons.prems by (simp add: after_def upt_conv_Cons del: upt_Suc)
qed

text \<open>
  C34: whoever turns the pages of the chat list with \<^verbatim>\<open>n\<close> from the first to the last is shown every chat
  exactly once, at most six on a page, under the numbers \<open>1\<close> to \<open>total\<close>.
\<close>

theorem chat_pages_complete:
  assumes "keys_ok s" and "chat_summary_count s < 2 ^ 60"
    and "\<forall>k \<in> set ks. prompt_line k = ''n''" and "length ks + 1 = total_pages s"
  shows "\<exists>pages. run_all_chat_history_menu K ks s = (s, map2 (\<lambda>number. ShowPage number (total_pages s)) [1..<total_pages s + 1] pages, Waiting)
    \<and> length pages = total_pages s \<and> mset (concat pages) = mset (chat_summaries s) \<and> list_all (\<lambda>page. length page \<le> 6) pages"
proof -
  let ?rows = "map chat_summary_from_row (summary_rows s)"
  let ?pages = "map (\<lambda>p. page_chats p s) [0..<total_pages s]"
  have enough: "length ?rows \<le> total_pages s * 6" and few: "total_pages s * 6 < 2 ^ 63"
    using assms(2) summary_count_rows [OF assms(1)] by (auto simp: total_pages_def CHAT_HISTORY_PAGE_SIZE_def)
  have slice: "page_chats p s = take 6 (drop (p * 6) ?rows)" if "p < total_pages s" for p
    using page_chats_slice [of p s] that few by (simp add: CHAT_HISTORY_PAGE_SIZE_def)
  have "concat ?pages = concat (map (\<lambda>p. take 6 (drop (p * 6) ?rows)) [0..<total_pages s])"
    by (intro arg_cong [of _ _ concat] map_cong) (simp_all add: slice)
  also have "\<dots> = ?rows" using enough by (simp only: concat_slices take_all)
  finally have "mset (concat ?pages) = mset (chat_summaries s)" by (simp only: summary_rows_mset [OF assms(1)])
  moreover have "run_all_chat_history_menu K ks s = (s, map (\<lambda>p. page_view p s) [0..<total_pages s], Waiting)"
    using pages_turned [OF assms(3), of 0 s K] assms(4) by (simp add: run_all_chat_history_menu_def del: upt_Suc flip: assms(4))
  moreover have "map (\<lambda>p. page_view p s) [0..<total_pages s] = map2 (\<lambda>number. ShowPage number (total_pages s)) [1..<total_pages s + 1] ?pages"
    by (rule nth_equalityI) (simp_all add: page_view_def del: upt_Suc)
  moreover have "list_all (\<lambda>page. length page \<le> 6) ?pages" by (simp add: list_all_iff slice)
  ultimately show ?thesis by (intro exI [of _ ?pages]) simp
qed

definition toy_contact :: "char \<Rightarrow> contact_record" where
  "toy_contact c = \<lparr>ct_contact_id = [c], ct_display_name = [c], ct_identity_public_key = [],
     ct_discovery_hint = [], ct_saved_at = 1\<rparr>"

definition toy_chats :: db where
  "toy_chats = fold (save_contact \<circ> toy_contact) ''abcdefg'' init_db"

lemma toy_chats_seven: "keys_ok toy_chats" "chat_summary_count toy_chats = 7"
proof -
  have "keys_ok init_db" using init_db_ok by (simp add: db_ok_def)
  then show "keys_ok toy_chats" by (simp add: toy_chats_def keys_ok_simple)
  show "chat_summary_count toy_chats = 7" by code_simp
qed

theorem chat_pages_complete_witness:
  "\<exists>pages. run_all_chat_history_menu toy_crypto [toy_typed ''n''] toy_chats = (toy_chats, map2 (\<lambda>number. ShowPage number 2) [1, 2] pages, Waiting)
    \<and> length pages = 2 \<and> mset (concat pages) = mset (chat_summaries toy_chats) \<and> list_all (\<lambda>page. length page \<le> 6) pages"
proof -
  have pages: "total_pages toy_chats = 2" by (simp add: total_pages_def toy_chats_seven CHAT_HISTORY_PAGE_SIZE_def)
  have line: "\<forall>k \<in> set [toy_typed ''n'']. prompt_line k = ''n''" by (simp add: prompt_plain plain_char_def)
  have "[1..<2 + 1] = [1, 2 :: nat]" by (simp add: eval_nat_numeral)
  with chat_pages_complete [OF toy_chats_seven(1) _ line, of toy_crypto] toy_chats_seven(2) show ?thesis
    by (simp add: pages del: upt_Suc)
qed

section \<open>Numbers typed and numbers shown\<close>

definition decimal :: "char set" where
  "decimal = (\<lambda>d. char_of (48 + d :: nat)) ` {..<10}"

lemma decimal_digit: "d < 10 \<Longrightarrow> dec_digit (char_of (48 + d :: nat)) = Some d"
  by (simp add: dec_digit_def)

lemma decimal_plain:
  assumes "c \<in> decimal"
  shows "plain_char c" "c \<noteq> CHR ''+''" "to_ascii_lowercase c = c" "48 \<le> (of_char c :: nat) \<and> (of_char c :: nat) \<le> 57"
proof -
  obtain d where "d < 10" "c = char_of (48 + d :: nat)" using assms by (auto simp: decimal_def)
  then have code: "(of_char c :: nat) = 48 + d" "d < 10" by simp_all
  then have "(of_char c :: nat) \<noteq> of_char (CHR ''+'')" by simp
  with code show "plain_char c" "c \<noteq> CHR ''+''" "to_ascii_lowercase c = c"
    "48 \<le> (of_char c :: nat) \<and> (of_char c :: nat) \<le> 57"
    by (auto simp: to_ascii_lowercase_def plain_char_def)
qed

lemma show_nat_decimal: "set (show_nat n) \<subseteq> decimal" "show_nat n \<noteq> []"
proof (induction n rule: show_nat.induct)
  case (1 n)
  { case 1 then show ?case using "1.IH" by (subst show_nat.simps) (auto simp: decimal_def) }
  { case 2 then show ?case by (subst show_nat.simps) simp }
qed

lemma dec_digits_append:
  "dec_digits a (xs @ ys) = (case dec_digits a xs of None \<Rightarrow> None | Some b \<Rightarrow> dec_digits b ys)"
  by (induction xs arbitrary: a) (simp_all split: option.split)

lemma dec_digits_show: "n < 2 ^ 64 \<Longrightarrow> dec_digits 0 (show_nat n) = Some n"
proof (induction n rule: show_nat.induct)
  case (1 n)
  show ?case
  proof (cases "n < 10")
    case False
    then have "dec_digits 0 (show_nat (n div 10)) = Some (n div 10)" using 1 by simp
    then show ?thesis
      using False 1(2) by (subst show_nat.simps) (simp add: dec_digits_append decimal_digit)
  qed (use 1 in \<open>simp add: show_nat.simps [of n] decimal_digit\<close>)
qed

lemma parse_shown_number: "n < 2 ^ 64 \<Longrightarrow> parse_usize (show_nat n) = Some n"
proof -
  assume "n < 2 ^ 64"
  moreover obtain c cs where "show_nat n = c # cs" "c \<noteq> CHR ''+''"
    using show_nat_decimal [of n] decimal_plain(2) by (cases "show_nat n") auto
  then have "(case show_nat n of CHR ''+'' # rest \<Rightarrow> rest | _ \<Rightarrow> show_nat n) = show_nat n"
    by (auto split: list.splits char.splits bool.splits)
  ultimately show ?thesis by (simp add: parse_usize_def show_nat_decimal dec_digits_show)
qed

lemma trim_shown_number [simp]: "trim (show_nat n) = show_nat n"
  using show_nat_decimal(1) [of n] decimal_plain(1) by (intro trim_plain) blast

lemma shown_number_no_command:
  assumes "command \<noteq> []" "hd command \<notin> decimal" "nocase command = command"
  shows "\<not> eq_ignore_ascii_case (show_nat n) command"
proof -
  have "nocase (show_nat n) = show_nat n"
    using show_nat_decimal(1) [of n] decimal_plain(3) by (auto simp: nocase_def intro!: map_idI)
  moreover have "hd (show_nat n) \<in> decimal" using show_nat_decimal [of n] hd_in_set by blast
  ultimately show ?thesis using assms(2,3) by (auto simp: eq_ignore_ascii_case_def)
qed

lemma page_chats_length: "length (page_chats p s) \<le> 6"
proof -
  have "as_i64 (of_nat CHAT_HISTORY_PAGE_SIZE) = 6" by (simp add: CHAT_HISTORY_PAGE_SIZE_def as_i64_def)
  then show ?thesis by (simp add: page_chats_def chat_summaries_page_def limit_offset_def)
qed

text \<open>
  C36: a chat is opened by the number the list shows before it: the decimal text of a number is read
  back as that number, no number is taken for a command, and the chat of that place is opened.
\<close>

theorem shown_number_opens_chat:
  assumes "i < length (page_chats (page_within page s) s)" and "prompt_line k = show_nat (i + 1)"
  shows "(\<forall>n < 2 ^ 64. parse_usize (show_nat n) = Some n)
    \<and> all_chats_loop K page (k # ks) s = after [page_view (page_within page s) s]
        (menu_bind (open_chat K (page_chats (page_within page s) s ! i) ks s) (\<lambda>_ rest t. all_chats_loop K (page_within page s) rest t))"
proof (intro conjI allI impI)
  have letters: "CHR ''p'' \<notin> decimal" "CHR ''n'' \<notin> decimal" "CHR ''b'' \<notin> decimal"
    using decimal_plain(4) [of "CHR ''p''"] decimal_plain(4) [of "CHR ''n''"] decimal_plain(4) [of "CHR ''b''"] by auto
  have lower: "nocase ''p'' = ''p''" "nocase ''n'' = ''n''" "nocase ''b'' = ''b''" "nocase ''back'' = ''back''"
    by (simp_all add: nocase_def to_ascii_lowercase_def)
  have "i + 1 < 2 ^ 64" using assms(1) page_chats_length [of "page_within page s" s] by simp
  then have "selected_chat (length (page_chats (page_within page s) s)) (show_nat (i + 1)) (page_chats (page_within page s) s)
      = Some (page_chats (page_within page s) s ! i)"
    using assms(1) parse_shown_number [of "i + 1"] by (simp add: selected_chat_def)
  then show "all_chats_loop K page (k # ks) s = after [page_view (page_within page s) s]
      (menu_bind (open_chat K (page_chats (page_within page s) s ! i) ks s) (\<lambda>_ rest t. all_chats_loop K (page_within page s) rest t))"
    unfolding all_chats_loop.simps(2) Let_def assms(2)
    using letters lower by (simp add: is_back_selection_def shown_number_no_command)
qed (rule parse_shown_number)

theorem shown_number_opens_chat_witness:
  "all_chats_loop toy_crypto 0 [toy_typed ''1''] toy_chats = after [page_view 0 toy_chats]
     (menu_bind (open_chat toy_crypto (page_chats 0 toy_chats ! 0) [] toy_chats) (\<lambda>_ rest t. all_chats_loop toy_crypto 0 rest t))"
proof -
  have "page_within 0 toy_chats = 0" by (simp add: page_within_def)
  moreover have "0 < length (page_chats 0 toy_chats)"
    using page_chats_slice [of 0 toy_chats] toy_chats_seven summary_count_rows [OF toy_chats_seven(1)]
    by (simp add: CHAT_HISTORY_PAGE_SIZE_def)
  moreover have "show_nat 1 = ''1''" by code_simp
  moreover have "prompt_line (toy_typed ''1'') = ''1''" by (simp add: prompt_plain plain_char_def)
  ultimately show ?thesis using shown_number_opens_chat [of 0 0 toy_chats "toy_typed ''1''" toy_crypto "[]"] by simp
qed

section \<open>Browsing loses nothing\<close>

text \<open>Messages and queue only grow at their ends; contacts, peers and sessions stay.\<close>

definition keeps_chats :: "db \<Rightarrow> db \<Rightarrow> bool" where
  "keeps_chats s t \<longleftrightarrow> prefix (messages s) (messages t) \<and> prefix (pending_peer_messages s) (pending_peer_messages t)
     \<and> contacts_tbl t = contacts_tbl s \<and> known_peers t = known_peers s \<and> sessions t = sessions s"

definition harmless :: "typed \<Rightarrow> bool" where
  "harmless k \<longleftrightarrow> \<not> eq_ignore_ascii_case (trim (prompt_line k)) ''/clear'' \<and> trim (prompt_line k) \<noteq> ''DELETE''"

lemma keeps_refl [simp]: "keeps_chats s s"
  by (simp add: keeps_chats_def)

lemma keeps_trans: "keeps_chats s t \<Longrightarrow> keeps_chats t u \<Longrightarrow> keeps_chats s u"
  by (auto simp: keeps_chats_def intro: prefix_order.trans)

lemma keeps_offline: "keeps_chats s (queue_offline_peer_message K random now p line s)"
  by (simp add: keeps_chats_def queue_offline_peer_message_def insert_message_def queue_pending_peer_message_def Let_def insert_or_ignore_def)

lemma keeps_print: "keeps_chats s (print_conversation cid s)"
  by (simp add: keeps_chats_def print_conversation_def mark_new_messages_read_def)

lemma keeps_bind:
  assumes "keeps_chats s (fst r)"
    and "\<And>t vs x ks. r = (t, vs, Returned x ks) \<Longrightarrow> keeps_chats t (fst (f x ks t))"
  shows "keeps_chats s (fst (menu_bind r f))"
  using assms by (auto simp: menu_bind_def split: prod.splits menu_end.splits intro: keeps_trans)

lemma shown [simp]:
  "keeps_chats s (print_conversation cid s)" "keeps_chats s (print_conversation cid (print_conversation cid s))"
  "keeps_chats s (queue_offline_peer_message K random now p line (print_conversation cid s))"
  "keeps_chats s (print_conversation cid (queue_offline_peer_message K random now p line (print_conversation cid s)))"
  by (rule keeps_print keeps_trans [OF keeps_print keeps_print] keeps_trans [OF keeps_print keeps_offline]
      keeps_trans [OF keeps_trans [OF keeps_print keeps_offline] keeps_print])+

lemma harmlessD [simp]:
  "harmless k \<Longrightarrow> \<not> eq_ignore_ascii_case (trim (prompt_line k)) ''/clear''"
  "harmless k \<Longrightarrow> trim (prompt_line k) \<noteq> ''DELETE''"
  by (simp_all add: harmless_def)

lemma saved_keeps: "\<forall>k \<in> set kb. harmless k \<Longrightarrow> keeps_chats s (fst (saved_conversation_loop K cid name peer kb s))"
proof (induction kb arbitrary: peer s rule: measure_induct_rule [where f = length])
  case (less kb)
  show ?case
  proof (cases kb)
    case (Cons k ks)
    have IH: "keeps_chats s (fst (saved_conversation_loop K cid name peer' ks' t))"
      if "length ks' \<le> length ks" "\<forall>k \<in> set ks'. harmless k" "keeps_chats s t" for peer' ks' t
      using less.IH [of ks' t peer'] that Cons by (auto intro: keeps_trans)
    have own: "keeps_chats s t \<Longrightarrow> keeps_chats s (fst (saved_conversation_loop K cid name peer' ks t))" for peer' t
      using IH [of ks] less.prems Cons by simp
    show ?thesis unfolding Cons saved_conversation_loop.simps(2) Let_def
      using less.prems Cons own
      by (cases ks) (simp_all add: IH split: option.split)
  qed (simp add: keeps_print)
qed

lemma open_chat_keeps: "\<forall>k \<in> set kb. harmless k \<Longrightarrow> keeps_chats s (fst (open_chat K c kb s))"
  unfolding open_chat_def open_saved_conversation_def by (rule saved_keeps)

lemma all_chats_keeps: "\<forall>k \<in> set kb. harmless k \<Longrightarrow> keeps_chats s (fst (all_chats_loop K page kb s))"
proof (induction kb arbitrary: page s rule: measure_induct_rule [where f = length])
  case (less kb)
  show ?case
  proof (cases kb)
    case (Cons k ks)
    have IH: "keeps_chats t (fst (all_chats_loop K page' ks' t))" if "length ks' \<le> length ks" "\<forall>k \<in> set ks'. harmless k" for page' ks' t
      using that Cons by (intro less.IH) simp_all
    have "keeps_chats s (fst (menu_bind (open_chat K c ks s) (\<lambda>_ rest t. all_chats_loop K page' rest t)))" for c page'
      using less.prems Cons by (intro keeps_bind) (auto simp: open_chat_keeps intro!: IH dest: open_chat_subset open_chat_rest)
    then show ?thesis unfolding Cons using IH [of ks] less.prems Cons by (simp add: all_chats_loop.simps(2) Let_def IH split: option.split)
  qed simp
qed

lemma chat_history_keeps: "\<forall>k \<in> set kb. harmless k \<Longrightarrow> keeps_chats s (fst (chat_history_loop K kb s))"
proof (induction kb arbitrary: s rule: measure_induct_rule [where f = length])
  case (less kb)
  show ?case
  proof (cases kb)
    case (Cons k ks)
    have IH: "keeps_chats t (fst (chat_history_loop K ks' t))" if "length ks' \<le> length ks" "\<forall>k \<in> set ks'. harmless k" for ks' t
      using that Cons by (intro less.IH) simp_all
    have "keeps_chats s (fst (menu_bind (open_chat K c ks s) (\<lambda>_ rest t. chat_history_loop K rest t)))" for c
      using less.prems Cons
      by (intro keeps_bind) (auto simp: open_chat_keeps intro!: IH dest: open_chat_subset open_chat_rest)
    moreover have "keeps_chats s (fst (menu_bind (run_all_chat_history_menu K ks s) (\<lambda>_ rest t. chat_history_loop K rest t)))"
      using less.prems Cons unfolding run_all_chat_history_menu_def
      by (intro keeps_bind) (auto simp: all_chats_keeps intro!: IH dest: all_chats_subset all_chats_rest)
    ultimately show ?thesis unfolding Cons using IH [of ks] less.prems Cons by (simp add: chat_history_loop.simps(2) Let_def IH split: option.split)
  qed simp
qed

text \<open>
  C35: whatever is typed while browsing the chats, without \<^verbatim>\<open>/clear\<close> and without the confirmation
  \<^verbatim>\<open>DELETE\<close> no message, no queued message, no contact, no peer and no session is lost or changed.
\<close>

theorem browsing_loses_nothing:
  assumes "\<forall>k \<in> set kb. harmless k"
  shows "keeps_chats s (fst (run_chat_history_menu K kb s))"
  unfolding run_chat_history_menu_def by (rule chat_history_keeps [OF assms])

theorem browsing_loses_nothing_witness:
  "keeps_chats toy_chats (fst (run_chat_history_menu toy_crypto
     (map toy_typed [''1'', ''hello'', ''/delete'', ''no'', ''/back'', ''a'', ''n'', ''b'']) toy_chats))"
proof (rule browsing_loses_nothing)
  show "\<forall>k \<in> set (map toy_typed [''1'', ''hello'', ''/delete'', ''no'', ''/back'', ''a'', ''n'', ''b'']). harmless k"
    by (simp add: harmless_def prompt_plain trim_plain plain_char_def eq_ignore_ascii_case_def nocase_def to_ascii_lowercase_def)
qed

end
