(* ===== verification/MailboxNode.thy ===== *)
theory MailboxNode
  imports Delivery
begin

text \<open>
  The two loops around the mailbox (\<^verbatim>\<open>src/src/main.rs\<close>): \<^verbatim>\<open>run_mailbox_node\<close>, which serves requests until it is
  interrupted, and \<^verbatim>\<open>mailbox_request\<close>, which waits for the answer to one request.  They realise what the
  mailbox clients assume of their link, and a deposited envelope waits for its recipient.
\<close>

section \<open>The loops\<close>

datatype node_event = NodeCtrlC | NodeRequest mailbox_request | OtherNodeEvent

text \<open>The result holds the responses in the order of the requests and whether the node was shut down.\<close>

fun run_mailbox_node :: "(u64 \<times> node_event) list \<Rightarrow> mailbox \<Rightarrow> mailbox \<times> mailbox_response list \<times> bool" where
  "run_mailbox_node [] m = (m, [], False)"
| "run_mailbox_node ((now, NodeCtrlC) # evs) m = (m, [], True)"
| "run_mailbox_node ((now, NodeRequest request) # evs) m =
     (case handle_mailbox_request now request m of
        (m1, response) \<Rightarrow> (case run_mailbox_node evs m1 of (m2, responses, down) \<Rightarrow> (m2, response # responses, down)))"
| "run_mailbox_node ((now, OtherNodeEvent) # evs) m = run_mailbox_node evs m"

datatype request_event = RequestTimeout | GotResponse mailbox_response | RequestFailed | OtherRequestEvent

text \<open>\<open>None\<close>: the request is still waiting when the events are over.\<close>

fun mailbox_request_loop :: "request_event list \<Rightarrow> (app_error + mailbox_response) option" where
  "mailbox_request_loop [] = None"
| "mailbox_request_loop (RequestTimeout # evs) = Some (Inl (AppMessage ''mailbox request timed out''))"
| "mailbox_request_loop (GotResponse response # evs) = Some (Inr response)"
| "mailbox_request_loop (RequestFailed # evs) = Some (Inl (AppMessage ''mailbox request failed''))"
| "mailbox_request_loop (OtherRequestEvent # evs) = mailbox_request_loop evs"

text \<open>
  The link of the mailbox clients in \<open>Delivery\<close> is what the two loops do: for each of its cases there are events of
  the node and of the client with that outcome, in which the client hears only what the node has answered.
\<close>

lemma link_is_the_loops:
  assumes "mailbox_request_call l now request m = (m', res)"
  shows "\<exists>served heard responses. run_mailbox_node served m = (m', responses, False) \<and> mailbox_request_loop heard = Some res
    \<and> (\<forall>response. GotResponse response \<in> set heard \<longrightarrow> response \<in> set responses)"
proof (cases l)
  case LinkUp
  then show ?thesis using assms
    by (intro exI [of _ "[(now, NodeRequest request)]"] exI [of _ "[GotResponse (snd (handle_mailbox_request now request m))]"]
        exI [of _ "[snd (handle_mailbox_request now request m)]"]) (auto simp: mailbox_request_call_def split: prod.splits)
next
  case LinkDown
  then show ?thesis using assms
    by (intro exI [of _ "[]"] exI [of _ "[RequestFailed]"]) (auto simp: mailbox_request_call_def)
next
  case LinkAnswerLost
  then show ?thesis using assms
    by (intro exI [of _ "[(now, NodeRequest request)]"] exI [of _ "[RequestFailed]"]
        exI [of _ "[snd (handle_mailbox_request now request m)]"]) (auto simp: mailbox_request_call_def split: prod.splits)
qed

section \<open>A deposited envelope waits\<close>

definition waiting :: "offline_envelope \<Rightarrow> mailbox \<Rightarrow> bool" where
  "waiting envelope m \<longleftrightarrow> (\<exists>row \<in> set (mb_rows m). mbx_message_id row = oe_message_id envelope
     \<and> mbx_recipient_token row = oe_recipient_token envelope \<and> mbx_encrypted_payload row = oe_encrypted_payload envelope
     \<and> mbx_status row = ''pending'' \<and> mbx_expires_at row = map_option as_i64 (oe_expires_at envelope))"

definition before_expiry :: "offline_envelope \<Rightarrow> u64 \<Rightarrow> bool" where
  "before_expiry envelope now \<longleftrightarrow> (case oe_expires_at envelope of None \<Rightarrow> True | Some e \<Rightarrow> as_i64 now < as_i64 e)"

lemma waiting_expire:
  assumes "waiting envelope m" "before_expiry envelope now"
  shows "waiting envelope (expire now m)"
proof -
  obtain row where row: "row \<in> set (mb_rows m)" "mbx_message_id row = oe_message_id envelope"
    "mbx_recipient_token row = oe_recipient_token envelope" "mbx_encrypted_payload row = oe_encrypted_payload envelope"
    "mbx_status row = ''pending''" "mbx_expires_at row = map_option as_i64 (oe_expires_at envelope)"
    using assms(1) by (auto simp: waiting_def)
  have "\<not> row_expired (as_i64 now) row"
    using assms(2) row(6) by (auto simp: row_expired_def before_expiry_def split: option.splits)
  then have "row \<in> set (mb_rows (expire now m))" using row(1) by (force simp: expire_def set_update_where)
  then show ?thesis using row by (auto simp: waiting_def)
qed

lemma waiting_request:
  assumes "waiting envelope m" "before_expiry envelope now" "request \<noteq> MbAcknowledge (oe_message_id envelope)"
  shows "waiting envelope (fst (handle_mailbox_request now request m))"
proof (cases request)
  case (MbDeposit other)
  have "waiting envelope (fst (deposit record1 now m))" for record1
    using waiting_expire [OF assms(1,2)]
    by (auto simp: deposit_def Let_def insert_or_ignore_def waiting_def split: prod.splits if_splits)
  then show ?thesis using MbDeposit by (simp add: Let_def case_prod_unfold split: sum.split)
next
  case (MbFetch token)
  then show ?thesis using waiting_expire [OF assms(1,2)] by (simp add: fetch_pending_def Let_def)
next
  case (MbAcknowledge mid)
  then show ?thesis using assms by (force simp: waiting_def acknowledge_retrieval_def set_update_where)
qed

lemma waiting_run:
  assumes "waiting envelope m" "\<forall>(now, ev) \<in> set evs. before_expiry envelope now \<and> ev \<noteq> NodeRequest (MbAcknowledge (oe_message_id envelope))"
  shows "waiting envelope (fst (run_mailbox_node evs m))"
  using assms
proof (induction evs m rule: run_mailbox_node.induct)
  case (3 now request evs m)
  obtain m1 response where r: "handle_mailbox_request now request m = (m1, response)" by (cases "handle_mailbox_request now request m")
  then have "waiting envelope m1" using 3 waiting_request [of envelope m now request] by simp
  then show ?case using 3 r by (auto simp: split: prod.split)
qed simp_all

lemma waiting_fetched:
  assumes "waiting envelope m" "before_expiry envelope now"
  obtains envelopes where "snd (handle_mailbox_request now (MbFetch (oe_recipient_token envelope)) m) = MbPending envelopes"
    "envelope \<in> set envelopes"
proof -
  obtain row where row: "row \<in> set (mb_rows m)" "mbx_message_id row = oe_message_id envelope"
    "mbx_recipient_token row = oe_recipient_token envelope" "mbx_encrypted_payload row = oe_encrypted_payload envelope"
    "mbx_status row = ''pending''" "mbx_expires_at row = map_option as_i64 (oe_expires_at envelope)"
    using assms(1) by (auto simp: waiting_def)
  have "row_fetchable (oe_recipient_token envelope) (as_i64 now) row"
    using assms(2) row by (auto simp: row_fetchable_def before_expiry_def split: option.splits)
  then have "envelope_from_row row \<in> set (snd (fetch_pending (oe_recipient_token envelope) now m))"
    using row(1) by (simp add: fetch_rows)
  moreover have "envelope = \<lparr>oe_recipient_token = me_recipient_token (envelope_from_row row), oe_message_id = me_message_id (envelope_from_row row),
      oe_encrypted_payload = me_encrypted_payload (envelope_from_row row), oe_expires_at = me_expires_at (envelope_from_row row)\<rparr>"
    using row by (cases envelope, cases "oe_expires_at envelope") (simp_all add: envelope_from_row_def)
  ultimately show ?thesis by (intro that) (force simp: case_prod_unfold)+
qed

text \<open>
  C14: an envelope that the node has taken waits for its recipient: whatever the node is asked in between,
  until the envelope expires or is acknowledged every fetch of the recipient returns it unchanged.
\<close>

theorem deposited_envelope_kept:
  assumes "handle_mailbox_request t0 (MbDeposit envelope) m = (m1, MbDeposited mid)" and "\<not> has_envelope mid m"
    and "\<forall>(now, ev) \<in> set evs. before_expiry envelope now \<and> ev \<noteq> NodeRequest (MbAcknowledge (oe_message_id envelope))"
    and "run_mailbox_node evs m1 = (m2, responses, down)" and "before_expiry envelope now"
  shows "\<exists>envelopes. snd (handle_mailbox_request now (MbFetch (oe_recipient_token envelope)) m2) = MbPending envelopes \<and> envelope \<in> set envelopes"
proof -
  have "waiting envelope m1"
    using assms(1,2)
    by (auto simp: Let_def deposit_def insert_or_ignore_def waiting_def envelope_to_row_def has_envelope_def has_key_def count_where_def
        expire_def set_update_where filter_empty_conv split: prod.splits sum.splits if_splits)
  then have "waiting envelope m2" using waiting_run [of envelope m1 evs] assms(3,4) by simp
  from waiting_fetched [OF this assms(5)] show ?thesis by blast
qed

theorem deposited_envelope_kept_witness:
  "\<exists>envelopes m2. run_mailbox_node [(6, NodeRequest (MbDeposit (toy_envelope ''b''))), (7, NodeRequest (MbAcknowledge ''b'')), (8, NodeRequest (MbFetch ''t''))]
      (fst (handle_mailbox_request 5 (MbDeposit (toy_envelope ''a'')) (mailbox_open 2))) = m2
    \<and> snd (handle_mailbox_request 99 (MbFetch ''t'') (fst m2)) = MbPending envelopes \<and> toy_envelope ''a'' \<in> set envelopes"
proof -
  let ?evs = "[(6, NodeRequest (MbDeposit (toy_envelope ''b''))), (7, NodeRequest (MbAcknowledge ''b'')), (8, NodeRequest (MbFetch ''t''))] :: (u64 \<times> node_event) list"
  let ?m1 = "fst (handle_mailbox_request 5 (MbDeposit (toy_envelope ''a'')) (mailbox_open 2))"
  obtain m2 responses down where run: "run_mailbox_node ?evs ?m1 = (m2, responses, down)" by (cases "run_mailbox_node ?evs ?m1")
  have "handle_mailbox_request 5 (MbDeposit (toy_envelope ''a'')) (mailbox_open 2) = (?m1, MbDeposited ''a'')" by code_simp
  moreover have "\<not> has_envelope ''a'' (mailbox_open 2)" by code_simp
  moreover have "\<forall>(now, ev) \<in> set ?evs. before_expiry (toy_envelope ''a'') now \<and> ev \<noteq> NodeRequest (MbAcknowledge (oe_message_id (toy_envelope ''a'')))"
    by (simp add: before_expiry_def toy_envelope_def as_i64_def)
  moreover have "before_expiry (toy_envelope ''a'') 99" by (simp add: before_expiry_def toy_envelope_def as_i64_def)
  ultimately show ?thesis
    using deposited_envelope_kept [of 5 "toy_envelope ''a''" "mailbox_open 2" ?m1 "''a''" ?evs m2 responses down 99] run
    by (auto simp: toy_envelope_def)
qed

end
