(* ===== verification/Advertiser.thy ===== *)
theory Advertiser
  imports OneShot
begin

text \<open>
  The listener of the one-shot commands (\<^verbatim>\<open>src/src/main.rs\<close>): \<^verbatim>\<open>run_discovery_advertiser\<close>, which publishes
  the address of the QUIC listener, keeps reservations on relays and answers libp2p requests, and \<^verbatim>\<open>run_bob\<close>,
  which runs it beside the direct connection and ends with the first of the two.
\<close>

section \<open>The advertiser\<close>

text \<open>Listeners are numbered in the order of \<^verbatim>\<open>listen_on\<close>; a reservation belongs to one of them.\<close>

record reservation =
  rv_listener :: nat
  rv_relay_peer_id :: peer_id
  rv_accepted :: bool

record advertiser =
  av_reservations :: "reservation list"
  av_bob :: "relayed_bob option"

datatype adv_event =
    AdvDiscovered "(peer_id \<times> multiaddr) list"
  | AdvExpired "(peer_id \<times> multiaddr) list"
  | AdvIdentify peer_id "multiaddr list"
  | AdvReservationAccepted peer_id bool
  | AdvApp bob_app_event
  | AdvListenerFailed nat
  | OtherAdvEvent

datatype adv_action =
    PutRecord peer_id bytes
  | AdvListenOn multiaddr
  | AdvKad discovery_action
  | KadBootstrap
  | AdvRespond cm_response
  | PrintPlaintext string
  | ReservationLost peer_id bool

definition listen_and_add_bootstrap_addresses :: "multiaddr \<Rightarrow> multiaddr list \<Rightarrow> adv_action list" where
  "listen_and_add_bootstrap_addresses listen_addr bootstrap_peers =
     AdvListenOn listen_addr # List.map_filter (\<lambda>bootstrap_peer. case strip_p2p bootstrap_peer of
       (address, Some peer_id) \<Rightarrow> Some (AdvKad (KadAddAddress peer_id address)) | (address, None) \<Rightarrow> None) bootstrap_peers"

text \<open>The numbers of the relay listeners start with \<open>next\<close>.\<close>

fun reserve_on_relays :: "nat \<Rightarrow> multiaddr list \<Rightarrow> reservation list \<times> adv_action list" where
  "reserve_on_relays next [] = ([], [])"
| "reserve_on_relays next (relay_peer # relay_peers) =
     (case snd (strip_p2p relay_peer) of
        None \<Rightarrow> reserve_on_relays next relay_peers
      | Some relay_peer_id \<Rightarrow>
          (case reserve_on_relays (next + 1) relay_peers of
             (reservations, acts) \<Rightarrow>
               (\<lparr>rv_listener = next, rv_relay_peer_id = relay_peer_id, rv_accepted = False\<rparr> # reservations,
                AdvListenOn (relay_peer @ [P2pCircuit]) # acts)))"

text \<open>What happens before the loop: the record is put, the listeners are opened.\<close>

definition run_discovery_advertiser_start ::
    "addr_text \<Rightarrow> ip_addr option \<Rightarrow> multiaddr \<Rightarrow> peer_id \<Rightarrow> ip_addr \<times> u16 \<Rightarrow> multiaddr list \<Rightarrow> bob option
      \<Rightarrow> app_error + advertiser \<times> adv_action list" where
  "run_discovery_advertiser_start A lan listen_addr local_peer_id app_addr bootstrap_peers bob =
     and_then (advertise_socket_addr lan app_addr) (\<lambda>(ip, port).
       case reserve_on_relays 1 bootstrap_peers of (reservations, acts) \<Rightarrow>
       Inr (\<lparr>av_reservations = reservations,
             av_bob = map_option (\<lambda>b. \<lparr>rb_bob = b, rb_final_ack_pending = False\<rparr>) bob\<rparr>,
            PutRecord local_peer_id (as_bytes (at_show A (socket_to_app_multiaddr ip port)))
            # listen_and_add_bootstrap_addresses listen_addr bootstrap_peers @ acts))"

definition option_list :: "('a \<Rightarrow> 'b) \<Rightarrow> 'a option \<Rightarrow> 'b list" where
  "option_list f x = (case x of None \<Rightarrow> [] | Some v \<Rightarrow> [f v])"

fun run_discovery_advertiser_step ::
    "crypto \<Rightarrow> chat_codec \<Rightarrow> (prekey_bundle \<Rightarrow> bytes) \<Rightarrow> (app_error \<Rightarrow> string) \<Rightarrow> adv_event \<Rightarrow> advertiser
      \<Rightarrow> advertiser \<times> adv_action list \<times> (app_error + unit)" where
  "run_discovery_advertiser_step K C enc_bundle error_text (AdvDiscovered peers) st =
     (st, map (\<lambda>(peer, address). AdvKad (KadAddAddress peer address)) peers, Inr ())"
| "run_discovery_advertiser_step K C enc_bundle error_text (AdvExpired peers) st =
     (st, map (\<lambda>(peer, address). AdvKad (KadRemoveAddress peer address)) peers, Inr ())"
| "run_discovery_advertiser_step K C enc_bundle error_text (AdvIdentify peer addresses) st =
     (st, map (\<lambda>address. AdvKad (KadAddAddress peer address)) addresses, Inr ())"
| "run_discovery_advertiser_step K C enc_bundle error_text (AdvReservationAccepted relay_peer_id renewal) st =
     (st\<lparr>av_reservations := map (\<lambda>r. if rv_relay_peer_id r = relay_peer_id then r\<lparr>rv_accepted := True\<rparr> else r) (av_reservations st)\<rparr>,
      if renewal then [] else [KadBootstrap], Inr ())"
| "run_discovery_advertiser_step K C enc_bundle error_text (AdvApp event) st =
     (case av_bob st of
        None \<Rightarrow> (st, [], Inr ())
      | Some rb \<Rightarrow>
          (case handle_bob_app_event K C enc_bundle error_text event rb of
             (rb1, response, printed, res) \<Rightarrow>
               (st\<lparr>av_bob := Some rb1\<rparr>, option_list PrintPlaintext printed @ option_list AdvRespond response,
                case res of Inl e \<Rightarrow> Inl e | Inr finished \<Rightarrow> Inr ())))"
| "run_discovery_advertiser_step K C enc_bundle error_text (AdvListenerFailed listener) st =
     (st, (case find (\<lambda>r. rv_listener r = listener) (av_reservations st) of
             None \<Rightarrow> [] | Some r \<Rightarrow> [ReservationLost (rv_relay_peer_id r) (rv_accepted r)]), Inr ())"
| "run_discovery_advertiser_step K C enc_bundle error_text OtherAdvEvent st = (st, [], Inr ())"

section \<open>The command\<close>

text \<open>
  Bob is shared between the two tasks: a step of the direct one is what it does to him, its end the
  result of \<^verbatim>\<open>run_bob_quic_once\<close>.  \<open>None\<close>: the command is still running when the events are over.
\<close>

datatype bob_event = BobCtrlC | DirectStep "bob \<Rightarrow> bob" | DirectEnded "app_error + unit" | RelayedEvent adv_event

fun run_bob ::
    "crypto \<Rightarrow> chat_codec \<Rightarrow> (prekey_bundle \<Rightarrow> bytes) \<Rightarrow> (app_error \<Rightarrow> string) \<Rightarrow> bob_event list \<Rightarrow> advertiser
      \<Rightarrow> advertiser \<times> adv_action list \<times> (app_error + unit) option" where
  "run_bob K C enc_bundle error_text [] st = (st, [], None)"
| "run_bob K C enc_bundle error_text (BobCtrlC # evs) st = (st, [], Some (Inr ()))"
| "run_bob K C enc_bundle error_text (DirectStep f # evs) st =
     run_bob K C enc_bundle error_text evs (st\<lparr>av_bob := map_option (\<lambda>rb. rb\<lparr>rb_bob := f (rb_bob rb)\<rparr>) (av_bob st)\<rparr>)"
| "run_bob K C enc_bundle error_text (DirectEnded result # evs) st = (st, [], Some result)"
| "run_bob K C enc_bundle error_text (RelayedEvent event # evs) st =
     (case run_discovery_advertiser_step K C enc_bundle error_text event st of
        (st1, acts, Inl e) \<Rightarrow> (st1, acts, Some (Inl e))
      | (st1, acts, Inr _) \<Rightarrow>
          (case run_bob K C enc_bundle error_text evs st1 of (st2, acts2, r) \<Rightarrow> (st2, acts @ acts2, r)))"

section \<open>The advertised address is found\<close>

lemma usable_advertised:
  assumes "advertise_socket_addr lan app_addr = Inr (ip, port)" "\<And>v. lan = Some v \<Longrightarrow> is_usable_remote_ip v"
  shows "is_usable_remote_ip ip"
  using assms by (auto simp: advertise_socket_addr_def and_then_Inr_iff ok_or_Inr_iff split: if_splits)

lemma socket_round_trip:
  assumes "is_usable_remote_ip ip"
  shows "socket_from_app_multiaddr (socket_to_app_multiaddr ip port) fallback = Inr (ip, port)"
  using assms by (cases ip) (simp_all add: socket_from_app_multiaddr_def socket_to_app_multiaddr_def)

text \<open>
  C25: who looks for Bob finds the address that Bob's advertiser has published: the record that it puts under
  his peer id is decoded to the socket address of his listener, or to his address in the local network when
  the listener is bound to no usable one.
\<close>

theorem advertised_address_found:
  assumes "run_discovery_advertiser_start A lan listen_addr bob_peer_id app_addr bootstrap_peers bob = Inr (st, acts)"
    and "addr_text_ok A" "\<And>a. is_str (at_show A a)" and "\<And>ip. lan = Some ip \<Longrightarrow> is_usable_remote_ip ip"
  shows "\<exists>record ip. PutRecord bob_peer_id record \<in> set acts
    \<and> (ip = fst app_addr \<and> is_usable_remote_ip ip \<or> Some ip = lan \<and> \<not> is_usable_remote_ip (fst app_addr))
    \<and> discover_app_addr_step A rank bob_peer_id (FoundRecord record) ds = (ds, [], FoundResult (ip, snd app_addr))"
proof -
  obtain ip port where adv: "advertise_socket_addr lan app_addr = Inr (ip, port)"
    and put: "PutRecord bob_peer_id (as_bytes (at_show A (socket_to_app_multiaddr ip port))) \<in> set acts"
    using assms(1) by (cases "reserve_on_relays 1 bootstrap_peers") (auto simp: run_discovery_advertiser_start_def and_then_Inr_iff)
  have "port = snd app_addr" "ip = fst app_addr \<and> is_usable_remote_ip ip \<or> Some ip = lan \<and> \<not> is_usable_remote_ip (fst app_addr)"
    using adv by (auto simp: advertise_socket_addr_def and_then_Inr_iff ok_or_Inr_iff split: if_splits)
  moreover have "discover_app_addr_step A rank bob_peer_id (FoundRecord (as_bytes (at_show A (socket_to_app_multiaddr ip port)))) ds
      = (ds, [], FoundResult (ip, port))"
    using assms(2,3) socket_round_trip [OF usable_advertised [OF adv assms(4)]] by (simp add: addr_text_ok_def)
  ultimately show ?thesis using put by blast
qed

definition toy_hex_text :: addr_text where
  "toy_hex_text = \<lparr>at_parse = \<lambda>s. (case hex_decode s of Inr w \<Rightarrow> Some (dec_addr (length w) w) | Inl _ \<Rightarrow> None),
     at_show = \<lambda>a. hex_encode (enc_addr a)\<rparr>"

lemma toy_hex_text_ok: "addr_text_ok toy_hex_text" "is_str (at_show toy_hex_text a)"
proof -
  show "addr_text_ok toy_hex_text"
    using length_enc_addr by (simp add: addr_text_ok_def toy_hex_text_def hex_round_trip dec_enc_addr)
  have "is_str (hex_encode bs)" for bs
  proof (induction bs)
    case (Cons b bs)
    have "unat b < 2 ^ LENGTH(8)" by (rule unsigned_less)
    then have "unat b div 16 < 16" "unat b mod 16 < 16" by (simp_all add: less_mult_imp_div_less)
    then show ?case
      using Cons hex_digit_ascii by (simp add: is_str_def as_bytes_def hex_encode_def hex_byte_def)
  qed (simp add: is_str_def as_bytes_def hex_encode_def)
  then show "is_str (at_show toy_hex_text a)" by (simp add: toy_hex_text_def)
qed

theorem advertised_address_found_witness:
  "\<exists>st acts record. run_discovery_advertiser_start toy_hex_text (Some (IpV4 (Ipv4 192 168 1 7))) [] ''bob'' (IpV4 (Ipv4 0 0 0 0), 5000) [] None = Inr (st, acts)
    \<and> PutRecord ''bob'' record \<in> set acts
    \<and> discover_app_addr_step toy_hex_text length ''bob'' (FoundRecord record) \<lparr>ds_addresses = \<lambda>_. [], ds_asked_kad = True\<rparr>
        = (\<lparr>ds_addresses = \<lambda>_. [], ds_asked_kad = True\<rparr>, [], FoundResult (IpV4 (Ipv4 192 168 1 7), 5000))"
proof -
  let ?lan = "IpV4 (Ipv4 192 168 1 7)"
  have ips: "is_usable_remote_ip ?lan" "\<not> is_usable_remote_ip (IpV4 (Ipv4 0 0 0 0))" by code_simp+
  obtain st acts where start: "run_discovery_advertiser_start toy_hex_text (Some ?lan) [] ''bob'' (IpV4 (Ipv4 0 0 0 0), 5000) [] None = Inr (st, acts)"
    by (simp add: run_discovery_advertiser_start_def advertise_socket_addr_def ips)
  have "Some ?lan = Some ip \<Longrightarrow> is_usable_remote_ip ip" for ip using ips(1) by simp
  from advertised_address_found [OF start toy_hex_text_ok this, of length "\<lparr>ds_addresses = \<lambda>_. [], ds_asked_kad = True\<rparr>"]
  show ?thesis using start ips(2) by auto
qed

section \<open>One initial message, and the next bundle request ends the listener\<close>

lemma initial_uses_prekey:
  assumes "cd_initial_decode C encrypted_bytes = Some im" "bo_one_time_prekey b = Some otp" "im_one_time_prekey_id im = otp_id otp"
  shows "bo_one_time_prekey (fst (decrypt_relayed K C encrypted_bytes b)) = None"
  using assms
  by (auto simp: decrypt_relayed_def decrypt_initial_message_def decrypt_from_alice_def Let_def split: sum.split prod.split option.split)

text \<open>
  C38: once a libp2p peer has sent any initial message that names Bob's prekey, forged or not, the next
  request for his bundle is not answered: it ends the advertiser with an error, and with it the whole
  command, the direct connection included.
\<close>

theorem bundle_request_ends_listener:
  assumes "av_bob st = Some rb" and "cd_initial_decode C encrypted_bytes = Some im" and "bo_one_time_prekey (rb_bob rb) = Some otp"
    and "im_one_time_prekey_id im = otp_id otp"
  shows "\<exists>st' acts answer. run_bob K C enc_bundle error_text
      (RelayedEvent (AdvApp (BobRequest (CmInitialMessage encrypted_bytes))) # RelayedEvent (AdvApp (BobRequest CmPreKeyBundle)) # evs) st
      = (st', acts @ [AdvRespond answer], Some (Inl (AppCrypto PreKeyUnavailable)))
    \<and> (answer = CmAck (as_bytes ''ok'') \<or> (\<exists>error. answer = CmError error))"
proof -
  obtain b1 res where dec: "decrypt_relayed K C encrypted_bytes (rb_bob rb) = (b1, res)" by (cases "decrypt_relayed K C encrypted_bytes (rb_bob rb)")
  then have "bo_one_time_prekey b1 = None" using initial_uses_prekey [OF assms(2-4), of K] by simp
  then have "bob_prekey_bundle K b1 = Inl PreKeyUnavailable" by (simp add: bob_prekey_bundle_def)
  then show ?thesis using assms(1) dec by (cases res) (simp_all add: option_list_def)
qed

theorem bundle_request_ends_listener_witness:
  "\<exists>st' acts answer. run_bob toy_crypto toy_relay_codec (\<lambda>_. []) (\<lambda>_. [])
      [RelayedEvent (AdvApp (BobRequest (CmInitialMessage (cd_initial toy_relay_codec toy_forgery)))), RelayedEvent (AdvApp (BobRequest CmPreKeyBundle))]
      \<lparr>av_reservations = [], av_bob = Some \<lparr>rb_bob = toy_bob, rb_final_ack_pending = False\<rparr>\<rparr>
    = (st', acts @ [AdvRespond answer], Some (Inl (AppCrypto PreKeyUnavailable)))"
proof -
  have dec: "cd_initial_decode toy_relay_codec (cd_initial toy_relay_codec toy_forgery) = Some toy_forgery"
    by (simp add: toy_relay_codec_def toy_chat_codec_def)
  obtain otp where otp: "bo_one_time_prekey toy_bob = Some otp" "im_one_time_prekey_id toy_forgery = otp_id otp"
    using toy_bob_wf(2) by (auto simp: toy_bob_def bob_local_def toy_forgery_def)
  let ?st = "\<lparr>av_reservations = [], av_bob = Some \<lparr>rb_bob = toy_bob, rb_final_ack_pending = False\<rparr>\<rparr>"
  from bundle_request_ends_listener [of ?st "\<lparr>rb_bob = toy_bob, rb_final_ack_pending = False\<rparr>" toy_relay_codec
      "cd_initial toy_relay_codec toy_forgery" toy_forgery otp toy_crypto "\<lambda>_. []" "\<lambda>_. []" "[]", OF _ dec _ otp(2)] otp(1)
  show ?thesis by (simp del: run_bob.simps) blast
qed

end
