(* ===== verification/Commands.thy ===== *)
theory Commands
  imports Menu
begin

text \<open>
  The command line (\<^verbatim>\<open>main\<close> in \<^verbatim>\<open>src/src/main.rs\<close>): which command the arguments name and with which
  arguments it is run.  \<^verbatim>\<open>args\<close> includes the name of the program; a path is its text; the parsers of socket
  addresses, multiaddresses and peer ids are parameters, and so are the environment variables.
\<close>

section \<open>Commands\<close>

type_synonym socket_addr = "ip_addr \<times> u16"

datatype command =
    RunProductMenu
  | RunBob socket_addr "multiaddr list" string
  | RunAliceDiscovered peer_id "string option" "multiaddr list" string
  | RunAlice socket_addr string string
  | RunChatBob socket_addr string
  | RunChatListener socket_addr string
  | RunChatAlice socket_addr string
  | RunAliceRelayed peer_id string "multiaddr list"
  | RunPublicService multiaddr string
  | RunMailboxNode multiaddr string
  | RunAliceMailboxDeposit multiaddr string string
  | RunBobMailboxFetch multiaddr string
  | RunCreateInvite string
  | RunJoinInvite string string
  | RunListenerDoctor socket_addr nat
  | RunStorageBenchmark string nat
  | RunFileDemo string string
  | RunDemo string
  | RunLocalDemo bool
  | PrintUsage

record arg_parsers =
  ap_socket :: "string \<Rightarrow> socket_addr option"
  ap_multiaddr :: "string \<Rightarrow> multiaddr option"
  ap_peer :: "string \<Rightarrow> peer_id option"

definition DEFAULT_SERVICE_IDENTITY_PATH :: string where
  "DEFAULT_SERVICE_IDENTITY_PATH = ''/var/lib/ciphermesh/service.key''"

definition DEFAULT_INVITE_LISTEN_ADDR :: string where
  "DEFAULT_INVITE_LISTEN_ADDR = ''0.0.0.0:5000''"

definition default_chat_db :: "string \<Rightarrow> string" where
  "default_chat_db role = ''target/ciphermesh-'' @ role @ ''-profile.sqlite''"

section \<open>Arguments\<close>

definition arg :: "nat \<Rightarrow> string list \<Rightarrow> string option" where
  "arg i args = (if i < length args then Some (args ! i) else None)"

definition or_default :: "string \<Rightarrow> string option \<Rightarrow> string" where
  "or_default d value = (case value of Some v \<Rightarrow> v | None \<Rightarrow> d)"

definition parse_addr :: "arg_parsers \<Rightarrow> string option \<Rightarrow> string \<Rightarrow> app_error + socket_addr" where
  "parse_addr A value d = ok_or (ap_socket A (or_default d value)) (AppMessage ''invalid socket address'')"

definition parse_required_multiaddr :: "arg_parsers \<Rightarrow> string option \<Rightarrow> string \<Rightarrow> app_error + multiaddr" where
  "parse_required_multiaddr A value label = (case value of
     None \<Rightarrow> Inl (AppMessage (''missing '' @ label))
   | Some v \<Rightarrow> ok_or (ap_multiaddr A v) (AppMessage (''invalid '' @ label)))"

definition parse_multiaddr :: "arg_parsers \<Rightarrow> string option \<Rightarrow> string \<Rightarrow> string \<Rightarrow> app_error + multiaddr" where
  "parse_multiaddr A value d label = ok_or (ap_multiaddr A (or_default d value)) (AppMessage (''invalid '' @ label))"

definition parse_peer_id :: "arg_parsers \<Rightarrow> string option \<Rightarrow> app_error + peer_id" where
  "parse_peer_id A value = (case value of
     None \<Rightarrow> Inl (AppMessage ''missing Bob PeerId'')
   | Some v \<Rightarrow> ok_or (ap_peer A v) (AppMessage ''invalid Bob PeerId''))"

definition parse_bootstrap_peers :: "arg_parsers \<Rightarrow> string list \<Rightarrow> app_error + multiaddr list" where
  "parse_bootstrap_peers A values =
     collect_results (map (\<lambda>value. ok_or (ap_multiaddr A value) (AppMessage (''invalid bootstrap multiaddr '' @ value))) values)"

text \<open>\<^verbatim>\<open>args.get(start..)\<close>: empty when there are fewer arguments.\<close>

definition tail_args :: "string list \<Rightarrow> nat \<Rightarrow> string list" where
  "tail_args args start = drop start args"

definition split_optional_message_and_bootstrap :: "arg_parsers \<Rightarrow> string list \<Rightarrow> string option \<times> string list" where
  "split_optional_message_and_bootstrap A values = (case values of
     [] \<Rightarrow> (None, values)
   | first # rest \<Rightarrow> if ap_multiaddr A first \<noteq> None then (None, values) else (Some first, rest))"

definition parse_number :: "string \<Rightarrow> nat \<Rightarrow> string option \<Rightarrow> app_error + nat" where
  "parse_number label d value = (case value of
     None \<Rightarrow> Inr d
   | Some v \<Rightarrow> ok_or (parse_usize v) (AppMessage (''invalid '' @ label)))"

text \<open>The flag is taken out wherever it stands; the first result says whether the log is verbose.\<close>

definition verbose_flag :: "string \<Rightarrow> bool" where
  "verbose_flag a \<longleftrightarrow> a = ''--verbose'' \<or> a = ''-v''"

definition take_verbose_flag :: "string option \<Rightarrow> string list \<Rightarrow> bool \<times> string list" where
  "take_verbose_flag env args =
     ((case env of Some v \<Rightarrow> v \<in> {''1'', ''true'', ''yes'', ''on''} | None \<Rightarrow> False) \<or> list_ex verbose_flag args,
      filter (\<lambda>a. \<not> verbose_flag a) args)"

definition development_service_identity_path :: "string option \<Rightarrow> string" where
  "development_service_identity_path env = or_default ''target/dev-service.key'' env"

section \<open>The dispatch\<close>

text \<open>The groups of commands in the order of the match; \<open>None\<close> means that the name is none of the group.\<close>

definition chat_command :: "arg_parsers \<Rightarrow> string \<Rightarrow> string list \<Rightarrow> (app_error + command) option" where
  "chat_command A name args =
     (if name = ''bob'' then
        Some (and_then (parse_addr A (arg 2 args) ''0.0.0.0:5000'') (\<lambda>listen_addr.
              and_then (parse_bootstrap_peers A (tail_args args 3)) (\<lambda>bootstrap_peers.
              Inr (RunBob listen_addr bootstrap_peers (default_chat_db ''bob'')))))
      else if name = ''alice'' then
        Some (and_then (parse_peer_id A (arg 2 args)) (\<lambda>bob_peer_id.
              case split_optional_message_and_bootstrap A (tail_args args 3) of (message, bootstrap_args) \<Rightarrow>
              and_then (parse_bootstrap_peers A bootstrap_args) (\<lambda>bootstrap_peers.
              Inr (RunAliceDiscovered bob_peer_id message bootstrap_peers (default_chat_db ''alice'')))))
      else if name = ''alice-direct'' then
        Some (and_then (parse_addr A (arg 2 args) ''127.0.0.1:5000'') (\<lambda>bob_addr.
              Inr (RunAlice bob_addr (or_default ''hello bob over quic'' (arg 3 args)) (default_chat_db ''alice''))))
      else if name = ''chat-bob'' then
        Some (and_then (parse_addr A (arg 2 args) ''0.0.0.0:5000'') (\<lambda>listen_addr.
              Inr (RunChatBob listen_addr (or_default (default_chat_db ''bob'') (arg 3 args)))))
      else if name = ''chat-listen'' then
        Some (and_then (parse_addr A (arg 2 args) ''0.0.0.0:5000'') (\<lambda>listen_addr.
              Inr (RunChatListener listen_addr (or_default (default_chat_db ''bob'') (arg 3 args)))))
      else if name = ''chat-alice'' then
        Some (and_then (parse_addr A (arg 2 args) ''127.0.0.1:5000'') (\<lambda>bob_addr.
              Inr (RunChatAlice bob_addr (or_default (default_chat_db ''alice'') (arg 3 args)))))
      else if name = ''alice-relay'' then
        Some (and_then (parse_peer_id A (arg 2 args)) (\<lambda>bob_peer_id.
              and_then (parse_bootstrap_peers A (tail_args args 4)) (\<lambda>relay_peers.
              Inr (RunAliceRelayed bob_peer_id (or_default ''hello via relay'' (arg 3 args)) relay_peers))))
      else None)"

definition service_command :: "arg_parsers \<Rightarrow> string option \<Rightarrow> string \<Rightarrow> string list \<Rightarrow> (app_error + command) option" where
  "service_command A identity_env name args =
     (if name = ''service'' \<or> name = ''relay'' then
        Some (if arg 3 args \<noteq> None
              then Inl (AppMessage ''the production service identity is fixed; use service-dev for an alternate key'')
              else and_then (parse_multiaddr A (arg 2 args) ''/ip4/0.0.0.0/tcp/4001'' ''service listen multiaddr'') (\<lambda>listen_addr.
                   Inr (RunPublicService listen_addr DEFAULT_SERVICE_IDENTITY_PATH)))
      else if name = ''service-dev'' then
        Some (and_then (parse_multiaddr A (arg 2 args) ''/ip4/127.0.0.1/tcp/4001'' ''development service listen multiaddr'') (\<lambda>listen_addr.
              Inr (RunPublicService listen_addr (or_default (development_service_identity_path identity_env) (arg 3 args)))))
      else None)"

definition mailbox_command :: "arg_parsers \<Rightarrow> string \<Rightarrow> string list \<Rightarrow> (app_error + command) option" where
  "mailbox_command A name args =
     (if name = ''mailbox'' then
        Some (and_then (parse_multiaddr A (arg 2 args) ''/ip4/0.0.0.0/tcp/7000'' ''mailbox listen multiaddr'') (\<lambda>listen_addr.
              Inr (RunMailboxNode listen_addr (or_default ''target/ciphermesh-mailbox.sqlite'' (arg 3 args)))))
      else if name = ''alice-mailbox'' then
        Some (and_then (parse_required_multiaddr A (arg 2 args) ''mailbox multiaddr'') (\<lambda>mailbox_addr.
              Inr (RunAliceMailboxDeposit mailbox_addr (or_default ''hello offline bob'' (arg 3 args))
                     (or_default ''target/ciphermesh-alice-mailbox.sqlite'' (arg 4 args)))))
      else if name = ''bob-mailbox'' then
        Some (and_then (parse_required_multiaddr A (arg 2 args) ''mailbox multiaddr'') (\<lambda>mailbox_addr.
              Inr (RunBobMailboxFetch mailbox_addr (or_default ''target/ciphermesh-bob-mailbox.sqlite'' (arg 3 args)))))
      else None)"

definition invite_command :: "string \<Rightarrow> string list \<Rightarrow> (app_error + command) option" where
  "invite_command name args =
     (if name = ''create-invite'' then Some (Inr (RunCreateInvite (or_default (default_chat_db ''invite-host'') (arg 2 args))))
      else if name = ''join-invite'' then
        Some (case arg 2 args of
                None \<Rightarrow> Inl (AppMessage ''missing invite code'')
              | Some code \<Rightarrow> Inr (RunJoinInvite code (or_default (default_chat_db ''invite-joiner'') (arg 3 args))))
      else if name = ''invite-demo'' then
        Some (Inr (RunFileDemo name (or_default ''target/ciphermesh-invite-demo.sqlite'' (arg 2 args))))
      else None)"

definition demo_command :: "arg_parsers \<Rightarrow> bool \<Rightarrow> string \<Rightarrow> string list \<Rightarrow> (app_error + command) option" where
  "demo_command A verbose name args =
     (if name \<in> {''kad-demo'', ''relay-demo'', ''phase6-lan-smoke'', ''phase6-invite-discovery-smoke'', ''phase6-relay-smoke'',
           ''phase6-mailbox-smoke'', ''sync-demo'', ''crdt-demo'', ''device-demo'', ''fanout-demo'', ''own-device-sync-demo'',
           ''revocation-demo''} then Some (Inr (RunDemo name))
      else if name = ''phase6-listener-doctor'' then
        Some (and_then (parse_addr A (arg 2 args) DEFAULT_INVITE_LISTEN_ADDR) (\<lambda>listen_addr.
              and_then (parse_number ''hold seconds'' 30 (arg 3 args)) (\<lambda>hold_seconds.
              Inr (RunListenerDoctor listen_addr hold_seconds))))
      else if name = ''restart-demo'' then
        Some (Inr (RunFileDemo name (or_default ''target/ciphermesh-4a-demo.sqlite'' (arg 2 args))))
      else if name = ''outbox-demo'' then
        Some (Inr (RunFileDemo name (or_default ''target/ciphermesh-4b-outbox-demo.sqlite'' (arg 2 args))))
      else if name = ''storage-bench'' then
        Some (and_then (parse_number ''storage benchmark message count'' 10000 (arg 2 args)) (\<lambda>message_count.
              Inr (RunStorageBenchmark (or_default ''target/ciphermesh-storage-benchmark.sqlite'' (arg 3 args)) message_count)))
      else if name = ''demo'' then Some (Inr (RunLocalDemo verbose))
      else if name \<in> {''help'', ''--help'', ''-h''} then Some (Inr PrintUsage)
      else None)"

definition main_command ::
    "arg_parsers \<Rightarrow> string option \<Rightarrow> string option \<Rightarrow> string list \<Rightarrow> bool \<times> (app_error + command)" where
  "main_command A verbose_env identity_env args0 =
     (case take_verbose_flag verbose_env args0 of (verbose, args) \<Rightarrow>
      (verbose,
       case arg 1 args of
         None \<Rightarrow> Inr RunProductMenu
       | Some name \<Rightarrow>
           (case List.find (\<lambda>r. r \<noteq> None)
                   [chat_command A name args, service_command A identity_env name args, mailbox_command A name args,
                    invite_command name args, demo_command A verbose name args] of
              Some (Some r) \<Rightarrow> r
            | _ \<Rightarrow> Inl (AppMessage (''invalid command '' @ name)))))"

section \<open>What the arguments decide\<close>

text \<open>
  A verbose flag may stand anywhere: it is taken out before the command is read, so the command and
  its arguments are those of the line without it; no argument can be the text of such a flag.
\<close>

theorem verbose_flag_anywhere:
  assumes "verbose_flag a"
  shows "main_command A verbose_env identity_env (xs @ a # ys) = (True, snd (main_command A (Some ''1'') identity_env (xs @ ys)))
    \<and> fst (main_command A (Some ''1'') identity_env (xs @ ys))"
  using assms by (simp add: main_command_def take_verbose_flag_def)

theorem verbose_flag_anywhere_witness:
  "main_command \<lparr>ap_socket = \<lambda>_. None, ap_multiaddr = \<lambda>_. None, ap_peer = Some\<rparr> None None [''ciphermesh'', ''alice'', ''-v'', ''peer'', ''hi'']
     = (True, Inr (RunAliceDiscovered ''peer'' (Some ''hi'') [] (default_chat_db ''alice'')))"
proof -
  have "verbose_flag ''-v''" by (simp add: verbose_flag_def)
  from verbose_flag_anywhere [OF this, of "\<lparr>ap_socket = \<lambda>_. None, ap_multiaddr = \<lambda>_. None, ap_peer = Some\<rparr>" None None
      "[''ciphermesh'', ''alice'']" "[''peer'', ''hi'']"]
  show ?thesis
    by (simp add: main_command_def take_verbose_flag_def verbose_flag_def arg_def chat_command_def parse_peer_id_def
        split_optional_message_and_bootstrap_def tail_args_def parse_bootstrap_peers_def)
qed

lemma only_service_command:
  "chat_command A name args \<noteq> Some (Inr (RunPublicService l k))" "mailbox_command A name args \<noteq> Some (Inr (RunPublicService l k))"
  "invite_command name args \<noteq> Some (Inr (RunPublicService l k))" "demo_command A verbose name args \<noteq> Some (Inr (RunPublicService l k))"
  by (auto simp: chat_command_def mailbox_command_def invite_command_def demo_command_def and_then_Inr_iff split: prod.splits option.splits)

text \<open>
  The key of the production service cannot be chosen on the command line: whatever the arguments and the
  environment, \<^verbatim>\<open>service\<close> and its alias \<^verbatim>\<open>relay\<close> run with the fixed key file or not at all; another key
  file takes \<^verbatim>\<open>service-dev\<close>, whose default address is the loopback one.
\<close>

theorem production_identity_fixed:
  assumes "main_command A verbose_env identity_env args0 = (verbose, Inr (RunPublicService listen_addr key_file))"
    and "take_verbose_flag verbose_env args0 = (verbose, args)"
  shows "(key_file = DEFAULT_SERVICE_IDENTITY_PATH \<and> arg 1 args \<in> {Some ''service'', Some ''relay''} \<and> length args \<le> 3)
    \<or> (arg 1 args = Some ''service-dev'' \<and> key_file = or_default (development_service_identity_path identity_env) (arg 3 args)
       \<and> parse_multiaddr A (arg 2 args) ''/ip4/127.0.0.1/tcp/4001'' ''development service listen multiaddr'' = Inr listen_addr)"
proof -
  obtain name where name: "arg 1 args = Some name" "service_command A identity_env name args = Some (Inr (RunPublicService listen_addr key_file))"
    using assms only_service_command
    by (auto simp: main_command_def find_Some_iff nth_Cons' split: option.splits if_splits)
  then show ?thesis
    by (auto simp: service_command_def and_then_Inr_iff arg_def split: if_splits)
qed

theorem production_identity_fixed_witness:
  "snd (main_command \<lparr>ap_socket = \<lambda>_. None, ap_multiaddr = \<lambda>_. Some [Tcp 4001], ap_peer = Some\<rparr> None (Some ''my.key'') [''ciphermesh'', ''service''])
      = Inr (RunPublicService [Tcp 4001] DEFAULT_SERVICE_IDENTITY_PATH) \<and> DEFAULT_SERVICE_IDENTITY_PATH \<noteq> ''my.key''"
proof -
  let ?A = "\<lparr>ap_socket = \<lambda>_. None, ap_multiaddr = \<lambda>_. Some [Tcp 4001], ap_peer = Some\<rparr>"
  obtain key where run: "main_command ?A None (Some ''my.key'') [''ciphermesh'', ''service''] = (False, Inr (RunPublicService [Tcp 4001] key))"
    by (simp add: main_command_def take_verbose_flag_def verbose_flag_def arg_def chat_command_def service_command_def parse_multiaddr_def)
  from production_identity_fixed [OF this] have "key = DEFAULT_SERVICE_IDENTITY_PATH"
    by (simp add: take_verbose_flag_def verbose_flag_def arg_def)
  then show ?thesis using run by (simp add: DEFAULT_SERVICE_IDENTITY_PATH_def)
qed

end
