(* ===== verification/ServiceIdentity.thy ===== *)
theory ServiceIdentity
  imports Commands
begin

text \<open>
  The identity of the public service (\<^verbatim>\<open>src/src/pairing.rs\<close>): its key file and the checks of
  \<^verbatim>\<open>run_public_service\<close> before the swarm is started.  What reading a file gives, a fresh key, the protobuf
  form of keys and the peer id of a key are parameters.
\<close>

section \<open>The key file\<close>

datatype file_read = FileBytes bytes | FileNotFound | FileUnreadable

record 'k service_keys =
  sk_decode :: "bytes \<Rightarrow> 'k option"
  sk_encode :: "'k \<Rightarrow> bytes"
  sk_peer_id :: "'k \<Rightarrow> peer_id"

text \<open>The first result is the content written to the file; \<open>write_fails\<close> says that making its directory or writing it fails.\<close>

definition load_or_create_service_identity ::
    "'k service_keys \<Rightarrow> (string \<Rightarrow> file_read) \<Rightarrow> bool \<Rightarrow> 'k \<Rightarrow> string \<Rightarrow> bytes option \<times> (app_error + 'k)" where
  "load_or_create_service_identity S read write_fails fresh path = (case read path of
     FileBytes bs \<Rightarrow> (None, ok_or (sk_decode S bs) AppCodec)
   | FileNotFound \<Rightarrow>
       if path = DEFAULT_SERVICE_IDENTITY_PATH
       then (None, Inl (AppMessage ''canonical service identity is missing; restore the permanent key instead of generating a new identity''))
       else if write_fails then (None, Inl (AppMessage ''could not write service identity''))
       else (Some (sk_encode S fresh), Inr fresh)
   | FileUnreadable \<Rightarrow> (None, Inl (AppMessage ''could not read service identity'')))"

definition DEFAULT_PAIRING_SERVICE_PEER_ID :: peer_id where
  "DEFAULT_PAIRING_SERVICE_PEER_ID = ''12D3KooWRkaMJMXVTTgsBSmjvZ6L26mbb39h7NXrKPMvMgL5drpj''"

text \<open>On success the peer id under which the service listens.\<close>

definition run_public_service ::
    "'k service_keys \<Rightarrow> (string \<Rightarrow> file_read) \<Rightarrow> bool \<Rightarrow> 'k \<Rightarrow> string \<Rightarrow> bytes option \<times> (app_error + peer_id)" where
  "run_public_service S read write_fails fresh identity_path =
     (case load_or_create_service_identity S read write_fails fresh identity_path of
        (written, Inl e) \<Rightarrow> (written, Inl e)
      | (written, Inr key) \<Rightarrow>
          (let local_peer_id = sk_peer_id S key
           in if identity_path = DEFAULT_SERVICE_IDENTITY_PATH \<and> local_peer_id \<noteq> DEFAULT_PAIRING_SERVICE_PEER_ID
              then (written, Inl (AppMessage ''canonical service identity produced unexpected PeerId''))
              else (written, Inr local_peer_id)))"

section \<open>The production service keeps its identity\<close>

text \<open>
  C39: the service that the clients have built in is never replaced by accident: whatever the arguments and
  the environment, a run of \<^verbatim>\<open>service\<close> or \<^verbatim>\<open>relay\<close> reads the key at the fixed place, writes no file, and listens, if at
  all, under the peer id that the clients expect.
\<close>

theorem production_service_identity:
  assumes "main_command A verbose_env identity_env args0 = (verbose, Inr (RunPublicService listen_addr key_file))"
    and "take_verbose_flag verbose_env args0 = (verbose, args)" "arg 1 args \<noteq> Some ''service-dev''"
  shows "key_file = DEFAULT_SERVICE_IDENTITY_PATH
    \<and> fst (run_public_service S read write_fails fresh key_file) = None
    \<and> (\<forall>peer. snd (run_public_service S read write_fails fresh key_file) = Inr peer \<longrightarrow>
         peer = DEFAULT_PAIRING_SERVICE_PEER_ID \<and> (\<exists>bs key. read DEFAULT_SERVICE_IDENTITY_PATH = FileBytes bs \<and> sk_decode S bs = Some key
           \<and> sk_peer_id S key = peer))"
proof -
  have fixed: "key_file = DEFAULT_SERVICE_IDENTITY_PATH"
    using production_identity_fixed [OF assms(1,2)] assms(3) by auto
  show ?thesis unfolding fixed
    by (auto simp: run_public_service_def load_or_create_service_identity_def Let_def ok_or_Inr_iff
        split: file_read.splits sum.splits if_splits option.splits)
qed

theorem production_service_identity_witness:
  "\<exists>key_file. snd (main_command \<lparr>ap_socket = \<lambda>_. None, ap_multiaddr = \<lambda>_. Some [Tcp 4001], ap_peer = Some\<rparr> None (Some ''my.key'')
       [''ciphermesh'', ''-v'', ''service'']) = Inr (RunPublicService [Tcp 4001] key_file)
    \<and> fst (run_public_service \<lparr>sk_decode = Some, sk_encode = id, sk_peer_id = \<lambda>_. DEFAULT_PAIRING_SERVICE_PEER_ID\<rparr> (\<lambda>_. FileBytes [1]) False [2] key_file) = None"
proof -
  let ?A = "\<lparr>ap_socket = \<lambda>_. None, ap_multiaddr = \<lambda>_. Some [Tcp 4001], ap_peer = Some\<rparr>"
  obtain key_file where run: "main_command ?A None (Some ''my.key'') [''ciphermesh'', ''-v'', ''service''] = (True, Inr (RunPublicService [Tcp 4001] key_file))"
    by (simp add: main_command_def take_verbose_flag_def verbose_flag_def arg_def chat_command_def service_command_def parse_multiaddr_def)
  have args: "take_verbose_flag None [''ciphermesh'', ''-v'', ''service''] = (True, [''ciphermesh'', ''service''])" "arg 1 [''ciphermesh'', ''service''] \<noteq> Some ''service-dev''"
    by (simp_all add: take_verbose_flag_def verbose_flag_def arg_def)
  let ?S = "\<lparr>sk_decode = Some, sk_encode = id, sk_peer_id = \<lambda>_. DEFAULT_PAIRING_SERVICE_PEER_ID\<rparr> :: bytes service_keys"
  have "fst (run_public_service ?S (\<lambda>_. FileBytes [1]) False [2] key_file) = None"
    by (rule production_service_identity [OF run args, THEN conjunct2, THEN conjunct1])
  then show ?thesis using run by auto
qed

end
