(* ===== verification/QuicProps.thy ===== *)
theory QuicProps
  imports OneShot
begin

text \<open>
  The two ends of a QUIC chat together (\<^verbatim>\<open>flush_pending_messages_to_bob\<close> and \<^verbatim>\<open>chat_loop_bob_shared\<close> of
  \<^verbatim>\<open>src/src/main.rs\<close>): what one side has queued while the other was away is stored there exactly once, and the
  acknowledgements that come back empty the queue.
\<close>

section \<open>The receiving side\<close>

context chat_party
begin

lemma quic_frame_stored:
  assumes "cc_frame_decode C bs = Some (FrameMessage mid name m)" "\<not> message_exists mid (pc_db st)"
    and "session (pc_party st) = Some ss" "ratchet_decrypt K m ss = (ss', Inr p)"
  obtains st' row where "quic_frame P K C now cx bs None st = (st', [cc_frame C (FrameAck mid)], QuicContinue)"
    "session (pc_party st') = Some ss'" "messages (pc_db st') = messages (pc_db st) @ [row]" "mw_message_id row = mid"
    "mw_conversation_id row = pcc_conversation_id cx" "mw_plaintext row = Some p" "pc_online st' = pc_online st"
proof -
  let ?ln = "pcc_local_display_name cx" and ?cid = "pcc_conversation_id cx"
  obtain s' e' row where h: "handle_chat_frame P K C now ?ln ?cid bs (pc_party st) (pc_db st) = (s', e', Inr (Some (Ack mid)))"
    "session e' = Some ss'" "messages s' = messages (pc_db st) @ [row]" "mw_message_id row = mid"
    "mw_conversation_id row = ?cid" "mw_plaintext row = Some p"
    by (rule handle_fresh [OF assms])
  then have "quic_frame P K C now cx bs None st = (st\<lparr>pc_party := e', pc_db := s'\<rparr>, [cc_frame C (FrameAck mid)], QuicContinue)"
    using assms(1,2) by (auto simp: handle_chat_frame_def quic_frame_def chat_message_already_saved_def split: prod.splits sum.splits)
  then show ?thesis using h by (intro that [of "st\<lparr>pc_party := e', pc_db := s'\<rparr>" row]) simp_all
qed

lemma queue_received:
  assumes K: "crypto_ok K" and C: "\<And>x. cc_frame_decode C (cc_frame C x) = Some x"
    and "in_step K i sa sb" "session (pc_party st) = Some sb" "pc_online st"
    and "snd (encrypt_all K (map pm_plaintext items) sa) = map Inr ms" "i + length items < 2 ^ 64"
    and "\<forall>item \<in> set items. is_str (pm_plaintext item) \<and> \<not> message_exists (pm_message_id item) (pc_db st)"
    and "distinct (map pm_message_id items)"
    and "map (\<lambda>(now, random, ev). ev) evs = map (\<lambda>f. QuicIncoming (Received f None)) (item_frames C ln items ms)"
  shows "\<exists>st' rows. quic_chat_run P K C cx evs st
      = (st', map (\<lambda>item. cc_frame C (FrameAck (pm_message_id item))) items, QuicContinue)
    \<and> messages (pc_db st') = messages (pc_db st) @ rows \<and> map mw_message_id rows = map pm_message_id items
    \<and> map mw_plaintext rows = map (\<lambda>item. Some (pm_plaintext item)) items
    \<and> (\<forall>row \<in> set rows. mw_conversation_id row = pcc_conversation_id cx)"
  using assms(3-)
proof (induction items arbitrary: i sa sb st ms evs)
  case (Cons item items)
  let ?p = "pm_plaintext item"
  have bound: "Suc i < 2 ^ 64" "Suc i + length items < 2 ^ 64" and str: "is_str ?p" using Cons.prems(5,6) by simp_all
  obtain sa' sb' m where m: "ratchet_encrypt K ?p sa = (sa', Inr m)" "ratchet_decrypt K m sb = (sb', Inr ?p)" "in_step K (Suc i) sa' sb'"
    by (rule next_message [OF K Cons.prems(1) bound(1) str])
  obtain ms' where ms: "ms = m # ms'" "snd (encrypt_all K (map pm_plaintext items) sa') = map Inr ms'"
    using Cons.prems(4) m(1) by (cases ms) (auto simp: case_prod_unfold Let_def)
  let ?f = "cc_frame C (FrameMessage (pm_message_id item) ln m)"
  obtain now random evs' where evs: "evs = (now, random, QuicIncoming (Received ?f None)) # evs'"
    "map (\<lambda>(now, random, ev). ev) evs' = map (\<lambda>f. QuicIncoming (Received f None)) (item_frames C ln items ms')"
    using Cons.prems(8) by (cases evs) (auto simp: item_frames_def ms(1))
  obtain st1 row where st1: "quic_frame P K C now cx ?f None st = (st1, [cc_frame C (FrameAck (pm_message_id item))], QuicContinue)"
    "session (pc_party st1) = Some sb'" "messages (pc_db st1) = messages (pc_db st) @ [row]" "mw_message_id row = pm_message_id item"
    "mw_conversation_id row = pcc_conversation_id cx" "mw_plaintext row = Some ?p" "pc_online st1 = pc_online st"
    by (rule quic_frame_stored [OF C _ Cons.prems(2) m(2)]) (use Cons.prems(6) in auto)
  have "message_exists mid (pc_db st1) \<longleftrightarrow> mid = pm_message_id item \<or> message_exists mid (pc_db st)" for mid
    using st1(3,4) by (auto simp: message_exists_iff)
  moreover have "pm_message_id x \<noteq> pm_message_id item" if "x \<in> set items" for x
    using Cons.prems(7) that by (metis distinct.simps(2) imageI list.set_map list.simps(9))
  ultimately have "\<forall>x \<in> set items. is_str (pm_plaintext x) \<and> \<not> message_exists (pm_message_id x) (pc_db st1)"
    using Cons.prems(6) by simp
  then obtain st' rows where rest: "quic_chat_run P K C cx evs' st1
      = (st', map (\<lambda>item. cc_frame C (FrameAck (pm_message_id item))) items, QuicContinue)"
    "messages (pc_db st') = messages (pc_db st1) @ rows" "map mw_message_id rows = map pm_message_id items"
    "map mw_plaintext rows = map (\<lambda>item. Some (pm_plaintext item)) items" "\<forall>row \<in> set rows. mw_conversation_id row = pcc_conversation_id cx"
    using Cons.IH [OF m(3) st1(2) _ ms(2) bound(2) _ _ evs(2)] Cons.prems(3,7) st1(7) by auto
  show ?case by (intro exI [of _ st'] exI [of _ "row # rows"]) (use rest st1 Cons.prems(3) in \<open>simp add: evs(1)\<close>)
qed (simp add: item_frames_def)

end

section \<open>The queue is delivered\<close>

definition item_acks :: "chat_codec \<Rightarrow> pending_peer_message list \<Rightarrow> bytes list" where
  "item_acks C items = map (\<lambda>item. cc_frame C (FrameAck (pm_message_id item))) items"

lemma flushed_queue_empty:
  assumes "map queue_key (pending_peer_messages s') = filter (\<lambda>q. fst q \<notin> pm_message_id ` set items) (map queue_key (pending_peer_messages s))"
    and "items = pending_peer_messages_for_peer pid s"
  shows "pending_peer_messages_for_peer pid s' = []"
proof -
  have "\<not> (\<exists>mid p. queued mid pid p s')"
  proof (intro notI, elim exE)
    fix mid p assume q: "queued mid pid p s'"
    then have "(mid, pid, p) \<in> set (filter (\<lambda>q. fst q \<notin> pm_message_id ` set items) (map queue_key (pending_peer_messages s)))"
      unfolding queued_key assms(1) [symmetric] by simp
    then have "queued mid pid p s" "mid \<notin> pm_message_id ` set items" by (auto simp: queued_key)
    then show False unfolding queued_listed assms(2) by blast
  qed
  then show ?thesis unfolding queued_listed by (cases "pending_peer_messages_for_peer pid s'") auto
qed

text \<open>
  C31: what Alice has queued for a peer that was away is delivered by the flush of a new connection: Bob's chat
  loop stores the messages exactly once each, with their texts and in order, its acknowledgements are what the flush
  waits for, and afterwards nothing is queued for the peer.
\<close>

theorem offline_queue_delivered:
  assumes "crypto_ok K" "chat_codec_ok C" "al_session a = Some sa" "bo_session (pc_party st) = Some sb" "in_step K i sa sb"
    and "pid = pending_peer_id_for_conversation K cid s" "items = pending_peer_messages_for_peer pid s" "i + length items < 2 ^ 64"
    and "\<forall>item \<in> set items. is_str (pm_plaintext item) \<and> \<not> message_exists (pm_message_id item) (pc_db st)"
    and "distinct (map pm_message_id items)" "pc_online st"
  shows "\<exists>frames s' a' rest st' rows. length frames = length items
    \<and> flush_pending_messages_to_bob K C now ln cid [] (map (\<lambda>ack. Received ack None) (item_acks C items)) a s = (s', a', frames, rest, Inr ())
    \<and> quic_chat_run bob_party K C cx (map (\<lambda>f. (now', random, QuicIncoming (Received f None))) frames) st = (st', item_acks C items, QuicContinue)
    \<and> pending_peer_messages_for_peer pid s' = [] \<and> messages (pc_db st') = messages (pc_db st) @ rows
    \<and> map mw_message_id rows = map pm_message_id items \<and> map mw_plaintext rows = map (\<lambda>item. Some (pm_plaintext item)) items
    \<and> (\<forall>row \<in> set rows. mw_conversation_id row = pcc_conversation_id cx)"
proof -
  have K: "hkdf_total K" "aead_correct K" using assms(1) by (simp_all add: crypto_ok_def)
  have C: "\<And>x. cc_frame_decode C (cc_frame C x) = Some x" using assms(2) by (simp add: chat_codec_ok_def)
  obtain ms where ms: "snd (encrypt_all K (map pm_plaintext items) sa) = map Inr ms" "length ms = length items"
    using encrypt_all_total [OF K, of "map pm_plaintext items" sa] by auto
  let ?frames = "item_frames C ln items ms"
  obtain s' a' rest where flush: "flush_loop alice_party K C now ln cid items [] (map (\<lambda>ack. Received ack None) (item_acks C items)) a s
      = (s', a', ?frames, rest, Inr ())"
    "map queue_key (pending_peer_messages s') = filter (\<lambda>q. fst q \<notin> pm_message_id ` set items) (map queue_key (pending_peer_messages s))"
    using alice_chat.flush_prefix [where late = "[]" and k = "length items" and s = s and cid = cid and now = now and ln = ln, OF C assms(3) ms(1)] ms(2)
    by (auto simp: item_frames_def item_acks_def comp_def)
  have evs: "map (\<lambda>(now, random, ev). ev) (map (\<lambda>f. (now', random, QuicIncoming (Received f None))) ?frames)
      = map (\<lambda>f. QuicIncoming (Received f None)) ?frames" by simp
  obtain st' rows where received: "quic_chat_run bob_party K C cx (map (\<lambda>f. (now', random, QuicIncoming (Received f None))) ?frames) st
      = (st', item_acks C items, QuicContinue)" "messages (pc_db st') = messages (pc_db st) @ rows" "map mw_message_id rows = map pm_message_id items"
    "map mw_plaintext rows = map (\<lambda>item. Some (pm_plaintext item)) items" "\<forall>row \<in> set rows. mw_conversation_id row = pcc_conversation_id cx"
    using bob_chat.queue_received [OF assms(1) C assms(5,4,11) ms(1) assms(8,9,10) evs] unfolding item_acks_def by blast
  show ?thesis
    unfolding flush_pending_messages_to_bob_def flush_pending_messages_def assms(6) [symmetric] assms(7) [symmetric]
    using flush(1) received flushed_queue_empty [OF flush(2) assms(7)] ms(2)
    by (intro exI [of _ ?frames] exI [of _ s'] exI [of _ a'] exI [of _ rest] exI [of _ st'] exI [of _ rows])
       (simp add: item_frames_def)
qed

theorem offline_queue_delivered_witness:
  "\<exists>frame ack s' a' rest st' row.
      flush_pending_messages_to_bob toy_crypto toy_chat_codec 5 ''me'' ''c'' [] [Received ack None] (pc_party (toy_alice_chat init_db))
        (init_db\<lparr>pending_peer_messages := [toy_waiting]\<rparr>) = (s', a', [frame], rest, Inr ())
    \<and> quic_chat_run bob_party toy_crypto toy_chat_codec toy_context [(7, [], QuicIncoming (Received frame None))] (toy_bob_chat init_db)
        = (st', [ack], QuicContinue)
    \<and> pending_peer_messages_for_peer ''c'' s' = [] \<and> messages (pc_db st') = [row] \<and> mw_plaintext row = Some ''hi''"
proof -
  let ?s = "init_db\<lparr>pending_peer_messages := [toy_waiting]\<rparr>" and ?item = "pending_peer_message_from_row toy_waiting"
  have peer: "''c'' = pending_peer_id_for_conversation toy_crypto ''c'' ?s"
    by (simp add: pending_peer_id_for_conversation_def load_known_peer_for_conversation_def known_peer_for_conversation_def
        load_contact_def select_one_def init_tables)
  have items: "[?item] = pending_peer_messages_for_peer ''c'' ?s"
    by (simp add: pending_peer_messages_for_peer_def select_order_by_def toy_waiting_def)
  have hi: "pm_plaintext ?item = ''hi''" by (simp add: pending_peer_message_from_row_def toy_waiting_def)
  have str: "is_str ''hi''" by code_simp
  have none: "messages init_db = []" by (simp add: init_db_def)
  have fresh: "\<forall>item \<in> set [?item]. is_str (pm_plaintext item) \<and> \<not> message_exists (pm_message_id item) (pc_db (toy_bob_chat init_db))"
    using str by (simp add: hi message_exists_iff none)
  have small: "0 + length [?item] < 2 ^ 64" and one: "distinct (map pm_message_id [?item])" by simp_all
  from offline_queue_delivered [OF toy_crypto_ok toy_chat_codec_ok toy_chat(1) [of init_db] toy_chat(3) fresh_link_in_step [OF toy_link]
      peer items small fresh one toy_chat(4), of 5 "''me''" toy_context 7 "[]"]
  obtain frames s' a' rest st' rows where r: "length frames = length [?item]"
    "flush_pending_messages_to_bob toy_crypto toy_chat_codec 5 ''me'' ''c'' [] (map (\<lambda>ack. Received ack None) (item_acks toy_chat_codec [?item]))
      (pc_party (toy_alice_chat init_db)) ?s = (s', a', frames, rest, Inr ())"
    "quic_chat_run bob_party toy_crypto toy_chat_codec toy_context (map (\<lambda>f. (7, [], QuicIncoming (Received f None))) frames)
      (toy_bob_chat init_db) = (st', item_acks toy_chat_codec [?item], QuicContinue)"
    "pending_peer_messages_for_peer ''c'' s' = []" "messages (pc_db st') = messages (pc_db (toy_bob_chat init_db)) @ rows"
    "map mw_plaintext rows = map (\<lambda>item. Some (pm_plaintext item)) [?item]" by blast
  obtain frame row where "frames = [frame]" "rows = [row]" using r(1,6) by (auto simp: length_Suc_conv)
  then show ?thesis using r none
    by (intro exI [of _ frame] exI [of _ "cc_frame toy_chat_codec (FrameAck (pm_message_id ?item))"] exI [of _ s'] exI [of _ a']
        exI [of _ rest] exI [of _ st'] exI [of _ row]) (simp add: item_acks_def hi del: quic_chat_run.simps)
qed

end
