(* ===== verification/SyncDemos.thy ===== *)
theory SyncDemos
  imports Text
begin

text \<open>
  The demonstrations of the synchronisation (\<^verbatim>\<open>run_sync_demo\<close>, \<^verbatim>\<open>run_crdt_demo\<close> and \<^verbatim>\<open>run_own_device_sync_demo\<close> of
  \<^verbatim>\<open>src/src/main.rs\<close>), as functions to what they print.  They work on databases in memory, whose statements
  do not fail; \<open>clock i\<close> is what the \<open>i\<close>-th reading of the clock gives.
\<close>

section \<open>Events for demonstrations\<close>

definition append_each :: "event_record list \<Rightarrow> db \<Rightarrow> db" where
  "append_each es s = fold (\<lambda>e u. fst (append_event (\<lambda>_. False) e u)) es s"

definition demo_sync_event :: "u64 \<Rightarrow> string \<Rightarrow> u64 \<Rightarrow> event_record" where
  "demo_sync_event now device_id counter =
     \<lparr>ev_device_id = device_id, ev_counter = counter, ev_conversation_id = ''demo-conversation'',
      ev_event_type = ''message'', ev_message_id = Some (device_id @ ''-'' @ show_nat (unat counter)),
      ev_payload = as_bytes (device_id @ '':'' @ show_nat (unat counter)), ev_created_at = now\<rparr>"

definition crdt_demo_event ::
    "(conversation_event \<Rightarrow> app_error + bytes) \<Rightarrow> string \<Rightarrow> string \<Rightarrow> u64 \<Rightarrow> conversation_event \<Rightarrow> app_error + event_record" where
  "crdt_demo_event enc conversation_id device_id counter event = mk_event_record enc conversation_id device_id counter event"

definition all_sync_events :: "db \<Rightarrow> string \<Rightarrow> event_record list" where
  "all_sync_events s conversation_id = missing_events_for conversation_id [] s"

definition event_positions :: "event_record list \<Rightarrow> string list" where
  "event_positions events = map (\<lambda>e. ev_device_id e @ '':'' @ show_nat (unat (ev_counter e))) events"

definition sync_event_positions :: "sync_event list \<Rightarrow> string list" where
  "sync_event_positions events = map (\<lambda>e. sy_device_id e @ '':'' @ show_nat (unat (sy_counter e))) events"

section \<open>Version vectors\<close>

record sync_demo_report =
  sdr_alice_start :: version_vector_map
  sdr_bob_start :: version_vector_map
  sdr_bob_sends :: "string list"
  sdr_alice_sends :: "string list"
  sdr_alice_final :: version_vector_map
  sdr_bob_final :: version_vector_map

definition run_sync_demo ::
    "(sync_event list \<Rightarrow> 'w) \<Rightarrow> ('w \<Rightarrow> sync_event list option) \<Rightarrow> (nat \<Rightarrow> u64) \<Rightarrow> app_error + sync_demo_report" where
  "run_sync_demo ser de clock =
     (let conversation_id = ''demo-conversation'';
          alice = append_each [demo_sync_event (clock 0) ''AliceDevice'' 1, demo_sync_event (clock 1) ''AliceDevice'' 2,
            demo_sync_event (clock 2) ''AliceDevice'' 3, demo_sync_event (clock 3) ''BobDevice'' 1] init_db;
          bob = append_each [demo_sync_event (clock 4) ''AliceDevice'' 1, demo_sync_event (clock 5) ''AliceDevice'' 2,
            demo_sync_event (clock 6) ''BobDevice'' 1, demo_sync_event (clock 7) ''BobDevice'' 2] init_db;
          alice_vector = version_vector conversation_id alice;
          bob_vector = version_vector conversation_id bob;
          bob_response = map sync_event_from (missing_events_for conversation_id alice_vector bob)
      in and_then (ok_or (de (ser bob_response)) AppCodec) (\<lambda>decoded_bob_response.
           let alice' = receive_events (map event_record_from decoded_bob_response) alice;
               alice_response = map sync_event_from (missing_events_for conversation_id bob_vector alice')
           in and_then (ok_or (de (ser alice_response)) AppCodec) (\<lambda>decoded_alice_response.
                let bob' = receive_events (map event_record_from decoded_alice_response) bob
                in Inr \<lparr>sdr_alice_start = alice_vector, sdr_bob_start = bob_vector,
                     sdr_bob_sends = sync_event_positions bob_response,
                     sdr_alice_sends = sync_event_positions alice_response,
                     sdr_alice_final = version_vector conversation_id alice',
                     sdr_bob_final = version_vector conversation_id bob'\<rparr>)))"

lemma sync_demo_report:
  assumes "\<And>x. de (ser x) = Some x"
  shows "run_sync_demo ser de clock = Inr \<lparr>sdr_alice_start = [(''AliceDevice'', 3), (''BobDevice'', 1)],
      sdr_bob_start = [(''AliceDevice'', 2), (''BobDevice'', 2)], sdr_bob_sends = [''BobDevice:2''],
      sdr_alice_sends = [''AliceDevice:3''], sdr_alice_final = [(''AliceDevice'', 3), (''BobDevice'', 2)],
      sdr_bob_final = [(''AliceDevice'', 3), (''BobDevice'', 2)]\<rparr>"
proof -
  have "run_sync_demo (\<lambda>x. x) Some clock = Inr \<lparr>sdr_alice_start = [(''AliceDevice'', 3), (''BobDevice'', 1)],
      sdr_bob_start = [(''AliceDevice'', 2), (''BobDevice'', 2)], sdr_bob_sends = [''BobDevice:2''],
      sdr_alice_sends = [''AliceDevice:3''], sdr_alice_final = [(''AliceDevice'', 3), (''BobDevice'', 2)],
      sdr_bob_final = [(''AliceDevice'', 3), (''BobDevice'', 2)]\<rparr>"
    by code_simp
  moreover have "run_sync_demo ser de clock = run_sync_demo (\<lambda>x. x) Some clock"
    by (simp add: run_sync_demo_def Let_def assms)
  ultimately show ?thesis by simp
qed

section \<open>Convergence\<close>

record crdt_demo_report =
  crd_alice_pre :: conversation_state
  crd_bob_pre :: conversation_state
  crd_alice_final :: conversation_state
  crd_bob_final :: conversation_state
  crd_converged :: bool

definition crdt_demo_exchange ::
    "(bytes \<Rightarrow> conversation_event option) \<Rightarrow> event_record \<Rightarrow> event_record \<Rightarrow> event_record \<Rightarrow> event_record \<Rightarrow> crdt_demo_report" where
  "crdt_demo_exchange dec create alice_reaction bob_reaction bob_read =
     (let conversation_id = ''crdt-demo-conversation'';
          alice = append_each [alice_reaction, create] init_db;
          bob = append_each [bob_read, bob_reaction, create] init_db;
          bob_to_alice = missing_events_for conversation_id (version_vector conversation_id alice) bob;
          alice_to_bob = missing_events_for conversation_id (version_vector conversation_id bob) alice;
          alice' = receive_events bob_to_alice alice;
          bob' = receive_events alice_to_bob bob;
          alice_state = materialize_conversation dec (all_sync_events alice' conversation_id);
          bob_state = materialize_conversation dec (all_sync_events bob' conversation_id)
      in \<lparr>crd_alice_pre = materialize_conversation dec (all_sync_events alice conversation_id),
          crd_bob_pre = materialize_conversation dec (all_sync_events bob conversation_id),
          crd_alice_final = alice_state, crd_bob_final = bob_state, crd_converged = (alice_state = bob_state)\<rparr>)"

definition run_crdt_demo ::
    "(conversation_event \<Rightarrow> app_error + bytes) \<Rightarrow> (bytes \<Rightarrow> conversation_event option) \<Rightarrow> app_error + crdt_demo_report" where
  "run_crdt_demo enc dec =
     (let conversation_id = ''crdt-demo-conversation''
      in and_then (crdt_demo_event enc conversation_id ''AliceDevice'' 1
           (MessageCreated ''message-1'' ''alice'' (as_bytes ''hello converged bob''))) (\<lambda>create.
         and_then (crdt_demo_event enc conversation_id ''AliceDevice'' 2 (ReactionAdded ''message-1'' ''+1'' ''alice'')) (\<lambda>alice_reaction.
         and_then (crdt_demo_event enc conversation_id ''BobDevice'' 1 (ReactionAdded ''message-1'' ''<3'' ''bob'')) (\<lambda>bob_reaction.
         and_then (crdt_demo_event enc conversation_id ''BobDevice'' 2 (ReadAdvanced ''bob'' ''AliceDevice'' 2)) (\<lambda>bob_read.
           Inr (crdt_demo_exchange dec create alice_reaction bob_reaction bob_read))))))"

definition event_codec_ok :: "(conversation_event \<Rightarrow> app_error + bytes) \<Rightarrow> (bytes \<Rightarrow> conversation_event option) \<Rightarrow> bool" where
  "event_codec_ok enc dec \<longleftrightarrow> (\<forall>e. \<exists>bs. enc e = Inr bs \<and> dec bs = Some e)"

text \<open>The demonstration with any payloads: both sides end with the same list of events.\<close>

definition crdt_demo_rows :: "bytes \<Rightarrow> bytes \<Rightarrow> bytes \<Rightarrow> bytes \<Rightarrow> event_record list" where
  "crdt_demo_rows b1 b2 b3 b4 =
     (let ev = (\<lambda>d n ty mid bs. \<lparr>ev_device_id = d, ev_counter = n, ev_conversation_id = ''crdt-demo-conversation'',
        ev_event_type = ty, ev_message_id = mid, ev_payload = bs, ev_created_at = 0\<rparr>)
      in [ev ''AliceDevice'' 1 ''MessageCreated'' (Some ''message-1'') b1, ev ''AliceDevice'' 2 ''ReactionAdded'' (Some ''message-1'') b2,
          ev ''BobDevice'' 1 ''ReactionAdded'' (Some ''message-1'') b3, ev ''BobDevice'' 2 ''ReadAdvanced'' None b4])"

definition crdt_demo_logs :: "event_record list \<Rightarrow> event_record list \<times> event_record list \<times> event_record list \<times> event_record list" where
  "crdt_demo_logs rows =
     (let c = ''crdt-demo-conversation'';
          alice = append_each [rows ! 1, rows ! 0] init_db; bob = append_each [rows ! 3, rows ! 2, rows ! 0] init_db
      in (all_sync_events alice c, all_sync_events bob c,
          all_sync_events (receive_events (missing_events_for c (version_vector c alice) bob) alice) c,
          all_sync_events (receive_events (missing_events_for c (version_vector c bob) alice) bob) c))"

lemma crdt_demo_logs: "crdt_demo_logs (crdt_demo_rows b1 b2 b3 b4) = (let r = crdt_demo_rows b1 b2 b3 b4 in
    (take 2 r, [r ! 0, r ! 2, r ! 3], r, r))"
  by code_simp

lemma crdt_demo_exchange_logs:
  "crdt_demo_exchange dec (rows ! 0) (rows ! 1) (rows ! 2) (rows ! 3) = (case crdt_demo_logs rows of (a, b, a', b') \<Rightarrow>
     \<lparr>crd_alice_pre = materialize_conversation dec a, crd_bob_pre = materialize_conversation dec b,
      crd_alice_final = materialize_conversation dec a', crd_bob_final = materialize_conversation dec b',
      crd_converged = (materialize_conversation dec a' = materialize_conversation dec b')\<rparr>)"
  by (simp add: crdt_demo_exchange_def crdt_demo_logs_def Let_def)

definition crdt_demo_final :: conversation_state where
  "crdt_demo_final = \<lparr>st_messages = [(''message-1'', \<lparr>ms_message_id = ''message-1'', ms_author_id = ''alice'',
       ms_payload = as_bytes ''hello converged bob'', ms_deleted = False,
       ms_reactions = [VisibleReaction ''+1'' ''alice'' (ReactionAddId ''AliceDevice'' 2),
         VisibleReaction ''<3'' ''bob'' (ReactionAddId ''BobDevice'' 1)]\<rparr>)],
     st_tombstones = [], st_read_frontiers = [(''bob'', [(''AliceDevice'', 2)])]\<rparr>"

lemma crdt_demo_converges:
  assumes "event_codec_ok enc dec"
  shows "\<exists>report. run_crdt_demo enc dec = Inr report \<and> crd_alice_final report = crdt_demo_final
    \<and> crd_bob_final report = crdt_demo_final \<and> crd_converged report"
proof -
  have "\<exists>b. enc e = Inr b \<and> dec b = Some e" for e using assms by (simp add: event_codec_ok_def)
  then obtain b where b: "enc e = Inr (b e)" "dec (b e) = Some e" for e by metis
  let ?create = "MessageCreated ''message-1'' ''alice'' (as_bytes ''hello converged bob'')"
  let ?b1 = "b ?create" and ?b2 = "b (ReactionAdded ''message-1'' ''+1'' ''alice'')"
  let ?b3 = "b (ReactionAdded ''message-1'' ''<3'' ''bob'')" and ?b4 = "b (ReadAdvanced ''bob'' ''AliceDevice'' 2)"
  define rows where "rows = crdt_demo_rows ?b1 ?b2 ?b3 ?b4"
  have "run_crdt_demo enc dec = Inr (crdt_demo_exchange dec (rows ! 0) (rows ! 1) (rows ! 2) (rows ! 3))"
    by (simp add: run_crdt_demo_def Let_def crdt_demo_event_def mk_event_record_def b rows_def crdt_demo_rows_def numeral_eq_Suc)
  moreover have "crdt_demo_logs rows = (take 2 rows, [rows ! 0, rows ! 2, rows ! 3], rows, rows)"
    unfolding rows_def crdt_demo_logs by (simp add: Let_def)
  moreover have "materialize_conversation dec rows = crdt_demo_final"
    by (simp add: rows_def crdt_demo_rows_def Let_def materialize_conversation_def process_record_def b)
       (code_simp)
  ultimately show ?thesis unfolding crdt_demo_exchange_logs by simp
qed

section \<open>Two devices of one account\<close>

text \<open>The keys a demonstration with an account, its two devices and, where it has one, Bob's device generates.\<close>

record account_keys =
  ak_account_secret :: bytes
  ak_laptop_secret :: bytes
  ak_laptop_private :: bytes
  ak_phone_secret :: bytes
  ak_phone_private :: bytes
  ak_bob_secret :: bytes
  ak_bob_private :: bytes

definition demo_account :: "crypto \<Rightarrow> account_keys \<Rightarrow> account_identity" where
  "demo_account K keys = account_generate K (ak_account_secret keys)"

definition demo_laptop :: "crypto \<Rightarrow> account_keys \<Rightarrow> device_identity" where
  "demo_laptop K keys = device_generate K (ak_laptop_secret keys) (ak_laptop_private keys) (acc_account_id (demo_account K keys))"

definition demo_phone :: "crypto \<Rightarrow> account_keys \<Rightarrow> device_identity" where
  "demo_phone K keys = device_generate K (ak_phone_secret keys) (ak_phone_private keys) (acc_account_id (demo_account K keys))"

definition demo_account_key :: "crypto \<Rightarrow> account_keys \<Rightarrow> bytes" where
  "demo_account_key K keys = ik_public_key K (acc_identity (demo_account K keys))"

record own_sync_report =
  osr_laptop_start :: version_vector_map
  osr_phone_start :: version_vector_map
  osr_left_to_right :: "string list"
  osr_right_to_left :: "string list"
  osr_duplicates :: nat
  osr_laptop_final :: version_vector_map
  osr_phone_final :: version_vector_map
  osr_match :: bool

definition laptop_event ::
    "(conversation_event \<Rightarrow> app_error + bytes) \<Rightarrow> string \<Rightarrow> string \<Rightarrow> string \<Rightarrow> u64 \<Rightarrow> app_error + event_record" where
  "laptop_event enc conversation_id device_id account_id counter =
     crdt_demo_event enc conversation_id device_id counter
       (MessageCreated (''laptop-message-'' @ show_nat (unat counter)) account_id (as_bytes (''laptop event '' @ show_nat (unat counter))))"

definition own_sync_report_for ::
    "crypto \<Rightarrow> (sync_event list \<Rightarrow> 'w) \<Rightarrow> ('w \<Rightarrow> sync_event list option) \<Rightarrow> (bytes \<Rightarrow> conversation_event option)
      \<Rightarrow> bytes \<Rightarrow> device_certificate \<Rightarrow> device_certificate \<Rightarrow> string \<Rightarrow> db \<Rightarrow> db \<Rightarrow> app_error + own_sync_report" where
  "own_sync_report_for K ser de dec account_public_key laptop_certificate phone_certificate conversation_id laptop phone =
     (case sync_authorized_sibling_devices K ser de no_failures no_failures account_public_key laptop_certificate
             phone_certificate [] conversation_id laptop phone of
        (laptop', phone', Inl e) \<Rightarrow> Inl e
      | (laptop', phone', Inr (left_to_right, right_to_left)) \<Rightarrow>
          (case append_events no_failures left_to_right phone' of
             (phone'', Inl e) \<Rightarrow> Inl (AppStorage e)
           | (phone'', Inr duplicate_inserted) \<Rightarrow>
               Inr \<lparr>osr_laptop_start = version_vector conversation_id laptop, osr_phone_start = version_vector conversation_id phone,
                    osr_left_to_right = event_positions left_to_right, osr_right_to_left = event_positions right_to_left,
                    osr_duplicates = duplicate_inserted,
                    osr_laptop_final = version_vector conversation_id laptop', osr_phone_final = version_vector conversation_id phone'',
                    osr_match = (materialize_conversation dec (all_sync_events laptop' conversation_id)
                      = materialize_conversation dec (all_sync_events phone'' conversation_id))\<rparr>))"

definition run_own_device_sync_demo ::
    "crypto \<Rightarrow> (sync_event list \<Rightarrow> 'w) \<Rightarrow> ('w \<Rightarrow> sync_event list option) \<Rightarrow> (conversation_event \<Rightarrow> app_error + bytes)
      \<Rightarrow> (bytes \<Rightarrow> conversation_event option) \<Rightarrow> account_keys \<Rightarrow> app_error + own_sync_report" where
  "run_own_device_sync_demo K ser de enc dec keys =
     (let conversation_id = ''alice-own-device-sync'';
          account = demo_account K keys; laptop_device = demo_laptop K keys; phone_device = demo_phone K keys;
          laptop_certificate = authorize_device K account laptop_device;
          phone_certificate = authorize_device K account phone_device;
          laptop_id = dev_device_id laptop_device
      in case verify_authorized_sibling_devices K (demo_account_key K keys) laptop_certificate phone_certificate of
           Inl e \<Rightarrow> Inl (AppCrypto e)
         | Inr _ \<Rightarrow>
           and_then (laptop_event enc conversation_id laptop_id (acc_account_id account) 1) (\<lambda>event1.
           and_then (laptop_event enc conversation_id laptop_id (acc_account_id account) 2) (\<lambda>event2.
           and_then (laptop_event enc conversation_id laptop_id (acc_account_id account) 3) (\<lambda>event3.
           and_then (crdt_demo_event enc conversation_id (dev_device_id phone_device) 1
               (MessageCreated ''phone-message-1'' (acc_account_id account) (as_bytes ''phone event 1''))) (\<lambda>phone_reply.
             own_sync_report_for K ser de dec (demo_account_key K keys) laptop_certificate phone_certificate conversation_id
               (append_each [event1, event2, event3] init_db) (append_each [event1, phone_reply] init_db))))))"

lemma demo_certificates:
  assumes "sig_correct K"
  shows "verify_device_certificate K (demo_account_key K keys) (authorize_device K (demo_account K keys) d) = Inr ()"
    "verify_device_revocation K (demo_account_key K keys) (revoke_device K (demo_account K keys) i n) = Inr ()"
  unfolding demo_account_key_def demo_account_def by (rule account_generate_verifies [OF assms])+

lemma certificate_ids [simp]:
  "crt_account_id (authorize_device K a d) = acc_account_id a" "crt_device_id (authorize_device K a d) = dev_device_id d"
  "crt_x25519_public_key (authorize_device K a d) = xk_public (dev_x25519 d)"
  by (simp_all add: authorize_device_def Let_def)

lemma append_each_ok: "db_ok (append_each es init_db)"
  unfolding append_each_def receive_events_fold [symmetric] receive_events_def by (rule db_ok_receive [OF init_db_ok])

lemma all_events_append_each:
  assumes "inj_on ev_position (set es)"
  shows "all_events (append_each es init_db) = set es"
proof -
  have "all_events init_db = {}" by (simp add: all_events_def init_db_def)
  with assms show ?thesis
    using all_events_receive [of init_db es] init_db_ok by (simp add: append_each_def receive_events_fold [symmetric] compatible_def db_ok_def)
qed

text \<open>Events a replica has are not inserted again.\<close>

lemma append_known:
  assumes "db_ok s" "set es \<subseteq> all_events s"
  shows "\<exists>t. append_events no_failures es s = (t, Inr 0) \<and> all_events t = all_events s \<and> db_ok t"
proof -
  have "\<exists>t. append_events_from no_failures i 0 es s = (t, Inr 0) \<and> all_events t = all_events s \<and> db_ok t" for i
    using assms
  proof (induction es arbitrary: i s)
    case (Cons e es)
    define u where "u = fst (append_event (\<lambda>_. False) e s)"
    have enc: "events_encoded s" using Cons.prems(1) by (simp add: db_ok_def)
    have pos: "ev_position e \<in> ev_position ` all_events s" using Cons.prems(2) by auto
    then have same: "all_events u = all_events s" using all_events_append_event [OF enc] by (simp add: u_def)
    have "db_ok u" using db_ok_receive [OF Cons.prems(1), of no_failures "[e]"]
      by (simp add: append_events_def append_event_ok u_def)
    moreover have "append_event (\<lambda>_. False) e s = (u, Inr False)"
      using has_position_iff [OF enc, of e] pos by (simp add: append_event_ok u_def)
    ultimately show ?case using Cons.IH [of u "Suc i"] Cons.prems(2) same by simp
  qed simp
  then show ?thesis by (simp add: append_events_def)
qed

text \<open>What is missing is listed in the order of positions, each event once.\<close>

lemma missing_events_sorted:
  assumes "db_ok s"
  shows "sorted (map (\<lambda>e. ew_key (event_to_row e)) (missing_events_for c v s))"
    "distinct (map (\<lambda>e. ew_key (event_to_row e)) (missing_events_for c v s))"
proof -
  let ?rows = "select_order_by ew_key (\<lambda>r. ew_conversation_id r = c) (event_history s)"
  have enc: "event_to_row (event_from_row r) = r" if "r \<in> set ?rows" for r
    using assms that by (auto simp: db_ok_def events_encoded_def)
  have "distinct (map ew_key (event_history s))" using assms by (simp add: db_ok_def keys_ok_def pk_ok_def)
  then have "distinct (map ew_key ?rows)" "sorted (map ew_key ?rows)"
    by (simp_all add: select_order_by_def distinct_map inj_on_def)
  moreover have "map (\<lambda>e. ew_key (event_to_row e)) (map event_from_row ?rows) = map ew_key ?rows"
    unfolding map_map by (rule map_cong) (use enc in simp_all)
  ultimately have "sorted (map (\<lambda>e. ew_key (event_to_row e)) (map event_from_row ?rows))"
    "distinct (map (\<lambda>e. ew_key (event_to_row e)) (map event_from_row ?rows))" by (simp_all only:)
  then show "sorted (map (\<lambda>e. ew_key (event_to_row e)) (missing_events_for c v s))"
    "distinct (map (\<lambda>e. ew_key (event_to_row e)) (missing_events_for c v s))"
    unfolding missing_events_for_def by (simp_all add: sorted_filter distinct_map_filter)
qed

lemma missing_events_list:
  assumes "db_ok s" "set (missing_events_for c v s) = set es"
    and "sorted (map (\<lambda>e. ew_key (event_to_row e)) es)" "distinct (map (\<lambda>e. ew_key (event_to_row e)) es)"
  shows "missing_events_for c v s = es"
proof -
  have "inj_on (\<lambda>e. ew_key (event_to_row e)) (set es)" using assms(4) by (simp add: distinct_map)
  then show ?thesis using missing_events_sorted [OF assms(1), of c v] assms(2-)
    by (intro map_sorted_distinct_set_unique [of "\<lambda>e. ew_key (event_to_row e)"]) simp_all
qed

definition own_events :: "string \<Rightarrow> string \<Rightarrow> string \<Rightarrow> event_record \<Rightarrow> event_record \<Rightarrow> event_record \<Rightarrow> event_record \<Rightarrow> bool" where
  "own_events c L P e1 e2 e3 r \<longleftrightarrow> L \<noteq> P \<and> map ev_position [e1, e2, e3, r] = [(L, 1), (L, 2), (L, 3), (P, 1)]
     \<and> (\<forall>e \<in> {e1, e2, e3, r}. ev_conversation_id e = c)"

lemmas append_each_eval = append_each_def append_event_ok init_db_def refresh_vector_for_device_def stmt_insert_event_def
  insert_or_ignore_def event_to_row_def ew_key_def select_order_by_def has_key_def as_i64_def upsert_def vv_key_def Let_def as_u64_def

lemma own_vectors:
  assumes "own_events c L P e1 e2 e3 r"
  shows "version_vectors (append_each [e1, r] init_db) = [\<lparr>vv_conversation_id = c, vv_device_id = L, vv_contiguous_counter = 1\<rparr>,
       \<lparr>vv_conversation_id = c, vv_device_id = P, vv_contiguous_counter = 1\<rparr>]"
    "version_vectors (append_each [e1, e2, e3] init_db) = [\<lparr>vv_conversation_id = c, vv_device_id = L, vv_contiguous_counter = 3\<rparr>]"
  using assms by (simp_all add: own_events_def ev_position_def append_each_eval)

lemma vector_of_row:
  assumes "db_ok s" "\<lparr>vv_conversation_id = c, vv_device_id = d, vv_contiguous_counter = k\<rparr> \<in> set (version_vectors s)"
  shows "bt_get (version_vector c s) d = Some (as_u64 k)"
  using version_vector_lookup [OF _ assms(2)] assms(1) by (simp add: db_ok_def)

lemma own_exchange:
  assumes "own_events c L P e1 e2 e3 r" "\<And>x. de (ser x) = Some x"
  defines "laptop \<equiv> append_each [e1, e2, e3] init_db" and "phone \<equiv> append_each [e1, r] init_db"
  shows "\<exists>laptop' phone'. exchange_events ser de no_failures no_failures c laptop phone = (laptop', phone', Inr ([e2, e3], [r]))
    \<and> missing_events_for c [] laptop' = missing_events_for c [] phone' \<and> db_ok laptop' \<and> db_ok phone'
    \<and> all_events phone' = {e1, e2, e3, r}"
proof -
  note own = assms(1) [unfolded own_events_def ev_position_def, simplified]
  have ok: "db_ok laptop" "db_ok phone" by (simp_all add: laptop_def phone_def append_each_ok)
  have evs: "all_events laptop = {e1, e2, e3}" "all_events phone = {e1, r}"
    using own by (auto simp: laptop_def phone_def ev_position_def inj_on_def intro!: all_events_append_each [THEN trans])
  have inj: "inj_on ev_position (all_events laptop \<union> all_events phone)"
    using own unfolding evs by (auto simp: inj_on_def ev_position_def)
  define phone' where "phone' = storage_replica.pull c phone laptop"
  define laptop' where "laptop' = storage_replica.pull c laptop phone'"
  note run = exchange_outcome [OF ok inj, of de ser, OF assms(2), of c, folded phone'_def, folded laptop'_def]
  have p: "bt_get (version_vector c phone) L = Some 1"
    using vector_of_row [OF ok(2), of c L 1] own_vectors(1) [OF assms(1)] by (simp add: phone_def as_u64_def)
  have l1: "bt_get (version_vector c laptop) L = Some 3"
    using vector_of_row [OF ok(1), of c L 3] own_vectors(2) [OF assms(1)] by (simp add: laptop_def as_u64_def)
  have l2: "bt_get (version_vector c laptop) P = None"
  proof (rule ccontr)
    assume "bt_get (version_vector c laptop) P \<noteq> None"
    then obtain k where "bt_get (version_vector c laptop) P = Some k" by blast
    from bt_get_version_vector [OF this] show False
      using own_vectors(2) [OF assms(1)] assms(1) by (auto simp: laptop_def own_events_def)
  qed
  have left: "missing_events_for c (version_vector c phone) laptop = [e2, e3]"
    by (rule missing_events_list [OF ok(1)])
       (use own p in \<open>auto simp: set_missing_events_for evs ew_key_event_to_row as_i64_def\<close>)
  have phone': "phone' = receive_events [e2, e3] phone" by (simp add: phone'_def storage_replica.pull_def left)
  have all: "all_events phone' = {e1, e2, e3, r}"
    unfolding phone' using all_events_receive [of phone "[e2, e3]"] ok(2) own
    by (auto simp: db_ok_def evs compatible_def inj_on_def ev_position_def)
  have "missing_events_for c (version_vector c laptop) phone' = [r]"
    by (rule missing_events_list [OF run(5)]) (use own l1 l2 in \<open>auto simp: set_missing_events_for all\<close>)
  with run all show ?thesis by (simp add: left)
qed


lemma demo_event_ok:
  assumes "event_codec_ok enc dec"
  shows "\<exists>r. crdt_demo_event enc c d n e = Inr r \<and> ev_position r = (d, n) \<and> ev_conversation_id r = c"
proof -
  obtain bs where "enc e = Inr bs" using assms unfolding event_codec_ok_def by blast
  then show ?thesis by (simp add: crdt_demo_event_def mk_event_record_def ev_position_def)
qed

lemma own_device_sync_succeeds:
  assumes "sig_correct K" "\<And>x. de (ser x) = Some x" "event_codec_ok enc dec"
    and "dev_device_id (demo_laptop K keys) \<noteq> dev_device_id (demo_phone K keys)"
  shows "\<exists>report. run_own_device_sync_demo K ser de enc dec keys = Inr report
    \<and> osr_left_to_right report = [dev_device_id (demo_laptop K keys) @ '':2'', dev_device_id (demo_laptop K keys) @ '':3'']
    \<and> osr_right_to_left report = [dev_device_id (demo_phone K keys) @ '':1'']
    \<and> osr_duplicates report = 0 \<and> osr_match report"
proof -
  let ?c = "''alice-own-device-sync''" and ?L = "dev_device_id (demo_laptop K keys)" and ?P = "dev_device_id (demo_phone K keys)"
  let ?acc = "acc_account_id (demo_account K keys)" and ?pk = "demo_account_key K keys"
  let ?lc = "authorize_device K (demo_account K keys) (demo_laptop K keys)" and ?pc = "authorize_device K (demo_account K keys) (demo_phone K keys)"
  note event = demo_event_ok [OF assms(3), of ?c]
  obtain e1 e2 e3 r where e: "laptop_event enc ?c ?L ?acc 1 = Inr e1" "laptop_event enc ?c ?L ?acc 2 = Inr e2" "laptop_event enc ?c ?L ?acc 3 = Inr e3"
    "crdt_demo_event enc ?c ?P 1 (MessageCreated ''phone-message-1'' ?acc (as_bytes ''phone event 1'')) = Inr r"
    and own: "own_events ?c ?L ?P e1 e2 e3 r"
    using event assms(4) unfolding laptop_event_def own_events_def by (simp (no_asm_use)) meson
  let ?laptop = "append_each [e1, e2, e3] init_db" and ?phone = "append_each [e1, r] init_db"
  obtain laptop' phone' where x: "exchange_events ser de no_failures no_failures ?c ?laptop ?phone = (laptop', phone', Inr ([e2, e3], [r]))"
    "missing_events_for ?c [] laptop' = missing_events_for ?c [] phone'" "db_ok laptop'" "db_ok phone'" "all_events phone' = {e1, e2, e3, r}"
    using own_exchange [OF own, of de ser, OF assms(2)] by blast
  have ver: "verify_device_certificate K ?pk ?lc = Inr ()" "verify_device_certificate K ?pk ?pc = Inr ()"
    using demo_certificates [OF assms(1)] by simp_all
  have sib: "verify_authorized_sibling_devices K ?pk ?lc ?pc = Inr ()" using ver assms(4) by (simp add: verify_authorized_sibling_devices_def)
  have sync: "sync_authorized_sibling_devices K ser de no_failures no_failures ?pk ?lc ?pc [] ?c ?laptop ?phone = (laptop', phone', Inr ([e2, e3], [r]))"
    using ver sib x(1) by (simp add: sync_authorized_sibling_devices_def is_device_currently_authorized_def)
  obtain t where t: "append_events no_failures [e2, e3] phone' = (t, Inr 0)" "all_events t = all_events phone'" "db_ok t"
    using append_known [OF x(4), of "[e2, e3]"] x(5) by auto
  have "missing_events_for ?c [] t = missing_events_for ?c [] laptop'"
    using log_determined [OF t(3) x(4), of ?c] t(2) x(2) by simp
  then have same: "materialize_conversation dec (all_sync_events laptop' ?c) = materialize_conversation dec (all_sync_events t ?c)"
    by (simp add: all_sync_events_def)
  have d: "show_nat 1 = ''1''" "show_nat (Suc 0) = ''1''" "show_nat 2 = ''2''" "show_nat 3 = ''3''" by code_simp+
  have pos: "event_positions [e2, e3] = [?L @ '':2'', ?L @ '':3'']" "event_positions [r] = [?P @ '':1'']"
    using own by (simp_all add: own_events_def event_positions_def ev_position_def d)
  show ?thesis
    by (simp add: run_own_device_sync_demo_def Let_def sib e own_sync_report_for_def sync t(1) pos same)
qed

end
