(* ===== verification/MessageDemos.thy ===== *)
theory MessageDemos
  imports ChatStore
begin

text \<open>
  The demonstrations of the message path (\<^verbatim>\<open>run_local_demo\<close>, \<^verbatim>\<open>run_restart_demo\<close>, \<^verbatim>\<open>run_outbox_demo\<close>
  and \<^verbatim>\<open>run_invite_demo\<close> of \<^verbatim>\<open>src/src/main.rs\<close>), as functions from the fresh endpoints
  \<^verbatim>\<open>Alice::local()\<close> and \<^verbatim>\<open>Bob::local()\<close> to what they print.  The database works on a local file whose statements
  do not fail; \<open>clock i\<close> is the time of the \<open>i\<close>-th step.
\<close>

section \<open>Steps the demonstrations share\<close>

text \<open>The \<^verbatim>\<open>?\<close> operator on a \<^verbatim>\<open>CryptoError\<close> and on the result of a transaction.\<close>

definition crypto_result :: "crypto_error + 'a \<Rightarrow> app_error + 'a" where
  "crypto_result r = (case r of Inl e \<Rightarrow> Inl (AppCrypto e) | Inr x \<Rightarrow> Inr x)"

definition stored :: "db \<times> (storage_error + unit) \<Rightarrow> app_error + db" where
  "stored p = (case p of (s, Inl e) \<Rightarrow> Inl (AppStorage e) | (s, Inr _) \<Rightarrow> Inr s)"

lemma demo_results [simp]:
  "crypto_result (Inr x) = Inr x" "crypto_result (Inl e) = Inl (AppCrypto e)" "stored (s, Inr u) = Inr s"
  by (simp_all add: crypto_result_def stored_def)

definition exchange_keys :: "crypto \<Rightarrow> alice \<Rightarrow> bob \<Rightarrow> app_error + alice \<times> bob" where
  "exchange_keys K alice bob =
     (let alice_exchange = alice_signed_key_exchange K alice; bob_exchange = bob_signed_key_exchange K bob
      in and_then (crypto_result (alice_derive_session_key K bob_exchange alice)) (\<lambda>alice'.
         and_then (crypto_result (bob_derive_session_key K alice_exchange bob)) (\<lambda>bob'.
           Inr (alice', bob'))))"

definition demo_message_record ::
    "string \<Rightarrow> string \<Rightarrow> message_direction \<Rightarrow> message_status \<Rightarrow> ratchet_message \<Rightarrow> bytes \<Rightarrow> string \<Rightarrow> u64 \<Rightarrow> message_record" where
  "demo_message_record message_id conversation_id direction status message ciphertext plaintext now =
     \<lparr>mr_message_id = message_id, mr_conversation_id = conversation_id, mr_sender_id = ''alice'', mr_recipient_id = ''bob'',
      mr_direction = direction, mr_status = status, mr_protocol_counter = Some (rm_number message),
      mr_ciphertext = ciphertext, mr_plaintext = Some plaintext, mr_created_at = now\<rparr>"

section \<open>The local demonstration\<close>

text \<open>Both decrypted texts: over the exchanged keys, and of the initial message that waits for Bob.\<close>

definition run_local_demo ::
    "crypto \<Rightarrow> alice \<Rightarrow> bob \<Rightarrow> bob \<Rightarrow> alice \<Rightarrow> bytes \<Rightarrow> app_error + string \<times> string" where
  "run_local_demo K alice bob offline_bob alice2 initial_private =
     and_then (exchange_keys K alice bob) (\<lambda>(alice', bob').
     and_then (crypto_result (snd (encrypt_for_bob K ''hello bob, this is alice'' alice'))) (\<lambda>ciphertext.
     and_then (crypto_result (snd (decrypt_from_alice K ciphertext bob'))) (\<lambda>plaintext.
       case publish_bob_bundle K offline_bob None of (directory, published) \<Rightarrow>
     and_then (crypto_result published) (\<lambda>_.
     and_then (crypto_result (snd (take_bob_prekey_bundle directory))) (\<lambda>bob_bundle.
     and_then (crypto_result (snd (encrypt_initial_message K initial_private bob_bundle ''hello offline bob'' alice2))) (\<lambda>initial_message.
     and_then (crypto_result (snd (decrypt_initial_message K initial_message offline_bob))) (\<lambda>offline_plaintext.
       Inr (plaintext, offline_plaintext))))))))"

definition local_endpoints :: "crypto \<Rightarrow> alice \<Rightarrow> bob \<Rightarrow> bool" where
  "local_endpoints K alice bob \<longleftrightarrow> (\<exists>s p. alice = alice_local K s p) \<and> (\<exists>s p k o1. bob = bob_local K s p k o1)"

lemma local_endpointsD:
  assumes "local_endpoints K alice bob"
  shows "al_keys alice = from_private_bytes K (xk_private (al_keys alice))"
    "bo_keys bob = from_private_bytes K (xk_private (bo_keys bob))" "bob_wf K bob" "\<exists>bundle. bob_prekey_bundle K bob = Inr bundle"
  using assms by (auto simp: local_endpoints_def alice_local_def bob_local_def from_private_bytes_def bob_wf_def
      bob_prekey_bundle_def Let_def)

text \<open>Alice and Bob with a common session in which Bob has received the \<open>i\<close> messages Alice has sent.\<close>

definition chat_ready :: "crypto \<Rightarrow> nat \<Rightarrow> alice \<Rightarrow> bob \<Rightarrow> bool" where
  "chat_ready K i a b \<longleftrightarrow> (\<exists>sa sb. al_session a = Some sa \<and> bo_session b = Some sb \<and> in_step K i sa sb \<and> session_wf K sa)
     \<and> al_keys a = from_private_bytes K (xk_private (al_keys a)) \<and> bob_wf K b"

lemma exchange_keys_ok:
  assumes "crypto_ok K" "sig_correct K" "local_endpoints K alice bob"
  obtains a b where "exchange_keys K alice bob = Inr (a, b)" "chat_ready K 0 a b"
proof -
  have K: "hkdf_total K" "dh_agrees K" using assms(1) by (simp_all add: crypto_ok_def)
  obtain sa sb where "alice_derive_session_key K (bob_signed_key_exchange K bob) alice = Inr (alice\<lparr>al_session := Some sa\<rparr>)"
    "bob_derive_session_key K (alice_signed_key_exchange K alice) bob = Inr (bob\<lparr>bo_session := Some sb\<rparr>)"
    "fresh_link sa sb" "session_wf K sa" "session_wf K sb"
    by (rule key_exchange_sessions [OF K assms(2) local_endpointsD(1,2) [OF assms(3)]])
  then show ?thesis using local_endpointsD [OF assms(3)] fresh_link_in_step
    by (intro that [of "alice\<lparr>al_session := Some sa\<rparr>" "bob\<lparr>bo_session := Some sb\<rparr>"])
       (auto simp: exchange_keys_def chat_ready_def bob_wf_def)
qed

text \<open>One more message from Alice to Bob.\<close>

lemma next_alice_message:
  assumes "crypto_ok K" "chat_ready K i a b" "Suc i < 2 ^ 64" "is_str p"
  obtains a' b' m where "encrypt_for_bob K p a = (a', Inr m)" "decrypt_from_alice K m b = (b', Inr p)"
    "chat_ready K (Suc i) a' b'" "rm_number m = of_nat i"
proof -
  obtain sa sb where s: "al_session a = Some sa" "bo_session b = Some sb" "in_step K i sa sb" "session_wf K sa"
    using assms(2) by (auto simp: chat_ready_def)
  obtain sa' sb' m where m: "ratchet_encrypt K p sa = (sa', Inr m)" "ratchet_decrypt K m sb = (sb', Inr p)"
    "in_step K (Suc i) sa' sb'" "rm_number m = of_nat i" by (rule next_message [OF assms(1) s(3) assms(3,4)])
  have "session_wf K sb" using assms(2) s(2) by (auto simp: chat_ready_def bob_wf_def)
  then have "session_wf K sa'" "session_wf K sb'" using wf_encrypt [OF s(4), of p] wf_decrypt [of K sb m] m(1,2) by simp_all
  then show ?thesis using m s assms(2)
    by (intro that [of "a\<lparr>al_session := Some sa'\<rparr>" m "b\<lparr>bo_session := Some sb'\<rparr>"])
       (auto simp: encrypt_for_bob_def decrypt_from_alice_def with_session_def chat_ready_def bob_wf_def)
qed

lemma chat_ready_restored:
  assumes "chat_ready K i a b"
  shows "alice_from_state K (alice_export_state a) = a" "bob_from_state K (bob_export_state b) = b"
    "\<exists>sa. al_session a = Some sa" "\<exists>sb. bo_session b = Some sb"
proof -
  obtain sa where "al_session a = Some sa" "session_wf K sa" "al_keys a = from_private_bytes K (xk_private (al_keys a))"
    using assms by (auto simp: chat_ready_def)
  then show "alice_from_state K (alice_export_state a) = a"
    by (cases a) (simp add: alice_from_state_def alice_export_state_def ik_from_secret_bytes_def state_round_trip)
qed (use assms in \<open>auto simp: chat_ready_def bob_state_round_trip\<close>)

lemma local_demo_decrypts:
  assumes "crypto_ok K" "sig_correct K" "local_endpoints K alice bob" "local_endpoints K alice2 offline_bob"
  shows "run_local_demo K alice bob offline_bob alice2 initial_private = Inr (''hello bob, this is alice'', ''hello offline bob'')"
proof -
  obtain a b where ex: "exchange_keys K alice bob = Inr (a, b)" "chat_ready K 0 a b"
    by (rule exchange_keys_ok [OF assms(1-3)])
  have str: "is_str ''hello bob, this is alice''" "is_str ''hello offline bob''" by code_simp+
  obtain a' b' m where m: "encrypt_for_bob K ''hello bob, this is alice'' a = (a', Inr m)"
    "decrypt_from_alice K m b = (b', Inr ''hello bob, this is alice'')"
    by (rule next_alice_message [OF assms(1) ex(2) _ str(1)]) auto
  obtain pb where pb: "bob_prekey_bundle K offline_bob = Inr pb" using local_endpointsD(4) [OF assms(4)] by blast
  obtain a2 res where e: "encrypt_initial_message K initial_private pb ''hello offline bob'' alice2 = (a2, res)" by fastforce
  obtain im b2 where im: "res = Inr im" "decrypt_initial_message K im offline_bob = (b2, Inr ''hello offline bob'')"
    using initial_message_run [OF assms(1,2) local_endpointsD(3) [OF assms(4)] pb str(2) e] by blast
  show ?thesis
    by (simp add: run_local_demo_def ex(1) m publish_bob_bundle_def pb take_bob_prekey_bundle_def e im)
qed

section \<open>The restart demonstration\<close>

text \<open>Encrypting or decrypting a message, and storing it together with the advanced state.\<close>

definition alice_sends_stored ::
    "crypto \<Rightarrow> chat_codec \<Rightarrow> u64 \<Rightarrow> string \<Rightarrow> string \<Rightarrow> db \<Rightarrow> alice \<Rightarrow> app_error + alice \<times> db \<times> ratchet_message \<times> string" where
  "alice_sends_stored K C now conversation_id plaintext s a =
     (case encrypt_for_bob K plaintext a of (a', res) \<Rightarrow>
        and_then (crypto_result res) (\<lambda>ciphertext.
        and_then (ok_or (al_session a') (AppMessage ''Alice session missing after send'')) (\<lambda>session.
          let bs = cc_message C ciphertext; message_id = message_id_for K now bs
          in and_then (stored (persist_actor_message (\<lambda>_. False) now ''alice'' ''alice'' (cd_alice_state C (alice_export_state a'))
                 conversation_id ''bob'' ''alice'' (cd_session_state C (ratchet_state session))
                 (demo_message_record (''alice-'' @ message_id) conversation_id DirSent StatusSent ciphertext bs plaintext now) s))
               (\<lambda>s'. Inr (a', s', ciphertext, message_id)))))"

definition bob_receives_stored ::
    "crypto \<Rightarrow> chat_codec \<Rightarrow> u64 \<Rightarrow> string \<Rightarrow> ratchet_message \<Rightarrow> string \<Rightarrow> db \<Rightarrow> bob \<Rightarrow> app_error + bob \<times> db \<times> string" where
  "bob_receives_stored K C now conversation_id ciphertext message_id s b =
     (case decrypt_from_alice K ciphertext b of (b', res) \<Rightarrow>
        and_then (crypto_result res) (\<lambda>plaintext.
        and_then (ok_or (bo_session b') (AppMessage ''Bob session missing after receive'')) (\<lambda>session.
        and_then (stored (persist_actor_message (\<lambda>_. False) now ''bob'' ''bob'' (cd_bob_state C (bob_export_state b'))
               conversation_id ''alice'' ''bob'' (cd_session_state C (ratchet_state session))
               (demo_message_record (''bob-'' @ message_id) conversation_id DirReceived StatusReceived ciphertext
                 (cc_message C ciphertext) plaintext now) s))
             (\<lambda>s'. Inr (b', s', plaintext)))))"

record restart_report =
  rsr_first :: string
  rsr_session_bytes :: nat
  rsr_second :: string
  rsr_messages :: "message_record list"

text \<open>After the first message both endpoints are dropped and read back from the database.\<close>

definition run_restart_demo ::
    "crypto \<Rightarrow> chat_codec \<Rightarrow> (nat \<Rightarrow> u64) \<Rightarrow> alice \<Rightarrow> bob \<Rightarrow> db \<Rightarrow> app_error + restart_report" where
  "run_restart_demo K C clock alice bob s0 =
     (let conversation_id = ''alice-bob-'' @ show_nat (unat (clock 0))
      in and_then (exchange_keys K alice bob) (\<lambda>(alice1, bob1).
         let s1 = save_local_identity ''alice'' ''alice'' (cd_alice_state C (alice_export_state alice1)) (clock 1) s0;
             s2 = save_local_identity ''bob'' ''bob'' (cd_bob_state C (bob_export_state bob1)) (clock 1) s1
         in and_then (ok_or (al_session alice1) (AppMessage ''Alice session missing after handshake'')) (\<lambda>session.
         let s3 = save_session conversation_id ''bob'' ''alice'' (cd_session_state C (ratchet_state session)) (clock 1) s2
         in and_then (alice_sends_stored K C (clock 2) conversation_id ''first message before restart'' s3 alice1)
              (\<lambda>(alice2, s4, first_ciphertext, first_message_id).
            and_then (bob_receives_stored K C (clock 3) conversation_id first_ciphertext first_message_id s4 bob1)
              (\<lambda>(bob2, s5, first_decrypted).
            and_then (ok_or (load_local_identity ''alice'' s5) (AppMessage ''Alice state missing after restart'')) (\<lambda>alice_bytes.
            and_then (ok_or (cc_alice_state_decode C alice_bytes) AppCodec) (\<lambda>alice_state.
            and_then (ok_or (load_local_identity ''bob'' s5) (AppMessage ''Bob state missing after restart'')) (\<lambda>bob_bytes.
            and_then (ok_or (cc_bob_state_decode C bob_bytes) AppCodec) (\<lambda>bob_state.
            and_then (ok_or (load_session conversation_id s5) (AppMessage ''session row missing after restart'')) (\<lambda>loaded_session.
            and_then (alice_sends_stored K C (clock 4) conversation_id ''second message after restart'' s5 (alice_from_state K alice_state))
              (\<lambda>(alice3, s6, second_ciphertext, second_message_id).
            and_then (bob_receives_stored K C (clock 5) conversation_id second_ciphertext second_message_id s6 (bob_from_state K bob_state))
              (\<lambda>(bob3, s7, second_decrypted).
              Inr \<lparr>rsr_first = first_decrypted, rsr_session_bytes = length loaded_session, rsr_second = second_decrypted,
                   rsr_messages = messages_for_conversation conversation_id s7\<rparr>))))))))))))"

lemma persist_ok: "persist_actor_message (\<lambda>_. False) now lid role st c p srole sst m s =
    (stmt_insert_message m (stmt_upsert_session c p srole sst (as_i64 now) (stmt_upsert_local_identity lid role st (as_i64 now) s)), Inr ())"
  by (simp add: persist_actor_message_def save_state_session_and_insert_message_def transaction_def)

lemma load_after_statement [simp]:
  "load_local_identity lid (stmt_upsert_local_identity lid' role st n s) = (if lid = lid' then Some st else load_local_identity lid s)"
  "load_local_identity lid (stmt_upsert_session c p r ss n s) = load_local_identity lid s"
  "load_local_identity lid (stmt_insert_message m s) = load_local_identity lid s"
  "load_session c (stmt_upsert_session c' p r ss n s) = (if c = c' then Some ss else load_session c s)"
  "load_session c (stmt_upsert_local_identity lid' role st n s) = load_session c s"
  "load_session c (stmt_insert_message m s) = load_session c s"
  by (simp_all add: load_local_identity_def load_session_def stmt_upsert_local_identity_def stmt_upsert_session_def
      stmt_insert_message_def select_one_upsert split: option.splits)

lemma sends_stored_ok:
  assumes "encrypt_for_bob K p a = (a', Inr m)" "al_session a' = Some sa"
  shows "alice_sends_stored K C now c p s a = Inr (a', fst (persist_actor_message (\<lambda>_. False) now ''alice'' ''alice''
      (cd_alice_state C (alice_export_state a')) c ''bob'' ''alice'' (cd_session_state C (ratchet_state sa))
      (demo_message_record (''alice-'' @ message_id_for K now (cc_message C m)) c DirSent StatusSent m (cc_message C m) p now) s),
      m, message_id_for K now (cc_message C m))"
  using assms by (simp add: alice_sends_stored_def Let_def persist_ok)

lemma receives_stored_ok:
  assumes "decrypt_from_alice K m b = (b', Inr p)" "bo_session b' = Some sb"
  shows "bob_receives_stored K C now c m mid s b = Inr (b', fst (persist_actor_message (\<lambda>_. False) now ''bob'' ''bob''
      (cd_bob_state C (bob_export_state b')) c ''alice'' ''bob'' (cd_session_state C (ratchet_state sb))
      (demo_message_record (''bob-'' @ mid) c DirReceived StatusReceived m (cc_message C m) p now) s), p)"
  using assms by (simp add: bob_receives_stored_def persist_ok)

text \<open>The restored endpoints go on where the dropped ones stopped.\<close>

lemma restart_demo_succeeds:
  assumes "crypto_ok K" "sig_correct K" "chat_codec_ok C" "local_endpoints K alice bob"
  shows "\<exists>report. run_restart_demo K C clock alice bob s0 = Inr report
    \<and> rsr_first report = ''first message before restart'' \<and> rsr_second report = ''second message after restart''"
proof -
  have C: "cc_alice_state_decode C (cd_alice_state C x) = Some x" "cc_bob_state_decode C (cd_bob_state C y) = Some y" for x y
    using assms(3) by (simp_all add: chat_codec_ok_def)
  obtain a b where ex: "exchange_keys K alice bob = Inr (a, b)" "chat_ready K 0 a b" by (rule exchange_keys_ok [OF assms(1,2,4)])
  have str: "is_str ''first message before restart''" "is_str ''second message after restart''" by code_simp+
  obtain a1 b1 m1 where m1: "encrypt_for_bob K ''first message before restart'' a = (a1, Inr m1)"
    "decrypt_from_alice K m1 b = (b1, Inr ''first message before restart'')" "chat_ready K 1 a1 b1"
    by (rule next_alice_message [OF assms(1) ex(2) _ str(1)]) auto
  obtain a2 b2 m2 where m2: "encrypt_for_bob K ''second message after restart'' a1 = (a2, Inr m2)"
    "decrypt_from_alice K m2 b1 = (b2, Inr ''second message after restart'')" "chat_ready K (Suc 1) a2 b2"
    by (rule next_alice_message [OF assms(1) m1(3) _ str(2)]) auto
  obtain s0a s1a s1b s2a s2b where s: "al_session a = Some s0a" "al_session a1 = Some s1a" "bo_session b1 = Some s1b"
    "al_session a2 = Some s2a" "bo_session b2 = Some s2b"
    using chat_ready_restored(3,4) [OF ex(2)] chat_ready_restored(3,4) [OF m1(3)] chat_ready_restored(3,4) [OF m2(3)] by blast
  note restored = chat_ready_restored(1,2) [OF m1(3)]
  note sent = sends_stored_ok [OF m1(1) s(2)] sends_stored_ok [OF m2(1) s(4)]
  note got = receives_stored_ok [OF m1(2) s(3)] receives_stored_ok [OF m2(2) s(5)]
  show ?thesis
    by (simp add: run_restart_demo_def Let_def ex(1) s(1) sent got persist_ok C restored)
qed

section \<open>The outbox demonstration\<close>

record outbox_report =
  obr_queued :: string
  obr_pending_before :: nat
  obr_pending_after_restart :: nat
  obr_status :: outbox_status
  obr_retry_count :: u64
  obr_messages :: "message_record list"

text \<open>The loop over the pending items; every acknowledgement is handled before the next item.\<close>

fun retry_outbox_items ::
    "crypto \<Rightarrow> chat_codec \<Rightarrow> u64 \<Rightarrow> string \<Rightarrow> outbox_item list \<Rightarrow> db \<Rightarrow> bob \<Rightarrow> app_error + db \<times> bob" where
  "retry_outbox_items K C now conversation_id [] s b = Inr (s, b)"
| "retry_outbox_items K C now conversation_id (item # items) s b =
     (case deliver_outbox_item_to_bob K (codec.truncate C) (\<lambda>_. False) now conversation_id item
             (record_outbox_attempt (ob_message_id item) now s) b of
        (s1, b1, res) \<Rightarrow> and_then res (\<lambda>ack. retry_outbox_items K C now conversation_id items (handle_ack now ack s1) b1))"

definition demo_outbox_item :: "string \<Rightarrow> bytes \<Rightarrow> u64 \<Rightarrow> outbox_item" where
  "demo_outbox_item message_id payload now = \<lparr>ob_message_id = message_id, ob_recipient_id = ''bob'', ob_payload = payload,
     ob_status = OutboxPending, ob_retry_count = 0, ob_created_at = now, ob_last_attempt = None\<rparr>"

text \<open>Alice queues a message in the fresh database.\<close>

definition queue_outbox_message ::
    "crypto \<Rightarrow> chat_codec \<Rightarrow> u64 \<Rightarrow> string \<Rightarrow> string \<Rightarrow> db \<Rightarrow> alice \<Rightarrow> app_error + db \<times> string" where
  "queue_outbox_message K C now conversation_id plaintext s a =
     (case encrypt_for_bob K plaintext a of (a', res) \<Rightarrow>
        and_then (crypto_result res) (\<lambda>ciphertext.
          let message_id = ''msg-'' @ message_id_for K now (cc_message C ciphertext);
              payload = cd_durable C \<lparr>dae_message_id = message_id, dae_message = ciphertext\<rparr>
          in and_then (ok_or (al_session a') (AppMessage ''Alice session missing after outbox encrypt'')) (\<lambda>session.
             and_then (stored (save_state_session_message_and_outbox (\<lambda>_. False) ''alice'' ''alice''
                 (cd_alice_state C (alice_export_state a')) conversation_id ''bob'' ''alice'' (cd_session_state C (ratchet_state session))
                 (demo_message_record message_id conversation_id DirSent StatusStored ciphertext payload plaintext now)
                 (demo_outbox_item message_id payload now) now s))
               (\<lambda>s'. Inr (s', message_id)))))"

definition run_outbox_demo :: "crypto \<Rightarrow> chat_codec \<Rightarrow> (nat \<Rightarrow> u64) \<Rightarrow> alice \<Rightarrow> bob \<Rightarrow> app_error + outbox_report" where
  "run_outbox_demo K C clock alice bob =
     (let conversation_id = ''alice-bob-outbox-'' @ show_nat (unat (clock 0))
      in and_then (exchange_keys K alice bob) (\<lambda>(alice1, bob1).
         let s1 = save_local_identity ''alice'' ''alice'' (cd_alice_state C (alice_export_state alice1)) (clock 1) init_db;
             s2 = save_local_identity ''bob'' ''bob'' (cd_bob_state C (bob_export_state bob1)) (clock 1) s1
         in and_then (queue_outbox_message K C (clock 2) conversation_id ''durable hello while bob is offline'' s2 alice1) (\<lambda>(s3, message_id).
            and_then (ok_or (load_local_identity ''alice'' s3) (AppMessage ''Alice state missing after outbox restart'')) (\<lambda>alice_bytes.
            and_then (ok_or (cc_alice_state_decode C alice_bytes) AppCodec) (\<lambda>alice_state.
            and_then (ok_or (load_local_identity ''bob'' s3) (AppMessage ''Bob state missing after outbox restart'')) (\<lambda>bob_bytes.
            and_then (ok_or (cc_bob_state_decode C bob_bytes) AppCodec) (\<lambda>bob_state.
            and_then (retry_outbox_items K C (clock 3) conversation_id (pending_outbox_items s3) s3 (bob_from_state K bob_state)) (\<lambda>(s4, bob2).
            and_then (ok_or (get_outbox_item message_id s4) (AppMessage ''outbox row missing after delivery'')) (\<lambda>delivered.
              case deliver_outbox_item_to_bob K (codec.truncate C) (\<lambda>_. False) (clock 4) conversation_id
                     (delivered\<lparr>ob_status := OutboxPending\<rparr>) s4 bob2 of
                (s5, bob3, res) \<Rightarrow> and_then res (\<lambda>ack.
                   Inr \<lparr>obr_queued = message_id, obr_pending_before = length (pending_outbox_items s3),
                        obr_pending_after_restart = length (pending_outbox_items s3),
                        obr_status = ob_status delivered, obr_retry_count = ob_retry_count delivered,
                        obr_messages = messages_for_conversation conversation_id (handle_ack (clock 4) ack s5)\<rparr>))))))))))"

text \<open>The delivery of an item whose id is new and whose message Bob can decrypt.\<close>

lemma deliver_new:
  assumes "cd_durable_decode C (ob_payload item) = Some env" "dae_message_id env \<notin> set (accepted_ids s)"
    and "decrypt_from_alice K (dae_message env) b = (b', Inr p)" "bo_session b' = Some sb"
  shows "deliver_outbox_item_to_bob K C (\<lambda>_. False) now c item s b =
    (fst (persist_actor_message (\<lambda>_. False) now ''bob'' ''bob'' (cd_bob_state C (bob_export_state b')) c ''alice'' ''bob''
       (cd_session_state C (ratchet_state sb)) (received_record c now env item p) (fst (accept_message_once (dae_message_id env) now s))),
     b', Inr (dae_message_id env))"
proof -
  have "\<not> has_key am_message_id (dae_message_id env) (accepted_messages s)" using assms(2) by (simp add: has_key_image accepted_ids_def)
  then have "snd (accept_message_once (dae_message_id env) now s)" by (simp add: accept_message_once_def insert_or_ignore_def)
  then show ?thesis using assms by (simp add: deliver_outbox_item_to_bob_def case_prod_unfold persist_ok)
qed

lemma persist_frame [simp]:
  "outbox (fst (persist_actor_message (\<lambda>_. False) now lid role st c p srole sst m s)) = outbox s"
  "accepted_ids (fst (persist_actor_message (\<lambda>_. False) now lid role st c p srole sst m s)) = accepted_ids s"
  "messages (fst (persist_actor_message (\<lambda>_. False) now lid role st c p srole sst m s)) = messages (stmt_insert_message m s)"
  by (simp_all add: persist_ok stmt_insert_message_def stmt_upsert_session_def stmt_upsert_local_identity_def accepted_ids_def)

lemma queue_outbox_ok:
  assumes "encrypt_for_bob K p a = (a', Inr m)" "al_session a' = Some sa"
    and "mid = ''msg-'' @ message_id_for K now (cc_message C m)" "payload = cd_durable C \<lparr>dae_message_id = mid, dae_message = m\<rparr>"
  shows "queue_outbox_message K C now c p s a = Inr (stmt_upsert_outbox (demo_outbox_item mid payload now)
      (fst (persist_actor_message (\<lambda>_. False) now ''alice'' ''alice'' (cd_alice_state C (alice_export_state a')) c ''bob'' ''alice''
        (cd_session_state C (ratchet_state sa)) (demo_message_record mid c DirSent StatusStored m payload p now) s)), mid)"
  unfolding assms(3,4) using assms(1,2)
  by (simp add: queue_outbox_message_def Let_def persist_ok save_state_session_message_and_outbox_def transaction_def)

lemma codec_truncate [simp]:
  "cd_durable_decode (codec.truncate C) = cd_durable_decode C" "cd_durable (codec.truncate C) = cd_durable C"
  by (simp_all add: codec.defs)

lemma outbox_demo_succeeds:
  assumes "crypto_ok K" "sig_correct K" "chat_codec_ok C" "codec_ok (codec.truncate C)" "local_endpoints K alice bob"
  shows "\<exists>report. run_outbox_demo K C clock alice bob = Inr report \<and> obr_pending_before report = 1
    \<and> obr_status report = OutboxDelivered \<and> obr_retry_count report = 1 \<and> length (obr_messages report) = 2
    \<and> (\<forall>m \<in> set (obr_messages report). mr_plaintext m = Some ''durable hello while bob is offline'')"
proof -
  let ?c = "''alice-bob-outbox-'' @ show_nat (unat (clock 0))" and ?p = "''durable hello while bob is offline''"
  obtain c p where cp: "c = ?c" "p = ?p" by blast
  have C: "cc_alice_state_decode C (cd_alice_state C x) = Some x" "cc_bob_state_decode C (cd_bob_state C y) = Some y"
    "cd_durable_decode C (cd_durable C z) = Some z" for x y z
    using assms(3,4) by (simp_all add: chat_codec_ok_def codec_ok_def)
  obtain a b where ex: "exchange_keys K alice bob = Inr (a, b)" "chat_ready K 0 a b" by (rule exchange_keys_ok [OF assms(1,2,5)])
  have str: "is_str p" unfolding cp by code_simp
  obtain a1 b1 m where m: "encrypt_for_bob K p a = (a1, Inr m)" "decrypt_from_alice K m b = (b1, Inr p)" "chat_ready K 1 a1 b1"
    by (rule next_alice_message [OF assms(1) ex(2) _ str]) auto
  obtain sa sb where s: "al_session a1 = Some sa" "bo_session b1 = Some sb" using chat_ready_restored(3,4) [OF m(3)] by blast
  obtain mid env item where d: "mid = ''msg-'' @ message_id_for K (clock 2) (cc_message C m)" "env = \<lparr>dae_message_id = mid, dae_message = m\<rparr>"
    "item = demo_outbox_item mid (cd_durable C env) (clock 2)" by blast
  define s2 where "s2 = save_local_identity ''bob'' ''bob'' (cd_bob_state C (bob_export_state b)) (clock 1)
    (save_local_identity ''alice'' ''alice'' (cd_alice_state C (alice_export_state a)) (clock 1) init_db)"
  let ?sent = "demo_message_record mid c DirSent StatusStored m (cd_durable C env) p (clock 2)"
  define s3 where "s3 = stmt_upsert_outbox item (fst (persist_actor_message (\<lambda>_. False) (clock 2) ''alice'' ''alice'' (cd_alice_state C (alice_export_state a1))
    c ''bob'' ''alice'' (cd_session_state C (ratchet_state sa)) ?sent s2))"
  have queued: "queue_outbox_message K C (clock 2) c p s2 a = Inr (s3, mid)"
    unfolding s3_def d(3) by (rule queue_outbox_ok [OF m(1) s(1) d(1)]) (simp add: d(2))
  have s2: "outbox s2 = []" "accepted_ids s2 = []" "messages s2 = []"
    by (simp_all add: s2_def storage_defs init_db_def accepted_ids_def)
  have tables: "outbox s3 = [outbox_item_to_row item]" "messages s3 = [message_to_row ?sent]"
    using s2 by (simp_all add: s3_def stmt_upsert_outbox_def stmt_insert_message_def upsert_def insert_or_ignore_def has_key_def)
  have none: "accepted_ids s3 = []" by (simp add: s3_def s2(2))
  have pending: "pending_outbox_items s3 = [item]"
    by (simp add: pending_outbox_items_def outbox_items_with_status_def select_order_by_def tables(1) d(3) demo_outbox_item_def
        outbox_item_to_row_def outbox_item_from_row_def outbox_status_from_str_def)
  let ?s3 = "record_outbox_attempt mid (clock 3) s3"
  have s3': "accepted_ids ?s3 = []" "messages ?s3 = messages s3" using none by (simp_all add: record_outbox_attempt_def accepted_ids_def)
  have mid_env: "dae_message_id env = mid" "dae_message env = m" "ob_payload item = cd_durable C env" "ob_message_id item = mid"
    by (simp_all add: d(2,3) demo_outbox_item_def)
  let ?got = "received_record c (clock 3) env item p"
  define s4 where "s4 = fst (persist_actor_message (\<lambda>_. False) (clock 3) ''bob'' ''bob'' (cd_bob_state C (bob_export_state b1)) c ''alice'' ''bob''
     (cd_session_state C (ratchet_state sb)) ?got (fst (accept_message_once mid (clock 3) ?s3)))"
  have first: "deliver_outbox_item_to_bob K (codec.truncate C) (\<lambda>_. False) (clock 3) c item ?s3 b = (s4, b1, Inr mid)"
    using deliver_new [of "codec.truncate C" item env ?s3 K b b1 p sb "clock 3" c] C(3) mid_env m(2) s(2) s3'(1)
    by (simp add: s4_def codec.defs)
  have accepted: "mid \<in> set (accepted_ids s4)" using accept_adds by (simp add: s4_def)
  define s5 where "s5 = handle_ack (clock 3) mid s4"
  have loop: "retry_outbox_items K C (clock 3) c [item] s3 b = Inr (s5, b1)" by (simp add: mid_env(4) first s5_def)
  define row where "row = (outbox_item_to_row item)\<lparr>ow_retry_count := 1, ow_status := ''delivered'', ow_last_attempt := Some (as_i64 (clock 3))\<rparr>"
  have "outbox s4 = outbox ?s3" by (simp add: s4_def accept_frame)
  then have "outbox s5 = [row]"
    by (simp add: s5_def handle_ack_def mark_outbox_delivered_def record_outbox_attempt_def tables(1) update_where_def row_def
        d(3) demo_outbox_item_def outbox_item_to_row_def as_i64_def)
  then have found: "get_outbox_item mid s5 = Some (outbox_item_from_row row)"
    by (simp add: get_outbox_item_def select_one_def row_def d(3) demo_outbox_item_def outbox_item_to_row_def)
  let ?dup = "(outbox_item_from_row row)\<lparr>ob_status := OutboxPending\<rparr>"
  have delivered: "ob_payload ?dup = cd_durable C env" "ob_status (outbox_item_from_row row) = OutboxDelivered" "ob_retry_count (outbox_item_from_row row) = 1"
    by (simp_all add: row_def outbox_item_from_row_def d(3) demo_outbox_item_def outbox_item_to_row_def as_u64_def outbox_status_from_str_def)
  have "accepted_ids s5 = accepted_ids s4" by (simp add: s5_def handle_ack_def mark_outbox_delivered_def accepted_ids_def)
  then have second: "deliver_outbox_item_to_bob K (codec.truncate C) (\<lambda>_. False) (clock 4) c ?dup s5 b1 = (s5, b1, Inr mid)"
    using redelivery [of "codec.truncate C" ?dup env s5 K "\<lambda>_. False" "clock 4" c b1] C(3) delivered(1) mid_env(1) accepted by (simp add: codec.defs)
  let ?rows = "[message_to_row ?sent, message_to_row ?got]"
  have "mr_message_id ?got \<noteq> mid" by (simp add: received_record_def mid_env(1) d(1))
  then have "messages s4 = ?rows"
    by (simp add: s4_def accept_frame s3'(2) tables(2) stmt_insert_message_def insert_or_ignore_def has_key_def message_to_row_def demo_message_record_def)
  then have msgs: "messages (handle_ack (clock 4) mid s5) = ?rows" by (simp add: s5_def handle_ack_def mark_outbox_delivered_def)
  have texts: "length (messages_for_conversation c (handle_ack (clock 4) mid s5)) = 2"
    "\<forall>m \<in> set (messages_for_conversation c (handle_ack (clock 4) mid s5)). mr_plaintext m = Some p"
    by (simp_all add: messages_for_conversation_def select_order_by_def msgs message_to_row_def message_from_row_def demo_message_record_def received_record_def)
  have loaded: "load_local_identity ''alice'' s3 = Some (cd_alice_state C (alice_export_state a1))"
    "load_local_identity ''bob'' s3 = Some (cd_bob_state C (bob_export_state b))"
    by (simp_all add: s3_def persist_ok s2_def save_local_identity_def stmt_upsert_outbox_def load_local_identity_def stmt_insert_message_def
        stmt_upsert_session_def stmt_upsert_local_identity_def select_one_upsert init_db_def upsert_def has_key_def select_one_def)
  have "run_outbox_demo K C clock alice bob = Inr \<lparr>obr_queued = mid, obr_pending_before = length [item], obr_pending_after_restart = length [item],
      obr_status = ob_status (outbox_item_from_row row), obr_retry_count = ob_retry_count (outbox_item_from_row row),
      obr_messages = messages_for_conversation c (handle_ack (clock 4) mid s5)\<rparr>"
    unfolding run_outbox_demo_def Let_def cp [symmetric] ex(1) and_then.simps prod.case s2_def [symmetric]
    by (simp add: queued loaded C pending chat_ready_restored(2) [OF ex(2)] loop found second del: retry_outbox_items.simps)
  then show ?thesis using texts delivered cp(2) by simp
qed

section \<open>The invite demonstration\<close>

definition bob_exchange_from_payload :: "(bytes \<Rightarrow> signed_key_exchange option) \<Rightarrow> string \<Rightarrow> app_error + signed_key_exchange" where
  "bob_exchange_from_payload de payload_hex = and_then (hex_decode payload_hex) (\<lambda>payload. ok_or (de payload) AppCodec)"

record invite_demo_report =
  idr_code :: string
  idr_safety_number :: string
  idr_already_used :: bool

text \<open>\<open>random\<close> is the answer of the random source to the request for the code.\<close>

definition run_invite_demo ::
    "crypto \<Rightarrow> chat_codec \<Rightarrow> (signed_key_exchange \<Rightarrow> bytes) \<Rightarrow> (bytes \<Rightarrow> signed_key_exchange option) \<Rightarrow> bytes option \<Rightarrow> u64
      \<Rightarrow> alice \<Rightarrow> bob \<Rightarrow> app_error + invite_demo_report" where
  "run_invite_demo K C ser de random now alice bob =
     and_then (generate_invite_code random) (\<lambda>code.
       let code_hash = invite_code_hash K code;
           alice_exchange = alice_signed_key_exchange K alice;
           bob_exchange = bob_signed_key_exchange K bob;
           s1 = save_invite_record \<lparr>iv_code_hash = code_hash, iv_rendezvous_payload = hex_encode (ser bob_exchange),
                  iv_expires_at = now + INVITE_TTL_SECS, iv_consumed_at = None, iv_created_at = now\<rparr> init_db
       in and_then (normalize_invite_code code) (\<lambda>entered_code.
          case consume_invite_record (invite_code_hash K entered_code) (now + 1) s1 of (s2, found) \<Rightarrow>
          and_then (ok_or found (AppMessage ''invalid invite'')) (\<lambda>invite.
          and_then (bob_exchange_from_payload de (iv_rendezvous_payload invite)) (\<lambda>resolved_bob_exchange.
          and_then (crypto_result (alice_derive_session_key K resolved_bob_exchange alice)) (\<lambda>alice'.
          and_then (crypto_result (bob_derive_session_key K alice_exchange bob)) (\<lambda>bob'.
            let number = safety_number K (ske_identity_public_key alice_exchange) (ske_identity_public_key resolved_bob_exchange);
                conversation_id = ''invite-'' @ invite_code_hash K entered_code;
                s3 = save_local_identity ''alice-invite-demo'' ''alice'' (cd_alice_state C (alice_export_state alice')) now s2;
                s4 = save_local_identity ''bob-invite-demo'' ''bob'' (cd_bob_state C (bob_export_state bob')) now s3
            in and_then (ok_or (al_session alice') (AppMessage ''Alice session missing after invite pairing'')) (\<lambda>session.
                 let s5 = save_session conversation_id ''bob-contact'' ''alice'' (cd_session_state C (ratchet_state session)) now s4;
                     s6 = save_contact \<lparr>ct_contact_id = ''bob-contact'', ct_display_name = ''Bob'',
                            ct_identity_public_key = ske_identity_public_key resolved_bob_exchange,
                            ct_discovery_hint = ''resolved through short-lived invite rendezvous'', ct_saved_at = now + 1\<rparr> s5
                 in Inr \<lparr>idr_code = code, idr_safety_number = number,
                         idr_already_used = (snd (consume_invite_record code_hash (now + 2) s6) = None)\<rparr>)))))))"

lemma invite_demo_succeeds:
  assumes "crypto_ok K" "sig_correct K" "local_endpoints K alice bob" "\<And>x. de (ser x) = Some x"
    and "length bs = INVITE_CODE_LEN" "unat now + unat INVITE_TTL_SECS < 2 ^ 63"
  shows "\<exists>report. run_invite_demo K C ser de (Some bs) now alice bob = Inr report \<and> idr_already_used report
    \<and> idr_safety_number report = safety_number K (ik_public_key K (bo_identity bob)) (ik_public_key K (al_identity alice))"
proof -
  have K: "hkdf_total K" "dh_agrees K" using assms(1) by (simp_all add: crypto_ok_def)
  obtain code where code: "generate_invite_code (Some bs) = Inr code" by (auto simp: generate_invite_code_def)
  have alpha: "length code = INVITE_CODE_LEN" "set code \<subseteq> set INVITE_CODE_ALPHABET" using generated_code [OF code] assms(5) by simp_all
  have "\<not> separator c" if "c \<in> set INVITE_CODE_ALPHABET" for c using that by (auto simp: separator_def INVITE_CODE_ALPHABET_def)
  then have "filter (\<lambda>c. \<not> separator c) code = code" using alpha(2) by (intro filter_True) blast
  then have norm: "normalize_invite_code code = Inr code"
    using typed_code_recognised [OF code assms(5), of code K] alpha(2) uppercase_alphabet by (simp add: map_idI subset_iff)
  let ?h = "invite_code_hash K code" and ?x = "bob_signed_key_exchange K bob"
  let ?iv = "\<lparr>iv_code_hash = ?h, iv_rendezvous_payload = hex_encode (ser ?x), iv_expires_at = now + INVITE_TTL_SECS, iv_consumed_at = None, iv_created_at = now\<rparr>"
  define s1 where "s1 = save_invite_record ?iv init_db"
  have ok: "keys_ok s1" using init_db_ok by (simp add: s1_def keys_ok_simple db_ok_def)
  obtain row where row: "invite_records s1 = [row]" "iw_code_hash row = ?h" "iw_consumed_at row = None" "iw_expires_at row = as_i64 (now + INVITE_TTL_SECS)"
    "iw_rendezvous_payload row = hex_encode (ser ?x)"
    by (simp add: s1_def save_invite_record_def init_db_def upsert_def has_key_def)
  have small: "as_i64 (now + k) = int (unat now + unat k)" if "unat k \<le> unat INVITE_TTL_SECS" for k
  proof -
    have "unat now + unat k < 2 ^ 63" using that assms(6) by simp
    moreover from this have "unat (now + k) = unat now + unat k" by (intro unat_add_lem [THEN iffD1]) simp
    ultimately show ?thesis using as_i64_small [of "now + k"] by simp
  qed
  have ttl: "unat INVITE_TTL_SECS = 300" by (simp add: INVITE_TTL_SECS_def)
  have "as_i64 (now + 1) < as_i64 (now + INVITE_TTL_SECS)" using small [of 1] small [of INVITE_TTL_SECS] ttl by simp
  then have "snd (consume_invite_record ?h (now + 1) s1) = Some (invite_from_row (row\<lparr>iw_consumed_at := Some (as_i64 (now + 1))\<rparr>))"
    using consume_row [OF ok, of row ?h "now + 1"] row by (simp add: invite_consumable_def)
  then obtain s2 iv where c: "consume_invite_record ?h (now + 1) s1 = (s2, Some iv)" "iv_rendezvous_payload iv = hex_encode (ser ?x)"
    using row(5) by (cases "consume_invite_record ?h (now + 1) s1") (auto simp: invite_from_row_def)
  have used: "snd (consume_invite_record ?h later t) = None" if "invite_records t = invite_records s2" for later t
    using consume_invite_single_use [OF ok, of ?h "now + 1" t later] c(1) that by simp
  have resolved: "bob_exchange_from_payload de (iv_rendezvous_payload iv) = Inr ?x"
    by (simp add: bob_exchange_from_payload_def c(2) hex_round_trip assms(4))
  obtain sa sb where keys: "alice_derive_session_key K ?x alice = Inr (alice\<lparr>al_session := Some sa\<rparr>)"
    "bob_derive_session_key K (alice_signed_key_exchange K alice) bob = Inr (bob\<lparr>bo_session := Some sb\<rparr>)"
    by (rule key_exchange_sessions [OF K assms(2) local_endpointsD(1,2) [OF assms(3)]])
  have ids: "ske_identity_public_key ?x = ik_public_key K (bo_identity bob)"
    "ske_identity_public_key (alice_signed_key_exchange K alice) = ik_public_key K (al_identity alice)"
    by (simp_all add: bob_signed_key_exchange_def alice_signed_key_exchange_def sign_key_exchange_def Let_def)
  have frame: "invite_records (save_contact ct (save_session cid p r st n (save_local_identity l1 r1 t1 n1 (save_local_identity l2 r2 t2 n2 u)))) = invite_records u"
    for ct cid p r st n l1 r1 t1 n1 l2 r2 t2 n2 u by (simp add: storage_defs)
  show ?thesis
    by (simp add: run_invite_demo_def code Let_def norm s1_def [symmetric] c(1) resolved keys ids used [OF frame])
       (rule safety_number_symmetric)
qed

end
