(* ===== verification/StorageBenchmark.thy ===== *)
theory StorageBenchmark
  imports MessageDemos
begin

text \<open>
  The storage benchmark (\<^verbatim>\<open>run_storage_benchmark\<close> of \<^verbatim>\<open>src/src/main.rs\<close>): any number of messages goes through
  encryption, outbox, acceptance, decryption and storage on one database, with the checks of the code at the
  end; the measured times are left out.
\<close>

section \<open>The benchmark\<close>

definition benchmark_message_id :: "nat \<Rightarrow> string" where
  "benchmark_message_id index = ''storage-benchmark-'' @ show_nat index"

definition benchmark_plaintext :: "nat \<Rightarrow> string" where
  "benchmark_plaintext index = ''CipherMesh storage benchmark message '' @ show_nat index"

text \<open>The body of the loop.\<close>

definition benchmark_round ::
    "crypto \<Rightarrow> chat_codec \<Rightarrow> u64 \<Rightarrow> nat \<Rightarrow> db \<Rightarrow> alice \<Rightarrow> bob \<Rightarrow> app_error + db \<times> alice \<times> bob" where
  "benchmark_round K C now index s a b =
     (let plaintext = benchmark_plaintext index; message_id = benchmark_message_id index
      in case encrypt_for_bob K plaintext a of (a', res) \<Rightarrow>
         and_then (crypto_result res) (\<lambda>message.
           let payload = cd_durable C \<lparr>dae_message_id = message_id, dae_message = message\<rparr>
           in and_then (ok_or (al_session a') (AppMessage ''Alice session missing during storage benchmark'')) (\<lambda>alice_session.
              and_then (stored (save_state_session_message_and_outbox (\<lambda>_. False) ''alice'' ''alice''
                   (cd_alice_state C (alice_export_state a')) ''storage-benchmark'' ''bob'' ''alice''
                   (cd_session_state C (ratchet_state alice_session))
                   (demo_message_record message_id ''storage-benchmark'' DirSent StatusStored message payload plaintext now)
                   (demo_outbox_item message_id payload now) now s)) (\<lambda>s1.
                case accept_message_once message_id now (record_outbox_attempt message_id now s1) of (s2, accepted) \<Rightarrow>
                  if \<not> accepted then Inl (AppMessage ''storage benchmark rejected first delivery'')
                  else (case decrypt_from_alice K message b of (b', res') \<Rightarrow>
                    and_then (crypto_result res') (\<lambda>decrypted.
                      if decrypted \<noteq> plaintext then Inl (AppMessage ''storage benchmark plaintext mismatch'')
                      else and_then (ok_or (bo_session b') (AppMessage ''Bob session missing during storage benchmark'')) (\<lambda>bob_session.
                           and_then (stored (persist_actor_message (\<lambda>_. False) now ''bob'' ''bob'' (cd_bob_state C (bob_export_state b'))
                               ''storage-benchmark'' ''alice'' ''bob'' (cd_session_state C (ratchet_state bob_session))
                               (demo_message_record (''bob-'' @ message_id) ''storage-benchmark'' DirReceived StatusReceived message
                                 payload decrypted now) s2)) (\<lambda>s3.
                             Inr (mark_outbox_delivered message_id now s3, a', b')))))))))"

fun storage_benchmark_loop ::
    "crypto \<Rightarrow> chat_codec \<Rightarrow> (nat \<Rightarrow> u64) \<Rightarrow> nat list \<Rightarrow> db \<Rightarrow> alice \<Rightarrow> bob \<Rightarrow> app_error + db" where
  "storage_benchmark_loop K C clock [] s a b = Inr s"
| "storage_benchmark_loop K C clock (index # rest) s a b =
     and_then (benchmark_round K C (clock index) index s a b) (\<lambda>(s', a', b'). storage_benchmark_loop K C clock rest s' a' b')"

text \<open>The database file is created anew; the result is the number of stored records.\<close>

definition run_storage_benchmark ::
    "crypto \<Rightarrow> chat_codec \<Rightarrow> (nat \<Rightarrow> u64) \<Rightarrow> nat \<Rightarrow> alice \<Rightarrow> bob \<Rightarrow> app_error + nat" where
  "run_storage_benchmark K C clock message_count alice bob =
     (if message_count = 0 then Inl (AppMessage ''storage benchmark message count must be greater than zero'')
      else and_then (exchange_keys K alice bob) (\<lambda>(alice', bob').
           and_then (storage_benchmark_loop K C clock [0..<message_count] init_db alice' bob') (\<lambda>s.
             if pending_outbox_items s \<noteq> [] then Inl (AppMessage ''storage benchmark left pending outbox rows'')
             else let stored_records = length (messages_for_conversation ''storage-benchmark'' s); expected_records = message_count * 2
                  in if stored_records \<noteq> expected_records then Inl (AppMessage ''storage benchmark stored unexpected message records'')
                     else Inr stored_records)))"

section \<open>Numbers in identifiers\<close>

lemma show_nat_digits: "c \<in> set (show_nat n) \<Longrightarrow> \<exists>d < 10. c = char_of (48 + d :: nat)"
proof (induction n rule: show_nat.induct)
  case (1 n)
  show ?case
  proof (cases "n < 10")
    case False
    then have "c \<in> set (show_nat (n div 10)) \<or> c = char_of (48 + n mod 10 :: nat)"
      using "1.prems" by (auto simp: show_nat.simps [of n])
    then show ?thesis using "1.IH" [OF False] by (metis mod_less_divisor zero_less_numeral)
  qed (use "1.prems" in \<open>auto simp: show_nat.simps [of n]\<close>)
qed

lemma show_nat_nonempty: "show_nat n \<noteq> []"
  by (subst show_nat.simps) simp

lemma show_nat_inject: "show_nat m = show_nat n \<Longrightarrow> m = n"
proof (induction m arbitrary: n rule: show_nat.induct)
  case (1 m)
  have "\<forall>x \<in> set [0..<10]. \<forall>y \<in> set [0..<10]. (char_of (48 + x :: nat) = (char_of (48 + y :: nat) :: char)) = (x = y)" by code_simp
  then have digit: "char_of (48 + x) = (char_of (48 + y) :: char) \<longleftrightarrow> x = y" if "x < 10" "y < 10" for x y :: nat using that by simp
  have small: "show_nat k = [char_of (48 + k)]" if "k < 10" for k using that by (simp add: show_nat.simps [of k])
  have big: "show_nat k = show_nat (k div 10) @ [char_of (48 + k mod 10)]" if "\<not> k < 10" for k using that by (simp add: show_nat.simps [of k])
  consider "m < 10" "n < 10" | "m < 10" "\<not> n < 10" | "\<not> m < 10" "n < 10" | "\<not> m < 10" "\<not> n < 10" by blast
  then show ?case
  proof cases
    case 1
    then show ?thesis using "1.prems" digit [of m n] by (simp add: small)
  next
    case 4
    then have "show_nat (m div 10) = show_nat (n div 10)" "m mod 10 = n mod 10"
      using "1.prems" digit [of "m mod 10" "n mod 10"] by (simp_all add: big)
    then have "m div 10 = n div 10" "m mod 10 = n mod 10" using "1.IH" [OF 4(1)] by simp_all
    then show ?thesis by (metis div_mult_mod_eq)
  qed (use "1.prems" show_nat_nonempty [of "m div 10"] show_nat_nonempty [of "n div 10", THEN not_sym] in \<open>auto simp: small big\<close>)
qed

lemma is_str_ascii: "\<forall>c \<in> set s. byte_of_char c \<le> 127 \<Longrightarrow> is_str s"
  unfolding is_str_def as_bytes_def by (induction s) auto

lemma benchmark_text: "is_str (benchmark_plaintext i)"
proof (rule is_str_ascii)
  have low: "\<forall>c \<in> set ''CipherMesh storage benchmark message ''. byte_of_char c \<le> 127" by code_simp
  have "\<forall>d \<in> set [0..<10]. byte_of_char (char_of (48 + d :: nat)) \<le> 127" by code_simp
  then have "byte_of_char c \<le> 127" if "c \<in> set (show_nat i)" for c using show_nat_digits [OF that] by auto
  with low show "\<forall>c \<in> set (benchmark_plaintext i). byte_of_char c \<le> 127" by (auto simp: benchmark_plaintext_def)
qed

lemma benchmark_ids: "benchmark_message_id i = benchmark_message_id j \<longleftrightarrow> i = j" "benchmark_message_id i \<noteq> ''bob-'' @ benchmark_message_id j"
  using show_nat_inject by (auto simp: benchmark_message_id_def)

section \<open>Every round succeeds\<close>

text \<open>The tables after \<open>i\<close> rounds.\<close>

definition benchmark_inv :: "nat \<Rightarrow> db \<Rightarrow> bool" where
  "benchmark_inv i s \<longleftrightarrow> length (messages s) = i * 2
     \<and> (\<forall>r \<in> set (messages s). mw_conversation_id r = ''storage-benchmark''
         \<and> (\<exists>j < i. mw_message_id r \<in> {benchmark_message_id j, ''bob-'' @ benchmark_message_id j}))
     \<and> (\<forall>r \<in> set (outbox s). ow_status r = ''delivered'' \<and> (\<exists>j < i. ow_message_id r = benchmark_message_id j))
     \<and> (\<forall>x \<in> set (accepted_ids s). \<exists>j < i. x = benchmark_message_id j)"

lemma benchmark_step:
  assumes "benchmark_inv i s" "mr_message_id sent = benchmark_message_id i" "mr_conversation_id sent = ''storage-benchmark''"
    and "mr_message_id got = ''bob-'' @ benchmark_message_id i" "mr_conversation_id got = ''storage-benchmark''"
    and "ob_message_id item = benchmark_message_id i"
    and s1: "s1 = stmt_upsert_outbox item (fst (persist_actor_message (\<lambda>_. False) now lid role st c p srole sst sent s))"
    and s2: "s2 = fst (accept_message_once (benchmark_message_id i) now (record_outbox_attempt (benchmark_message_id i) now s1))"
    and s3: "s3 = fst (persist_actor_message (\<lambda>_. False) now lid' role' st' c' p' srole' sst' got s2)"
  shows "benchmark_message_id i \<notin> set (accepted_ids (record_outbox_attempt (benchmark_message_id i) now s1))"
    "benchmark_inv (Suc i) (mark_outbox_delivered (benchmark_message_id i) now s3)"
proof -
  let ?id = "benchmark_message_id i"
  have fresh: "mw_message_id r \<noteq> ?id \<and> mw_message_id r \<noteq> ''bob-'' @ ?id" if r: "r \<in> set (messages s)" for r
  proof -
    obtain j where "j < i" "mw_message_id r \<in> {benchmark_message_id j, ''bob-'' @ benchmark_message_id j}"
      using assms(1) r unfolding benchmark_inv_def by blast
    then show ?thesis using benchmark_ids(1) [of j i] benchmark_ids(2) [of j i] benchmark_ids(2) [of i j] by auto
  qed
  have "ow_message_id r \<noteq> ?id" if r: "r \<in> set (outbox s)" for r
    using assms(1) r benchmark_ids(1) unfolding benchmark_inv_def by (metis less_irrefl)
  moreover have "?id \<notin> set (accepted_ids s)"
    using assms(1) benchmark_ids(1) unfolding benchmark_inv_def by (metis less_irrefl)
  ultimately have new: "\<not> has_key mw_message_id ?id (messages s)" "\<not> has_key mw_message_id (''bob-'' @ ?id) (messages s)"
    "\<not> has_key ow_message_id ?id (outbox s)" "?id \<notin> set (accepted_ids s)"
    using fresh by (auto simp: has_key_def)
  have acc1: "accepted_ids (record_outbox_attempt ?id now s1) = accepted_ids s"
    by (simp add: record_outbox_attempt_def s1 accepted_ids_def stmt_upsert_outbox_def persist_ok stmt_insert_message_def
        stmt_upsert_session_def stmt_upsert_local_identity_def)
  with new(4) show "?id \<notin> set (accepted_ids (record_outbox_attempt ?id now s1))" by simp
  have m2: "messages s2 = messages s @ [message_to_row sent]"
    using new(1) assms(2) by (simp add: s2 accept_frame record_outbox_attempt_def s1 stmt_upsert_outbox_def stmt_insert_message_def
        insert_or_ignore_def message_to_row_def)
  have "\<not> has_key mw_message_id (''bob-'' @ ?id) (messages s2)"
    using new(2) assms(2) benchmark_ids(2) [of i i] by (simp add: m2 has_key_def message_to_row_def)
  then have m3: "messages s3 = messages s @ [message_to_row sent, message_to_row got]"
    using assms(4) by (simp add: s3 stmt_insert_message_def insert_or_ignore_def m2 message_to_row_def)
  have "outbox s1 = outbox s @ [outbox_item_to_row item]"
    using new(3) assms(6) by (simp add: s1 stmt_upsert_outbox_def upsert_def outbox_item_to_row_def)
  then have "outbox s3 = update_where (\<lambda>r. ow_message_id r = ?id) (\<lambda>r. r\<lparr>ow_retry_count := ow_retry_count r + 1, ow_last_attempt := Some (as_i64 now)\<rparr>)
      (outbox s @ [outbox_item_to_row item])"
    by (simp add: s3 s2 accept_frame record_outbox_attempt_def)
  then have o3: "\<forall>r \<in> set (outbox (mark_outbox_delivered ?id now s3)). ow_status r = ''delivered'' \<and> (\<exists>j < Suc i. ow_message_id r = benchmark_message_id j)"
    using assms(1,6) by (fastforce simp: mark_outbox_delivered_def update_where_def benchmark_inv_def outbox_item_to_row_def less_Suc_eq)
  have a3: "set (accepted_ids s3) = insert ?id (set (accepted_ids s))"
    using acc1 by (auto simp: s3 s2 accepted_store.entries_put)
  have frame: "messages (mark_outbox_delivered ?id now s3) = messages s3" "accepted_ids (mark_outbox_delivered ?id now s3) = accepted_ids s3"
    by (simp_all add: mark_outbox_delivered_def accepted_ids_def)
  show "benchmark_inv (Suc i) (mark_outbox_delivered ?id now s3)"
    using assms(1-5) o3 unfolding benchmark_inv_def frame m3 a3
    by (auto simp: message_to_row_def less_Suc_eq)
qed

lemma benchmark_round_succeeds:
  assumes "crypto_ok K" "chat_ready K i a b" "Suc i < 2 ^ 64" "benchmark_inv i s"
  shows "\<exists>s' a' b'. benchmark_round K C now i s a b = Inr (s', a', b') \<and> chat_ready K (Suc i) a' b' \<and> benchmark_inv (Suc i) s'"
proof -
  obtain a' b' m where m: "encrypt_for_bob K (benchmark_plaintext i) a = (a', Inr m)" "decrypt_from_alice K m b = (b', Inr (benchmark_plaintext i))"
    "chat_ready K (Suc i) a' b'" by (rule next_alice_message [OF assms(1-3) benchmark_text])
  obtain sa sb where s: "al_session a' = Some sa" "bo_session b' = Some sb" using chat_ready_restored(3,4) [OF m(3)] by blast
  let ?id = "benchmark_message_id i" and ?c = "''storage-benchmark''"
  define payload where "payload = cd_durable C \<lparr>dae_message_id = ?id, dae_message = m\<rparr>"
  define s1 where "s1 = stmt_upsert_outbox (demo_outbox_item ?id payload now) (fst (persist_actor_message (\<lambda>_. False) now ''alice'' ''alice''
      (cd_alice_state C (alice_export_state a')) ?c ''bob'' ''alice'' (cd_session_state C (ratchet_state sa))
      (demo_message_record ?id ?c DirSent StatusStored m payload (benchmark_plaintext i) now) s))"
  define s2 where "s2 = fst (accept_message_once ?id now (record_outbox_attempt ?id now s1))"
  define s3 where "s3 = fst (persist_actor_message (\<lambda>_. False) now ''bob'' ''bob'' (cd_bob_state C (bob_export_state b')) ?c ''alice'' ''bob''
      (cd_session_state C (ratchet_state sb)) (demo_message_record (''bob-'' @ ?id) ?c DirReceived StatusReceived m payload (benchmark_plaintext i) now) s2)"
  note step = benchmark_step [OF assms(4) _ _ _ _ _ s1_def s2_def s3_def, unfolded demo_message_record_def demo_outbox_item_def, simplified]
  have saved: "save_state_session_message_and_outbox (\<lambda>_. False) ''alice'' ''alice'' (cd_alice_state C (alice_export_state a')) ?c ''bob'' ''alice''
      (cd_session_state C (ratchet_state sa)) (demo_message_record ?id ?c DirSent StatusStored m payload (benchmark_plaintext i) now)
      (demo_outbox_item ?id payload now) now s = (s1, Inr ())"
    by (simp add: s1_def persist_ok save_state_session_message_and_outbox_def transaction_def)
  have accepted: "accept_message_once ?id now (record_outbox_attempt ?id now s1) = (s2, True)"
    using step(1) by (simp add: s2_def accept_message_once_def insert_or_ignore_def has_key_image accepted_ids_def)
  have kept: "stored (persist_actor_message (\<lambda>_. False) now ''bob'' ''bob'' (cd_bob_state C (bob_export_state b')) ?c ''alice'' ''bob''
      (cd_session_state C (ratchet_state sb)) (demo_message_record (''bob-'' @ ?id) ?c DirReceived StatusReceived m payload (benchmark_plaintext i) now) s2) = Inr s3"
    by (simp add: s3_def persist_ok)
  have "benchmark_inv (Suc i) (mark_outbox_delivered ?id now s3)" by (rule step(2))
  moreover have "benchmark_round K C now i s a b = Inr (mark_outbox_delivered ?id now s3, a', b')"
    unfolding benchmark_round_def Let_def m(1) prod.case demo_results and_then.simps payload_def [symmetric]
    using s m(2) saved accepted kept by simp
  ultimately show ?thesis using m(3) by blast
qed

lemma benchmark_loop_succeeds:
  assumes "crypto_ok K" "chat_ready K i a b" "benchmark_inv i s" "i + k < 2 ^ 64"
  shows "\<exists>s'. storage_benchmark_loop K C clock [i..<i + k] s a b = Inr s' \<and> benchmark_inv (i + k) s'"
  using assms(2-)
proof (induction k arbitrary: i s a b)
  case (Suc k)
  have "Suc i < 2 ^ 64" using Suc.prems(3) by simp
  then obtain s' a' b' where r: "benchmark_round K C (clock i) i s a b = Inr (s', a', b')" "chat_ready K (Suc i) a' b'" "benchmark_inv (Suc i) s'"
    using benchmark_round_succeeds [OF assms(1) Suc.prems(1) _ Suc.prems(2), of C "clock i"] by blast
  have "Suc i + k < 2 ^ 64" using Suc.prems(3) by simp
  from Suc.IH [OF r(2,3) this] r(1) show ?case by (simp add: upt_conv_Cons del: upt_Suc)
qed simp

text \<open>
  Whatever the number of messages, the storage benchmark passes all its checks: every message is accepted
  once and decrypted to its text, nothing stays pending, and the database holds two records per message.
\<close>

theorem storage_benchmark_succeeds:
  assumes "crypto_ok K" "sig_correct K" "local_endpoints K alice bob" "0 < n" "n < 2 ^ 64"
  shows "run_storage_benchmark K C clock n alice bob = Inr (n * 2)"
proof -
  obtain a b where ex: "exchange_keys K alice bob = Inr (a, b)" "chat_ready K 0 a b" by (rule exchange_keys_ok [OF assms(1-3)])
  have "benchmark_inv 0 init_db" by (simp add: benchmark_inv_def init_db_def accepted_ids_def)
  then obtain s where s: "storage_benchmark_loop K C clock [0..<n] init_db a b = Inr s" "benchmark_inv n s"
    using benchmark_loop_succeeds [OF assms(1) ex(2), of init_db n C clock] assms(5) by auto
  have "filter (\<lambda>r. mw_conversation_id r = ''storage-benchmark'') (messages s) = messages s"
    using s(2) unfolding benchmark_inv_def by (intro filter_True) blast
  then have "length (messages_for_conversation ''storage-benchmark'' s) = n * 2"
    using s(2) by (simp add: messages_for_conversation_def select_order_by_def benchmark_inv_def)
  moreover have "pending_outbox_items s = []"
    using s(2) by (auto simp: pending_outbox_items_def outbox_items_with_status_def select_order_by_def benchmark_inv_def filter_empty_conv)
  ultimately show ?thesis using assms(4) by (simp add: run_storage_benchmark_def ex(1) s(1) Let_def)
qed

theorem storage_benchmark_succeeds_witness:
  "run_storage_benchmark toy_crypto toy_chat_codec (\<lambda>_. 7) 3 (alice_local toy_crypto [5] [6]) toy_bob = Inr 6"
proof -
  have "local_endpoints toy_crypto (alice_local toy_crypto [5] [6]) toy_bob"
    unfolding local_endpoints_def toy_bob_def by blast
  from storage_benchmark_succeeds [OF toy_crypto_ok toy_sig_correct this, of 3] show ?thesis by simp
qed

end
