(* ===== verification/DeviceDemos.thy ===== *)
theory DeviceDemos
  imports SyncDemos MessageDemos
begin

text \<open>
  The demonstrations of accounts with several devices (\<^verbatim>\<open>run_device_identity_demo\<close>, \<^verbatim>\<open>run_device_fanout_demo\<close> and
  \<^verbatim>\<open>run_device_revocation_demo\<close> of \<^verbatim>\<open>src/src/main.rs\<close>), as functions from the generated keys to what they print.
  They work on a database in memory, whose statements do not fail.
\<close>

section \<open>Certificates in the database\<close>

text \<open>\<^verbatim>\<open>bincode\<close> on the types the demonstrations store.\<close>

record device_codec =
  dvc_certificate :: "device_certificate \<Rightarrow> bytes"
  dvc_certificate_decode :: "bytes \<Rightarrow> device_certificate option"
  dvc_revocation :: "device_revocation \<Rightarrow> bytes"
  dvc_revocation_decode :: "bytes \<Rightarrow> device_revocation option"
  dvc_envelope :: "device_delivery_envelope \<Rightarrow> bytes"
  dvc_envelope_decode :: "bytes \<Rightarrow> device_delivery_envelope option"
  dvc_session :: "device_session_state \<Rightarrow> bytes"

definition device_codec_ok :: "device_codec \<Rightarrow> bool" where
  "device_codec_ok D \<longleftrightarrow> (\<forall>x. dvc_certificate_decode D (dvc_certificate D x) = Some x)
     \<and> (\<forall>x. dvc_revocation_decode D (dvc_revocation D x) = Some x) \<and> (\<forall>x. dvc_envelope_decode D (dvc_envelope D x) = Some x)"

definition demo_bob_device :: "crypto \<Rightarrow> account_keys \<Rightarrow> device_identity" where
  "demo_bob_device K keys = device_generate K (ak_bob_secret keys) (ak_bob_private keys) ''bob-account''"

text \<open>Both devices of the account and their certificates in a fresh database.\<close>

definition demo_devices_db :: "crypto \<Rightarrow> device_codec \<Rightarrow> u64 \<Rightarrow> account_keys \<Rightarrow> db" where
  "demo_devices_db K D now keys =
     (let account = demo_account K keys; laptop = demo_laptop K keys; phone = demo_phone K keys
      in persist_phase_5a_identity K (dvc_certificate D) now account phone (authorize_device K account phone)
           (persist_phase_5a_identity K (dvc_certificate D) now account laptop (authorize_device K account laptop) init_db))"

section \<open>Identities\<close>

record device_identity_report =
  dir_account_id :: string
  dir_laptop_id :: string
  dir_phone_id :: string
  dir_same_account :: bool
  dir_different_ed25519 :: bool
  dir_different_x25519 :: bool
  dir_stored :: nat

definition run_device_identity_demo :: "crypto \<Rightarrow> device_codec \<Rightarrow> u64 \<Rightarrow> account_keys \<Rightarrow> app_error + device_identity_report" where
  "run_device_identity_demo K D now keys =
     (let account = demo_account K keys; laptop = demo_laptop K keys; phone = demo_phone K keys
      in and_then (crypto_result (verify_device_certificate K (demo_account_key K keys) (authorize_device K account laptop))) (\<lambda>_.
         and_then (crypto_result (verify_device_certificate K (demo_account_key K keys) (authorize_device K account phone))) (\<lambda>_.
           let known_certs = device_certificates_for_account (acc_account_id account) (demo_devices_db K D now keys)
           in Inr \<lparr>dir_account_id = acc_account_id account, dir_laptop_id = dev_device_id laptop, dir_phone_id = dev_device_id phone,
                dir_same_account = (dev_account_id laptop = acc_account_id account \<and> dev_account_id phone = acc_account_id account),
                dir_different_ed25519 = (ik_public_key K (dev_signing laptop) \<noteq> ik_public_key K (dev_signing phone)),
                dir_different_x25519 = (xk_public (dev_x25519 laptop) \<noteq> xk_public (dev_x25519 phone)),
                dir_stored = length known_certs\<rparr>)))"

lemma demo_device_ids:
  "dev_account_id (demo_laptop K keys) = acc_account_id (demo_account K keys)"
  "dev_account_id (demo_phone K keys) = acc_account_id (demo_account K keys)"
  "dev_x25519 (demo_laptop K keys) = from_private_bytes K (xk_private (dev_x25519 (demo_laptop K keys)))"
  "dev_x25519 (demo_phone K keys) = from_private_bytes K (xk_private (dev_x25519 (demo_phone K keys)))"
  "dev_x25519 (demo_bob_device K keys) = from_private_bytes K (xk_private (dev_x25519 (demo_bob_device K keys)))"
  by (simp_all add: demo_laptop_def demo_phone_def demo_bob_device_def device_generate_def Let_def from_private_bytes_def)

lemma device_id_of_key: "dev_device_id (demo_laptop K keys) = device_id_for_public_key K (ik_public_key K (dev_signing (demo_laptop K keys)))"
  "dev_device_id (demo_phone K keys) = device_id_for_public_key K (ik_public_key K (dev_signing (demo_phone K keys)))"
  by (simp_all add: demo_laptop_def demo_phone_def device_generate_def Let_def)

lemma demo_certificate_rows:
  assumes "dev_device_id (demo_laptop K keys) \<noteq> dev_device_id (demo_phone K keys)"
  shows "device_certificates (demo_devices_db K D now keys) = map (\<lambda>d. \<lparr>dcf_account_id = acc_account_id (demo_account K keys),
      dcf_device_id = dev_device_id d, dcf_certificate = dvc_certificate D (authorize_device K (demo_account K keys) d),
      dcf_updated_at = as_i64 now\<rparr>) [demo_laptop K keys, demo_phone K keys]"
  using assms by (simp add: demo_devices_db_def Let_def persist_phase_5a_identity_def storage_defs init_db_def upsert_def has_key_def dcf_key_def)

text \<open>The certificates are read back in the order of the device ids.\<close>

lemma demo_certificates_loaded:
  assumes "dev_device_id (demo_laptop K keys) \<noteq> dev_device_id (demo_phone K keys)" "device_codec_ok D"
  defines "cs \<equiv> map (authorize_device K (demo_account K keys)) [demo_laptop K keys, demo_phone K keys]"
  shows "\<exists>loaded. load_device_certificates (dvc_certificate_decode D) (acc_account_id (demo_account K keys)) (demo_devices_db K D now keys) = Inr loaded
    \<and> loaded \<in> {cs, rev cs}"
    "length (device_certificates_for_account (acc_account_id (demo_account K keys)) (demo_devices_db K D now keys)) = 2"
proof -
  let ?L = "demo_laptop K keys" and ?P = "demo_phone K keys" and ?c = "authorize_device K (demo_account K keys)"
  have "device_certificates_for_account (acc_account_id (demo_account K keys)) (demo_devices_db K D now keys) =
      map (dvc_certificate D) (if dev_device_id ?L \<le> dev_device_id ?P then cs else rev cs)"
    using assms(1) by (auto simp: device_certificates_for_account_def demo_certificate_rows [OF assms(1)] select_order_by_def cs_def)
  then show "\<exists>loaded. load_device_certificates (dvc_certificate_decode D) (acc_account_id (demo_account K keys)) (demo_devices_db K D now keys) = Inr loaded
    \<and> loaded \<in> {cs, rev cs}"
    "length (device_certificates_for_account (acc_account_id (demo_account K keys)) (demo_devices_db K D now keys)) = 2"
    using assms(2) by (simp_all add: load_device_certificates_def device_codec_ok_def cs_def)
qed

lemma device_identity_demo_succeeds:
  assumes "sig_correct K" "device_codec_ok D" "dev_device_id (demo_laptop K keys) \<noteq> dev_device_id (demo_phone K keys)"
  shows "\<exists>report. run_device_identity_demo K D now keys = Inr report \<and> dir_same_account report \<and> dir_different_ed25519 report
    \<and> dir_stored report = 2"
  using demo_certificates [OF assms(1)] demo_certificates_loaded(2) [OF assms(3,2)] demo_device_ids(1,2) assms(3) device_id_of_key
  by (auto simp: run_device_identity_demo_def Let_def)

section \<open>One message to every device\<close>

record fanout_report =
  fdr_authorized :: nat
  fdr_same_logical :: bool
  fdr_ciphertexts_differ :: bool
  fdr_laptop_first :: string
  fdr_phone_first :: string
  fdr_laptop_second :: string
  fdr_pending_offline :: nat
  fdr_phone_second :: string
  fdr_pending_final :: nat

text \<open>The loop that opens a session for every certificate; the sessions are a \<^verbatim>\<open>BTreeMap\<close> by device id.\<close>

fun open_outbound_sessions ::
    "crypto \<Rightarrow> device_identity \<Rightarrow> bytes \<Rightarrow> device_certificate list \<Rightarrow> (string, device_session) btree
      \<Rightarrow> app_error + (string, device_session) btree" where
  "open_outbound_sessions K device public_key [] opened = Inr opened"
| "open_outbound_sessions K device public_key (certificate # certificates) opened =
     and_then (crypto_result (create_outbound_session K device public_key certificate)) (\<lambda>session.
       open_outbound_sessions K device public_key certificates (bt_insert (crt_device_id certificate) session opened))"

definition queue_for_device ::
    "crypto \<Rightarrow> device_codec \<Rightarrow> u64 \<Rightarrow> string \<Rightarrow> string \<Rightarrow> string \<Rightarrow> db \<Rightarrow> (string, device_session) btree
      \<Rightarrow> app_error + db \<times> (string, device_session) btree \<times> device_delivery_envelope" where
  "queue_for_device K D now device_id logical_message_id plaintext s opened =
     and_then (ok_or (bt_get opened device_id) (AppMessage ''missing session'')) (\<lambda>session.
       case encrypt_and_queue_device_delivery K (dvc_envelope D) (dvc_session D) (\<lambda>_. False) now logical_message_id plaintext s session of
         (s', session', res) \<Rightarrow> and_then res (\<lambda>envelope. Inr (s', bt_insert device_id session' opened, envelope)))"

definition run_device_fanout_demo :: "crypto \<Rightarrow> device_codec \<Rightarrow> u64 \<Rightarrow> account_keys \<Rightarrow> app_error + fanout_report" where
  "run_device_fanout_demo K D now keys =
     (let account = demo_account K keys; laptop = demo_laptop K keys; phone = demo_phone K keys; bob = demo_bob_device K keys;
          laptop_id = dev_device_id laptop; phone_id = dev_device_id phone; s0 = demo_devices_db K D now keys
      in and_then (load_device_certificates (dvc_certificate_decode D) (acc_account_id account) s0) (\<lambda>authorized_devices.
         and_then (open_outbound_sessions K bob (demo_account_key K keys) authorized_devices []) (\<lambda>bob_sessions.
         and_then (crypto_result (create_inbound_session K laptop (dev_device_id bob) (xk_public (dev_x25519 bob)))) (\<lambda>laptop_session.
         and_then (crypto_result (create_inbound_session K phone (dev_device_id bob) (xk_public (dev_x25519 bob)))) (\<lambda>phone_session.
         and_then (queue_for_device K D now laptop_id ''logical-1'' ''hello alice'' s0 bob_sessions) (\<lambda>(s1, bob_sessions1, laptop_first).
         and_then (queue_for_device K D now phone_id ''logical-1'' ''hello alice'' s1 bob_sessions1) (\<lambda>(s2, bob_sessions2, phone_first).
           case device_decrypt K laptop_first laptop_session of (laptop_session1, res1) \<Rightarrow>
         and_then (crypto_result res1) (\<lambda>laptop_plaintext.
           case device_decrypt K phone_first phone_session of (phone_session1, res2) \<Rightarrow>
         and_then (crypto_result res2) (\<lambda>phone_plaintext.
           let s3 = mark_outbox_delivered (delivery_outbox_id phone_first) now
                 (mark_outbox_delivered (delivery_outbox_id laptop_first) now s2)
           in and_then (queue_for_device K D now laptop_id ''logical-2'' ''second message'' s3 bob_sessions2) (\<lambda>(s4, bob_sessions3, laptop_second).
              and_then (queue_for_device K D now phone_id ''logical-2'' ''second message'' s4 bob_sessions3) (\<lambda>(s5, bob_sessions4, phone_second).
              and_then (crypto_result (snd (device_decrypt K laptop_second laptop_session1))) (\<lambda>laptop_second_plaintext.
                let s6 = mark_outbox_delivered (delivery_outbox_id laptop_second) now s5
                in and_then (ok_or (find (\<lambda>item. ob_recipient_id item = phone_id) (pending_outbox_items s6))
                     (AppMessage ''phone delivery did not remain pending'')) (\<lambda>pending_phone_delivery.
                   and_then (ok_or (dvc_envelope_decode D (ob_payload pending_phone_delivery)) AppCodec) (\<lambda>restored_phone_envelope.
                     if restored_phone_envelope \<noteq> phone_second then Inl (AppMessage ''assertion failed'')
                     else and_then (crypto_result (snd (device_decrypt K restored_phone_envelope phone_session1))) (\<lambda>phone_second_plaintext.
                       let s7 = mark_outbox_delivered (ob_message_id pending_phone_delivery) now s6
                       in Inr \<lparr>fdr_authorized = length authorized_devices,
                            fdr_same_logical = (de_logical_message_id laptop_first = de_logical_message_id phone_first),
                            fdr_ciphertexts_differ = (rm_ciphertext (de_message laptop_first) \<noteq> rm_ciphertext (de_message phone_first)),
                            fdr_laptop_first = laptop_plaintext, fdr_phone_first = phone_plaintext,
                            fdr_laptop_second = laptop_second_plaintext, fdr_pending_offline = length (pending_outbox_items s6),
                            fdr_phone_second = phone_second_plaintext, fdr_pending_final = length (pending_outbox_items s7)\<rparr>)))))))))))))))"

text \<open>Two ends of a session between devices after \<open>i\<close> deliveries.\<close>

definition device_ready :: "crypto \<Rightarrow> nat \<Rightarrow> device_session \<Rightarrow> device_session \<Rightarrow> bool" where
  "device_ready K i out inb \<longleftrightarrow> in_step K i (ds_session out) (ds_session inb) \<and> ds_remote_device_id out = ds_local_device_id inb
     \<and> ds_local_device_id out = ds_remote_device_id inb"

lemma device_sessions_open:
  assumes "crypto_ok K" "verify_device_certificate K pk cert = Inr ()"
    and "crt_x25519_public_key cert = xk_public (dev_x25519 remote)" "crt_device_id cert = dev_device_id remote"
    and "dev_x25519 dev = from_private_bytes K (xk_private (dev_x25519 dev))"
    and "dev_x25519 remote = from_private_bytes K (xk_private (dev_x25519 remote))"
  obtains out inb where "create_outbound_session K dev pk cert = Inr out"
    "create_inbound_session K remote (dev_device_id dev) (xk_public (dev_x25519 dev)) = Inr inb" "device_ready K 0 out inb"
    "ds_remote_device_id out = dev_device_id remote"
proof -
  have K: "hkdf_total K" "dh_agrees K" using assms(1) by (simp_all add: crypto_ok_def)
  obtain key where key: "derive_aead_key K (dev_x25519 dev) (xk_public (dev_x25519 remote)) = Inr key" using derive_aead_total [OF K(1)] by blast
  then have key': "derive_aead_key K (dev_x25519 remote) (xk_public (dev_x25519 dev)) = Inr key" using derive_aead_agree [OF K(2) assms(5,6)] by simp
  obtain sa sb where s: "ratchet_new K key RoleAlice (dev_x25519 dev) (xk_public (dev_x25519 remote)) = Inr sa"
    "ratchet_new K key RoleBob (dev_x25519 remote) (xk_public (dev_x25519 dev)) = Inr sb" "fresh_link sa sb"
    by (rule ratchet_new_linked [OF K(1) assms(5,6)])
  let ?out = "\<lparr>ds_local_device_id = dev_device_id dev, ds_remote_device_id = dev_device_id remote, ds_session = sa\<rparr>"
  let ?inb = "\<lparr>ds_local_device_id = dev_device_id remote, ds_remote_device_id = dev_device_id dev, ds_session = sb\<rparr>"
  show ?thesis
    by (rule that [of ?out ?inb]) (use assms(2-4) key key' s fresh_link_in_step [OF s(3)] in
        \<open>simp_all add: create_outbound_session_def create_inbound_session_def device_ready_def\<close>)
qed

lemma next_device_message:
  assumes "crypto_ok K" "device_ready K i out inb" "Suc i < 2 ^ 64" "is_str p"
  obtains out' inb' m where "device_encrypt K mid p out = (out', Inr \<lparr>de_logical_message_id = mid, de_sender_device_id = ds_local_device_id out,
      de_recipient_device_id = ds_remote_device_id out, de_message = m\<rparr>)"
    "device_decrypt K \<lparr>de_logical_message_id = mid, de_sender_device_id = ds_local_device_id out,
      de_recipient_device_id = ds_remote_device_id out, de_message = m\<rparr> inb = (inb', Inr p)"
    "device_ready K (Suc i) out' inb'" "ds_remote_device_id out' = ds_remote_device_id out"
proof -
  have st: "in_step K i (ds_session out) (ds_session inb)" using assms(2) by (simp add: device_ready_def)
  obtain sa sb m where m: "ratchet_encrypt K p (ds_session out) = (sa, Inr m)" "ratchet_decrypt K m (ds_session inb) = (sb, Inr p)"
    "in_step K (Suc i) sa sb" by (rule next_message [OF assms(1) st assms(3,4)])
  show ?thesis
    by (rule that [of "out\<lparr>ds_session := sa\<rparr>" m "inb\<lparr>ds_session := sb\<rparr>"])
       (use m assms(2) in \<open>simp_all add: device_encrypt_def device_decrypt_def device_ready_def\<close>)
qed

lemma open_sessions_ok:
  assumes "\<And>c. c \<in> set cs \<Longrightarrow> create_outbound_session K dev pk c = Inr (f c)" "distinct (map crt_device_id cs)"
  shows "\<exists>opened. open_outbound_sessions K dev pk cs opened0 = Inr opened \<and> (\<forall>c \<in> set cs. bt_get opened (crt_device_id c) = Some (f c))
    \<and> (\<forall>d. d \<notin> crt_device_id ` set cs \<longrightarrow> bt_get opened d = bt_get opened0 d)"
  using assms
proof (induction cs arbitrary: opened0)
  case (Cons c cs)
  then obtain opened where o: "open_outbound_sessions K dev pk cs (bt_insert (crt_device_id c) (f c) opened0) = Inr opened"
    "\<forall>x \<in> set cs. bt_get opened (crt_device_id x) = Some (f x)"
    "\<forall>d. d \<notin> crt_device_id ` set cs \<longrightarrow> bt_get opened d = bt_get (bt_insert (crt_device_id c) (f c) opened0) d"
    using Cons.IH [of "bt_insert (crt_device_id c) (f c) opened0"] by auto
  have "create_outbound_session K dev pk c = Inr (f c)" "crt_device_id c \<notin> crt_device_id ` set cs" using Cons.prems by simp_all
  with o show ?case by (intro exI [of _ opened]) simp
qed simp

definition device_outbox_row :: "device_codec \<Rightarrow> u64 \<Rightarrow> device_delivery_envelope \<Rightarrow> outbox_row" where
  "device_outbox_row D now env = \<lparr>ow_message_id = delivery_outbox_id env, ow_recipient_id = de_recipient_device_id env,
     ow_payload = dvc_envelope D env, ow_status = ''pending'', ow_retry_count = 0, ow_created_at = as_i64 now, ow_last_attempt = None\<rparr>"

lemma queue_for_device_ok:
  assumes "bt_get opened d = Some session" "device_encrypt K mid p session = (session', Inr env)"
    and "\<not> has_key ow_message_id (delivery_outbox_id env) (outbox s)"
  shows "\<exists>s'. queue_for_device K D now d mid p s opened = Inr (s', bt_insert d session' opened, env)
    \<and> outbox s' = outbox s @ [device_outbox_row D now env]"
  using assms by (simp add: queue_for_device_def encrypt_and_queue_device_delivery_def save_device_pair_session_and_outbox_def upsert_def
      transaction_def Let_def stmt_upsert_outbox_def stmt_upsert_device_pair_session_def outbox_item_to_row_def device_outbox_row_def as_i64_def)

lemma fanout_demo_succeeds:
  assumes "crypto_ok K" "sig_correct K" "device_codec_ok D" "dev_device_id (demo_laptop K keys) \<noteq> dev_device_id (demo_phone K keys)"
  shows "\<exists>report. run_device_fanout_demo K D now keys = Inr report \<and> fdr_authorized report = 2 \<and> fdr_same_logical report
    \<and> fdr_laptop_first report = ''hello alice'' \<and> fdr_phone_first report = ''hello alice''
    \<and> fdr_laptop_second report = ''second message'' \<and> fdr_phone_second report = ''second message''
    \<and> fdr_pending_offline report = 1 \<and> fdr_pending_final report = 0"
proof -
  let ?acc = "demo_account K keys" and ?pk = "demo_account_key K keys" and ?bob = "demo_bob_device K keys"
  let ?cL = "authorize_device K ?acc (demo_laptop K keys)" and ?cP = "authorize_device K ?acc (demo_phone K keys)"
  obtain L P where LP: "L = dev_device_id (demo_laptop K keys)" "P = dev_device_id (demo_phone K keys)" by blast
  have ne: "L \<noteq> P" "P \<noteq> L" using assms(4) LP by simp_all
  let ?s0 = "demo_devices_db K D now keys"
  obtain p1 p2 where p: "p1 = ''hello alice''" "p2 = ''second message''" by blast
  have str: "is_str p1" "is_str p2" unfolding p by code_simp+
  obtain outL inL where oL: "create_outbound_session K ?bob ?pk ?cL = Inr outL"
    "create_inbound_session K (demo_laptop K keys) (dev_device_id ?bob) (xk_public (dev_x25519 ?bob)) = Inr inL" "device_ready K 0 outL inL"
    "ds_remote_device_id outL = L"
    unfolding LP by (rule device_sessions_open [OF assms(1) demo_certificates(1) [OF assms(2)] certificate_ids(3,2) demo_device_ids(5,3)])
  obtain outP inP where oP: "create_outbound_session K ?bob ?pk ?cP = Inr outP"
    "create_inbound_session K (demo_phone K keys) (dev_device_id ?bob) (xk_public (dev_x25519 ?bob)) = Inr inP" "device_ready K 0 outP inP"
    "ds_remote_device_id outP = P"
    unfolding LP by (rule device_sessions_open [OF assms(1) demo_certificates(1) [OF assms(2)] certificate_ids(3,2) demo_device_ids(5,4)])
  obtain loaded where loaded: "load_device_certificates (dvc_certificate_decode D) (acc_account_id ?acc) ?s0 = Inr loaded"
    "loaded = [?cL, ?cP] \<or> loaded = [?cP, ?cL]" using demo_certificates_loaded(1) [OF assms(4,3), of now] by auto
  obtain opened where opened: "open_outbound_sessions K ?bob ?pk loaded [] = Inr opened" "bt_get opened L = Some outL" "bt_get opened P = Some outP"
    using open_sessions_ok [of loaded K ?bob ?pk "\<lambda>c. if crt_device_id c = L then outL else outP" "[]"] loaded(2) oL(1) oP(1) ne LP by auto
  obtain outL1 inL1 eL1 where L1: "device_encrypt K ''logical-1'' p1 outL = (outL1, Inr eL1)" "device_decrypt K eL1 inL = (inL1, Inr p1)"
    "device_ready K 1 outL1 inL1" "ds_remote_device_id outL1 = L" "de_logical_message_id eL1 = ''logical-1''" "de_recipient_device_id eL1 = L"
    by (rule next_device_message [OF assms(1) oL(3) _ str(1), of "''logical-1''"]) (auto simp: oL(4))
  obtain outP1 inP1 eP1 where P1: "device_encrypt K ''logical-1'' p1 outP = (outP1, Inr eP1)" "device_decrypt K eP1 inP = (inP1, Inr p1)"
    "device_ready K 1 outP1 inP1" "ds_remote_device_id outP1 = P" "de_logical_message_id eP1 = ''logical-1''" "de_recipient_device_id eP1 = P"
    by (rule next_device_message [OF assms(1) oP(3) _ str(1), of "''logical-1''"]) (auto simp: oP(4))
  obtain outL2 inL2 eL2 where L2: "device_encrypt K ''logical-2'' p2 outL1 = (outL2, Inr eL2)" "device_decrypt K eL2 inL1 = (inL2, Inr p2)"
    "de_logical_message_id eL2 = ''logical-2''" "de_recipient_device_id eL2 = L"
    by (rule next_device_message [OF assms(1) L1(3) _ str(2), of "''logical-2''"]) (auto simp: L1(4))
  obtain outP2 inP2 eP2 where P2: "device_encrypt K ''logical-2'' p2 outP1 = (outP2, Inr eP2)" "device_decrypt K eP2 inP1 = (inP2, Inr p2)"
    "de_logical_message_id eP2 = ''logical-2''" "de_recipient_device_id eP2 = P"
    by (rule next_device_message [OF assms(1) P1(3) _ str(2), of "''logical-2''"]) (auto simp: P1(4))
  have ids: "distinct [delivery_outbox_id eL1, delivery_outbox_id eP1, delivery_outbox_id eL2, delivery_outbox_id eP2]"
    using ne by (simp add: delivery_outbox_id_def L1(5,6) P1(5,6) L2(3,4) P2(3,4))
  then have ids': "distinct [delivery_outbox_id eP2, delivery_outbox_id eL2, delivery_outbox_id eP1, delivery_outbox_id eL1]" by auto
  have row: "ow_message_id (device_outbox_row D now e) = delivery_outbox_id e" for e by (simp add: device_outbox_row_def)
  have o0: "outbox ?s0 = []" by (simp add: demo_devices_db_def Let_def persist_phase_5a_identity_def storage_defs init_db_def)
  obtain s1 where s1: "queue_for_device K D now L ''logical-1'' p1 ?s0 opened = Inr (s1, bt_insert L outL1 opened, eL1)"
    "outbox s1 = [device_outbox_row D now eL1]"
    using queue_for_device_ok [OF opened(2) L1(1), of ?s0 D now] o0 by (auto simp: has_key_def)
  obtain s2 where s2: "queue_for_device K D now P ''logical-1'' p1 s1 (bt_insert L outL1 opened) = Inr (s2, bt_insert P outP1 (bt_insert L outL1 opened), eP1)"
    "outbox s2 = [device_outbox_row D now eL1, device_outbox_row D now eP1]"
    using queue_for_device_ok [OF _ P1(1), of "bt_insert L outL1 opened" P s1 D now] s1(2) opened(3) ne ids row by (auto simp: has_key_def)
  define dl where "dl = (\<lambda>r :: outbox_row. r\<lparr>ow_status := ''delivered'', ow_last_attempt := Some (as_i64 now)\<rparr>)"
  have mark: "outbox (mark_outbox_delivered x now s) = map (\<lambda>r. if ow_message_id r = x then dl r else r) (outbox s)" for x s
    by (simp add: mark_outbox_delivered_def update_where_def dl_def)
  have dl_id: "ow_message_id (dl r) = ow_message_id r" "ow_status (dl r) = ''delivered''" for r by (simp_all add: dl_def)
  define s3 where "s3 = mark_outbox_delivered (delivery_outbox_id eP1) now (mark_outbox_delivered (delivery_outbox_id eL1) now s2)"
  have o3: "outbox s3 = [dl (device_outbox_row D now eL1), dl (device_outbox_row D now eP1)]"
    using ids ids' by (simp add: s3_def mark s2(2) row dl_id)
  let ?o2 = "bt_insert P outP1 (bt_insert L outL1 opened)"
  obtain s4 where s4: "queue_for_device K D now L ''logical-2'' p2 s3 ?o2 = Inr (s4, bt_insert L outL2 ?o2, eL2)"
    "outbox s4 = [dl (device_outbox_row D now eL1), dl (device_outbox_row D now eP1), device_outbox_row D now eL2]"
    using queue_for_device_ok [OF _ L2(1), of ?o2 L s3 D now] o3 ne ids row dl_id by (auto simp: has_key_def)
  obtain s5 where s5: "queue_for_device K D now P ''logical-2'' p2 s4 (bt_insert L outL2 ?o2) = Inr (s5, bt_insert P outP2 (bt_insert L outL2 ?o2), eP2)"
    "outbox s5 = [dl (device_outbox_row D now eL1), dl (device_outbox_row D now eP1), device_outbox_row D now eL2, device_outbox_row D now eP2]"
    using queue_for_device_ok [OF _ P2(1), of "bt_insert L outL2 ?o2" P s4 D now] s4(2) ne ids row dl_id by (auto simp: has_key_def)
  define s6 where "s6 = mark_outbox_delivered (delivery_outbox_id eL2) now s5"
  have o6: "outbox s6 = [dl (device_outbox_row D now eL1), dl (device_outbox_row D now eP1), dl (device_outbox_row D now eL2), device_outbox_row D now eP2]"
    using ids ids' by (simp add: s6_def mark s5(2) row dl_id)
  define item where "item = outbox_item_from_row (device_outbox_row D now eP2)"
  have item: "ob_recipient_id item = P" "ob_payload item = dvc_envelope D eP2" "ob_message_id item = delivery_outbox_id eP2"
    by (simp_all add: item_def outbox_item_from_row_def device_outbox_row_def P2(4))
  have pending: "pending_outbox_items s6 = [item]"
    by (simp add: pending_outbox_items_def outbox_items_with_status_def select_order_by_def o6 dl_id item_def) (simp add: device_outbox_row_def)
  have none: "pending_outbox_items (mark_outbox_delivered (delivery_outbox_id eP2) now s6) = []"
    using ids ids' by (simp add: pending_outbox_items_def outbox_items_with_status_def select_order_by_def mark o6 dl_id row)
  have D: "dvc_envelope_decode D (dvc_envelope D eP2) = Some eP2" using assms(3) by (simp add: device_codec_ok_def)
  have two: "length loaded = 2" using loaded(2) by auto
  show ?thesis unfolding run_device_fanout_demo_def Let_def LP [symmetric] p [symmetric]
    by (simp add: loaded(1) opened(1) oL(2) oP(2) s1(1) s2(1) L1(2) P1(2) s3_def [symmetric] s4(1) s5(1) L2(2) s6_def [symmetric]
        pending item D P2(2) none two L1(5) P1(5))
qed

section \<open>A revoked device\<close>

record revocation_report =
  rvr_active_before :: nat
  rvr_revoked :: string
  rvr_stored_revocations :: nat
  rvr_active_after :: nat
  rvr_envelopes :: nat
  rvr_laptop_text :: string
  rvr_phone_received :: bool
  rvr_sync_allowed :: bool
  rvr_stored_events :: nat
  rvr_sessions_active_only :: bool

text \<open>The loop that sends one message to every active device.\<close>

fun send_to_devices ::
    "crypto \<Rightarrow> device_identity \<Rightarrow> bytes \<Rightarrow> device_certificate list \<Rightarrow> (string, device_session) btree \<Rightarrow> device_delivery_envelope list
      \<Rightarrow> app_error + (string, device_session) btree \<times> device_delivery_envelope list" where
  "send_to_devices K device public_key [] opened envelopes = Inr (opened, envelopes)"
| "send_to_devices K device public_key (certificate # certificates) opened envelopes =
     and_then (crypto_result (create_outbound_session K device public_key certificate)) (\<lambda>session.
       case device_encrypt K ''post-revocation-logical-1'' ''future laptop only'' session of (session', res) \<Rightarrow>
         and_then (crypto_result res) (\<lambda>envelope.
           send_to_devices K device public_key certificates (bt_insert (crt_device_id certificate) session' opened) (envelopes @ [envelope])))"

definition run_device_revocation_demo ::
    "crypto \<Rightarrow> device_codec \<Rightarrow> (sync_event list \<Rightarrow> 'w) \<Rightarrow> ('w \<Rightarrow> sync_event list option) \<Rightarrow> (conversation_event \<Rightarrow> app_error + bytes)
      \<Rightarrow> u64 \<Rightarrow> account_keys \<Rightarrow> app_error + revocation_report" where
  "run_device_revocation_demo K D ser de enc now keys =
     (let account = demo_account K keys; account_key = demo_account_key K keys; account_id = acc_account_id account;
          laptop = demo_laptop K keys; phone = demo_phone K keys; bob = demo_bob_device K keys;
          laptop_certificate = authorize_device K account laptop; phone_certificate = authorize_device K account phone;
          conversation_id = ''revocation-demo-conversation''
      in and_then (crdt_demo_event enc conversation_id (dev_device_id phone) 1
             (MessageCreated ''old-phone-message'' account_id (as_bytes ''old phone history remains''))) (\<lambda>phone_history.
         let s0 = append_each [phone_history] (demo_devices_db K D now keys)
         in and_then (load_device_certificates (dvc_certificate_decode D) account_id s0) (\<lambda>certificates_before.
            and_then (crypto_result (active_device_certificates K account_key certificates_before [])) (\<lambda>active_before.
              let revocation = revoke_device K account (dev_device_id phone) 1
              in and_then (crypto_result (verify_device_revocation K account_key revocation)) (\<lambda>_.
                 let save = save_device_revocation account_id (dev_device_id phone) (rev_revocation_counter revocation)
                        (dvc_revocation D revocation) now;
                     s1 = save (save s0)
                 in and_then (load_device_certificates (dvc_certificate_decode D) account_id s1) (\<lambda>certificates_after.
                    and_then (load_device_revocations (dvc_revocation_decode D) account_id s1) (\<lambda>revocations_after.
                    and_then (crypto_result (active_device_certificates K account_key certificates_after revocations_after)) (\<lambda>active_after.
                    and_then (send_to_devices K bob account_key active_after [] []) (\<lambda>(bob_sessions, new_envelopes).
                    and_then (ok_or (find (\<lambda>e. de_recipient_device_id e = dev_device_id laptop) new_envelopes)
                        (AppMessage ''laptop did not receive post-revocation envelope'')) (\<lambda>laptop_envelope.
                    and_then (crypto_result (create_inbound_session K laptop (dev_device_id bob) (xk_public (dev_x25519 bob)))) (\<lambda>laptop_session.
                    and_then (crypto_result (snd (device_decrypt K laptop_envelope laptop_session))) (\<lambda>laptop_plaintext.
                      Inr \<lparr>rvr_active_before = length active_before, rvr_revoked = rev_device_id revocation,
                        rvr_stored_revocations = length revocations_after, rvr_active_after = length active_after,
                        rvr_envelopes = length new_envelopes, rvr_laptop_text = laptop_plaintext,
                        rvr_phone_received = list_ex (\<lambda>e. de_recipient_device_id e = dev_device_id phone) new_envelopes,
                        rvr_sync_allowed = (case sync_authorized_sibling_devices K ser de no_failures no_failures account_key laptop_certificate
                          phone_certificate revocations_after conversation_id s1 s1 of (_, _, Inr _) \<Rightarrow> True | _ \<Rightarrow> False),
                        rvr_stored_events = length (all_sync_events s1 conversation_id),
                        rvr_sessions_active_only = (bt_get bob_sessions (dev_device_id laptop) \<noteq> None
                          \<and> bt_get bob_sessions (dev_device_id phone) = None)\<rparr>))))))))))))"

lemma revocation_ids [simp]:
  "rev_account_id (revoke_device K a d n) = acc_account_id a" "rev_device_id (revoke_device K a d n) = d"
  "rev_revocation_counter (revoke_device K a d n) = n"
  by (simp_all add: revoke_device_def Let_def)

lemma revocation_demo_succeeds:
  assumes "crypto_ok K" "sig_correct K" "device_codec_ok D" "event_codec_ok enc dec"
    and "dev_device_id (demo_laptop K keys) \<noteq> dev_device_id (demo_phone K keys)"
  shows "\<exists>report. run_device_revocation_demo K D ser de enc now keys = Inr report \<and> rvr_active_before report = 2
    \<and> rvr_stored_revocations report = 1 \<and> rvr_active_after report = 1 \<and> rvr_envelopes report = 1
    \<and> rvr_laptop_text report = ''future laptop only'' \<and> \<not> rvr_phone_received report \<and> \<not> rvr_sync_allowed report
    \<and> rvr_stored_events report = 1 \<and> rvr_sessions_active_only report"
proof -
  let ?acc = "demo_account K keys" and ?pk = "demo_account_key K keys" and ?bob = "demo_bob_device K keys" and ?c = "''revocation-demo-conversation''"
  let ?cL = "authorize_device K ?acc (demo_laptop K keys)" and ?cP = "authorize_device K ?acc (demo_phone K keys)"
  obtain L P where LP: "L = dev_device_id (demo_laptop K keys)" "P = dev_device_id (demo_phone K keys)" by blast
  have ne: "L \<noteq> P" "P \<noteq> L" using assms(5) LP by simp_all
  let ?r = "revoke_device K ?acc P 1"
  have rv: "verify_device_revocation K ?pk ?r = Inr ()" and cv: "\<And>d. verify_device_certificate K ?pk (authorize_device K ?acc d) = Inr ()"
    using demo_certificates [OF assms(2)] by simp_all
  obtain e where e: "crdt_demo_event enc ?c P 1 (MessageCreated ''old-phone-message'' (acc_account_id ?acc) (as_bytes ''old phone history remains'')) = Inr e"
    "ev_position e = (P, 1)" "ev_conversation_id e = ?c"
    using demo_event_ok [OF assms(4)] by blast
  define s0 where "s0 = append_each [e] (demo_devices_db K D now keys)"
  define save where "save = save_device_revocation (acc_account_id ?acc) P 1 (dvc_revocation D ?r) now"
  have auth: "is_device_currently_authorized K ?pk ?cL [?r] = Inr True" "is_device_currently_authorized K ?pk ?cP [?r] = Inr False"
    "is_device_currently_authorized K ?pk ?cL [] = Inr True" "is_device_currently_authorized K ?pk ?cP [] = Inr True"
    using ne LP rv by (simp_all add: is_device_currently_authorized_def cv)
  have same: "device_certificates s0 = device_certificates (demo_devices_db K D now keys)" "device_revocations s0 = []"
    "device_certificates (save (save s0)) = device_certificates s0"
    by (simp_all add: s0_def append_each_def append_event_ok refresh_vector_for_device_def stmt_insert_event_def Let_def save_def
        save_device_revocation_def demo_devices_db_def persist_phase_5a_identity_def storage_defs init_db_def)
  obtain loaded where loaded: "load_device_certificates (dvc_certificate_decode D) (acc_account_id ?acc) (demo_devices_db K D now keys) = Inr loaded"
    "loaded = [?cL, ?cP] \<or> loaded = [?cP, ?cL]" using demo_certificates_loaded(1) [OF assms(5,3), of now] by auto
  have "load_device_certificates (dvc_certificate_decode D) (acc_account_id ?acc) s0 = Inr loaded"
    "load_device_certificates (dvc_certificate_decode D) (acc_account_id ?acc) (save (save s0)) = Inr loaded"
    using loaded(1) same by (simp_all add: load_device_certificates_def device_certificates_for_account_def)
  moreover have "load_device_revocations (dvc_revocation_decode D) (acc_account_id ?acc) (save (save s0)) = Inr [?r]"
    using assms(3) by (simp add: load_device_revocations_def device_revocations_for_account_def save_def save_device_revocation_def same(2)
        upsert_def has_key_def drv_key_def merge_revocation_def select_order_by_def device_codec_ok_def)
  moreover have "active_device_certificates K ?pk loaded [?r] = Inr [?cL]" "active_device_certificates K ?pk loaded [] = Inr loaded"
    using loaded(2) auth by (auto simp: active_device_certificates_def List.map_filter_simps)
  moreover have "verify_authorized_sibling_devices K ?pk ?cL ?cP = Inr ()" using ne LP by (simp add: verify_authorized_sibling_devices_def cv)
  ultimately have steps: "load_device_certificates (dvc_certificate_decode D) (acc_account_id ?acc) s0 = Inr loaded"
    "load_device_certificates (dvc_certificate_decode D) (acc_account_id ?acc) (save (save s0)) = Inr loaded"
    "load_device_revocations (dvc_revocation_decode D) (acc_account_id ?acc) (save (save s0)) = Inr [?r]"
    "active_device_certificates K ?pk loaded [?r] = Inr [?cL]" "active_device_certificates K ?pk loaded [] = Inr loaded"
    "verify_authorized_sibling_devices K ?pk ?cL ?cP = Inr ()" by blast+
  obtain p where p: "p = ''future laptop only''" by blast
  have str: "is_str p" unfolding p by code_simp
  obtain outL inL where oL: "create_outbound_session K ?bob ?pk ?cL = Inr outL"
    "create_inbound_session K (demo_laptop K keys) (dev_device_id ?bob) (xk_public (dev_x25519 ?bob)) = Inr inL" "device_ready K 0 outL inL"
    "ds_remote_device_id outL = L"
    unfolding LP by (rule device_sessions_open [OF assms(1) demo_certificates(1) [OF assms(2)] certificate_ids(3,2) demo_device_ids(5,3)])
  obtain outL1 inL1 eL where L1: "device_encrypt K ''post-revocation-logical-1'' p outL = (outL1, Inr eL)" "device_decrypt K eL inL = (inL1, Inr p)"
    "de_recipient_device_id eL = L"
    by (rule next_device_message [OF assms(1) oL(3) _ str, of "''post-revocation-logical-1''"]) (auto simp: oL(4))
  have sent: "send_to_devices K ?bob ?pk [?cL] [] [] = Inr (bt_insert L outL1 [], [eL])"
    using L1(1) by (simp add: oL(1) p LP(1))
  have refused: "sync_authorized_sibling_devices K ser de no_failures no_failures ?pk ?cL ?cP [?r] ?c s s =
      (s, s, Inl (AppMessage ''sibling device is revoked''))" for s
    by (simp add: sync_authorized_sibling_devices_def steps(6) auth)
  obtain c where c: "c = ?c" by blast
  have "event_history (save (save s0)) = [event_to_row e]"
    by (simp add: s0_def append_each_def append_event_ok refresh_vector_for_device_def stmt_insert_event_def Let_def save_def insert_or_ignore_def
        save_device_revocation_def demo_devices_db_def persist_phase_5a_identity_def storage_defs init_db_def has_key_def)
  moreover have "ev_conversation_id e = c" "ev_counter e = 1" using e(2,3) c by (simp_all add: ev_position_def)
  ultimately have events: "length (all_sync_events (save (save s0)) c) = 1"
    by (simp add: all_sync_events_def missing_events_for_def select_order_by_def event_to_row_def event_from_row_def as_i64_def as_u64_def)
  have two: "length loaded = 2" using loaded(2) by auto
  show ?thesis unfolding run_device_revocation_demo_def Let_def LP [symmetric] c [symmetric] revocation_ids
    unfolding e(1) [folded c] and_then.simps s0_def [symmetric] save_def [symmetric]
    by (simp add: steps(1-5) rv sent L1(2,3) oL(2) refused [folded c] events two ne p del: send_to_devices.simps)
qed

end
