(* ===== verification/MailboxSmoke.thy ===== *)
theory MailboxSmoke
  imports MailboxNode
begin

text \<open>
  The smoke test of the mailbox (\<^verbatim>\<open>run_phase6_mailbox_smoke_with_dbs\<close> and \<^verbatim>\<open>run_phase6_mailbox_server_until_ack\<close>
  of \<^verbatim>\<open>src/src/main.rs\<close>): a node that ends with the first answered acknowledgement, and the two mailbox clients
  on fresh databases.
\<close>

section \<open>The node of the test\<close>

datatype smoke_event = SmokeTimeout | SmokeRequest mailbox_request | SmokeResponseSent | OtherSmokeEvent

text \<open>The flag is \<^verbatim>\<open>ack_response_pending\<close>; without a result the node is still serving.\<close>

fun run_phase6_mailbox_server_until_ack ::
    "(u64 \<times> smoke_event) list \<Rightarrow> bool \<Rightarrow> mailbox \<Rightarrow> mailbox \<times> mailbox_response list \<times> (app_error + unit) option" where
  "run_phase6_mailbox_server_until_ack [] pending m = (m, [], None)"
| "run_phase6_mailbox_server_until_ack ((now, SmokeTimeout) # evs) pending m =
     (m, [], Some (Inl (AppMessage ''mailbox smoke server timed out waiting for ACK'')))"
| "run_phase6_mailbox_server_until_ack ((now, SmokeRequest request) # evs) pending m =
     (case handle_mailbox_request now request m of (m1, response) \<Rightarrow>
        (case run_phase6_mailbox_server_until_ack evs (case request of MbAcknowledge _ \<Rightarrow> True | _ \<Rightarrow> False) m1 of
           (m2, responses, r) \<Rightarrow> (m2, response # responses, r)))"
| "run_phase6_mailbox_server_until_ack ((now, SmokeResponseSent) # evs) pending m =
     (if pending then (m, [], Some (Inr ())) else run_phase6_mailbox_server_until_ack evs pending m)"
| "run_phase6_mailbox_server_until_ack ((now, OtherSmokeEvent) # evs) pending m =
     run_phase6_mailbox_server_until_ack evs pending m"

text \<open>Up to its end this node answers like the one of \<^verbatim>\<open>run_mailbox_node\<close>, and it ends well only after an acknowledgement.\<close>

lemma smoke_server_is_node:
  assumes "run_phase6_mailbox_server_until_ack evs pending m = (m', responses, r)"
  shows "\<exists>served. run_mailbox_node (map (\<lambda>(now, request). (now, NodeRequest request)) served) m = (m', responses, False)
    \<and> set (map snd served) \<subseteq> {request. SmokeRequest request \<in> snd ` set evs}
    \<and> (r = Some (Inr ()) \<longrightarrow> pending \<or> (\<exists>mid. MbAcknowledge mid \<in> set (map snd served)))"
  using assms
proof (induction evs pending m arbitrary: m' responses r rule: run_phase6_mailbox_server_until_ack.induct)
  case (3 now request evs pending m)
  obtain m1 response where h: "handle_mailbox_request now request m = (m1, response)" by fastforce
  let ?p = "case request of MbAcknowledge _ \<Rightarrow> True | _ \<Rightarrow> False"
  obtain m2 rs where rest: "run_phase6_mailbox_server_until_ack evs ?p m1 = (m2, rs, r)" "m' = m2" "responses = response # rs"
    using 3(2) h by (auto split: prod.splits)
  obtain served where "run_mailbox_node (map (\<lambda>(now, request). (now, NodeRequest request)) served) m1 = (m2, rs, False)"
    "set (map snd served) \<subseteq> {request. SmokeRequest request \<in> snd ` set evs}"
    "r = Some (Inr ()) \<longrightarrow> ?p \<or> (\<exists>mid. MbAcknowledge mid \<in> set (map snd served))"
    using 3(1) [OF h [symmetric] rest(1)] by blast
  then show ?case by (intro exI [of _ "(now, request) # served"]) (auto simp: h rest split: mailbox_request.splits)
next
  case (4 now evs pending m)
  show ?case
  proof (cases pending)
    case True
    then show ?thesis using 4(2) by (intro exI [of _ "[]"]) auto
  next
    case False
    then show ?thesis using 4 by fastforce
  qed
next
  case (5 now evs pending m)
  then show ?case by fastforce
qed (intro exI [of _ "[]"]; auto)+

section \<open>The test\<close>

definition MAILBOX_MAX_ENVELOPES :: nat where
  "MAILBOX_MAX_ENVELOPES = 64"

text \<open>
  \<open>secret\<close>, \<open>private\<close> and \<open>ephemeral\<close> are Alice's fresh keys, \<open>now\<close> and \<open>fetched\<close> the clocks of the two clients and
  \<open>node_now\<close> and \<open>node_fetched\<close> those of the node, whose events are \<open>evs\<close>.  The link is up.
\<close>

definition run_phase6_mailbox_smoke_with_dbs ::
    "crypto \<Rightarrow> codec \<Rightarrow> bytes \<Rightarrow> bytes \<Rightarrow> bytes \<Rightarrow> u64 \<Rightarrow> u64 \<Rightarrow> u64 \<Rightarrow> u64 \<Rightarrow> (u64 \<times> smoke_event) list \<Rightarrow> (app_error + unit) option" where
  "run_phase6_mailbox_smoke_with_dbs K C secret private ephemeral now node_now fetched node_fetched evs =
     (let store = mailbox_open MAILBOX_MAX_ENVELOPES
      in case run_alice_mailbox_deposit K C (\<lambda>_. False) LinkUp secret private ephemeral now node_now
             ''phase6 offline mailbox delivery'' init_db store of
           (_, _, Inl e) \<Rightarrow> Some (Inl e)
         | (_, m1, Inr _) \<Rightarrow>
             (case run_bob_mailbox_fetch K C (\<lambda>_. LinkUp) fetched node_fetched init_db m1 of
                (_, _, Inl e) \<Rightarrow> Some (Inl e)
              | (_, m2, Inr _) \<Rightarrow>
                  (case run_phase6_mailbox_server_until_ack evs False store of
                     (m, _, None) \<Rightarrow> None
                   | (m, _, Some (Inl e)) \<Rightarrow> Some (Inl e)
                   | (m, _, Some (Inr _)) \<Rightarrow>
                       Some (if pending_count m \<noteq> 0 then Inl (AppMessage ''mailbox still has pending envelopes after ACK'') else Inr ()))))"

text \<open>The events of the node when every request of the two clients reaches it and its answers are sent.\<close>

definition smoke_events :: "offline_envelope \<Rightarrow> u64 \<Rightarrow> u64 \<Rightarrow> (u64 \<times> smoke_event) list" where
  "smoke_events envelope node_now node_fetched =
     [(node_now, SmokeRequest (MbDeposit envelope)), (node_now, SmokeResponseSent),
      (node_fetched, SmokeRequest (MbFetch (oe_recipient_token envelope))), (node_fetched, SmokeResponseSent),
      (node_fetched, SmokeRequest (MbAcknowledge (oe_message_id envelope))), (node_fetched, SmokeResponseSent)]"

lemma mailbox_smoke_passes:
  assumes "crypto_ok K" "sig_correct K" "codec_ok C" "as_i64 node_fetched < as_i64 (now + MAILBOX_ENVELOPE_TTL_SECS)"
  shows "\<exists>envelope. run_phase6_mailbox_smoke_with_dbs K C secret private ephemeral now node_now fetched node_fetched
      (smoke_events envelope node_now node_fetched) = Some (Inr ())"
proof -
  obtain p where p: "p = ''phase6 offline mailbox delivery''" by blast
  have str: "is_str p" unfolding p by code_simp
  obtain store where store: "store = mailbox_open (Suc 63)" "store = mailbox_open MAILBOX_MAX_ENVELOPES" by (simp add: MAILBOX_MAX_ENVELOPES_def)
  obtain sa m1 where m1: "run_alice_mailbox_deposit K C (\<lambda>_. False) LinkUp secret private ephemeral now node_now p init_db store
      = (sa, m1, Inr ())" "length (mb_rows m1) = 1"
    unfolding store(1) by (rule alice_deposit_open [OF assms(1,2) str])
  obtain pb a im x where pb: "bob_prekey_bundle K (bob_mailbox_demo K) = Inr pb"
    and im: "encrypt_initial_message K ephemeral pb p (alice_local K secret private) = (a, Inr im)"
    and dep: "handle_mailbox_request node_now (MbDeposit (deposited_envelope K C now pb im)) store = (m1, MbDeposited x)"
    by (rule alice_deposit_request [OF m1(1)])
  let ?e = "deposited_envelope K C now pb im" and ?row = "deposited_row K C now node_now pb im"
  have "expire node_now store = store" by (simp add: store(1) expire_def mailbox_open_def update_where_def)
  then have rows: "mb_rows m1 = mb_rows (expire node_now store) @ [?row]" "mb_rows m1 = [?row]"
    using deposit_appends [OF dep] m1(2) by (simp_all add: store(1) mailbox_open_def deposited_row_def envelope_to_row_def deposited_envelope_def)
  let ?tok = "recipient_token_for_bundle K pb"
  have fetched: "snd (fetch_pending ?tok node_fetched m1) = [envelope_from_row ?row]"
    by (rule fetch_deposited [OF rows(1) _ assms(4)]) (simp add: store(1) mailbox_open_def fetch_rows select_order_by_def)
  have "\<not> row_expired (as_i64 node_fetched) ?row" using assms(4) by (simp add: row_expired_def deposited_row_def)
  then have kept: "fst (fetch_pending ?tok node_fetched m1) = m1"
    using rows(2) by (simp add: fetch_pending_def Let_def expire_def update_where_def)
  obtain b' where b': "decrypt_initial_message K im (bob_mailbox_demo K) = (b', Inr p)"
    using initial_message_run [OF assms(1,2) bob_mailbox_demo_wf pb str im] by blast
  have e: "as_offline (envelope_from_row ?row) = ?e"
    by (simp add: as_offline_def envelope_from_row_def deposited_row_def deposited_envelope_def)
  have new: "cd_initial_decode C (oe_encrypted_payload ?e) = Some im" "oe_message_id ?e \<notin> set (accepted_ids init_db)"
    using assms(3) by (simp_all add: codec_ok_def deposited_envelope_def init_db_def accepted_ids_def)
  obtain s1 where s1: "receive_envelope K C fetched ?tok ?e init_db (bob_mailbox_demo K) = (s1, b', Inr ())"
    using receive_fresh [of ?e init_db C im K "bob_mailbox_demo K" b' p fetched ?tok, OF new(2,1) b'] by blast
  let ?m2 = "acknowledge_retrieval (oe_message_id ?e) node_fetched m1"
  have bob: "run_bob_mailbox_fetch K C (\<lambda>_. LinkUp) fetched node_fetched init_db m1 = (s1, ?m2, Inr ())"
    unfolding run_fetch_up [where l = "\<lambda>_. LinkUp", OF pb refl] fetched kept
    by (simp add: e s1 mailbox_request_call_def acknowledged_def)
  have ask: "handle_mailbox_request node_fetched (MbFetch (oe_recipient_token ?e)) m1 = (m1, MbPending [?e])"
    using fetched kept e by (simp add: case_prod_unfold as_offline_def deposited_envelope_def)
  have ack: "handle_mailbox_request node_fetched (MbAcknowledge (oe_message_id ?e)) m1 = (?m2, MbAcknowledged (oe_message_id ?e))" by simp
  have served: "run_phase6_mailbox_server_until_ack (smoke_events ?e node_now node_fetched) False store =
      (?m2, [MbDeposited x, MbPending [?e], MbAcknowledged (oe_message_id ?e)], Some (Inr ()))"
    by (simp add: smoke_events_def dep ask ack del: handle_mailbox_request.simps)
  have "pending_count ?m2 = 0"
    using rows(2) by (simp add: pending_count_def count_where_def acknowledge_retrieval_def update_where_def deposited_row_def deposited_envelope_def)
  then show ?thesis
    by (intro exI [of _ ?e])
       (simp add: run_phase6_mailbox_smoke_with_dbs_def store(2) [symmetric] m1(1) [unfolded p] bob served)
qed

end
