(* ===== verification/NetworkDemos.thy ===== *)
theory NetworkDemos
  imports OneShot
begin

text \<open>
  The smoke test of the relayed path (\<^verbatim>\<open>run_phase6_relay_bob_until_ack\<close>, \<^verbatim>\<open>run_phase6_relay_smoke\<close>) and the
  Kademlia demonstration (\<^verbatim>\<open>run_kademlia_demo\<close>, \<^verbatim>\<open>handle_demo_event\<close>) of \<^verbatim>\<open>src/src/main.rs\<close> as loops over the
  events of their swarms; what is only printed is left out.
\<close>

section \<open>Bob behind a relay\<close>

datatype relay_bob_event =
    RelayBobTimeout
  | RelayBobReserved
  | RelayBobIdentify peer_id "multiaddr list"
  | RelayBobApp bob_app_event
  | OtherRelayBobEvent

datatype relay_bob_action = RelayBobAddAddress peer_id multiaddr | SignalReady | RelayBobRespond cm_response | RelayBobPrint string

definition app_actions :: "cm_response option \<Rightarrow> string option \<Rightarrow> relay_bob_action list" where
  "app_actions response printed = (case printed of None \<Rightarrow> [] | Some text \<Rightarrow> [RelayBobPrint text])
     @ (case response of None \<Rightarrow> [] | Some r \<Rightarrow> [RelayBobRespond r])"

text \<open>\<open>ready\<close> says whether the readiness is still to be signalled; without a result Bob is still waiting.\<close>

fun run_phase6_relay_bob_until_ack ::
    "crypto \<Rightarrow> chat_codec \<Rightarrow> (prekey_bundle \<Rightarrow> bytes) \<Rightarrow> (app_error \<Rightarrow> string) \<Rightarrow> relay_bob_event list \<Rightarrow> bool \<Rightarrow> relayed_bob
      \<Rightarrow> relayed_bob \<times> relay_bob_action list \<times> (app_error + unit) option" where
  "run_phase6_relay_bob_until_ack K C enc_bundle error_text [] ready st = (st, [], None)"
| "run_phase6_relay_bob_until_ack K C enc_bundle error_text (RelayBobTimeout # evs) ready st =
     (st, [], Some (Inl (AppMessage ''relay smoke Bob timed out waiting for Alice'')))"
| "run_phase6_relay_bob_until_ack K C enc_bundle error_text (RelayBobReserved # evs) ready st =
     (case run_phase6_relay_bob_until_ack K C enc_bundle error_text evs False st of
        (st1, acts, r) \<Rightarrow> (st1, (if ready then [SignalReady] else []) @ acts, r))"
| "run_phase6_relay_bob_until_ack K C enc_bundle error_text (RelayBobIdentify peer addresses # evs) ready st =
     (case run_phase6_relay_bob_until_ack K C enc_bundle error_text evs ready st of
        (st1, acts, r) \<Rightarrow> (st1, map (RelayBobAddAddress peer) addresses @ acts, r))"
| "run_phase6_relay_bob_until_ack K C enc_bundle error_text (RelayBobApp event # evs) ready st =
     (case handle_bob_app_event K C enc_bundle error_text event st of
        (st1, response, printed, Inl e) \<Rightarrow> (st1, app_actions response printed, Some (Inl e))
      | (st1, response, printed, Inr finished) \<Rightarrow>
          if finished then (st1, app_actions response printed, Some (Inr ()))
          else (case run_phase6_relay_bob_until_ack K C enc_bundle error_text evs ready st1 of
                  (st2, acts, r) \<Rightarrow> (st2, app_actions response printed @ acts, r)))"
| "run_phase6_relay_bob_until_ack K C enc_bundle error_text (OtherRelayBobEvent # evs) ready st =
     run_phase6_relay_bob_until_ack K C enc_bundle error_text evs ready st"

text \<open>
  The test: Alice starts when Bob has signalled that his reservation is ready.  \<open>bob_evs\<close> and \<open>alice_evs\<close> are the
  events of the two swarms.
\<close>

definition run_phase6_relay_smoke ::
    "crypto \<Rightarrow> chat_codec \<Rightarrow> (prekey_bundle \<Rightarrow> bytes) \<Rightarrow> (app_error \<Rightarrow> string) \<Rightarrow> multiaddr \<Rightarrow> peer_id \<Rightarrow> bob \<Rightarrow> alice
      \<Rightarrow> relay_bob_event list \<Rightarrow> (bytes \<times> relay_event) list \<Rightarrow> (app_error + unit) option" where
  "run_phase6_relay_smoke K C enc_bundle error_text relay_addr bob_peer_id b a bob_evs alice_evs =
     (case run_phase6_relay_bob_until_ack K C enc_bundle error_text bob_evs True \<lparr>rb_bob = b, rb_final_ack_pending = False\<rparr> of
        (_, acts, bob_result) \<Rightarrow>
          if SignalReady \<notin> set acts then Some (Inl (AppMessage (case bob_result of
              None \<Rightarrow> ''relay smoke timed out waiting for Bob relay reservation''
            | Some _ \<Rightarrow> ''relay smoke Bob stopped before reservation was ready'')))
          else (case run_alice_relayed_start [relay_addr] bob_peer_id a of
                  Inl e \<Rightarrow> Some (Inl e)
                | Inr (st, dialled) \<Rightarrow>
                    (case run_alice_relayed K C bob_peer_id ''phase6 relay fallback delivery'' alice_evs st of
                       (_, _, RelayContinue) \<Rightarrow> None
                     | (_, _, RelayFailed e) \<Rightarrow> Some (Inl e)
                     | (_, _, RelayDone) \<Rightarrow> bob_result)))"

text \<open>Bob ends well only when he has acknowledged a message he could decrypt, and signals his readiness at most once.\<close>

lemma handled_app_event:
  assumes "handle_bob_app_event K C enc_bundle error_text event st = (st1, response, printed, res)" "\<not> rb_final_ack_pending st"
  shows "rb_final_ack_pending st1 \<Longrightarrow> response = Some (CmAck (as_bytes ''ok''))" and "res \<noteq> Inr True"
proof -
  have "(rb_final_ack_pending st1 \<longrightarrow> response = Some (CmAck (as_bytes ''ok''))) \<and> res \<noteq> Inr True"
  proof (cases event)
    case (BobRequest request)
    then show ?thesis
      using assms
      by (cases request) (auto split: sum.splits prod.splits)
  qed (use assms in auto)
  then show "rb_final_ack_pending st1 \<Longrightarrow> response = Some (CmAck (as_bytes ''ok''))" and "res \<noteq> Inr True" by blast+
qed

lemma relay_bob_ends_acknowledged:
  assumes "run_phase6_relay_bob_until_ack K C enc_bundle error_text evs ready st = (st', acts, Some (Inr ()))"
    and "\<not> rb_final_ack_pending st"
  shows "RelayBobRespond (CmAck (as_bytes ''ok'')) \<in> set acts"
  using assms
proof (induction evs arbitrary: ready st acts)
  case (Cons ev evs)
  show ?case
  proof (cases ev)
    case (RelayBobApp event)
    obtain st1 response printed res where h: "handle_bob_app_event K C enc_bundle error_text event st = (st1, response, printed, res)"
      by (metis prod_cases4)
    note handled = handled_app_event [OF h Cons.prems(2)]
    from Cons.prems(1) h handled(2) RelayBobApp obtain acts2 where
      "run_phase6_relay_bob_until_ack K C enc_bundle error_text evs ready st1 = (st', acts2, Some (Inr ()))"
      "acts = app_actions response printed @ acts2"
      by (cases res) (auto split: prod.splits if_splits)
    then show ?thesis using Cons.IH handled(1) by (cases "rb_final_ack_pending st1") (auto simp: app_actions_def)
  qed (use Cons in \<open>auto split: prod.splits if_splits\<close>)
qed simp

lemma relay_bob_signals_once:
  "run_phase6_relay_bob_until_ack K C enc_bundle error_text evs ready st = (st', acts, r)
     \<Longrightarrow> length (filter (\<lambda>a. a = SignalReady) acts) \<le> (if ready then 1 else 0)"
  by (induction K C enc_bundle error_text evs ready st arbitrary: st' acts r rule: run_phase6_relay_bob_until_ack.induct)
     (force simp: app_actions_def split: prod.splits sum.splits if_splits option.splits)+

text \<open>When the relay passes everything on, the test succeeds and Bob prints the message.\<close>

lemma relay_smoke_passes:
  assumes "crypto_ok K" "sig_correct K" "bob_wf K b" "bo_one_time_prekey b \<noteq> None" "snd (strip_p2p relay_addr) \<noteq> None"
    and C: "\<And>x. cc_bare_prekey_decode C (enc_bundle x) = Some x" "\<And>m. cd_initial_decode C (cd_initial C m) = Some m"
  shows "\<exists>bundle initial. run_phase6_relay_smoke K C enc_bundle error_text relay_addr bob_peer_id b a
      [RelayBobReserved, RelayBobApp (BobRequest CmPreKeyBundle), RelayBobApp BobResponseSent,
       RelayBobApp (BobRequest (CmInitialMessage initial)), RelayBobApp BobResponseSent]
      [(p1, RelayConnected bob_peer_id), (p2, RelayResponse (CmBundle bundle)), (p3, RelayResponse (CmAck (as_bytes ''ok'')))]
      = Some (Inr ())"
proof -
  obtain p where p: "p = ''phase6 relay fallback delivery''" by blast
  have str: "is_str p" unfolding p by code_simp
  obtain pb a1 m b1 where m: "bob_prekey_bundle K b = Inr pb" "encrypt_initial_message K p2 pb p a = (a1, Inr m)"
    "decrypt_initial_message K m b = (b1, Inr p)"
    by (rule relayed_initial [OF assms(1-4) str])
  have relays: "relay_dial_addresses [relay_addr] bob_peer_id \<noteq> []" using assms(5) by (simp add: relay_dial_addresses_def)
  show ?thesis
    unfolding run_phase6_relay_smoke_def p [symmetric]
    by (intro exI [of _ "enc_bundle pb"] exI [of _ "cd_initial C m"])
       (use relays m in \<open>simp add: run_alice_relayed_start_def Let_def C decrypt_relayed_def\<close>)
qed


section \<open>The Kademlia demonstration\<close>

text \<open>Three swarms: the bootstrap node, the target and Alice.\<close>

datatype demo_node = BootstrapSwarm | TargetSwarm | AliceSwarm

datatype demo_event = DemoConnected peer_id | DemoIdentify peer_id "multiaddr list" | DemoRecordFound bytes | OtherDemoEvent

datatype kad_demo_event = KadDemoTimeout | SwarmEvent demo_node demo_event

datatype kad_demo_action =
    DemoPutRecord demo_node peer_id bytes
  | DemoAddAddress demo_node peer_id multiaddr
  | DemoDial demo_node multiaddr
  | DemoBootstrap demo_node
  | DemoClosestPeers peer_id
  | DemoGetRecord peer_id

record kad_demo =
  kd_target_connected :: bool
  kd_alice_connected :: bool
  kd_queried :: bool

definition handle_demo_event :: "demo_node \<Rightarrow> demo_event \<Rightarrow> kad_demo_action list" where
  "handle_demo_event node event = (case event of
     DemoIdentify peer addresses \<Rightarrow> map (DemoAddAddress node peer) addresses | _ \<Rightarrow> [])"

text \<open>\<^verbatim>\<open>127.0.0.1\<close> and the two ports; \<open>bootstrap_addr\<close> is the bootstrap node's own listen address with its peer id.\<close>

definition demo_app_record :: "addr_text \<Rightarrow> u16 \<Rightarrow> bytes" where
  "demo_app_record A port = as_bytes (at_show A (socket_to_app_multiaddr (IpV4 (Ipv4 127 0 0 1)) port))"

definition run_kademlia_demo_start :: "addr_text \<Rightarrow> peer_id \<Rightarrow> peer_id \<Rightarrow> multiaddr \<Rightarrow> kad_demo \<times> kad_demo_action list" where
  "run_kademlia_demo_start A bootstrap_peer_id target_peer_id bootstrap_addr =
     (\<lparr>kd_target_connected = False, kd_alice_connected = False, kd_queried = False\<rparr>,
      [DemoPutRecord BootstrapSwarm bootstrap_peer_id (demo_app_record A 5001),
       DemoPutRecord BootstrapSwarm target_peer_id (demo_app_record A 5002),
       DemoAddAddress TargetSwarm bootstrap_peer_id (fst (strip_p2p bootstrap_addr)),
       DemoAddAddress AliceSwarm bootstrap_peer_id (fst (strip_p2p bootstrap_addr)),
       DemoDial TargetSwarm bootstrap_addr, DemoDial AliceSwarm bootstrap_addr])"

definition alice_demo_queries :: "peer_id \<Rightarrow> kad_demo \<Rightarrow> kad_demo \<times> kad_demo_action list" where
  "alice_demo_queries target_peer_id st =
     (if kd_target_connected st \<and> kd_alice_connected st \<and> \<not> kd_queried st
      then (st\<lparr>kd_queried := True\<rparr>, [DemoClosestPeers target_peer_id, DemoGetRecord target_peer_id]) else (st, []))"

text \<open>The result is the text of the record that Alice has found.\<close>

fun run_kademlia_demo_step ::
    "peer_id \<Rightarrow> peer_id \<Rightarrow> kad_demo_event \<Rightarrow> kad_demo \<Rightarrow> kad_demo \<times> kad_demo_action list \<times> (app_error + string) option" where
  "run_kademlia_demo_step bootstrap_peer_id target_peer_id KadDemoTimeout st =
     (st, [], Some (Inl (AppMessage ''Kademlia demo timed out'')))"
| "run_kademlia_demo_step bootstrap_peer_id target_peer_id (SwarmEvent BootstrapSwarm event) st =
     (st, handle_demo_event BootstrapSwarm event, None)"
| "run_kademlia_demo_step bootstrap_peer_id target_peer_id (SwarmEvent TargetSwarm event) st =
     (if event = DemoConnected bootstrap_peer_id
      then (st\<lparr>kd_target_connected := True\<rparr>, DemoBootstrap TargetSwarm # handle_demo_event TargetSwarm event, None)
      else (st, handle_demo_event TargetSwarm event, None))"
| "run_kademlia_demo_step bootstrap_peer_id target_peer_id (SwarmEvent AliceSwarm event) st =
     (let (st1, joined) = (if event = DemoConnected bootstrap_peer_id
            then (st\<lparr>kd_alice_connected := True\<rparr>, [DemoBootstrap AliceSwarm]) else (st, []));
          (st2, queries) = alice_demo_queries target_peer_id st1
      in case event of
           DemoRecordFound value \<Rightarrow> (st2, joined @ queries, Some (ok_or (from_utf8 value) AppCodec))
         | _ \<Rightarrow> (st2, joined @ queries @ handle_demo_event AliceSwarm event, None))"

fun run_kademlia_demo ::
    "peer_id \<Rightarrow> peer_id \<Rightarrow> kad_demo_event list \<Rightarrow> kad_demo \<Rightarrow> kad_demo \<times> kad_demo_action list \<times> (app_error + string) option" where
  "run_kademlia_demo bootstrap_peer_id target_peer_id [] st = (st, [], None)"
| "run_kademlia_demo bootstrap_peer_id target_peer_id (ev # evs) st =
     (case run_kademlia_demo_step bootstrap_peer_id target_peer_id ev st of
        (st1, acts, Some r) \<Rightarrow> (st1, acts, Some r)
      | (st1, acts, None) \<Rightarrow>
          (case run_kademlia_demo bootstrap_peer_id target_peer_id evs st1 of (st2, acts2, r) \<Rightarrow> (st2, acts @ acts2, r)))"

text \<open>The record is asked for at most once, and only when both nodes are connected to the bootstrap node.\<close>

definition record_requests :: "kad_demo_action list \<Rightarrow> nat" where
  "record_requests acts = length (filter (\<lambda>a. \<exists>p. a = DemoGetRecord p) acts)"

lemma record_requests_simps [simp]:
  "record_requests [] = 0" "record_requests (xs @ ys) = record_requests xs + record_requests ys"
  "record_requests (DemoGetRecord p # xs) = Suc (record_requests xs)" "record_requests (DemoClosestPeers p # xs) = record_requests xs"
  "record_requests (DemoBootstrap n # xs) = record_requests xs" "record_requests (handle_demo_event n ev) = 0"
  by (auto simp: record_requests_def handle_demo_event_def split: demo_event.split)

lemma kad_step_requests:
  assumes "run_kademlia_demo_step bp tp ev st = (st', acts, r)"
  shows "record_requests acts + (if kd_queried st then 1 else 0) = (if kd_queried st' then 1 else 0)
    \<and> (record_requests acts \<noteq> 0 \<longrightarrow> kd_target_connected st' \<and> kd_alice_connected st')"
  using assms by (cases "(bp, tp, ev, st)" rule: run_kademlia_demo_step.cases)
    (auto simp: alice_demo_queries_def Let_def split: if_splits demo_event.splits prod.splits)

lemma kad_demo_asks_once:
  assumes "run_kademlia_demo bp tp evs st = (st', acts, r)"
  shows "record_requests acts + (if kd_queried st then 1 else 0) \<le> 1"
  using assms
proof (induction evs arbitrary: st acts)
  case (Cons ev evs)
  obtain st1 acts1 r1 where s: "run_kademlia_demo_step bp tp ev st = (st1, acts1, r1)" by (metis prod_cases3)
  show ?case using Cons.prems Cons.IH [of st1] kad_step_requests [OF s]
    by (cases r1) (auto simp: s split: prod.splits if_splits)
qed simp

text \<open>
  Once both nodes are connected, Alice's next event makes her ask, and the record that was put for the target is
  printed as the text of its address.
\<close>

lemma kad_demo_finds_target:
  assumes "is_str (at_show A (socket_to_app_multiaddr (IpV4 (Ipv4 127 0 0 1)) 5002))" "\<And>v. event \<noteq> DemoRecordFound v"
  shows "\<exists>st acts. run_kademlia_demo bp tp [SwarmEvent AliceSwarm (DemoConnected bp), SwarmEvent TargetSwarm (DemoConnected bp),
      SwarmEvent AliceSwarm event, SwarmEvent AliceSwarm (DemoRecordFound (demo_app_record A 5002))]
      (fst (run_kademlia_demo_start A bp tp addr))
      = (st, acts, Some (Inr (at_show A (socket_to_app_multiaddr (IpV4 (Ipv4 127 0 0 1)) 5002))))
    \<and> DemoGetRecord tp \<in> set acts"
  using assms
  by (cases event) (auto simp: run_kademlia_demo_start_def alice_demo_queries_def Let_def demo_app_record_def)

end
