(* ===== verification/DirectSmoke.thy ===== *)
theory DirectSmoke
  imports QuicProps
begin

text \<open>
  The smoke tests of the direct path (\<^verbatim>\<open>run_phase6_lan_smoke_with_dbs\<close> and
  \<^verbatim>\<open>run_phase6_invite_discovery_smoke_with_dbs\<close> of \<^verbatim>\<open>src/src/main.rs\<close>): two users with fresh databases, each with a
  message waiting for the other, connect over QUIC.  The test of the local network passes: what either side
  sends while it flushes its queue is received by the other in the middle of its own flush.
\<close>

section \<open>The test in the local network\<close>

text \<open>
  What the connection yields on either side, as in \<open>connect_alice_chat\<close> and \<open>complete_bob_chat_handshake\<close>; the clock
  before and while the two are connected, the identities and random bytes they draw, and the answer to the name prompt.
\<close>

record direct_link =
  dk_connected :: "net_error option"
  dk_accepted :: "net_error option"
  dk_bundle_sent :: "net_error option"
  dk_bundle :: "net_error + bytes"
  dk_initial_sent :: "net_error option"
  dk_received :: "bytes \<Rightarrow> net_error + bytes"
  dk_alice_sends :: "net_error option list"
  dk_alice_arrivals :: "arrival list"
  dk_bob_sends :: "net_error option list"
  dk_bob_arrivals :: "arrival list"

record smoke_env =
  sk_now :: u64
  sk_later :: u64
  sk_alice :: alice
  sk_bob :: bob
  sk_prekey :: bytes
  sk_ephemeral :: bytes
  sk_alice_random :: bytes
  sk_bob_random :: bytes
  sk_name_line :: string

text \<open>The contact is saved, found again as a known peer, and a message is queued for it.\<close>

definition save_contact_and_queue ::
    "crypto \<Rightarrow> (nat \<Rightarrow> bool) \<Rightarrow> u64 \<Rightarrow> bytes \<Rightarrow> string \<Rightarrow> string \<Rightarrow> bytes \<Rightarrow> string \<Rightarrow> string \<Rightarrow> db \<Rightarrow> db \<times> (app_error + unit)" where
  "save_contact_and_queue K fails now random cid name key hint text s =
     (case save_contact_for_chat K fails now cid name key hint s of
        (s1, Inl e) \<Rightarrow> (s1, Inl e)
      | (s1, Inr _) \<Rightarrow>
          (case load_known_peer_for_conversation K cid s1 of
             None \<Rightarrow> (s1, Inl (AppMessage ''missing saved peer after contact save''))
           | Some peer \<Rightarrow> (queue_offline_peer_message K random now peer text s1, Inr ())))"

text \<open>\<^verbatim>\<open>connect_alice_chat\<close> from its start; the result holds the frames Alice has sent.\<close>

definition dial_direct ::
    "crypto \<Rightarrow> chat_codec \<Rightarrow> (nat \<Rightarrow> bool) \<Rightarrow> smoke_env \<Rightarrow> direct_link \<Rightarrow> string \<Rightarrow> db \<Rightarrow> db \<times> bytes list \<times> (chat_error + chat_session)" where
  "dial_direct K C fails env link hint s =
     (case load_or_prompt_display_name (sk_name_line env) (sk_later env) s of (s1, local_display_name) \<Rightarrow>
      (case load_or_create_alice_identity K C (sk_alice env) (sk_later env) s1 of
         (s2, Inl e) \<Rightarrow> (s2, [], Inl (AppError e))
       | (s2, Inr a) \<Rightarrow>
           (case dk_connected link of
              Some err \<Rightarrow> (s2, [], Inl (NetError err))
            | None \<Rightarrow>
                (case dk_bundle link of
                   Inl err \<Rightarrow> (s2, [], Inl (NetError err))
                 | Inr bundle_bytes \<Rightarrow>
                     (case connect_alice_chat K C fails (sk_ephemeral env) (sk_later env) local_display_name hint bundle_bytes
                             (dk_initial_sent link) (dk_alice_sends link) (dk_alice_arrivals link) a s2 of
                        (s3, _, frames, r) \<Rightarrow> (s3, frames, r))))))"

definition received_text :: "string \<Rightarrow> string \<Rightarrow> db \<Rightarrow> bool" where
  "received_text cid text s \<longleftrightarrow>
     (\<exists>m \<in> set (messages_for_conversation cid s). mr_direction m = DirReceived \<and> mr_plaintext m = Some text)"

text \<open>The task that serves Bob's side of the test; the result holds the frames of his flush.\<close>

definition lan_smoke_server ::
    "crypto \<Rightarrow> chat_codec \<Rightarrow> (nat \<Rightarrow> bool) \<Rightarrow> smoke_env \<Rightarrow> direct_link \<Rightarrow> bob \<Rightarrow> db \<Rightarrow> db \<times> bytes list \<times> (chat_error + string)" where
  "lan_smoke_server K C fails env link b s =
     (case dk_accepted link of
        Some err \<Rightarrow> (s, [], Inl (NetError err))
      | None \<Rightarrow>
          (case complete_bob_chat_handshake K C fails (sk_prekey env) (sk_later env) ''Bob'' (dk_bundle_sent link) (dk_received link) b s of
             (s1, b1, Inl e) \<Rightarrow> (s1, [], Inl e)
           | (s1, b1, Inr session) \<Rightarrow>
               (case flush_pending_messages_to_alice K C (sk_later env) ''Bob'' (cs_conversation_id session)
                       (dk_bob_sends link) (dk_bob_arrivals link) b1 s1 of
                  (s2, b2, frames, _, Inl e) \<Rightarrow> (s2, frames, Inl e)
                | (s2, b2, frames, _, Inr _) \<Rightarrow>
                    (let s3 = save_bob_identity C (sk_later env) b2 s2
                     in if received_text (cs_conversation_id session) ''phase6 pending from joiner'' s3
                        then (s3, frames, Inr (cs_conversation_id session))
                        else (s3, frames, Inl (AppError (AppMessage ''invite creator did not receive joiner pending message'')))))))"

definition dial_addr :: "ip_addr \<times> u16 \<Rightarrow> ip_addr \<times> u16" where
  "dial_addr bound = (case fst bound of
     IpV4 ip \<Rightarrow> if v4_unspecified ip then (IpV4 (Ipv4 127 0 0 1), snd bound) else bound
   | IpV6 ip \<Rightarrow> if ip = 0 then (IpV4 (Ipv4 127 0 0 1), snd bound) else bound)"

text \<open>
  \<open>bound\<close> is the address the listener got and \<open>show_addr\<close> the text form of a socket address.  With the outcome come
  the frames Alice sent and those of Bob's flush.
\<close>

definition run_phase6_lan_smoke_with_dbs ::
    "crypto \<Rightarrow> chat_codec \<Rightarrow> (nat \<Rightarrow> bool) \<Rightarrow> (ip_addr \<times> u16 \<Rightarrow> string) \<Rightarrow> smoke_env \<Rightarrow> direct_link \<Rightarrow> ip_addr \<times> u16
      \<Rightarrow> bytes list \<times> bytes list \<times> (chat_error + unit)" where
  "run_phase6_lan_smoke_with_dbs K C fails show_addr env link bound =
     (let now = sk_now env; hint = ''quic:'' @ show_addr (dial_addr bound)
      in case load_or_create_bob_identity K C (sk_bob env) now (save_display_name ''Bob'' now init_db) of
           (_, Inl e) \<Rightarrow> ([], [], Inl (AppError e))
         | (t1, Inr b) \<Rightarrow>
      (case bob_prekey_bundle K b of
           Inl e \<Rightarrow> ([], [], Inl (AppError (AppCrypto e)))
         | Inr bundle \<Rightarrow>
      (case load_or_create_alice_identity K C (sk_alice env) now (save_display_name ''Alice'' now init_db) of
           (_, Inl e) \<Rightarrow> ([], [], Inl (AppError e))
         | (s1, Inr a) \<Rightarrow>
      (let bob_identity = pb_identity_public_key bundle;
           alice_identity = ske_identity_public_key (alice_signed_key_exchange K a);
           alice_conversation_id = contact_id_for_identity K bob_identity;
           bob_conversation_id = contact_id_for_identity K alice_identity
       in case save_contact_and_queue K fails now (sk_alice_random env) alice_conversation_id ''Bob'' bob_identity hint
                 ''phase6 pending from joiner'' s1 of
            (_, Inl e) \<Rightarrow> ([], [], Inl (AppError e))
          | (s2, Inr _) \<Rightarrow>
       (case save_contact_and_queue K fails now (sk_bob_random env) bob_conversation_id ''Alice'' alice_identity hint
               ''phase6 pending from invite creator'' t1 of
            (_, Inl e) \<Rightarrow> ([], [], Inl (AppError e))
          | (t2, Inr _) \<Rightarrow>
       (case dial_direct K C fails env link (show_addr (dial_addr bound)) s2 of
            (_, sent, Inl e) \<Rightarrow> (sent, [], Inl e)
          | (s3, sent, Inr session) \<Rightarrow>
       (case lan_smoke_server K C fails env link b t2 of
            (_, flushed, Inl e) \<Rightarrow> (sent, flushed, Inl e)
          | (t3, flushed, Inr server_conversation_id) \<Rightarrow>
              (sent, flushed,
               if cs_conversation_id session \<noteq> alice_conversation_id
               then Inl (AppError (AppMessage ''Alice stored the wrong peer conversation after smoke connect''))
               else if server_conversation_id \<noteq> bob_conversation_id
               then Inl (AppError (AppMessage ''Bob stored the wrong peer conversation after smoke connect''))
               else if pending_peer_messages_for_peer alice_conversation_id s3 \<noteq> []
               then Inl (AppError (AppMessage ''joiner pending message was not ACK-cleared after smoke delivery''))
               else if pending_peer_messages_for_peer bob_conversation_id t3 \<noteq> []
               then Inl (AppError (AppMessage ''invite creator pending message was not ACK-cleared after smoke delivery''))
               else if \<not> received_text alice_conversation_id ''phase6 pending from invite creator'' s3
               then Inl (AppError (AppMessage ''joiner did not receive invite creator pending message''))
               else Inr ()))))))))"

section \<open>Two flushes that cross\<close>

lemma in_step_after_send:
  assumes "in_step K i a b" "ratchet_encrypt K p b = (b', r)"
  shows "in_step K i a b'"
proof -
  have "rs_recv_chain_key b' = rs_recv_chain_key b \<and> rs_recv_count b' = rs_recv_count b \<and> rs_skipped b' = rs_skipped b
      \<and> rs_consumed b' = rs_consumed b \<and> rs_peer_public b' = rs_peer_public b"
    using assms(2) by (auto simp: ratchet_encrypt_def next_send_message_key_def Let_def split: sum.splits option.splits prod.splits)
  then show ?thesis using assms(1) by (simp add: in_step_def receiving_def)
qed

text \<open>Both ends encrypt a message before either has seen that of the other.\<close>

lemma messages_cross:
  assumes "crypto_ok K" "in_step K i sa sb" "in_step K j sb sa" "Suc i < 2 ^ 64" "Suc j < 2 ^ 64" "is_str p" "is_str q"
  obtains sa1 sb1 sa2 sb2 m n where "ratchet_encrypt K p sa = (sa1, Inr m)" "ratchet_encrypt K q sb = (sb1, Inr n)"
    "ratchet_decrypt K n sa1 = (sa2, Inr q)" "ratchet_decrypt K m sb1 = (sb2, Inr p)"
proof -
  obtain sa1 m sb' where m: "ratchet_encrypt K p sa = (sa1, Inr m)" by (rule next_message [OF assms(1,2,4,6)])
  obtain sb1 n where n: "ratchet_encrypt K q sb = (sb1, Inr n)" by (rule next_message [OF assms(1,3,5,7)])
  obtain sb2 where "ratchet_decrypt K m sb1 = (sb2, Inr p)"
    by (rule next_message [OF assms(1) in_step_after_send [OF assms(2) n] assms(4,6)]) (use m in auto)
  moreover obtain sa2 where "ratchet_decrypt K n sa1 = (sa2, Inr q)"
    by (rule next_message [OF assms(1) in_step_after_send [OF assms(3) m] assms(5,7)]) (use n in auto)
  ultimately show ?thesis using that m n by blast
qed

lemma in_history_kept [simp]:
  "in_history mid d c p (mark_incoming_chat_message_accepted now x s) = in_history mid d c p s"
  "in_history mid d c p (mark_message_new c' x now s) = in_history mid d c p s"
  "in_history mid d c p (save_alice_identity C now a s) = in_history mid d c p s"
  "in_history mid d c p (save_bob_identity C now b s) = in_history mid d c p s"
  by (simp_all add: in_history_def mark_incoming_chat_message_accepted_def accept_frame mark_message_new_def save_alice_identity_def
      save_bob_identity_def save_local_identity_def stmt_upsert_local_identity_def)

lemma in_history_delivered:
  assumes "in_history mid d c p s"
  shows "in_history mid d c p (mark_delivered_if_pending x s)"
proof -
  define f :: "message_row \<Rightarrow> message_row" where "f = (\<lambda>r. if mw_message_id r = x then r\<lparr>mw_status := message_status_as_str StatusSent\<rparr> else r)"
  obtain r where r: "r \<in> set (messages s)" "mw_message_id r = mid" "mw_plaintext r = Some p" "mw_conversation_id r = c"
    "mw_direction r = message_direction_as_str d" using assms by (auto simp: in_history_def)
  have "messages (mark_delivered_if_pending x s) = map f (messages s)"
    by (simp add: mark_delivered_if_pending_def update_message_status_def remove_pending_peer_message_def update_where_def f_def)
  then have "f r \<in> set (messages (mark_delivered_if_pending x s))" using r(1) by simp
  then show ?thesis unfolding in_history_def by (rule rev_bexI) (simp add: f_def r)
qed

lemma in_history_received:
  assumes "in_history mid DirReceived c p s"
  shows "received_text c p s"
proof -
  obtain r where r: "r \<in> set (messages s)" "mw_plaintext r = Some p" "mw_conversation_id r = c" "mw_direction r = ''received''"
    using assms by (auto simp: in_history_def)
  then have "message_from_row r \<in> set (messages_for_conversation c s)" by (auto simp: messages_for_conversation_def)
  then show ?thesis unfolding received_text_def
    by (rule rev_bexI) (simp add: message_from_row_def message_direction_from_str_def r)
qed

context chat_party
begin

lemma flush_crossing:
  assumes C: "\<And>x. cc_frame_decode C (cc_frame C x) = Some x"
    and "session e = Some ss" "ratchet_encrypt K (pm_plaintext item) ss = (ss1, Inr m)" "ratchet_decrypt K n ss1 = (ss2, Inr q)"
    and "\<not> message_exists mid s"
  shows "\<exists>s' e'. flush_loop P K C now ln cid [item] [] [Received (cc_frame C (FrameMessage mid name n)) None,
        Received (cc_frame C (FrameAck (pm_message_id item))) None] e s
      = (s', e', [cc_frame C (FrameMessage (pm_message_id item) ln m), cc_frame C (FrameAck mid)], [], Inr ())
    \<and> map queue_key (pending_peer_messages s') = filter (\<lambda>k. fst k \<noteq> pm_message_id item) (map queue_key (pending_peer_messages s))
    \<and> in_history mid DirReceived cid q s'"
proof -
  obtain e1 where e1: "pt_encrypt P K (pm_plaintext item) e = (e1, Inr m)" "session e1 = Some ss1"
    using send_session [OF assms(2), of K "pm_plaintext item"] assms(3) by (cases "pt_encrypt P K (pm_plaintext item) e") auto
  obtain e2 where e2: "pt_decrypt P K n e1 = (e2, Inr q)"
    using receive_session [OF e1(2), of K n] assms(4) by (cases "pt_decrypt P K n e1") auto
  let ?bs = "cc_frame C (FrameMessage mid name n)"
  define s1 where "s1 = pt_save P C now e1 (record_pending_peer_message_attempt (pm_message_id item) now s)"
  define s2 where "s2 = mark_message_new cid mid now (mark_incoming_chat_message_accepted now mid
    (persist_chat_message K now (received_entry mid cid name ln n ?bs q) (pt_save P C now e2 s1)))"
  have m1: "messages s1 = messages s" by (simp add: s1_def save_messages record_pending_peer_message_attempt_def)
  then have new: "\<not> message_exists mid s1" using assms(5) by (simp add: message_exists_iff)
  have "handle_incoming_during_flush P K C now ln cid ?bs (FrameMessage mid name n) None e1 s1 = (s2, e2, [cc_frame C (FrameAck mid)], Inr ())"
    using new by (simp add: handle_incoming_during_flush_def chat_message_already_saved_def store_incoming_def e2 s2_def)
  then have "flush_loop P K C now ln cid [item] [] [Received ?bs None, Received (cc_frame C (FrameAck (pm_message_id item))) None] e s
      = (mark_delivered_if_pending (pm_message_id item) s2, e2, [cc_frame C (FrameMessage (pm_message_id item) ln m), cc_frame C (FrameAck mid)], [], Inr ())"
    by (simp add: Let_def e1(1) s1_def [symmetric] C)
  moreover have "pending_peer_messages s2 = pending_peer_messages (record_pending_peer_message_attempt (pm_message_id item) now s)"
    by (simp add: s2_def s1_def save_pending)
  moreover have "in_history mid DirReceived cid q s2"
    using persisted_in_history [of K "received_entry mid cid name ln n ?bs q" "pt_save P C now e2 s1" now] new
    by (simp add: s2_def received_entry_def entry_message_id_def message_exists_iff save_messages)
  ultimately show ?thesis using in_history_delivered by fastforce
qed

end

section \<open>The test passes\<close>

text \<open>
  Saving a contact again changes nothing in a database that only knows this conversation, apart from the contact
  and the peer, and the conversation is known under its own id.
\<close>

definition only_conversation :: "string \<Rightarrow> db \<Rightarrow> bool" where
  "only_conversation cid s \<longleftrightarrow> (\<forall>r \<in> set (messages s). mw_conversation_id r = cid)
     \<and> (\<forall>r \<in> set (pending_peer_messages s). pw_conversation_id r = cid)"

lemma update_where_other: "\<forall>r \<in> set t. \<not> p r \<Longrightarrow> update_where p f t = t"
  by (induction t) (auto simp: update_where_def)

lemma contact_kept:
  assumes env: "\<And>i. \<not> fails i" and s: "peers_ok s" "only_conversation cid s" and key: "length key = 32" "cid = contact_id_for_identity K key"
  obtains s' peer where "save_contact_for_chat K fails now cid name key hint s = (s', Inr ())" "peers_ok s'"
    "messages s' = messages s" "pending_peer_messages s' = pending_peer_messages s" "local_identity s' = local_identity s"
    "local_settings s' = local_settings s" "load_known_peer_for_conversation K cid s' = Some peer" "kp_peer_id peer = cid"
    "kp_conversation_id peer = cid"
proof -
  obtain s' where s': "save_contact_for_chat K fails now cid name key hint s = (s', Inr ())" "peers_ok s'"
    using save_contact_ok [of fails s key cid K, OF env s(1)] key by blast
  let ?c = "\<lparr>ct_contact_id = cid, ct_display_name = display_name_or_anonymous name, ct_identity_public_key = key,
    ct_discovery_hint = hint, ct_saved_at = now\<rparr>" and ?old = "contact_id_for_display_name K (display_name_or_anonymous name)"
  obtain s2 p where m: "merge_contact_into fails ?old cid (save_contact ?c s) = (s2, Inr ())" and p: "save_known_peer p s2 = Inr s'"
      and ids: "kp_conversation_id p = cid" "kp_peer_id p = cid"
    using s'(1) key by (auto simp: save_contact_for_chat_def Let_def split: prod.splits sum.splits)
  have same: "messages s' = messages s2" "pending_peer_messages s' = pending_peer_messages s2" "local_identity s' = local_identity s2"
    "local_settings s' = local_settings s2" using p by (auto simp: save_known_peer_def split: if_splits)
  have "messages s2 = messages s \<and> pending_peer_messages s2 = pending_peer_messages s \<and> local_identity s2 = local_identity s
    \<and> local_settings s2 = local_settings s"
  proof (cases "?old = cid")
    case True
    then show ?thesis using m by (auto simp: merge_contact_into_def save_contact_def)
  next
    case False
    then have "s2 = fold (\<lambda>st u. st u) (merge_statements ?old cid) (save_contact ?c s)" using merge_result m by blast
    then show ?thesis using s(2) False
      by (simp add: merge_statements_def save_contact_def only_conversation_def update_where_other)
  qed
  moreover obtain peer where peer: "known_peer_for_conversation cid s' = Some peer" "kp_peer_id peer = cid"
    using known_peer_saved [OF p] ids by auto
  moreover have "kp_conversation_id peer = cid"
    using peer(1) by (auto simp: known_peer_for_conversation_def known_peer_from_row_def dest: select_oneD)
  ultimately show ?thesis using that s' same by (simp add: load_known_peer_for_conversation_def)
qed

text \<open>The message a side has queued for the other.\<close>

definition queued_once :: "string \<Rightarrow> string \<Rightarrow> string \<Rightarrow> db \<Rightarrow> bool" where
  "queued_once cid mid text s \<longleftrightarrow> only_conversation cid s \<and> map mw_message_id (messages s) = [mid]
     \<and> map queue_key (pending_peer_messages s) = [(mid, cid, text)]"

lemma queued_onceD:
  assumes "queued_once cid mid text s"
  obtains item where "pending_peer_messages_for_peer cid s = [item]" "pm_message_id item = mid" "pm_plaintext item = text"
    "\<forall>m. message_exists m s \<longleftrightarrow> m = mid"
proof -
  obtain row where "pending_peer_messages s = [row]" "queue_key row = (mid, cid, text)"
    using assms by (auto simp: queued_once_def map_eq_Cons_conv)
  moreover have "message_exists m s \<longleftrightarrow> m = mid" for m
    using assms by (auto simp: queued_once_def message_exists_iff map_eq_Cons_conv)
  ultimately show ?thesis using that [of "pending_peer_message_from_row row"]
    by (simp add: pending_peer_messages_for_peer_def select_order_by_def pending_peer_message_from_row_def queue_key_def)
qed

lemma contact_queued:
  assumes env: "\<And>i. \<not> fails i" and s: "peers_ok s" "messages s = []" "pending_peer_messages s = []"
    and key: "length key = 32" "cid = contact_id_for_identity K key"
  obtains s' where "save_contact_and_queue K fails now random cid name key hint text s = (s', Inr ())" "peers_ok s'"
    "queued_once cid (pending_peer_message_id K random now cid text) text s'"
    "local_identity s' = local_identity s" "local_settings s' = local_settings s"
proof -
  have "only_conversation cid s" using s(2,3) by (simp add: only_conversation_def)
  from contact_kept [of fails, OF env s(1) this key] obtain s1 peer where s1:
    "save_contact_for_chat K fails now cid name key hint s = (s1, Inr ())" "peers_ok s1" "messages s1 = []"
    "pending_peer_messages s1 = []" "local_identity s1 = local_identity s" "local_settings s1 = local_settings s"
    "load_known_peer_for_conversation K cid s1 = Some peer" "kp_peer_id peer = cid" "kp_conversation_id peer = cid"
    unfolding s(2,3) .
  let ?s' = "queue_offline_peer_message K random now peer text s1"
  have "save_contact_and_queue K fails now random cid name key hint text s = (?s', Inr ())"
    by (simp add: save_contact_and_queue_def s1(1,7))
  moreover have "peers_ok ?s'" "queued_once cid (pending_peer_message_id K random now cid text) text ?s'"
      "local_identity ?s' = local_identity s" "local_settings ?s' = local_settings s"
    using s1(2-6,8,9) by (simp_all add: queue_offline_peer_message_def Let_def peers_ok_def queued_once_def only_conversation_def
        insert_message_def queue_pending_peer_message_def insert_or_ignore_def has_key_def message_to_row_def pending_to_row_def queue_key_def)
  ultimately show ?thesis by (rule that)
qed

lemma messages_identity [simp]:
  "messages (save_alice_identity C now a s) = messages s" "messages (save_bob_identity C now b s) = messages s"
  by (simp_all add: save_alice_identity_def save_bob_identity_def save_local_identity_def stmt_upsert_local_identity_def)

lemma saved_identity_frame [simp]:
  "only_conversation cid (save_alice_identity C now a s) = only_conversation cid s"
  "only_conversation cid (save_bob_identity C now b s) = only_conversation cid s"
  "pending_peer_id_for_conversation K cid (save_alice_identity C now a s) = pending_peer_id_for_conversation K cid s"
  "pending_peer_messages_for_peer cid (save_alice_identity C now a s) = pending_peer_messages_for_peer cid s"
  "pending_peer_messages_for_peer cid (save_bob_identity C now b s) = pending_peer_messages_for_peer cid s"
  by (simp_all add: only_conversation_def pending_peer_id_for_conversation_def load_known_peer_for_conversation_def
      known_peer_for_conversation_def load_contact_def pending_peer_messages_for_peer_def save_alice_identity_def save_bob_identity_def
      save_local_identity_def stmt_upsert_local_identity_def cong: option.case_cong)

lemma contact_keeps:
  assumes "\<And>i. \<not> fails i" "peers_ok s" "only_conversation cid s" "length key = 32" "cid = contact_id_for_identity K key"
  obtains s' where "save_contact_for_chat K fails now cid name key hint s = (s', Inr ())" "messages s' = messages s"
    "pending_peer_messages s' = pending_peer_messages s" "pending_peer_id_for_conversation K cid s' = cid"
  using contact_kept [of fails, OF assms] by (metis option.simps(5) pending_peer_id_for_conversation_def)

text \<open>
  The two sides up to their flushes: what \<^verbatim>\<open>connect_alice_chat\<close> does after the handshake, and the end of
  \<^verbatim>\<open>complete_bob_chat_handshake\<close>.
\<close>

lemma direct_handshake:
  assumes K: "crypto_ok K" "sig_correct K" and C: "chat_codec_ok C" and env: "\<And>i. \<not> fails i"
    and b: "bob_wf K b" "bob_prekey_bundle K b = Inr pb"
    and ids: "bob_key = ik_public_key K (bo_identity b)" "alice_key = ik_public_key K (al_identity a)" "length bob_key = 32"
      "length alice_key = 32" "bob_cid = contact_id_for_identity K bob_key" "alice_cid = contact_id_for_identity K alice_key"
    and s: "peers_ok s" "only_conversation bob_cid s" and t: "peers_ok t" "only_conversation alice_cid t"
    and payload: "payload = cc_prekey C \<lparr>cpb_sender_display_name = bn, cpb_bundle = pb\<rparr>"
  obtains initial s1 a1 t1 b1 sa sb where "al_session a1 = Some sa" "bo_session b1 = Some sb" "in_step K 1 sa sb" "in_step K 0 sb sa"
    "messages s1 = messages s" "pending_peer_messages s1 = pending_peer_messages s" "pending_peer_id_for_conversation K bob_cid s1 = bob_cid"
    "messages t1 = messages t" "pending_peer_messages t1 = pending_peer_messages t" "pending_peer_id_for_conversation K alice_cid t1 = alice_cid"
    "\<forall>sends arrivals s2 a2 frames rest. flush_pending_messages_to_bob K C now an bob_cid sends arrivals a1 s1 = (s2, a2, frames, rest, Inr ()) \<longrightarrow>
      connect_alice_chat K C fails eph now an hint payload None sends arrivals a s = (save_alice_identity C now a2 s2, a2, initial # frames,
        Inr \<lparr>cs_remote_display_name = display_name_or_anonymous bn, cs_conversation_id = bob_cid\<rparr>)"
    "complete_bob_chat_handshake K C fails private now bn None (\<lambda>_. Inr initial) b t = (t1, b1,
        Inr \<lparr>cs_remote_display_name = display_name_or_anonymous an, cs_conversation_id = alice_cid\<rparr>)"
    "a1 = a\<lparr>al_session := Some sa\<rparr>"
proof -
  have bdl: "pb_identity_public_key pb = bob_key" and full: "replenish_one_time_prekey K private now b = b"
    using b(2) by (auto simp: bob_prekey_bundle_def Let_def and_then_Inr_iff replenish_one_time_prekey_def ids(1) split: option.splits)
  have "is_str []" by (simp add: is_str_def as_bytes_def)
  moreover obtain a1 res where enc: "encrypt_initial_message K eph pb [] a = (a1, res)" by (cases "encrypt_initial_message K eph pb [] a")
  ultimately obtain m b1 sa sb where m: "res = Inr m" "decrypt_initial_message K m b = (b1, Inr [])" "al_session a1 = Some sa"
    "bo_session b1 = Some sb" "in_step K 1 sa sb" "in_step K 0 sb sa" "a1 = a\<lparr>al_session := Some sa\<rparr>"
    using initial_message_steps [OF K b] by blast
  let ?initial = "\<lparr>cim_sender_display_name = an, cim_sender_identity_public_key = Some alice_key, cim_message = m\<rparr>"
    and ?bn = "display_name_or_anonymous bn" and ?an = "display_name_or_anonymous an"
  have key: "ske_identity_public_key (alice_signed_key_exchange K a1) = alice_key"
    by (simp add: m(7) ids(2) alice_signed_key_exchange_def sign_key_exchange_def Let_def)
  have decA: "decode_chat_prekey_bundle C payload = Inr (?bn, pb)"
    using C by (simp add: payload decode_chat_prekey_bundle_def chat_codec_ok_def)
  have decB: "decode_chat_initial_message C (cc_chat_initial C ?initial) = Inr (?initial\<lparr>cim_sender_display_name := ?an\<rparr>)"
    using C by (simp add: decode_chat_initial_message_def chat_codec_ok_def)
  obtain s1 where s1: "save_contact_for_chat K fails now bob_cid ?bn bob_key (''quic:'' @ hint) s = (s1, Inr ())"
    "messages s1 = messages s" "pending_peer_messages s1 = pending_peer_messages s" "pending_peer_id_for_conversation K bob_cid s1 = bob_cid"
    by (rule contact_keeps [of fails, OF env s ids(3,5)])
  have t': "peers_ok (save_bob_identity C now b1 t)" "only_conversation alice_cid (save_bob_identity C now b1 t)" using t by simp_all
  obtain t1 where t1: "save_contact_for_chat K fails now alice_cid ?an alice_key ''direct QUIC'' (save_bob_identity C now b1 t) = (t1, Inr ())"
    "messages t1 = messages t" "pending_peer_messages t1 = pending_peer_messages t" "pending_peer_id_for_conversation K alice_cid t1 = alice_cid"
    using contact_keeps [of fails, OF env t' ids(4,6)] by (metis messages_identity(2) pending_saved(1))
  have A: "connect_alice_chat K C fails eph now an hint payload None sends arrivals a s = (save_alice_identity C now a2 s2, a2,
      cc_chat_initial C ?initial # frames, Inr \<lparr>cs_remote_display_name = ?bn, cs_conversation_id = bob_cid\<rparr>)"
    if "flush_pending_messages_to_bob K C now an bob_cid sends arrivals a1 (save_alice_identity C now a1 s1) = (s2, a2, frames, rest, Inr ())"
    for sends arrivals s2 a2 frames rest
    by (simp add: connect_alice_chat_def decA bdl ids(5) [symmetric] s1(1) [simplified] enc m(1) key Let_def that)
  have B: "complete_bob_chat_handshake K C fails private now bn None (\<lambda>_. Inr (cc_chat_initial C ?initial)) b t = (t1, b1,
      Inr \<lparr>cs_remote_display_name = ?an, cs_conversation_id = alice_cid\<rparr>)"
    by (simp add: complete_bob_chat_handshake_def publish_prekey_bundle_def full b(2) Let_def accept_initial_message_def decB m(2)
        ids(6) [symmetric] t1(1))
  show ?thesis by (rule that [of a1 sa b1 sb "save_alice_identity C now a1 s1" t1 "cc_chat_initial C ?initial", OF m(3-6) _ _ _ t1(2-4) _ B m(7)])
       (use s1(2-4) A in \<open>simp, simp, simp, blast\<close>)
qed

lemma queue_cleared:
  assumes "queued_once cid mid text s"
    and "map queue_key (pending_peer_messages s') = filter (\<lambda>k. fst k \<noteq> mid) (map queue_key (pending_peer_messages s))"
  shows "pending_peer_messages_for_peer pid s' = []"
proof -
  have "map queue_key (pending_peer_messages s') = []" using assms by (simp add: queued_once_def)
  then show ?thesis by (simp add: pending_peer_messages_for_peer_def select_order_by_def)
qed

lemma both_flush:
  assumes K: "crypto_ok K" and C: "chat_codec_ok C" and sess: "al_session a = Some sa" "bo_session b = Some sb"
    and step: "in_step K i sa sb" "in_step K j sb sa" "Suc i < 2 ^ 64" "Suc j < 2 ^ 64"
    and msgs: "is_str atext" "is_str btext" "amid \<noteq> bmid"
    and s: "queued_once bob_cid amid atext s" "pending_peer_id_for_conversation K bob_cid s = bob_cid"
    and t: "queued_once alice_cid bmid btext t" "pending_peer_id_for_conversation K alice_cid t = alice_cid"
  obtains alice_frames bob_frames s' a' t' b' where
    "flush_pending_messages_to_bob K C now an bob_cid [] (map (\<lambda>f. Received f None) bob_frames) a s = (s', a', alice_frames, [], Inr ())"
    "flush_pending_messages_to_alice K C now bn alice_cid [] (map (\<lambda>f. Received f None) alice_frames) b t = (t', b', bob_frames, [], Inr ())"
    "\<forall>pid. pending_peer_messages_for_peer pid s' = []" "\<forall>pid. pending_peer_messages_for_peer pid t' = []"
    "in_history bmid DirReceived bob_cid btext s'" "in_history amid DirReceived alice_cid atext t'"
proof -
  have dec: "\<And>x. cc_frame_decode C (cc_frame C x) = Some x" using C by (simp add: chat_codec_ok_def)
  obtain sa1 sb1 sa2 sb2 m n where c: "ratchet_encrypt K atext sa = (sa1, Inr m)" "ratchet_encrypt K btext sb = (sb1, Inr n)"
    "ratchet_decrypt K n sa1 = (sa2, Inr btext)" "ratchet_decrypt K m sb1 = (sb2, Inr atext)"
    by (rule messages_cross [OF K step msgs(1,2)])
  obtain x where x: "pending_peer_messages_for_peer bob_cid s = [x]" "pm_message_id x = amid" "pm_plaintext x = atext"
    "\<forall>m. message_exists m s \<longleftrightarrow> m = amid" by (rule queued_onceD [OF s(1)])
  obtain y where y: "pending_peer_messages_for_peer alice_cid t = [y]" "pm_message_id y = bmid" "pm_plaintext y = btext"
    "\<forall>m. message_exists m t \<longleftrightarrow> m = bmid" by (rule queued_onceD [OF t(1)])
  let ?alice = "[cc_frame C (FrameMessage amid an m), cc_frame C (FrameAck bmid)]"
    and ?bob = "[cc_frame C (FrameMessage bmid bn n), cc_frame C (FrameAck amid)]"
  have new: "\<not> message_exists bmid s" "\<not> message_exists amid t" using x(4) y(4) msgs(3) by auto
  from alice_chat.flush_crossing [where item = x and mid = bmid and s = s and now = now and ln = an and cid = bob_cid and name = bn,
      OF dec sess(1) c(1) [folded x(3)] c(3) new(1), unfolded x(2)]
  obtain s' a' where A: "flush_loop alice_party K C now an bob_cid [x] [] (map (\<lambda>f. Received f None) ?bob) a s = (s', a', ?alice, [], Inr ())"
    "map queue_key (pending_peer_messages s') = filter (\<lambda>k. fst k \<noteq> amid) (map queue_key (pending_peer_messages s))"
    "in_history bmid DirReceived bob_cid btext s'"
    unfolding list.map by (elim exE conjE)
  from bob_chat.flush_crossing [where item = y and mid = amid and s = t and now = now and ln = bn and cid = alice_cid and name = an,
      OF dec sess(2) c(2) [folded y(3)] c(4) new(2), unfolded y(2)]
  obtain t' b' where B: "flush_loop bob_party K C now bn alice_cid [y] [] (map (\<lambda>f. Received f None) ?alice) b t = (t', b', ?bob, [], Inr ())"
    "map queue_key (pending_peer_messages t') = filter (\<lambda>k. fst k \<noteq> bmid) (map queue_key (pending_peer_messages t))"
    "in_history amid DirReceived alice_cid atext t'"
    unfolding list.map by (elim exE conjE)
  show ?thesis
    by (rule that [of ?bob s' a' ?alice t' b']) (use A B x(1) y(1) s(2) t(2) queue_cleared [OF s(1) A(2)] queue_cleared [OF t(1) B(2)] in
      \<open>simp_all add: flush_pending_messages_to_bob_def flush_pending_messages_to_alice_def flush_pending_messages_def del: flush_loop.simps\<close>)
qed

lemma smoke_profile:
  assumes "local_settings s = local_settings (save_display_name ''Alice'' now init_db)"
  shows "load_or_prompt_display_name line t s = (s, ''Alice'')"
proof -
  have "display_name_or_anonymous ''Alice'' = ''Alice''" by code_simp
  then have "load_local_profile s = ''Alice''"
    by (simp add: load_local_profile_def load_display_name_def assms save_display_name_def init_db_def upsert_def has_key_def select_one_def)
  then show ?thesis by (simp add: load_or_prompt_display_name_def)
qed

text \<open>The endpoints and databases both tests start from.\<close>

lemma smoke_bob:
  assumes "b = bob_local K secret private prekey one_time"
  obtains pb where "bob_prekey_bundle K b = Inr pb" "pb_identity_public_key pb = cr_ed25519_public K secret"
    "bob_wf K b" "cr_ed25519_public K secret = ik_public_key K (bo_identity b)" "replenish_one_time_prekey K random now b = b"
proof -
  obtain pb where "bob_prekey_bundle K b = Inr pb" "pb_identity_public_key pb = cr_ed25519_public K secret"
    by (simp add: assms bob_prekey_bundle_def bob_local_def Let_def ik_public_key_def ik_from_secret_bytes_def)
  then show ?thesis
    by (rule that) (simp_all add: assms bob_local_def ik_public_key_def ik_from_secret_bytes_def bob_wf_def from_private_bytes_def
        replenish_one_time_prekey_def)
qed

lemma smoke_alice:
  assumes "a = alice_local K secret private"
  shows "cr_ed25519_public K secret = ik_public_key K (al_identity a)"
    and "ske_identity_public_key (alice_signed_key_exchange K (a\<lparr>al_session := x\<rparr>)) = cr_ed25519_public K secret"
    and "al_keys a = from_private_bytes K (xk_private (al_keys a))" "a\<lparr>al_session := None\<rparr> = a"
  by (simp_all add: assms alice_local_def ik_public_key_def ik_from_secret_bytes_def alice_signed_key_exchange_def
      sign_key_exchange_def Let_def from_private_bytes_def)

lemma smoke_database:
  "load_local_identity lid (save_display_name name t init_db) = None" "peers_ok (save_display_name name t init_db)"
  "messages (save_display_name name t init_db) = []" "pending_peer_messages (save_display_name name t init_db) = []"
  by (simp_all add: load_local_identity_def save_display_name_def init_db_def select_one_def peers_ok_def)

text \<open>The connection on which either side receives what the other has sent.\<close>

definition crossing_link :: "bytes \<Rightarrow> bytes \<Rightarrow> bytes list \<Rightarrow> bytes list \<Rightarrow> direct_link" where
  "crossing_link payload initial alice_frames bob_frames =
     \<lparr>dk_connected = None, dk_accepted = None, dk_bundle_sent = None, dk_bundle = Inr payload, dk_initial_sent = None,
      dk_received = \<lambda>_. Inr initial, dk_alice_sends = [], dk_alice_arrivals = map (\<lambda>f. Received f None) bob_frames,
      dk_bob_sends = [], dk_bob_arrivals = map (\<lambda>f. Received f None) alice_frames\<rparr>"

text \<open>A whole direct connection between two users who wait for each other with a queued message.\<close>

lemma direct_exchange:
  assumes K: "crypto_ok K" "sig_correct K" and C: "chat_codec_ok C" and env: "\<And>i. \<not> fails i"
    and b: "bob_wf K b" "bob_prekey_bundle K b = Inr pb"
    and ids: "bob_key = ik_public_key K (bo_identity b)" "alice_key = ik_public_key K (al_identity a)" "length bob_key = 32"
      "length alice_key = 32" "bob_cid = contact_id_for_identity K bob_key" "alice_cid = contact_id_for_identity K alice_key"
    and s: "peers_ok s" "queued_once bob_cid amid atext s" and t: "peers_ok t" "queued_once alice_cid bmid btext t"
    and msgs: "is_str atext" "is_str btext" "amid \<noteq> bmid"
    and payload: "payload = cc_prekey C \<lparr>cpb_sender_display_name = bn, cpb_bundle = pb\<rparr>"
  obtains initial alice_frames bob_frames s' a' t1 b1 t' b' where
    "connect_alice_chat K C fails eph now an hint payload None [] (map (\<lambda>f. Received f None) bob_frames) a s
      = (s', a', initial # alice_frames, Inr \<lparr>cs_remote_display_name = display_name_or_anonymous bn, cs_conversation_id = bob_cid\<rparr>)"
    "complete_bob_chat_handshake K C fails private now bn None (\<lambda>_. Inr initial) b t
      = (t1, b1, Inr \<lparr>cs_remote_display_name = display_name_or_anonymous an, cs_conversation_id = alice_cid\<rparr>)"
    "flush_pending_messages_to_alice K C now bn alice_cid [] (map (\<lambda>f. Received f None) alice_frames) b1 t1 = (t', b', bob_frames, [], Inr ())"
    "\<forall>pid. pending_peer_messages_for_peer pid s' = []" "\<forall>pid. pending_peer_messages_for_peer pid t' = []"
    "in_history bmid DirReceived bob_cid btext s'" "in_history amid DirReceived alice_cid atext t'"
proof -
  have only: "only_conversation bob_cid s" "only_conversation alice_cid t" using s(2) t(2) by (simp_all add: queued_once_def)
  obtain initial s1 a1 t1 b1 sa sb where h: "al_session a1 = Some sa" "bo_session b1 = Some sb" "in_step K 1 sa sb" "in_step K 0 sb sa"
    "messages s1 = messages s" "pending_peer_messages s1 = pending_peer_messages s" "pending_peer_id_for_conversation K bob_cid s1 = bob_cid"
    "messages t1 = messages t" "pending_peer_messages t1 = pending_peer_messages t" "pending_peer_id_for_conversation K alice_cid t1 = alice_cid"
    "\<forall>sends arrivals s2 a2 frames rest. flush_pending_messages_to_bob K C now an bob_cid sends arrivals a1 s1 = (s2, a2, frames, rest, Inr ()) \<longrightarrow>
      connect_alice_chat K C fails eph now an hint payload None sends arrivals a s = (save_alice_identity C now a2 s2, a2, initial # frames,
        Inr \<lparr>cs_remote_display_name = display_name_or_anonymous bn, cs_conversation_id = bob_cid\<rparr>)"
    "complete_bob_chat_handshake K C fails private now bn None (\<lambda>_. Inr initial) b t = (t1, b1,
        Inr \<lparr>cs_remote_display_name = display_name_or_anonymous an, cs_conversation_id = alice_cid\<rparr>)"
    by (rule direct_handshake [of K C fails, OF K C env b ids s(1) only(1) t(1) only(2) payload])
  have kept: "queued_once bob_cid amid atext s1" "queued_once alice_cid bmid btext t1"
    using s(2) t(2) h(5,6,8,9) by (simp_all add: queued_once_def only_conversation_def)
  obtain alice_frames bob_frames s2 a2 t2 b2 where f:
    "flush_pending_messages_to_bob K C now an bob_cid [] (map (\<lambda>f. Received f None) bob_frames) a1 s1 = (s2, a2, alice_frames, [], Inr ())"
    "flush_pending_messages_to_alice K C now bn alice_cid [] (map (\<lambda>f. Received f None) alice_frames) b1 t1 = (t2, b2, bob_frames, [], Inr ())"
    "\<forall>pid. pending_peer_messages_for_peer pid s2 = []" "\<forall>pid. pending_peer_messages_for_peer pid t2 = []"
    "in_history bmid DirReceived bob_cid btext s2" "in_history amid DirReceived alice_cid atext t2"
    by (rule both_flush [OF K(1) C h(1-4) _ _ msgs kept(1) h(7) kept(2) h(10)]) simp_all
  show ?thesis by (rule that [OF h(11) [rule_format, OF f(1)] h(12) f(2) _ f(4) _ f(6)]) (simp_all add: f)
qed

text \<open>
  C40: two users who have queued a message for each other while the other was away both get it on the next direct
  connection, though both flush at once: the smoke test of the local network passes, when either side receives what
  the other sends.
\<close>

theorem lan_smoke_passes:
  assumes "crypto_ok K" "sig_correct K" "chat_codec_ok C" "\<And>i. \<not> fails i" "length (cr_ed25519_public K secret) = 32" "length (cr_ed25519_public K secret') = 32"
    and "sk_alice env = alice_local K secret private" "sk_bob env = bob_local K secret' private' prekey one_time"
    and "alice_cid = contact_id_for_identity K (cr_ed25519_public K secret)" "bob_cid = contact_id_for_identity K (cr_ed25519_public K secret')"
    and "pending_peer_message_id K (sk_alice_random env) (sk_now env) bob_cid ''phase6 pending from joiner''
      \<noteq> pending_peer_message_id K (sk_bob_random env) (sk_now env) alice_cid ''phase6 pending from invite creator''"
  shows "\<exists>payload initial alice_frames bob_frames b.
      publish_prekey_bundle K C (sk_prekey env) (sk_later env) ''Bob'' (sk_bob env) = (b, Inr payload)
    \<and> run_phase6_lan_smoke_with_dbs K C fails show_addr env (crossing_link payload initial alice_frames bob_frames) bound
      = (initial # alice_frames, bob_frames, Inr ())"
proof -
  let ?now = "sk_now env" and ?later = "sk_later env" and ?a = "sk_alice env" and ?b = "sk_bob env"
    and ?akey = "cr_ed25519_public K secret" and ?bkey = "cr_ed25519_public K secret'"
    and ?atext = "''phase6 pending from joiner''" and ?btext = "''phase6 pending from invite creator''"
  define amid where "amid = pending_peer_message_id K (sk_alice_random env) ?now bob_cid ?atext"
  define bmid where "bmid = pending_peer_message_id K (sk_bob_random env) ?now alice_cid ?btext"
  define hint where "hint = ''quic:'' @ show_addr (dial_addr bound)"
  have neq: "amid \<noteq> bmid" using assms(11) by (simp add: amid_def bmid_def)
  obtain pb where pb: "bob_prekey_bundle K ?b = Inr pb" "pb_identity_public_key pb = ?bkey" and wf: "bob_wf K ?b"
    and bkey: "?bkey = ik_public_key K (bo_identity ?b)" and full: "replenish_one_time_prekey K (sk_prekey env) ?later ?b = ?b"
    by (rule smoke_bob [OF assms(8)])
  note alice = smoke_alice [OF assms(7)]
  let ?s1 = "save_alice_identity C ?now ?a (save_display_name ''Alice'' ?now init_db)"
    and ?t1 = "save_bob_identity C ?now ?b (save_display_name ''Bob'' ?now init_db)"
  have fresh: "peers_ok ?s1" "messages ?s1 = []" "pending_peer_messages ?s1 = []" "peers_ok ?t1" "messages ?t1 = []" "pending_peer_messages ?t1 = []"
    by (simp_all add: smoke_database)
  obtain s2 where s2: "save_contact_and_queue K fails ?now (sk_alice_random env) bob_cid ''Bob'' ?bkey hint ?atext ?s1 = (s2, Inr ())" "peers_ok s2"
    "queued_once bob_cid amid ?atext s2" "local_identity s2 = local_identity ?s1" "local_settings s2 = local_settings ?s1"
    unfolding amid_def by (rule contact_queued [of fails, OF assms(4) fresh(1-3) assms(6,10)])
  obtain t2 where t2: "save_contact_and_queue K fails ?now (sk_bob_random env) alice_cid ''Alice'' ?akey hint ?btext ?t1 = (t2, Inr ())" "peers_ok t2"
    "queued_once alice_cid bmid ?btext t2"
    unfolding bmid_def by (rule contact_queued [of fails, OF assms(4) fresh(4-6) assms(5,9)])
  have str: "is_str ?atext" "is_str ?btext" by code_simp+
  let ?payload = "cc_prekey C \<lparr>cpb_sender_display_name = ''Bob'', cpb_bundle = pb\<rparr>"
  obtain initial alice_frames bob_frames s3 a3 t3 b3 t4 b4 where h:
    "connect_alice_chat K C fails (sk_ephemeral env) ?later ''Alice'' (show_addr (dial_addr bound)) ?payload None []
        (map (\<lambda>f. Received f None) bob_frames) ?a s2
      = (s3, a3, initial # alice_frames, Inr \<lparr>cs_remote_display_name = display_name_or_anonymous ''Bob'', cs_conversation_id = bob_cid\<rparr>)"
    "complete_bob_chat_handshake K C fails (sk_prekey env) ?later ''Bob'' None (\<lambda>_. Inr initial) ?b t2
      = (t3, b3, Inr \<lparr>cs_remote_display_name = display_name_or_anonymous ''Alice'', cs_conversation_id = alice_cid\<rparr>)"
    "flush_pending_messages_to_alice K C ?later ''Bob'' alice_cid [] (map (\<lambda>f. Received f None) alice_frames) b3 t3 = (t4, b4, bob_frames, [], Inr ())"
    "\<forall>pid. pending_peer_messages_for_peer pid s3 = []" "\<forall>pid. pending_peer_messages_for_peer pid t4 = []"
    "in_history bmid DirReceived bob_cid ?btext s3" "in_history amid DirReceived alice_cid ?atext t4"
    by (rule direct_exchange [of K C fails, OF assms(1-4) wf pb(1) bkey alice(1) assms(6,5,10,9) s2(2,3) t2(2,3) str neq refl])
  let ?link = "crossing_link ?payload initial alice_frames bob_frames"
  have saved: "load_local_identity ''alice'' s2 = Some (cd_alice_state C (alice_export_state ?a))"
    using load_saved_identity [of "''alice''" "''alice''"] by (simp add: load_local_identity_def s2(4) save_alice_identity_def)
  have loaded: "load_or_create_alice_identity K C ?a ?later s2 = (s2, Inr ?a)"
    using assms(3) alice_state_round_trip [OF alice(3)] by (simp add: load_or_create_alice_identity_def saved chat_codec_ok_def alice(4))
  have named: "load_or_prompt_display_name (sk_name_line env) ?later s2 = (s2, ''Alice'')"
    by (rule smoke_profile [of _ ?now]) (simp add: s2(5) save_alice_identity_def save_local_identity_def stmt_upsert_local_identity_def)
  have dial: "dial_direct K C fails env ?link (show_addr (dial_addr bound)) s2 = (s3, initial # alice_frames,
      Inr \<lparr>cs_remote_display_name = display_name_or_anonymous ''Bob'', cs_conversation_id = bob_cid\<rparr>)"
    by (simp add: dial_direct_def named loaded crossing_link_def h(1))
  have serve: "lan_smoke_server K C fails env ?link ?b t2 = (save_bob_identity C ?later b4 t4, bob_frames, Inr alice_cid)"
    using in_history_received [of amid alice_cid ?atext "save_bob_identity C ?later b4 t4"] h(7)
    by (simp add: lan_smoke_server_def crossing_link_def h(2,3) Let_def)
  have akey: "ske_identity_public_key (alice_signed_key_exchange K ?a) = ?akey" using alice(2) [of None] by (simp add: alice(4))
  have "run_phase6_lan_smoke_with_dbs K C fails show_addr env ?link bound = (initial # alice_frames, bob_frames, Inr ())"
    unfolding run_phase6_lan_smoke_with_dbs_def load_or_create_bob_identity_def load_or_create_alice_identity_def smoke_database(1) Let_def
      option.case prod.case sum.case pb akey assms(9,10) [symmetric] hint_def [symmetric] s2(1) t2(1) dial serve
    using h(4,5) in_history_received [OF h(6)] by simp
  then show ?thesis using pb(1) by (intro exI conjI) (simp_all add: publish_prekey_bundle_def full)
qed

definition toy_smoke_env :: smoke_env where
  "toy_smoke_env = \<lparr>sk_now = 5, sk_later = 9, sk_alice = alice_local toy_crypto (replicate 32 5) [6],
     sk_bob = bob_local toy_crypto (replicate 32 7) [2] [3] [4], sk_prekey = [8], sk_ephemeral = [9], sk_alice_random = [1],
     sk_bob_random = [2], sk_name_line = []\<rparr>"

theorem lan_smoke_passes_witness:
  "\<exists>payload initial alice_frames bob_frames.
      run_phase6_lan_smoke_with_dbs toy_crypto toy_chat_codec (\<lambda>_. False) (\<lambda>_. ''127.0.0.1:6000'') toy_smoke_env
        (crossing_link payload initial alice_frames bob_frames) (IpV4 (Ipv4 0 0 0 0), 6000) = (initial # alice_frames, bob_frames, Inr ())"
proof -
  let ?key = "\<lambda>x. cr_ed25519_public toy_crypto (replicate 32 x)"
  have key: "length (?key x) = 32" for x by (simp add: toy_crypto_def)
  have "sum_list (as_bytes ''ciphermesh.pending-peer-message.v1'' @ as_bytes (contact_id_for_identity toy_crypto (?key 7)) @ to_be_bytes 5
      @ as_bytes ''phase6 pending from joiner'' @ [1])
    \<noteq> sum_list (as_bytes ''ciphermesh.pending-peer-message.v1'' @ as_bytes (contact_id_for_identity toy_crypto (?key 5)) @ to_be_bytes 5
      @ as_bytes ''phase6 pending from invite creator'' @ [2 :: u8])" by code_simp
  then have "pending_peer_message_id toy_crypto (sk_alice_random toy_smoke_env) (sk_now toy_smoke_env) (contact_id_for_identity toy_crypto (?key 7))
      ''phase6 pending from joiner''
    \<noteq> pending_peer_message_id toy_crypto (sk_bob_random toy_smoke_env) (sk_now toy_smoke_env) (contact_id_for_identity toy_crypto (?key 5))
      ''phase6 pending from invite creator''"
    by (auto simp: pending_peer_message_id_def toy_smoke_env_def toy_crypto_def simp del: sum_list_append dest!: hex_encode_inject)
  moreover have "sk_alice toy_smoke_env = alice_local toy_crypto (replicate 32 5) [6]"
    "sk_bob toy_smoke_env = bob_local toy_crypto (replicate 32 7) [2] [3] [4]" by (simp_all add: toy_smoke_env_def)
  ultimately show ?thesis
    using lan_smoke_passes [where fails = "\<lambda>_. False" and show_addr = "\<lambda>_. ''127.0.0.1:6000''" and bound = "(IpV4 (Ipv4 0 0 0 0), 6000)",
      OF toy_crypto_ok toy_sig_correct toy_chat_codec_ok _ key key _ _ refl refl] by blast
qed

section \<open>The test with an invite\<close>

text \<open>The search loop; it has no result while the list of its events is over and nothing was found.\<close>

fun discover_lan_invite_run :: "(string \<Rightarrow> 'a option) \<Rightarrow> string \<Rightarrow> discovery_event list \<Rightarrow> (app_error + 'a) option" where
  "discover_lan_invite_run parse_socket code_hash [] = None"
| "discover_lan_invite_run parse_socket code_hash (ev # evs) =
     (case snd (discover_lan_invite_addr parse_socket code_hash ev) of
        Searching \<Rightarrow> discover_lan_invite_run parse_socket code_hash evs
      | FoundResult a \<Rightarrow> Some (Inr a)
      | SearchFailed e \<Rightarrow> Some (Inl e))"

text \<open>
  \<open>random\<close> are the random bytes of the invite code, \<open>evs\<close> the events of the search for its hash.  Bob's side ends with
  its handshake.
\<close>

definition run_phase6_invite_discovery_smoke_with_dbs ::
    "crypto \<Rightarrow> chat_codec \<Rightarrow> (nat \<Rightarrow> bool) \<Rightarrow> (ip_addr \<times> u16 \<Rightarrow> string) \<Rightarrow> (string \<Rightarrow> (ip_addr \<times> u16) option) \<Rightarrow> smoke_env \<Rightarrow> direct_link
      \<Rightarrow> ip_addr option \<Rightarrow> ip_addr \<times> u16 \<Rightarrow> bytes option \<Rightarrow> discovery_event list \<Rightarrow> (chat_error + unit) option" where
  "run_phase6_invite_discovery_smoke_with_dbs K C fails show_addr parse_socket env link lan bound random evs =
     (let now = sk_now env; later = sk_later env; s0 = save_display_name ''Alice'' now init_db
      in case load_or_create_bob_identity K C (sk_bob env) now (save_display_name ''Bob'' now init_db) of
           (_, Inl e) \<Rightarrow> Some (Inl (AppError e))
         | (t1, Inr b) \<Rightarrow>
      (case and_then (advertise_socket_addr lan bound) (\<lambda>advertised_addr.
              and_then (generate_invite_code random) (\<lambda>code. Inr (advertised_addr, invite_code_hash K code))) of
           Inl e \<Rightarrow> Some (Inl (AppError e))
         | Inr (advertised_addr, code_hash) \<Rightarrow>
      (case discover_lan_invite_run parse_socket code_hash evs of
           None \<Rightarrow> None
         | Some (Inl e) \<Rightarrow> Some (Inl (AppError e))
         | Some (Inr discovered_addr) \<Rightarrow>
      (case dial_direct K C fails env link (show_addr discovered_addr) s0 of
           (_, _, Inl e) \<Rightarrow> Some (Inl e)
         | (s1, _, Inr session) \<Rightarrow>
      (case load_or_create_alice_identity K C (sk_alice env) later s1 of
           (_, Inl e) \<Rightarrow> Some (Inl (AppError e))
         | (s2, Inr a) \<Rightarrow>
      (let bob_conversation_id = contact_id_for_identity K (ske_identity_public_key (alice_signed_key_exchange K a))
       in case dk_accepted link of
            Some err \<Rightarrow> Some (Inl (NetError err))
          | None \<Rightarrow>
       (case complete_bob_chat_handshake K C fails (sk_prekey env) later ''Bob'' (dk_bundle_sent link) (dk_received link) b t1 of
            (_, _, Inl e) \<Rightarrow> Some (Inl e)
          | (_, _, Inr served) \<Rightarrow>
              Some (if discovered_addr \<noteq> advertised_addr
                    then Inl (AppError (AppMessage (''invite discovery resolved '' @ show_addr discovered_addr @ '', expected ''
                           @ show_addr advertised_addr)))
                    else if cs_conversation_id served \<noteq> bob_conversation_id
                    then Inl (AppError (AppMessage ''Bob stored the wrong peer conversation after invite discovery''))
                    else if cs_remote_display_name session \<noteq> ''Bob''
                    then Inl (AppError (AppMessage ''Alice did not receive Bob's display name after invite discovery''))
                    else Inr ()))))))))"

text \<open>The test passes when the one peer that is discovered is the inviting side and answers the question for the hash.\<close>

lemma invite_smoke_passes:
  assumes "crypto_ok K" "sig_correct K" "chat_codec_ok C" "\<And>i. \<not> fails i"
    and "length (cr_ed25519_public K secret) = 32" "length (cr_ed25519_public K secret') = 32"
    and "sk_alice env = alice_local K secret private" "sk_bob env = bob_local K secret' private' prekey one_time"
    and "advertise_socket_addr lan bound = Inr advertised" "parse_socket (show_addr advertised) = Some advertised"
    and "generate_invite_code random = Inr code"
    and "run_invite_discovery_advertiser (invite_code_hash K code) (show_addr advertised)
      (DiscoveryRequest asker (CmInviteLookup (invite_code_hash K code))) = [DiscoveryAnswer answer]"
  shows "\<exists>payload initial. run_phase6_invite_discovery_smoke_with_dbs K C fails show_addr parse_socket env (crossing_link payload initial [] [])
      lan bound random [DiscoveredPeers [(inviter, address)], DiscoveryResponse answer] = Some (Inr ())"
proof -
  let ?now = "sk_now env" and ?later = "sk_later env" and ?a = "sk_alice env" and ?b = "sk_bob env"
    and ?akey = "cr_ed25519_public K secret" and ?bkey = "cr_ed25519_public K secret'"
  let ?s0 = "save_display_name ''Alice'' ?now init_db" and ?t0 = "save_display_name ''Bob'' ?now init_db"
  let ?s1 = "save_alice_identity C ?later ?a ?s0" and ?t1 = "save_bob_identity C ?now ?b ?t0"
  obtain pb where pb: "bob_prekey_bundle K ?b = Inr pb" and wf: "bob_wf K ?b" and bkey: "?bkey = ik_public_key K (bo_identity ?b)"
    by (rule smoke_bob [OF assms(8)])
  note alice = smoke_alice [OF assms(7)]
  have fresh: "peers_ok ?s1" "only_conversation (contact_id_for_identity K ?bkey) ?s1" "peers_ok ?t1"
    "only_conversation (contact_id_for_identity K ?akey) ?t1" "pending_peer_messages ?s1 = []"
    by (simp_all add: smoke_database) (simp_all add: only_conversation_def smoke_database)
  let ?payload = "cc_prekey C \<lparr>cpb_sender_display_name = ''Bob'', cpb_bundle = pb\<rparr>"
  obtain initial s3 a3 t3 b3 sa sb where h: "al_session a3 = Some sa" "bo_session b3 = Some sb" "in_step K 1 sa sb" "in_step K 0 sb sa"
    "messages s3 = messages ?s1" "pending_peer_messages s3 = pending_peer_messages ?s1"
    "pending_peer_id_for_conversation K (contact_id_for_identity K ?bkey) s3 = contact_id_for_identity K ?bkey"
    "messages t3 = messages ?t1" "pending_peer_messages t3 = pending_peer_messages ?t1"
    "pending_peer_id_for_conversation K (contact_id_for_identity K ?akey) t3 = contact_id_for_identity K ?akey"
    "\<forall>sends arrivals s4 a4 frames rest. flush_pending_messages_to_bob K C ?later ''Alice'' (contact_id_for_identity K ?bkey) sends arrivals a3 s3
        = (s4, a4, frames, rest, Inr ()) \<longrightarrow>
      connect_alice_chat K C fails (sk_ephemeral env) ?later ''Alice'' (show_addr advertised) ?payload None sends arrivals ?a ?s1
        = (save_alice_identity C ?later a4 s4, a4, initial # frames,
          Inr \<lparr>cs_remote_display_name = display_name_or_anonymous ''Bob'', cs_conversation_id = contact_id_for_identity K ?bkey\<rparr>)"
    "complete_bob_chat_handshake K C fails (sk_prekey env) ?later ''Bob'' None (\<lambda>_. Inr initial) ?b ?t1 = (t3, b3,
        Inr \<lparr>cs_remote_display_name = display_name_or_anonymous ''Alice'', cs_conversation_id = contact_id_for_identity K ?akey\<rparr>)"
    "a3 = ?a\<lparr>al_session := Some sa\<rparr>"
    by (rule direct_handshake [of K C fails, OF assms(1-4) wf pb bkey alice(1) assms(6,5) refl refl fresh(1-4) refl])
  have flush: "flush_pending_messages_to_bob K C ?later ''Alice'' (contact_id_for_identity K ?bkey) [] [] a3 s3 = (s3, a3, [], [], Inr ())"
    using h(6) fresh(5) by (simp add: flush_pending_messages_to_bob_def flush_pending_messages_def pending_peer_messages_for_peer_def select_order_by_def)
  have bob: "display_name_or_anonymous ''Bob'' = ''Bob''" by code_simp
  let ?link = "crossing_link ?payload initial [] []" and ?s4 = "save_alice_identity C ?later a3 s3"
  have dial: "dial_direct K C fails env ?link (show_addr advertised) ?s0 = (?s4, [initial],
      Inr \<lparr>cs_remote_display_name = ''Bob'', cs_conversation_id = contact_id_for_identity K ?bkey\<rparr>)"
    using h(11) [rule_format, OF flush]
    by (simp add: dial_direct_def smoke_profile [OF refl] load_or_create_alice_identity_def smoke_database(1) crossing_link_def bob)
  have "al_keys a3 = from_private_bytes K (xk_private (al_keys a3))" using alice(3) by (simp add: h(13))
  then have loaded: "load_or_create_alice_identity K C ?a ?later ?s4 = (?s4, Inr (a3\<lparr>al_session := None\<rparr>))"
    using assms(3) by (simp add: load_or_create_alice_identity_def save_alice_identity_def load_saved_identity chat_codec_ok_def alice_state_round_trip)
  have akey: "ske_identity_public_key (alice_signed_key_exchange K (a3\<lparr>al_session := None\<rparr>)) = ?akey"
    using alice(2) [of None] by (simp add: h(13))
  have found: "discover_lan_invite_run parse_socket (invite_code_hash K code) [DiscoveredPeers [(inviter, address)], DiscoveryResponse answer]
      = Some (Inr advertised)"
    using assms(10,12) by auto
  have "run_phase6_invite_discovery_smoke_with_dbs K C fails show_addr parse_socket env ?link lan bound random
      [DiscoveredPeers [(inviter, address)], DiscoveryResponse answer] = Some (Inr ())"
    unfolding run_phase6_invite_discovery_smoke_with_dbs_def load_or_create_bob_identity_def smoke_database(1) Let_def option.case prod.case sum.case
      assms(9,11) and_then.simps found dial loaded akey
    by (simp add: crossing_link_def h(12))
  then show ?thesis by blast
qed

text \<open>The two addresses \<^verbatim>\<open>run_phase6_listener_doctor\<close> prints.\<close>

definition run_phase6_listener_doctor :: "ip_addr option \<Rightarrow> ip_addr \<times> u16 \<Rightarrow> app_error + (ip_addr \<times> u16) \<times> (ip_addr \<times> u16)" where
  "run_phase6_listener_doctor lan bound = and_then (advertise_socket_addr lan bound) (\<lambda>advertised. Inr (bound, advertised))"

end
