(* ===== verification/Terminal.thy ===== *)
theory Terminal
  imports OneShot
begin

text \<open>
  The terminal of a running chat (\<^verbatim>\<open>ChatTerminal\<close>, \<^verbatim>\<open>print_message\<close> and \<^verbatim>\<open>spawn_line_editor\<close> of \<^verbatim>\<open>src/src/main.rs\<close>): which
  of the typed lines reach the chat loop, what is printed for a message, and that a chat ends with its terminal.
\<close>

section \<open>The line editor\<close>

text \<open>
  What the line editor returns for a prompt.  The flag says whether the chat loop still receives lines; the loop
  ends with the first line it does not, with a command that leaves the chat, or with the input.
\<close>

datatype readline = TypedLine string | Interrupted | EndOfInput | ReadFailed string

fun line_editor_loop :: "(readline \<times> bool) list \<Rightarrow> string list" where
  "line_editor_loop [] = []"
| "line_editor_loop ((TypedLine line, received) # rest) =
     (if received then line # (if is_chat_back_command line then [] else line_editor_loop rest) else [])"
| "line_editor_loop ((Interrupted, _) # _) = []"
| "line_editor_loop ((EndOfInput, _) # _) = []"
| "line_editor_loop ((ReadFailed _, _) # _) = []"

text \<open>\<open>editor\<close> and \<open>printer\<close> are the errors of starting the editor and its printer, if any.\<close>

definition spawn_line_editor :: "string option \<Rightarrow> string option \<Rightarrow> (readline \<times> bool) list \<Rightarrow> app_error + string list" where
  "spawn_line_editor editor printer typed = (case editor of
     Some error \<Rightarrow> Inl (AppMessage (''line editor failed to start: '' @ error))
   | None \<Rightarrow> (case printer of
       Some error \<Rightarrow> Inl (AppMessage (''line editor failed to start: '' @ error))
     | None \<Rightarrow> Inr (line_editor_loop typed)))"

text \<open>The line printed for a message; \<open>listening\<close> says whether the printer still takes one.\<close>

definition print_message :: "bool \<Rightarrow> string \<Rightarrow> string \<Rightarrow> app_error + string" where
  "print_message listening sender_display_name plaintext =
     (if listening then Inr (''> '' @ display_name_or_anonymous sender_display_name @ '': '' @ plaintext)
      else Inl (AppMessage ''terminal print failed: sending on a closed channel''))"

text \<open>A command that leaves the chat is the last line of the terminal, and a typed line is lost only behind one or with the loop.\<close>

lemma back_command_is_last: "line \<in> set (butlast (line_editor_loop typed)) \<Longrightarrow> \<not> is_chat_back_command line"
  by (induction typed rule: line_editor_loop.induct) (auto split: if_splits)

lemma typed_lines_arrive:
  assumes "\<forall>line \<in> set lines. \<not> is_chat_back_command line"
  shows "line_editor_loop (map (\<lambda>line. (TypedLine line, True)) lines @ rest) = lines @ line_editor_loop rest"
  using assms by (induction lines) simp_all

section \<open>The chat ends with its terminal\<close>

lemma quic_input_closed: "quic_chat_step P K C random now cx QuicInputClosed st = (st, [], QuicFinished)"
  by simp

text \<open>Whatever else the connection brings, a chat whose terminal closes does not go on.\<close>

lemma closed_terminal_ends_chat:
  assumes "QuicInputClosed \<in> (\<lambda>(now, random, ev). ev) ` set evs" "quic_chat_run P K C cx evs st = (st', frames, r)"
  shows "r \<noteq> QuicContinue"
  using assms
proof (induction evs arbitrary: st frames)
  case (Cons tev evs)
  obtain now random ev where tev: "tev = (now, random, ev)" by (cases tev)
  obtain st1 frames1 r1 where step: "quic_chat_step P K C random now cx ev st = (st1, frames1, r1)"
    by (cases "quic_chat_step P K C random now cx ev st")
  show ?case
  proof (cases "ev = QuicInputClosed \<or> r1 \<noteq> QuicContinue")
    case True
    then show ?thesis using Cons.prems(2) step by (cases r1) (auto simp: tev)
  next
    case False
    then have r1: "r1 = QuicContinue" and more: "QuicInputClosed \<in> (\<lambda>(now, random, ev). ev) ` set evs"
      using Cons.prems(1) by (auto simp: tev)
    obtain frames2 where "quic_chat_run P K C cx evs st1 = (st', frames2, r)"
      using Cons.prems(2) step r1 by (auto simp: tev split: prod.splits)
    then show ?thesis by (rule Cons.IH [OF more])
  qed
qed simp

end
