(* ===== verification/Spec2Isabelle.thy ===== *)
theory Spec2Isabelle
  imports Crdt StorageInv StorageProps StorageChats EventSync RatchetProps Handshake Devices Mailbox Delivery
    Text Addresses Rendezvous ChatStore ChatSession ChatProps Pairing Quic OneShot Menu ClientSteps MenuProps
    MailboxNode Advertiser Commands ServiceIdentity QuicProps SyncDemos MessageDemos StorageBenchmark
    DeviceDemos MailboxSmoke NetworkDemos DirectSmoke Terminal ClientFiles
begin

text \<open>
  Verification of CipherMesh, a peer-to-peer messenger (\<^verbatim>\<open>src/src/*.rs\<close>).

  The program.  \<^verbatim>\<open>lib.rs\<close> holds the cryptographic core: key pairs, a double ratchet with skipped keys, signed
  prekeys and the endpoints \<^verbatim>\<open>Alice\<close> and \<^verbatim>\<open>Bob\<close>, accounts with certified and revocable devices.  \<^verbatim>\<open>storage.rs\<close> is
  the client database over SQLite, \<^verbatim>\<open>mailbox_storage.rs\<close> the one of a mailbox node, \<^verbatim>\<open>crdt.rs\<close> turns a log of
  conversation events into a conversation.  \<^verbatim>\<open>main.rs\<close> delivers messages (outbox, mailbox, a chat over QUIC) and
  exchanges events between devices; \<^verbatim>\<open>pairing.rs\<close> is the public rendezvous service, the two sides of an invite and
  the chat that follows it.

  Theories, in the order of the components.
  \<^item> \<open>Prelude\<close>: machine integers, errors as sums, UTF-8, and the effect of the SQL statements on lists of rows.
  \<^item> \<open>StorageTypes\<close>, \<open>Storage\<close>: the public records of \<^verbatim>\<open>storage.rs\<close>, the row types, the database as a record of tables
    and every method of \<^verbatim>\<open>Storage\<close>.  Statements outside a transaction can fail one by one: \<open>fails n\<close> says whether the
    \<open>n\<close>-th one does; a transaction keeps all or nothing.  \<open>StorageInv\<close>: reachable databases, their keys and version
    vectors.  \<open>StorageProps\<close>: invites, messages, acceptance, revocations, counters.  \<open>StorageChats\<close>: merging and
    deleting conversations, pages of summaries.
  \<^item> \<open>Crdt\<close>: \<^verbatim>\<open>materialize_conversation\<close> and its independence of order and repetition.  \<open>EventSync\<close>: version vectors and
    the exchange of missing events.
  \<^item> \<open>Ratchet\<close>: \<^verbatim>\<open>RatchetSession\<close>; \<open>RatchetProps\<close>: delivery within the window of eight skipped keys, replays, bounds,
    the DH ratchet, restored sessions, forged messages.  \<open>Identity\<close>, \<open>Handshake\<close>: identities, prekey bundles, \<^verbatim>\<open>Alice\<close>
    and \<^verbatim>\<open>Bob\<close>, their two handshakes.  \<open>Devices\<close>: certificates, revocations, sessions between devices, and the
    authorised exchange of events.
  \<^item> \<open>Mailbox\<close>: the table and the requests; \<open>Delivery\<close>: outbox delivery, acknowledgements and the mailbox clients;
    \<open>MailboxNode\<close>: the loops of the node and of a waiting client.
  \<^item> \<open>Text\<close>: names, invite codes, hexadecimal text, safety numbers, identifiers, previews.  \<open>Addresses\<close>: which
    addresses are dialled or advertised.  \<open>Rendezvous\<close>: the service.
  \<^item> \<open>ChatStore\<close>: what the chat keeps in the database; \<open>ChatSession\<close>: frames, queue and event loop of the paired chat;
    \<open>ChatProps\<close>: what the loop achieves.  \<open>Pairing\<close>: the event loops of the inviting and the joining side.
    \<open>Quic\<close>: the chat over a direct connection; \<open>QuicProps\<close>: its two ends together.  \<open>OneShot\<close>: the commands that deliver one message, directly or over a
    relay, and the searches for a peer and for an invite in the local network.  \<open>Advertiser\<close>: the listener of these commands,
    which publishes its address and answers requests.
  \<^item> \<open>Menu\<close>: the menus as loops over the typed lines, with a whole pairing session behind the invite menus;
    \<open>MenuProps\<close>: how a menu goes on with more lines, the way out, the pages and numbers of the chat list, what browsing
    keeps.  \<open>ClientFiles\<close>, \<open>ClientSteps\<close>: what the client as a whole keeps of its database: every message is filed under a
    contact of the chat list, contacts and known peers under the id of their identity key.
    \<open>Commands\<close>: which command the arguments name.  \<open>ServiceIdentity\<close>: under which identity the public service runs.
  \<^item> \<open>SyncDemos\<close>, \<open>MessageDemos\<close>, \<open>DeviceDemos\<close>: the demonstration commands as whole scenarios over the operations above (fresh
    endpoints or devices, key exchange, restart, queue and retry, invite, fan-out, revocation, synchronisation), each
    with the values it prints; \<open>StorageBenchmark\<close>: the benchmark loop and its checks, without the timing;
    \<open>MailboxSmoke\<close>, \<open>NetworkDemos\<close>: the smoke tests of the mailbox and of the relayed path and the Kademlia demonstration,
    as loops over the events of their swarms.  \<open>DirectSmoke\<close>: the smoke tests of the direct path, with what a whole direct
    connection between two users achieves who wait for each other with a queued message.  \<open>Terminal\<close>: the line editor of a chat.
  \<^item> This theory: the way from an invite code to the first stored message, across \<open>Rendezvous\<close>, \<open>Pairing\<close>,
    \<open>Handshake\<close> and \<open>ChatProps\<close>.

  How the code is modelled.  A struct is a record, an enum a datatype, a \<^verbatim>\<open>u64\<close> a 64 bit word (a table column is the
  signed integer SQLite stores), a byte string a list of 8 bit words, a \<^verbatim>\<open>String\<close> the list of its UTF-8 bytes as
  characters; \<^verbatim>\<open>Result\<close> is a sum with the error on the left.  A method that changes its object returns it changed,
  also when it fails.  The clock, fresh random bytes and keys are arguments.  An event loop is a step function from
  event and state to state, actions and outcome, with a run function over lists of events.  \<^verbatim>\<open>Alice\<close> and \<^verbatim>\<open>Bob\<close> have
  the same code twice in the chat; it is one function over a \<open>party\<close> with two instances.

  Code that is not part of the repository is a parameter: \<open>crypto\<close> (X25519, HKDF, the AEAD, Ed25519, SHA-256) with
  \<open>crypto_ok\<close> (HKDF yields the requested length, decryption inverts encryption, the two sides of a key agreement are
  equal) and \<open>sig_correct\<close>; the codecs for \<^verbatim>\<open>bincode\<close> with \<open>codec_ok\<close> and \<open>chat_codec_ok\<close> (decoding inverts encoding); the
  text of multiaddresses with \<open>addr_text_ok\<close>; the link to the mailbox node; the connection of the QUIC chat.  Nothing is
  assumed about secrecy or about the strength of hashes: where identifiers must not collide a theorem says so.
  The instances \<open>toy_crypto\<close>, \<open>toy_codec\<close>, \<open>toy_chat_codec\<close> and \<open>toy_addr_text\<close> satisfy these hypotheses and carry the
  witnesses.

  Interfaces.  The locales are \<open>once_store\<close> in \<open>StorageProps\<close> (a table that takes the first value per key), \<open>event_replica\<close> in
  \<open>EventSync\<close> (a log that can list what another one lacks), \<open>endpoint\<close> in \<open>Handshake\<close> (a value with a session that encrypts
  and decrypts) and \<open>chat_party\<close> in \<open>ChatProps\<close> (an endpoint that saves itself in the database).  In \<open>ClientSteps\<close> an invariant
  of the client states what it asks of the methods of the store: \<open>client_methods\<close> (those without a conversation), \<open>chat_store\<close>
  (those of the conversation that is open), \<open>storing_party\<close> (a role whose saving keeps it) and \<open>client_store\<close> (opening, clearing,
  deleting and saving of contacts too).  Each is interpreted on the definitions of the code; what the chats guarantee is
  proved once in \<open>chat_party\<close> and holds for both roles, and that the client keeps an invariant is proved once in \<open>client_store\<close>.

  Termination and bounds.  Every function is total.  The loop that stores skipped keys ends by the distance to the
  message number, the scan for contiguous counters and the decoders by the length of their input; event loops run over
  the given list of events, menus over the given list of lines, of which every screen uses up at least one.  \<open>MAX_SKIPPED_MESSAGE_KEYS\<close> is 8, the lifetime of an invite 300 seconds, the limit of a
  mailbox the argument of the node.

  What the proofs brought to light: counters from \<open>2 ^ 63\<close> on reset a version vector (\<open>EventSync\<close>); a merge of contacts
  strands unread markers and queued messages (\<open>StorageChats\<close>, \<open>ChatStore\<close>); a forged message uses up a message key or
  a one-time prekey (\<open>RatchetProps\<close>, \<open>Handshake\<close>); an id is recorded as accepted before the message is stored
  (\<open>Delivery\<close>); resending a queue that the peer already has exhausts the window of skipped keys (\<open>ChatProps\<close>); the QUIC
  chat queues empty lines (\<open>Quic\<close>); the one-shot listener saves the contact before it decrypts, and an empty one-shot
  message waits for an acknowledgement that is not sent (\<open>OneShot\<close>); after one initial message the next bundle request
  ends the listener (\<open>Advertiser\<close>); the menus do not see the end of the input
  (\<open>MenuProps\<close>).

  Not modelled, because it is the use of third-party crates without decisions of its own: swarms, relay
  and QUIC transport, TLS configuration; printing.  The relay server of the tests and \<^verbatim>\<open>run_relay_demo\<close> only run a
  relay and print its events, and are left out.  Statements can fail in the methods of the store that run several of them
  and in transactions; a method with a single statement is taken to succeed where the client calls it, although the
  code passes its error on.  Other failures of SQLite, and failures of the swarm to take an action, are left out.
  \<open>mailbox_open\<close> is the opening of a fresh file.  A screen with a chat list holds the chats in their order, without the
  number that is printed before each.
\<close>

section \<open>From an invite code to the first message\<close>

text \<open>An invite that was registered is resolved by the joining side, which then asks for the bundle.\<close>

lemma join_reaches_inviter:
  assumes "addr_text_ok T" "parse_peer bob_peer = Some bob_peer" "bob_peer \<noteq> jc_service_peer_id cf"
    and "\<not> ji_lookup_sent st" "\<not> ji_requested_bundle st"
  shows "\<exists>st' acts. join_invite_run K C T parse_peer cf
      [(f1, Established (jc_service_peer_id cf) False), (f2, PairingApp (EvResponse (jc_service_peer_id cf) (Resolved bob_peer addresses))),
       (f3, Established bob_peer relayed)] st
      = (st', SendRequest (jc_service_peer_id cf) (ResolveInvite (jc_code_hash cf)) # acts @ [SendRequest bob_peer PreKeyBundleRequest], Pending)
    \<and> ji_target_peer_id st' = Some bob_peer \<and> ji_alice st' = ji_alice st \<and> ji_db st' = ji_db st"
proof -
  let ?st1 = "st\<lparr>ji_lookup_sent := True\<rparr>"
  obtain acts st2 where r: "join_invite_resolved T parse_peer cf f2 bob_peer addresses ?st1 = (st2, acts, Pending)"
    "ji_target_peer_id st2 = Some bob_peer" "ji_requested_bundle st2 = ji_requested_bundle ?st1" "ji_alice st2 = ji_alice ?st1"
    "ji_db st2 = ji_db ?st1" using resolved_step [where parse_peer = parse_peer and p = bob_peer, OF assms(1,2)] by blast
  show ?thesis
    by (intro exI [of _ "st2\<lparr>ji_requested_bundle := True\<rparr>"] exI [of _ acts])
       (use assms r in \<open>simp add: join_invite_connected_def join_invite_response_def\<close>)
qed

text \<open>A chat that starts with an empty queue sends nothing and leaves the history alone.\<close>

lemma quiet_start:
  assumes "pending_peer_messages s = []"
  shows "\<exists>s'. pairing_chat_start P K C now cx e s = (\<lparr>pc_online = True, pc_party = e, pc_db = s'\<rparr>, [], Continue) \<and> messages s' = messages s"
proof -
  have "pending_peer_messages_for_peer pid s = []" for pid using assms by (simp add: pending_peer_messages_for_peer_def select_order_by_def)
  then show ?thesis
    by (simp add: pairing_chat_start_def loop_of_def print_conversation_def mark_new_messages_read_def)
qed

text \<open>The inviting side up to the point where the service has confirmed the registration.\<close>

lemma invite_registers:
  assumes "\<not> ci_registered st" "\<not> ci_registration_sent st" "ci_direct_listener_ready st" "svc = ic_service_peer_id cf"
  shows "\<exists>st'. (\<forall>evs. create_invite_run K C T lan cf
      ((e, ReservationReqAccepted svc False) # (e', PairingApp (EvResponse svc Registered)) # evs) st
      = (case create_invite_run K C T lan cf evs st' of (st2, acts, r) \<Rightarrow>
          (st2, SendRequest svc (RegisterInvite (ic_code_hash cf) (ic_expires_at cf) (ci_direct_addresses st)) # acts, r)))
    \<and> ci_registered st' \<and> ci_bob st' = ci_bob st \<and> ci_db st' = ci_db st"
  by (rule exI [of _ "st\<lparr>ci_reservation_confirmed := True, ci_registration_sent := True, ci_registered := True\<rparr>"])
     (use assms in \<open>simp_all add: create_invite_reserved_def Let_def send_invite_registration_def split: prod.splits\<close>)

text \<open>The first line of a chat whose sessions are in step.\<close>

lemma first_line_arrives:
  assumes "crypto_ok K" "chat_codec_ok C" "in_step K 1 sa sb" "al_session a = Some sa" "bo_session b = Some sb"
    and "pending_peer_messages s = []" "pending_peer_messages t = []"
    and "line \<noteq> []" "is_str line" "\<not> is_chat_back_command line"
  shows "\<exists>chA chB chA' frame. pairing_chat_start alice_party K C now cxA a s = (chA, [], Continue)
    \<and> pairing_chat_start bob_party K C now cxB b t = (chB, [], Continue)
    \<and> run_pairing_chat alice_party K C bob_peer cxA [(now1, random1, Line line)] chA = (chA', [SendFrame frame], Continue)
    \<and> (message_exists (frame_id C frame) t \<or> (\<exists>chB' row.
         run_pairing_chat bob_party K C alice_peer cxB [(now2, random2, frame_event alice_peer frame)] chB
           = (chB', [Respond (Ack (frame_id C frame))], Continue)
         \<and> messages (pc_db chB') = messages t @ [row] \<and> mw_plaintext row = Some line
         \<and> mw_conversation_id row = pcc_conversation_id cxB))"
proof -
  obtain s' where A: "pairing_chat_start alice_party K C now cxA a s = (\<lparr>pc_online = True, pc_party = a, pc_db = s'\<rparr>, [], Continue)"
    using quiet_start [OF assms(6), of alice_party K C now cxA a] by blast
  obtain t' where B: "pairing_chat_start bob_party K C now cxB b t = (\<lparr>pc_online = True, pc_party = b, pc_db = t'\<rparr>, [], Continue)"
    "messages t' = messages t" using quiet_start [OF assms(7), of bob_party K C now cxB b] by blast
  let ?chA = "\<lparr>pc_online = True, pc_party = a, pc_db = s'\<rparr>" and ?chB = "\<lparr>pc_online = True, pc_party = b, pc_db = t'\<rparr>"
  let ?run = "run_pairing_chat alice_party K C bob_peer cxA [(now1, random1, Line line)] ?chA"
  obtain chA' acts r where run: "?run = (chA', acts, r)" by (cases ?run)
  have ps: "\<forall>p \<in> set [line]. p \<noteq> [] \<and> is_str p \<and> \<not> is_chat_back_command p" using assms(8-10) by simp
  have ev: "map event_of [(now1, random1, Line line)] = map Line [line]" by (simp add: event_of_def)
  have "al_session (pc_party ?chA) = Some sa" "bo_session (pc_party ?chB) = Some sb" "pc_online ?chA" "1 + length [line] < 2 ^ 64"
    using assms(4,5) by simp_all
  from lines_delivered [OF assms(1-3) this(1-3) ps this(4) ev run, of alice_peer cxB] obtain frames where
    f: "r = Continue" "acts = map SendFrame frames" "length frames = 1" and all: "\<forall>copies arrivals. length copies = length [line]
       \<and> map event_of arrivals = repeat_all (frame_event alice_peer) frames copies \<and> distinct (map (frame_id C) frames)
       \<and> (\<forall>f \<in> set frames. \<not> message_exists (frame_id C f) (pc_db ?chB))
     \<longrightarrow> (\<exists>stB' rows. run_pairing_chat bob_party K C alice_peer cxB arrivals ?chB
            = (stB', repeat_all (\<lambda>f. Respond (Ack (frame_id C f))) frames copies, Continue)
          \<and> messages (pc_db stB') = messages (pc_db ?chB) @ rows \<and> map mw_message_id rows = map (frame_id C) frames
          \<and> map mw_plaintext rows = map Some [line] \<and> (\<forall>row \<in> set rows. mw_conversation_id row = pcc_conversation_id cxB))"
    by auto
  obtain frame where frame: "frames = [frame]" using f(3) by (auto simp: length_Suc_conv)
  have same: "message_exists mid t' = message_exists mid t" for mid by (simp add: message_exists_iff B(2))
  have "\<exists>chB' row. run_pairing_chat bob_party K C alice_peer cxB [(now2, random2, frame_event alice_peer frame)] ?chB
      = (chB', [Respond (Ack (frame_id C frame))], Continue) \<and> messages (pc_db chB') = messages t @ [row]
      \<and> mw_plaintext row = Some line \<and> mw_conversation_id row = pcc_conversation_id cxB"
    if "\<not> message_exists (frame_id C frame) t"
  proof -
    have "length [0] = length [line] \<and> map event_of [(now2, random2, frame_event alice_peer frame)] = repeat_all (frame_event alice_peer) frames [0]
        \<and> distinct (map (frame_id C) frames) \<and> (\<forall>f \<in> set frames. \<not> message_exists (frame_id C f) (pc_db ?chB))"
      using that by (simp add: frame event_of_def repeat_all_def same)
    from all [rule_format, OF this] show ?thesis
      by (auto simp: frame repeat_all_def B(2) map_eq_Cons_conv simp del: run_pairing_chat.simps)
  qed
  then show ?thesis using A B(1) run f(1,2) by (auto simp: frame simp del: run_pairing_chat.simps)
qed

text \<open>
  C2: Whoever types the code of a fresh invite reaches the person who made it.  The inviting side
  registers, the service hands its peer id to the joining side, the two exchange bundle and initial
  message, and both end paired with each other: each names the conversation after the other's identity
  key, their sessions are in step in both directions, and the first line the joining side types is stored
  by the inviting side with its text and acknowledged, unless its id is one that the inviting side has stored
  before.  The queues of both sides are empty and no SQL statement fails.
\<close>

theorem invite_leads_to_chat:
  assumes K: "crypto_ok K" "sig_correct K" and C: "chat_codec_ok C" and T: "addr_text_ok T" "parse_peer bob_peer = Some bob_peer"
    and code: "create_invite_config K nameB service_addr now0 random = Inr (code, cfB)"
    and typed: "join_invite_config K typed nameA service_addr = Inr cfA" "normalize_invite_code typed = Inr code"
    and service: "svc = ic_service_peer_id cfB" "alice_peer \<noteq> svc" "bob_peer \<noteq> svc"
      "bob_peer \<in> sv_reserved sv" "sv_invitations sv (ic_code_hash cfB) = None"
      "t1 < ic_expires_at cfB" "ic_expires_at cfB \<le> t1 + INVITE_TTL_SECS" "t2 < ic_expires_at cfB"
    and B: "bob_wf K (ci_bob stB)" "peers_ok (ci_db stB)" "pending_peer_messages (ci_db stB) = []"
      "\<not> ci_registered stB" "\<not> ci_registration_sent stB" "ci_direct_listener_ready stB"
    and A: "peers_ok (ji_db stA)" "pending_peer_messages (ji_db stA) = []" "\<not> ji_lookup_sent stA" "\<not> ji_requested_bundle stA"
    and env: "\<And>i. \<not> se_fails e1 i" "\<And>i. \<not> se_fails e2 i"
    and line: "line \<noteq> []" "is_str line" "\<not> is_chat_back_command line"
  shows "\<exists>sv1 sv2 addresses payload initial acts stA1 stA2 stB1 cxA cxB.
      service_request T t1 bob_peer (RegisterInvite (ic_code_hash cfB) (ic_expires_at cfB) (ci_direct_addresses stB)) sv = (sv1, Registered)
    \<and> service_request T t2 alice_peer (ResolveInvite (jc_code_hash cfA)) sv1 = (sv2, Resolved bob_peer addresses)
    \<and> create_invite_run K C T lan cfB
        [(e0, ReservationReqAccepted svc False), (e0, PairingApp (EvResponse svc Registered)),
         (e0, PairingApp (EvRequest alice_peer PreKeyBundleRequest)), (e2, PairingApp (EvRequest alice_peer (InitialMessageRequest initial)))] stB
      = (stB1, [SendRequest svc (RegisterInvite (ic_code_hash cfB) (ic_expires_at cfB) (ci_direct_addresses stB)),
          SendResponse (PreKeyBundleResponse payload), SendResponse (Ack ''paired'')], Paired alice_peer cxB)
    \<and> join_invite_run K C T parse_peer cfA
        [(e0, Established svc False), (e0, PairingApp (EvResponse svc (Resolved bob_peer addresses))), (e0, Established bob_peer relayed)] stA
      = (stA1, SendRequest svc (ResolveInvite (jc_code_hash cfA)) # acts @ [SendRequest bob_peer PreKeyBundleRequest], Pending)
    \<and> join_invite_step K C T parse_peer cfA e1 (PairingApp (EvResponse bob_peer (PreKeyBundleResponse payload))) stA1
      = (stA2, [SendRequest bob_peer (InitialMessageRequest initial)],
         AwaitAck bob_peer (pcc_remote_display_name cxA) (pcc_conversation_id cxA))
    \<and> wait_for_join_ack_and_chat bob_peer (jc_local_display_name cfA) (pcc_remote_display_name cxA) (pcc_conversation_id cxA) elapsed
        (PairingApp (EvResponse bob_peer (Ack ''paired''))) = Paired bob_peer cxA
    \<and> pcc_conversation_id cxA = contact_id_for_identity K (ik_public_key K (bo_identity (ci_bob stB)))
    \<and> pcc_conversation_id cxB = contact_id_for_identity K (ik_public_key K (al_identity (ji_alice stA)))
    \<and> (\<exists>chA chB chA' frame. pairing_chat_start alice_party K C now cxA (ji_alice stA2) (ji_db stA2) = (chA, [], Continue)
        \<and> pairing_chat_start bob_party K C now cxB (ci_bob stB1) (ci_db stB1) = (chB, [], Continue)
        \<and> run_pairing_chat alice_party K C bob_peer cxA [(now1, random1, Line line)] chA = (chA', [SendFrame frame], Continue)
        \<and> (message_exists (frame_id C frame) (ci_db stB1) \<or> (\<exists>chB' row.
             run_pairing_chat bob_party K C alice_peer cxB [(now2, random2, frame_event alice_peer frame)] chB
               = (chB', [Respond (Ack (frame_id C frame))], Continue)
             \<and> messages (pc_db chB') = messages (ci_db stB1) @ [row] \<and> mw_plaintext row = Some line
             \<and> mw_conversation_id row = pcc_conversation_id cxB)))"
proof -
  have cf: "jc_service_peer_id cfA = svc" "jc_code_hash cfA = ic_code_hash cfB"
    using code typed service(1) by (auto simp: create_invite_config_def join_invite_config_def and_then_Inr_iff)
  obtain sv1 sv2 where sv: "service_request T t1 bob_peer (RegisterInvite (ic_code_hash cfB) (ic_expires_at cfB) (ci_direct_addresses stB)) sv
      = (sv1, Registered)" "service_request T t2 alice_peer (ResolveInvite (ic_code_hash cfB)) sv1
      = (sv2, Resolved bob_peer (List.map_filter (sanitize_direct_address_text T) (ci_direct_addresses stB)))"
    using register_then_resolve [OF service(4-8)] by blast
  let ?addresses = "List.map_filter (sanitize_direct_address_text T) (ci_direct_addresses stB)"
  obtain stB0 where stB0: "\<And>evs. create_invite_run K C T lan cfB
      ((e0, ReservationReqAccepted svc False) # (e0, PairingApp (EvResponse svc Registered)) # evs) stB
      = (case create_invite_run K C T lan cfB evs stB0 of (st2, acts, r) \<Rightarrow>
          (st2, SendRequest svc (RegisterInvite (ic_code_hash cfB) (ic_expires_at cfB) (ci_direct_addresses stB)) # acts, r))"
    "ci_registered stB0" "ci_bob stB0 = ci_bob stB" "ci_db stB0 = ci_db stB"
    using invite_registers [OF B(4-6) service(1), of K C T lan e0 e0] by blast
  obtain stA1 acts where stA1: "join_invite_run K C T parse_peer cfA
      [(e0, Established svc False), (e0, PairingApp (EvResponse svc (Resolved bob_peer ?addresses))), (e0, Established bob_peer relayed)] stA
      = (stA1, SendRequest svc (ResolveInvite (jc_code_hash cfA)) # acts @ [SendRequest bob_peer PreKeyBundleRequest], Pending)"
    "ji_target_peer_id stA1 = Some bob_peer" "ji_alice stA1 = ji_alice stA" "ji_db stA1 = ji_db stA"
    using join_reaches_inviter [where parse_peer = parse_peer and bob_peer = bob_peer and cf = cfA, OF T _ A(3,4),
        of K C e0 e0 ?addresses e0 relayed] service(3) by (auto simp: cf(1))
  have pre: "bob_wf K (ci_bob stB0)" "alice_peer \<noteq> ic_service_peer_id cfB" "peers_ok (ci_db stB0)"
    "bob_peer \<noteq> jc_service_peer_id cfA" "peers_ok (ji_db stA1)"
    using B(1,2) A(1) service(1-3) stB0(3,4) stA1(4) cf(1) by simp_all
  obtain payload initial stB1 stB2 stA2 sa sb where x:
      "create_invite_step K C T lan cfB e0 (PairingApp (EvRequest alice_peer PreKeyBundleRequest)) stB0 =
        (stB1, [SendResponse (PreKeyBundleResponse payload)], Pending)"
      "join_invite_step K C T parse_peer cfA e1 (PairingApp (EvResponse bob_peer (PreKeyBundleResponse payload))) stA1 =
        (stA2, [SendRequest bob_peer (InitialMessageRequest initial)], AwaitAck bob_peer
          (display_name_or_anonymous (ic_local_display_name cfB)) (contact_id_for_identity K (ik_public_key K (bo_identity (ci_bob stB)))))"
      "create_invite_step K C T lan cfB e2 (PairingApp (EvRequest alice_peer (InitialMessageRequest initial))) stB1 =
        (stB2, [SendResponse (Ack ''paired'')], Paired alice_peer \<lparr>pcc_local_display_name = ic_local_display_name cfB,
          pcc_remote_display_name = display_name_or_anonymous (jc_local_display_name cfA),
          pcc_conversation_id = contact_id_for_identity K (ik_public_key K (al_identity (ji_alice stA)))\<rparr>)"
      "al_session (ji_alice stA2) = Some sa" "bo_session (ci_bob stB2) = Some sb" "in_step K 1 sa sb"
      "pending_peer_messages (ci_db stB2) = []" "pending_peer_messages (ji_db stA2) = []"
    using pairing_exchange [where lan = lan, OF K C pre(1) stB0(2) pre(2,3) stA1(2) pre(4,5) env, unfolded stB0(3,4) stA1(3,4)] B(3) A(2)
    by blast
  let ?cxA = "\<lparr>pcc_local_display_name = jc_local_display_name cfA, pcc_remote_display_name = display_name_or_anonymous (ic_local_display_name cfB),
      pcc_conversation_id = contact_id_for_identity K (ik_public_key K (bo_identity (ci_bob stB)))\<rparr>"
    and ?cxB = "\<lparr>pcc_local_display_name = ic_local_display_name cfB, pcc_remote_display_name = display_name_or_anonymous (jc_local_display_name cfA),
      pcc_conversation_id = contact_id_for_identity K (ik_public_key K (al_identity (ji_alice stA)))\<rparr>"
  note chat = first_line_arrives [OF K(1) C x(6,4,5,8,7) line, of now ?cxA ?cxB bob_peer now1 random1 alice_peer now2 random2]
  have runB: "create_invite_run K C T lan cfB
      [(e0, PairingApp (EvRequest alice_peer PreKeyBundleRequest)), (e2, PairingApp (EvRequest alice_peer (InitialMessageRequest initial)))] stB0
      = (stB2, [SendResponse (PreKeyBundleResponse payload), SendResponse (Ack ''paired'')], Paired alice_peer ?cxB)"
    by (simp add: x(1,3) del: create_invite_step.simps)
  show ?thesis
    by (rule exI [of _ sv1], rule exI [of _ sv2], rule exI [of _ ?addresses], rule exI [of _ payload], rule exI [of _ initial],
        rule exI [of _ acts], rule exI [of _ stA1], rule exI [of _ stA2], rule exI [of _ stB2], rule exI [of _ ?cxA], rule exI [of _ ?cxB],
        intro conjI chat)
       (use sv stA1(1) x(2) in \<open>simp_all add: stB0(1) runB cf(2) del: create_invite_run.simps join_invite_run.simps join_invite_step.simps\<close>)
qed

text \<open>An inviter and a joiner with new databases, and a service that has accepted the inviter's reservation.\<close>

definition toy_inviter :: create_invite where
  "toy_inviter = \<lparr>ci_registered = False, ci_registration_sent = False, ci_reservation_confirmed = False,
     ci_direct_listener_ready = True, ci_direct_addresses = [], ci_bob = toy_bob, ci_db = init_db\<rparr>"

definition toy_joiner :: join_invite where
  "toy_joiner = fst (join_invite_start None toy_join_config (alice_local toy_crypto [5] [6]) init_db)"

theorem invite_leads_to_chat_witness:
  "\<exists>initial stB1 acts cxB cfB. create_invite_config toy_crypto ''Bob'' [P2p ''S''] 0 (Some (replicate 6 0)) = Inr (''AAAAAA'', cfB)
     \<and> create_invite_run toy_crypto toy_chat_codec toy_addr_text None cfB
         [(toy_env, ReservationReqAccepted ''S'' False), (toy_env, PairingApp (EvResponse ''S'' Registered)),
          (toy_env, PairingApp (EvRequest ''A'' PreKeyBundleRequest)), (toy_env, PairingApp (EvRequest ''A'' (InitialMessageRequest initial)))]
         toy_inviter = (stB1, acts, Paired ''A'' cxB)"
proof -
  let ?cfB = "\<lparr>ic_local_display_name = ''Bob'', ic_service_addr = [P2p ''S''], ic_service_peer_id = ''S'',
    ic_code_hash = invite_code_hash toy_crypto ''AAAAAA'', ic_expires_at = 300\<rparr>"
  let ?cfA = "\<lparr>jc_local_display_name = ''Ann'', jc_service_addr = [P2p ''S''], jc_service_peer_id = ''S'',
    jc_code_hash = invite_code_hash toy_crypto ''AAAAAA''\<rparr>"
  let ?sv = "\<lparr>sv_invitations = Map.empty, sv_reserved = {''B''}\<rparr>"
  have peer: "peer_id_from_service_addr [P2p ''S''] = Inr ''S''" by (simp add: peer_id_from_service_addr_def strip_p2p_def)
  have code: "generate_invite_code (Some (replicate 6 0)) = Inr ''AAAAAA''" "normalize_invite_code ''aaa-aaa'' = Inr ''AAAAAA''" by code_simp+
  have cfB: "create_invite_config toy_crypto ''Bob'' [P2p ''S''] 0 (Some (replicate 6 0)) = Inr (''AAAAAA'', ?cfB)"
    using code(1) by (simp add: create_invite_config_def peer INVITE_TTL_SECS_def)
  have cfA: "join_invite_config toy_crypto ''aaa-aaa'' ''Ann'' [P2p ''S''] = Inr ?cfA"
    using code(2) by (simp add: join_invite_config_def peer)
  have svc: "''S'' = ic_service_peer_id ?cfB" "''A'' \<noteq> ''S''" "''B'' \<noteq> ''S''" "''B'' \<in> sv_reserved ?sv"
    "sv_invitations ?sv (ic_code_hash ?cfB) = None" by simp_all
  have time: "1 < ic_expires_at ?cfB" "ic_expires_at ?cfB \<le> 1 + INVITE_TTL_SECS" "2 < ic_expires_at ?cfB"
    by (simp_all add: INVITE_TTL_SECS_def)
  have B: "bob_wf toy_crypto (ci_bob toy_inviter)" "peers_ok (ci_db toy_inviter)" "pending_peer_messages (ci_db toy_inviter) = []"
    "\<not> ci_registered toy_inviter" "\<not> ci_registration_sent toy_inviter" "ci_direct_listener_ready toy_inviter"
    by (simp_all add: toy_inviter_def bob_wf_def toy_bob_def bob_local_def from_private_bytes_def peers_ok_def init_tables)
  have A: "peers_ok (ji_db toy_joiner)" "pending_peer_messages (ji_db toy_joiner) = []" "\<not> ji_lookup_sent toy_joiner" "\<not> ji_requested_bundle toy_joiner"
    by (simp_all add: toy_joiner_def join_invite_start_def peers_ok_def init_tables)
  have env: "\<not> se_fails toy_env i" for i by (simp add: toy_env_def)
  have line: "''hi'' \<noteq> []" "is_str ''hi''" "\<not> is_chat_back_command ''hi''" by (simp, code_simp+)
  from invite_leads_to_chat [where parse_peer = Some and bob_peer = "''B''" and lan = None, OF toy_crypto_ok toy_sig_correct toy_chat_codec_ok
      toy_addr_text_ok refl cfB cfA code(2) svc(1-5) time B A env env line]
  show ?thesis using cfB by blast
qed

end
